(* ===== verification/Prelude.thy ===== *)
theory Prelude
  imports Main "HOL-Library.Sublist" "HOL-Library.Multiset" "HOL-Library.Char_ord"
    "HOL-Library.List_Lexorder" "HOL-Library.Product_Lexorder"
begin

text \<open>
  What every theory of the development shares: the collections that the component proofs
  hand to the simplifier, the reading of Go's \<open>error\<close> result, loops that stop at their
  first error, loops that remember what they have seen, and lookups in association lists
  (Go maps whose keys the code ranges over).
\<close>

section \<open>Collections of rules\<close>

named_theorems go_string \<open>facts about the modelled string functions\<close>
named_theorems validator \<open>what a validator that returns no error guarantees\<close>
named_theorems store_inv \<open>operations of a store that keep its invariant\<close>
named_theorems table \<open>facts about the modelled SQL statements\<close>

section \<open>Errors and results\<close>

text \<open>
  A Go function whose only result is an \<open>error\<close> is a function into \<open>'e option\<close>, with
  \<open>None\<close> for \<open>nil\<close>. A function with a value and an error is a function into \<open>'e + 'a\<close>.
\<close>

type_synonym ('e, 'a) result = "'e + 'a"

definition or_else :: "'e option \<Rightarrow> 'e option \<Rightarrow> 'e option" where
  "or_else a b = (case a of Some e \<Rightarrow> Some e | None \<Rightarrow> b)"

lemma or_else_None [simp]: "or_else a b = None \<longleftrightarrow> a = None \<and> b = None"
  by (cases a) (auto simp: or_else_def)

lemma or_else_Some_iff: "or_else a b = Some e \<longleftrightarrow> a = Some e \<or> a = None \<and> b = Some e"
  by (cases a) (auto simp: or_else_def)

primrec fail_if :: "bool \<Rightarrow> 'e \<Rightarrow> 'e option" where
  "fail_if True e = Some e"
| "fail_if False e = None"

lemma fail_if_None [simp]: "fail_if b e = None \<longleftrightarrow> \<not> b"
  by (cases b) auto

lemma fail_if_Some [simp]: "fail_if b e = Some e' \<longleftrightarrow> b \<and> e = e'"
  by (cases b) auto

section \<open>Loops that return at the first error\<close>

fun first_error :: "('a \<Rightarrow> 'e option) \<Rightarrow> 'a list \<Rightarrow> 'e option" where
  "first_error f [] = None"
| "first_error f (x # xs) = or_else (f x) (first_error f xs)"

lemma first_error_None [simp]: "first_error f xs = None \<longleftrightarrow> (\<forall>x \<in> set xs. f x = None)"
  by (induction xs) auto

lemma first_error_Some: "first_error f xs = Some e \<Longrightarrow> \<exists>x \<in> set xs. f x = Some e"
  by (induction xs) (auto simp: or_else_Some_iff)

text \<open>The same loop with the index Go's \<open>range\<close> gives.\<close>

fun first_error_from :: "nat \<Rightarrow> (nat \<Rightarrow> 'a \<Rightarrow> 'e option) \<Rightarrow> 'a list \<Rightarrow> 'e option" where
  "first_error_from i f [] = None"
| "first_error_from i f (x # xs) = or_else (f i x) (first_error_from (Suc i) f xs)"

lemma first_error_from_None:
  "first_error_from i f xs = None \<longleftrightarrow> (\<forall>j < length xs. f (i + j) (xs ! j) = None)"
proof (induction xs arbitrary: i)
  case (Cons x xs)
  show ?case
  proof
    assume "first_error_from i f (x # xs) = None"
    then have x: "f i x = None" and xs: "\<forall>j < length xs. f (Suc i + j) (xs ! j) = None"
      using Cons.IH [of "Suc i"] by auto
    show "\<forall>j < length (x # xs). f (i + j) ((x # xs) ! j) = None"
    proof (intro allI impI)
      fix j assume "j < length (x # xs)"
      then show "f (i + j) ((x # xs) ! j) = None"
        using x xs by (cases j) auto
    qed
  next
    assume *: "\<forall>j < length (x # xs). f (i + j) ((x # xs) ! j) = None"
    then have "f i x = None" by (metis add_0_right length_greater_0_conv list.distinct(1) nth_Cons_0)
    moreover have "\<forall>j < length xs. f (Suc i + j) (xs ! j) = None"
    proof (intro allI impI)
      fix j assume "j < length xs"
      with * have "f (i + Suc j) ((x # xs) ! Suc j) = None" by (metis Suc_less_eq length_Cons)
      then show "f (Suc i + j) (xs ! j) = None" by simp
    qed
    ultimately show "first_error_from i f (x # xs) = None"
      using Cons.IH [of "Suc i"] by simp
  qed
qed simp

lemma first_error_from_set:
  assumes "first_error_from i f xs = None" and "x \<in> set xs"
  shows "\<exists>j. f j x = None"
proof -
  from assms(2) obtain j where "j < length xs" "xs ! j = x" by (auto simp: in_set_conv_nth)
  with assms(1) show ?thesis by (auto simp: first_error_from_None)
qed

lemma first_error_from_const [simp]:
  "first_error_from i (\<lambda>_. f) xs = first_error f xs"
  by (induction xs arbitrary: i) auto

section \<open>Loops that remember what they have seen\<close>

text \<open>
  \<open>seen := map[string]bool\{\}\<close> followed by a loop that rejects an element whose key was
  seen: \<open>no_repeats\<close> is the acceptance of that loop.
\<close>

fun first_repeat :: "('a \<Rightarrow> 'k) \<Rightarrow> 'k list \<Rightarrow> 'a list \<Rightarrow> 'a option" where
  "first_repeat key seen [] = None"
| "first_repeat key seen (x # xs) =
     (if key x \<in> set seen then Some x else first_repeat key (key x # seen) xs)"

lemma first_repeat_None_gen:
  "first_repeat key seen xs = None \<longleftrightarrow>
     distinct (map key xs) \<and> set seen \<inter> key ` set xs = {}"
  by (induction xs arbitrary: seen) auto

lemma first_repeat_None [simp]: "first_repeat key [] xs = None \<longleftrightarrow> distinct (map key xs)"
  by (simp add: first_repeat_None_gen)

text \<open>Keep the first element of each key, as \<open>if !seen[x] \{ append; seen[x] = true \}\<close> does.\<close>

fun dedup_onto :: "('a \<Rightarrow> 'k) \<Rightarrow> 'k list \<Rightarrow> 'a list \<Rightarrow> 'a list" where
  "dedup_onto key seen [] = []"
| "dedup_onto key seen (x # xs) =
     (if key x \<in> set seen then dedup_onto key seen xs
      else x # dedup_onto key (key x # seen) xs)"

abbreviation dedup_by :: "('a \<Rightarrow> 'k) \<Rightarrow> 'a list \<Rightarrow> 'a list" where
  "dedup_by key xs \<equiv> dedup_onto key [] xs"

lemma set_dedup_onto_subset: "set (dedup_onto key seen xs) \<subseteq> set xs"
  by (induction key seen xs rule: dedup_onto.induct) auto

lemma keys_dedup_onto:
  "key ` set (dedup_onto key seen xs) = key ` set xs - set seen"
  by (induction key seen xs rule: dedup_onto.induct) auto

lemma distinct_dedup_onto:
  "distinct (map key (dedup_onto key seen xs)) \<and>
   set seen \<inter> key ` set (dedup_onto key seen xs) = {}"
  by (induction key seen xs rule: dedup_onto.induct) (auto simp: keys_dedup_onto)

lemma distinct_dedup_by [simp]: "distinct (map key (dedup_by key xs))"
  using distinct_dedup_onto [of key "[]" xs] by simp

lemma distinct_dedup_id [simp]: "distinct (dedup_by (\<lambda>x. x) xs)"
  using distinct_dedup_by [of "\<lambda>x. x" xs] by simp

lemma set_dedup_id [simp]: "set (dedup_by (\<lambda>x. x) xs) = set xs"
  using keys_dedup_onto [of "\<lambda>x. x" "[]" xs] by simp

lemma dedup_onto_distinct:
  "distinct (map key xs) \<Longrightarrow> set seen \<inter> key ` set xs = {} \<Longrightarrow> dedup_onto key seen xs = xs"
  by (induction key seen xs rule: dedup_onto.induct) auto

section \<open>Maps that the code ranges over\<close>

text \<open>
  A Go map is an association list with distinct keys. Reading a missing key gives the zero
  value, here the empty string.
\<close>

type_synonym smap = "(string \<times> string) list"

definition mget :: "smap \<Rightarrow> string \<Rightarrow> string" where
  "mget m k = (case map_of m k of Some v \<Rightarrow> v | None \<Rightarrow> [])"

lemma mget_Nil [simp]: "mget [] k = []"
  by (simp add: mget_def)

lemma mget_Cons [simp]: "mget ((a, b) # m) k = (if k = a then b else mget m k)"
  by (simp add: mget_def)

section \<open>Lists\<close>

lemma find_Some_in_set: "find P xs = Some x \<Longrightarrow> x \<in> set xs \<and> P x"
  by (auto simp: find_Some_iff)

lemma find_None_all: "find P xs = None \<longleftrightarrow> (\<forall>x \<in> set xs. \<not> P x)"
  by (auto simp: find_None_iff)

lemma distinct_map_filter_keys: "distinct (map f xs) \<Longrightarrow> distinct (map f (filter P xs))"
  by (induction xs) auto

lemma distinct_map_inj_on: "distinct (map f xs) \<Longrightarrow> x \<in> set xs \<Longrightarrow> y \<in> set xs \<Longrightarrow> f x = f y \<Longrightarrow> x = y"
  by (auto simp: distinct_map dest: inj_onD)

lemma map_key_update:
  assumes "\<And>x. key (f x) = key x"
  shows "map key (map (\<lambda>x. if P x then f x else x) xs) = map key xs"
  using assms by (induction xs) auto

lemma length_filter_mono:
  "(\<And>x. x \<in> set xs \<Longrightarrow> P x \<Longrightarrow> Q x) \<Longrightarrow> length (filter P xs) \<le> length (filter Q xs)"
  by (induction xs) auto

lemma sorted_take: "sorted xs \<Longrightarrow> sorted (take n xs)"
  by (rule sorted_wrt_take)

end
