(* ===== verification/GoLib.thy ===== *)
theory GoLib
  imports Prelude
begin

text \<open>
  The parts of Go's language and standard library that the sources use, written out: byte
  strings (a Go string is a sequence of bytes, here a \<open>char list\<close>), \<open>strings.TrimSpace\<close>,
  \<open>strings.Split\<close> and \<open>strings.Cut\<close> at a one-byte separator, UTF-8 decoding as \<open>range\<close> over a
  string and \<open>unicode/utf8\<close> do it, \<open>strconv\<close>'s decimal integers, \<open>encoding/hex\<close> and the
  instants of \<open>time.Time\<close>.

  What the sources only call and never look into is the record \<open>golib\<close>: the digest of
  \<open>crypto/sha256\<close>, the parser of \<open>net/url\<close>, the parsers of the UUID packages and the text that
  \<open>encoding/json\<close> gives a value, the text of an instant, the check that bytes are a point of the
  curve P-256, and the seconds that SQLite's \<open>unixepoch\<close> reads from a stored instant. Every definition that uses one takes the record as an argument,
  so the theorems hold for each implementation of it; a theorem that relies on a documented
  behaviour names it as a hypothesis.
\<close>

section \<open>Trimming white space\<close>

text \<open>
  \<open>strings.TrimSpace\<close> removes leading and trailing code points for which \<open>unicode.IsSpace\<close>
  holds. A string starts (ends) with such a code point exactly when it starts (ends) with its
  UTF-8 encoding, so the function is written with the list of those encodings.
\<close>

definition space_encodings :: "string list" where
  "space_encodings =
     [[CHR 0x09], [CHR 0x0A], [CHR 0x0B], [CHR 0x0C], [CHR 0x0D], [CHR 0x20],
      [CHR 0xC2, CHR 0x85], [CHR 0xC2, CHR 0xA0],
      [CHR 0xE1, CHR 0x9A, CHR 0x80],
      [CHR 0xE2, CHR 0x80, CHR 0x80], [CHR 0xE2, CHR 0x80, CHR 0x81],
      [CHR 0xE2, CHR 0x80, CHR 0x82], [CHR 0xE2, CHR 0x80, CHR 0x83],
      [CHR 0xE2, CHR 0x80, CHR 0x84], [CHR 0xE2, CHR 0x80, CHR 0x85],
      [CHR 0xE2, CHR 0x80, CHR 0x86], [CHR 0xE2, CHR 0x80, CHR 0x87],
      [CHR 0xE2, CHR 0x80, CHR 0x88], [CHR 0xE2, CHR 0x80, CHR 0x89],
      [CHR 0xE2, CHR 0x80, CHR 0x8A], [CHR 0xE2, CHR 0x80, CHR 0xA8],
      [CHR 0xE2, CHR 0x80, CHR 0xA9], [CHR 0xE2, CHR 0x80, CHR 0xAF],
      [CHR 0xE2, CHR 0x81, CHR 0x9F], [CHR 0xE3, CHR 0x80, CHR 0x80]]"

lemma space_encodings_nonempty: "[] \<notin> set space_encodings"
  by (simp add: space_encodings_def)

function TrimLeftSpace :: "string \<Rightarrow> string" where
  "TrimLeftSpace s =
     (case find (\<lambda>e. prefix e s) space_encodings of
        None \<Rightarrow> s
      | Some e \<Rightarrow> TrimLeftSpace (drop (length e) s))"
  by pat_completeness auto
termination
proof (relation "measure length")
  fix s e assume "find (\<lambda>e. prefix e s) space_encodings = Some e"
  then have "e \<in> set space_encodings" and "prefix e s" by (auto dest: find_Some_in_set)
  then have "e \<noteq> []" and "s \<noteq> []" using space_encodings_nonempty by auto
  then show "(drop (length e) s, s) \<in> measure length" by simp
qed simp

function TrimRightSpace :: "string \<Rightarrow> string" where
  "TrimRightSpace s =
     (case find (\<lambda>e. suffix e s) space_encodings of
        None \<Rightarrow> s
      | Some e \<Rightarrow> TrimRightSpace (take (length s - length e) s))"
  by pat_completeness auto
termination
proof (relation "measure length")
  fix s e assume "find (\<lambda>e. suffix e s) space_encodings = Some e"
  then have "e \<in> set space_encodings" and "suffix e s" by (auto dest: find_Some_in_set)
  then have "e \<noteq> []" and "s \<noteq> []" using space_encodings_nonempty by auto
  then show "(take (length s - length e) s, s) \<in> measure length" by simp
qed simp

declare TrimLeftSpace.simps [simp del] TrimRightSpace.simps [simp del]

definition TrimSpace :: "string \<Rightarrow> string" where
  "TrimSpace s = TrimRightSpace (TrimLeftSpace s)"

definition starts_space :: "string \<Rightarrow> bool" where
  "starts_space s \<longleftrightarrow> list_ex (\<lambda>e. prefix e s) space_encodings"

definition ends_space :: "string \<Rightarrow> bool" where
  "ends_space s \<longleftrightarrow> list_ex (\<lambda>e. suffix e s) space_encodings"

text \<open>A trimmed string neither starts nor ends with white space.\<close>

definition trimmed :: "string \<Rightarrow> bool" where
  "trimmed s \<longleftrightarrow> \<not> starts_space s \<and> \<not> ends_space s"

lemma TrimLeftSpace_id: "\<not> starts_space s \<Longrightarrow> TrimLeftSpace s = s"
  by (subst TrimLeftSpace.simps)
     (auto simp: starts_space_def list_ex_iff dest: find_Some_in_set split: option.split)

lemma TrimRightSpace_id: "\<not> ends_space s \<Longrightarrow> TrimRightSpace s = s"
  by (subst TrimRightSpace.simps)
     (auto simp: ends_space_def list_ex_iff dest: find_Some_in_set split: option.split)

lemma TrimLeftSpace_not_starts: "\<not> starts_space (TrimLeftSpace s)"
proof (induction s rule: TrimLeftSpace.induct)
  case (1 s)
  show ?case
  proof (cases "find (\<lambda>e. prefix e s) space_encodings")
    case None
    then have "\<not> starts_space s" by (auto simp: starts_space_def list_ex_iff find_None_all)
    with None show ?thesis by (simp add: TrimLeftSpace.simps [of s])
  next
    case (Some e)
    with 1 [OF Some] show ?thesis by (simp add: TrimLeftSpace.simps [of s])
  qed
qed

lemma TrimRightSpace_not_ends: "\<not> ends_space (TrimRightSpace s)"
proof (induction s rule: TrimRightSpace.induct)
  case (1 s)
  show ?case
  proof (cases "find (\<lambda>e. suffix e s) space_encodings")
    case None
    then have "\<not> ends_space s" by (auto simp: ends_space_def list_ex_iff find_None_all)
    with None show ?thesis by (simp add: TrimRightSpace.simps [of s])
  next
    case (Some e)
    with 1 [OF Some] show ?thesis by (simp add: TrimRightSpace.simps [of s])
  qed
qed

lemma TrimRightSpace_prefix: "prefix (TrimRightSpace s) s"
proof (induction s rule: TrimRightSpace.induct)
  case (1 s)
  show ?case
  proof (cases "find (\<lambda>e. suffix e s) space_encodings")
    case None
    then show ?thesis by (simp add: TrimRightSpace.simps [of s])
  next
    case (Some e)
    with 1 [OF Some] show ?thesis
      by (simp add: TrimRightSpace.simps [of s]) (meson prefix_order.trans take_is_prefix)
  qed
qed

lemma starts_space_prefix: "prefix t s \<Longrightarrow> starts_space t \<Longrightarrow> starts_space s"
  by (auto simp: starts_space_def list_ex_iff intro: prefix_order.trans)

lemma trimmed_TrimSpace [simp, go_string]: "trimmed (TrimSpace s)"
  unfolding trimmed_def TrimSpace_def
  using TrimRightSpace_not_ends TrimLeftSpace_not_starts TrimRightSpace_prefix starts_space_prefix
  by blast

lemma TrimSpace_trimmed [go_string]: "trimmed s \<Longrightarrow> TrimSpace s = s"
  by (simp add: trimmed_def TrimSpace_def TrimLeftSpace_id TrimRightSpace_id)

lemma TrimSpace_idem [simp, go_string]: "TrimSpace (TrimSpace s) = TrimSpace s"
  by (simp add: TrimSpace_trimmed)

lemma trimmed_iff_fixed: "trimmed s \<longleftrightarrow> TrimSpace s = s"
  by (metis TrimSpace_trimmed trimmed_TrimSpace)

lemma trimmed_Nil [simp]: "trimmed []"
  by (simp add: trimmed_def starts_space_def ends_space_def space_encodings_def)

lemma TrimSpace_Nil [simp]: "TrimSpace [] = []"
  by (simp add: TrimSpace_trimmed)

text \<open>
  A string whose first and last bytes are ASCII letters, digits or their neighbours in the code chart
  is trimmed; evaluation uses this test before it looks at the encodings.
\<close>

fun plain_char :: "char \<Rightarrow> bool" where
  "plain_char (Char b0 b1 b2 b3 b4 b5 b6 b7) \<longleftrightarrow> \<not> b7 \<and> (b6 \<or> b5 \<and> b4)"

lemma plain_trimmed: "plain_char (hd s) \<Longrightarrow> plain_char (last s) \<Longrightarrow> s \<noteq> [] \<Longrightarrow> trimmed s"
proof -
  assume h: "plain_char (hd s)" and l: "plain_char (last s)" and s: "s \<noteq> []"
  have enc: "\<forall>e \<in> set space_encodings. e \<noteq> [] \<and> \<not> plain_char (hd e) \<and> \<not> plain_char (last e)"
    by (simp add: space_encodings_def)
  have "\<not> prefix e s" if "e \<in> set space_encodings" for e
    using that enc h by (auto simp: prefix_def)
  moreover have "\<not> suffix e s" if "e \<in> set space_encodings" for e
    using that enc l by (auto simp: suffix_def)
  ultimately show ?thesis by (auto simp: trimmed_def starts_space_def ends_space_def list_ex_iff)
qed

lemma TrimSpace_code [code]:
  "TrimSpace s =
     (if s = [] \<or> plain_char (hd s) \<and> plain_char (last s) then s else TrimRightSpace (TrimLeftSpace s))"
proof (cases "s = [] \<or> plain_char (hd s) \<and> plain_char (last s)")
  case True
  with plain_trimmed [of s] have "TrimSpace s = s" by (cases "s = []") (auto intro: TrimSpace_trimmed)
  with True show ?thesis by simp
qed (auto simp: TrimSpace_def)

lemma length_TrimLeftSpace: "length (TrimLeftSpace s) \<le> length s"
proof (induction s rule: TrimLeftSpace.induct)
  case (1 s)
  show ?case
  proof (cases "find (\<lambda>e. prefix e s) space_encodings")
    case None
    then show ?thesis by (simp add: TrimLeftSpace.simps [of s])
  next
    case (Some e)
    with 1 [OF Some] show ?thesis by (simp add: TrimLeftSpace.simps [of s])
  qed
qed

lemma length_TrimSpace: "length (TrimSpace s) \<le> length s"
  unfolding TrimSpace_def
  using prefix_length_le [OF TrimRightSpace_prefix] length_TrimLeftSpace le_trans by blast

section \<open>Splitting\<close>

text \<open>\<open>strings.Split(s, sep)\<close> for a one-byte separator: never empty.\<close>

fun Split :: "char \<Rightarrow> string \<Rightarrow> string list" where
  "Split c [] = [[]]"
| "Split c (x # xs) =
     (if x = c then [] # Split c xs
      else (case Split c xs of [] \<Rightarrow> [[x]] | p # ps \<Rightarrow> (x # p) # ps))"

lemma Split_nonempty [simp]: "Split c s \<noteq> []"
  by (induction s) (auto split: list.split)

lemma Split_parts_sep: "p \<in> set (Split c s) \<Longrightarrow> c \<notin> set p"
  by (induction s arbitrary: p) (auto split: list.splits if_splits)

text \<open>\<open>strings.Cut(s, sep)\<close>: the text before and after the first separator, if there is one.\<close>

fun Cut :: "char \<Rightarrow> string \<Rightarrow> (string \<times> string) option" where
  "Cut c [] = None"
| "Cut c (x # xs) =
     (if x = c then Some ([], xs)
      else (case Cut c xs of None \<Rightarrow> None | Some (a, b) \<Rightarrow> Some (x # a, b)))"

lemma Cut_append [go_string]: "c \<notin> set a \<Longrightarrow> Cut c (a @ c # b) = Some (a, b)"
  by (induction a) auto

lemma Cut_Some: "Cut c s = Some (a, b) \<Longrightarrow> s = a @ c # b \<and> c \<notin> set a"
  by (induction s arbitrary: a) (auto split: if_splits option.splits prod.splits)

lemma Cut_None: "Cut c s = None \<longleftrightarrow> c \<notin> set s"
  by (induction s) (auto split: option.splits)

definition TrimPrefix :: "string \<Rightarrow> string \<Rightarrow> string" where
  "TrimPrefix s p = (if prefix p s then drop (length p) s else s)"

definition TrimSuffix :: "string \<Rightarrow> string \<Rightarrow> string" where
  "TrimSuffix s p = (if suffix p s then take (length s - length p) s else s)"

lemma TrimPrefix_append [simp, go_string]: "TrimPrefix (p @ s) p = s"
  by (simp add: TrimPrefix_def)

definition ContainsAny :: "string \<Rightarrow> string \<Rightarrow> bool" where
  "ContainsAny s cs \<longleftrightarrow> list_ex (\<lambda>c. List.member cs c) s"

lemma ContainsAny_iff: "ContainsAny s cs \<longleftrightarrow> set s \<inter> set cs \<noteq> {}"
  by (auto simp: ContainsAny_def list_ex_iff)

text \<open>
  \<open>strings.ToLower\<close> and \<open>strings.EqualFold\<close> on ASCII text; the sources apply them to hexadecimal
  digits and to the word \<open>Bearer\<close>.
\<close>

definition lower_char :: "char \<Rightarrow> char" where
  "lower_char c = (if of_char c \<ge> (65::nat) \<and> of_char c \<le> (90::nat) then char_of (of_char c + (32::nat)) else c)"

definition ToLower :: "string \<Rightarrow> string" where
  "ToLower s = map lower_char s"

section \<open>UTF-8\<close>

text \<open>
  \<open>utf8.DecodeRuneInString\<close>: the first code point and its width; \<open>(0xFFFD, 1)\<close> where the bytes
  are not valid UTF-8 (overlong forms, surrogates and values beyond U+10FFFF included).
\<close>

definition RuneError :: nat where
  "RuneError = 0xFFFD"

definition byte :: "char \<Rightarrow> nat" where
  "byte c = of_char c"

definition is_cont :: "nat \<Rightarrow> bool" where
  "is_cont b \<longleftrightarrow> 0x80 \<le> b \<and> b \<le> 0xBF"

fun decode_rune :: "string \<Rightarrow> nat \<times> nat" where
  "decode_rune [] = (RuneError, 0)"
| "decode_rune (c # cs) =
     (let b = byte c in
      if b < 0x80 then (b, 1)
      else if 0xC2 \<le> b \<and> b \<le> 0xDF then
        (case cs of
           c1 # _ \<Rightarrow> if is_cont (byte c1) then ((b - 0xC0) * 64 + (byte c1 - 0x80), 2) else (RuneError, 1)
         | [] \<Rightarrow> (RuneError, 1))
      else if 0xE0 \<le> b \<and> b \<le> 0xEF then
        (case cs of
           c1 # c2 # _ \<Rightarrow>
             if (if b = 0xE0 then 0xA0 else 0x80) \<le> byte c1 \<and> byte c1 \<le> (if b = 0xED then 0x9F else 0xBF)
                \<and> is_cont (byte c2)
             then ((b - 0xE0) * 4096 + (byte c1 - 0x80) * 64 + (byte c2 - 0x80), 3) else (RuneError, 1)
         | _ \<Rightarrow> (RuneError, 1))
      else if 0xF0 \<le> b \<and> b \<le> 0xF4 then
        (case cs of
           c1 # c2 # c3 # _ \<Rightarrow>
             if (if b = 0xF0 then 0x90 else 0x80) \<le> byte c1 \<and> byte c1 \<le> (if b = 0xF4 then 0x8F else 0xBF)
                \<and> is_cont (byte c2) \<and> is_cont (byte c3)
             then ((b - 0xF0) * 262144 + (byte c1 - 0x80) * 4096 + (byte c2 - 0x80) * 64 + (byte c3 - 0x80), 4)
             else (RuneError, 1)
         | _ \<Rightarrow> (RuneError, 1))
      else (RuneError, 1))"

lemma decode_rune_width: "snd (decode_rune (c # cs)) \<ge> 1"
  by (auto simp: Let_def split: list.split)

text \<open>\<open>for _, r := range s\<close>: the code points with their widths.\<close>

function runes_of :: "string \<Rightarrow> (nat \<times> nat) list" where
  "runes_of [] = []"
| "runes_of (c # cs) = decode_rune (c # cs) # runes_of (drop (snd (decode_rune (c # cs))) (c # cs))"
  by pat_completeness auto
termination
proof (relation "measure length")
  fix c cs
  show "(drop (snd (decode_rune (c # cs))) (c # cs), c # cs) \<in> measure length"
    using decode_rune_width [of c cs] by simp
qed simp

definition RuneCount :: "string \<Rightarrow> nat" where
  "RuneCount s = length (runes_of s)"

definition ValidString :: "string \<Rightarrow> bool" where
  "ValidString s \<longleftrightarrow> list_all (\<lambda>r. r \<noteq> (RuneError, 1)) (runes_of s)"

text \<open>\<open>unicode.IsControl\<close>, the text of code points and the code points of UTF-16.\<close>

definition IsControl :: "nat \<Rightarrow> bool" where
  "IsControl r \<longleftrightarrow> r < 0x20 \<or> 0x7F \<le> r \<and> r < 0xA0"

definition encode_rune :: "nat \<Rightarrow> string" where
  "encode_rune r0 =
     (let r = (if 0x10FFFF < r0 \<or> 0xD800 \<le> r0 \<and> r0 < 0xE000 then RuneError else r0) in
      map char_of
        (if r < 0x80 then [r]
         else if r < 0x800 then [0xC0 + r div 64, 0x80 + r mod 64]
         else if r < 0x10000 then [0xE0 + r div 4096, 0x80 + r div 64 mod 64, 0x80 + r mod 64]
         else [0xF0 + r div 262144, 0x80 + r div 4096 mod 64, 0x80 + r div 64 mod 64, 0x80 + r mod 64]))"

definition stringOfRunes :: "nat list \<Rightarrow> string" where
  "stringOfRunes rs = concat (map encode_rune rs)"

fun decode_utf16 :: "nat list \<Rightarrow> nat list" where
  "decode_utf16 [] = []"
| "decode_utf16 [u] = [if 0xD800 \<le> u \<and> u < 0xE000 then RuneError else u]"
| "decode_utf16 (u # v # us) =
     (if 0xD800 \<le> u \<and> u < 0xDC00 \<and> 0xDC00 \<le> v \<and> v < 0xE000
      then ((u - 0xD800) * 1024 + (v - 0xDC00) + 0x10000) # decode_utf16 us
      else (if 0xD800 \<le> u \<and> u < 0xE000 then RuneError else u) # decode_utf16 (v # us))"

lemma RuneCount_le: "RuneCount s \<le> length s"
proof (induction s rule: runes_of.induct)
  case (2 c cs)
  let ?w = "snd (decode_rune (c # cs))"
  have "length (drop ?w (c # cs)) < length (c # cs)" using decode_rune_width [of c cs] by simp
  then have "RuneCount (drop ?w (c # cs)) < length (c # cs)" using 2 by linarith
  moreover have "RuneCount (c # cs) = Suc (RuneCount (drop ?w (c # cs)))"
    by (simp only: RuneCount_def runes_of.simps length_Cons)
  ultimately show ?case by linarith
qed (simp add: RuneCount_def)

section \<open>Decimal integers\<close>

definition digit_char :: "nat \<Rightarrow> char" where
  "digit_char d = char_of (48 + d)"

fun nat_to_dec :: "nat \<Rightarrow> string" where
  "nat_to_dec n = (if n < 10 then [digit_char n] else nat_to_dec (n div 10) @ [digit_char (n mod 10)])"

declare nat_to_dec.simps [simp del]

definition FormatInt :: "int \<Rightarrow> string" where
  "FormatInt n = (if n < 0 then CHR ''-'' # nat_to_dec (nat (- n)) else nat_to_dec (nat n))"

definition digit_val :: "char \<Rightarrow> nat option" where
  "digit_val c = (let b = of_char c :: nat in if 48 \<le> b \<and> b \<le> 57 then Some (b - 48) else None)"

fun dec_value :: "nat \<Rightarrow> string \<Rightarrow> nat option" where
  "dec_value acc [] = Some acc"
| "dec_value acc (c # cs) =
     (case digit_val c of None \<Rightarrow> None | Some d \<Rightarrow> dec_value (acc * 10 + d) cs)"

text \<open>\<open>strconv.ParseInt(s, 10, 64)\<close>: an optional sign, at least one digit, in range.\<close>

definition parse_digits :: "string \<Rightarrow> nat option" where
  "parse_digits s = (if s = [] then None else dec_value 0 s)"

definition ParseInt64 :: "string \<Rightarrow> int option" where
  "ParseInt64 s =
     (case s of
        [] \<Rightarrow> None
      | c # cs \<Rightarrow>
          if c = CHR ''-'' then
            (case parse_digits cs of
               Some n \<Rightarrow> if n \<le> 2 ^ 63 then Some (- int n) else None
             | None \<Rightarrow> None)
          else
            (case parse_digits (if c = CHR ''+'' then cs else s) of
               Some n \<Rightarrow> if n < 2 ^ 63 then Some (int n) else None
             | None \<Rightarrow> None))"

lemma digit_val_digit_char: "d < 10 \<Longrightarrow> digit_val (digit_char d) = Some d"
  by (simp add: digit_val_def digit_char_def Let_def of_char_of)

lemma dec_value_append:
  "dec_value acc (s @ t) = (case dec_value acc s of None \<Rightarrow> None | Some a \<Rightarrow> dec_value a t)"
  by (induction s arbitrary: acc) (auto split: option.split)

lemma dec_value_nat_to_dec: "dec_value 0 (nat_to_dec n) = Some n"
proof (induction n rule: nat_to_dec.induct)
  case (1 n)
  show ?case
  proof (cases "n < 10")
    case True
    then show ?thesis by (simp add: nat_to_dec.simps [of n] digit_val_digit_char)
  next
    case False
    with 1 have "dec_value 0 (nat_to_dec (n div 10)) = Some (n div 10)" by simp
    with False show ?thesis
      by (simp add: nat_to_dec.simps [of n] dec_value_append digit_val_digit_char)
  qed
qed

lemma nat_to_dec_nonempty [simp]: "nat_to_dec n \<noteq> []"
  by (subst nat_to_dec.simps) simp

lemma nat_to_dec_digits: "c \<in> set (nat_to_dec n) \<Longrightarrow> \<exists>d < 10. c = digit_char d"
proof (induction n rule: nat_to_dec.induct)
  case (1 n)
  have "n mod 10 < 10" by simp
  then have "\<exists>d < 10. digit_char (n mod 10) = digit_char d" by blast
  with 1 show ?case by (cases "n < 10") (auto simp: nat_to_dec.simps [of n])
qed

lemma nat_to_dec_inj [simp]: "nat_to_dec a = nat_to_dec b \<longleftrightarrow> a = b"
  by (metis dec_value_nat_to_dec option.inject)

lemma of_char_digit_char: "d < 10 \<Longrightarrow> of_char (digit_char d) = (48 + d :: nat)"
  by (simp add: digit_char_def of_char_of)

lemma digit_char_neq:
  "d < 10 \<Longrightarrow> digit_char d \<noteq> CHR '':''" "d < 10 \<Longrightarrow> digit_char d \<noteq> CHR ''-''"
  "d < 10 \<Longrightarrow> digit_char d \<noteq> CHR ''+''"
  by (auto dest!: arg_cong [where f = "of_char :: char \<Rightarrow> nat"] simp: of_char_digit_char)

lemma nat_to_dec_no_sep: "CHR '':'' \<notin> set (nat_to_dec n)"
  using nat_to_dec_digits digit_char_neq by metis

lemma ParseInt64_FormatInt_nonneg:
  assumes "0 \<le> n" and "n < 2 ^ 63"
  shows "ParseInt64 (FormatInt n) = Some n"
proof -
  obtain c cs where s: "nat_to_dec (nat n) = c # cs"
    by (cases "nat_to_dec (nat n)") auto
  then have "c \<in> set (nat_to_dec (nat n))" by simp
  then have "c \<noteq> CHR ''-''" and "c \<noteq> CHR ''+''"
    using nat_to_dec_digits digit_char_neq by metis+
  moreover have "parse_digits (c # cs) = Some (nat n)"
    using dec_value_nat_to_dec [of "nat n"] s by (simp add: parse_digits_def)
  moreover have "nat n < 2 ^ 63" using assms by (simp add: nat_less_iff)
  ultimately show ?thesis using assms s by (simp add: ParseInt64_def FormatInt_def)
qed

lemma FormatInt_inj: "0 \<le> a \<Longrightarrow> 0 \<le> b \<Longrightarrow> FormatInt a = FormatInt b \<longleftrightarrow> a = b"
  by (auto simp: FormatInt_def)

lemma FormatInt_nonempty [simp]: "FormatInt n \<noteq> []"
  by (simp add: FormatInt_def)

text \<open>
  The revision check of the layout, presentation and placement resources: the text is exactly
  the decimal form of a non-negative 64-bit integer.
\<close>

definition canonical_revision :: "string \<Rightarrow> bool" where
  "canonical_revision s \<longleftrightarrow>
     (case ParseInt64 s of Some n \<Rightarrow> 0 \<le> n \<and> FormatInt n = s | None \<Rightarrow> False)"

lemma ParseInt64_range: "ParseInt64 s = Some n \<Longrightarrow> - (2 ^ 63) \<le> n \<and> n < 2 ^ 63"
  by (auto simp: ParseInt64_def split: list.splits if_splits option.splits)

lemma canonical_revision_iff:
  "canonical_revision s \<longleftrightarrow> (\<exists>n. 0 \<le> n \<and> n < 2 ^ 63 \<and> s = FormatInt n)"
proof
  assume "canonical_revision s"
  then obtain n where "ParseInt64 s = Some n" "0 \<le> n" "s = FormatInt n"
    by (auto simp: canonical_revision_def split: option.splits)
  with ParseInt64_range show "\<exists>n. 0 \<le> n \<and> n < 2 ^ 63 \<and> s = FormatInt n" by blast
next
  assume "\<exists>n. 0 \<le> n \<and> n < 2 ^ 63 \<and> s = FormatInt n"
  then show "canonical_revision s"
    by (auto simp: canonical_revision_def ParseInt64_FormatInt_nonneg)
qed

section \<open>Hexadecimal text\<close>

definition hex_digit :: "char \<Rightarrow> bool" where
  "hex_digit c \<longleftrightarrow>
     (let b = of_char c :: nat in
      48 \<le> b \<and> b \<le> 57 \<or> 97 \<le> b \<and> b \<le> 102 \<or> 65 \<le> b \<and> b \<le> 70)"

text \<open>\<open>hex.DecodeString\<close> succeeds on an even number of hexadecimal digits and yields half as many bytes.\<close>

definition hex_ok :: "string \<Rightarrow> bool" where
  "hex_ok s \<longleftrightarrow> even (length s) \<and> list_all hex_digit s"

section \<open>Base 64\<close>

text \<open>
  \<open>base64.RawURLEncoding.DecodeString\<close>: the alphabet of URLs, no padding, line breaks skipped; the
  bits left over in the last byte are dropped.
\<close>

definition base64_val :: "char \<Rightarrow> nat option" where
  "base64_val c =
     (let b = of_char c :: nat in
      if 65 \<le> b \<and> b \<le> 90 then Some (b - 65)
      else if 97 \<le> b \<and> b \<le> 122 then Some (b - 71)
      else if 48 \<le> b \<and> b \<le> 57 then Some (b + 4)
      else if b = 45 then Some 62
      else if b = 95 then Some 63
      else None)"

fun base64_bytes :: "nat list \<Rightarrow> string option" where
  "base64_bytes [] = Some []"
| "base64_bytes [a] = None"
| "base64_bytes [a, b] = Some [char_of (a * 4 + b div 16)]"
| "base64_bytes [a, b, c] = Some [char_of (a * 4 + b div 16), char_of (b mod 16 * 16 + c div 4)]"
| "base64_bytes (a # b # c # d # rest) =
     map_option (\<lambda>s. char_of (a * 4 + b div 16) # char_of (b mod 16 * 16 + c div 4) # char_of (c mod 4 * 64 + d) # s)
       (base64_bytes rest)"

definition base64_decode :: "string \<Rightarrow> string option" where
  "base64_decode s =
     (let vals = map base64_val (filter (\<lambda>c. c \<noteq> CHR 0x0A \<and> c \<noteq> CHR 0x0D) s) in
      if None \<in> set vals then None else base64_bytes (map the vals))"

lemma base64_bytes_length: "base64_bytes vs = Some s \<Longrightarrow> 4 * length s \<le> 3 * length vs \<and> 3 * length vs < 4 * length s + 4"
  by (induction vs arbitrary: s rule: base64_bytes.induct) auto

section \<open>Instants\<close>

text \<open>
  A \<open>time.Time\<close> is the instant it denotes, in nanoseconds since the Unix epoch; \<open>UTC()\<close> does not
  change the instant. \<open>IsZero\<close> is January 1, year 1, 00:00:00 UTC. \<open>Unix()\<close> is the floor of the
  seconds.
\<close>

type_synonym time = int

definition second :: int where
  "second = 1000000000"

definition minute :: int where
  "minute = 60 * second"

definition hour :: int where
  "hour = 60 * minute"

definition zero_time :: time where
  "zero_time = - 62135596800 * second"

definition IsZero :: "time \<Rightarrow> bool" where
  "IsZero t \<longleftrightarrow> t = zero_time"

definition Unix :: "time \<Rightarrow> int" where
  "Unix t = t div second"

text \<open>\<open>Truncate(d)\<close> rounds down to a multiple of \<open>d\<close> since the zero time.\<close>

definition Truncate :: "time \<Rightarrow> int \<Rightarrow> time" where
  "Truncate t d = t - (t - zero_time) mod d"

lemma Unix_mono: "a \<le> b \<Longrightarrow> Unix a \<le> Unix b"
  by (simp add: Unix_def second_def zdiv_mono1)

lemmas time_units = second_def minute_def hour_def

lemma Truncate_second: "Truncate t second = Unix t * second"
proof -
  have "(t - zero_time) mod second = (t + 62135596800 * second) mod second"
    by (simp add: zero_time_def)
  also have "\<dots> = t mod second" by (rule mod_mult_self1)
  finally show ?thesis by (simp add: Truncate_def Unix_def minus_mod_eq_div_mult)
qed

text \<open>
  A time stored as RFC 3339 text (\<open>Format(time.RFC3339Nano)\<close>) and read back with \<open>time.Parse\<close>: the
  instant itself for the years 0 to 9999, text that does not parse otherwise.
\<close>

definition rfc3339 :: "time \<Rightarrow> time option" where
  "rfc3339 t = (if - 62167219200 * second \<le> t \<and> t < 253402300800 * second then Some t else None)"

lemma rfc3339_Some: "rfc3339 t = Some u \<Longrightarrow> u = t"
  by (simp add: rfc3339_def split: if_splits)

section \<open>Strings inside JSON\<close>

text \<open>
  \<open>json.Marshal\<close> writes U+FFFD for each byte that is not valid UTF-8; reading the text back gives
  the string with that replacement. A map is written in the order of its keys, and of two keys that
  become equal the later one wins when it is read.
\<close>

function toValidUTF8 :: "string \<Rightarrow> string" where
  "toValidUTF8 [] = []"
| "toValidUTF8 (c # cs) =
     (let d = decode_rune (c # cs) in
      (if d = (RuneError, 1) then [CHR 0xEF, CHR 0xBF, CHR 0xBD] else take (snd d) (c # cs)) @
      toValidUTF8 (drop (snd d) (c # cs)))"
  by pat_completeness auto
termination
proof (relation "measure length")
  fix c cs and d :: "nat \<times> nat"
  assume "d = decode_rune (c # cs)"
  then show "(drop (snd d) (c # cs), c # cs) \<in> measure length"
    using decode_rune_width [of c cs] by simp
qed simp

declare toValidUTF8.simps(2) [simp del]

lemma toValidUTF8_id: "ValidString s \<Longrightarrow> toValidUTF8 s = s"
proof (induction s rule: toValidUTF8.induct)
  case (2 c cs)
  let ?d = "decode_rune (c # cs)"
  from 2(2) have d: "?d \<noteq> (RuneError, 1)" and v: "ValidString (drop (snd ?d) (c # cs))"
    unfolding ValidString_def runes_of.simps list.pred_inject by blast+
  from 2(1) [OF refl v] d show ?case
    unfolding toValidUTF8.simps Let_def by (simp del: decode_rune.simps)
qed simp

text \<open>ASCII text is valid UTF-8, so copying it changes nothing.\<close>

fun ascii :: "char \<Rightarrow> bool" where
  "ascii (Char b0 b1 b2 b3 b4 b5 b6 b7) \<longleftrightarrow> \<not> b7"

lemma ascii_byte: "ascii c \<Longrightarrow> byte c < 128"
  by (cases c) (simp add: byte_def of_char_def)

lemma ascii_valid: "list_all ascii s \<Longrightarrow> ValidString s"
proof (induction s rule: runes_of.induct)
  case (2 c cs)
  then have "decode_rune (c # cs) = (byte c, 1)" using ascii_byte [of c] by (simp add: Let_def)
  moreover from 2 this have "ValidString cs" by simp
  moreover have "byte c \<noteq> RuneError" using 2 ascii_byte [of c] by (simp add: RuneError_def)
  ultimately show ?case by (simp add: ValidString_def del: decode_rune.simps)
qed (simp add: ValidString_def)

lemma toValidUTF8_ascii: "list_all ascii s \<Longrightarrow> toValidUTF8 s = s"
  by (intro toValidUTF8_id ascii_valid)

lemma runes_ascii: "list_all ascii s \<Longrightarrow> runes_of s = map (\<lambda>c. (byte c, 1)) s"
proof (induction s rule: runes_of.induct)
  case (2 c cs)
  then have "decode_rune (c # cs) = (byte c, 1)" using ascii_byte [of c] by (simp add: Let_def)
  with 2 show ?case by (simp add: runes_of.simps)
qed simp

lemma RuneCount_ascii: "list_all ascii s \<Longrightarrow> RuneCount s = length s"
  by (simp add: RuneCount_def runes_ascii)

definition jsonStrings :: "string list \<Rightarrow> string list" where
  "jsonStrings xs = map toValidUTF8 xs"

definition mset_key :: "string \<Rightarrow> string \<Rightarrow> smap \<Rightarrow> smap" where
  "mset_key k v m = (k, v) # filter (\<lambda>p. fst p \<noteq> k) m"

definition jsonMap :: "smap \<Rightarrow> smap" where
  "jsonMap m = fold (\<lambda>(k, v). mset_key (toValidUTF8 k) (toValidUTF8 v)) (sort_key fst m) []"

lemma mget_mset_key: "mget (mset_key k v m) k' = (if k' = k then v else mget m k')"
proof -
  have "k' \<noteq> k \<Longrightarrow> map_of (filter (\<lambda>p. fst p \<noteq> k) m) k' = map_of m k'"
    by (induction m) auto
  then show ?thesis by (simp add: mset_key_def mget_def)
qed

lemma jsonMap_valid:
  assumes "\<forall>(k, v) \<in> set m. ValidString k \<and> ValidString v" and "distinct (map fst m)"
  shows "mget (jsonMap m) k = mget m k"
proof -
  let ?f = "\<lambda>(k, v). mset_key (toValidUTF8 k) (toValidUTF8 v)"
  have gen: "mget (fold ?f xs acc) k = (case map_of xs k of Some v \<Rightarrow> v | None \<Rightarrow> mget acc k)"
    if "\<forall>(k, v) \<in> set xs. ValidString k \<and> ValidString v" "distinct (map fst xs)" for xs acc
    using that
  proof (induction xs arbitrary: acc)
    case (Cons x xs)
    obtain a b where x: "x = (a, b)" by (cases x)
    from Cons.prems have "map_of xs a = None" by (simp add: x map_of_eq_None_iff)
    with Cons x show ?case by (auto simp: mget_mset_key toValidUTF8_id split: option.split)
  qed simp
  have d: "distinct (map fst (sort_key fst m))" using assms(2) by (simp add: distinct_map)
  then have "map_of (sort_key fst m) = map_of m" using assms(2) by (simp add: map_of_inject_set)
  then show ?thesis
    unfolding jsonMap_def using gen [of "sort_key fst m" "[]"] assms(1) d
    by (simp add: mget_def [of m] split: option.split)
qed

section \<open>Sorting\<close>

text \<open>
  \<open>sort.Slice(xs, less)\<close> as the insertion sort it is on short slices, which is also what
  \<open>sort.SliceStable\<close> and \<open>slices.SortStableFunc\<close> give: elements that neither function orders keep
  their order. Where \<open>less\<close> separates all elements the algorithm does not matter
  (\<open>SortSlice_unique\<close>).
\<close>

fun insertBefore :: "('a \<Rightarrow> 'a \<Rightarrow> bool) \<Rightarrow> 'a \<Rightarrow> 'a list \<Rightarrow> 'a list" where
  "insertBefore lt x [] = [x]"
| "insertBefore lt x (y # ys) = (if lt y x then y # insertBefore lt x ys else x # y # ys)"

definition SortSlice :: "('a \<Rightarrow> 'a \<Rightarrow> bool) \<Rightarrow> 'a list \<Rightarrow> 'a list" where
  "SortSlice lt xs = foldr (insertBefore lt) xs []"

lemma mset_insertBefore [simp]: "mset (insertBefore lt x xs) = add_mset x (mset xs)"
  by (induction xs) auto

lemma mset_SortSlice [simp]: "mset (SortSlice lt xs) = mset xs"
  by (induction xs) (auto simp: SortSlice_def)

lemma set_SortSlice [simp]: "set (SortSlice lt xs) = set xs"
  by (metis mset_SortSlice set_mset_mset)

lemma length_SortSlice [simp]: "length (SortSlice lt xs) = length xs"
  by (metis mset_SortSlice size_mset)

lemma distinct_SortSlice [simp]: "distinct (map f (SortSlice lt xs)) \<longleftrightarrow> distinct (map f xs)"
  by (metis distinct_count_atmost_1 mset_SortSlice mset_map set_SortSlice list.set_map)

lemma SortSlice_Nil [simp]: "SortSlice lt [] = []"
  by (simp add: SortSlice_def)

lemma SortSlice_eq_Nil [simp]: "SortSlice lt xs = [] \<longleftrightarrow> xs = []"
  by (metis length_0_conv length_SortSlice)

lemma insertBefore_key: "insertBefore (\<lambda>a b. f a < f b) x xs = insort_key f x xs"
  for f :: "'a \<Rightarrow> 'k::linorder"
  by (induction xs) auto

lemma SortSlice_key: "SortSlice (\<lambda>a b. f a < f b) xs = sort_key f xs"
  for f :: "'a \<Rightarrow> 'k::linorder"
  by (induction xs) (simp_all add: SortSlice_def insertBefore_key)

lemma SortSlice_unique:
  fixes f :: "'a \<Rightarrow> 'k::linorder"
  assumes "mset xs = mset ys" and "inj_on f (set xs)"
  shows "SortSlice (\<lambda>a b. f a < f b) xs = SortSlice (\<lambda>a b. f a < f b) ys"
  using assms by (simp add: SortSlice_key sort_key_eq_sort_key)

text \<open>Collect the elements by key, the keys in order of first appearance.\<close>

definition collectBy :: "('a \<Rightarrow> 'k) \<Rightarrow> 'a list \<Rightarrow> ('k \<times> 'a list) list" where
  "collectBy key xs = map (\<lambda>k. (k, filter (\<lambda>x. key x = k) xs)) (dedup_by (\<lambda>k. k) (map key xs))"

lemma collectBy_keys: "map fst (collectBy key xs) = dedup_by (\<lambda>k. k) (map key xs)"
  by (simp add: collectBy_def comp_def)

lemma collectBy_member:
  "(k, ys) \<in> set (collectBy key xs) \<longleftrightarrow> k \<in> key ` set xs \<and> ys = filter (\<lambda>x. key x = k) xs"
  by (auto simp: collectBy_def)

lemma collectBy_covers: "x \<in> set xs \<Longrightarrow> (key x, filter (\<lambda>y. key y = key x) xs) \<in> set (collectBy key xs)"
  by (simp add: collectBy_member)

lemma distinct_collectBy: "distinct (map fst (collectBy key xs))"
  by (simp add: collectBy_keys)

section \<open>What the sources only call\<close>

text \<open>A parsed URL, as far as the sources read it (\<open>net/url.URL\<close>).\<close>

record url =
  u_Scheme :: string
  u_Opaque :: string
  u_HasUser :: bool
  u_Host :: string
  u_Hostname :: string
  u_Port :: string
  u_Path :: string
  u_RawQuery :: string
  u_Fragment :: string

text \<open>\<open>URL.IsAbs\<close> is \<open>u.Scheme != ""\<close>.\<close>

definition IsAbs :: "url \<Rightarrow> bool" where
  "IsAbs u \<longleftrightarrow> u_Scheme u \<noteq> []"

text \<open>The values the sources hand to \<open>json.Marshal\<close>; an object lists its members in order.\<close>

datatype json = JNull | JBool bool | JNum int | JStr string | JArr "json list"
  | JObj "(string \<times> json) list"

record golib =
  sha256_hex :: "string \<Rightarrow> string"
  url_parse :: "string \<Rightarrow> url option"
  uuid_parse :: "string \<Rightarrow> string option"
  json_text :: "json \<Rightarrow> string"
  json_strings :: "string \<Rightarrow> string list option"
  rfc3339_text :: "time \<Rightarrow> string"
  p256_point :: "string \<Rightarrow> bool"
  unixepoch :: "time \<Rightarrow> int"

text \<open>
  An instance to evaluate definitions with: the digest is the end of the text, backwards, \<open>url_parse\<close> reads
  \<open>scheme://host\<close>, every text is a UUID, JSON is written without punctuation and an instant as its
  number of nanoseconds.
\<close>

definition evalParse :: "string \<Rightarrow> url option" where
  "evalParse s =
     (case Cut CHR '':'' s of
        None \<Rightarrow> None
      | Some (scheme, rest) \<Rightarrow>
          Some \<lparr>u_Scheme = scheme, u_Opaque = [], u_HasUser = False, u_Host = drop 2 rest,
                u_Hostname = drop 2 rest, u_Port = [], u_Path = [], u_RawQuery = [], u_Fragment = []\<rparr>)"

fun evalJson :: "json \<Rightarrow> string" where
  "evalJson JNull = ''n''"
| "evalJson (JBool b) = (if b then ''t'' else ''f'')"
| "evalJson (JNum i) = FormatInt i"
| "evalJson (JStr s) = s"
| "evalJson (JArr xs) = concat (map evalJson xs)"
| "evalJson (JObj ms) = concat (map (\<lambda>(k, v). k @ evalJson v) ms)"

definition evalLib :: golib where
  "evalLib = \<lparr>sha256_hex = (\<lambda>s. take 3 (rev s)), url_parse = evalParse, uuid_parse = Some,
              json_text = evalJson, json_strings = (\<lambda>s. Some (Split CHR '','' s)),
              rfc3339_text = FormatInt, p256_point = (\<lambda>_. True), unixepoch = Unix\<rparr>"

end
