(* ===== verification/Tables.thy ===== *)
theory Tables
  imports GoLib
begin

text \<open>
  The SQL statements of the storage adapters on one table, as functions on its rows in
  \<open>rowid\<close> order: a primary-key \<open>SELECT\<close>, \<open>UPDATE ... WHERE\<close>, \<open>DELETE ... WHERE\<close>,
  \<open>INSERT ... ON CONFLICT (key) DO UPDATE\<close> and \<open>INSERT ... ON CONFLICT DO NOTHING\<close>. A table whose
  key is declared \<open>PRIMARY KEY\<close> or \<open>UNIQUE\<close> satisfies \<open>unique_key\<close>; the locale \<open>upsert_table\<close> is
  the contract of an upsert and is interpreted for every table that has one.

  Columns that hold encoded values (a time as RFC 3339 text, JSON text) are of option type:
  \<open>None\<close> is text that does not decode. A transaction is a function on the whole database state
  whose error result leaves the state as it was.
\<close>

definition unique_key :: "('r \<Rightarrow> 'k) \<Rightarrow> 'r list \<Rightarrow> bool" where
  "unique_key key rows \<longleftrightarrow> distinct (map key rows)"

definition tbl_get :: "('r \<Rightarrow> 'k) \<Rightarrow> 'k \<Rightarrow> 'r list \<Rightarrow> 'r option" where
  "tbl_get key k rows = find (\<lambda>r. key r = k) rows"

definition tbl_update :: "('r \<Rightarrow> bool) \<Rightarrow> ('r \<Rightarrow> 'r) \<Rightarrow> 'r list \<Rightarrow> 'r list" where
  "tbl_update P f rows = map (\<lambda>r. if P r then f r else r) rows"

definition tbl_delete :: "('r \<Rightarrow> bool) \<Rightarrow> 'r list \<Rightarrow> 'r list" where
  "tbl_delete P rows = filter (\<lambda>r. \<not> P r) rows"

definition tbl_upsert :: "('r \<Rightarrow> 'k) \<Rightarrow> ('r \<Rightarrow> 'r \<Rightarrow> 'r) \<Rightarrow> 'r \<Rightarrow> 'r list \<Rightarrow> 'r list" where
  "tbl_upsert key merge new rows =
     (if tbl_get key (key new) rows = None then rows @ [new]
      else tbl_update (\<lambda>r. key r = key new) (\<lambda>old. merge old new) rows)"

definition tbl_insert_ignore :: "('r \<Rightarrow> 'k) \<Rightarrow> 'r \<Rightarrow> 'r list \<Rightarrow> 'r list" where
  "tbl_insert_ignore key new rows = (if tbl_get key (key new) rows = None then rows @ [new] else rows)"

lemma tbl_get_None [table]: "tbl_get key k rows = None \<longleftrightarrow> k \<notin> key ` set rows"
  by (auto simp: tbl_get_def find_None_all)

lemma tbl_get_Some [table]: "tbl_get key k rows = Some r \<Longrightarrow> r \<in> set rows \<and> key r = k"
  using find_Some_in_set [of "\<lambda>r. key r = k" rows r] by (simp add: tbl_get_def)

lemma tbl_get_key: "tbl_get key k rows = Some r \<Longrightarrow> key r = k"
  using tbl_get_Some [of key k rows r] by simp

lemma tbl_get_append: "tbl_get key k (xs @ ys) = (case tbl_get key k xs of Some r \<Rightarrow> Some r | None \<Rightarrow> tbl_get key k ys)"
  by (induction xs) (auto simp: tbl_get_def)

lemma tbl_get_unique:
  assumes "unique_key key rows" and "r \<in> set rows"
  shows "tbl_get key (key r) rows = Some r"
proof (cases "tbl_get key (key r) rows")
  case None
  with assms(2) show ?thesis by (auto simp: tbl_get_None)
next
  case (Some r')
  with assms show ?thesis
    by (auto simp: unique_key_def dest!: tbl_get_Some dest: distinct_map_inj_on)
qed

lemma tbl_get_update:
  assumes "\<And>r. key (f r) = key r"
  shows "tbl_get key k (tbl_update P f rows) =
         map_option (\<lambda>r. if P r then f r else r) (tbl_get key k rows)"
  using assms by (induction rows) (auto simp: tbl_get_def tbl_update_def)

lemma tbl_get_delete:
  assumes "unique_key key rows"
  shows "tbl_get key k (tbl_delete P rows) =
         (case tbl_get key k rows of Some r \<Rightarrow> if P r then None else Some r | None \<Rightarrow> None)"
  using assms
proof (induction rows)
  case (Cons r rows)
  then have "key r \<notin> key ` set rows" by (auto simp: unique_key_def)
  then have "P r \<Longrightarrow> tbl_get key (key r) (tbl_delete P rows) = None"
    by (auto simp: tbl_get_None tbl_delete_def)
  with Cons show ?case
    by (auto simp: tbl_get_def tbl_delete_def unique_key_def split: option.split)
qed (simp add: tbl_get_def tbl_delete_def)

lemma tbl_update_nop: "(\<And>r. r \<in> set rows \<Longrightarrow> \<not> P r) \<Longrightarrow> tbl_update P f rows = rows"
  by (induction rows) (auto simp: tbl_update_def)

lemma tbl_delete_nop: "(\<And>r. r \<in> set rows \<Longrightarrow> \<not> P r) \<Longrightarrow> tbl_delete P rows = rows"
  by (induction rows) (auto simp: tbl_delete_def)

lemma length_tbl_update [simp]: "length (tbl_update P f rows) = length rows"
  by (simp add: tbl_update_def)

lemma length_tbl_delete: "length (tbl_delete P rows) \<le> length rows"
  by (simp add: tbl_delete_def)

lemma set_tbl_delete [simp]: "set (tbl_delete P rows) = {r \<in> set rows. \<not> P r}"
  by (simp add: tbl_delete_def)

lemma in_tbl_update: "r \<in> set (tbl_update P f rows) \<longleftrightarrow> (\<exists>s \<in> set rows. r = (if P s then f s else s))"
  by (auto simp: tbl_update_def)

lemma unique_key_Nil [simp]: "unique_key key []"
  by (simp add: unique_key_def)

lemma unique_key_append1 [simp]:
  "unique_key key (rows @ [r]) \<longleftrightarrow> unique_key key rows \<and> key r \<notin> key ` set rows"
  by (auto simp: unique_key_def)

lemma unique_key_delete [table]: "unique_key key rows \<Longrightarrow> unique_key key (tbl_delete P rows)"
  by (simp add: unique_key_def tbl_delete_def distinct_map_filter_keys)

lemma unique_key_update [table]:
  "(\<And>r. key (f r) = key r) \<Longrightarrow> unique_key key (tbl_update P f rows) \<longleftrightarrow> unique_key key rows"
  by (simp only: unique_key_def tbl_update_def map_key_update)

lemma map_tbl_update:
  "(\<And>r. g (f r) = g r) \<Longrightarrow> map g (tbl_update P f rows) = map g rows"
  by (simp only: tbl_update_def map_key_update)

lemma keys_update [table]:
  "(\<And>r. key (f r) = key r) \<Longrightarrow> key ` set (tbl_update P f rows) = key ` set rows"
  by (metis map_tbl_update list.set_map)

lemma unique_key_insert_ignore [table]:
  "unique_key key rows \<Longrightarrow> unique_key key (tbl_insert_ignore key new rows)"
  by (simp add: tbl_insert_ignore_def tbl_get_None)

section \<open>The contract of an upsert\<close>

locale upsert_table =
  fixes key :: "'r \<Rightarrow> 'k" and merge :: "'r \<Rightarrow> 'r \<Rightarrow> 'r"
  assumes key_merge: "key (merge old new) = key old"
begin

lemma unique_key_upsert:
  "unique_key key rows \<Longrightarrow> unique_key key (tbl_upsert key merge new rows)"
  by (auto simp: tbl_upsert_def tbl_get_None unique_key_update [where f = "\<lambda>old. merge old new"] key_merge)

lemma keys_upsert: "key ` set (tbl_upsert key merge new rows) = insert (key new) (key ` set rows)"
  by (auto simp: tbl_upsert_def keys_update [where f = "\<lambda>old. merge old new"] key_merge tbl_get_None)

lemma get_upsert:
  "tbl_get key k (tbl_upsert key merge new rows) =
     (if k = key new then Some (case tbl_get key k rows of Some old \<Rightarrow> merge old new | None \<Rightarrow> new)
      else tbl_get key k rows)"
proof (cases "tbl_get key (key new) rows")
  case None
  have "tbl_get key k [new] = (if k = key new then Some new else None)" by (auto simp: tbl_get_def)
  with None show ?thesis
    by (auto simp: tbl_upsert_def tbl_get_append split: option.splits)
next
  case (Some old)
  have "map_option (\<lambda>r. if key r = key new then merge r new else r) (tbl_get key k rows) =
        (if k = key new then Some (merge old new) else tbl_get key k rows)"
    using Some by (cases "tbl_get key k rows") (auto dest: tbl_get_key)
  with Some show ?thesis
    by (simp add: tbl_upsert_def tbl_get_update [where f = "\<lambda>old. merge old new"] key_merge)
qed

lemma upsert_other_rows:
  "r \<in> set rows \<Longrightarrow> key r \<noteq> key new \<Longrightarrow> r \<in> set (tbl_upsert key merge new rows)"
  by (force simp: tbl_upsert_def tbl_update_def image_iff)

lemma upsert_rows_only:
  "r \<in> set (tbl_upsert key merge new rows) \<Longrightarrow> key r \<noteq> key new \<Longrightarrow> r \<in> set rows"
  by (auto simp: tbl_upsert_def tbl_update_def key_merge split: if_splits)

end

end
