(* ===== verification/CatalogModel.thy ===== *)
theory CatalogModel
  imports Tables
begin

text \<open>
  The catalogue's data (\<open>internal/application/catalog/model.go\<close>, \<open>edit.go\<close>, \<open>manual.go\<close>,
  \<open>exposure.go\<close>): source and resource references, endpoints, candidates, snapshots, local edits
  and manually added services, with their normalisation, their validation and the stable
  identifier of a candidate.

  A slice is a list, so \<open>nil\<close> and the empty slice are both \<open>[]\<close> (the functions below never
  distinguish them), and a metadata map is an association list. \<open>Normalize\<close> writes through the
  slices of its argument; the model returns the value every holder of the slice sees afterwards.
  A Go \<open>error\<close> is a constructor of \<open>catalog_error\<close>, one per message, with the wrapped error as
  argument.
\<close>

section \<open>Data\<close>

record SourceRef =
  src_Kind :: string
  src_ID :: string

record ResourceRef =
  res_Kind :: string
  res_Namespace :: string
  res_Name :: string

record Endpoint =
  ep_Name :: string
  ep_URL :: string
  ep_Port :: int
  ep_Protocol :: string
  ep_Provenance :: string

record ResourceObservation =
  ro_Resource :: ResourceRef
  ro_Endpoints :: "Endpoint list"
  ro_Images :: "string list"

record Candidate =
  c_Missing :: bool
  c_Hidden :: bool
  c_Icon :: string
  c_Address :: string
  c_Resources :: "ResourceObservation list"
  c_ID :: string
  c_Source :: SourceRef
  c_Resource :: ResourceRef
  c_DisplayName :: string
  c_Description :: string
  c_Metadata :: smap
  c_Endpoints :: "Endpoint list"
  c_Images :: "string list"
  c_ObservedAt :: time
  c_PinnedAt :: "time option"

record Snapshot =
  sn_Source :: SourceRef
  sn_Candidates :: "Candidate list"
  sn_ObservedAt :: time

record Edit =
  e_DisplayName :: string
  e_Description :: string
  e_Address :: string
  e_Icon :: "string option"

record ManualService =
  m_RequestID :: string
  m_Edit :: Edit

record Exposure =
  x_Scope :: string
  x_Host :: string
  x_Path :: string
  x_Match :: string
  x_Service :: string
  x_Port :: int
  x_RedirectHost :: string
  x_RedirectPath :: string

definition ExposureMetadata :: string where
  "ExposureMetadata = ''kubernetes.exposures.v1''"

definition BackendMetadata :: string where
  "BackendMetadata = ''kubernetes.backend.v1''"

definition ManualSourceKind :: string where
  "ManualSourceKind = ''manual''"

datatype catalog_error =
    ErrNotFound | ErrConflict | ErrInvalidEdit
  | SourceKindEmpty | SourceIDEmpty | SourceKindSlash | IdentityNUL
  | ResourceKindEmpty | ResourceNameEmpty | CandidateIDEmpty | CandidateIDMismatch
  | DisplayNameEmpty | ObservedAtZero | MetadataKeyEmpty
  | ImageEmpty nat | ImageNUL nat | EndpointPort nat | EndpointURL nat
  | ManualNotImported | SnapshotKindEmpty | SnapshotIDEmpty | SnapshotKindSlash
  | SnapshotIdentityNUL | SnapshotObservedAtZero
  | CandidateSourceMismatch nat | CandidateAt nat catalog_error | CandidateDuplicate nat string
  | ErrInvalidSnapshot catalog_error
  | ValidateCandidate catalog_error | ValidateSnapshot catalog_error
  | DecodeObservation string | DecodeWatermark | DecodeMetadata string | DecodeImages string
  | DecodePin string | StoredCandidate string catalog_error | UniqueIdentity
  | UpsertSource catalog_error
  | DiscoverFailed string | PrepareFailed string catalog_error | StoreFailed string catalog_error
  | PublishFailed string | DiscovererSourceEmpty | DiscovererSourceMismatch

section \<open>Identity\<close>

definition NUL :: char where
  "NUL = CHR 0x00"

definition normalizeSource :: "SourceRef \<Rightarrow> SourceRef" where
  "normalizeSource s = \<lparr>src_Kind = TrimSpace (src_Kind s), src_ID = TrimSpace (src_ID s)\<rparr>"

definition normalizeResource :: "ResourceRef \<Rightarrow> ResourceRef" where
  "normalizeResource r =
     \<lparr>res_Kind = TrimSpace (res_Kind r), res_Namespace = TrimSpace (res_Namespace r),
      res_Name = TrimSpace (res_Name r)\<rparr>"

text \<open>The parts of an identity and the text that \<open>StableID\<close> digests: each part after its length.\<close>

definition identityParts :: "SourceRef \<Rightarrow> ResourceRef \<Rightarrow> string list" where
  "identityParts s r =
     [TrimSpace (src_Kind s), TrimSpace (src_ID s), TrimSpace (res_Kind r),
      TrimSpace (res_Namespace r), TrimSpace (res_Name r)]"

definition identityText :: "string list \<Rightarrow> string" where
  "identityText parts = concat (map (\<lambda>p. nat_to_dec (length p) @ CHR '':'' # p) parts)"

definition StableID :: "golib \<Rightarrow> SourceRef \<Rightarrow> ResourceRef \<Rightarrow> string" where
  "StableID L s r = sha256_hex L (identityText (identityParts s r))"

definition NewCandidate :: "golib \<Rightarrow> SourceRef \<Rightarrow> ResourceRef \<Rightarrow> time \<Rightarrow> Candidate" where
  "NewCandidate L s r observedAt =
     (let source = normalizeSource s; resource = normalizeResource r in
      \<lparr>c_Missing = False, c_Hidden = False, c_Icon = [], c_Address = [], c_Resources = [],
       c_ID = StableID L source resource, c_Source = source, c_Resource = resource,
       c_DisplayName = res_Name resource, c_Description = [], c_Metadata = [],
       c_Endpoints = [], c_Images = [], c_ObservedAt = observedAt, c_PinnedAt = None\<rparr>)"

section \<open>Normalisation and validation\<close>

definition normalizeEndpoint :: "Endpoint \<Rightarrow> Endpoint" where
  "normalizeEndpoint e =
     e\<lparr>ep_Name := TrimSpace (ep_Name e), ep_URL := TrimSpace (ep_URL e),
       ep_Protocol := TrimSpace (ep_Protocol e), ep_Provenance := TrimSpace (ep_Provenance e)\<rparr>"

definition CandidateNormalize :: "Candidate \<Rightarrow> Candidate" where
  "CandidateNormalize c =
     c\<lparr>c_Source := normalizeSource (c_Source c),
       c_Resource := normalizeResource (c_Resource c),
       c_DisplayName := TrimSpace (c_DisplayName c),
       c_Endpoints := map normalizeEndpoint (c_Endpoints c),
       c_Images := map TrimSpace (c_Images c)\<rparr>"

definition validImage :: "nat \<Rightarrow> string \<Rightarrow> catalog_error option" where
  "validImage i img =
     or_else (fail_if (img = []) (ImageEmpty i)) (fail_if (NUL \<in> set img) (ImageNUL i))"

definition validEndpointURL :: "golib \<Rightarrow> string \<Rightarrow> bool" where
  "validEndpointURL L s \<longleftrightarrow>
     (case url_parse L s of
        None \<Rightarrow> False
      | Some u \<Rightarrow> u_Host u \<noteq> [] \<and> (IsAbs u \<or> prefix ''//'' s))"

definition validEndpoint :: "golib \<Rightarrow> nat \<Rightarrow> Endpoint \<Rightarrow> catalog_error option" where
  "validEndpoint L i e =
     (if ep_Port e < 0 \<or> ep_Port e > 65535 then Some (EndpointPort i)
      else if TrimSpace (ep_URL e) = [] then None
      else fail_if (\<not> validEndpointURL L (ep_URL e)) (EndpointURL i))"

definition CandidateValidate :: "golib \<Rightarrow> Candidate \<Rightarrow> catalog_error option" where
  "CandidateValidate L c0 =
     (let c = CandidateNormalize c0; s = c_Source c; r = c_Resource c in
      if src_Kind s = [] then Some SourceKindEmpty
      else if src_ID s = [] then Some SourceIDEmpty
      else if CHR ''/'' \<in> set (src_Kind s) then Some SourceKindSlash
      else if NUL \<in> set (src_Kind s) \<or> NUL \<in> set (src_ID s) \<or> NUL \<in> set (res_Kind r)
              \<or> NUL \<in> set (res_Namespace r) \<or> NUL \<in> set (res_Name r) then Some IdentityNUL
      else if res_Kind r = [] then Some ResourceKindEmpty
      else if res_Name r = [] then Some ResourceNameEmpty
      else if c_ID c = [] then Some CandidateIDEmpty
      else if c_ID c \<noteq> StableID L s r then Some CandidateIDMismatch
      else if c_DisplayName c = [] then Some DisplayNameEmpty
      else if IsZero (c_ObservedAt c) then Some ObservedAtZero
      else if list_ex (\<lambda>(k, v). TrimSpace k = []) (c_Metadata c) then Some MetadataKeyEmpty
      else or_else (first_error_from 0 validImage (c_Images c))
                   (first_error_from 0 (validEndpoint L) (c_Endpoints c)))"

definition Status :: "Candidate \<Rightarrow> string" where
  "Status c = (if c_Hidden c then ''hidden'' else if c_Missing c then ''missing'' else ''live'')"

definition SnapshotNormalize :: "Snapshot \<Rightarrow> Snapshot" where
  "SnapshotNormalize s =
     s\<lparr>sn_Source := normalizeSource (sn_Source s),
       sn_Candidates := map CandidateNormalize (sn_Candidates s)\<rparr>"

fun validateCandidates ::
  "golib \<Rightarrow> SourceRef \<Rightarrow> nat \<Rightarrow> string list \<Rightarrow> Candidate list \<Rightarrow> catalog_error option" where
  "validateCandidates L s i seen [] = None"
| "validateCandidates L s i seen (c # cs) =
     (if c_Source c \<noteq> s then Some (CandidateSourceMismatch i)
      else case CandidateValidate L c of
          Some e \<Rightarrow> Some (CandidateAt i e)
        | None \<Rightarrow>
            if c_ID c \<in> set seen then Some (CandidateDuplicate i (c_ID c))
            else validateCandidates L s (Suc i) (c_ID c # seen) cs)"

definition SnapshotValidate :: "golib \<Rightarrow> Snapshot \<Rightarrow> catalog_error option" where
  "SnapshotValidate L s0 =
     (let s = SnapshotNormalize s0; source = sn_Source s in
      if src_Kind source = ManualSourceKind then Some ManualNotImported
      else if src_Kind source = [] then Some SnapshotKindEmpty
      else if src_ID source = [] then Some SnapshotIDEmpty
      else if CHR ''/'' \<in> set (src_Kind source) then Some SnapshotKindSlash
      else if NUL \<in> set (src_Kind source) \<or> NUL \<in> set (src_ID source) then Some SnapshotIdentityNUL
      else if IsZero (sn_ObservedAt s) then Some SnapshotObservedAtZero
      else validateCandidates L source 0 [] (sn_Candidates s))"

section \<open>Local edits and manual services\<close>

definition EditNormalize :: "Edit \<Rightarrow> Edit" where
  "EditNormalize e =
     \<lparr>e_DisplayName = TrimSpace (e_DisplayName e), e_Description = TrimSpace (e_Description e),
      e_Address = TrimSpace (e_Address e), e_Icon = e_Icon e\<rparr>"

definition validAddress :: "golib \<Rightarrow> string \<Rightarrow> bool" where
  "validAddress L s \<longleftrightarrow>
     (case url_parse L s of
        None \<Rightarrow> False
      | Some u \<Rightarrow> (u_Scheme u = ''http'' \<or> u_Scheme u = ''https'') \<and> u_Hostname u \<noteq> [] \<and> \<not> u_HasUser u)"

definition EditValidate :: "golib \<Rightarrow> Edit \<Rightarrow> catalog_error option" where
  "EditValidate L e =
     (if e_DisplayName e = [] \<or> RuneCount (e_DisplayName e) > 200 \<or> RuneCount (e_Description e) > 2000
         \<or> length (e_Address e) > 2048 then Some ErrInvalidEdit
      else if e_Address e \<noteq> [] then fail_if (\<not> validAddress L (e_Address e)) ErrInvalidEdit
      else None)"

definition ManualValidate :: "golib \<Rightarrow> ManualService \<Rightarrow> catalog_error option" where
  "ManualValidate L m =
     (if \<not> hex_ok (m_RequestID m) \<or> length (m_RequestID m) div 2 \<noteq> 16 \<or> e_Address (m_Edit m) = []
      then Some ErrInvalidEdit
      else EditValidate L (m_Edit m))"

section \<open>The identity text determines the identity\<close>

lemma identityText_Nil [simp]: "identityText [] = []"
  by (simp add: identityText_def)

lemma identityText_Cons:
  "identityText (p # ps) = nat_to_dec (length p) @ CHR '':'' # p @ identityText ps"
  by (simp add: identityText_def)

lemma identityText_inj: "identityText ps = identityText qs \<longleftrightarrow> ps = qs"
proof
  show "identityText ps = identityText qs \<Longrightarrow> ps = qs"
  proof (induction ps arbitrary: qs)
    case Nil
    then show ?case by (cases qs) (auto simp: identityText_Cons)
  next
    case (Cons p ps)
    then obtain q qs' where qs: "qs = q # qs'" by (cases qs) (auto simp: identityText_Cons)
    let ?cut = "Cut CHR '':''"
    have "?cut (identityText (p # ps)) = ?cut (identityText (q # qs'))"
      using Cons.prems qs by simp
    then have "nat_to_dec (length p) = nat_to_dec (length q)"
      and rest: "p @ identityText ps = q @ identityText qs'"
      by (simp_all add: identityText_Cons Cut_append nat_to_dec_no_sep)
    then have "length p = length q" by simp
    with rest have "p = q" and "identityText ps = identityText qs'" by auto
    with Cons.IH qs show ?case by simp
  qed
qed simp

lemma identityParts_eq:
  "identityParts s r = identityParts s' r' \<longleftrightarrow>
     normalizeSource s = normalizeSource s' \<and> normalizeResource r = normalizeResource r'"
  by (auto simp: identityParts_def normalizeSource_def normalizeResource_def)

lemma StableID_normalize [simp]:
  "StableID L (normalizeSource s) (normalizeResource r) = StableID L s r"
  by (simp add: StableID_def identityParts_def normalizeSource_def normalizeResource_def)

section \<open>Normalisation is idempotent and validation sees through it\<close>

lemma normalizeSource_idem [simp]: "normalizeSource (normalizeSource s) = normalizeSource s"
  by (simp add: normalizeSource_def)

lemma normalizeResource_idem [simp]: "normalizeResource (normalizeResource r) = normalizeResource r"
  by (simp add: normalizeResource_def)

lemma normalizeEndpoint_idem [simp]: "normalizeEndpoint (normalizeEndpoint e) = normalizeEndpoint e"
  by (simp add: normalizeEndpoint_def)

lemma CandidateNormalize_idem [simp]: "CandidateNormalize (CandidateNormalize c) = CandidateNormalize c"
  by (simp add: CandidateNormalize_def comp_def)

lemma CandidateNormalize_fields [simp]:
  "c_ID (CandidateNormalize c) = c_ID c"
  "c_Source (CandidateNormalize c) = normalizeSource (c_Source c)"
  "c_Resource (CandidateNormalize c) = normalizeResource (c_Resource c)"
  "c_ObservedAt (CandidateNormalize c) = c_ObservedAt c"
  "c_PinnedAt (CandidateNormalize c) = c_PinnedAt c"
  "c_Missing (CandidateNormalize c) = c_Missing c"
  "c_Hidden (CandidateNormalize c) = c_Hidden c"
  "c_Metadata (CandidateNormalize c) = c_Metadata c"
  "c_DisplayName (CandidateNormalize c) = TrimSpace (c_DisplayName c)"
  "c_Images (CandidateNormalize c) = map TrimSpace (c_Images c)"
  "c_Endpoints (CandidateNormalize c) = map normalizeEndpoint (c_Endpoints c)"
  by (simp_all add: CandidateNormalize_def)

lemma CandidateValidate_normalize [simp]:
  "CandidateValidate L (CandidateNormalize c) = CandidateValidate L c"
  by (simp add: CandidateValidate_def)

lemma SnapshotNormalize_idem [simp]: "SnapshotNormalize (SnapshotNormalize s) = SnapshotNormalize s"
  by (simp add: SnapshotNormalize_def comp_def)

lemma SnapshotNormalize_fields [simp]:
  "sn_Source (SnapshotNormalize s) = normalizeSource (sn_Source s)"
  "sn_Candidates (SnapshotNormalize s) = map CandidateNormalize (sn_Candidates s)"
  "sn_ObservedAt (SnapshotNormalize s) = sn_ObservedAt s"
  by (simp_all add: SnapshotNormalize_def)

lemma SnapshotValidate_normalize [simp]:
  "SnapshotValidate L (SnapshotNormalize s) = SnapshotValidate L s"
  by (simp add: SnapshotValidate_def)

lemma EditNormalize_idem [simp]: "EditNormalize (EditNormalize e) = EditNormalize e"
  by (simp add: EditNormalize_def)

section \<open>What an accepted value satisfies\<close>

text \<open>The identity part of an accepted candidate, on its normalised form.\<close>

definition validIdentity :: "SourceRef \<Rightarrow> ResourceRef \<Rightarrow> bool" where
  "validIdentity s r \<longleftrightarrow>
     src_Kind s \<noteq> [] \<and> src_ID s \<noteq> [] \<and> CHR ''/'' \<notin> set (src_Kind s) \<and>
     NUL \<notin> set (src_Kind s) \<union> set (src_ID s) \<union> set (res_Kind r) \<union> set (res_Namespace r) \<union> set (res_Name r) \<and>
     res_Kind r \<noteq> [] \<and> res_Name r \<noteq> []"

lemma CandidateValidate_None [validator]:
  "CandidateValidate L c = None \<longleftrightarrow>
     (let n = CandidateNormalize c in
      validIdentity (c_Source n) (c_Resource n) \<and>
      c_ID n \<noteq> [] \<and> c_ID n = StableID L (c_Source n) (c_Resource n) \<and>
      c_DisplayName n \<noteq> [] \<and> \<not> IsZero (c_ObservedAt n) \<and>
      (\<forall>(k, v) \<in> set (c_Metadata n). TrimSpace k \<noteq> []) \<and>
      first_error_from 0 validImage (c_Images n) = None \<and>
      first_error_from 0 (validEndpoint L) (c_Endpoints n) = None)"
  by (simp add: CandidateValidate_def Let_def validIdentity_def list_ex_iff case_prod_beta')

lemma CandidateValidate_ID [validator]:
  "CandidateValidate L c = None \<Longrightarrow> c_ID c = StableID L (c_Source c) (c_Resource c)"
  by (simp add: CandidateValidate_None Let_def)

lemma validateCandidates_None:
  "validateCandidates L s i seen cs = None \<longleftrightarrow>
     (\<forall>c \<in> set cs. c_Source c = s \<and> CandidateValidate L c = None) \<and>
     distinct (map c_ID cs) \<and> set seen \<inter> c_ID ` set cs = {}"
  by (induction L s i seen cs rule: validateCandidates.induct) (auto split: option.splits)

lemma SnapshotValidate_None [validator]:
  "SnapshotValidate L s = None \<longleftrightarrow>
     (let n = SnapshotNormalize s; source = sn_Source n in
      src_Kind source \<noteq> ManualSourceKind \<and> src_Kind source \<noteq> [] \<and> src_ID source \<noteq> [] \<and>
      CHR ''/'' \<notin> set (src_Kind source) \<and> NUL \<notin> set (src_Kind source) \<union> set (src_ID source) \<and>
      \<not> IsZero (sn_ObservedAt n) \<and>
      (\<forall>c \<in> set (sn_Candidates n). c_Source c = source \<and> CandidateValidate L c = None) \<and>
      distinct (map c_ID (sn_Candidates n)))"
  by (simp add: SnapshotValidate_def Let_def validateCandidates_None comp_def)

section \<open>Properties\<close>

text \<open>
  Two candidates get the same stable identifier exactly when their trimmed source and resource
  references agree, as long as the digest does not map the two length-prefixed identity texts
  to one value: no two identities are run together by concatenation.
\<close>

theorem stable_id_iff_same_identity:
  assumes "inj_on (sha256_hex L)
             {identityText (identityParts s r), identityText (identityParts s' r')}"
  shows "StableID L s r = StableID L s' r' \<longleftrightarrow>
         normalizeSource s = normalizeSource s' \<and> normalizeResource r = normalizeResource r'"
  using inj_on_eq_iff [OF assms, of "identityText (identityParts s r)" "identityText (identityParts s' r')"]
  by (simp add: StableID_def identityText_inj identityParts_eq)

theorem stable_id_iff_same_identity_witness:
  "StableID evalLib \<lparr>src_Kind = ''k'', src_ID = ''1''\<rparr> \<lparr>res_Kind = ''svc'', res_Namespace = ''a'', res_Name = ''b''\<rparr> \<noteq>
   StableID evalLib \<lparr>src_Kind = ''k'', src_ID = ''1''\<rparr> \<lparr>res_Kind = ''svc'', res_Namespace = ''ab'', res_Name = []\<rparr>"
proof -
  let ?s = "\<lparr>src_Kind = ''k'', src_ID = ''1''\<rparr>" and ?r = "\<lparr>res_Kind = ''svc'', res_Namespace = ''a'', res_Name = ''b''\<rparr>"
    and ?r' = "\<lparr>res_Kind = ''svc'', res_Namespace = ''ab'', res_Name = []\<rparr>"
  have "sha256_hex evalLib (identityText (identityParts ?s ?r)) \<noteq> sha256_hex evalLib (identityText (identityParts ?s ?r'))"
    by code_simp
  then have "inj_on (sha256_hex evalLib) {identityText (identityParts ?s ?r), identityText (identityParts ?s ?r')}"
    by (auto simp: inj_on_def)
  note stable_id_iff_same_identity [OF this]
  moreover have "TrimSpace ''a'' = ''a''" "TrimSpace ''ab'' = ''ab''" by code_simp+
  ultimately show ?thesis by (simp add: normalizeResource_def)
qed

text \<open>
  A snapshot that validation accepts comes from one non-manual source, every candidate in it
  is valid, carries the stable identifier of its references, and no two candidates of it observe
  the same resource.
\<close>

theorem snapshot_validate_sound:
  assumes "SnapshotValidate L s = None"
  shows "let n = SnapshotNormalize s in
           src_Kind (sn_Source n) \<noteq> ManualSourceKind \<and>
           (\<forall>c \<in> set (sn_Candidates n).
              c_Source c = sn_Source n \<and> CandidateValidate L c = None \<and>
              c_ID c = StableID L (sn_Source n) (c_Resource c)) \<and>
           distinct (map c_Resource (sn_Candidates n))"
proof -
  define n where "n = SnapshotNormalize s"
  from assms [unfolded SnapshotValidate_None Let_def, folded n_def]
  have v: "\<forall>c \<in> set (sn_Candidates n). c_Source c = sn_Source n \<and> CandidateValidate L c = None"
    and d: "distinct (map c_ID (sn_Candidates n))" and m: "src_Kind (sn_Source n) \<noteq> ManualSourceKind"
    by blast+
  from v have ids: "\<forall>c \<in> set (sn_Candidates n). c_ID c = StableID L (sn_Source n) (c_Resource c)"
    by (metis CandidateValidate_ID)
  then have "map c_ID (sn_Candidates n) = map (StableID L (sn_Source n)) (map c_Resource (sn_Candidates n))"
    by simp
  with d have "distinct (map c_Resource (sn_Candidates n))" by (metis distinct_map)
  with v m ids show ?thesis by (simp add: Let_def flip: n_def)
qed

definition evalSource :: SourceRef where
  "evalSource = \<lparr>src_Kind = ''kubernetes'', src_ID = ''home''\<rparr>"

definition evalService :: "string \<Rightarrow> ResourceRef" where
  "evalService name = \<lparr>res_Kind = ''service'', res_Namespace = ''apps'', res_Name = name\<rparr>"

definition evalCandidate :: "string \<Rightarrow> Candidate" where
  "evalCandidate name = NewCandidate evalLib evalSource (evalService name) 5"

definition evalSnapshot :: Snapshot where
  "evalSnapshot = \<lparr>sn_Source = evalSource, sn_Candidates = [evalCandidate ''web'', evalCandidate ''db''],
                   sn_ObservedAt = 7\<rparr>"

lemma evalSnapshot_valid: "SnapshotValidate evalLib evalSnapshot = None"
  by code_simp

theorem snapshot_validate_sound_witness:
  "distinct (map c_Resource (sn_Candidates (SnapshotNormalize evalSnapshot)))"
  using snapshot_validate_sound [OF evalSnapshot_valid] by (simp add: Let_def)

text \<open>
  A candidate made from references is valid exactly when the trimmed references name a
  source and a resource without forbidden bytes, the observation time is set and the identifier
  is not empty; in particular it always carries the identifier that validation recomputes.
\<close>

theorem new_candidate_valid_iff:
  "CandidateValidate L (NewCandidate L s r t) = None \<longleftrightarrow>
     validIdentity (normalizeSource s) (normalizeResource r) \<and> StableID L s r \<noteq> [] \<and> \<not> IsZero t"
proof -
  have "CandidateNormalize (NewCandidate L s r t) = NewCandidate L s r t"
    by (simp add: CandidateNormalize_def NewCandidate_def Let_def normalizeResource_def)
  then show ?thesis
    by (auto simp: CandidateValidate_None Let_def NewCandidate_def validIdentity_def)
qed

end
