(* ===== verification/UnionFind.thy ===== *)
theory UnionFind
  imports GoLib
begin

text \<open>
  The union-find forest inside \<open>relatedPresentCandidates\<close>
  (\<open>internal/application/catalog/related.go\<close>): the slice \<open>parents\<close>, the recursive closure \<open>root\<close>
  that compresses paths, and the assignment \<open>parents[root(i)] = root(j)\<close>. The specification is the
  function \<open>rep\<close>, which names the representative of each index: \<open>root\<close> returns it and keeps all
  of them, the assignment joins exactly two classes. \<open>root\<close> gets as fuel one more than the length
  of the slice, which is enough for every forest that the code can build.
\<close>

section \<open>Operations\<close>

fun rootFuel :: "nat \<Rightarrow> nat list \<Rightarrow> nat \<Rightarrow> (nat \<times> nat list) option" where
  "rootFuel 0 ps i = None"
| "rootFuel (Suc n) ps i =
     (if i \<ge> length ps then None
      else if ps ! i \<noteq> i then
        (case rootFuel n ps (ps ! i) of
           None \<Rightarrow> None
         | Some (r, ps') \<Rightarrow> Some (r, ps'[i := r]))
      else Some (i, ps))"

definition root :: "nat list \<Rightarrow> nat \<Rightarrow> nat \<times> nat list" where
  "root ps i = (case rootFuel (Suc (length ps)) ps i of Some x \<Rightarrow> x | None \<Rightarrow> (i, ps))"

text \<open>\<open>parents[root(i)] = root(j)\<close>: both calls happen before the assignment, left to right.\<close>

definition link :: "nat list \<Rightarrow> nat \<Rightarrow> nat \<Rightarrow> nat list" where
  "link ps i j = (let (ri, ps1) = root ps i; (rj, ps2) = root ps1 j in ps2[ri := rj])"

definition initialParents :: "nat \<Rightarrow> nat list" where
  "initialParents n = [0..<n]"

section \<open>Specification\<close>

definition parent :: "nat list \<Rightarrow> nat \<Rightarrow> nat" where
  "parent ps i = ps ! i"

definition rep :: "nat list \<Rightarrow> nat \<Rightarrow> nat" where
  "rep ps i = (parent ps ^^ length ps) i"

text \<open>Parents are indices, and following them ends at an index that is its own parent.\<close>

definition forest :: "nat list \<Rightarrow> bool" where
  "forest ps \<longleftrightarrow>
     list_all (\<lambda>i. i < length ps) ps \<and>
     list_all (\<lambda>i. parent ps (rep ps i) = rep ps i) [0..<length ps]"

inductive reach :: "nat list \<Rightarrow> nat \<Rightarrow> nat \<Rightarrow> bool" for ps where
  stop: "i < length ps \<Longrightarrow> ps ! i = i \<Longrightarrow> reach ps i i"
| step: "i < length ps \<Longrightarrow> ps ! i \<noteq> i \<Longrightarrow> reach ps (ps ! i) r \<Longrightarrow> reach ps i r"

lemma parent_pow_Suc: "(parent ps ^^ Suc k) i = (parent ps ^^ k) (ps ! i)"
  by (simp add: funpow_swap1 parent_def [of ps i])

lemma reach_range: "reach ps i r \<Longrightarrow> i < length ps \<and> r < length ps \<and> ps ! r = r"
  by (induction rule: reach.induct) auto

lemma reach_unique: "reach ps i r \<Longrightarrow> reach ps i r' \<Longrightarrow> r = r'"
proof (induction arbitrary: r' rule: reach.induct)
  case (stop i)
  then show ?case by (cases rule: reach.cases [OF stop.prems]) simp_all
next
  case (step i r)
  from step.prems step.hyps(2) have "reach ps (ps ! i) r'" by (cases rule: reach.cases) simp_all
  then show ?case by (rule step.IH)
qed

lemma reach_power: "reach ps i r \<Longrightarrow> \<exists>k. (parent ps ^^ k) i = r"
proof (induction rule: reach.induct)
  case (stop i)
  have "(parent ps ^^ 0) i = i" by simp
  then show ?case by blast
next
  case (step i r)
  then obtain k where "(parent ps ^^ k) (ps ! i) = r" by blast
  then have "(parent ps ^^ Suc k) i = r" by (simp only: parent_pow_Suc)
  then show ?case by blast
qed

lemma funpow_fix: "f x = x \<Longrightarrow> (f ^^ k) x = x"
  by (induction k) auto

lemma funpow_stays: "f ((f ^^ k) i) = (f ^^ k) i \<Longrightarrow> k \<le> m \<Longrightarrow> (f ^^ m) i = (f ^^ k) i"
proof -
  assume fx: "f ((f ^^ k) i) = (f ^^ k) i" and "k \<le> m"
  then have "(f ^^ m) i = (f ^^ (m - k)) ((f ^^ k) i)"
    by (metis add.commute comp_apply funpow_add le_add_diff_inverse)
  then show ?thesis using funpow_fix [of f "(f ^^ k) i" "m - k", OF fx] by simp
qed

text \<open>Following parents from an index that reaches a root gets there within the length of the slice.\<close>

lemma reach_rep:
  assumes "reach ps i r"
  shows "rep ps i = r"
proof -
  let ?f = "parent ps"
  have fixr: "?f r = r" using reach_range [OF assms] by (simp add: parent_def)
  define k where "k = (LEAST k. (?f ^^ k) i = r)"
  have k: "(?f ^^ k) i = r" unfolding k_def by (rule LeastI_ex) (rule reach_power [OF assms])
  have least: "(?f ^^ m) i \<noteq> r" if "m < k" for m
    using that not_less_Least unfolding k_def by blast
  have inrange: "(?f ^^ m) i < length ps" for m
  proof -
    have "reach ps ((?f ^^ m) i) r"
    proof (induction m)
      case (Suc m)
      have "?f ((?f ^^ m) i) = ps ! (?f ^^ m) i" by (rule parent_def)
      with Suc show ?case by (cases rule: reach.cases) (auto intro: reach.stop)
    qed (simp add: assms)
    then show ?thesis using reach_range by blast
  qed
  have "inj_on (\<lambda>m. (?f ^^ m) i) {..k}"
  proof (rule linorder_inj_onI)
    fix a b assume ab: "a < b" "a \<in> {..k}" "b \<in> {..k}"
    show "(?f ^^ a) i \<noteq> (?f ^^ b) i"
    proof
      assume eq: "(?f ^^ a) i = (?f ^^ b) i"
      have "(?f ^^ (k - b + a)) i = (?f ^^ (k - b)) ((?f ^^ a) i)" by (simp add: funpow_add)
      also have "\<dots> = (?f ^^ (k - b + b)) i" by (simp add: eq funpow_add)
      finally have "(?f ^^ (k - b + a)) i = r" using ab k by simp
      moreover have "k - b + a < k" using ab by simp
      ultimately show False using least [of "k - b + a"] by blast
    qed
  qed auto
  then have "card ((\<lambda>m. (?f ^^ m) i) ` {..k}) = Suc k" by (simp add: card_image)
  moreover have "card ((\<lambda>m. (?f ^^ m) i) ` {..k}) \<le> card {..<length ps}"
    using inrange by (intro card_mono) auto
  ultimately have "k \<le> length ps" by simp
  then show ?thesis using funpow_stays [of ?f k i "length ps"] fixr k by (simp add: rep_def)
qed

lemma power_reach:
  assumes "\<forall>j < length ps. ps ! j < length ps" and "i < length ps"
    and "parent ps ((parent ps ^^ k) i) = (parent ps ^^ k) i"
  shows "reach ps i ((parent ps ^^ k) i)"
  using assms
proof (induction k arbitrary: i)
  case 0
  then show ?case by (auto simp: parent_def intro: reach.stop)
next
  case (Suc k)
  then have IH: "reach ps (ps ! i) ((parent ps ^^ k) (ps ! i))"
    unfolding parent_pow_Suc by blast
  show ?case
  proof (cases "ps ! i = i")
    case True
    then have "(parent ps ^^ Suc k) i = i" by (intro funpow_fix) (simp add: parent_def [of ps i])
    with True Suc.prems(2) show ?thesis by (simp only: reach.stop)
  next
    case False
    show ?thesis unfolding parent_pow_Suc by (rule reach.step [OF Suc.prems(2) False IH])
  qed
qed

lemma forest_iff_reach: "forest ps \<longleftrightarrow> (\<forall>i < length ps. \<exists>r. reach ps i r)"
proof
  assume "forest ps"
  then have "\<forall>j < length ps. ps ! j < length ps"
    and "\<forall>i < length ps. parent ps (rep ps i) = rep ps i"
    by (auto simp: forest_def list_all_length list_all_iff)
  then show "\<forall>i < length ps. \<exists>r. reach ps i r" using power_reach by (metis rep_def)
next
  assume *: "\<forall>i < length ps. \<exists>r. reach ps i r"
  have "ps ! i < length ps" if i: "i < length ps" for i
  proof -
    from * i obtain r where "reach ps i r" by blast
    then show ?thesis by (cases rule: reach.cases) (auto dest: reach_range)
  qed
  moreover have "parent ps (rep ps i) = rep ps i" if "i < length ps" for i
    using * that reach_rep reach_range by (metis parent_def)
  ultimately show "forest ps" by (auto simp: forest_def list_all_length)
qed

lemma forest_reach: "forest ps \<Longrightarrow> i < length ps \<Longrightarrow> reach ps i (rep ps i)"
  using forest_iff_reach reach_rep by metis

lemma reps_forest:
  assumes "\<And>i. i < length ps \<Longrightarrow> reach ps i (f i)"
  shows "forest ps" and "\<And>i. i < length ps \<Longrightarrow> rep ps i = f i"
  using assms forest_iff_reach reach_rep by blast+

lemma rep_range: "forest ps \<Longrightarrow> i < length ps \<Longrightarrow> rep ps i < length ps"
  using forest_reach reach_range by blast

lemma rep_parent: "forest ps \<Longrightarrow> i < length ps \<Longrightarrow> ps ! rep ps i = rep ps i"
  using forest_reach reach_range by blast

lemma rep_idem: "forest ps \<Longrightarrow> i < length ps \<Longrightarrow> rep ps (rep ps i) = rep ps i"
  using forest_reach reach_range reach_rep reach.stop by metis

section \<open>The operations meet the specification\<close>

lemma forest_initial: "forest (initialParents n)" and rep_initial: "i < n \<Longrightarrow> rep (initialParents n) i = i"
proof -
  have "reach (initialParents n) i i" if "i < length (initialParents n)" for i
    using that by (simp add: reach.stop initialParents_def)
  note reps_forest [of _ "\<lambda>i. i", OF this]
  then show "forest (initialParents n)" and "i < n \<Longrightarrow> rep (initialParents n) i = i"
    by (simp_all add: initialParents_def)
qed

lemma reach_compress:
  assumes "reach ps i s" and "reach ps j r"
  shows "reach (ps[i := s]) j r"
  using assms(2)
proof (induction rule: reach.induct)
  case (stop j)
  have "ps[i := s] ! j = j"
  proof (cases "i = j")
    case True
    then have "s = j" using reach_unique [OF assms(1)] reach.stop [OF stop] by simp
    with stop show ?thesis by (simp add: True)
  qed (simp add: stop)
  with stop show ?case by (simp add: reach.stop)
next
  case (step j r)
  show ?case
  proof (cases "i = j")
    case True
    then have s: "s = r" using reach_unique [OF assms(1)] reach.step [OF step.hyps] by simp
    with step True have "s \<noteq> i" using reach_range [OF assms(1)] by auto
    with s True step reach_range [OF assms(1)] show ?thesis
      by (auto intro!: reach.step [of j] reach.stop)
  next
    case False
    show ?thesis by (rule reach.step) (use step False in auto)
  qed
qed

lemma compress_forest:
  assumes "forest ps" and "i < length ps"
  shows "forest (ps[i := rep ps i])"
    and "j < length ps \<Longrightarrow> rep (ps[i := rep ps i]) j = rep ps j"
proof -
  have "reach (ps[i := rep ps i]) j (rep ps j)" if "j < length (ps[i := rep ps i])" for j
    using that assms by (auto intro: reach_compress forest_reach)
  note reps_forest [of _ "rep ps", OF this]
  then show "forest (ps[i := rep ps i])"
    and "j < length ps \<Longrightarrow> rep (ps[i := rep ps i]) j = rep ps j" by simp_all
qed

lemma rootFuel_spec:
  assumes "forest ps" and "i < length ps" and "ps ! ((parent ps ^^ k) i) = (parent ps ^^ k) i"
  shows "\<exists>ps'. rootFuel (Suc k) ps i = Some (rep ps i, ps') \<and> forest ps' \<and> length ps' = length ps \<and>
               (\<forall>j < length ps. rep ps' j = rep ps j)"
  using assms(2,3)
proof (induction k arbitrary: i)
  case 0
  then have "rep ps i = i" by (simp add: reach_rep reach.stop)
  with 0 assms(1) show ?case by auto
next
  case (Suc k)
  show ?case
  proof (cases "ps ! i = i")
    case True
    with Suc.prems have "rep ps i = i" by (simp add: reach_rep reach.stop)
    with True Suc.prems assms(1) show ?thesis by auto
  next
    case False
    have p: "ps ! i < length ps" using assms(1) Suc.prems(1) by (auto simp: forest_def list_all_length)
    moreover note parent_pow_Suc [of k ps i]
    ultimately obtain ps' where ps': "rootFuel (Suc k) ps (ps ! i) = Some (rep ps (ps ! i), ps')"
      "forest ps'" "length ps' = length ps" "\<forall>j < length ps. rep ps' j = rep ps j"
      using Suc.IH [of "ps ! i"] Suc.prems(2) by auto
    have "rep ps (ps ! i) = rep ps i"
      using False Suc.prems(1) forest_reach [OF assms(1) p] by (metis reach.step reach_rep)
    with ps' False Suc.prems(1) compress_forest [of ps' i] show ?thesis by auto
  qed
qed

lemma rootFuel_enough:
  assumes "forest ps" and "i < length ps"
  shows "\<exists>ps'. rootFuel (Suc (length ps)) ps i = Some (rep ps i, ps') \<and> forest ps' \<and>
               length ps' = length ps \<and> (\<forall>j < length ps. rep ps' j = rep ps j)"
  using rootFuel_spec [OF assms, of "length ps"] rep_parent [OF assms] by (simp add: rep_def)

lemma root_spec:
  assumes "forest ps" and "i < length ps"
  shows "fst (root ps i) = rep ps i" and "forest (snd (root ps i))"
    and "length (snd (root ps i)) = length ps"
    and "j < length ps \<Longrightarrow> rep (snd (root ps i)) j = rep ps j"
proof -
  obtain ps' where "rootFuel (Suc (length ps)) ps i = Some (rep ps i, ps')" and
    ps': "forest ps'" "length ps' = length ps" "\<forall>j < length ps. rep ps' j = rep ps j"
    using rootFuel_enough [OF assms] by blast
  then have r: "root ps i = (rep ps i, ps')" unfolding root_def by (simp only: option.case)
  from r ps' show "fst (root ps i) = rep ps i" and "forest (snd (root ps i))"
    and "length (snd (root ps i)) = length ps"
    and "j < length ps \<Longrightarrow> rep (snd (root ps i)) j = rep ps j" by simp_all
qed

lemma reach_link:
  assumes "a < length ps" "ps ! a = a" "b < length ps" "ps ! b = b" and "reach ps k r"
  shows "reach (ps[a := b]) k (if r = a then b else r)"
  using assms(5)
proof (induction rule: reach.induct)
  case (stop k)
  with assms have b: "a \<noteq> b \<Longrightarrow> reach (ps[a := b]) b b" by (auto intro: reach.stop)
  show ?case
  proof (cases "k = a")
    case True
    with assms b show ?thesis by (cases "a = b") (auto intro: reach.stop reach.step [of a])
  next
    case False
    with stop show ?thesis by (auto intro: reach.stop)
  qed
next
  case (step k r)
  with assms have "k \<noteq> a" by auto
  show ?case by (rule reach.step) (use step \<open>k \<noteq> a\<close> in auto)
qed

lemma link_spec:
  assumes "forest ps" and "i < length ps" and "j < length ps"
  shows "forest (link ps i j)" and "length (link ps i j) = length ps"
    and "k < length ps \<Longrightarrow> rep (link ps i j) k = (if rep ps k = rep ps i then rep ps j else rep ps k)"
proof -
  define qs where "qs = snd (root (snd (root ps i)) j)"
  have qs: "forest qs" "length qs = length ps" "\<And>k. k < length ps \<Longrightarrow> rep qs k = rep ps k"
    using root_spec [OF assms(1,2)] root_spec [of "snd (root ps i)" j] assms(3) by (simp_all add: qs_def)
  have l: "link ps i j = qs[rep ps i := rep ps j]"
    using root_spec [OF assms(1,2)] root_spec [of "snd (root ps i)" j] assms(3)
    by (simp add: link_def qs_def case_prod_beta)
  have ri: "rep ps i < length qs" "qs ! rep ps i = rep ps i"
    and rj: "rep ps j < length qs" "qs ! rep ps j = rep ps j"
    using qs assms rep_range rep_parent by metis+
  have "reach (link ps i j) k (if rep ps k = rep ps i then rep ps j else rep ps k)"
    if "k < length (link ps i j)" for k
    using reach_link [OF ri rj, of k "rep ps k"] forest_reach [OF qs(1), of k] qs that l by simp
  note reps_forest [OF this]
  then show "forest (link ps i j)"
    and "k < length ps \<Longrightarrow> rep (link ps i j) k = (if rep ps k = rep ps i then rep ps j else rep ps k)"
    using l qs by auto
  show "length (link ps i j) = length ps" using l qs by simp
qed

section \<open>Properties\<close>

text \<open>
  On every forest, looking up a root ends, returns the representative of the index, and the
  path compression it performs changes no representative.
\<close>

theorem root_returns_representative:
  assumes "forest ps" and "i < length ps"
  shows "\<exists>ps'. rootFuel (Suc (length ps)) ps i = Some (rep ps i, ps') \<and> root ps i = (rep ps i, ps') \<and>
               forest ps' \<and> length ps' = length ps \<and> (\<forall>j < length ps. rep ps' j = rep ps j)"
proof -
  from rootFuel_enough [OF assms] obtain ps' where
    ps': "rootFuel (Suc (length ps)) ps i = Some (rep ps i, ps')" "forest ps'" "length ps' = length ps"
      "\<forall>j < length ps. rep ps' j = rep ps j" by blast
  then have "root ps i = (rep ps i, ps')" unfolding root_def by (simp only: option.case)
  with ps' show ?thesis by blast
qed

theorem root_returns_representative_witness:
  "root [1, 2, 2, 3] 0 = (2, [2, 2, 2, 3])"
proof -
  have "forest [1, 2, 2, 3]" by code_simp
  from root_returns_representative [OF this, of 0] have "root [1, 2, 2, 3] 0 = (2, snd (root [1, 2, 2, 3] 0))"
    by (auto simp: rep_def parent_def numeral_eq_Suc)
  moreover have "snd (root [1, 2, 2, 3] 0) = [2, 2, 2, 3]" by code_simp
  ultimately show ?thesis by simp
qed

text \<open>
  The assignment that joins two groups keeps the forest and joins exactly the classes of its
  two arguments: two indices share a representative afterwards if and only if they shared one
  before or lie in the two joined classes.
\<close>

theorem link_joins_two_classes:
  assumes "forest ps" and "i < length ps" and "j < length ps" and "k < length ps" and "l < length ps"
  shows "forest (link ps i j) \<and>
         (rep (link ps i j) k = rep (link ps i j) l \<longleftrightarrow>
            rep ps k = rep ps l \<or>
            rep ps k = rep ps i \<and> rep ps l = rep ps j \<or>
            rep ps k = rep ps j \<and> rep ps l = rep ps i)"
  using link_spec(1) [OF assms(1-3)] link_spec(3) [OF assms(1-4)] link_spec(3) [OF assms(1-3) assms(5)]
  by auto

theorem link_joins_two_classes_witness:
  "rep (link (initialParents 3) 0 2) 0 = rep (link (initialParents 3) 0 2) 2 \<and>
   rep (link (initialParents 3) 0 2) 1 \<noteq> rep (link (initialParents 3) 0 2) 2"
  using link_joins_two_classes [OF forest_initial, of 0 3 2 0 2]
    link_joins_two_classes [OF forest_initial, of 0 3 2 1 2]
    rep_initial [of 0 3] rep_initial [of 1 3] rep_initial [of 2 3]
  by (simp add: initialParents_def)

end
