(* ===== verification/CatalogRelated.thy ===== *)
theory CatalogRelated
  imports CatalogModel UnionFind
begin

text \<open>
  The joining of catalogue groups by versioned discovery evidence
  (\<open>internal/application/catalog/related.go\<close>). \<open>relatedPresentCandidates\<close> builds a union-find
  forest over the groups in three passes (front-door routes, service aliases, redirect-only routes)
  and merges each class into its representative; \<open>relatedCandidates\<close> runs it on the live and on the
  missing rows separately.

  A Go map is a partial function, the sets \<open>owners\<close>, \<open>primary\<close> and \<open>primaryURLs\<close> are lists without
  repetition of the pairs (or keys) set to true, and the loops that range over a map go through its
  keys in the order they were first set: Go leaves that order open, and the results of these loops
  are collected in sets, in the classes of the forest, or sorted. Where only the answer of \<open>root\<close> is
  used, the compressed slice is dropped: by \<open>root_spec\<close> it has the same representatives.
  \<open>J\<close> stands for \<open>json.Unmarshal\<close> into \<open>[]Exposure\<close>.
\<close>

section \<open>Keys and scopes\<close>

definition nulJoin :: "string \<Rightarrow> string \<Rightarrow> string" where
  "nulJoin a b = a @ NUL # b"

definition refKey :: "SourceRef \<Rightarrow> string \<Rightarrow> string" where
  "refKey s ref = nulJoin (src_Kind s) (nulJoin (src_ID s) ref)"

definition qualifiedName :: "ResourceRef \<Rightarrow> string" where
  "qualifiedName r = res_Namespace r @ CHR ''/'' # res_Name r"

definition serviceRefs :: "Candidate \<Rightarrow> string list" where
  "serviceRefs c = map TrimSpace (Split CHR '','' (mget (c_Metadata c) ''kubernetes.services''))"

definition exposureAddress :: "Exposure \<Rightarrow> string" where
  "exposureAddress e = nulJoin (x_Scope e) (x_Host e)"

definition scopeAddressSubset :: "golib \<Rightarrow> string \<Rightarrow> string \<Rightarrow> bool" where
  "scopeAddressSubset L a b \<longleftrightarrow>
     a = b \<or>
     (case Cut NUL a of
        None \<Rightarrow> False
      | Some (aScope, aHost) \<Rightarrow>
          (case Cut NUL b of
             None \<Rightarrow> False
           | Some (bScope, bHost) \<Rightarrow>
               if aHost \<noteq> bHost then False
               else (case (json_strings L aScope, json_strings L bScope) of
                       (Some as, Some bs) \<Rightarrow> as \<noteq> [] \<and> list_all (\<lambda>x. x \<in> set bs) as
                     | _ \<Rightarrow> False)))"

section \<open>Services, owners and routes\<close>

definition servicesIndex :: "Candidate list \<Rightarrow> string \<rightharpoonup> nat" where
  "servicesIndex groups =
     fold (\<lambda>(i, g) m.
            if src_Kind (c_Source g) = ''kubernetes'' \<and> res_Kind (c_Resource g) = ''service''
            then m(refKey (c_Source g) (qualifiedName (c_Resource g)) \<mapsto> i) else m)
          (enumerate 0 groups) Map.empty"

type_synonym owners = "(nat \<times> string) list"

definition unknownOwner :: "Candidate \<Rightarrow> string" where
  "unknownOwner c = ''unknown:'' @ c_ID c"

definition addUnknownOwners ::
  "(string \<rightharpoonup> nat) \<Rightarrow> Candidate \<Rightarrow> (string \<Rightarrow> bool) \<Rightarrow> owners \<Rightarrow> owners" where
  "addUnknownOwners services c covered ow =
     fold (\<lambda>ref ow.
            case services (refKey (c_Source c) ref) of
              Some i \<Rightarrow> if covered ref then ow else List.insert (i, unknownOwner c) ow
            | None \<Rightarrow> ow)
          (serviceRefs c) ow"

definition addExposureOwners ::
  "(string \<rightharpoonup> nat) \<Rightarrow> Candidate \<Rightarrow> Exposure list \<Rightarrow> owners \<Rightarrow> owners" where
  "addExposureOwners services c exposures ow =
     fold (\<lambda>e ow.
            case services (refKey (c_Source c) (x_Service e)) of
              Some i \<Rightarrow>
                List.insert (i, if x_Scope e = [] \<or> x_Host e = [] then unknownOwner c
                                else exposureAddress e) ow
            | None \<Rightarrow> ow)
          exposures ow"

definition ownersStep ::
  "(string \<Rightarrow> Exposure list option) \<Rightarrow> (string \<rightharpoonup> nat) \<Rightarrow> Candidate \<Rightarrow>
   owners \<times> (string \<rightharpoonup> Exposure list) \<Rightarrow> owners \<times> (string \<rightharpoonup> Exposure list)" where
  "ownersStep J services c = (\<lambda>(ow, routes).
     case J (mget (c_Metadata c) ExposureMetadata) of
       None \<Rightarrow>
         (if res_Kind (c_Resource c) = ''httproute'' \<or> res_Kind (c_Resource c) = ''ingress''
          then addUnknownOwners services c (\<lambda>_. False) ow else ow, routes)
     | Some exposures \<Rightarrow>
         let covered = map x_Service (filter (\<lambda>e. x_Scope e \<noteq> [] \<and> x_Host e \<noteq> []) exposures);
             ow1 = addUnknownOwners services c (\<lambda>ref. ref \<in> set covered) ow
         in (addExposureOwners services c exposures ow1, routes(c_ID c \<mapsto> exposures)))"

definition routesOf :: "(string \<rightharpoonup> Exposure list) \<Rightarrow> string \<Rightarrow> Exposure list" where
  "routesOf routes k = (case routes k of Some es \<Rightarrow> es | None \<Rightarrow> [])"

definition exclusivelyOwned :: "golib \<Rightarrow> owners \<Rightarrow> nat \<Rightarrow> string \<Rightarrow> bool" where
  "exclusivelyOwned L ow i address \<longleftrightarrow>
     list_ex (\<lambda>(j, a). j = i) ow \<and>
     list_all (\<lambda>(j, a). j = i \<longrightarrow> scopeAddressSubset L a address) ow"

section \<open>First pass: front doors\<close>

text \<open>The one service that the root prefix of an address leads to; \<open>None\<close> is a negative \<open>anchor\<close>.\<close>

fun anchorOf ::
  "(string \<rightharpoonup> nat) \<Rightarrow> SourceRef \<Rightarrow> nat option \<Rightarrow> Exposure list \<Rightarrow> nat option" where
  "anchorOf services src a [] = a"
| "anchorOf services src a (e # es) =
     (if x_Path e = ''/'' \<and> x_Match e = ''PathPrefix'' then
        (case services (refKey src (x_Service e)) of
           None \<Rightarrow> anchorOf services src a es
         | Some i \<Rightarrow>
             if a \<noteq> None \<and> a \<noteq> Some i then None
             else anchorOf services src (Some i) es)
      else anchorOf services src a es)"

record joinState =
  j_parents :: "nat list"
  j_primary :: "nat list"
  j_primaryURLs :: "(nat \<times> string) list"

definition linkIfSame :: "Candidate list \<Rightarrow> nat \<Rightarrow> nat \<Rightarrow> nat list \<Rightarrow> nat list" where
  "linkIfSame groups i j ps =
     (if c_Missing (groups ! i) = c_Missing (groups ! j) then link ps i j else ps)"

definition frontDoorAddress ::
  "golib \<Rightarrow> Candidate list \<Rightarrow> (string \<rightharpoonup> nat) \<Rightarrow> owners \<Rightarrow> Candidate \<Rightarrow> string \<times> Exposure list \<Rightarrow>
   joinState \<Rightarrow> joinState" where
  "frontDoorAddress L groups services ow c = (\<lambda>(address, es) st.
     case anchorOf services (c_Source c) None es of
       None \<Rightarrow> st
     | Some anchor \<Rightarrow>
         let urls = map (\<lambda>e. (anchor, ''//'' @ x_Host e @ ''/''))
                      (filter (\<lambda>e. x_Path e = ''/'' \<and>
                                   x_Service e = qualifiedName (c_Resource (groups ! anchor))) es);
             parents = fold (\<lambda>e ps.
                case services (refKey (c_Source c) (x_Service e)) of
                  Some i \<Rightarrow>
                    if exclusivelyOwned L ow i address \<and> exclusivelyOwned L ow anchor address
                    then linkIfSame groups i anchor ps else ps
                | None \<Rightarrow> ps) es (j_parents st)
         in \<lparr>j_parents = parents, j_primary = List.insert anchor (j_primary st),
             j_primaryURLs = fold List.insert urls (j_primaryURLs st)\<rparr>)"

definition frontDoors ::
  "golib \<Rightarrow> Candidate list \<Rightarrow> (string \<rightharpoonup> nat) \<Rightarrow> owners \<Rightarrow> (string \<rightharpoonup> Exposure list) \<Rightarrow> Candidate \<Rightarrow>
   joinState \<Rightarrow> joinState" where
  "frontDoors L groups services ow routes c =
     fold (frontDoorAddress L groups services ow c)
          (collectBy exposureAddress (filter (\<lambda>e. x_Service e \<noteq> []) (routesOf routes (c_ID c))))"

section \<open>Second pass: service aliases\<close>

definition ownedAddresses :: "owners \<Rightarrow> nat list \<Rightarrow> nat \<Rightarrow> string list" where
  "ownedAddresses ow ps i =
     dedup_by (\<lambda>a. a) (map snd (filter (\<lambda>(m, a). fst (root ps m) = fst (root ps i)) ow))"

definition compatibleOwners :: "string list \<Rightarrow> string list \<Rightarrow> bool" where
  "compatibleOwners a b \<longleftrightarrow>
     (if length a = length b then list_all (\<lambda>x. x \<in> set b) a else a = [] \<or> b = [])"

definition aliasStep ::
  "Candidate list \<Rightarrow> owners \<Rightarrow> nat \<times> Candidate \<Rightarrow> nat list \<times> (string \<rightharpoonup> nat) \<Rightarrow> nat list \<times> (string \<rightharpoonup> nat)" where
  "aliasStep groups ow = (\<lambda>(i, g) (ps, backends).
     if res_Kind (c_Resource g) = ''service'' \<and> mget (c_Metadata g) BackendMetadata \<noteq> [] then
       (let signature = refKey (c_Source g) (mget (c_Metadata g) BackendMetadata) in
        case backends signature of
          None \<Rightarrow> (ps, backends(signature \<mapsto> i))
        | Some prior \<Rightarrow>
            (if compatibleOwners (ownedAddresses ow ps i) (ownedAddresses ow ps prior)
             then linkIfSame groups i prior ps else ps, backends))
     else (ps, backends))"

definition aliases :: "Candidate list \<Rightarrow> owners \<Rightarrow> nat list \<Rightarrow> nat list" where
  "aliases groups ow ps = fst (fold (aliasStep groups ow) (enumerate 0 groups) (ps, Map.empty))"

section \<open>Third pass: redirects\<close>

definition redirectScore :: "Exposure \<Rightarrow> Exposure \<Rightarrow> int" where
  "redirectScore e target =
     (if x_Match target = ''PathPrefix'' \<and>
         (x_Path target = ''/'' \<or> x_RedirectPath e = x_Path target \<or>
          prefix (TrimSuffix (x_Path target) ''/'' @ ''/'') (x_RedirectPath e))
      then int (length (x_Path target))
      else if x_Match target = ''Exact'' \<and> x_Path target = x_RedirectPath e
      then 100000 + int (length (x_Path target))
      else - 1)"

record bestTarget =
  b_best :: "nat option"
  b_score :: int
  b_ambiguous :: bool

definition bestStep ::
  "golib \<Rightarrow> (string \<rightharpoonup> nat) \<Rightarrow> nat list \<Rightarrow> SourceRef \<Rightarrow> Exposure \<Rightarrow> Exposure \<Rightarrow> bestTarget \<Rightarrow> bestTarget" where
  "bestStep L services ps src e target b =
     (if \<not> scopeAddressSubset L (nulJoin (x_Scope e) (x_RedirectHost e)) (exposureAddress target)
         \<or> x_Service target = [] then b
      else case services (refKey src (x_Service target)) of
          None \<Rightarrow> b
        | Some index0 \<Rightarrow>
            let score = redirectScore e target; index = fst (root ps index0) in
            if score < 0 then b
            else if score > b_score b then \<lparr>b_best = Some index, b_score = score, b_ambiguous = False\<rparr>
            else if score = b_score b \<and> b_best b \<noteq> Some index then b\<lparr>b_ambiguous := True\<rparr>
            else b)"

definition redirectTarget ::
  "golib \<Rightarrow> (string \<rightharpoonup> nat) \<Rightarrow> (string \<rightharpoonup> Exposure list) \<Rightarrow> Candidate list \<Rightarrow> nat list \<Rightarrow> SourceRef \<Rightarrow> Exposure \<Rightarrow>
   bestTarget" where
  "redirectTarget L services routes observations ps src e =
     fold (bestStep L services ps src e)
          (concat (map (\<lambda>c. if c_Source c = src then routesOf routes (c_ID c) else []) observations))
          \<lparr>b_best = None, b_score = - 1, b_ambiguous = False\<rparr>"

text \<open>\<open>None\<close> is \<open>valid = false\<close> or a negative \<open>destination\<close>.\<close>

fun redirectDestination :: "(Exposure \<Rightarrow> bestTarget) \<Rightarrow> nat option \<Rightarrow> Exposure list \<Rightarrow> nat option" where
  "redirectDestination bestFor dest [] = dest"
| "redirectDestination bestFor dest (e # es) =
     (if x_RedirectHost e = [] then None
      else let b = bestFor e in
           if b_best b = None \<or> b_ambiguous b \<or> (dest \<noteq> None \<and> dest \<noteq> b_best b) then None
           else redirectDestination bestFor (b_best b) es)"

definition redirectStep ::
  "golib \<Rightarrow> (string \<rightharpoonup> nat) \<Rightarrow> (string \<rightharpoonup> Exposure list) \<Rightarrow> Candidate list \<Rightarrow> Candidate list \<Rightarrow> nat \<times> Candidate \<Rightarrow>
   nat list \<Rightarrow> nat list" where
  "redirectStep L services routes observations groups = (\<lambda>(i, g) ps.
     let es = routesOf routes (c_ID g) in
     if res_Kind (c_Resource g) \<noteq> ''httproute'' \<or> es = [] then ps
     else case redirectDestination (redirectTarget L services routes observations ps (c_Source g)) None es of
         Some d \<Rightarrow> linkIfSame groups i d ps
       | None \<Rightarrow> ps)"

section \<open>Merging a class\<close>

definition memberBefore :: "Candidate list \<Rightarrow> nat list \<Rightarrow> nat \<Rightarrow> nat \<Rightarrow> bool" where
  "memberBefore groups primary i j \<longleftrightarrow>
     (let pi = i \<in> set primary; pj = j \<in> set primary;
          si = res_Kind (c_Resource (groups ! i)) = ''service'';
          sj = res_Kind (c_Resource (groups ! j)) = ''service'' in
      if pi \<noteq> pj then pi
      else if si \<noteq> sj then si
      else qualifiedName (c_Resource (groups ! i)) < qualifiedName (c_Resource (groups ! j)))"

definition observationsOf :: "Candidate \<Rightarrow> ResourceObservation list" where
  "observationsOf m =
     (if c_Resources m = []
      then [\<lparr>ro_Resource = c_Resource m, ro_Endpoints = c_Endpoints m, ro_Images = c_Images m\<rparr>]
      else c_Resources m)"

definition appendNew :: "('a \<Rightarrow> 'k) \<Rightarrow> 'a list \<Rightarrow> 'a list \<Rightarrow> 'a list" where
  "appendNew key xs acc = fold (\<lambda>x acc. if key x \<in> key ` set acc then acc else acc @ [x]) xs acc"

definition mergeMember :: "Candidate \<Rightarrow> Candidate \<Rightarrow> Candidate" where
  "mergeMember member g =
     g\<lparr>c_Hidden := c_Hidden g \<or> c_Hidden member,
       c_PinnedAt := (if c_PinnedAt g = None then c_PinnedAt member else c_PinnedAt g),
       c_Resources := appendNew ro_Resource (observationsOf member) (c_Resources g),
       c_Endpoints := appendNew (\<lambda>e. e) (c_Endpoints member) (c_Endpoints g),
       c_Images := appendNew (\<lambda>i. i) (c_Images member) (c_Images g)\<rparr>"

definition mergeClass ::
  "Candidate list \<Rightarrow> nat list \<Rightarrow> (nat \<times> string) list \<Rightarrow> nat list \<Rightarrow> Candidate" where
  "mergeClass groups primary urls members =
     (let indices = SortSlice (memberBefore groups primary) members;
          representative = hd indices;
          g = groups ! representative in
      if length indices = 1 then g
      else let merged = fold (\<lambda>i. mergeMember (groups ! i)) indices
                          (g\<lparr>c_Resources := [], c_Endpoints := [], c_Images := []\<rparr>);
               isPrimary = (\<lambda>e. (representative, ep_URL e) \<in> set urls) in
           merged\<lparr>c_Endpoints := SortSlice (\<lambda>a b. isPrimary a \<and> \<not> isPrimary b) (c_Endpoints merged)\<rparr>)"

definition displayBefore :: "Candidate \<Rightarrow> Candidate \<Rightarrow> bool" where
  "displayBefore a b \<longleftrightarrow>
     (if c_DisplayName a \<noteq> c_DisplayName b then c_DisplayName a < c_DisplayName b else c_ID a < c_ID b)"

definition joinGroups ::
  "golib \<Rightarrow> (string \<Rightarrow> Exposure list option) \<Rightarrow> Candidate list \<Rightarrow> Candidate list \<Rightarrow> joinState" where
  "joinGroups L J observations groups =
     (let services = servicesIndex groups;
          (ow, routes) = fold (ownersStep J services) observations ([], Map.empty);
          st1 = fold (frontDoors L groups services ow routes) observations
                  \<lparr>j_parents = initialParents (length groups), j_primary = [], j_primaryURLs = []\<rparr>;
          ps2 = aliases groups ow (j_parents st1);
          ps3 = fold (redirectStep L services routes observations groups) (enumerate 0 groups) ps2
      in st1\<lparr>j_parents := ps3\<rparr>)"

definition relatedPresentCandidates ::
  "golib \<Rightarrow> (string \<Rightarrow> Exposure list option) \<Rightarrow> Candidate list \<Rightarrow> Candidate list \<Rightarrow> Candidate list" where
  "relatedPresentCandidates L J observations groups =
     (let st = joinGroups L J observations groups;
          members = collectBy (\<lambda>i. fst (root (j_parents st) i)) [0..<length groups]
      in SortSlice displayBefore
           (map (\<lambda>(_, indices). mergeClass groups (j_primary st) (j_primaryURLs st) indices) members))"

definition relatedCandidates ::
  "golib \<Rightarrow> (string \<Rightarrow> Exposure list option) \<Rightarrow> Candidate list \<Rightarrow> Candidate list \<Rightarrow> Candidate list" where
  "relatedCandidates L J observations groups =
     SortSlice displayBefore
       (concat (map (\<lambda>missing.
          relatedPresentCandidates L J (filter (\<lambda>c. c_Missing c = missing) observations)
                                       (filter (\<lambda>c. c_Missing c = missing) groups)) [False, True]))"

section \<open>The forest only joins rows of one source and one state\<close>

text \<open>
  All rows of a class agree on \<open>f\<close>. The passes establish it for the missing flag together with
  any function of the source that the lookup keys determine.
\<close>

definition coherent :: "(Candidate \<Rightarrow> 'k) \<Rightarrow> Candidate list \<Rightarrow> nat list \<Rightarrow> bool" where
  "coherent f groups ps \<longleftrightarrow>
     forest ps \<and> length ps = length groups \<and>
     (\<forall>i < length groups. \<forall>j < length groups. rep ps i = rep ps j \<longrightarrow> f (groups ! i) = f (groups ! j))"

lemma coherent_initial: "coherent f groups (initialParents (length groups))"
  by (simp add: coherent_def forest_initial rep_initial) (simp add: initialParents_def)

lemma coherentD:
  "coherent f groups ps \<Longrightarrow> k < length groups \<Longrightarrow> m < length groups \<Longrightarrow> rep ps k = rep ps m \<Longrightarrow>
   f (groups ! k) = f (groups ! m)"
  unfolding coherent_def by (elim conjE) blast

lemma coherent_forest: "coherent f groups ps \<Longrightarrow> forest ps \<and> length ps = length groups"
  unfolding coherent_def by (elim conjE) blast

lemma coherent_link:
  assumes "coherent f groups ps" and "i < length groups" and "j < length groups"
    and "f (groups ! i) = f (groups ! j)"
  shows "coherent f groups (link ps i j)"
proof -
  from assms have n: "forest ps" "i < length ps" "j < length ps" "length ps = length groups"
    using coherent_forest [OF assms(1)] by (simp_all only:)
  note l = link_spec [OF n(1-3)]
  note f = coherentD [OF assms(1)]
  have *: "f (groups ! k) = f (groups ! m)"
    if km: "k < length groups" "m < length groups" "rep (link ps i j) k = rep (link ps i j) m" for k m
  proof -
    from km(3) l(3) [of k] l(3) [of m] km(1,2) n(4)
    have "rep ps k = rep ps m \<or> rep ps k = rep ps i \<and> rep ps m = rep ps j \<or>
          rep ps k = rep ps j \<and> rep ps m = rep ps i" by (simp split: if_splits)
    then show ?thesis
    proof (elim disjE conjE)
      assume "rep ps k = rep ps m"
      then show ?thesis by (rule f [OF km(1,2)])
    next
      assume "rep ps k = rep ps i" "rep ps m = rep ps j"
      then show ?thesis using f [OF km(1) assms(2)] f [OF km(2) assms(3)] assms(4) by simp
    next
      assume "rep ps k = rep ps j" "rep ps m = rep ps i"
      then show ?thesis using f [OF km(1) assms(3)] f [OF km(2) assms(2)] assms(4) by simp
    qed
  qed
  show ?thesis unfolding coherent_def
  proof (intro conjI allI impI)
    fix k m assume "k < length groups" "m < length groups" "rep (link ps i j) k = rep (link ps i j) m"
    then show "f (groups ! k) = f (groups ! m)" by (rule *)
  qed (use l(1,2) n(4) in simp_all)
qed

lemma coherent_rep:
  assumes "coherent f groups ps" and "i < length groups"
  shows "rep ps i < length groups" and "f (groups ! rep ps i) = f (groups ! i)"
proof -
  note ps = coherent_forest [OF assms(1)]
  with assms(2) show r: "rep ps i < length groups" using rep_range [of ps i] by simp
  have "rep ps (rep ps i) = rep ps i" using ps assms(2) rep_idem [of ps i] by simp
  then show "f (groups ! rep ps i) = f (groups ! i)" by (rule coherentD [OF assms(1) r assms(2)])
qed

lemma servicesIndex_sound:
  assumes "servicesIndex groups k = Some i"
  shows "i < length groups" and "refKey (c_Source (groups ! i)) (qualifiedName (c_Resource (groups ! i))) = k"
proof -
  let ?P = "\<lambda>m. \<forall>k i. m k = Some i \<longrightarrow>
     i < length groups \<and> refKey (c_Source (groups ! i)) (qualifiedName (c_Resource (groups ! i))) = k"
  have "?P (servicesIndex groups)" unfolding servicesIndex_def
  proof (rule fold_invariant [where P = ?P and Q = "\<lambda>(i, g). i < length groups \<and> g = groups ! i"])
    fix x assume "x \<in> set (enumerate 0 groups)"
    then show "case x of (i, g) \<Rightarrow> i < length groups \<and> g = groups ! i"
      by (auto simp: in_set_enumerate_eq)
  qed (auto split: if_splits)
  with assms show "i < length groups"
    and "refKey (c_Source (groups ! i)) (qualifiedName (c_Resource (groups ! i))) = k" by blast+
qed

text \<open>The contract of the lookup keys: equal keys come from sources with equal \<open>h\<close>.\<close>

locale source_keys =
  fixes S :: "SourceRef set" and h :: "SourceRef \<Rightarrow> 'k"
  assumes refKey_source: "a \<in> S \<Longrightarrow> b \<in> S \<Longrightarrow> refKey a r = refKey b r' \<Longrightarrow> h a = h b"
begin

abbreviation scope :: "Candidate \<Rightarrow> 'k \<times> bool" where
  "scope c \<equiv> (h (c_Source c), c_Missing c)"

lemma services_source:
  assumes "servicesIndex groups (refKey s r) = Some i" and "s \<in> S" and "c_Source ` set groups \<subseteq> S"
  shows "i < length groups" and "h (c_Source (groups ! i)) = h s"
proof -
  note i = servicesIndex_sound [OF assms(1)]
  show "i < length groups" by (fact i(1))
  then have "c_Source (groups ! i) \<in> S" using assms(3) by auto
  with i(2) assms(2) show "h (c_Source (groups ! i)) = h s" using refKey_source by metis
qed

lemma coherent_linkIfSame:
  assumes "coherent scope groups ps" and "i < length groups" and "j < length groups"
    and "h (c_Source (groups ! i)) = h (c_Source (groups ! j))"
  shows "coherent scope groups (linkIfSame groups i j ps)"
  using assms by (auto simp: linkIfSame_def intro: coherent_link)

lemma coherent_frontDoorAddress:
  assumes "coherent scope groups (j_parents st)" and "c_Source c \<in> S" and "c_Source ` set groups \<subseteq> S"
  shows "coherent scope groups (j_parents (frontDoorAddress L groups (servicesIndex groups) ow c x st))"
proof -
  obtain address es where x: "x = (address, es)" by (cases x)
  show ?thesis
  proof (cases "anchorOf (servicesIndex groups) (c_Source c) None es")
    case (Some anchor)
    have "anchorOf services src a es = Some n \<Longrightarrow>
          a = Some n \<or> (\<exists>r. services (refKey src r) = Some n)" for services src a es n
      by (induction services src a es rule: anchorOf.induct) (auto split: if_splits option.splits)
    with Some obtain r where "servicesIndex groups (refKey (c_Source c) r) = Some anchor" by blast
    note anchor = services_source [OF this assms(2,3)]
    have "coherent scope groups
            (fold (\<lambda>e ps. case servicesIndex groups (refKey (c_Source c) (x_Service e)) of
                  Some i \<Rightarrow> if exclusivelyOwned L ow i address \<and> exclusivelyOwned L ow anchor address
                            then linkIfSame groups i anchor ps else ps
                | None \<Rightarrow> ps) es (j_parents st))"
    proof (rule fold_invariant [where Q = "\<lambda>_. True"])
      fix e ps assume "coherent scope groups ps"
      with anchor services_source [OF _ assms(2,3)]
      show "coherent scope groups (case servicesIndex groups (refKey (c_Source c) (x_Service e)) of
              Some i \<Rightarrow> if exclusivelyOwned L ow i address \<and> exclusivelyOwned L ow anchor address
                        then linkIfSame groups i anchor ps else ps
            | None \<Rightarrow> ps)"
        by (auto split: option.split intro!: coherent_linkIfSame)
    qed (simp_all add: assms(1))
    then show ?thesis by (simp add: x Some frontDoorAddress_def Let_def)
  qed (simp add: x frontDoorAddress_def assms(1))
qed

lemma coherent_frontDoors:
  assumes "coherent scope groups (j_parents st)" and "c_Source c \<in> S" and "c_Source ` set groups \<subseteq> S"
  shows "coherent scope groups (j_parents (frontDoors L groups (servicesIndex groups) ow routes c st))"
  unfolding frontDoors_def
  by (rule fold_invariant [where P = "\<lambda>st. coherent scope groups (j_parents st)" and Q = "\<lambda>_. True"])
     (simp_all add: coherent_frontDoorAddress assms)

lemma coherent_aliases:
  assumes "coherent scope groups ps" and "c_Source ` set groups \<subseteq> S"
  shows "coherent scope groups (aliases groups ow ps)"
proof -
  let ?B = "\<lambda>backends. \<forall>k i. backends k = Some i \<longrightarrow>
              i < length groups \<and> (\<exists>r. refKey (c_Source (groups ! i)) r = k)"
  let ?P = "\<lambda>(ps, backends). coherent scope groups ps \<and> ?B backends"
  have "?P (fold (aliasStep groups ow) (enumerate 0 groups) (ps, Map.empty))"
  proof (rule fold_invariant [where P = ?P and Q = "\<lambda>(i, g). i < length groups \<and> g = groups ! i"])
    fix x :: "nat \<times> Candidate" and st :: "nat list \<times> (string \<rightharpoonup> nat)"
    assume x: "case x of (i, g) \<Rightarrow> i < length groups \<and> g = groups ! i"
      and st: "case st of (ps, backends) \<Rightarrow> coherent scope groups ps \<and> ?B backends"
    obtain i ps backends where [simp]: "x = (i, groups ! i)" "st = (ps, backends)" "i < length groups"
      using x by (cases x, cases st) auto
    let ?sig = "refKey (c_Source (groups ! i)) (mget (c_Metadata (groups ! i)) BackendMetadata)"
    have "coherent scope groups (linkIfSame groups i prior ps)" if "backends ?sig = Some prior" for prior
    proof -
      from st that obtain r where prior: "prior < length groups" "refKey (c_Source (groups ! prior)) r = ?sig"
        by auto
      moreover have "c_Source (groups ! i) \<in> S" "c_Source (groups ! prior) \<in> S"
        using assms(2) prior(1) by auto
      ultimately have "h (c_Source (groups ! i)) = h (c_Source (groups ! prior))"
        using refKey_source by metis
      with prior st show ?thesis by (auto intro!: coherent_linkIfSame)
    qed
    with st show "case aliasStep groups ow x st of (ps, backends) \<Rightarrow> coherent scope groups ps \<and> ?B backends"
      by (auto simp: aliasStep_def Let_def split: option.split)
  qed (auto simp: assms(1) in_set_enumerate_eq)
  then show ?thesis by (simp add: aliases_def case_prod_beta)
qed

lemma bestTarget_service:
  assumes "b_best (redirectTarget L services routes observations ps src e) = Some d"
  shows "\<exists>r i. services (refKey src r) = Some i \<and> d = fst (root ps i)"
proof -
  let ?P = "\<lambda>b. \<forall>d. b_best b = Some d \<longrightarrow> (\<exists>r i. services (refKey src r) = Some i \<and> d = fst (root ps i))"
  have "?P (redirectTarget L services routes observations ps src e)"
    unfolding redirectTarget_def
    by (rule fold_invariant [where P = ?P and Q = "\<lambda>_. True"])
       (auto simp: bestStep_def Let_def split: option.split)
  with assms show ?thesis by blast
qed

lemma redirectDestination_best:
  "redirectDestination bestFor dest es = Some d \<Longrightarrow> dest = Some d \<or> (\<exists>e. b_best (bestFor e) = Some d)"
  by (induction bestFor dest es rule: redirectDestination.induct) (auto simp: Let_def split: if_splits)

lemma coherent_redirectStep:
  assumes "coherent scope groups ps" and "i < length groups" and "c_Source ` set groups \<subseteq> S"
  shows "coherent scope groups
           (redirectStep L (servicesIndex groups) routes observations groups (i, groups ! i) ps)"
proof -
  let ?g = "groups ! i"
  let ?t = "redirectTarget L (servicesIndex groups) routes observations ps (c_Source ?g)"
  have "coherent scope groups (linkIfSame groups i d ps)"
    if d: "redirectDestination ?t None (routesOf routes (c_ID ?g)) = Some d" for d
  proof -
    from redirectDestination_best [OF d] obtain r k where
      k: "servicesIndex groups (refKey (c_Source ?g) r) = Some k" and dk: "d = fst (root ps k)"
      using bestTarget_service by blast
    have "c_Source ?g \<in> S" using assms by auto
    note src = services_source [OF k this assms(3)]
    note ps = coherent_forest [OF assms(1)]
    have dr: "d = rep ps k" using dk ps src(1) root_spec(1) [of ps k] by simp
    note rp = coherent_rep [OF assms(1) src(1)]
    from rp(2) dr src(2) have "h (c_Source (groups ! d)) = h (c_Source ?g)" by simp
    with rp(1) dr show ?thesis by (intro coherent_linkIfSame assms(1,2)) simp_all
  qed
  then show ?thesis by (auto simp: redirectStep_def Let_def assms(1) split: option.split)
qed

lemma coherent_joinGroups:
  assumes "c_Source ` set groups \<subseteq> S" and "c_Source ` set observations \<subseteq> S"
  shows "coherent scope groups (j_parents (joinGroups L J observations groups))"
proof -
  let ?sv = "servicesIndex groups"
  obtain ow routes where or: "fold (ownersStep J ?sv) observations ([], Map.empty) = (ow, routes)"
    by (cases "fold (ownersStep J ?sv) observations ([], Map.empty)")
  define st1 where "st1 = fold (frontDoors L groups ?sv ow routes) observations
    \<lparr>j_parents = initialParents (length groups), j_primary = [], j_primaryURLs = []\<rparr>"
  have 1: "coherent scope groups (j_parents st1)" unfolding st1_def
    by (rule fold_invariant [where P = "\<lambda>st. coherent scope groups (j_parents st)" and Q = "\<lambda>c. c_Source c \<in> S"])
       (use assms in \<open>auto intro: coherent_frontDoors coherent_initial\<close>)
  have "coherent scope groups (fold (redirectStep L ?sv routes observations groups) (enumerate 0 groups)
          (aliases groups ow (j_parents st1)))"
  proof (rule fold_invariant [where P = "coherent scope groups" and
        Q = "\<lambda>x. \<exists>i < length groups. x = (i, groups ! i)"])
    show "coherent scope groups (aliases groups ow (j_parents st1))"
      by (rule coherent_aliases [OF 1 assms(1)])
  qed (auto simp: in_set_enumerate_eq intro: coherent_redirectStep [OF _ _ assms(1)])
  then show ?thesis by (simp add: joinGroups_def Let_def or flip: st1_def)
qed

end

text \<open>
  The keys determine the whole source when its parts hold no NUL byte, as validation demands; with
  no condition they still give a well-formed forest.
\<close>

definition nulFree :: "SourceRef \<Rightarrow> bool" where
  "nulFree s \<longleftrightarrow> NUL \<notin> set (src_Kind s) \<and> NUL \<notin> set (src_ID s)"

lemma refKey_nulFree:
  assumes "nulFree a" "nulFree b" "refKey a r = refKey b r'"
  shows "a = b"
proof -
  from assms have "src_Kind a = src_Kind b" "nulJoin (src_ID a) r = nulJoin (src_ID b) r'"
    using Cut_append [of NUL "src_Kind a"] Cut_append [of NUL "src_Kind b"]
    by (auto simp: refKey_def nulJoin_def nulFree_def dest!: arg_cong [where f = "Cut NUL"])
  moreover from this have "src_ID a = src_ID b"
    using Cut_append [of NUL "src_ID a"] Cut_append [of NUL "src_ID b"] assms
    by (auto simp: nulJoin_def nulFree_def dest!: arg_cong [where f = "Cut NUL"])
  ultimately show ?thesis by simp
qed

interpretation any_source: source_keys UNIV "\<lambda>_. ()"
  by unfold_locales simp

interpretation nul_free: source_keys "{s. nulFree s}" "\<lambda>s. s"
  by unfold_locales (auto dest: refKey_nulFree)

lemma forest_joinGroups:
  "forest (j_parents (joinGroups L J observations groups)) \<and>
   length (j_parents (joinGroups L J observations groups)) = length groups"
  using any_source.coherent_joinGroups [THEN coherent_forest] by simp

section \<open>Merging a class loses nothing\<close>

lemma keys_appendNew: "key ` set (appendNew key xs acc) = key ` set acc \<union> key ` set xs"
  by (induction xs arbitrary: acc) (auto simp: appendNew_def)

lemma set_appendNew_id: "set (appendNew (\<lambda>e. e) xs acc) = set acc \<union> set xs"
  using keys_appendNew [of "\<lambda>e. e" xs acc] by simp

lemma distinct_appendNew: "distinct (map key acc) \<Longrightarrow> distinct (map key (appendNew key xs acc))"
  by (induction xs arbitrary: acc) (auto simp: appendNew_def)

definition resourcesOf :: "Candidate \<Rightarrow> ResourceRef set" where
  "resourcesOf g = ro_Resource ` set (observationsOf g)"

definition keepsRow :: "Candidate \<Rightarrow> Candidate \<Rightarrow> bool" where
  "keepsRow g row \<longleftrightarrow>
     c_ID g = c_ID row \<and> c_Source g = c_Source row \<and> c_Resource g = c_Resource row \<and>
     c_DisplayName g = c_DisplayName row \<and> c_Description g = c_Description row \<and>
     c_Missing g = c_Missing row \<and> c_Metadata g = c_Metadata row"

lemma mergeMember_fields:
  "keepsRow (mergeMember m g) g"
  "c_Hidden (mergeMember m g) \<longleftrightarrow> c_Hidden g \<or> c_Hidden m"
  "c_PinnedAt (mergeMember m g) = None \<longleftrightarrow> c_PinnedAt g = None \<and> c_PinnedAt m = None"
  "ro_Resource ` set (c_Resources (mergeMember m g)) = ro_Resource ` set (c_Resources g) \<union> resourcesOf m"
  "set (c_Endpoints (mergeMember m g)) = set (c_Endpoints g) \<union> set (c_Endpoints m)"
  "set (c_Images (mergeMember m g)) = set (c_Images g) \<union> set (c_Images m)"
  by (auto simp: mergeMember_def keepsRow_def resourcesOf_def keys_appendNew set_appendNew_id)

lemma keepsRow_trans: "keepsRow a b \<Longrightarrow> keepsRow b c \<Longrightarrow> keepsRow a c"
  by (simp add: keepsRow_def)

abbreviation mergeAll :: "Candidate list \<Rightarrow> nat list \<Rightarrow> Candidate \<Rightarrow> Candidate" where
  "mergeAll groups \<equiv> fold (\<lambda>i. mergeMember (groups ! i))"

lemma mergeAll_keeps: "keepsRow (mergeAll groups is g) g"
  by (induction "is" arbitrary: g) (auto simp: keepsRow_def mergeMember_def)

lemma mergeAll_hidden: "c_Hidden (mergeAll groups is g) \<longleftrightarrow> c_Hidden g \<or> (\<exists>i \<in> set is. c_Hidden (groups ! i))"
  by (induction "is" arbitrary: g) (auto simp: mergeMember_fields)

lemma mergeAll_pinned:
  "c_PinnedAt (mergeAll groups is g) = None \<longleftrightarrow>
   c_PinnedAt g = None \<and> (\<forall>i \<in> set is. c_PinnedAt (groups ! i) = None)"
  by (induction "is" arbitrary: g) (auto simp: mergeMember_fields)

lemma mergeAll_resources:
  "ro_Resource ` set (c_Resources (mergeAll groups is g)) =
   ro_Resource ` set (c_Resources g) \<union> (\<Union>i \<in> set is. resourcesOf (groups ! i))"
  by (induction "is" arbitrary: g) (simp_all add: mergeMember_fields Un_assoc)

lemma mergeAll_endpoints:
  "set (c_Endpoints (mergeAll groups is g)) = set (c_Endpoints g) \<union> (\<Union>i \<in> set is. set (c_Endpoints (groups ! i)))"
  by (induction "is" arbitrary: g) (simp_all add: mergeMember_fields Un_assoc)

lemma mergeAll_images:
  "set (c_Images (mergeAll groups is g)) = set (c_Images g) \<union> (\<Union>i \<in> set is. set (c_Images (groups ! i)))"
  by (induction "is" arbitrary: g) (simp_all add: mergeMember_fields Un_assoc)

lemma resourcesOf_nonempty: "resourcesOf g \<noteq> {}"
  by (auto simp: resourcesOf_def observationsOf_def)

lemma resourcesOf_merged: "c_Resources g \<noteq> [] \<Longrightarrow> resourcesOf g = ro_Resource ` set (c_Resources g)"
  by (simp add: resourcesOf_def observationsOf_def)

text \<open>The row of a class is its first member, with the observations of every member.\<close>

lemma mergeClass_spec:
  assumes "members \<noteq> []"
  shows "\<exists>r \<in> set members. keepsRow (mergeClass groups primary urls members) (groups ! r)"
    and "c_Hidden (mergeClass groups primary urls members) \<longleftrightarrow> (\<exists>i \<in> set members. c_Hidden (groups ! i))"
    and "c_PinnedAt (mergeClass groups primary urls members) = None \<longleftrightarrow>
           (\<forall>i \<in> set members. c_PinnedAt (groups ! i) = None)"
    and "resourcesOf (mergeClass groups primary urls members) = (\<Union>i \<in> set members. resourcesOf (groups ! i))"
proof -
  let ?is = "SortSlice (memberBefore groups primary) members"
  let ?r = "hd ?is"
  let ?m = "mergeClass groups primary urls members"
  have r: "?r \<in> set members" using assms by (metis SortSlice_eq_Nil hd_in_set set_SortSlice)
  show "\<exists>r \<in> set members. keepsRow ?m (groups ! r)"
    using mergeAll_keeps [of groups ?is "(groups ! ?r)\<lparr>c_Resources := [], c_Endpoints := [], c_Images := []\<rparr>"]
    by (intro bexI [OF _ r]) (auto simp: mergeClass_def Let_def keepsRow_def)
  have single: "set members = {?r}" if "length ?is = 1"
    using that r by (cases members) auto
  show "c_Hidden ?m \<longleftrightarrow> (\<exists>i \<in> set members. c_Hidden (groups ! i))"
    using single r by (auto simp: mergeClass_def Let_def mergeAll_hidden)
  show "c_PinnedAt ?m = None \<longleftrightarrow> (\<forall>i \<in> set members. c_PinnedAt (groups ! i) = None)"
    using single r by (auto simp: mergeClass_def Let_def mergeAll_pinned)
  show "resourcesOf ?m = (\<Union>i \<in> set members. resourcesOf (groups ! i))"
  proof (cases "length ?is = 1")
    case True
    with single show ?thesis by (simp add: mergeClass_def)
  next
    case False
    let ?g0 = "(groups ! ?r)\<lparr>c_Resources := [], c_Endpoints := [], c_Images := []\<rparr>"
    have res: "c_Resources ?m = c_Resources (mergeAll groups ?is ?g0)"
      using False by (simp add: mergeClass_def Let_def)
    have un: "ro_Resource ` set (c_Resources ?m) = (\<Union>i \<in> set members. resourcesOf (groups ! i))"
      unfolding res mergeAll_resources by simp
    then have "c_Resources ?m \<noteq> []" using r resourcesOf_nonempty by fastforce
    with un show ?thesis by (simp add: resourcesOf_merged)
  qed
qed

section \<open>The rows of the joined projection\<close>

text \<open>A row of the result stands for a nonempty class: it keeps one member and shows all of them.\<close>

definition standsFor :: "Candidate list \<Rightarrow> nat list \<Rightarrow> Candidate \<Rightarrow> nat set \<Rightarrow> bool" where
  "standsFor groups ps g C \<longleftrightarrow>
     C \<subseteq> {..<length groups} \<and> (\<exists>k. C = {i. i < length groups \<and> rep ps i = k}) \<and>
     (\<exists>r \<in> C. keepsRow g (groups ! r)) \<and>
     (c_Hidden g \<longleftrightarrow> (\<exists>i \<in> C. c_Hidden (groups ! i))) \<and>
     (c_PinnedAt g = None \<longleftrightarrow> (\<forall>i \<in> C. c_PinnedAt (groups ! i) = None)) \<and>
     resourcesOf g = (\<Union>i \<in> C. resourcesOf (groups ! i))"

lemma related_classes:
  fixes L J observations groups
  defines "ps \<equiv> j_parents (joinGroups L J observations groups)"
  shows "g \<in> set (relatedPresentCandidates L J observations groups) \<Longrightarrow> \<exists>C. standsFor groups ps g C"
    and "i < length groups \<Longrightarrow>
           \<exists>g \<in> set (relatedPresentCandidates L J observations groups). \<exists>C. standsFor groups ps g C \<and> i \<in> C"
proof -
  let ?st = "joinGroups L J observations groups"
  let ?m = "\<lambda>ys. mergeClass groups (j_primary ?st) (j_primaryURLs ?st) ys"
  let ?classes = "collectBy (\<lambda>i. fst (root ps i)) [0..<length groups]"
  have set: "set (relatedPresentCandidates L J observations groups) = (\<lambda>(k, ys). ?m ys) ` set ?classes"
    by (simp add: relatedPresentCandidates_def Let_def ps_def)
  have root: "fst (root ps i) = rep ps i" if "i < length groups" for i
    using that forest_joinGroups [of L J observations groups] root_spec(1) by (simp add: ps_def)
  have cls: "standsFor groups ps (?m ys) (set ys) \<and> set ys = {i. i < length groups \<and> rep ps i = k}"
    if "(k, ys) \<in> set ?classes" for k ys
  proof -
    from that have ys: "set ys = {i. i < length groups \<and> rep ps i = k}" and "ys \<noteq> []"
      by (auto simp: collectBy_member root filter_empty_conv)
    with mergeClass_spec [OF \<open>ys \<noteq> []\<close>, of groups "j_primary ?st" "j_primaryURLs ?st"] show ?thesis
      unfolding standsFor_def by blast
  qed
  show "g \<in> set (relatedPresentCandidates L J observations groups) \<Longrightarrow> \<exists>C. standsFor groups ps g C"
    using cls unfolding set by fastforce
  assume i: "i < length groups"
  then obtain ys where "(rep ps i, ys) \<in> set ?classes"
    using collectBy_covers [of i "[0..<length groups]" "\<lambda>i. fst (root ps i)"] root by auto
  with cls i show "\<exists>g \<in> set (relatedPresentCandidates L J observations groups). \<exists>C. standsFor groups ps g C \<and> i \<in> C"
    unfolding set by (intro bexI [of _ "?m ys"]) force+
qed

lemma distinct_related:
  assumes "distinct (map c_ID groups)"
  shows "distinct (map c_ID (relatedPresentCandidates L J observations groups))"
proof -
  let ?st = "joinGroups L J observations groups"
  let ?f = "\<lambda>(k :: nat, ys). mergeClass groups (j_primary ?st) (j_primaryURLs ?st) ys"
  let ?classes = "collectBy (\<lambda>i. fst (root (j_parents ?st) i)) [0..<length groups]"
  have "inj_on (c_ID \<circ> ?f) (set ?classes)"
  proof (rule inj_onI)
    fix x y assume x: "x \<in> set ?classes" and y: "y \<in> set ?classes" and eq: "(c_ID \<circ> ?f) x = (c_ID \<circ> ?f) y"
    have cls: "\<exists>r < length groups. fst (root (j_parents ?st) r) = fst z \<and> c_ID (?f z) = c_ID (groups ! r)"
      if "z \<in> set ?classes" for z
    proof -
      obtain k ys where z: "z = (k, ys)" by (cases z)
      with that have "ys \<noteq> []" "\<forall>r \<in> set ys. r < length groups \<and> fst (root (j_parents ?st) r) = k"
        by (auto simp: collectBy_member filter_empty_conv)
      with mergeClass_spec(1) [of ys groups] z show ?thesis by (fastforce simp: keepsRow_def)
    qed
    from cls [OF x] cls [OF y] eq have "fst x = fst y"
      using assms by (auto simp: distinct_conv_nth) metis
    with distinct_collectBy x y show "x = y" by (rule distinct_map_inj_on)
  qed
  moreover have "distinct ?classes" using distinct_collectBy distinct_map by blast
  ultimately have "distinct (map (c_ID \<circ> ?f) ?classes)" by (simp only: distinct_map)
  then show ?thesis
    unfolding relatedPresentCandidates_def Let_def distinct_SortSlice map_map .
qed

lemma displayBefore_key:
  "displayBefore = (\<lambda>a b. (c_DisplayName a, c_ID a) < (c_DisplayName b, c_ID b))"
  by (auto simp: displayBefore_def fun_eq_iff)

lemma sorted_display: "sorted (map (\<lambda>c. (c_DisplayName c, c_ID c)) (SortSlice displayBefore xs))"
  unfolding displayBefore_key SortSlice_key by (rule sorted_sort_key)

abbreviation withState :: "bool \<Rightarrow> Candidate list \<Rightarrow> Candidate list" where
  "withState missing cs \<equiv> filter (\<lambda>c. c_Missing c = missing) cs"

lemma set_relatedCandidates:
  "set (relatedCandidates L J observations groups) =
   (\<Union>b. set (relatedPresentCandidates L J (withState b observations) (withState b groups)))"
  by (auto simp: relatedCandidates_def UNIV_bool)

lemma related_missing:
  assumes "g \<in> set (relatedPresentCandidates L J observations (withState b groups))"
  shows "c_Missing g = b"
proof -
  from related_classes(1) [OF assms] obtain r where
    "r < length (withState b groups)" "keepsRow g (withState b groups ! r)"
    unfolding standsFor_def by auto
  then show ?thesis using nth_mem [of r "withState b groups"] by (auto simp: keepsRow_def)
qed

lemma distinct_relatedCandidates:
  assumes "distinct (map c_ID groups)"
  shows "distinct (map c_ID (relatedCandidates L J observations groups))"
proof -
  let ?r = "\<lambda>b. relatedPresentCandidates L J (withState b observations) (withState b groups)"
  have d: "distinct (map c_ID (?r b))" for b
    using assms by (intro distinct_related distinct_map_filter_keys)
  have "c_ID g \<noteq> c_ID g'" if g: "g \<in> set (?r False)" and g': "g' \<in> set (?r True)" for g g'
  proof -
    have row: "\<exists>row \<in> set groups. c_ID g = c_ID row \<and> c_Missing row = b" if "g \<in> set (?r b)" for g b
    proof -
      from related_classes(1) [OF that] obtain r where
        "r < length (withState b groups)" "keepsRow g (withState b groups ! r)"
        unfolding standsFor_def by auto
      then show ?thesis using nth_mem [of r "withState b groups"] by (auto simp: keepsRow_def)
    qed
    from row [OF g] row [OF g'] show ?thesis
      using assms by (auto dest: distinct_map_inj_on)
  qed
  with d [of False] d [of True] show ?thesis
    by (auto simp: relatedCandidates_def)
qed

lemma relatedCandidates_complete:
  assumes "row \<in> set groups"
    and "\<forall>c \<in> set groups \<union> set observations. nulFree (c_Source c)"
  shows "\<exists>g \<in> set (relatedCandidates L J observations groups).
           c_Source g = c_Source row \<and> c_Missing g = c_Missing row \<and> resourcesOf row \<subseteq> resourcesOf g \<and>
           (c_Hidden row \<longrightarrow> c_Hidden g) \<and> (c_PinnedAt row \<noteq> None \<longrightarrow> c_PinnedAt g \<noteq> None)"
proof -
  obtain b where b: "c_Missing row = b" by simp
  define gs os where "gs = withState b groups" and "os = withState b observations"
  define ps where "ps = j_parents (joinGroups L J os gs)"
  from assms(1) b have "row \<in> set gs" by (simp add: gs_def)
  then obtain i where i: "i < length gs" "row = gs ! i" by (metis in_set_conv_nth)
  from related_classes(2) [OF i(1), of L J os] obtain g C where
    g: "g \<in> set (relatedPresentCandidates L J os gs)" and C: "standsFor gs ps g C" "i \<in> C"
    unfolding ps_def by blast
  then obtain r where r: "r < length gs" "rep ps r = rep ps i" "keepsRow g (gs ! r)"
    unfolding standsFor_def by auto
  have "coherent (\<lambda>c. (c_Source c, c_Missing c)) gs ps"
    unfolding ps_def using assms(2) by (intro nul_free.coherent_joinGroups) (auto simp: gs_def os_def)
  from coherentD [OF this r(1) i(1) r(2)] r(3) i(2)
  have "c_Source g = c_Source row" "c_Missing g = c_Missing row" by (simp_all add: keepsRow_def)
  moreover have "resourcesOf row \<subseteq> resourcesOf g" "c_Hidden row \<longrightarrow> c_Hidden g"
    "c_PinnedAt row \<noteq> None \<longrightarrow> c_PinnedAt g \<noteq> None"
    using C unfolding i(2) standsFor_def by auto
  moreover have "g \<in> set (relatedCandidates L J observations groups)"
    using g unfolding set_relatedCandidates gs_def os_def by blast
  ultimately show ?thesis by blast
qed

lemma relatedCandidates_sound:
  assumes "g \<in> set (relatedCandidates L J observations groups)"
    and "\<forall>c \<in> set groups \<union> set observations. nulFree (c_Source c)"
  shows "(\<exists>row \<in> set groups. keepsRow g row) \<and>
         (\<forall>r \<in> resourcesOf g. \<exists>row \<in> set groups.
            r \<in> resourcesOf row \<and> c_Source row = c_Source g \<and> c_Missing row = c_Missing g)"
proof -
  from assms(1) obtain b where g: "g \<in> set (relatedPresentCandidates L J (withState b observations) (withState b groups))"
    unfolding set_relatedCandidates by blast
  let ?gs = "withState b groups" and ?os = "withState b observations"
  let ?ps = "j_parents (joinGroups L J ?os ?gs)"
  from related_classes(1) [OF g] obtain C where C: "standsFor ?gs ?ps g C" by blast
  then obtain r where r: "r < length ?gs" "r \<in> C" "keepsRow g (?gs ! r)" unfolding standsFor_def by auto
  have row: "?gs ! i \<in> set groups \<and> c_Missing (?gs ! i) = b" if "i < length ?gs" for i
    using nth_mem [OF that] by simp
  have coh: "coherent (\<lambda>c. (c_Source c, c_Missing c)) ?gs ?ps"
    using assms(2) by (intro nul_free.coherent_joinGroups) auto
  have "\<exists>row \<in> set groups. x \<in> resourcesOf row \<and> c_Source row = c_Source g \<and> c_Missing row = c_Missing g"
    if "x \<in> resourcesOf g" for x
  proof -
    from that C obtain i where i: "i \<in> C" "x \<in> resourcesOf (?gs ! i)" unfolding standsFor_def by blast
    with C r have "i < length ?gs" "rep ?ps i = rep ?ps r" unfolding standsFor_def by auto
    with coherentD [OF coh this(1) r(1) this(2)] i row r(3) show ?thesis
      by (auto simp: keepsRow_def intro!: bexI [of _ "?gs ! i"])
  qed
  moreover have "\<exists>row \<in> set groups. keepsRow g row" using row [OF r(1)] r(3) by blast
  ultimately show ?thesis by blast
qed

end
