(* ===== verification/CatalogGroup.thy ===== *)
theory CatalogGroup
  imports CatalogRelated
begin

text \<open>
  The read projection of the catalogue (\<open>internal/application/catalog/group.go\<close>, \<open>lifecycle.go\<close>
  and the pure function \<open>HomepageCandidates\<close> of \<open>service.go\<close>): observations are attached to the
  Kubernetes Services they refer to, the groups are joined by \<open>relatedCandidates\<close>, and a lifecycle
  action is resolved to the stored rows it applies to.

  The map \<open>groups\<close> of pointers is an association list from keys to candidates, in the order the keys
  were first set; writing through the pointer is an update of the entry.
\<close>

section \<open>Grouping around Services\<close>

type_synonym groupKey = "SourceRef \<times> string \<times> string"

definition isService :: "Candidate \<Rightarrow> bool" where
  "isService c \<longleftrightarrow> src_Kind (c_Source c) = ''kubernetes'' \<and> res_Kind (c_Resource c) = ''service''"

definition groupKeyOf :: "Candidate \<Rightarrow> groupKey" where
  "groupKeyOf c = (c_Source c, res_Namespace (c_Resource c), res_Name (c_Resource c))"

definition emptyGroup :: "Candidate \<Rightarrow> Candidate" where
  "emptyGroup c = c\<lparr>c_Endpoints := [], c_Images := [], c_Resources := []\<rparr>"

definition initialGroups :: "Candidate list \<Rightarrow> (groupKey \<times> Candidate) list" where
  "initialGroups cs =
     fold (\<lambda>c gs. if isService c then tbl_upsert fst (\<lambda>old new. new) (groupKeyOf c, emptyGroup c) gs else gs)
          cs []"

definition groupRefs :: "Candidate \<Rightarrow> string list" where
  "groupRefs c =
     (if res_Kind (c_Resource c) = ''service'' then [qualifiedName (c_Resource c)]
      else Split CHR '','' (mget (c_Metadata c) ''kubernetes.services''))"

definition parseRef :: "string \<Rightarrow> (string \<times> string) option" where
  "parseRef ref = Cut CHR ''/'' (TrimSpace ref)"

definition groupMemberEndpoints :: "Candidate \<Rightarrow> ResourceRef \<Rightarrow> Endpoint list" where
  "groupMemberEndpoints c service =
     (if res_Kind (c_Resource c) \<noteq> ''httproute'' \<and> res_Kind (c_Resource c) \<noteq> ''ingress''
      then c_Endpoints c
      else if list_ex (\<lambda>ref. case parseRef ref of
                          Some (ns, name) \<Rightarrow> name = res_Name service \<and> ns \<noteq> res_Namespace service
                        | None \<Rightarrow> False)
                (Split CHR '','' (mget (c_Metadata c) ''kubernetes.services''))
      then []
      else filter (\<lambda>e. ep_Name e = res_Name service) (c_Endpoints c))"

definition addMember :: "Candidate \<Rightarrow> Candidate \<Rightarrow> Candidate" where
  "addMember c g =
     g\<lparr>c_Resources := c_Resources g @
          [\<lparr>ro_Resource = c_Resource c, ro_Endpoints = c_Endpoints c, ro_Images = c_Images c\<rparr>],
       c_Endpoints := c_Endpoints g @ groupMemberEndpoints c (c_Resource g),
       c_Images := c_Images g @ c_Images c\<rparr>"

fun attachRefs ::
  "Candidate \<Rightarrow> string list \<Rightarrow> groupKey list \<Rightarrow> bool \<Rightarrow> (groupKey \<times> Candidate) list \<Rightarrow>
   bool \<times> (groupKey \<times> Candidate) list" where
  "attachRefs c [] seen matched gs = (matched, gs)"
| "attachRefs c (ref # refs) seen matched gs =
     (case parseRef ref of
        None \<Rightarrow> attachRefs c refs seen matched gs
      | Some (ns, name) \<Rightarrow>
          let k = (c_Source c, ns, name) in
          case map_of gs k of
            None \<Rightarrow> attachRefs c refs seen matched gs
          | Some g \<Rightarrow>
              if k \<notin> set seen \<and> c_Missing c = c_Missing g
              then attachRefs c refs (k # seen) True
                     (tbl_update (\<lambda>p. fst p = k) (\<lambda>(k, g). (k, addMember c g)) gs)
              else attachRefs c refs seen matched gs)"

definition groupStep ::
  "Candidate \<Rightarrow> (groupKey \<times> Candidate) list \<times> Candidate list \<Rightarrow>
   (groupKey \<times> Candidate) list \<times> Candidate list" where
  "groupStep c = (\<lambda>(gs, result).
     let (matched, gs') =
       (if src_Kind (c_Source c) = ''kubernetes'' then attachRefs c (groupRefs c) [] False gs
        else (False, gs))
     in (gs', if \<not> matched \<or> (c_PinnedAt c \<noteq> None \<and> res_Kind (c_Resource c) \<noteq> ''service'')
              then result @ [c] else result))"

definition resourceText :: "ResourceRef \<Rightarrow> string" where
  "resourceText r = res_Kind r @ ''/'' @ res_Namespace r @ ''/'' @ res_Name r"

definition endpointBefore :: "Endpoint \<Rightarrow> Endpoint \<Rightarrow> bool" where
  "endpointBefore a b \<longleftrightarrow>
     (if ep_URL a \<noteq> ep_URL b then ep_URL a > ep_URL b
      else if ep_Port a \<noteq> ep_Port b then ep_Port a < ep_Port b
      else ep_Name a @ ep_Protocol a @ ep_Provenance a < ep_Name b @ ep_Protocol b @ ep_Provenance b)"

definition finishGroup :: "Candidate \<Rightarrow> Candidate" where
  "finishGroup g =
     g\<lparr>c_Resources := SortSlice (\<lambda>a b. resourceText (ro_Resource a) < resourceText (ro_Resource b)) (c_Resources g),
       c_Endpoints := SortSlice endpointBefore (dedup_by (\<lambda>e. e) (c_Endpoints g)),
       c_Images := remdups_adj (sort (c_Images g))\<rparr>"

definition serviceRows :: "Candidate list \<Rightarrow> Candidate list" where
  "serviceRows cs =
     (let (gs, result) = fold groupStep cs (initialGroups cs, [])
      in SortSlice displayBefore (result @ map (\<lambda>(_, g). finishGroup g) gs))"

definition groupCandidates ::
  "golib \<Rightarrow> (string \<Rightarrow> Exposure list option) \<Rightarrow> Candidate list \<Rightarrow> Candidate list" where
  "groupCandidates L J cs = relatedCandidates L J cs (serviceRows cs)"

definition HomepageCandidates ::
  "golib \<Rightarrow> (string \<Rightarrow> Exposure list option) \<Rightarrow> Candidate list \<Rightarrow> Candidate list" where
  "HomepageCandidates L J cs =
     filter (\<lambda>c. c_PinnedAt c \<noteq> None \<and> Status c = ''live'') (groupCandidates L J cs)"

section \<open>Lifecycle actions\<close>

definition groupMembers :: "Candidate \<Rightarrow> ResourceRef list" where
  "groupMembers g = c_Resource g # map ro_Resource (c_Resources g)"

definition LifecycleTargets ::
  "golib \<Rightarrow> (string \<Rightarrow> Exposure list option) \<Rightarrow> Candidate list \<Rightarrow> string \<Rightarrow> string \<Rightarrow>
   (catalog_error, string list) result" where
  "LifecycleTargets L J observations i action =
     (if action \<noteq> ''hide'' \<and> action \<noteq> ''show'' \<and> action \<noteq> ''purge'' then Inl ErrConflict
      else case find (\<lambda>g. c_ID g = i) (groupCandidates L J observations) of
          None \<Rightarrow> Inl ErrNotFound
        | Some g \<Rightarrow>
            if action = ''hide'' \<and> c_Missing g then Inl ErrConflict
            else if action = ''purge'' \<and> \<not> c_Missing g then Inl ErrConflict
            else Inr (map c_ID (filter (\<lambda>c. c_Source c = c_Source g \<and> c_Resource c \<in> set (groupMembers g) \<and>
                                            (action = ''purge'' \<longrightarrow> c_Missing c)) observations)))"

section \<open>Attaching an observation\<close>

definition ownResources :: "Candidate \<Rightarrow> ResourceRef set" where
  "ownResources g = ro_Resource ` set (c_Resources g)"

text \<open>How one observation may change an entry: it keeps the row and adds its own resource only.\<close>

definition grows :: "Candidate \<Rightarrow> groupKey \<times> Candidate \<Rightarrow> groupKey \<times> Candidate \<Rightarrow> bool" where
  "grows c p q \<longleftrightarrow>
     fst q = fst p \<and> keepsRow (snd q) (snd p) \<and> ownResources (snd p) \<subseteq> ownResources (snd q) \<and>
     (\<forall>r \<in> ownResources (snd q) - ownResources (snd p).
        r = c_Resource c \<and> fst (fst p) = c_Source c \<and> c_Missing (snd p) = c_Missing c)"

lemma grows_refl: "grows c p p"
  by (simp add: grows_def keepsRow_def)

lemma growsD:
  assumes "grows c p q" and "x \<in> ownResources (snd q)" and "x \<notin> ownResources (snd p)"
  shows "x = c_Resource c \<and> fst (fst p) = c_Source c \<and> c_Missing (snd p) = c_Missing c"
proof -
  have "x \<in> ownResources (snd q) - ownResources (snd p)" using assms(2,3) by blast
  with assms(1) show ?thesis unfolding grows_def by (elim conjE) (rule bspec)
qed

lemma grows_trans:
  assumes p: "grows c p q" and q: "grows c q r"
  shows "grows c p r"
proof -
  have k: "fst q = fst p" "fst r = fst p" "keepsRow (snd q) (snd p)" "keepsRow (snd r) (snd p)"
    using p q keepsRow_trans unfolding grows_def by simp_all metis+
  have sub: "ownResources (snd p) \<subseteq> ownResources (snd q)" "ownResources (snd q) \<subseteq> ownResources (snd r)"
    using p q unfolding grows_def by simp_all
  have "x = c_Resource c \<and> fst (fst p) = c_Source c \<and> c_Missing (snd p) = c_Missing c"
    if x: "x \<in> ownResources (snd r) - ownResources (snd p)" for x
  proof (cases "x \<in> ownResources (snd q)")
    case True
    with x show ?thesis by (intro growsD [OF p]) simp_all
  next
    case False
    with x have "x = c_Resource c \<and> fst (fst q) = c_Source c \<and> c_Missing (snd q) = c_Missing c"
      by (intro growsD [OF q]) simp_all
    with k show ?thesis by (simp add: keepsRow_def)
  qed
  with k sub show ?thesis unfolding grows_def by simp
qed

lemma addMember_fields [simp]:
  "keepsRow (addMember c g) g" "c_Missing (addMember c g) = c_Missing g" "c_Source (addMember c g) = c_Source g"
  "c_ID (addMember c g) = c_ID g"
  "ownResources (addMember c g) = insert (c_Resource c) (ownResources g)"
  by (auto simp: addMember_def keepsRow_def ownResources_def)

abbreviation attachTo :: "Candidate \<Rightarrow> groupKey \<Rightarrow> (groupKey \<times> Candidate) list \<Rightarrow> (groupKey \<times> Candidate) list" where
  "attachTo c k \<equiv> tbl_update (\<lambda>p. fst p = k) (\<lambda>(k, g). (k, addMember c g))"

lemma fst_attachTo [simp]: "map fst (attachTo c k gs) = map fst gs"
  by (rule map_tbl_update) auto

lemma unique_attachTo [simp]: "unique_key fst (attachTo c k gs) = unique_key fst gs"
  by (simp add: unique_key_def)

lemma map_of_unique: "unique_key fst gs \<Longrightarrow> (k, g) \<in> set gs \<Longrightarrow> map_of gs k = Some g"
  by (simp add: unique_key_def)

lemma attachTo_grows:
  assumes "unique_key fst gs" and "map_of gs k = Some g" and "fst k = c_Source c" and "c_Missing c = c_Missing g"
  shows "list_all2 (grows c) gs (attachTo c k gs)"
proof (intro list_all2_all_nthI)
  fix i assume i: "i < length gs"
  obtain k' g' where p: "gs ! i = (k', g')" by (cases "gs ! i")
  show "grows c (gs ! i) (attachTo c k gs ! i)"
  proof (cases "k' = k")
    case True
    with assms(1,2) p i have "g' = g" by (metis map_of_unique nth_mem option.inject)
    with True p i assms(3,4) show ?thesis
      by (auto simp: tbl_update_def grows_def)
  next
    case False
    with p i show ?thesis by (simp add: tbl_update_def grows_refl)
  qed
qed simp

lemma list_all2_grows_trans:
  "list_all2 (grows c) xs ys \<Longrightarrow> list_all2 (grows c) ys zs \<Longrightarrow> list_all2 (grows c) xs zs"
  by (rule list_all2_trans [of "grows c" "grows c" "grows c"]) (auto intro: grows_trans)

text \<open>An entry that shows the observation.\<close>

definition presents :: "Candidate \<Rightarrow> Candidate \<Rightarrow> bool" where
  "presents g c \<longleftrightarrow> c_Source g = c_Source c \<and> c_Missing g = c_Missing c \<and> c_Resource c \<in> resourcesOf g"

definition entryShows :: "groupKey \<times> Candidate \<Rightarrow> Candidate \<Rightarrow> bool" where
  "entryShows p c \<longleftrightarrow> fst (fst p) = c_Source c \<and> c_Missing (snd p) = c_Missing c \<and>
                     c_Resource c \<in> ownResources (snd p)"

lemma grows_entryShows: "grows c' p q \<Longrightarrow> entryShows p c \<Longrightarrow> entryShows q c"
  by (auto simp: grows_def entryShows_def keepsRow_def)

lemma attachRefs_grows:
  assumes "unique_key fst gs" and "attachRefs c refs seen matched gs = (m', gs')"
  shows "list_all2 (grows c) gs gs' \<and> (m' \<longrightarrow> matched \<or> (\<exists>p \<in> set gs'. entryShows p c))"
  using assms
proof (induction c refs seen matched gs rule: attachRefs.induct)
  case (1 c seen matched gs)
  then show ?case by (simp add: list_all2_refl grows_refl)
next
  case (2 c ref refs seen matched gs)
  show ?case
  proof (cases "parseRef ref")
    case None
    with 2 show ?thesis by simp
  next
    case (Some nsname)
    obtain ns name where nn: "nsname = (ns, name)" by (cases nsname)
    let ?k = "(c_Source c, ns, name)"
    show ?thesis
    proof (cases "map_of gs ?k")
      case None
      with 2(2) [OF Some [unfolded nn] _ refl None] 2(5,6) Some nn show ?thesis by simp
    next
      case (Some g)
      note g = this
      show ?thesis
      proof (cases "?k \<notin> set seen \<and> c_Missing c = c_Missing g")
        case False
        with 2(4) [OF \<open>parseRef ref = _\<close> [unfolded nn] _ refl g False] 2(5,6) \<open>parseRef ref = _\<close> nn g
        show ?thesis by simp
      next
        case True
        let ?gs = "attachTo c ?k gs"
        have run: "attachRefs c refs (?k # seen) True ?gs = (m', gs')"
          using 2(6) True g \<open>parseRef ref = _\<close> nn by (simp add: Let_def)
        have all: "list_all2 (grows c) gs ?gs"
          by (rule attachTo_grows [OF 2(5) g]) (use True in auto)
        have rest: "list_all2 (grows c) ?gs gs'"
          using 2(3) [OF \<open>parseRef ref = _\<close> [unfolded nn] _ refl g True _ run] 2(5) by simp
        have "(?k, g) \<in> set gs" using g by (rule map_of_SomeD)
        then have "(?k, addMember c g) \<in> set ?gs" by (force simp: in_tbl_update)
        then obtain i where i: "i < length ?gs" "?gs ! i = (?k, addMember c g)" by (metis in_set_conv_nth)
        have "entryShows (?gs ! i) c" using i(2) True by (simp add: entryShows_def)
        then have "entryShows (gs' ! i) c"
          using grows_entryShows list_all2_nthD [OF rest i(1)] by blast
        moreover have "gs' ! i \<in> set gs'" using list_all2_lengthD [OF rest] i(1) by simp
        ultimately show ?thesis using list_all2_grows_trans [OF all rest] by blast
      qed
    qed
  qed
qed

section \<open>The projection presents every observation and nothing else\<close>

interpretation group_map: upsert_table "fst :: groupKey \<times> Candidate \<Rightarrow> groupKey" "\<lambda>old new. (fst old, snd new)"
  by unfold_locales simp

definition entryOf :: "Candidate list \<Rightarrow> groupKey \<times> Candidate \<Rightarrow> bool" where
  "entryOf cs p \<longleftrightarrow>
     fst (fst p) = c_Source (snd p) \<and> (\<exists>s \<in> set cs. keepsRow (snd p) s) \<and>
     (\<forall>r \<in> ownResources (snd p). \<exists>c \<in> set cs.
        c_Resource c = r \<and> c_Source c = c_Source (snd p) \<and> c_Missing c = c_Missing (snd p))"

definition projects ::
  "Candidate list \<Rightarrow> Candidate list \<Rightarrow> (groupKey \<times> Candidate) list \<times> Candidate list \<Rightarrow> bool" where
  "projects cs done st \<longleftrightarrow>
     unique_key fst (fst st) \<and> (\<forall>p \<in> set (fst st). entryOf cs p) \<and> set (snd st) \<subseteq> set done \<and>
     (\<forall>c \<in> set done. c \<in> set (snd st) \<or> (\<exists>p \<in> set (fst st). entryShows p c))"

lemma upsert_replace:
  "tbl_upsert fst (\<lambda>old new. new) (k, g) gs = tbl_upsert fst (\<lambda>old new. (fst old, snd new)) (k, g) gs"
  by (auto simp: tbl_upsert_def tbl_update_def)

lemma initialGroups_inv:
  "unique_key fst (initialGroups cs) \<and>
   (\<forall>p \<in> set (initialGroups cs). \<exists>s \<in> set cs. isService s \<and> p = (groupKeyOf s, emptyGroup s))"
proof -
  let ?P = "\<lambda>gs. unique_key fst gs \<and> (\<forall>p \<in> set gs. \<exists>s \<in> set cs. isService s \<and> p = (groupKeyOf s, emptyGroup s))"
  show ?thesis unfolding initialGroups_def
  proof (rule fold_invariant [where P = ?P and Q = "\<lambda>c. c \<in> set cs"])
    fix c gs assume c: "c \<in> set cs" and gs: "?P gs"
    let ?new = "tbl_upsert fst (\<lambda>old new. new) (groupKeyOf c, emptyGroup c) gs"
    have "unique_key fst ?new"
      unfolding upsert_replace by (rule group_map.unique_key_upsert) (use gs in blast)
    moreover have "p = (groupKeyOf c, emptyGroup c) \<or> p \<in> set gs" if "p \<in> set ?new" for p
      using that by (auto simp: tbl_upsert_def tbl_update_def split: if_splits)
    ultimately have "isService c \<Longrightarrow> ?P ?new" using gs c by blast
    with gs show "?P (if isService c then ?new else gs)" by presburger
  qed simp_all
qed

lemma projects_initial: "projects cs [] (initialGroups cs, [])"
proof -
  have "entryOf cs p" if "p \<in> set (initialGroups cs)" for p
  proof -
    from that obtain s where "s \<in> set cs" "p = (groupKeyOf s, emptyGroup s)" using initialGroups_inv by blast
    then show ?thesis
      by (auto simp: entryOf_def groupKeyOf_def emptyGroup_def keepsRow_def ownResources_def intro!: bexI [of _ s])
  qed
  then show ?thesis using initialGroups_inv by (simp add: projects_def)
qed

lemma grows_entryOf:
  assumes "grows c p q" and "entryOf cs p" and "c \<in> set cs"
  shows "entryOf cs q"
proof -
  note p = assms(2) [unfolded entryOf_def]
  have k: "fst q = fst p" "keepsRow (snd q) (snd p)" using assms(1) unfolding grows_def by blast+
  have src: "c_Source (snd q) = c_Source (snd p)" "c_Missing (snd q) = c_Missing (snd p)"
    using k(2) unfolding keepsRow_def by blast+
  have "\<exists>c \<in> set cs. c_Resource c = r \<and> c_Source c = c_Source (snd q) \<and> c_Missing c = c_Missing (snd q)"
    if r: "r \<in> ownResources (snd q)" for r
  proof (cases "r \<in> ownResources (snd p)")
    case True
    with p show ?thesis unfolding src by blast
  next
    case False
    from growsD [OF assms(1) r False] p show ?thesis
      unfolding src by (intro bexI [OF _ assms(3)]) simp
  qed
  moreover have "\<exists>s \<in> set cs. keepsRow (snd q) s" using p keepsRow_trans [OF k(2)] by blast
  ultimately show ?thesis using p unfolding entryOf_def k(1) src by blast
qed

lemma list_all2_right: "list_all2 P xs ys \<Longrightarrow> y \<in> set ys \<Longrightarrow> \<exists>x \<in> set xs. P x y"
  by (induction rule: list_all2_induct) auto

lemma list_all2_left: "list_all2 P xs ys \<Longrightarrow> x \<in> set xs \<Longrightarrow> \<exists>y \<in> set ys. P x y"
  by (induction rule: list_all2_induct) auto

lemma projects_step:
  assumes "projects cs done st" and "c \<in> set cs"
  shows "projects cs (done @ [c]) (groupStep c st)"
proof -
  obtain gs result where st: "st = (gs, result)" by (cases st)
  define run where "run = (if src_Kind (c_Source c) = ''kubernetes'' then attachRefs c (groupRefs c) [] False gs else (False, gs))"
  obtain m gs' where run': "run = (m, gs')" by (cases run)
  have uq: "unique_key fst gs" and ent: "\<forall>p \<in> set gs. entryOf cs p" and res: "set result \<subseteq> set done"
    and cov: "\<forall>c \<in> set done. c \<in> set result \<or> (\<exists>p \<in> set gs. entryShows p c)"
    using assms(1) by (simp_all add: projects_def st)
  have gr: "list_all2 (grows c) gs gs'" and hit: "m \<Longrightarrow> \<exists>p \<in> set gs'. entryShows p c"
    using attachRefs_grows [OF uq, of c "groupRefs c" "[]" False m gs'] run'
    by (auto simp: run_def list_all2_refl grows_refl split: if_splits)
  have keys: "map fst gs' = map fst gs"
    using gr by (induction rule: list_all2_induct) (auto simp: grows_def)
  have ent': "entryOf cs q" if "q \<in> set gs'" for q
    using list_all2_right [OF gr that] ent grows_entryOf [OF _ _ assms(2)] by blast
  have old: "\<exists>q \<in> set gs'. entryShows q d" if "p \<in> set gs" "entryShows p d" for p d
    using list_all2_left [OF gr that(1)] grows_entryShows that(2) by blast
  let ?result = "if \<not> m \<or> (c_PinnedAt c \<noteq> None \<and> res_Kind (c_Resource c) \<noteq> ''service'') then result @ [c] else result"
  have step: "groupStep c st = (gs', ?result)"
    unfolding groupStep_def st prod.case Let_def run_def [symmetric] run' ..
  have "unique_key fst gs'" using uq keys by (simp add: unique_key_def)
  moreover have "d \<in> set ?result \<or> (\<exists>p \<in> set gs'. entryShows p d)" if "d \<in> set (done @ [c])" for d
    using that cov old hit by auto
  moreover have "set ?result \<subseteq> set (done @ [c])" using res by auto
  ultimately show ?thesis unfolding step projects_def fst_conv snd_conv
    by (intro conjI ballI) (use ent' in blast)+
qed

lemma projects_all:
  assumes "set xs \<subseteq> set cs"
  shows "projects cs xs (fold groupStep xs (initialGroups cs, []))"
  using assms
proof (induction xs rule: rev_induct)
  case Nil
  then show ?case by (simp add: projects_initial)
next
  case (snoc x xs)
  then show ?case by (simp add: projects_step)
qed

lemma finishGroup_fields [simp]:
  "keepsRow (finishGroup g) g" "ownResources (finishGroup g) = ownResources g"
  "c_Source (finishGroup g) = c_Source g" "c_Missing (finishGroup g) = c_Missing g"
  "c_Resource (finishGroup g) = c_Resource g" "c_ID (finishGroup g) = c_ID g"
  by (simp_all add: finishGroup_def keepsRow_def ownResources_def)

lemma resourcesOf_own: "resourcesOf g = (if ownResources g = {} then {c_Resource g} else ownResources g)"
  by (simp add: resourcesOf_def observationsOf_def ownResources_def)

lemma serviceRows_cases:
  "row \<in> set (serviceRows cs) \<longleftrightarrow>
     row \<in> set (snd (fold groupStep cs (initialGroups cs, []))) \<or>
     (\<exists>p \<in> set (fst (fold groupStep cs (initialGroups cs, []))). row = finishGroup (snd p))"
  by (cases "fold groupStep cs (initialGroups cs, [])") (force simp: serviceRows_def)

lemma serviceRows_complete:
  assumes "c \<in> set cs" and "c_Resources c = []"
  shows "\<exists>row \<in> set (serviceRows cs). presents row c"
proof -
  let ?st = "fold groupStep cs (initialGroups cs, [])"
  have inv: "projects cs cs ?st" by (simp add: projects_all)
  then consider "c \<in> set (snd ?st)" | p where "p \<in> set (fst ?st)" "entryShows p c"
    using assms(1) unfolding projects_def by blast
  then show ?thesis
  proof cases
    case 1
    then have "presents c c" using assms(2) by (simp add: presents_def resourcesOf_own ownResources_def)
    with 1 show ?thesis using serviceRows_cases [of c cs] by blast
  next
    case 2
    have "entryOf cs p" using inv 2(1) unfolding projects_def by blast
    then have "fst (fst p) = c_Source (snd p)" unfolding entryOf_def by blast
    with 2(2) have "presents (finishGroup (snd p)) c"
      by (auto simp: presents_def entryShows_def resourcesOf_own)
    with 2(1) show ?thesis using serviceRows_cases [of "finishGroup (snd p)" cs] by blast
  qed
qed

lemma serviceRows_sound:
  assumes "row \<in> set (serviceRows cs)" and "\<forall>c \<in> set cs. c_Resources c = []"
  shows "(\<exists>s \<in> set cs. keepsRow row s) \<and>
         (\<forall>r \<in> resourcesOf row. \<exists>c \<in> set cs. c_Source c = c_Source row \<and> c_Missing c = c_Missing row \<and> c_Resource c = r)"
proof -
  let ?st = "fold groupStep cs (initialGroups cs, [])"
  have inv: "projects cs cs ?st" by (simp add: projects_all)
  from assms(1) consider "row \<in> set (snd ?st)" | p where "p \<in> set (fst ?st)" "row = finishGroup (snd p)"
    unfolding serviceRows_cases by blast
  then show ?thesis
  proof cases
    case 1
    with inv have "row \<in> set cs" unfolding projects_def by blast
    with assms(2) show ?thesis
      by (auto simp: keepsRow_def resourcesOf_own ownResources_def)
  next
    case 2
    have ent: "entryOf cs p" using inv 2(1) unfolding projects_def by blast
    then obtain s where s: "s \<in> set cs" "keepsRow (snd p) s" unfolding entryOf_def by blast
    have k: "keepsRow row s" using keepsRow_trans [OF _ s(2)] 2(2) by simp
    have "\<exists>c \<in> set cs. c_Source c = c_Source row \<and> c_Missing c = c_Missing row \<and> c_Resource c = r"
      if "r \<in> resourcesOf row" for r
    proof (cases "ownResources (snd p) = {}")
      case True
      with that 2(2) have "r = c_Resource row" by (simp add: resourcesOf_own)
      with k s(1) show ?thesis by (intro bexI [of _ s]) (simp_all add: keepsRow_def)
    next
      case False
      with that 2(2) have "r \<in> ownResources (snd p)" by (simp add: resourcesOf_own)
      with ent obtain c where "c \<in> set cs" "c_Resource c = r" "c_Source c = c_Source (snd p)"
        "c_Missing c = c_Missing (snd p)" unfolding entryOf_def by blast
      with 2(2) show ?thesis by (intro bexI [of _ c]) simp_all
    qed
    with k s(1) show ?thesis by blast
  qed
qed

lemma serviceRows_nulFree:
  assumes "\<forall>c \<in> set cs. c_Resources c = [] \<and> nulFree (c_Source c)"
  shows "\<forall>c \<in> set (serviceRows cs) \<union> set cs. nulFree (c_Source c)"
proof
  fix c assume "c \<in> set (serviceRows cs) \<union> set cs"
  then show "nulFree (c_Source c)"
  proof
    assume "c \<in> set (serviceRows cs)"
    with serviceRows_sound [OF this] assms obtain s where "s \<in> set cs" "keepsRow c s" by blast
    with assms show ?thesis by (simp add: keepsRow_def)
  qed (use assms in blast)
qed

section \<open>Live rows depend on live observations only\<close>

abbreviation entriesWith :: "bool \<Rightarrow> (groupKey \<times> Candidate) list \<Rightarrow> (groupKey \<times> Candidate) list" where
  "entriesWith b gs \<equiv> filter (\<lambda>p. c_Missing (snd p) = b) gs"

lemma map_of_entriesWith:
  assumes "unique_key fst gs"
  shows "map_of (entriesWith b gs) k =
           (case map_of gs k of Some g \<Rightarrow> if c_Missing g = b then Some g else None | None \<Rightarrow> None)"
  using assms
proof (induction gs)
  case (Cons p gs)
  then have "fst p \<notin> fst ` set gs" by (auto simp: unique_key_def)
  then have "map_of (entriesWith b gs) (fst p) = None"
    by (auto simp: map_of_eq_None_iff)
  with Cons show ?case by (cases p) (auto simp: unique_key_def split: option.split)
qed simp

lemma entriesWith_attachTo: "entriesWith b (attachTo c k gs) = attachTo c k (entriesWith b gs)"
  by (induction gs) (auto simp: tbl_update_def)

lemma attachTo_other:
  assumes "unique_key fst gs" and "map_of gs k = Some g" and "c_Missing g \<noteq> b"
  shows "attachTo c k (entriesWith b gs) = entriesWith b gs"
proof (rule tbl_update_nop)
  fix p assume "p \<in> set (entriesWith b gs)"
  then have "p \<in> set gs" "c_Missing (snd p) = b" by auto
  with assms show "fst p \<noteq> k" using map_of_unique [OF assms(1), of k "snd p"] by (cases p) auto
qed

lemma attachRefs_filter:
  assumes "unique_key fst gs"
  shows "attachRefs c refs seen m (entriesWith (c_Missing c) gs) =
           (fst (attachRefs c refs seen m gs), entriesWith (c_Missing c) (snd (attachRefs c refs seen m gs)))"
    and "c_Missing c \<noteq> b \<Longrightarrow> entriesWith b (snd (attachRefs c refs seen m gs)) = entriesWith b gs"
  using assms
proof (induction refs arbitrary: seen m gs)
  case (Cons ref refs)
  {
    case 1
    then show ?case
      using Cons.IH(1) [of gs] Cons.IH(1) [of "attachTo c k gs" for k]
      by (auto simp: Let_def map_of_entriesWith entriesWith_attachTo [symmetric] split: option.split prod.split)
  next
    case 2
    then show ?case
      using Cons.IH(2) [of gs] Cons.IH(2) [of "attachTo c k gs" for k]
      by (auto simp: Let_def entriesWith_attachTo attachTo_other split: option.split prod.split)
  }
qed simp_all

text \<open>Services have distinct keys when no two rows of the store describe the same resource.\<close>

definition distinctServices :: "Candidate list \<Rightarrow> bool" where
  "distinctServices cs \<longleftrightarrow> distinct (map groupKeyOf (filter isService cs))"

lemma initialGroups_distinct:
  assumes "distinctServices cs"
  shows "initialGroups cs = map (\<lambda>c. (groupKeyOf c, emptyGroup c)) (filter isService cs)"
  using assms
proof (induction cs rule: rev_induct)
  case Nil
  then show ?case by (simp add: initialGroups_def)
next
  case (snoc c cs)
  then have IH: "initialGroups cs = map (\<lambda>c. (groupKeyOf c, emptyGroup c)) (filter isService cs)"
    by (simp add: distinctServices_def split: if_splits)
  have "isService c \<Longrightarrow> tbl_get fst (groupKeyOf c) (initialGroups cs) = None"
    using snoc.prems by (auto simp: tbl_get_None IH distinctServices_def)
  then show ?case using IH by (simp add: initialGroups_def tbl_upsert_def)
qed

lemma initialGroups_withState:
  assumes "distinctServices cs"
  shows "initialGroups (withState b cs) = entriesWith b (initialGroups cs)"
proof -
  have "distinctServices (withState b cs)"
    using assms distinct_map_filter_keys [of groupKeyOf "filter isService cs" "\<lambda>c. c_Missing c = b"]
    by (simp add: distinctServices_def filter_filter conj_commute)
  then show ?thesis
    using assms by (simp add: initialGroups_distinct filter_map comp_def emptyGroup_def filter_filter conj_commute)
qed

definition stateWith ::
  "bool \<Rightarrow> (groupKey \<times> Candidate) list \<times> Candidate list \<Rightarrow> (groupKey \<times> Candidate) list \<times> Candidate list" where
  "stateWith b st = (entriesWith b (fst st), withState b (snd st))"

lemma groupStep_filter:
  assumes "unique_key fst (fst st)"
  shows "stateWith b (groupStep c st) = (if c_Missing c = b then groupStep c (stateWith b st) else stateWith b st)"
proof -
  obtain gs result where st: "st = (gs, result)" by (cases st)
  obtain m gs' where run: "attachRefs c (groupRefs c) [] False gs = (m, gs')"
    by (cases "attachRefs c (groupRefs c) [] False gs")
  have u: "unique_key fst gs" using assms st by simp
  note same = attachRefs_filter(1) [OF u, of c "groupRefs c" "[]" False, unfolded run fst_conv snd_conv]
  note other = attachRefs_filter(2) [OF u, of c b "groupRefs c" "[]" False, unfolded run snd_conv]
  show ?thesis
  proof (cases "c_Missing c = b")
    case True
    with same run show ?thesis by (auto simp: st groupStep_def stateWith_def)
  next
    case False
    with other run show ?thesis by (simp add: st groupStep_def stateWith_def)
  qed
qed

lemma groupStep_keys: "unique_key fst (fst st) \<Longrightarrow> map fst (fst (groupStep c st)) = map fst (fst st)"
proof -
  assume u: "unique_key fst (fst st)"
  obtain gs result where st: "st = (gs, result)" by (cases st)
  obtain m gs' where run: "attachRefs c (groupRefs c) [] False gs = (m, gs')"
    by (cases "attachRefs c (groupRefs c) [] False gs")
  have "list_all2 (grows c) gs gs'" using attachRefs_grows [OF _ run] u st by simp
  then have "map fst gs' = map fst gs" by (induction rule: list_all2_induct) (auto simp: grows_def)
  then show ?thesis using run by (simp add: st groupStep_def)
qed

lemma fold_groupStep_filter:
  assumes "unique_key fst (fst st)"
  shows "fold groupStep (withState b cs) (stateWith b st) = stateWith b (fold groupStep cs st)"
  using assms
proof (induction cs arbitrary: st)
  case (Cons c cs)
  have "unique_key fst (fst (groupStep c st))"
    using Cons.prems groupStep_keys [OF Cons.prems, of c] by (simp add: unique_key_def)
  from Cons.IH [OF this] groupStep_filter [OF Cons.prems, of b c] show ?case
    by (cases "c_Missing c = b") simp_all
qed simp

lemma withState_SortSlice: "withState b (SortSlice displayBefore xs) = SortSlice displayBefore (withState b xs)"
  unfolding displayBefore_key SortSlice_key by (rule filter_sort)

lemma serviceRows_withState:
  assumes "distinctServices cs"
  shows "withState b (serviceRows cs) = serviceRows (withState b cs)"
proof -
  let ?st = "fold groupStep cs (initialGroups cs, [])"
  have "fold groupStep (withState b cs) (stateWith b (initialGroups cs, [])) = stateWith b ?st"
    using initialGroups_inv by (intro fold_groupStep_filter) simp
  then have "fold groupStep (withState b cs) (initialGroups (withState b cs), []) = stateWith b ?st"
    by (simp add: stateWith_def initialGroups_withState [OF assms])
  then show ?thesis
    by (cases ?st) (simp add: serviceRows_def stateWith_def withState_SortSlice filter_map comp_def case_prod_beta')
qed

lemma related_Nil: "relatedPresentCandidates L J obs [] = []"
  by (simp add: relatedPresentCandidates_def Let_def collectBy_def)

lemma relatedCandidates_append:
  "relatedCandidates L J observations groups =
   SortSlice displayBefore
     (relatedPresentCandidates L J (withState False observations) (withState False groups) @
      relatedPresentCandidates L J (withState True observations) (withState True groups))"
  unfolding relatedCandidates_def list.map concat.simps append_Nil2 ..

lemma withState_related:
  "withState b (relatedCandidates L J observations groups) =
   SortSlice displayBefore (relatedPresentCandidates L J (withState b observations) (withState b groups))"
proof -
  let ?r = "\<lambda>b. relatedPresentCandidates L J (withState b observations) (withState b groups)"
  have same: "withState b (?r b) = ?r b" for b
    by (rule filter_True) (use related_missing in blast)
  have other: "withState b (?r b') = []" if "b' \<noteq> b" for b b'
    by (rule filter_False) (use related_missing that in blast)
  have "withState b (?r False @ ?r True) = ?r b"
    unfolding filter_append using same [of False] same [of True] other [of True False] other [of False True]
    by (cases b) simp_all
  then show ?thesis unfolding relatedCandidates_append withState_SortSlice by simp
qed

lemma groupCandidates_withState:
  assumes "distinctServices cs"
  shows "withState b (groupCandidates L J cs) = groupCandidates L J (withState b cs)"
proof -
  have none: "withState (\<not> b) (withState b xs) = []" for xs by (induction xs) auto
  have "relatedCandidates L J (withState b xs) (withState b ys) =
        SortSlice displayBefore (relatedPresentCandidates L J (withState b xs) (withState b ys))" for xs ys
    unfolding relatedCandidates_append using none [of xs] none [of ys]
    by (cases b) (simp_all add: related_Nil filter_filter)
  then show ?thesis by (simp only: groupCandidates_def withState_related serviceRows_withState [OF assms, symmetric])
qed

section \<open>Identifiers of the rows\<close>

text \<open>The name of a Service reads back from its reference text.\<close>

definition referable :: "Candidate \<Rightarrow> bool" where
  "referable c \<longleftrightarrow> parseRef (qualifiedName (c_Resource c)) =
                     Some (res_Namespace (c_Resource c), res_Name (c_Resource c))"

lemma referable_iff:
  "referable c \<longleftrightarrow> CHR ''/'' \<notin> set (res_Namespace (c_Resource c))" if "trimmed (qualifiedName (c_Resource c))"
proof
  assume "referable c"
  with that show "CHR ''/'' \<notin> set (res_Namespace (c_Resource c))"
    by (auto simp: referable_def parseRef_def TrimSpace_trimmed dest: Cut_Some)
next
  assume "CHR ''/'' \<notin> set (res_Namespace (c_Resource c))"
  with that show "referable c"
    by (simp add: referable_def parseRef_def TrimSpace_trimmed qualifiedName_def Cut_append)
qed

definition entryHeads :: "(groupKey \<times> Candidate) list \<Rightarrow> (groupKey \<times> string \<times> bool) list" where
  "entryHeads gs = map (\<lambda>(k, g). (k, c_ID g, c_Missing g)) gs"

lemma grows_heads: "list_all2 (grows c) gs gs' \<Longrightarrow> entryHeads gs' = entryHeads gs"
  by (induction rule: list_all2_induct) (auto simp: entryHeads_def grows_def keepsRow_def)

lemma groupStep_heads:
  assumes "unique_key fst (fst st)"
  shows "entryHeads (fst (groupStep c st)) = entryHeads (fst st)"
proof -
  obtain gs result where st: "st = (gs, result)" by (cases st)
  obtain m gs' where run: "attachRefs c (groupRefs c) [] False gs = (m, gs')"
    by (cases "attachRefs c (groupRefs c) [] False gs")
  have "list_all2 (grows c) gs gs'" using attachRefs_grows [OF _ run] assms st by simp
  then show ?thesis using run by (simp add: grows_heads st groupStep_def)
qed

lemma entryHeads_map_of:
  "map_of (entryHeads gs) k = map_option (\<lambda>g. (c_ID g, c_Missing g)) (map_of gs k)"
  by (induction gs) (auto simp: entryHeads_def)

lemma groupStep_service:
  assumes "isService c" and "referable c" and "map_of gs (groupKeyOf c) = Some g" and "c_Missing g = c_Missing c"
  shows "snd (groupStep c (gs, result)) = result"
  using assms by (simp add: groupStep_def isService_def referable_def groupRefs_def groupKeyOf_def Let_def)

lemma groupStep_result:
  "snd (groupStep c (gs, result)) = result \<or> snd (groupStep c (gs, result)) = result @ [c]"
  by (simp add: groupStep_def case_prod_beta)

lemma fold_groupStep_ids:
  assumes "distinctServices cs" and "\<forall>c \<in> set cs. isService c \<longrightarrow> referable c"
    and "set xs \<subseteq> set cs" and "distinct (map c_ID xs)"
  shows "let st = fold groupStep xs (initialGroups cs, []) in
           unique_key fst (fst st) \<and> entryHeads (fst st) = entryHeads (initialGroups cs) \<and>
           set (snd st) \<subseteq> {c \<in> set xs. \<not> isService c} \<and> distinct (map c_ID (snd st))"
  using assms(3,4)
proof (induction xs rule: rev_induct)
  case Nil
  then show ?case using initialGroups_inv by simp
next
  case (snoc c xs)
  obtain gs result where st: "fold groupStep xs (initialGroups cs, []) = (gs, result)"
    by (cases "fold groupStep xs (initialGroups cs, [])")
  have IH: "unique_key fst gs" "entryHeads gs = entryHeads (initialGroups cs)"
    "set result \<subseteq> {c \<in> set xs. \<not> isService c}" "distinct (map c_ID result)"
    using snoc st by simp_all
  have uq: "unique_key fst (fst (groupStep c (gs, result)))"
    using IH(1) groupStep_keys [of "(gs, result)" c] by (simp add: unique_key_def)
  have keep: "snd (groupStep c (gs, result)) = result" if "isService c"
  proof -
    have "c \<in> set (filter isService cs)" using that snoc.prems by simp
    then have "map_of (entryHeads (initialGroups cs)) (groupKeyOf c) = Some (c_ID c, c_Missing c)"
      using assms(1) unfolding initialGroups_distinct [OF assms(1)] entryHeads_def distinctServices_def
      by (intro map_of_is_SomeI) (auto simp: comp_def emptyGroup_def image_iff)
    then obtain g where "map_of gs (groupKeyOf c) = Some g" "c_Missing g = c_Missing c"
      using IH(2) entryHeads_map_of [of gs "groupKeyOf c"] by (cases "map_of gs (groupKeyOf c)") auto
    with that show ?thesis using assms(2) snoc.prems by (intro groupStep_service [of c gs g]) auto
  qed
  have "c_ID c \<notin> c_ID ` set result" using snoc.prems(2) IH(3) by auto
  then have "set (snd (groupStep c (gs, result))) \<subseteq> {d \<in> set (xs @ [c]). \<not> isService d} \<and>
        distinct (map c_ID (snd (groupStep c (gs, result))))"
    using groupStep_result [of c gs result] keep IH(3,4) by (cases "isService c") auto
  then show ?case
    using uq groupStep_heads [of "(gs, result)" c] IH(1,2) by (simp add: st Let_def)
qed

lemma distinct_serviceRows:
  assumes "distinctServices cs" and "\<forall>c \<in> set cs. isService c \<longrightarrow> referable c" and "distinct (map c_ID cs)"
  shows "distinct (map c_ID (serviceRows cs))"
proof -
  obtain gs result where st: "fold groupStep cs (initialGroups cs, []) = (gs, result)"
    by (cases "fold groupStep cs (initialGroups cs, [])")
  have inv: "entryHeads gs = entryHeads (initialGroups cs)" "set result \<subseteq> {c \<in> set cs. \<not> isService c}"
    "distinct (map c_ID result)"
    using fold_groupStep_ids [OF assms(1,2) subset_refl assms(3)] by (simp_all add: st Let_def)
  have "map (c_ID \<circ> snd) gs = map (fst \<circ> snd) (entryHeads gs)"
    by (simp add: entryHeads_def case_prod_beta')
  also have "\<dots> = map c_ID (filter isService cs)"
    unfolding inv(1) initialGroups_distinct [OF assms(1)] by (simp add: entryHeads_def emptyGroup_def comp_def)
  finally have ids: "map (c_ID \<circ> snd) gs = map c_ID (filter isService cs)" .
  have "c_ID ` set result \<inter> c_ID ` set (filter isService cs) = {}"
    using inv(2) assms(3) by (auto dest: distinct_map_inj_on)
  then have "distinct (map c_ID result @ map (c_ID \<circ> snd) gs)"
    unfolding ids using inv(3) assms(3) by (simp add: distinct_map_filter_keys)
  moreover have "map c_ID (map (\<lambda>(_, g). finishGroup g) gs) = map (c_ID \<circ> snd) gs"
    by (simp add: case_prod_beta')
  ultimately show ?thesis
    by (simp only: serviceRows_def st prod.case Let_def distinct_SortSlice map_append)
qed

section \<open>Properties\<close>

text \<open>
  C7. The projection presents every stored observation, in a row of the same source and the same
  presence, and shows no resource that was not observed there: grouping loses nothing, invents
  nothing and never mixes sources or live with missing resources.
\<close>

theorem projection_presents_exactly_the_observations:
  assumes "\<forall>c \<in> set cs. c_Resources c = [] \<and> nulFree (c_Source c)"
  shows "(\<forall>c \<in> set cs. \<exists>g \<in> set (groupCandidates L J cs). presents g c) \<and>
         (\<forall>g \<in> set (groupCandidates L J cs). \<forall>r \<in> resourcesOf g.
            \<exists>c \<in> set cs. c_Resource c = r \<and> presents g c)"
proof (intro conjI ballI)
  note nf = serviceRows_nulFree [OF assms]
  fix c assume c: "c \<in> set cs"
  with assms obtain row where row: "row \<in> set (serviceRows cs)" "presents row c"
    using serviceRows_complete by blast
  from relatedCandidates_complete [OF row(1) nf] obtain g where
    "g \<in> set (groupCandidates L J cs)" "c_Source g = c_Source row" "c_Missing g = c_Missing row"
    "resourcesOf row \<subseteq> resourcesOf g" unfolding groupCandidates_def by blast
  with row(2) show "\<exists>g \<in> set (groupCandidates L J cs). presents g c"
    by (intro bexI [of _ g]) (auto simp: presents_def)
next
  note nf = serviceRows_nulFree [OF assms]
  fix g r assume g: "g \<in> set (groupCandidates L J cs)" and r: "r \<in> resourcesOf g"
  from relatedCandidates_sound [OF g [unfolded groupCandidates_def] nf] r obtain row where
    row: "row \<in> set (serviceRows cs)" "r \<in> resourcesOf row" "c_Source row = c_Source g" "c_Missing row = c_Missing g"
    by blast
  from serviceRows_sound [OF row(1)] row(2) assms obtain c where
    "c \<in> set cs" "c_Source c = c_Source row" "c_Missing c = c_Missing row" "c_Resource c = r" by blast
  with r row(3,4) show "\<exists>c \<in> set cs. c_Resource c = r \<and> presents g c"
    by (intro bexI [of _ c]) (simp_all add: presents_def)
qed

text \<open>A route in front of a Service, and the metadata that ties them together.\<close>

definition evalRoute :: Candidate where
  "evalRoute = (NewCandidate evalLib evalSource \<lparr>res_Kind = ''httproute'', res_Namespace = ''apps'', res_Name = ''edge''\<rparr> 5)
     \<lparr>c_Metadata := [(''kubernetes.services'', ''apps/web'')]\<rparr>"

definition evalGone :: Candidate where
  "evalGone = (evalCandidate ''gone'')\<lparr>c_Missing := True\<rparr>"

definition evalObservations :: "Candidate list" where
  "evalObservations = [evalCandidate ''web'', evalRoute, evalGone]"

lemma evalObservations_rows:
  "map (\<lambda>g. (res_Name (c_Resource g), length (c_Resources g))) (groupCandidates evalLib (\<lambda>_. None) evalObservations) =
     [(''gone'', 1), (''web'', 2)]"
  by code_simp

theorem projection_presents_exactly_the_observations_witness:
  "\<exists>g \<in> set (groupCandidates evalLib (\<lambda>_. None) evalObservations). presents g evalRoute"
proof -
  have "\<forall>c \<in> set evalObservations. c_Resources c = [] \<and> nulFree (c_Source c)" by code_simp
  note projection_presents_exactly_the_observations [OF this]
  moreover have "evalRoute \<in> set evalObservations" by (simp add: evalObservations_def)
  ultimately show ?thesis by blast
qed

text \<open>
  The rows of one presence are a function of the observations of that presence alone: adding,
  changing or removing missing observations never changes how live services are grouped, and
  the other way round.
\<close>

theorem projection_separates_presence:
  assumes "distinctServices cs"
  shows "withState b (groupCandidates L J cs) = groupCandidates L J (withState b cs)"
  by (rule groupCandidates_withState [OF assms])

theorem projection_separates_presence_witness:
  "withState False (groupCandidates evalLib (\<lambda>_. None) evalObservations) =
   groupCandidates evalLib (\<lambda>_. None) [evalCandidate ''web'', evalRoute]"
proof -
  have "distinctServices evalObservations" by code_simp
  note projection_separates_presence [OF this, of False evalLib "\<lambda>_. None"]
  moreover have "withState False evalObservations = [evalCandidate ''web'', evalRoute]"
    by (simp add: evalObservations_def evalGone_def evalCandidate_def evalRoute_def NewCandidate_def Let_def)
  ultimately show ?thesis by simp
qed

text \<open>
  The projection is ordered by display name and identifier, and no two of its rows have the
  same identifier, when observations have distinct identifiers and Services have distinct names that
  read back from their reference text.
\<close>

theorem projection_sorted_distinct:
  assumes "distinct (map c_ID cs)" and "distinctServices cs"
    and "\<forall>c \<in> set cs. isService c \<longrightarrow> referable c"
  shows "sorted (map (\<lambda>g. (c_DisplayName g, c_ID g)) (groupCandidates L J cs)) \<and>
         distinct (map c_ID (groupCandidates L J cs))"
  unfolding groupCandidates_def
  using distinct_relatedCandidates [OF distinct_serviceRows [OF assms(2,3,1)]]
  by (simp add: relatedCandidates_def sorted_display)

theorem projection_sorted_distinct_witness:
  "distinct (map c_ID (groupCandidates evalLib (\<lambda>_. None) evalObservations))"
proof -
  have "distinct (map c_ID evalObservations)" by code_simp
  moreover have "distinctServices evalObservations" by code_simp
  moreover have "\<forall>c \<in> set evalObservations. isService c \<longrightarrow> referable c" by code_simp
  ultimately show ?thesis using projection_sorted_distinct by blast
qed

definition evalSlash :: Candidate where
  "evalSlash = NewCandidate evalLib evalSource \<lparr>res_Kind = ''service'', res_Namespace = ''a/b'', res_Name = ''web''\<rparr> 5"


text \<open>
  A lifecycle action is resolved against the current projection: an unknown action, hiding a
  missing group and purging a live group are conflicts, an unknown identifier is not found, and
  otherwise the targets are identifiers of observations of the group, only missing ones for a purge.
\<close>

theorem lifecycle_targets_resolved:
  "case LifecycleTargets L J cs i action of
     Inl e \<Rightarrow>
       (e = ErrNotFound \<longleftrightarrow>
          action \<in> {''hide'', ''show'', ''purge''} \<and> i \<notin> c_ID ` set (groupCandidates L J cs)) \<and>
       (e \<noteq> ErrNotFound \<longrightarrow> e = ErrConflict)
   | Inr ids \<Rightarrow>
       action \<in> {''hide'', ''show'', ''purge''} \<and>
       (\<exists>g \<in> set (groupCandidates L J cs).
          c_ID g = i \<and> (action = ''hide'' \<longrightarrow> \<not> c_Missing g) \<and> (action = ''purge'' \<longrightarrow> c_Missing g) \<and>
          set ids = c_ID ` {c \<in> set cs. c_Source c = c_Source g \<and> c_Resource c \<in> set (groupMembers g) \<and>
                                       (action = ''purge'' \<longrightarrow> c_Missing c)})"
proof (cases "action \<in> {''hide'', ''show'', ''purge''}")
  case True
  show ?thesis
  proof (cases "find (\<lambda>g. c_ID g = i) (groupCandidates L J cs)")
    case None
    then have "i \<notin> c_ID ` set (groupCandidates L J cs)" by (auto simp: find_None_all)
    with None True show ?thesis by (auto simp: LifecycleTargets_def)
  next
    case (Some g)
    then have "g \<in> set (groupCandidates L J cs)" "c_ID g = i" by (auto dest: find_Some_in_set)
    with Some True show ?thesis by (auto simp: LifecycleTargets_def)
  qed
qed (auto simp: LifecycleTargets_def)

theorem lifecycle_targets_resolved_witness:
  "LifecycleTargets evalLib (\<lambda>_. None) evalObservations (c_ID evalGone) ''purge'' = Inr [c_ID evalGone] \<and>
   c_ID evalGone \<in> c_ID ` set (groupCandidates evalLib (\<lambda>_. None) evalObservations)"
proof -
  have run: "LifecycleTargets evalLib (\<lambda>_. None) evalObservations (c_ID evalGone) ''purge'' = Inr [c_ID evalGone]"
    by code_simp
  with lifecycle_targets_resolved [where L = evalLib and J = "\<lambda>_. None" and cs = evalObservations
      and i = "c_ID evalGone" and action = "''purge''"]
  have "\<exists>g \<in> set (groupCandidates evalLib (\<lambda>_. None) evalObservations). c_ID g = c_ID evalGone" by auto
  with run show ?thesis by (metis imageI)
qed

end
