(* ===== verification/IconModel.thy ===== *)
theory IconModel
  imports Tables
begin

text \<open>
  The icons of \<open>internal/application/icons/model.go\<close>: the record, which is also the row of the table
  \<open>uploaded_icons\<close>, and the validation of an upload. The image check of the external icon library is
  the argument \<open>validateImage\<close>, which returns the media type or nothing; \<open>IconStorage\<close> is an error of the driver.
\<close>

record Icon =
  ic_ID :: string
  ic_Name :: string
  ic_Tags :: string
  ic_MIME :: string
  ic_Digest :: string
  ic_UsedBy :: "string list"
  ic_Data :: string

datatype icon_error = IconInvalid | IconNotFound | IconConflict | IconImage | IconStorage

definition IconValidate :: "(string \<Rightarrow> string option) \<Rightarrow> string \<Rightarrow> string \<Rightarrow> string \<Rightarrow> (icon_error, string) result" where
  "IconValidate validateImage name tags data =
     (if TrimSpace name = [] \<or> RuneCount name > 200 \<or> RuneCount tags > 1000 then Inl IconInvalid
      else case validateImage data of None \<Rightarrow> Inl IconImage | Some mime \<Rightarrow> Inr mime)"

lemma IconValidate_Inr:
  "IconValidate validateImage name tags data = Inr mime \<Longrightarrow>
     TrimSpace name \<noteq> [] \<and> RuneCount name \<le> 200 \<and> RuneCount tags \<le> 1000 \<and> validateImage data = Some mime"
  by (auto simp: IconValidate_def split: if_splits option.splits)

end
