(* ===== verification/CatalogStore.thy ===== *)
theory CatalogStore
  imports CatalogGroup IconModel
begin

text \<open>
  The catalogue's storage adapter (\<open>internal/adapters/sqlite/catalog.go\<close>, \<open>lifecycle.go\<close>,
  \<open>manual.go\<close>) on the tables of \<open>migrations/000002\<close> to \<open>000007\<close>: \<open>discovered_services\<close>,
  \<open>service_endpoints\<close>, \<open>service_edits\<close>, \<open>discovery_source_snapshots\<close> and the table \<open>uploaded_icons\<close>
  that edits refer to. The pool has one connection, so transactions run one after the other: each
  method is a function from the database to an error, which leaves the database as it was, or to a
  result and the new database.

  \<open>now\<close> is the clock; the readings within one call are one value. Endpoint rows are in the order of
  their automatic identifiers. The environment holds the library parameters, the decoder of exposure
  metadata and the built-in icon catalogue.
\<close>

section \<open>Tables\<close>

record catalog_env =
  env_lib :: golib
  env_exposures :: "string \<Rightarrow> Exposure list option"
  env_icon :: "string \<Rightarrow> bool"

record discoveredServiceRow =
  sv_ID :: string
  sv_Source :: SourceRef
  sv_Resource :: ResourceRef
  sv_DisplayName :: string
  sv_Description :: string
  sv_Metadata :: "smap option"
  sv_Images :: "string list option"
  sv_ObservedAt :: "time option"
  sv_PinnedAt :: "time option option"
  sv_Missing :: bool
  sv_Hidden :: bool
  sv_CreatedAt :: "time option"
  sv_UpdatedAt :: "time option"

record serviceEditRow =
  se_ServiceID :: string
  se_DisplayName :: string
  se_Description :: string
  se_Address :: string
  se_IconRef :: string

record catalog_db =
  db_services :: "discoveredServiceRow list"
  db_endpoints :: "(string \<times> Endpoint) list"
  db_edits :: "serviceEditRow list"
  db_watermarks :: "(SourceRef \<times> time option) list"
  db_icons :: "Icon list"

type_synonym 'a store_result = "(catalog_error, 'a \<times> catalog_db) result"

abbreviation getService :: "string \<Rightarrow> catalog_db \<Rightarrow> discoveredServiceRow option" where
  "getService i db \<equiv> tbl_get sv_ID i (db_services db)"

abbreviation getEdit :: "string \<Rightarrow> catalog_db \<Rightarrow> serviceEditRow option" where
  "getEdit i db \<equiv> tbl_get se_ServiceID i (db_edits db)"

abbreviation getWatermark :: "SourceRef \<Rightarrow> catalog_db \<Rightarrow> (SourceRef \<times> time option) option" where
  "getWatermark s db \<equiv> tbl_get fst s (db_watermarks db)"

section \<open>Writing observations\<close>

definition newServiceRow :: "time \<Rightarrow> Candidate \<Rightarrow> discoveredServiceRow" where
  "newServiceRow now c =
     \<lparr>sv_ID = c_ID c, sv_Source = c_Source c, sv_Resource = c_Resource c,
      sv_DisplayName = c_DisplayName c, sv_Description = c_Description c,
      sv_Metadata = Some (jsonMap (c_Metadata c)), sv_Images = Some (jsonStrings (c_Images c)),
      sv_ObservedAt = rfc3339 (c_ObservedAt c), sv_PinnedAt = None, sv_Missing = False, sv_Hidden = False,
      sv_CreatedAt = rfc3339 now, sv_UpdatedAt = rfc3339 now\<rparr>"

text \<open>\<open>ON CONFLICT (id) DO UPDATE\<close>: the pin, the hidden flag and the creation time stay.\<close>

definition mergeServiceRow :: "discoveredServiceRow \<Rightarrow> discoveredServiceRow \<Rightarrow> discoveredServiceRow" where
  "mergeServiceRow old new =
     new\<lparr>sv_ID := sv_ID old, sv_PinnedAt := sv_PinnedAt old, sv_Hidden := sv_Hidden old,
         sv_CreatedAt := sv_CreatedAt old, sv_Missing := False\<rparr>"

definition identityTaken :: "catalog_db \<Rightarrow> Candidate \<Rightarrow> bool" where
  "identityTaken db c \<longleftrightarrow>
     list_ex (\<lambda>r. sv_ID r \<noteq> c_ID c \<and> sv_Source r = c_Source c \<and> sv_Resource r = c_Resource c) (db_services db)"

definition writeCandidate :: "time \<Rightarrow> Candidate \<Rightarrow> catalog_db \<Rightarrow> (catalog_error, catalog_db) result" where
  "writeCandidate now c db =
     (if identityTaken db c then Inl UniqueIdentity
      else Inr (db\<lparr>db_services := tbl_upsert sv_ID mergeServiceRow (newServiceRow now c) (db_services db),
                   db_endpoints := tbl_delete (\<lambda>(i, e). i = c_ID c) (db_endpoints db) @
                                   map (\<lambda>e. (c_ID c, e)) (c_Endpoints c)\<rparr>))"

definition upsertCandidate :: "time \<Rightarrow> Candidate \<Rightarrow> catalog_db \<Rightarrow> (catalog_error, catalog_db) result" where
  "upsertCandidate now c db =
     (case getService (c_ID c) db of
        None \<Rightarrow> writeCandidate now c db
      | Some r \<Rightarrow>
          (case sv_ObservedAt r of
             None \<Rightarrow> Inl (DecodeObservation (c_ID c))
           | Some t \<Rightarrow> if \<not> c_ObservedAt c > t then Inr db else writeCandidate now c db))"

definition Upsert :: "golib \<Rightarrow> time \<Rightarrow> Candidate \<Rightarrow> catalog_db \<Rightarrow> unit store_result" where
  "Upsert L now c0 db =
     (let c = CandidateNormalize c0 in
      if src_Kind (c_Source c) = ManualSourceKind then Inl ErrConflict
      else case CandidateValidate L c of
          Some e \<Rightarrow> Inl (ValidateCandidate e)
        | None \<Rightarrow> (case upsertCandidate now c db of Inl e \<Rightarrow> Inl e | Inr db' \<Rightarrow> Inr ((), db')))"

definition setMissing :: "(discoveredServiceRow \<Rightarrow> bool) \<Rightarrow> bool \<Rightarrow> catalog_db \<Rightarrow> catalog_db" where
  "setMissing P b db = db\<lparr>db_services := tbl_update P (\<lambda>r. r\<lparr>sv_Missing := b\<rparr>) (db_services db)\<rparr>"

definition markAbsentCandidates :: "SourceRef \<Rightarrow> string list \<Rightarrow> catalog_db \<Rightarrow> catalog_db" where
  "markAbsentCandidates source keepIDs =
     setMissing (\<lambda>r. sv_Source r = source \<and> sv_ID r \<notin> set keepIDs) True"

fun storeCandidates :: "time \<Rightarrow> Candidate list \<Rightarrow> catalog_db \<Rightarrow> (catalog_error, catalog_db) result" where
  "storeCandidates now [] db = Inr db"
| "storeCandidates now (c # cs) db =
     (case upsertCandidate now (c\<lparr>c_PinnedAt := None\<rparr>) db of
        Inl e \<Rightarrow> Inl (UpsertSource e)
      | Inr db' \<Rightarrow> storeCandidates now cs (setMissing (\<lambda>r. sv_ID r = c_ID c) False db'))"

record SnapshotApplyResult =
  ar_Applied :: bool
  ar_Candidates :: nat

definition applySnapshot :: "time \<Rightarrow> Snapshot \<Rightarrow> catalog_db \<Rightarrow> SnapshotApplyResult store_result" where
  "applySnapshot now s db =
     (case storeCandidates now (sn_Candidates s) db of
        Inl e \<Rightarrow> Inl e
      | Inr db1 \<Rightarrow>
          let db2 = markAbsentCandidates (sn_Source s) (map c_ID (sn_Candidates s)) db1
          in Inr (\<lparr>ar_Applied = True, ar_Candidates = length (sn_Candidates s)\<rparr>,
                  db2\<lparr>db_watermarks := tbl_upsert fst (\<lambda>old new. (fst old, snd new))
                         (sn_Source s, rfc3339 (sn_ObservedAt s)) (db_watermarks db2)\<rparr>))"

definition ReplaceSourceSnapshot :: "golib \<Rightarrow> time \<Rightarrow> Snapshot \<Rightarrow> catalog_db \<Rightarrow> SnapshotApplyResult store_result" where
  "ReplaceSourceSnapshot L now s0 db =
     (let s = SnapshotNormalize s0 in
      case SnapshotValidate L s of
        Some e \<Rightarrow> Inl (ValidateSnapshot e)
      | None \<Rightarrow>
          (case getWatermark (sn_Source s) db of
             None \<Rightarrow> applySnapshot now s db
           | Some (_, None) \<Rightarrow> Inl DecodeWatermark
           | Some (_, Some t) \<Rightarrow>
               if \<not> sn_ObservedAt s > t
               then Inr (\<lparr>ar_Applied = False, ar_Candidates = length (sn_Candidates s)\<rparr>, db)
               else applySnapshot now s db))"

section \<open>Reading candidates\<close>

definition rowCandidate :: "discoveredServiceRow \<Rightarrow> smap \<Rightarrow> string list \<Rightarrow> time \<Rightarrow> serviceEditRow option \<Rightarrow>
    time option \<Rightarrow> Endpoint list \<Rightarrow> Candidate" where
  "rowCandidate row metadata images observedAt edit pinnedAt endpoints =
     \<lparr>c_Missing = sv_Missing row, c_Hidden = sv_Hidden row,
      c_Icon = (case edit of Some e \<Rightarrow> se_IconRef e | None \<Rightarrow> []),
      c_Address = (case edit of Some e \<Rightarrow> se_Address e | None \<Rightarrow> []),
      c_Resources = [], c_ID = sv_ID row, c_Source = sv_Source row, c_Resource = sv_Resource row,
      c_DisplayName = (case edit of Some e \<Rightarrow> se_DisplayName e | None \<Rightarrow> sv_DisplayName row),
      c_Description = (case edit of Some e \<Rightarrow> se_Description e | None \<Rightarrow> sv_Description row),
      c_Metadata = metadata, c_Endpoints = endpoints, c_Images = images,
      c_ObservedAt = observedAt, c_PinnedAt = pinnedAt\<rparr>"

definition candidateFromRow :: "golib \<Rightarrow> catalog_db \<Rightarrow> discoveredServiceRow \<Rightarrow> (catalog_error, Candidate) result" where
  "candidateFromRow L db row =
     (case sv_Metadata row of
        None \<Rightarrow> Inl (DecodeMetadata (sv_ID row))
      | Some metadata \<Rightarrow>
     (case sv_Images row of
        None \<Rightarrow> Inl (DecodeImages (sv_ID row))
      | Some images \<Rightarrow>
     (case sv_ObservedAt row of
        None \<Rightarrow> Inl (DecodeObservation (sv_ID row))
      | Some observedAt \<Rightarrow>
     (if sv_PinnedAt row = Some None then Inl (DecodePin (sv_ID row))
      else
        let c = CandidateNormalize
                  (rowCandidate row metadata images observedAt (getEdit (sv_ID row) db)
                     (case sv_PinnedAt row of Some p \<Rightarrow> p | None \<Rightarrow> None)
                     (map snd (filter (\<lambda>(i, e). i = sv_ID row) (db_endpoints db))))
        in case CandidateValidate L c of
             Some e \<Rightarrow> Inl (StoredCandidate (sv_ID row) e)
           | None \<Rightarrow> Inr c))))"

fun candidatesFromRows :: "golib \<Rightarrow> catalog_db \<Rightarrow> discoveredServiceRow list \<Rightarrow> (catalog_error, Candidate list) result" where
  "candidatesFromRows L db [] = Inr []"
| "candidatesFromRows L db (r # rs) =
     (case candidateFromRow L db r of
        Inl e \<Rightarrow> Inl e
      | Inr c \<Rightarrow> (case candidatesFromRows L db rs of Inl e \<Rightarrow> Inl e | Inr cs \<Rightarrow> Inr (c # cs)))"

text \<open>\<open>ORDER BY lower(display_name), id\<close>; \<open>lower\<close> folds ASCII letters only.\<close>

definition orderedServices :: "catalog_db \<Rightarrow> discoveredServiceRow list" where
  "orderedServices db = sort_key (\<lambda>r. (ToLower (sv_DisplayName r), sv_ID r)) (db_services db)"

definition listCandidates :: "golib \<Rightarrow> bool \<Rightarrow> catalog_db \<Rightarrow> (catalog_error, Candidate list) result" where
  "listCandidates L pinned db =
     candidatesFromRows L db
       (if pinned then filter (\<lambda>r. sv_PinnedAt r \<noteq> None) (orderedServices db) else orderedServices db)"

section \<open>Pins\<close>

definition setPin :: "string \<Rightarrow> time option option \<Rightarrow> time \<Rightarrow> catalog_db \<Rightarrow> catalog_db" where
  "setPin i p now db =
     db\<lparr>db_services := tbl_update (\<lambda>r. sv_ID r = i)
          (\<lambda>r. r\<lparr>sv_PinnedAt := p, sv_UpdatedAt := rfc3339 now\<rparr>) (db_services db)\<rparr>"

fun pinRows :: "time \<Rightarrow> bool \<Rightarrow> string list \<Rightarrow> catalog_db \<Rightarrow> (catalog_error, catalog_db) result" where
  "pinRows now pinned [] db = Inr db"
| "pinRows now pinned (i # ids) db =
     (case getService i db of
        None \<Rightarrow> Inl ErrNotFound
      | Some row \<Rightarrow>
          if pinned \<and> (sv_Missing row \<or> sv_Hidden row) then Inl ErrConflict
          else let db1 = (if pinned \<and> sv_PinnedAt row = None then setPin i (Some (rfc3339 now)) now db else db);
                   db2 = (if \<not> pinned \<and> sv_PinnedAt row \<noteq> None then setPin i None now db1 else db1)
               in pinRows now pinned ids db2)"

definition SetPinned :: "golib \<Rightarrow> time \<Rightarrow> string \<Rightarrow> bool \<Rightarrow> string list \<Rightarrow> catalog_db \<Rightarrow> Candidate store_result" where
  "SetPinned L now i0 pinned related db =
     (let i = TrimSpace i0 in
      if i = [] then Inl ErrNotFound
      else case pinRows now pinned (i # related) db of
          Inl e \<Rightarrow> Inl e
        | Inr db' \<Rightarrow>
            (case getService i db' of
               None \<Rightarrow> Inl ErrNotFound
             | Some row \<Rightarrow>
                 (case candidateFromRow L db' row of Inl e \<Rightarrow> Inl e | Inr c \<Rightarrow> Inr (c, db'))))"

section \<open>Edits\<close>

definition mergeEditRow :: "serviceEditRow \<Rightarrow> serviceEditRow \<Rightarrow> serviceEditRow" where
  "mergeEditRow old new =
     old\<lparr>se_DisplayName := se_DisplayName new, se_Description := se_Description new, se_Address := se_Address new\<rparr>"

definition saveServiceEdit :: "string \<Rightarrow> Edit \<Rightarrow> catalog_db \<Rightarrow> catalog_db" where
  "saveServiceEdit i e db =
     db\<lparr>db_edits := tbl_upsert se_ServiceID mergeEditRow
          \<lparr>se_ServiceID = i, se_DisplayName = e_DisplayName e, se_Description = e_Description e,
           se_Address = e_Address e, se_IconRef = []\<rparr> (db_edits db)\<rparr>"

definition setIconRef :: "string \<Rightarrow> string \<Rightarrow> catalog_db \<Rightarrow> catalog_db" where
  "setIconRef i ref db =
     db\<lparr>db_edits := tbl_update (\<lambda>r. se_ServiceID r = i) (\<lambda>r. r\<lparr>se_IconRef := ref\<rparr>) (db_edits db)\<rparr>"

definition knownIcon :: "catalog_env \<Rightarrow> catalog_db \<Rightarrow> string \<Rightarrow> bool" where
  "knownIcon E db ref \<longleftrightarrow> ref = [] \<or> env_icon E ref \<or> tbl_get ic_ID ref (db_icons db) \<noteq> None"

definition saveEditTx :: "catalog_env \<Rightarrow> string \<Rightarrow> Edit \<Rightarrow> catalog_db \<Rightarrow> (catalog_error, catalog_db) result" where
  "saveEditTx E i edit db =
     (case getService i db of
        None \<Rightarrow> Inl ErrNotFound
      | Some row \<Rightarrow>
          if src_Kind (sv_Source row) = ManualSourceKind \<and> e_Address edit = [] then Inl ErrInvalidEdit
          else let db1 = saveServiceEdit i edit db in
               case e_Icon edit of
                 None \<Rightarrow> Inr db1
               | Some ref \<Rightarrow> if knownIcon E db1 ref then Inr (setIconRef i ref db1) else Inl ErrInvalidEdit)"

definition SaveEdit :: "catalog_env \<Rightarrow> string \<Rightarrow> Edit \<Rightarrow> catalog_db \<Rightarrow> unit store_result" where
  "SaveEdit E i edit0 db =
     (let edit = EditNormalize edit0 in
      case EditValidate (env_lib E) edit of
        Some e \<Rightarrow> Inl e
      | None \<Rightarrow> (case saveEditTx E i edit db of Inl e \<Rightarrow> Inl e | Inr db' \<Rightarrow> Inr ((), db')))"

section \<open>Lifecycle actions\<close>

definition setHidden :: "string \<Rightarrow> bool \<Rightarrow> catalog_db \<Rightarrow> catalog_db" where
  "setHidden i b db = db\<lparr>db_services := tbl_update (\<lambda>r. sv_ID r = i) (\<lambda>r. r\<lparr>sv_Hidden := b\<rparr>) (db_services db)\<rparr>"

text \<open>Deleting a service deletes its endpoints and its edit (\<open>ON DELETE CASCADE\<close>).\<close>

definition purgeService :: "string \<Rightarrow> catalog_db \<Rightarrow> catalog_db" where
  "purgeService i db =
     (if list_ex (\<lambda>r. sv_ID r = i \<and> sv_Missing r) (db_services db)
      then db\<lparr>db_services := tbl_delete (\<lambda>r. sv_ID r = i \<and> sv_Missing r) (db_services db),
              db_endpoints := tbl_delete (\<lambda>(k, e). k = i) (db_endpoints db),
              db_edits := tbl_delete (\<lambda>r. se_ServiceID r = i) (db_edits db)\<rparr>
      else db)"

definition applyAction :: "string \<Rightarrow> string \<Rightarrow> catalog_db \<Rightarrow> catalog_db" where
  "applyAction action i db =
     (if action = ''hide'' then setHidden i True db
      else if action = ''show'' then setHidden i False db
      else purgeService i db)"

definition Lifecycle :: "catalog_env \<Rightarrow> string \<Rightarrow> string \<Rightarrow> catalog_db \<Rightarrow> unit store_result" where
  "Lifecycle E i action db =
     (case candidatesFromRows (env_lib E) db (orderedServices db) of
        Inl e \<Rightarrow> Inl e
      | Inr observations \<Rightarrow>
          (case LifecycleTargets (env_lib E) (env_exposures E) observations i action of
             Inl e \<Rightarrow> Inl e
           | Inr ids \<Rightarrow> Inr ((), fold (applyAction action) ids db)))"

section \<open>Manual services\<close>

definition manualCandidate :: "golib \<Rightarrow> time \<Rightarrow> ManualService \<Rightarrow> Candidate" where
  "manualCandidate L now m =
     (NewCandidate L \<lparr>src_Kind = ManualSourceKind, src_ID = ''local''\<rparr>
        \<lparr>res_Kind = ''service'', res_Namespace = [], res_Name = ToLower (m_RequestID m)\<rparr> now)
     \<lparr>c_DisplayName := e_DisplayName (m_Edit m), c_Description := e_Description (m_Edit m)\<rparr>"

definition CreateManual :: "catalog_env \<Rightarrow> time \<Rightarrow> ManualService \<Rightarrow> catalog_db \<Rightarrow> Candidate store_result" where
  "CreateManual E now m0 db =
     (let m = m0\<lparr>m_Edit := EditNormalize (m_Edit m0)\<rparr>; L = env_lib E in
      case ManualValidate L m of
        Some e \<Rightarrow> Inl e
      | None \<Rightarrow>
          let c = manualCandidate L now m;
              ready = (case getService (c_ID c) db of
                         Some row \<Rightarrow> Inr db
                       | None \<Rightarrow>
                           (case upsertCandidate now c db of
                              Inl e \<Rightarrow> Inl e
                            | Inr db1 \<Rightarrow> saveEditTx E (c_ID c) (m_Edit m) db1))
          in case ready of
               Inl e \<Rightarrow> Inl e
             | Inr db' \<Rightarrow>
                 (case getService (c_ID c) db' of
                    None \<Rightarrow> Inl ErrNotFound
                  | Some row \<Rightarrow>
                      (case candidateFromRow L db' row of Inl e \<Rightarrow> Inl e | Inr r \<Rightarrow> Inr (r, db'))))"

section \<open>The contracts of the upserts\<close>

interpretation service_table: upsert_table sv_ID mergeServiceRow
  by unfold_locales (simp add: mergeServiceRow_def)

interpretation edit_table: upsert_table se_ServiceID mergeEditRow
  by unfold_locales (simp add: mergeEditRow_def)

interpretation watermark_table: upsert_table "fst :: SourceRef \<times> time option \<Rightarrow> SourceRef" "\<lambda>old new. (fst old, snd new)"
  by unfold_locales simp

section \<open>The schema's invariant\<close>

text \<open>
  Primary and unique keys, foreign keys, and the reference that no constraint declares: an edit
  names no icon, a built-in one or an uploaded one.
\<close>

definition serviceHeads :: "catalog_db \<Rightarrow> (string \<times> SourceRef \<times> ResourceRef) list" where
  "serviceHeads db = map (\<lambda>r. (sv_ID r, sv_Source r, sv_Resource r)) (db_services db)"

definition catalogInv :: "catalog_env \<Rightarrow> catalog_db \<Rightarrow> bool" where
  "catalogInv E db \<longleftrightarrow>
     distinct (map fst (serviceHeads db)) \<and> distinct (map snd (serviceHeads db)) \<and>
     unique_key se_ServiceID (db_edits db) \<and> unique_key fst (db_watermarks db) \<and>
     fst ` set (db_endpoints db) \<subseteq> fst ` set (serviceHeads db) \<and>
     se_ServiceID ` set (db_edits db) \<subseteq> fst ` set (serviceHeads db) \<and>
     (\<forall>r \<in> set (db_edits db). knownIcon E db (se_IconRef r))"

lemma heads_ids: "map fst (serviceHeads db) = map sv_ID (db_services db)"
  by (simp add: serviceHeads_def comp_def)

lemma catalogInvD:
  assumes "catalogInv E db"
  shows "distinct (map fst (serviceHeads db))" and "distinct (map snd (serviceHeads db))"
    and "unique_key se_ServiceID (db_edits db)" and "unique_key fst (db_watermarks db)"
    and "fst ` set (db_endpoints db) \<subseteq> fst ` set (serviceHeads db)"
    and "se_ServiceID ` set (db_edits db) \<subseteq> fst ` set (serviceHeads db)"
    and "r \<in> set (db_edits db) \<Longrightarrow> knownIcon E db (se_IconRef r)"
  using assms by (simp_all add: catalogInv_def)

lemma catalogInv_unique: "catalogInv E db \<Longrightarrow> unique_key sv_ID (db_services db)"
  by (simp add: catalogInv_def heads_ids unique_key_def)

lemma heads_update:
  assumes "\<And>r. sv_ID (f r) = sv_ID r \<and> sv_Source (f r) = sv_Source r \<and> sv_Resource (f r) = sv_Resource r"
  shows "serviceHeads (db\<lparr>db_services := tbl_update P f (db_services db)\<rparr>) = serviceHeads db"
  unfolding serviceHeads_def using assms
  by (simp add: map_tbl_update [where g = "\<lambda>r. (sv_ID r, sv_Source r, sv_Resource r)"])

lemma catalogInv_update [store_inv]:
  assumes "\<And>r. sv_ID (f r) = sv_ID r \<and> sv_Source (f r) = sv_Source r \<and> sv_Resource (f r) = sv_Resource r"
  shows "catalogInv E (db\<lparr>db_services := tbl_update P f (db_services db)\<rparr>) = catalogInv E db"
  unfolding catalogInv_def heads_update [OF assms] by (simp add: knownIcon_def)

lemma catalogInv_setMissing [store_inv]: "catalogInv E (setMissing P b db) = catalogInv E db"
  unfolding setMissing_def by (rule catalogInv_update) simp

lemma catalogInv_setPin [store_inv]: "catalogInv E (setPin i p now db) = catalogInv E db"
  unfolding setPin_def by (rule catalogInv_update) simp

lemma catalogInv_setHidden [store_inv]: "catalogInv E (setHidden i b db) = catalogInv E db"
  unfolding setHidden_def by (rule catalogInv_update) simp

lemma distinct_snd_replace:
  assumes "distinct (map fst hs)" and "distinct (map snd hs)" and "\<forall>h \<in> set hs. fst h \<noteq> i \<longrightarrow> snd h \<noteq> x"
  shows "distinct (map snd (map (\<lambda>h. if fst h = i then (i, x) else h) hs))"
  using assms
proof (induction hs)
  case (Cons h hs)
  have "snd (if fst h = i then (i, x) else h) \<notin> (\<lambda>h. snd (if fst h = i then (i, x) else h)) ` set hs"
  proof (cases "fst h = i")
    case True
    with Cons.prems(1) have "i \<notin> fst ` set hs" by simp
    then have "\<forall>h \<in> set hs. fst h \<noteq> i" by (metis imageI)
    with True Cons.prems(3) show ?thesis by auto
  next
    case False
    with Cons.prems(2,3) show ?thesis by (auto split: if_splits)
  qed
  with Cons.IH Cons.prems show ?case by (simp add: comp_def)
qed simp

lemma heads_write:
  assumes "writeCandidate now c db = Inr db'"
  shows "serviceHeads db' =
           (if c_ID c \<in> fst ` set (serviceHeads db)
            then map (\<lambda>h. if fst h = c_ID c then (c_ID c, c_Source c, c_Resource c) else h) (serviceHeads db)
            else serviceHeads db @ [(c_ID c, c_Source c, c_Resource c)])"
proof -
  have sv: "db_services db' = tbl_upsert sv_ID mergeServiceRow (newServiceRow now c) (db_services db)"
    using assms by (auto simp: writeCandidate_def split: if_splits)
  show ?thesis
    unfolding serviceHeads_def sv
    by (auto simp: tbl_upsert_def tbl_get_None tbl_update_def newServiceRow_def mergeServiceRow_def image_image)
qed

lemma catalogInv_write [store_inv]:
  assumes "catalogInv E db" and "writeCandidate now c db = Inr db'"
  shows "catalogInv E db'"
proof -
  let ?hs = "serviceHeads db" and ?new = "(c_ID c, c_Source c, c_Resource c)"
  note h = heads_write [OF assms(2)]
  have free: "\<not> identityTaken db c" and db': "db_edits db' = db_edits db" "db_watermarks db' = db_watermarks db"
    "db_icons db' = db_icons db"
    "db_endpoints db' = tbl_delete (\<lambda>(i, e). i = c_ID c) (db_endpoints db) @ map (\<lambda>e. (c_ID c, e)) (c_Endpoints c)"
    using assms(2) by (auto simp: writeCandidate_def split: if_splits)
  have other: "\<forall>h \<in> set ?hs. fst h \<noteq> c_ID c \<longrightarrow> snd h \<noteq> snd ?new"
    using free by (auto simp: identityTaken_def list_ex_iff serviceHeads_def)
  have d: "distinct (map fst ?hs)" "distinct (map snd ?hs)" using assms(1) by (simp_all add: catalogInv_def)
  have same: "map fst (map (\<lambda>h. if fst h = c_ID c then ?new else h) ?hs) = map fst ?hs" by simp
  then have "fst ` set (map (\<lambda>h. if fst h = c_ID c then ?new else h) ?hs) = fst ` set ?hs"
    by (metis list.set_map)
  then have ids: "fst ` set (serviceHeads db') = insert (c_ID c) (fst ` set ?hs)"
    unfolding h by auto
  from same have d1: "distinct (map fst (serviceHeads db'))"
    using d(1) unfolding h by (simp only: split: if_split) auto
  have d2: "distinct (map snd (serviceHeads db'))"
  proof (cases "c_ID c \<in> fst ` set ?hs")
    case True
    with distinct_snd_replace [OF d other] show ?thesis unfolding h by (simp only: if_True snd_conv)
  next
    case False
    then have "\<forall>h \<in> set ?hs. fst h \<noteq> c_ID c" by (metis imageI)
    with other have "snd ?new \<notin> snd ` set ?hs" by auto
    with False d(2) show ?thesis unfolding h by simp
  qed
  have known: "knownIcon E db' = knownIcon E db" by (simp add: knownIcon_def fun_eq_iff db')
  have "fst ` set (db_endpoints db') \<subseteq> fst ` set (serviceHeads db')"
    using assms(1) unfolding ids db' catalogInv_def by auto
  then show ?thesis
    using assms(1) d1 d2 ids known unfolding catalogInv_def db' by auto
qed

lemma catalogInv_upsertCandidate [store_inv]:
  "catalogInv E db \<Longrightarrow> upsertCandidate now c db = Inr db' \<Longrightarrow> catalogInv E db'"
  by (auto simp: upsertCandidate_def split: option.splits if_splits dest: catalogInv_write)

lemma catalogInv_storeCandidates [store_inv]:
  "catalogInv E db \<Longrightarrow> storeCandidates now cs db = Inr db' \<Longrightarrow> catalogInv E db'"
proof (induction now cs db rule: storeCandidates.induct)
  case (2 now c cs db)
  then obtain db1 where db1: "upsertCandidate now (c\<lparr>c_PinnedAt := None\<rparr>) db = Inr db1"
    and rest: "storeCandidates now cs (setMissing (\<lambda>r. sv_ID r = c_ID c) False db1) = Inr db'"
    by (auto split: sum.splits)
  have "catalogInv E db1" by (rule catalogInv_upsertCandidate [OF 2(2) db1])
  then have "catalogInv E (setMissing (\<lambda>r. sv_ID r = c_ID c) False db1)" by (simp add: catalogInv_setMissing)
  from 2(1) [OF db1 this rest] show ?case .
qed simp

lemma catalogInv_watermark:
  "catalogInv E db \<Longrightarrow>
   catalogInv E (db\<lparr>db_watermarks := tbl_upsert fst (\<lambda>old new. (fst old, snd new)) w (db_watermarks db)\<rparr>)"
  by (simp add: catalogInv_def serviceHeads_def knownIcon_def watermark_table.unique_key_upsert)

lemma catalogInv_applySnapshot:
  "catalogInv E db \<Longrightarrow> applySnapshot now s db = Inr (a, db') \<Longrightarrow> catalogInv E db'"
  by (auto simp: applySnapshot_def Let_def markAbsentCandidates_def catalogInv_setMissing
      split: sum.splits intro!: catalogInv_watermark dest: catalogInv_storeCandidates)

lemma catalogInv_Replace:
  "catalogInv E db \<Longrightarrow> ReplaceSourceSnapshot L now s db = Inr (a, db') \<Longrightarrow> catalogInv E db'"
  by (auto simp: ReplaceSourceSnapshot_def Let_def split: option.splits prod.splits if_splits
      dest: catalogInv_applySnapshot)

lemma catalogInv_Upsert:
  "catalogInv E db \<Longrightarrow> Upsert L now c db = Inr (a, db') \<Longrightarrow> catalogInv E db'"
  by (auto simp: Upsert_def Let_def split: option.splits sum.splits if_splits dest: catalogInv_upsertCandidate)

lemma catalogInv_pinRows:
  "catalogInv E db \<Longrightarrow> pinRows now pinned ids db = Inr db' \<Longrightarrow> catalogInv E db'"
proof (induction now pinned ids db rule: pinRows.induct)
  case (2 now pinned i ids db)
  then show ?case by (auto simp: Let_def catalogInv_setPin split: option.splits if_splits)
qed simp

lemma catalogInv_SetPinned:
  "catalogInv E db \<Longrightarrow> SetPinned L now i pinned related db = Inr (c, db') \<Longrightarrow> catalogInv E db'"
  by (auto simp only: SetPinned_def Let_def split: option.splits sum.splits if_splits dest: catalogInv_pinRows)

lemma catalogInv_saveEditTx [store_inv]:
  assumes "catalogInv E db" and "saveEditTx E i edit db = Inr db'"
  shows "catalogInv E db'"
proof -
  from assms(2) obtain row where row: "getService i db = Some row"
    by (auto simp: saveEditTx_def split: option.splits)
  then have i: "i \<in> fst ` set (serviceHeads db)"
    using tbl_get_Some [OF row] by (force simp: serviceHeads_def)
  let ?db1 = "saveServiceEdit i edit db"
  have heads: "serviceHeads ?db1 = serviceHeads db" and known: "knownIcon E ?db1 = knownIcon E db"
    by (simp_all add: saveServiceEdit_def serviceHeads_def knownIcon_def fun_eq_iff)
  have "knownIcon E db (se_IconRef r)" if "r \<in> set (db_edits ?db1)" for r
    using that assms(1)
    by (auto simp: saveServiceEdit_def tbl_upsert_def in_tbl_update mergeEditRow_def catalogInv_def knownIcon_def
        split: if_splits)
  moreover have "se_ServiceID ` set (db_edits ?db1) = insert i (se_ServiceID ` set (db_edits db))"
    unfolding saveServiceEdit_def by (simp add: edit_table.keys_upsert)
  moreover have "unique_key se_ServiceID (db_edits ?db1)"
    using assms(1) by (simp add: saveServiceEdit_def catalogInv_def edit_table.unique_key_upsert)
  ultimately have inv1: "catalogInv E ?db1"
    using assms(1) i unfolding catalogInv_def heads known by (auto simp: saveServiceEdit_def)
  have "catalogInv E (setIconRef i ref ?db1)" if ref: "knownIcon E ?db1 ref" for ref
  proof -
    have k: "knownIcon E (setIconRef i ref ?db1) = knownIcon E ?db1" "serviceHeads (setIconRef i ref ?db1) = serviceHeads ?db1"
      by (simp_all add: setIconRef_def knownIcon_def serviceHeads_def fun_eq_iff)
    have e: "unique_key se_ServiceID (db_edits (setIconRef i ref ?db1)) = unique_key se_ServiceID (db_edits ?db1)"
      "se_ServiceID ` set (db_edits (setIconRef i ref ?db1)) = se_ServiceID ` set (db_edits ?db1)"
      by (simp_all add: setIconRef_def unique_key_update keys_update)
    have ic: "\<forall>r \<in> set (db_edits (setIconRef i ref ?db1)). knownIcon E ?db1 (se_IconRef r)"
      using inv1 ref by (auto simp: setIconRef_def in_tbl_update catalogInv_def)
    show ?thesis using inv1 ic unfolding catalogInv_def k e by (auto simp: setIconRef_def)
  qed
  with assms(2) inv1 row show ?thesis
    by (auto simp: saveEditTx_def Let_def split: option.splits if_splits)
qed

lemma catalogInv_SaveEdit:
  "catalogInv E db \<Longrightarrow> SaveEdit E i edit db = Inr (x, db') \<Longrightarrow> catalogInv E db'"
  by (auto simp: SaveEdit_def Let_def split: option.splits sum.splits dest: catalogInv_saveEditTx)

lemma keys_filter_neq: "f ` set (filter (\<lambda>h. f h \<noteq> i) hs) = f ` set hs - {i}"
  by (induction hs) auto

lemma keys_delete_eq: "f ` set (tbl_delete (\<lambda>h. f h = i) rows) = f ` set rows - {i}"
  by (induction rows) (auto simp: tbl_delete_def)

lemma case_prod_fst: "(\<lambda>(k, e). k = i) = (\<lambda>p. fst p = i)"
  by (simp add: fun_eq_iff)

lemma catalogInv_purgeService [store_inv]:
  assumes "catalogInv E db"
  shows "catalogInv E (purgeService i db)"
proof (cases "list_ex (\<lambda>r. sv_ID r = i \<and> sv_Missing r) (db_services db)")
  case True
  have uq: "unique_key sv_ID (db_services db)" by (rule catalogInv_unique [OF assms])
  from True obtain row where row: "row \<in> set (db_services db)" "sv_ID row = i" "sv_Missing row"
    by (auto simp: list_ex_iff)
  have only: "sv_Missing r" if "r \<in> set (db_services db)" "sv_ID r = i" for r
    using distinct_map_inj_on [OF uq [unfolded unique_key_def] that(1) row(1)] that(2) row(2,3) by simp
  let ?db = "purgeService i db"
  have del: "tbl_delete (\<lambda>r. sv_ID r = i \<and> sv_Missing r) (db_services db) = tbl_delete (\<lambda>r. sv_ID r = i) (db_services db)"
    unfolding tbl_delete_def using only by (intro filter_cong) blast+
  have heads: "serviceHeads ?db = filter (\<lambda>h. fst h \<noteq> i) (serviceHeads db)"
  proof -
    have "db_services ?db = tbl_delete (\<lambda>r. sv_ID r = i) (db_services db)"
      using True del by (simp add: purgeService_def)
    then show ?thesis by (simp add: serviceHeads_def tbl_delete_def filter_map comp_def)
  qed
  have known: "knownIcon E ?db = knownIcon E db" using True by (simp add: purgeService_def knownIcon_def fun_eq_iff)
  have tabs: "db_edits ?db = tbl_delete (\<lambda>r. se_ServiceID r = i) (db_edits db)"
    "db_endpoints ?db = tbl_delete (\<lambda>(k, e). k = i) (db_endpoints db)" "db_watermarks ?db = db_watermarks db"
    using True by (simp_all add: purgeService_def)
  have left: "fst ` set (serviceHeads ?db) = fst ` set (serviceHeads db) - {i}"
    unfolding heads by (rule keys_filter_neq)
  note inv = catalogInvD [OF assms]
  have e1: "fst ` set (db_endpoints ?db) \<subseteq> fst ` set (db_endpoints db) - {i}"
    unfolding tabs case_prod_fst keys_delete_eq by (rule subset_refl)
  have e2: "se_ServiceID ` set (db_edits ?db) \<subseteq> se_ServiceID ` set (db_edits db) - {i}"
    unfolding tabs keys_delete_eq by (rule subset_refl)
  have fk: "fst ` set (db_endpoints ?db) \<subseteq> fst ` set (serviceHeads ?db)"
    "se_ServiceID ` set (db_edits ?db) \<subseteq> fst ` set (serviceHeads ?db)"
    unfolding left
    by (rule subset_trans [OF e1 Diff_mono [OF inv(5) subset_refl]],
        rule subset_trans [OF e2 Diff_mono [OF inv(6) subset_refl]])
  have "distinct (map fst (serviceHeads ?db))" "distinct (map snd (serviceHeads ?db))"
    unfolding heads by (intro distinct_map_filter_keys inv)+
  moreover have "unique_key se_ServiceID (db_edits ?db)"
    unfolding tabs by (intro unique_key_delete inv)
  moreover have "\<forall>r \<in> set (db_edits ?db). knownIcon E db (se_IconRef r)"
    using inv(7) unfolding tabs by simp
  ultimately show ?thesis
    unfolding catalogInv_def known using fk inv(4) tabs(3) by simp
next
  case False
  with assms show ?thesis by (simp add: purgeService_def)
qed

lemma catalogInv_applyAction: "catalogInv E db \<Longrightarrow> catalogInv E (applyAction action i db)"
  by (simp add: applyAction_def catalogInv_setHidden catalogInv_purgeService)

lemma catalogInv_Lifecycle:
  assumes "catalogInv E db" and "Lifecycle E i action db = Inr (x, db')"
  shows "catalogInv E db'"
proof -
  from assms(2) obtain ids where "db' = fold (applyAction action) ids db"
    by (auto simp: Lifecycle_def split: sum.splits)
  moreover have "catalogInv E (fold (applyAction action) ids db)"
    by (rule fold_invariant [where P = "catalogInv E" and Q = "\<lambda>_. True"])
       (simp_all add: assms(1) catalogInv_applyAction)
  ultimately show ?thesis by simp
qed

lemma catalogInv_CreateManual:
  "catalogInv E db \<Longrightarrow> CreateManual E now m db = Inr (c, db') \<Longrightarrow> catalogInv E db'"
  by (auto simp only: CreateManual_def Let_def split: option.splits sum.splits
      dest: catalogInv_upsertCandidate catalogInv_saveEditTx)

section \<open>Runs of the store\<close>

inductive catalogStep :: "catalog_env \<Rightarrow> catalog_db \<Rightarrow> catalog_db \<Rightarrow> bool" for E where
  upsert: "Upsert (env_lib E) now c db = Inr (u, db') \<Longrightarrow> catalogStep E db db'"
| snapshot: "ReplaceSourceSnapshot (env_lib E) now s db = Inr (a, db') \<Longrightarrow> catalogStep E db db'"
| pin: "SetPinned (env_lib E) now i b related db = Inr (c, db') \<Longrightarrow> catalogStep E db db'"
| edit: "SaveEdit E i e db = Inr (u, db') \<Longrightarrow> catalogStep E db db'"
| lifecycle: "Lifecycle E i action db = Inr (u, db') \<Longrightarrow> catalogStep E db db'"
| manual: "CreateManual E now m db = Inr (c, db') \<Longrightarrow> catalogStep E db db'"

definition emptyCatalog :: catalog_db where
  "emptyCatalog = \<lparr>db_services = [], db_endpoints = [], db_edits = [], db_watermarks = [], db_icons = []\<rparr>"

lemma catalogInv_empty: "catalogInv E emptyCatalog"
  by (simp add: catalogInv_def emptyCatalog_def serviceHeads_def)

lemma catalogInv_step: "catalogStep E db db' \<Longrightarrow> catalogInv E db \<Longrightarrow> catalogInv E db'"
  by (induction rule: catalogStep.induct)
     (auto dest: catalogInv_Upsert catalogInv_Replace catalogInv_SetPinned catalogInv_SaveEdit
        catalogInv_Lifecycle catalogInv_CreateManual)

section \<open>What a snapshot changes\<close>

text \<open>The columns that only the user writes, and how an observation may change a row.\<close>

definition keepsLocal :: "discoveredServiceRow \<Rightarrow> discoveredServiceRow \<Rightarrow> bool" where
  "keepsLocal r r' \<longleftrightarrow>
     sv_ID r' = sv_ID r \<and> sv_Hidden r' = sv_Hidden r \<and> sv_PinnedAt r' = sv_PinnedAt r \<and>
     sv_CreatedAt r' = sv_CreatedAt r"

definition keepsRows :: "catalog_db \<Rightarrow> catalog_db \<Rightarrow> bool" where
  "keepsRows db db' \<longleftrightarrow>
     db_edits db' = db_edits db \<and> db_icons db' = db_icons db \<and>
     (\<forall>i r. getService i db = Some r \<longrightarrow> (\<exists>r'. getService i db' = Some r' \<and> keepsLocal r r'))"

lemma keepsRows_refl: "keepsRows db db"
  by (simp add: keepsRows_def keepsLocal_def)

lemma keepsRows_trans:
  assumes "keepsRows a b" and "keepsRows b c"
  shows "keepsRows a c"
proof -
  have "\<exists>r''. getService i c = Some r'' \<and> keepsLocal r r''" if "getService i a = Some r" for i r
  proof -
    from assms(1) that obtain r' where r': "getService i b = Some r'" "keepsLocal r r'"
      unfolding keepsRows_def by blast
    with assms(2) obtain r'' where "getService i c = Some r''" "keepsLocal r' r''"
      unfolding keepsRows_def by blast
    with r' show ?thesis by (auto simp: keepsLocal_def)
  qed
  with assms show ?thesis unfolding keepsRows_def by simp
qed

lemma keepsRows_setMissing: "keepsRows db (setMissing P b db)"
proof -
  have "getService i (setMissing P b db) = map_option (\<lambda>r. if P r then r\<lparr>sv_Missing := b\<rparr> else r) (getService i db)" for i
    unfolding setMissing_def by (simp add: tbl_get_update)
  then show ?thesis by (simp add: keepsRows_def keepsLocal_def setMissing_def)
qed

lemma write_tables:
  assumes "writeCandidate now c db = Inr db'"
  shows "db_services db' = tbl_upsert sv_ID mergeServiceRow (newServiceRow now c) (db_services db)"
    and "db_edits db' = db_edits db" and "db_icons db' = db_icons db" and "db_watermarks db' = db_watermarks db"
    and "db_endpoints db' = tbl_delete (\<lambda>(i, e). i = c_ID c) (db_endpoints db) @ map (\<lambda>e. (c_ID c, e)) (c_Endpoints c)"
  using assms by (auto simp: writeCandidate_def split: if_splits)

lemma newServiceRow_ID [simp]: "sv_ID (newServiceRow now c) = c_ID c"
  by (simp add: newServiceRow_def)

lemma keepsRows_write:
  assumes "writeCandidate now c db = Inr db'"
  shows "keepsRows db db'"
  unfolding keepsRows_def write_tables [OF assms]
  by (simp add: service_table.get_upsert keepsLocal_def mergeServiceRow_def)

lemma keepsRows_upsertCandidate: "upsertCandidate now c db = Inr db' \<Longrightarrow> keepsRows db db'"
  by (auto simp: upsertCandidate_def keepsRows_refl split: option.splits if_splits dest: keepsRows_write)

lemma keepsRows_storeCandidates: "storeCandidates now cs db = Inr db' \<Longrightarrow> keepsRows db db'"
proof (induction now cs db rule: storeCandidates.induct)
  case (1 now db)
  then show ?case by (simp add: keepsRows_refl)
next
  case (2 now c cs db)
  then obtain db1 where db1: "upsertCandidate now (c\<lparr>c_PinnedAt := None\<rparr>) db = Inr db1"
    and rest: "storeCandidates now cs (setMissing (\<lambda>r. sv_ID r = c_ID c) False db1) = Inr db'"
    by (auto split: sum.splits)
  from 2(1) [OF db1 rest] keepsRows_upsertCandidate [OF db1] keepsRows_setMissing keepsRows_trans
  show ?case by metis
qed

lemma keepsRows_applySnapshot:
  assumes "applySnapshot now s db = Inr (a, db')"
  shows "keepsRows db db'"
proof -
  from assms obtain db1 w where db1: "storeCandidates now (sn_Candidates s) db = Inr db1"
    and db': "db' = (markAbsentCandidates (sn_Source s) (map c_ID (sn_Candidates s)) db1)\<lparr>db_watermarks := w\<rparr>"
    by (auto simp: applySnapshot_def Let_def split: sum.splits)
  have "keepsRows db (x\<lparr>db_watermarks := w\<rparr>) = keepsRows db x" for x by (simp add: keepsRows_def)
  moreover have "keepsRows db1 (markAbsentCandidates (sn_Source s) (map c_ID (sn_Candidates s)) db1)"
    unfolding markAbsentCandidates_def by (rule keepsRows_setMissing)
  ultimately show ?thesis
    unfolding db' using keepsRows_trans [OF keepsRows_storeCandidates [OF db1]] by blast
qed

lemma Replace_cases:
  assumes "ReplaceSourceSnapshot L now s db = Inr (a, db')"
  shows "SnapshotValidate L s = None"
    and "applySnapshot now (SnapshotNormalize s) db = Inr (a, db') \<and>
           (\<forall>w. getWatermark (sn_Source (SnapshotNormalize s)) db = Some w \<longrightarrow>
              (\<exists>t. snd w = Some t \<and> t < sn_ObservedAt s)) \<or>
         db' = db \<and> \<not> ar_Applied a \<and>
           (\<exists>w t. getWatermark (sn_Source (SnapshotNormalize s)) db = Some w \<and> snd w = Some t \<and> sn_ObservedAt s \<le> t)"
proof -
  note r = assms [unfolded ReplaceSourceSnapshot_def Let_def SnapshotValidate_normalize]
  then show v: "SnapshotValidate L s = None" by (simp split: option.splits)
  note r' = r [unfolded v option.case]
  show "applySnapshot now (SnapshotNormalize s) db = Inr (a, db') \<and>
           (\<forall>w. getWatermark (sn_Source (SnapshotNormalize s)) db = Some w \<longrightarrow>
              (\<exists>t. snd w = Some t \<and> t < sn_ObservedAt s)) \<or>
         db' = db \<and> \<not> ar_Applied a \<and>
           (\<exists>w t. getWatermark (sn_Source (SnapshotNormalize s)) db = Some w \<and> snd w = Some t \<and> sn_ObservedAt s \<le> t)"
  proof (cases "getWatermark (sn_Source (SnapshotNormalize s)) db")
    case None
    with r' show ?thesis by simp
  next
    case (Some w)
    with r' show ?thesis
      by (cases w; cases "snd w") (auto split: if_splits)
  qed
qed

lemma keepsRows_Replace:
  assumes "ReplaceSourceSnapshot L now s db = Inr (a, db')"
  shows "keepsRows db db'"
  using Replace_cases(2) [OF assms] keepsRows_applySnapshot keepsRows_refl by blast

lemma getService_setMissing:
  "getService i (setMissing P b db) = map_option (\<lambda>r. if P r then r\<lparr>sv_Missing := b\<rparr> else r) (getService i db)"
  unfolding setMissing_def by (simp add: tbl_get_update)

lemma setMissing_tables [simp]:
  "db_watermarks (setMissing P b db) = db_watermarks db" "db_edits (setMissing P b db) = db_edits db"
  "db_endpoints (setMissing P b db) = db_endpoints db" "db_icons (setMissing P b db) = db_icons db"
  by (simp_all add: setMissing_def)

lemma upsertCandidate_get:
  assumes "upsertCandidate now c db = Inr db'"
  shows "i \<noteq> c_ID c \<Longrightarrow> getService i db' = getService i db"
    and "getService (c_ID c) db' \<noteq> None" and "db_watermarks db' = db_watermarks db"
proof -
  have "(i \<noteq> c_ID c \<longrightarrow> getService i db' = getService i db) \<and> getService (c_ID c) db' \<noteq> None \<and>
        db_watermarks db' = db_watermarks db"
    if "writeCandidate now c db = Inr db'"
    unfolding write_tables [OF that] by (simp add: service_table.get_upsert)
  with assms show "i \<noteq> c_ID c \<Longrightarrow> getService i db' = getService i db"
    and "getService (c_ID c) db' \<noteq> None" and "db_watermarks db' = db_watermarks db"
    by (auto simp: upsertCandidate_def split: option.splits if_splits)
qed

lemma storeCandidates_get:
  assumes "storeCandidates now cs db = Inr db'"
  shows "(i \<notin> c_ID ` set cs \<longrightarrow> getService i db' = getService i db) \<and>
         (i \<in> c_ID ` set cs \<longrightarrow> (\<exists>r. getService i db' = Some r \<and> \<not> sv_Missing r)) \<and>
         db_watermarks db' = db_watermarks db"
  using assms
proof (induction now cs db rule: storeCandidates.induct)
  case (2 now c cs db)
  then obtain db1 where db1: "upsertCandidate now (c\<lparr>c_PinnedAt := None\<rparr>) db = Inr db1"
    and rest: "storeCandidates now cs (setMissing (\<lambda>r. sv_ID r = c_ID c) False db1) = Inr db'"
    by (auto split: sum.splits)
  let ?db2 = "setMissing (\<lambda>r. sv_ID r = c_ID c) False db1"
  note IH = 2(1) [OF db1 rest]
  note up = upsertCandidate_get [OF db1, simplified]
  have other: "i \<noteq> c_ID c \<Longrightarrow> getService i ?db2 = getService i db"
    using up(1) [of i] tbl_get_Some [of sv_ID i "db_services db"]
    by (cases "getService i db") (auto simp: getService_setMissing)
  obtain r where r: "getService (c_ID c) db1 = Some r" using up(2) by blast
  then have "sv_ID r = c_ID c" by (rule tbl_get_key)
  with r have here: "getService (c_ID c) ?db2 = Some (r\<lparr>sv_Missing := False\<rparr>)"
    by (simp add: getService_setMissing)
  show ?case
  proof (cases "i \<in> c_ID ` set cs")
    case True
    with IH up(3) show ?thesis by simp
  next
    case False
    with IH up(3) other here show ?thesis by (cases "i = c_ID c") auto
  qed
qed simp

lemma applySnapshot_get:
  assumes "applySnapshot now s db = Inr (a, db')"
  shows "i \<in> c_ID ` set (sn_Candidates s) \<Longrightarrow> \<exists>r. getService i db' = Some r \<and> \<not> sv_Missing r"
    and "i \<notin> c_ID ` set (sn_Candidates s) \<Longrightarrow>
           getService i db' = map_option (\<lambda>r. if sv_Source r = sn_Source s then r\<lparr>sv_Missing := True\<rparr> else r) (getService i db)"
    and "getWatermark t db' = (if t = sn_Source s then Some (t, rfc3339 (sn_ObservedAt s)) else getWatermark t db)"
    and "a = \<lparr>ar_Applied = True, ar_Candidates = length (sn_Candidates s)\<rparr>"
proof -
  from assms obtain db1 where db1: "storeCandidates now (sn_Candidates s) db = Inr db1"
    and db': "db' = (let db2 = markAbsentCandidates (sn_Source s) (map c_ID (sn_Candidates s)) db1 in
       db2\<lparr>db_watermarks := tbl_upsert fst (\<lambda>old new. (fst old, snd new))
             (sn_Source s, rfc3339 (sn_ObservedAt s)) (db_watermarks db2)\<rparr>)"
    and a: "a = \<lparr>ar_Applied = True, ar_Candidates = length (sn_Candidates s)\<rparr>"
    by (auto simp: applySnapshot_def Let_def split: sum.splits)
  note st = storeCandidates_get [OF db1]
  have get: "getService i db' = map_option (\<lambda>r. if sv_Source r = sn_Source s \<and> sv_ID r \<notin> c_ID ` set (sn_Candidates s)
               then r\<lparr>sv_Missing := True\<rparr> else r) (getService i db1)" for i
    by (simp add: db' Let_def markAbsentCandidates_def getService_setMissing)
  show "i \<in> c_ID ` set (sn_Candidates s) \<Longrightarrow> \<exists>r. getService i db' = Some r \<and> \<not> sv_Missing r"
    using st [of i] get [of i] tbl_get_key [of sv_ID i "db_services db1"] by auto
  show "i \<notin> c_ID ` set (sn_Candidates s) \<Longrightarrow>
           getService i db' = map_option (\<lambda>r. if sv_Source r = sn_Source s then r\<lparr>sv_Missing := True\<rparr> else r) (getService i db)"
    using st [of i] get [of i] tbl_get_key [of sv_ID i "db_services db1"] by (cases "getService i db") auto
  show "getWatermark t db' = (if t = sn_Source s then Some (t, rfc3339 (sn_ObservedAt s)) else getWatermark t db)"
    using st tbl_get_key [of fst t "db_watermarks db"]
    by (cases "getWatermark t db")
       (auto simp: db' Let_def markAbsentCandidates_def watermark_table.get_upsert)
  show "a = \<lparr>ar_Applied = True, ar_Candidates = length (sn_Candidates s)\<rparr>" by (fact a)
qed

section \<open>What pins, actions and manual services change\<close>

definition pinRow :: "time \<Rightarrow> bool \<Rightarrow> discoveredServiceRow \<Rightarrow> discoveredServiceRow" where
  "pinRow now pinned r =
     (if pinned \<and> sv_PinnedAt r = None then r\<lparr>sv_PinnedAt := Some (rfc3339 now), sv_UpdatedAt := rfc3339 now\<rparr>
      else if \<not> pinned \<and> sv_PinnedAt r \<noteq> None then r\<lparr>sv_PinnedAt := None, sv_UpdatedAt := rfc3339 now\<rparr>
      else r)"

lemma pinRow_simps [simp]:
  "pinRow now b (pinRow now b r) = pinRow now b r" "sv_ID (pinRow now b r) = sv_ID r"
  "sv_Missing (pinRow now b r) = sv_Missing r" "sv_Hidden (pinRow now b r) = sv_Hidden r"
  "sv_PinnedAt (pinRow now b r) = None \<longleftrightarrow> \<not> b"
  by (auto simp: pinRow_def)

lemma getService_setPin:
  "getService k (setPin i p now db) =
     map_option (\<lambda>r. if sv_ID r = i then r\<lparr>sv_PinnedAt := p, sv_UpdatedAt := rfc3339 now\<rparr> else r) (getService k db)"
  unfolding setPin_def by (simp add: tbl_get_update)

lemma pinRows_get:
  assumes "pinRows now b ids db = Inr db'"
  shows "getService k db' = map_option (\<lambda>r. if k \<in> set ids then pinRow now b r else r) (getService k db) \<and>
         (k \<in> set ids \<longrightarrow> (\<exists>r. getService k db = Some r \<and> (b \<longrightarrow> \<not> sv_Missing r \<and> \<not> sv_Hidden r)))"
  using assms
proof (induction now b ids db rule: pinRows.induct)
  case (1 now b db)
  then show ?case by (cases "getService k db") auto
next
  case (2 now b i ids db)
  then obtain row where row: "getService i db = Some row" by (auto split: option.splits)
  have ok: "b \<Longrightarrow> \<not> sv_Missing row \<and> \<not> sv_Hidden row" using 2(2) row by (auto split: if_splits)
  define db2 where "db2 = (let db1 = (if b \<and> sv_PinnedAt row = None then setPin i (Some (rfc3339 now)) now db else db)
     in if \<not> b \<and> sv_PinnedAt row \<noteq> None then setPin i None now db1 else db1)"
  have run: "pinRows now b ids db2 = Inr db'"
    using 2(2) row ok by (auto simp: db2_def Let_def split: if_splits)
  have IH: "getService k db' = map_option (\<lambda>r. if k \<in> set ids then pinRow now b r else r) (getService k db2) \<and>
         (k \<in> set ids \<longrightarrow> (\<exists>r. getService k db2 = Some r \<and> (b \<longrightarrow> \<not> sv_Missing r \<and> \<not> sv_Hidden r)))"
    using 2(1) [OF row _ refl refl] run ok unfolding db2_def Let_def by blast
  have get2: "getService k db2 = map_option (\<lambda>r. if k = i then pinRow now b r else r) (getService k db)"
  proof (cases "getService k db")
    case None
    then show ?thesis by (simp add: db2_def Let_def getService_setPin)
  next
    case (Some r)
    then have "sv_ID r = k" by (rule tbl_get_key)
    moreover have "k = i \<Longrightarrow> r = row" using Some row by simp
    ultimately show ?thesis using Some by (auto simp: db2_def Let_def getService_setPin pinRow_def)
  qed
  show ?case
  proof (cases "getService k db")
    case None
    with IH get2 row show ?thesis by auto
  next
    case (Some r)
    with IH get2 row ok show ?thesis by (auto split: if_splits)
  qed
qed

lemma getService_setHidden:
  "getService k (setHidden i b db) = map_option (\<lambda>r. if k = i then r\<lparr>sv_Hidden := b\<rparr> else r) (getService k db)"
  using tbl_get_key [of sv_ID k "db_services db"]
  by (cases "getService k db") (auto simp: setHidden_def tbl_get_update)

lemma getService_purge:
  assumes "unique_key sv_ID (db_services db)"
  shows "getService k (purgeService i db) =
           (case getService k db of Some r \<Rightarrow> if k = i \<and> sv_Missing r then None else Some r | None \<Rightarrow> None)"
proof (cases "list_ex (\<lambda>r. sv_ID r = i \<and> sv_Missing r) (db_services db)")
  case True
  then show ?thesis
    using assms tbl_get_key [of sv_ID k "db_services db"]
    by (auto simp: purgeService_def tbl_get_delete split: option.splits)
next
  case False
  then show ?thesis
    using tbl_get_Some [of sv_ID k "db_services db"]
    by (cases "getService k db") (auto simp: purgeService_def list_ex_iff)
qed

text \<open>The row that an action leaves behind.\<close>

definition actionRow :: "string \<Rightarrow> discoveredServiceRow \<Rightarrow> discoveredServiceRow option" where
  "actionRow action r =
     (if action = ''hide'' then Some (r\<lparr>sv_Hidden := True\<rparr>)
      else if action = ''show'' then Some (r\<lparr>sv_Hidden := False\<rparr>)
      else if sv_Missing r then None else Some r)"

lemma actionRow_idem:
  assumes "actionRow action r = Some r'"
  shows "actionRow action r' = Some r'"
proof -
  have "case actionRow action r of None \<Rightarrow> True | Some q \<Rightarrow> actionRow action q = Some q"
    by (simp add: actionRow_def)
  then show ?thesis by (simp only: assms option.case)
qed

lemma applyAction_get:
  assumes "unique_key sv_ID (db_services db)"
  shows "getService k (applyAction action i db) =
           (case getService k db of Some r \<Rightarrow> if k = i then actionRow action r else Some r | None \<Rightarrow> None)"
  using getService_purge [OF assms, of k i]
  by (auto simp: applyAction_def actionRow_def getService_setHidden split: option.split)

lemma fold_applyAction_get:
  assumes "catalogInv E db"
  shows "getService k (fold (applyAction action) ids db) =
           (case getService k db of Some r \<Rightarrow> if k \<in> set ids then actionRow action r else Some r | None \<Rightarrow> None)"
  using assms
proof (induction ids arbitrary: db)
  case Nil
  then show ?case by (simp split: option.split)
next
  case (Cons i ids)
  note idem = actionRow_idem [of action]
  note IH = Cons.IH [OF catalogInv_applyAction [OF Cons.prems, of action i]]
  note one = applyAction_get [OF catalogInv_unique [OF Cons.prems], of k action i]
  show ?case
  proof (cases "getService k db")
    case None
    with IH one show ?thesis by simp
  next
    case (Some r)
    note r = this
    show ?thesis
    proof (cases "k = i")
      case True
      with IH one r idem [of r] show ?thesis by (cases "actionRow action r") simp_all
    next
      case False
      with IH one r show ?thesis by simp
    qed
  qed
qed

lemma candidateFromRow_fields:
  assumes "candidateFromRow L db row = Inr c"
  shows "c_ID c = sv_ID row" and "c_Source c = normalizeSource (sv_Source row)"
    and "c_Resource c = normalizeResource (sv_Resource row)"
    and "c_Missing c = sv_Missing row" and "c_Hidden c = sv_Hidden row"
    and "c_PinnedAt c \<noteq> None \<longleftrightarrow> sv_PinnedAt row \<noteq> None"
    and "c_Resources c = []" and "CandidateValidate L c = None"
    and "getEdit (sv_ID row) db = Some e \<Longrightarrow>
           c_DisplayName c = TrimSpace (se_DisplayName e) \<and> c_Description c = se_Description e \<and>
           c_Address c = se_Address e \<and> c_Icon c = se_IconRef e"
  using assms
  by (auto simp: candidateFromRow_def rowCandidate_def Let_def CandidateNormalize_def split: option.splits if_splits)

lemma saveEditTx_edit:
  assumes "saveEditTx E i edit db = Inr db'"
  shows "\<exists>e. getEdit i db' = Some e \<and> se_DisplayName e = e_DisplayName edit \<and>
             se_Description e = e_Description edit \<and> se_Address e = e_Address edit \<and>
             (\<forall>ref. e_Icon edit = Some ref \<longrightarrow> se_IconRef e = ref)"
    and "db_services db' = db_services db"
proof -
  let ?db1 = "saveServiceEdit i edit db"
  have "\<exists>e. getEdit i ?db1 = Some e \<and> se_DisplayName e = e_DisplayName edit \<and>
             se_Description e = e_Description edit \<and> se_Address e = e_Address edit"
    by (simp add: saveServiceEdit_def edit_table.get_upsert mergeEditRow_def split: option.split)
  then obtain e where e: "getEdit i ?db1 = Some e" "se_DisplayName e = e_DisplayName edit"
    "se_Description e = e_Description edit" "se_Address e = e_Address edit" by blast
  have "se_ServiceID e = i" using e(1) by (rule tbl_get_key)
  with e have icon: "getEdit i (setIconRef i ref ?db1) = Some (e\<lparr>se_IconRef := ref\<rparr>)" for ref
    by (simp add: setIconRef_def tbl_get_update)
  have d: "db' = ?db1 \<and> e_Icon edit = None \<or> (\<exists>ref. db' = setIconRef i ref ?db1 \<and> e_Icon edit = Some ref)"
    using assms by (auto simp: saveEditTx_def Let_def split: option.splits if_splits)
  with e icon show "\<exists>e. getEdit i db' = Some e \<and> se_DisplayName e = e_DisplayName edit \<and>
             se_Description e = e_Description edit \<and> se_Address e = e_Address edit \<and>
             (\<forall>ref. e_Icon edit = Some ref \<longrightarrow> se_IconRef e = ref)" by auto
  from d show "db_services db' = db_services db" by (auto simp: setIconRef_def saveServiceEdit_def)
qed

section \<open>A run to evaluate\<close>

definition evalEnv :: catalog_env where
  "evalEnv = \<lparr>env_lib = evalLib, env_exposures = (\<lambda>_. None), env_icon = (\<lambda>_. False)\<rparr>"

definition dbAfter :: "'a store_result \<Rightarrow> catalog_db" where
  "dbAfter r = (case r of Inr (_, db) \<Rightarrow> db | Inl _ \<Rightarrow> emptyCatalog)"

definition evalDb :: catalog_db where
  "evalDb = dbAfter (ReplaceSourceSnapshot evalLib 10 evalSnapshot emptyCatalog)"

lemma evalDb_run:
  "ReplaceSourceSnapshot evalLib 10 evalSnapshot emptyCatalog = Inr (\<lparr>ar_Applied = True, ar_Candidates = 2\<rparr>, evalDb)"
  by code_simp

lemma evalDb_inv: "catalogInv evalEnv evalDb"
  by (rule catalogInv_Replace [OF catalogInv_empty evalDb_run])

definition evalHidden :: catalog_db where
  "evalHidden = dbAfter (Lifecycle evalEnv (c_ID (evalCandidate ''db'')) ''hide'' evalDb)"

lemma evalHidden_run: "Lifecycle evalEnv (c_ID (evalCandidate ''db'')) ''hide'' evalDb = Inr ((), evalHidden)"
  by code_simp

definition evalLater :: Snapshot where
  "evalLater = \<lparr>sn_Source = evalSource, sn_Candidates = [(evalCandidate ''web'')\<lparr>c_ObservedAt := 8\<rparr>], sn_ObservedAt = 9\<rparr>"

definition evalDb2 :: catalog_db where
  "evalDb2 = dbAfter (ReplaceSourceSnapshot evalLib 12 evalLater evalHidden)"

lemma evalDb2_run:
  "ReplaceSourceSnapshot evalLib 12 evalLater evalHidden = Inr (\<lparr>ar_Applied = True, ar_Candidates = 1\<rparr>, evalDb2)"
  by code_simp

section \<open>Properties\<close>

text \<open>
  C1. Every reachable state of the catalogue keeps its keys, its foreign keys, the uniqueness of
  source and resource, and icon references that name an existing icon, whatever sequence of discovery,
  pinning, editing, hiding, purging and manual creation led to it.
\<close>

theorem catalog_reachable_inv:
  assumes "(catalogStep E)\<^sup>*\<^sup>* db db'" and "catalogInv E db"
  shows "catalogInv E db'"
  using assms by (induction rule: rtranclp_induct) (auto intro: catalogInv_step)

theorem catalog_reachable_inv_witness:
  "catalogInv evalEnv evalHidden \<and> length (db_services evalHidden) = 2"
proof -
  have env: "env_lib evalEnv = evalLib" by (simp add: evalEnv_def)
  have "catalogStep evalEnv emptyCatalog evalDb" by (rule catalogStep.snapshot) (use env evalDb_run in simp)
  moreover have "catalogStep evalEnv evalDb evalHidden" by (rule catalogStep.lifecycle [OF evalHidden_run])
  ultimately have "(catalogStep evalEnv)\<^sup>*\<^sup>* emptyCatalog evalHidden" by simp
  from catalog_reachable_inv [OF this catalogInv_empty] show ?thesis by (intro conjI) (assumption, code_simp)
qed

text \<open>
  C2. Discovery never touches what the user decided: after any snapshot every row is still there,
  with its hidden flag, its pin and its creation time, and all edits and icons are unchanged.
\<close>

theorem discovery_keeps_local_choices:
  assumes "ReplaceSourceSnapshot L now s db = Inr (a, db')"
  shows "db_edits db' = db_edits db \<and> db_icons db' = db_icons db \<and>
         (\<forall>i r. getService i db = Some r \<longrightarrow>
            (\<exists>r'. getService i db' = Some r' \<and> sv_Hidden r' = sv_Hidden r \<and> sv_PinnedAt r' = sv_PinnedAt r \<and>
                  sv_CreatedAt r' = sv_CreatedAt r))"
  using keepsRows_Replace [OF assms] unfolding keepsRows_def keepsLocal_def by blast

theorem discovery_keeps_local_choices_witness:
  "\<exists>r'. getService (c_ID (evalCandidate ''db'')) evalDb2 = Some r' \<and> sv_Hidden r'"
proof -
  have "\<exists>r. getService (c_ID (evalCandidate ''db'')) evalHidden = Some r \<and> sv_Hidden r"
    by (rule exI [of _ "the (getService (c_ID (evalCandidate ''db'')) evalHidden)"]) code_simp
  then obtain r where "getService (c_ID (evalCandidate ''db'')) evalHidden = Some r" "sv_Hidden r" by blast
  with discovery_keeps_local_choices [OF evalDb2_run] show ?thesis by blast
qed

text \<open>
  C4. An applied snapshot makes exactly its candidates present: each of them has a row that is not
  missing, every other row of its source becomes missing and is otherwise unchanged, rows of other
  sources are untouched, and the source's watermark is the snapshot's time.
\<close>

theorem snapshot_marks_presence:
  assumes "ReplaceSourceSnapshot L now s db = Inr (a, db')" and "ar_Applied a"
  shows "let ids = c_ID ` set (sn_Candidates s); source = normalizeSource (sn_Source s) in
           (\<forall>i \<in> ids. \<exists>r. getService i db' = Some r \<and> \<not> sv_Missing r) \<and>
           (\<forall>i. i \<notin> ids \<longrightarrow> getService i db' =
              map_option (\<lambda>r. if sv_Source r = source then r\<lparr>sv_Missing := True\<rparr> else r) (getService i db)) \<and>
           (\<forall>t. getWatermark t db' = (if t = source then Some (t, rfc3339 (sn_ObservedAt s)) else getWatermark t db))"
proof -
  from Replace_cases(2) [OF assms(1)] assms(2) have "applySnapshot now (SnapshotNormalize s) db = Inr (a, db')"
    by blast
  note ap = applySnapshot_get [OF this, unfolded SnapshotNormalize_fields set_map image_image CandidateNormalize_fields]
  show ?thesis unfolding Let_def by (intro conjI allI ballI impI ap) assumption+
qed

theorem snapshot_marks_presence_witness:
  "\<exists>r. getService (c_ID (evalCandidate ''web'')) evalDb2 = Some r \<and> \<not> sv_Missing r"
  using snapshot_marks_presence [OF evalDb2_run]
  by (simp add: Let_def evalLater_def)

text \<open>
  C5. A snapshot that is not newer than the last applied one of its source is acknowledged with its
  candidate count and changes nothing; in particular applying a snapshot twice equals applying it once.
\<close>

theorem snapshot_replay_changes_nothing:
  assumes "ReplaceSourceSnapshot L now s db = Inr (a, db')" and "ar_Applied a" and "rfc3339 (sn_ObservedAt s) \<noteq> None"
    and "SnapshotValidate L s2 = None" and "normalizeSource (sn_Source s2) = normalizeSource (sn_Source s)"
    and "sn_ObservedAt s2 \<le> sn_ObservedAt s"
  shows "ReplaceSourceSnapshot L now2 s2 db' =
           Inr (\<lparr>ar_Applied = False, ar_Candidates = length (sn_Candidates s2)\<rparr>, db')"
proof -
  from Replace_cases(2) [OF assms(1)] assms(2) have "applySnapshot now (SnapshotNormalize s) db = Inr (a, db')"
    by blast
  from applySnapshot_get(3) [OF this, of "normalizeSource (sn_Source s)"] assms(3)
  have "getWatermark (normalizeSource (sn_Source s)) db' =
          Some (normalizeSource (sn_Source s), Some (sn_ObservedAt s))"
    using rfc3339_Some [of "sn_ObservedAt s"] by auto
  with assms(4-6) show ?thesis by (simp add: ReplaceSourceSnapshot_def Let_def)
qed

theorem snapshot_replay_changes_nothing_witness:
  "ReplaceSourceSnapshot evalLib 13 evalSnapshot evalDb2 = Inr (\<lparr>ar_Applied = False, ar_Candidates = 2\<rparr>, evalDb2)"
proof -
  have "rfc3339 (sn_ObservedAt evalLater) \<noteq> None" by code_simp
  moreover have "normalizeSource (sn_Source evalSnapshot) = normalizeSource (sn_Source evalLater)"
    by (simp add: evalSnapshot_def evalLater_def)
  moreover have "sn_ObservedAt evalSnapshot \<le> sn_ObservedAt evalLater"
    by (simp add: evalSnapshot_def evalLater_def)
  moreover have "length (sn_Candidates evalSnapshot) = 2" by (simp add: evalSnapshot_def)
  ultimately show ?thesis
    using snapshot_replay_changes_nothing [OF evalDb2_run, of evalSnapshot 13] evalSnapshot_valid by simp
qed

text \<open>
  C11. A lifecycle action changes exactly its targets: hiding and showing set their hidden flag,
  a purge deletes those of them that are missing, and no other row changes.
\<close>

theorem lifecycle_changes_only_targets:
  assumes "catalogInv E db" and "Lifecycle E i action db = Inr (u, db')"
  shows "\<exists>observations ids.
           candidatesFromRows (env_lib E) db (orderedServices db) = Inr observations \<and>
           LifecycleTargets (env_lib E) (env_exposures E) observations i action = Inr ids \<and>
           (\<forall>k. getService k db' =
              (case getService k db of
                 Some r \<Rightarrow> if k \<in> set ids then actionRow action r else Some r
               | None \<Rightarrow> None))"
proof -
  from assms(2) obtain observations ids where
    "candidatesFromRows (env_lib E) db (orderedServices db) = Inr observations"
    "LifecycleTargets (env_lib E) (env_exposures E) observations i action = Inr ids"
    "db' = fold (applyAction action) ids db"
    by (auto simp: Lifecycle_def split: sum.splits)
  with fold_applyAction_get [OF assms(1)] show ?thesis by blast
qed

theorem lifecycle_changes_only_targets_witness:
  "getService (c_ID (evalCandidate ''web'')) evalHidden = getService (c_ID (evalCandidate ''web'')) evalDb"
proof -
  have obs: "LifecycleTargets evalLib (\<lambda>_. None)
       (case candidatesFromRows evalLib evalDb (orderedServices evalDb) of Inr cs \<Rightarrow> cs | Inl _ \<Rightarrow> [])
       (c_ID (evalCandidate ''db'')) ''hide'' = Inr [c_ID (evalCandidate ''db'')]"
    by code_simp
  have "c_ID (evalCandidate ''web'') \<noteq> c_ID (evalCandidate ''db'')" by code_simp
  with lifecycle_changes_only_targets [OF evalDb_inv evalHidden_run] obs show ?thesis
    by (cases "getService (c_ID (evalCandidate ''web'')) evalDb") (auto simp: evalEnv_def)
qed

definition evalManual :: "string \<Rightarrow> ManualService" where
  "evalManual name =
     \<lparr>m_RequestID = ''00112233445566778899aabbccddeeff'',
      m_Edit = \<lparr>e_DisplayName = name, e_Description = [], e_Address = ''http://nas'', e_Icon = None\<rparr>\<rparr>"

text \<open>
  Creating a manual service is idempotent per request key: a second call with the same key, in
  any letter case and with any other edit, returns the stored record and changes nothing.
\<close>

theorem create_manual_idempotent:
  assumes "CreateManual E now m db = Inr (c, db')"
    and "ManualValidate (env_lib E) (m2\<lparr>m_Edit := EditNormalize (m_Edit m2)\<rparr>) = None"
    and "ToLower (m_RequestID m2) = ToLower (m_RequestID m)"
  shows "CreateManual E now2 m2 db' = Inr (c, db')"
proof -
  let ?L = "env_lib E"
  let ?n = "m\<lparr>m_Edit := EditNormalize (m_Edit m)\<rparr>" and ?n2 = "m2\<lparr>m_Edit := EditNormalize (m_Edit m2)\<rparr>"
  have same: "c_ID (manualCandidate ?L now2 ?n2) = c_ID (manualCandidate ?L now ?n)"
    using assms(3) by (simp add: manualCandidate_def NewCandidate_def Let_def)
  from assms(1) obtain row where row: "getService (c_ID (manualCandidate ?L now ?n)) db' = Some row"
    and c: "candidateFromRow ?L db' row = Inr c"
    by (auto simp: CreateManual_def Let_def split: option.splits sum.splits)
  with assms(2) same show ?thesis by (simp add: CreateManual_def Let_def)
qed

theorem create_manual_idempotent_witness:
  "case CreateManual evalEnv 20 (evalManual ''NAS'') evalDb of
     Inr (c, db') \<Rightarrow> CreateManual evalEnv 30 (evalManual ''Other'') db' = Inr (c, db') \<and> c_DisplayName c = ''NAS''
   | Inl _ \<Rightarrow> False"
proof -
  have ok: "case CreateManual evalEnv 20 (evalManual ''NAS'') evalDb of
        Inr (c, db') \<Rightarrow> c_DisplayName c = ''NAS'' | Inl _ \<Rightarrow> False" by code_simp
  have v: "ManualValidate (env_lib evalEnv)
     ((evalManual ''Other'')\<lparr>m_Edit := EditNormalize (m_Edit (evalManual ''Other''))\<rparr>) = None" by code_simp
  have "ToLower (m_RequestID (evalManual ''Other'')) = ToLower (m_RequestID (evalManual ''NAS''))"
    by (simp add: evalManual_def)
  with ok show ?thesis
    using create_manual_idempotent [where E = evalEnv and now = 20 and m = "evalManual ''NAS''" and db = evalDb
        and ?m2.0 = "evalManual ''Other''" and ?now2.0 = 30] v
    by (auto split: sum.splits)
qed

text \<open>
  Pinning succeeds only on rows that are neither missing nor hidden, pins the row without
  moving an existing pin, and pinning again changes nothing; unpinning clears the pin of the row and
  of every related row it names, and of no other.
\<close>

theorem set_pinned_effect:
  assumes "SetPinned L now i b related db = Inr (c, db')"
  shows "c_ID c = TrimSpace i \<and> (c_PinnedAt c \<noteq> None \<longleftrightarrow> b) \<and>
         (\<forall>k. getService k db' =
            map_option (\<lambda>r. if k \<in> set (TrimSpace i # related) then pinRow now b r else r) (getService k db)) \<and>
         (\<forall>k \<in> set (TrimSpace i # related).
            \<exists>r. getService k db = Some r \<and> (b \<longrightarrow> \<not> sv_Missing r \<and> \<not> sv_Hidden r))"
proof -
  let ?ids = "TrimSpace i # related"
  from assms have run: "pinRows now b ?ids db = Inr db'"
    by (auto simp only: SetPinned_def Let_def split: if_splits sum.splits option.splits)
  from assms obtain row where row: "getService (TrimSpace i) db' = Some row" and c: "candidateFromRow L db' row = Inr c"
    by (auto simp only: SetPinned_def Let_def split: if_splits sum.splits option.splits)
  note get = pinRows_get [OF run]
  from get [of "TrimSpace i"] row obtain r where "row = pinRow now b r" by auto
  then have "sv_PinnedAt row \<noteq> None \<longleftrightarrow> b" by simp
  then have "c_PinnedAt c \<noteq> None \<longleftrightarrow> b" using candidateFromRow_fields(6) [OF c] by blast
  moreover have "c_ID c = TrimSpace i" using candidateFromRow_fields(1) [OF c] tbl_get_key [OF row] by simp
  ultimately show ?thesis using get by blast
qed

theorem set_pinned_effect_witness:
  "case SetPinned evalLib 20 (c_ID (evalCandidate ''web'')) True [] evalDb of
     Inr (c, db') \<Rightarrow> c_PinnedAt c \<noteq> None \<and> c_ID c = TrimSpace (c_ID (evalCandidate ''web''))
   | Inl _ \<Rightarrow> False"
proof -
  have "case SetPinned evalLib 20 (c_ID (evalCandidate ''web'')) True [] evalDb of
     Inr (c, db') \<Rightarrow> True | Inl _ \<Rightarrow> False" by code_simp
  then show ?thesis
    using set_pinned_effect [where L = evalLib and now = 20 and i = "c_ID (evalCandidate ''web'')" and b = True
        and related = "[]" and db = evalDb]
    by (auto split: sum.splits)
qed

text \<open>
  A saved edit is what readers see, and it stays so through later discovery: the name,
  description and address of the candidate read back are the edit's, trimmed.
\<close>

theorem edit_survives_discovery:
  assumes "SaveEdit E i edit db = Inr (u, db1)" and "ReplaceSourceSnapshot L now s db1 = Inr (a, db2)"
    and "getService i db2 = Some row" and "candidateFromRow L db2 row = Inr c"
  shows "c_DisplayName c = TrimSpace (e_DisplayName edit) \<and> c_Description c = TrimSpace (e_Description edit) \<and>
         c_Address c = TrimSpace (e_Address edit)"
proof -
  from assms(1) have "saveEditTx E i (EditNormalize edit) db = Inr db1"
    by (auto simp: SaveEdit_def Let_def split: option.splits sum.splits)
  from saveEditTx_edit(1) [OF this] obtain e where e: "getEdit i db1 = Some e"
    "se_DisplayName e = TrimSpace (e_DisplayName edit)" "se_Description e = TrimSpace (e_Description edit)"
    "se_Address e = TrimSpace (e_Address edit)" by (auto simp: EditNormalize_def)
  have "getEdit i db2 = Some e" using keepsRows_Replace [OF assms(2)] e(1) by (simp add: keepsRows_def)
  moreover have "sv_ID row = i" using assms(3) by (rule tbl_get_key)
  ultimately show ?thesis using candidateFromRow_fields(9) [OF assms(4), of e] e by simp
qed

definition evalEdit :: Edit where
  "evalEdit = \<lparr>e_DisplayName = '' My site '', e_Description = [], e_Address = [], e_Icon = None\<rparr>"

definition evalEdited :: catalog_db where
  "evalEdited = dbAfter (SaveEdit evalEnv (c_ID (evalCandidate ''web'')) evalEdit evalDb)"

definition evalDb3 :: catalog_db where
  "evalDb3 = dbAfter (ReplaceSourceSnapshot evalLib 12 evalLater evalEdited)"

definition evalRow :: discoveredServiceRow where
  "evalRow = the (getService (c_ID (evalCandidate ''web'')) evalDb3)"

definition evalSeen :: Candidate where
  "evalSeen = (case candidateFromRow evalLib evalDb3 evalRow of Inr c \<Rightarrow> c | Inl _ \<Rightarrow> evalCandidate [])"

theorem edit_survives_discovery_witness:
  "c_DisplayName evalSeen = ''My site'' \<and> c_Address evalSeen = []"
proof -
  let ?i = "c_ID (evalCandidate ''web'')"
  have 1: "SaveEdit evalEnv ?i evalEdit evalDb = Inr ((), evalEdited)" by code_simp
  have 2: "ReplaceSourceSnapshot evalLib 12 evalLater evalEdited = Inr (\<lparr>ar_Applied = True, ar_Candidates = 1\<rparr>, evalDb3)"
    by code_simp
  have 3: "getService ?i evalDb3 = Some evalRow" by code_simp
  have 4: "candidateFromRow evalLib evalDb3 evalRow = Inr evalSeen" by code_simp
  have "TrimSpace (e_DisplayName evalEdit) = ''My site''" "TrimSpace (e_Address evalEdit) = []" by code_simp+
  with edit_survives_discovery [OF 1 2 3 4] show ?thesis by simp
qed

end
