(* ===== verification/CatalogService.thy ===== *)
theory CatalogService
  imports CatalogStore
begin

text \<open>
  The catalogue's use cases (\<open>internal/application/catalog/service.go\<close>, and the methods \<open>Edit\<close> and
  \<open>CreateManual\<close> of \<open>edit.go\<close> and \<open>manual.go\<close>) over the interface \<open>CatalogStore\<close>: the record
  \<open>catalog_store\<close> holds the operations of the interface, the service's functions take it as an
  argument, and the locale \<open>catalog_store_contract\<close> states what the service relies on. The SQLite
  store of the previous theory is an instance.

  A discoverer is its name, the source it provides (if it is a \<open>SourceProvider\<close>) and what its call to
  \<open>Discover\<close> returned, \<open>None\<close> for an error. A publisher is the outcome of each \<open>Publish\<close> call. \<open>Sync\<close>
  commits each snapshot on its own, so it returns the database it reached also with an error.
\<close>

section \<open>Interfaces\<close>

record 'db catalog_store =
  st_CreateManual :: "time \<Rightarrow> ManualService \<Rightarrow> 'db \<Rightarrow> (catalog_error, Candidate \<times> 'db) result"
  st_Lifecycle :: "string \<Rightarrow> string \<Rightarrow> 'db \<Rightarrow> (catalog_error, unit \<times> 'db) result"
  st_ReplaceSourceSnapshot :: "time \<Rightarrow> Snapshot \<Rightarrow> 'db \<Rightarrow> (catalog_error, SnapshotApplyResult \<times> 'db) result"
  st_List :: "bool \<Rightarrow> 'db \<Rightarrow> (catalog_error, Candidate list) result"
  st_SetPinned :: "time \<Rightarrow> string \<Rightarrow> bool \<Rightarrow> string list \<Rightarrow> 'db \<Rightarrow> (catalog_error, Candidate \<times> 'db) result"
  st_SaveEdit :: "string \<Rightarrow> Edit \<Rightarrow> 'db \<Rightarrow> (catalog_error, unit \<times> 'db) result"

record Discoverer =
  di_Name :: string
  di_Source :: "SourceRef option"
  di_Discover :: "Candidate list option"

record SyncResult =
  sy_Sources :: nat
  sy_Candidates :: nat

section \<open>Reading and pinning\<close>

definition ListStaging :: "catalog_env \<Rightarrow> 'db catalog_store \<Rightarrow> 'db \<Rightarrow> (catalog_error, Candidate list) result" where
  "ListStaging E st db =
     (case st_List st False db of
        Inl e \<Rightarrow> Inl e
      | Inr cs \<Rightarrow> Inr (groupCandidates (env_lib E) (env_exposures E) cs))"

definition ListHomepage :: "catalog_env \<Rightarrow> 'db catalog_store \<Rightarrow> 'db \<Rightarrow> (catalog_error, Candidate list) result" where
  "ListHomepage E st db =
     (case st_List st False db of
        Inl e \<Rightarrow> Inl e
      | Inr cs \<Rightarrow> Inr (HomepageCandidates (env_lib E) (env_exposures E) cs))"

definition Pin :: "catalog_env \<Rightarrow> 'db catalog_store \<Rightarrow> time \<Rightarrow> string \<Rightarrow> 'db \<Rightarrow> (catalog_error, Candidate \<times> 'db) result" where
  "Pin E st now i db =
     (case ListStaging E st db of
        Inl e \<Rightarrow> Inl e
      | Inr groups \<Rightarrow>
          (case find (\<lambda>c. c_ID c = i) groups of
             None \<Rightarrow> Inl ErrNotFound
           | Some c \<Rightarrow> if Status c \<noteq> ''live'' then Inl ErrConflict else st_SetPinned st now i True [] db))"

definition relatedPins :: "string \<Rightarrow> Candidate \<Rightarrow> Candidate list \<Rightarrow> string list" where
  "relatedPins i g observations =
     map c_ID (filter (\<lambda>m. c_ID m \<noteq> i \<and> c_Source m = c_Source g \<and>
                           c_Resource m \<in> ro_Resource ` set (c_Resources g) \<and> c_PinnedAt m \<noteq> None) observations)"

definition Unpin :: "catalog_env \<Rightarrow> 'db catalog_store \<Rightarrow> time \<Rightarrow> string \<Rightarrow> 'db \<Rightarrow> (catalog_error, Candidate \<times> 'db) result" where
  "Unpin E st now i db =
     (case st_List st False db of
        Inl e \<Rightarrow> Inl e
      | Inr observations \<Rightarrow>
          let related = (case find (\<lambda>g. c_ID g = i) (groupCandidates (env_lib E) (env_exposures E) observations) of
                           None \<Rightarrow> [] | Some g \<Rightarrow> relatedPins i g observations)
          in st_SetPinned st now i False related db)"

definition serviceEdit :: "catalog_env \<Rightarrow> 'db catalog_store \<Rightarrow> string \<Rightarrow> Edit \<Rightarrow> 'db \<Rightarrow> (catalog_error, unit \<times> 'db) result" where
  "serviceEdit E st i e0 db =
     (let e = EditNormalize e0 in
      case EditValidate (env_lib E) e of Some err \<Rightarrow> Inl err | None \<Rightarrow> st_SaveEdit st i e db)"

definition serviceCreateManual ::
  "catalog_env \<Rightarrow> 'db catalog_store \<Rightarrow> time \<Rightarrow> ManualService \<Rightarrow> 'db \<Rightarrow> (catalog_error, Candidate \<times> 'db) result" where
  "serviceCreateManual E st now m0 db =
     (let m = m0\<lparr>m_Edit := EditNormalize (m_Edit m0)\<rparr> in
      case ManualValidate (env_lib E) m of Some err \<Rightarrow> Inl err | None \<Rightarrow> st_CreateManual st now m db)"

definition serviceLifecycle :: "'db catalog_store \<Rightarrow> string \<Rightarrow> string \<Rightarrow> 'db \<Rightarrow> (catalog_error, unit \<times> 'db) result" where
  "serviceLifecycle st i action db = st_Lifecycle st i action db"

section \<open>Snapshots\<close>

definition sourceKey :: "Candidate \<Rightarrow> string" where
  "sourceKey c = nulJoin (src_Kind (c_Source c)) (src_ID (c_Source c))"

definition sourceBatches :: "time \<Rightarrow> Candidate list \<Rightarrow> Snapshot list" where
  "sourceBatches now cs =
     map (\<lambda>(k, ms). \<lparr>sn_Source = c_Source (hd ms), sn_Candidates = ms, sn_ObservedAt = now\<rparr>)
       (sort_key fst (collectBy sourceKey cs))"

definition snapshotBatches :: "time \<Rightarrow> Discoverer \<Rightarrow> Candidate list \<Rightarrow> (catalog_error, Snapshot list) result" where
  "snapshotBatches now d candidates =
     (let cs = map CandidateNormalize candidates in
      case di_Source d of
        None \<Rightarrow> Inr (sourceBatches now cs)
      | Some source0 \<Rightarrow>
          let source = normalizeSource source0 in
          if src_Kind source = [] \<or> src_ID source = [] then Inl DiscovererSourceEmpty
          else if list_ex (\<lambda>c. c_Source c \<noteq> source) cs then Inl DiscovererSourceMismatch
          else if candidates = []
          then Inr [\<lparr>sn_Source = source, sn_Candidates = [], sn_ObservedAt = now\<rparr>]
          else Inr (sourceBatches now cs))"

fun storeBatches ::
  "'db catalog_store \<Rightarrow> time \<Rightarrow> string \<Rightarrow> Snapshot list \<Rightarrow> Snapshot list \<Rightarrow> SyncResult \<Rightarrow> 'db \<Rightarrow>
   catalog_error option \<times> Snapshot list \<times> SyncResult \<times> 'db" where
  "storeBatches st now name [] applied res db = (None, applied, res, db)"
| "storeBatches st now name (s # ss) applied res db =
     (case st_ReplaceSourceSnapshot st now s db of
        Inl e \<Rightarrow> (Some (StoreFailed name e), applied, res, db)
      | Inr (a, db') \<Rightarrow>
          storeBatches st now name ss (if ar_Applied a then applied @ [s] else applied)
            (res\<lparr>sy_Candidates := sy_Candidates res + ar_Candidates a\<rparr>) db')"

fun publishAll :: "(Snapshot \<Rightarrow> bool) \<Rightarrow> string \<Rightarrow> Snapshot list \<Rightarrow> catalog_error option" where
  "publishAll publish name [] = None"
| "publishAll publish name (s # ss) =
     (if publish s then publishAll publish name ss else Some (PublishFailed name))"

definition syncOne ::
  "'db catalog_store \<Rightarrow> (Snapshot \<Rightarrow> bool) option \<Rightarrow> time \<Rightarrow> Discoverer \<Rightarrow> SyncResult \<Rightarrow> 'db \<Rightarrow>
   catalog_error option \<times> SyncResult \<times> 'db" where
  "syncOne st publisher now d res0 db =
     (let res = res0\<lparr>sy_Sources := sy_Sources res0 + 1\<rparr> in
      case di_Discover d of
        None \<Rightarrow> (Some (DiscoverFailed (di_Name d)), res, db)
      | Some candidates \<Rightarrow>
          (case snapshotBatches now d candidates of
             Inl e \<Rightarrow> (Some (PrepareFailed (di_Name d) e), res, db)
           | Inr batches \<Rightarrow>
               (case storeBatches st now (di_Name d) (map (\<lambda>s. s\<lparr>sn_ObservedAt := now\<rparr>) batches) [] res db of
                  (Some e, _, res', db') \<Rightarrow> (Some e, res', db')
                | (None, applied, res', db') \<Rightarrow>
                    (case publisher of
                       None \<Rightarrow> (None, res', db')
                     | Some publish \<Rightarrow> (publishAll publish (di_Name d) applied, res', db')))))"

fun syncAll ::
  "'db catalog_store \<Rightarrow> (Snapshot \<Rightarrow> bool) option \<Rightarrow> time \<Rightarrow> Discoverer list \<Rightarrow> SyncResult \<Rightarrow> 'db \<Rightarrow>
   catalog_error option \<times> SyncResult \<times> 'db" where
  "syncAll st publisher now [] res db = (None, res, db)"
| "syncAll st publisher now (d # ds) res db =
     (case syncOne st publisher now d res db of
        (Some e, res', db') \<Rightarrow> (Some e, res', db')
      | (None, res', db') \<Rightarrow> syncAll st publisher now ds res' db')"

definition Sync ::
  "'db catalog_store \<Rightarrow> (Snapshot \<Rightarrow> bool) option \<Rightarrow> time \<Rightarrow> Discoverer list \<Rightarrow> 'db \<Rightarrow>
   catalog_error option \<times> SyncResult \<times> 'db" where
  "Sync st publisher now ds db = syncAll st publisher now ds \<lparr>sy_Sources = 0, sy_Candidates = 0\<rparr> db"

definition ImportSnapshot ::
  "catalog_env \<Rightarrow> 'db catalog_store \<Rightarrow> time \<Rightarrow> Snapshot \<Rightarrow> 'db \<Rightarrow> (catalog_error, SyncResult \<times> 'db) result" where
  "ImportSnapshot E st now s0 db =
     (let s = SnapshotNormalize s0 in
      case SnapshotValidate (env_lib E) s of
        Some e \<Rightarrow> Inl (ErrInvalidSnapshot e)
      | None \<Rightarrow>
          (case st_ReplaceSourceSnapshot st now
                  (s\<lparr>sn_Candidates := map (\<lambda>c. c\<lparr>c_PinnedAt := None\<rparr>) (sn_Candidates s)\<rparr>) db of
             Inl e \<Rightarrow> Inl (StoreFailed [] e)
           | Inr (a, db') \<Rightarrow> Inr (\<lparr>sy_Sources = 1, sy_Candidates = ar_Candidates a\<rparr>, db')))"

section \<open>The contract of the store\<close>

text \<open>
  \<open>inv\<close> is the invariant of the store's state and \<open>pinnedIn\<close> tells whether an identifier is pinned
  in it. The laws: every operation keeps the invariant; a snapshot is validated and counted;
  \<open>SetPinned\<close> pins or unpins exactly the identifiers it is given and leaves the others; a
  listing shows the pins and has one entry per identifier.
\<close>

locale catalog_store_contract =
  fixes st :: "'db catalog_store" and inv :: "'db \<Rightarrow> bool" and pinnedIn :: "'db \<Rightarrow> string \<Rightarrow> bool"
  assumes replace_inv: "inv db \<Longrightarrow> st_ReplaceSourceSnapshot st now s db = Inr (a, db') \<Longrightarrow> inv db'"
    and replace_count: "st_ReplaceSourceSnapshot st now s db = Inr (a, db') \<Longrightarrow> ar_Candidates a = length (sn_Candidates s)"
    and replace_pins: "inv db \<Longrightarrow> st_ReplaceSourceSnapshot st now s db = Inr (a, db') \<Longrightarrow> pinnedIn db' i = pinnedIn db i"
    and pin_inv: "inv db \<Longrightarrow> st_SetPinned st now i b related db = Inr (c, db') \<Longrightarrow> inv db'"
    and pin_effect: "inv db \<Longrightarrow> st_SetPinned st now i b related db = Inr (c, db') \<Longrightarrow>
          pinnedIn db' k = (if k \<in> set (TrimSpace i # related) then b else pinnedIn db k)"
    and list_pins: "inv db \<Longrightarrow> st_List st False db = Inr cs \<Longrightarrow> c \<in> set cs \<Longrightarrow>
          pinnedIn db (c_ID c) = (c_PinnedAt c \<noteq> None)"
begin

lemma storeBatches_inv:
  "inv db \<Longrightarrow> storeBatches st now name ss applied res db = (e, applied', res', db') \<Longrightarrow>
     inv db' \<and> pinnedIn db' = pinnedIn db"
proof (induction ss arbitrary: applied res db)
  case (Cons s ss)
  show ?case
  proof (cases "st_ReplaceSourceSnapshot st now s db")
    case (Inl err)
    with Cons.prems show ?thesis by simp
  next
    case (Inr r)
    obtain a db1 where r: "r = (a, db1)" by (cases r)
    have inv1: "inv db1" and pins: "pinnedIn db1 = pinnedIn db"
      using replace_inv [OF Cons.prems(1) Inr [unfolded r]] replace_pins [OF Cons.prems(1) Inr [unfolded r]]
      by (simp_all add: fun_eq_iff)
    have "storeBatches st now name ss (if ar_Applied a then applied @ [s] else applied)
            (res\<lparr>sy_Candidates := sy_Candidates res + ar_Candidates a\<rparr>) db1 = (e, applied', res', db')"
      using Cons.prems(2) Inr r by simp
    from Cons.IH [OF inv1 this] pins show ?thesis by simp
  qed
qed simp

lemma storeBatches_count:
  "storeBatches st now name ss applied res db = (None, applied', res', db') \<Longrightarrow>
     sy_Candidates res' = sy_Candidates res + sum_list (map (\<lambda>s. length (sn_Candidates s)) ss) \<and>
     sy_Sources res' = sy_Sources res"
proof (induction ss arbitrary: applied res db)
  case (Cons s ss)
  then obtain a db1 where r: "st_ReplaceSourceSnapshot st now s db = Inr (a, db1)"
    by (auto split: sum.splits prod.splits)
  with Cons.prems Cons.IH [of "if ar_Applied a then applied @ [s] else applied"
      "res\<lparr>sy_Candidates := sy_Candidates res + ar_Candidates a\<rparr>" db1] replace_count [OF r]
  show ?case by simp
qed simp

lemma syncOne_inv:
  assumes "inv db" and "syncOne st publisher now d res db = (e, res', db')"
  shows "inv db' \<and> pinnedIn db' = pinnedIn db"
proof -
  let ?res = "res\<lparr>sy_Sources := sy_Sources res + 1\<rparr>"
  consider (none) "di_Discover d = None" | (bad) cs err where "di_Discover d = Some cs" "snapshotBatches now d cs = Inl err"
    | (ok) cs batches where "di_Discover d = Some cs" "snapshotBatches now d cs = Inr batches"
    by (metis option.exhaust sum.exhaust)
  then show ?thesis
  proof cases
    case ok
    let ?run = "storeBatches st now (di_Name d) (map (\<lambda>s. s\<lparr>sn_ObservedAt := now\<rparr>) batches) [] ?res db"
    obtain e1 ap res1 db1 where run: "?run = (e1, ap, res1, db1)" by (cases ?run)
    have "db' = db1" using assms(2) ok run by (auto simp: syncOne_def Let_def split: option.splits)
    with storeBatches_inv [OF assms(1) run] show ?thesis by simp
  qed (use assms in \<open>auto simp: syncOne_def Let_def\<close>)
qed

lemma syncAll_inv:
  "inv db \<Longrightarrow> syncAll st publisher now ds res db = (e, res', db') \<Longrightarrow> inv db' \<and> pinnedIn db' = pinnedIn db"
proof (induction ds arbitrary: res db)
  case (Cons d ds)
  obtain e1 res1 db1 where one: "syncOne st publisher now d res db = (e1, res1, db1)"
    by (cases "syncOne st publisher now d res db")
  note inv1 = syncOne_inv [OF Cons.prems(1) one]
  show ?case
  proof (cases e1)
    case None
    with Cons.prems(2) one have "syncAll st publisher now ds res1 db1 = (e, res', db')" by simp
    with Cons.IH [of db1 res1] inv1 show ?thesis by simp
  next
    case (Some err)
    with Cons.prems(2) one inv1 show ?thesis by simp
  qed
qed simp

lemma Sync_keeps_pins:
  "inv db \<Longrightarrow> Sync st publisher now ds db = (e, res, db') \<Longrightarrow> inv db' \<and> pinnedIn db' = pinnedIn db"
  unfolding Sync_def by (rule syncAll_inv)

lemma Unpin_clears_group:
  assumes "inv db" and "Unpin E st now i db = Inr (c, db')"
    and "st_List st False db = Inr observations"
    and "find (\<lambda>g. c_ID g = i) (groupCandidates (env_lib E) (env_exposures E) observations) = Some g"
    and "m \<in> set observations" and "c_Source m = c_Source g" and "c_Resource m \<in> ro_Resource ` set (c_Resources g)"
    and "TrimSpace i = i"
  shows "\<not> pinnedIn db' (c_ID m)"
proof -
  have run: "st_SetPinned st now i False (relatedPins i g observations) db = Inr (c, db')"
    using assms(2-4) by (simp add: Unpin_def Let_def)
  note eff = pin_effect [OF assms(1) run, of "c_ID m"]
  show ?thesis
  proof (cases "c_ID m = i")
    case True
    with eff assms(8) show ?thesis by simp
  next
    case False
    then have "c_ID m \<in> set (relatedPins i g observations) \<or> c_PinnedAt m = None"
      using assms(5-7) by (auto simp: relatedPins_def)
    with eff list_pins [OF assms(1,3,5)] show ?thesis by (auto split: if_splits)
  qed
qed

lemma Pin_inv: "inv db \<Longrightarrow> Pin E st now i db = Inr (c, db') \<Longrightarrow> inv db'"
  by (auto simp: Pin_def split: sum.splits option.splits if_splits dest: pin_inv)

lemma Pin_pins:
  assumes "inv db" and "Pin E st now i db = Inr (c, db')" and "TrimSpace i = i"
  shows "pinnedIn db' i \<and> (\<forall>k. k \<noteq> i \<longrightarrow> pinnedIn db' k = pinnedIn db k) \<and>
         (\<exists>groups g. ListStaging E st db = Inr groups \<and> g \<in> set groups \<and> c_ID g = i \<and> Status g = ''live'')"
proof -
  from assms(2) obtain groups g where g: "ListStaging E st db = Inr groups"
    "find (\<lambda>c. c_ID c = i) groups = Some g" "Status g = ''live''"
    and run: "st_SetPinned st now i True [] db = Inr (c, db')"
    by (auto simp: Pin_def split: sum.splits option.splits if_splits)
  with find_Some_in_set [OF g(2)] pin_effect [OF assms(1) run] assms(3) show ?thesis by auto
qed

end

section \<open>The SQLite store meets the contract\<close>

definition sqliteStore :: "catalog_env \<Rightarrow> catalog_db catalog_store" where
  "sqliteStore E =
     \<lparr>st_CreateManual = CreateManual E, st_Lifecycle = Lifecycle E,
      st_ReplaceSourceSnapshot = ReplaceSourceSnapshot (env_lib E),
      st_List = listCandidates (env_lib E), st_SetPinned = SetPinned (env_lib E), st_SaveEdit = SaveEdit E\<rparr>"

definition rowPinned :: "catalog_db \<Rightarrow> string \<Rightarrow> bool" where
  "rowPinned db i \<longleftrightarrow> (case getService i db of Some r \<Rightarrow> sv_PinnedAt r \<noteq> None | None \<Rightarrow> False)"

lemma rowPinned_setMissing [simp]: "rowPinned (setMissing P b db) = rowPinned db"
  by (simp add: fun_eq_iff rowPinned_def getService_setMissing split: option.split)

lemma rowPinned_write: "writeCandidate now c db = Inr db' \<Longrightarrow> rowPinned db' = rowPinned db"
  by (auto simp: fun_eq_iff rowPinned_def write_tables service_table.get_upsert mergeServiceRow_def newServiceRow_def
      split: option.split)

lemma rowPinned_upsertCandidate: "upsertCandidate now c db = Inr db' \<Longrightarrow> rowPinned db' = rowPinned db"
  by (auto simp: upsertCandidate_def split: option.splits if_splits dest: rowPinned_write)

lemma rowPinned_storeCandidates: "storeCandidates now cs db = Inr db' \<Longrightarrow> rowPinned db' = rowPinned db"
proof (induction now cs db rule: storeCandidates.induct)
  case (2 now c cs db)
  then obtain db1 where db1: "upsertCandidate now (c\<lparr>c_PinnedAt := None\<rparr>) db = Inr db1"
    and rest: "storeCandidates now cs (setMissing (\<lambda>r. sv_ID r = c_ID c) False db1) = Inr db'"
    by (auto split: sum.splits)
  from 2(1) [OF db1 rest] rowPinned_upsertCandidate [OF db1] show ?case by simp
qed simp

lemma rowPinned_Replace:
  assumes "ReplaceSourceSnapshot L now s db = Inr (a, db')"
  shows "rowPinned db' = rowPinned db"
proof -
  have wm: "rowPinned (x\<lparr>db_watermarks := w\<rparr>) = rowPinned x" for x w by (simp add: rowPinned_def fun_eq_iff)
  have "applySnapshot now s' db = Inr (a, db') \<Longrightarrow> rowPinned db' = rowPinned db" for s'
    by (auto simp: applySnapshot_def Let_def markAbsentCandidates_def wm split: sum.splits dest: rowPinned_storeCandidates)
  with Replace_cases(2) [OF assms] show ?thesis by blast
qed

lemma Replace_count:
  assumes "ReplaceSourceSnapshot L now s db = Inr (a, db')"
  shows "ar_Candidates a = length (sn_Candidates s)"
  using Replace_cases(2) [OF assms] applySnapshot_get(4) [of now "SnapshotNormalize s" db a db'] assms
  by (auto simp: ReplaceSourceSnapshot_def Let_def split: option.splits prod.splits if_splits)

lemma rowPinned_SetPinned:
  assumes "SetPinned L now i b related db = Inr (c, db')"
  shows "rowPinned db' k = (if k \<in> set (TrimSpace i # related) then b else rowPinned db k)"
proof -
  from assms have run: "pinRows now b (TrimSpace i # related) db = Inr db'"
    by (auto simp only: SetPinned_def Let_def split: if_splits sum.splits option.splits)
  show ?thesis
    using pinRows_get [OF run, of k]
    by (cases "getService k db") (simp_all add: rowPinned_def del: not_None_eq)
qed

lemma candidatesFromRows_row:
  "candidatesFromRows L db rows = Inr cs \<Longrightarrow> c \<in> set cs \<Longrightarrow> \<exists>row \<in> set rows. candidateFromRow L db row = Inr c"
  by (induction rows arbitrary: cs) (auto split: sum.splits)

lemma list_rowPinned:
  assumes "catalogInv E db" and "listCandidates L False db = Inr cs" and "c \<in> set cs"
  shows "rowPinned db (c_ID c) = (c_PinnedAt c \<noteq> None)"
proof -
  from candidatesFromRows_row [of L db "orderedServices db" cs c] assms(2,3) obtain row where
    row: "row \<in> set (db_services db)" "candidateFromRow L db row = Inr c"
    by (auto simp: listCandidates_def orderedServices_def)
  have "getService (sv_ID row) db = Some row" by (rule tbl_get_unique [OF catalogInv_unique [OF assms(1)] row(1)])
  with candidateFromRow_fields(1,6) [OF row(2)] show ?thesis by (simp add: rowPinned_def)
qed

interpretation sqlite_catalog: catalog_store_contract "sqliteStore E" "catalogInv E" rowPinned for E
proof (unfold_locales, goal_cases)
  case (1 db now s a db')
  then show ?case by (simp add: sqliteStore_def catalogInv_Replace [of E db])
next
  case (2 now s db a db')
  then show ?case by (intro Replace_count) (simp add: sqliteStore_def)
next
  case (3 db now s a db' i)
  then have "rowPinned db' = rowPinned db" by (intro rowPinned_Replace) (simp add: sqliteStore_def)
  then show ?case by simp
next
  case (4 db now i b related c db')
  then show ?case by (simp add: sqliteStore_def catalogInv_SetPinned [of E db])
next
  case (5 db now i b related c db' k)
  then show ?case by (intro rowPinned_SetPinned) (simp add: sqliteStore_def)
next
  case (6 db cs c)
  then show ?case by (intro list_rowPinned [of E db "env_lib E" cs]) (simp_all add: sqliteStore_def)
qed

section \<open>Batches\<close>

lemma mset_filter_keys:
  "distinct ks \<Longrightarrow>
   mset (concat (map (\<lambda>k. filter (\<lambda>x. key x = k) xs) ks)) = filter_mset (\<lambda>x. key x \<in> set ks) (mset xs)"
proof (induction ks)
  case (Cons k ks)
  have "filter_mset (\<lambda>x. key x = k \<or> key x \<in> set ks) (mset xs) =
        filter_mset (\<lambda>x. key x = k) (mset xs) + filter_mset (\<lambda>x. key x \<in> set ks) (mset xs)"
    using Cons.prems by (induction xs) auto
  with Cons show ?case by simp
qed simp

lemma mset_collectBy: "mset (concat (map snd (collectBy key xs))) = mset xs"
proof -
  have "map snd (collectBy key xs) = map (\<lambda>k. filter (\<lambda>x. key x = k) xs) (dedup_by (\<lambda>k. k) (map key xs))"
    by (simp add: collectBy_def comp_def)
  moreover have "filter_mset (\<lambda>x. key x \<in> key ` set xs) (mset xs) = mset xs"
    by (auto simp: filter_mset_eq_conv)
  ultimately show ?thesis by (simp add: mset_filter_keys)
qed

lemma mset_concat_perm: "mset xss = mset yss \<Longrightarrow> mset (concat xss) = mset (concat yss)"
  by (metis mset_concat mset_map sum_mset_sum_list)

lemma mset_sourceBatches: "mset (concat (map sn_Candidates (sourceBatches now cs))) = mset cs"
proof -
  have "map sn_Candidates (sourceBatches now cs) = map snd (sort_key fst (collectBy sourceKey cs))"
    by (simp add: sourceBatches_def comp_def case_prod_beta')
  moreover have "mset (map snd (sort_key fst (collectBy sourceKey cs))) = mset (map snd (collectBy sourceKey cs))"
    by simp
  ultimately show ?thesis using mset_concat_perm mset_collectBy by metis
qed

lemma sourceBatches_source:
  assumes "s \<in> set (sourceBatches now cs)" and "c \<in> set (sn_Candidates s)"
  shows "sourceKey c = nulJoin (src_Kind (sn_Source s)) (src_ID (sn_Source s))"
proof -
  from assms(1) obtain k ms where k: "(k, ms) \<in> set (collectBy sourceKey cs)"
    and s: "sn_Source s = c_Source (hd ms)" "sn_Candidates s = ms"
    by (auto simp: sourceBatches_def)
  from k have ms: "ms = filter (\<lambda>x. sourceKey x = k) cs" by (simp add: collectBy_member)
  have "hd ms \<in> set ms" using assms(2) s(2) by (cases ms) auto
  then have "sourceKey (hd ms) = k" using ms by auto
  moreover have "sourceKey c = k" using assms(2) s(2) ms by auto
  ultimately show ?thesis by (simp add: sourceKey_def s(1))
qed

lemma sourceKey_nulFree:
  assumes "nulFree (c_Source c)" "nulFree s" "sourceKey c = nulJoin (src_Kind s) (src_ID s)"
  shows "c_Source c = s"
proof -
  have "Cut NUL (sourceKey c) = Cut NUL (nulJoin (src_Kind s) (src_ID s))" using assms(3) by simp
  then show ?thesis using assms(1,2) by (simp add: sourceKey_def nulJoin_def nulFree_def Cut_append)
qed

section \<open>Properties\<close>

text \<open>
  C14. A synchronisation keeps the schema's invariant and every pin, whether it succeeds or stops at
  a discoverer, a snapshot that cannot be stored or a failed publication.
\<close>

theorem sync_keeps_invariant_and_pins:
  assumes "catalogInv E db" and "Sync (sqliteStore E) publisher now ds db = (e, res, db')"
  shows "catalogInv E db' \<and> (\<forall>i. rowPinned db' i = rowPinned db i)"
  using sqlite_catalog.Sync_keeps_pins [OF assms] by simp

definition evalDiscoverer :: Discoverer where
  "evalDiscoverer = \<lparr>di_Name = ''k8s'', di_Source = Some evalSource, di_Discover = Some [evalCandidate ''web'']\<rparr>"

definition evalSync :: "catalog_error option \<times> SyncResult \<times> catalog_db" where
  "evalSync = Sync (sqliteStore evalEnv) None 20 [evalDiscoverer] evalDb"

theorem sync_keeps_invariant_and_pins_witness:
  "catalogInv evalEnv (snd (snd evalSync)) \<and> fst evalSync = None \<and> sy_Candidates (fst (snd evalSync)) = 1"
proof -
  have "Sync (sqliteStore evalEnv) None 20 [evalDiscoverer] evalDb =
      (fst evalSync, fst (snd evalSync), snd (snd evalSync))" by (simp add: evalSync_def)
  from sync_keeps_invariant_and_pins [OF evalDb_inv this]
  have "catalogInv evalEnv (snd (snd evalSync))" by blast
  moreover have "fst evalSync = None \<and> sy_Candidates (fst (snd evalSync)) = 1" by code_simp
  ultimately show ?thesis by blast
qed

text \<open>
  Unpinning a row of the projection clears the pin of every stored resource the row shows, so
  no member's older pin keeps the group on the homepage.
\<close>

theorem unpin_clears_the_group:
  assumes "catalogInv E db" and "Unpin E (sqliteStore E) now i db = Inr (c, db')"
    and "listCandidates (env_lib E) False db = Inr observations" and "TrimSpace i = i"
    and "find (\<lambda>g. c_ID g = i) (groupCandidates (env_lib E) (env_exposures E) observations) = Some g"
    and "m \<in> set observations" and "c_Source m = c_Source g" and "c_Resource m \<in> ro_Resource ` set (c_Resources g)"
  shows "\<not> rowPinned db' (c_ID m)"
  using sqlite_catalog.Unpin_clears_group [OF assms(1,2) _ assms(5-8,4)] assms(3) by (simp add: sqliteStore_def)

text \<open>
  Pinning through the service pins exactly the named row and only when the current projection
  shows it live.
\<close>

theorem pin_requires_live_group:
  assumes "catalogInv E db" and "Pin E (sqliteStore E) now i db = Inr (c, db')" and "TrimSpace i = i"
  shows "rowPinned db' i \<and> (\<forall>k. k \<noteq> i \<longrightarrow> rowPinned db' k = rowPinned db k) \<and>
         (\<exists>groups g. ListStaging E (sqliteStore E) db = Inr groups \<and> g \<in> set groups \<and> c_ID g = i \<and> Status g = ''live'')"
  by (rule sqlite_catalog.Pin_pins [OF assms])

definition evalPinned :: catalog_db where
  "evalPinned = dbAfter (Pin evalEnv (sqliteStore evalEnv) 15 (c_ID (evalCandidate ''web'')) evalDb)"

theorem pin_requires_live_group_witness:
  "rowPinned evalPinned (c_ID (evalCandidate ''web''))"
proof -
  let ?i = "c_ID (evalCandidate ''web'')"
  have "case Pin evalEnv (sqliteStore evalEnv) 15 ?i evalDb of Inr _ \<Rightarrow> True | Inl _ \<Rightarrow> False" by code_simp
  then obtain c db' where run: "Pin evalEnv (sqliteStore evalEnv) 15 ?i evalDb = Inr (c, db')"
    by (auto split: sum.splits)
  moreover have "TrimSpace ?i = ?i" by code_simp
  ultimately show ?thesis
    using pin_requires_live_group [OF evalDb_inv run] by (simp add: evalPinned_def dbAfter_def)
qed

theorem unpin_clears_the_group_witness:
  "case Unpin evalEnv (sqliteStore evalEnv) 16 (c_ID (evalCandidate ''web'')) evalPinned of
     Inr (c, db') \<Rightarrow> \<not> rowPinned db' (c_ID (evalCandidate ''web''))
   | Inl _ \<Rightarrow> False"
proof -
  let ?i = "c_ID (evalCandidate ''web'')"
  let ?obs = "case listCandidates evalLib False evalPinned of Inr cs \<Rightarrow> cs | Inl _ \<Rightarrow> []"
  let ?g = "the (find (\<lambda>g. c_ID g = ?i) (groupCandidates evalLib (\<lambda>_. None) ?obs))"
  let ?m = "the (find (\<lambda>m. c_ID m = ?i) ?obs)"
  have env: "env_lib evalEnv = evalLib" "env_exposures evalEnv = (\<lambda>_. None)" by (simp_all add: evalEnv_def)
  have run: "case Unpin evalEnv (sqliteStore evalEnv) 16 ?i evalPinned of Inr _ \<Rightarrow> True | Inl _ \<Rightarrow> False" by code_simp
  have l: "listCandidates evalLib False evalPinned = Inr ?obs" by code_simp
  have g: "find (\<lambda>g. c_ID g = ?i) (groupCandidates evalLib (\<lambda>_. None) ?obs) = Some ?g" by code_simp
  have m: "?m \<in> set ?obs" "c_Source ?m = c_Source ?g" "c_Resource ?m \<in> ro_Resource ` set (c_Resources ?g)" "c_ID ?m = ?i"
    "TrimSpace ?i = ?i"
    by code_simp+
  have "case Pin evalEnv (sqliteStore evalEnv) 15 ?i evalDb of Inr _ \<Rightarrow> True | Inl _ \<Rightarrow> False" by code_simp
  then obtain c0 where "Pin evalEnv (sqliteStore evalEnv) 15 ?i evalDb = Inr (c0, evalPinned)"
    by (auto simp: evalPinned_def dbAfter_def split: sum.splits)
  then have inv: "catalogInv evalEnv evalPinned" by (rule sqlite_catalog.Pin_inv [OF evalDb_inv])
  from run obtain c db' where u: "Unpin evalEnv (sqliteStore evalEnv) 16 ?i evalPinned = Inr (c, db')"
    by (auto split: sum.splits)
  from unpin_clears_the_group [OF inv u, unfolded env, OF l m(5) g m(1-3)] u m(4) show ?thesis by simp
qed

text \<open>
  Splitting what a discoverer found into snapshots loses no candidate and repeats none, and every
  candidate goes into the snapshot of its own source.
\<close>

theorem snapshot_batches_partition:
  assumes "snapshotBatches now d cs = Inr batches"
    and "\<forall>c \<in> set cs. nulFree (normalizeSource (c_Source c))"
  shows "mset (concat (map sn_Candidates batches)) = mset (map CandidateNormalize cs) \<and>
         (\<forall>s \<in> set batches. \<forall>c \<in> set (sn_Candidates s). c_Source c = sn_Source s)"
proof (cases "batches = sourceBatches now (map CandidateNormalize cs)")
  case True
  have "c_Source c = sn_Source s" if s: "s \<in> set batches" and c: "c \<in> set (sn_Candidates s)" for s c
  proof -
    have "set (concat (map sn_Candidates batches)) = set (map CandidateNormalize cs)"
      unfolding True using mset_sourceBatches [THEN mset_eq_setD] by blast
    then have sub: "set (sn_Candidates s) \<subseteq> set (map CandidateNormalize cs)" using s by auto
    have nf: "nulFree (c_Source c)" using sub c assms(2) by auto
    have "nulFree (sn_Source s)"
    proof -
      from s True obtain k ms where "(k, ms) \<in> set (collectBy sourceKey (map CandidateNormalize cs))"
        "sn_Source s = c_Source (hd ms)" "sn_Candidates s = ms" by (auto simp: sourceBatches_def)
      then have "hd ms \<in> set (sn_Candidates s)" using c by (cases ms) auto
      with sub assms(2) \<open>sn_Source s = c_Source (hd ms)\<close> show ?thesis by auto
    qed
    with nf sourceBatches_source [of s now "map CandidateNormalize cs" c] s c True show ?thesis
      by (intro sourceKey_nulFree) auto
  qed
  with True mset_sourceBatches show ?thesis by blast
next
  case False
  with assms(1) show ?thesis
    by (auto simp: snapshotBatches_def Let_def split: option.splits if_splits)
qed

theorem snapshot_batches_partition_witness:
  "case snapshotBatches 3 evalDiscoverer [evalCandidate ''web'', evalCandidate ''db''] of
     Inr batches \<Rightarrow> mset (concat (map sn_Candidates batches)) =
       mset (map CandidateNormalize [evalCandidate ''web'', evalCandidate ''db''])
   | Inl _ \<Rightarrow> False"
proof -
  let ?cs = "[evalCandidate ''web'', evalCandidate ''db'']"
  have "case snapshotBatches 3 evalDiscoverer ?cs of Inr _ \<Rightarrow> True | Inl _ \<Rightarrow> False" by code_simp
  then obtain bs where bs: "snapshotBatches 3 evalDiscoverer ?cs = Inr bs" by (auto split: sum.splits)
  have "\<forall>c \<in> set ?cs. nulFree (normalizeSource (c_Source c))" by code_simp
  from snapshot_batches_partition [OF bs this] bs show ?thesis by simp
qed

end
