(* ===== verification/Kubernetes.thy ===== *)
theory Kubernetes
  imports CatalogModel
begin

text \<open>
  Discovery in a Kubernetes cluster (\<open>internal/adapters/kubernetes/kubernetes.go\<close>, \<open>exposure.go\<close>): what the
  lists of HTTPRoutes, Ingresses, Services, Nodes and Pods say is turned into catalogue candidates with their
  endpoints and with the evidence of routes that the catalogue joins groups by.

  The records of the cluster's objects have the fields of the API types that the sources read; an HTTPRoute is
  untyped, a tree of Go values. A float is its value if it is integral, else \<open>None\<close>. \<open>kube_lib\<close> has what comes
  from the Kubernetes modules (\<open>labels\<close>, \<open>unstructured\<close>) and what the sources only call from Go's library. A
  set of service references is a list without repetition, the map of selected services a list of pairs without
  a repeated key; the results of the loops over them are sorted. What the API server answers to each list
  request for the configured namespace is the record \<open>cluster\<close>.
\<close>

section \<open>Objects of the cluster\<close>

record ServicePort =
  sp_Name :: string
  sp_Port :: int
  sp_NodePort :: int
  sp_Protocol :: string
  sp_TargetPort :: string

record KubeService =
  ks_Namespace :: string
  ks_Name :: string
  ks_Labels :: smap
  ks_Type :: string
  ks_ExternalName :: string
  ks_Selector :: smap
  ks_ExternalIPs :: "string list"
  ks_Ports :: "ServicePort list"
  ks_Ingress :: "(string \<times> string) list"

record ContainerPort =
  cp_Name :: string
  cp_ContainerPort :: int
  cp_Protocol :: string

record KubeContainer =
  kc_Name :: string
  kc_Image :: string
  kc_Ports :: "ContainerPort list"

record KubePod =
  kp_Namespace :: string
  kp_Name :: string
  kp_Labels :: smap
  kp_Phase :: string
  kp_InitContainers :: "KubeContainer list"
  kp_Containers :: "KubeContainer list"
  kp_EphemeralContainers :: "KubeContainer list"

record IngressBackend =
  ib_Service :: "(string \<times> int) option"
  ib_Resource :: "string option"

record IngressRule =
  ir_Host :: string
  ir_HTTP :: "(string \<times> IngressBackend) list option"

record KubeIngress =
  ki_Namespace :: string
  ki_Name :: string
  ki_Labels :: smap
  ki_TLS :: "string list list"
  ki_Rules :: "IngressRule list"
  ki_DefaultBackend :: "IngressBackend option"

type_synonym KubeNode = "(string \<times> string) list"

datatype kvalue =
    KNull | KBool bool | KInt int | KInt32 int | KInt64 int | KFloat "int option" | KNumber string
  | KString string | KList "kvalue list" | KMap "(string \<times> kvalue) list"

type_synonym kmap = "(string \<times> kvalue) list"

record HTTPRoute =
  hr_Namespace :: string
  hr_Name :: string
  hr_Labels :: smap
  hr_Object :: kmap

text \<open>What the accessors of package \<open>unstructured\<close> give for a path of fields.\<close>

datatype 'a nested = Found 'a | Absent | WrongType

definition foundOr :: "'a \<Rightarrow> 'a nested \<Rightarrow> 'a" where
  "foundOr d n = (case n of Found x \<Rightarrow> x | _ \<Rightarrow> d)"

record kube_lib =
  kl_golib :: golib
  kl_String :: "kmap \<Rightarrow> string list \<Rightarrow> string nested"
  kl_Slice :: "kmap \<Rightarrow> string list \<Rightarrow> kvalue list nested"
  kl_StringSlice :: "kmap \<Rightarrow> string list \<Rightarrow> string list nested"
  kl_Int64 :: "kmap \<Rightarrow> string list \<Rightarrow> int nested"
  kl_Matches :: "smap \<Rightarrow> smap \<Rightarrow> bool"
  kl_ToLower :: "string \<Rightarrow> string"
  kl_EqualFold :: "string \<Rightarrow> string \<Rightarrow> bool"
  kl_URL :: "string \<Rightarrow> string \<Rightarrow> string \<Rightarrow> string"

datatype 'a listing = Listed "'a list" | NoSuchResource | ListError

record cluster =
  cl_HTTPRoutes :: "HTTPRoute listing"
  cl_Ingresses :: "KubeIngress list option"
  cl_Services :: "KubeService list option"
  cl_Nodes :: "KubeNode list option"
  cl_Pods :: "KubePod list option"

datatype port_error = PortNotInteger | PortSyntax | PortType | PortRange int

datatype route_error =
    NestedError | MatchShape nat | BackendShape nat | BackendPort nat port_error
  | ReadHostnames | ReadRules | RuleShape nat | RulePaths nat route_error | RuleBackends nat route_error

datatype kube_error =
    NilClient | NilDynamicClient | SourceEmpty | SourceNUL
  | ListServices | ListNodes | ListPods | ListIngresses | ListHTTPRoutes
  | ReadHTTPRoute string string route_error

section \<open>Candidates\<close>

definition sourceKind :: string where
  "sourceKind = ''kubernetes''"

record KubeDiscoverer =
  kd_sourceID :: string
  kd_namespace :: string

definition NewKubeDiscoverer :: "bool \<Rightarrow> bool \<Rightarrow> string \<Rightarrow> string \<Rightarrow> (kube_error, KubeDiscoverer) result" where
  "NewKubeDiscoverer client dynamicClient sourceID namespace =
     (let sid = TrimSpace sourceID in
      if \<not> client then Inl NilClient
      else if \<not> dynamicClient then Inl NilDynamicClient
      else if sid = [] then Inl SourceEmpty
      else if NUL \<in> set sid then Inl SourceNUL
      else Inr \<lparr>kd_sourceID = sid, kd_namespace = TrimSpace namespace\<rparr>)"

definition kubeName :: "KubeDiscoverer \<Rightarrow> string" where
  "kubeName d = sourceKind @ ''/'' @ kd_sourceID d"

definition kubeSource :: "KubeDiscoverer \<Rightarrow> SourceRef" where
  "kubeSource d = \<lparr>src_Kind = sourceKind, src_ID = kd_sourceID d\<rparr>"

definition resourceMetadata :: "string \<Rightarrow> smap \<Rightarrow> smap" where
  "resourceMetadata kind labels =
     fold (\<lambda>k m. mset_key (''label.'' @ k) (mget labels k) m) (sort (filter (\<lambda>k. TrimSpace k \<noteq> []) (map fst labels)))
       [(''kubernetes.kind'', kind)]"

definition newCandidate ::
    "kube_lib \<Rightarrow> KubeDiscoverer \<Rightarrow> string \<Rightarrow> string \<Rightarrow> string \<Rightarrow> string \<Rightarrow> smap \<Rightarrow> time \<Rightarrow> Candidate" where
  "newCandidate E d kind namespace name description labels observedAt =
     (NewCandidate (kl_golib E) (kubeSource d) \<lparr>res_Kind = kind, res_Namespace = namespace, res_Name = name\<rparr> observedAt)
       \<lparr>c_Description := description, c_Metadata := resourceMetadata kind labels\<rparr>"

definition addMetadata :: "string \<Rightarrow> string \<Rightarrow> Candidate \<Rightarrow> Candidate" where
  "addMetadata k v c = c\<lparr>c_Metadata := mset_key k v (c_Metadata c)\<rparr>"

type_synonym serviceRef = "string \<times> string"

fun Join :: "string \<Rightarrow> string list \<Rightarrow> string" where
  "Join sep [] = []"
| "Join sep [x] = x"
| "Join sep (x # xs) = x @ sep @ Join sep xs"

definition formatServiceRefs :: "serviceRef list \<Rightarrow> string" where
  "formatServiceRefs refs = Join '','' (map (\<lambda>(namespace, name). namespace @ ''/'' @ name) refs)"

definition addServiceRefsMetadata :: "serviceRef list \<Rightarrow> Candidate \<Rightarrow> Candidate" where
  "addServiceRefsMetadata refs c = (if refs = [] then c else addMetadata ''kubernetes.services'' (formatServiceRefs (sort refs)) c)"

section \<open>Services and pods\<close>

definition isExternalService :: "KubeService \<Rightarrow> bool" where
  "isExternalService s \<longleftrightarrow>
     ks_Type s \<in> {''ExternalName'', ''NodePort'', ''LoadBalancer''} \<or> ks_Selector s = [] \<or> ks_ExternalIPs s \<noteq> []"

definition portName :: "int \<Rightarrow> string" where
  "portName n = ''port-'' @ FormatInt n"

definition serviceEndpoints :: "KubeService \<Rightarrow> Endpoint list" where
  "serviceEndpoints s =
     map (\<lambda>p. let name = TrimSpace (sp_Name p) in
              \<lparr>ep_Name = (if name = [] then portName (sp_Port p) else name), ep_URL = [], ep_Port = sp_Port p,
               ep_Protocol = sp_Protocol p, ep_Provenance = ''kubernetes.service''\<rparr>)
       (ks_Ports s)"

text \<open>\<open>net.JoinHostPort\<close> with a decimal port.\<close>

definition JoinHostPort :: "string \<Rightarrow> int \<Rightarrow> string" where
  "JoinHostPort host port =
     (if CHR '':'' \<in> set host then ''['' @ host @ '']:'' @ FormatInt port else host @ '':'' @ FormatInt port)"

definition portURL :: "kube_lib \<Rightarrow> string \<Rightarrow> string \<Rightarrow> int \<Rightarrow> string" where
  "portURL E protocol0 host port =
     (let protocol = kl_ToLower E protocol0 in
      (if protocol = [] then ''tcp'' else protocol) @ ''://'' @ JoinHostPort host port)"

definition externalHosts :: "KubeService \<Rightarrow> string list" where
  "externalHosts s =
     ks_ExternalIPs s
     @ concat (map (\<lambda>(ip, hostname). if ip \<noteq> [] then [ip] else if hostname \<noteq> [] then [hostname] else []) (ks_Ingress s))
     @ (if ks_ExternalName s \<noteq> [] then [ks_ExternalName s] else [])"

definition externalServiceEndpoints :: "kube_lib \<Rightarrow> KubeService \<Rightarrow> Endpoint list" where
  "externalServiceEndpoints E s =
     concat (map (\<lambda>host.
       map (\<lambda>p. \<lparr>ep_Name = sp_Name p, ep_URL = portURL E (sp_Protocol p) host (sp_Port p), ep_Port = sp_Port p,
                 ep_Protocol = sp_Protocol p, ep_Provenance = ''kubernetes.service.external''\<rparr>) (ks_Ports s))
       (externalHosts s))"

text \<open>The address of a node: the first external one, else the last internal one.\<close>

fun nodeHost :: "string \<Rightarrow> (string \<times> string) list \<Rightarrow> string" where
  "nodeHost host [] = host"
| "nodeHost host ((kind, address) # rest) =
     (if kind = ''ExternalIP'' then address
      else if kind = ''InternalIP'' then nodeHost address rest
      else nodeHost host rest)"

definition nodeServiceEndpoints :: "kube_lib \<Rightarrow> KubeService \<Rightarrow> KubeNode list \<Rightarrow> Endpoint list" where
  "nodeServiceEndpoints E s nodes =
     concat (map (\<lambda>node. let host = nodeHost [] node in
       if host = [] then []
       else map (\<lambda>p. \<lparr>ep_Name = sp_Name p, ep_URL = portURL E (sp_Protocol p) host (sp_NodePort p), ep_Port = sp_NodePort p,
                      ep_Protocol = sp_Protocol p, ep_Provenance = ''kubernetes.service.nodeport''\<rparr>)
              (filter (\<lambda>p. sp_NodePort p > 0) (ks_Ports s)))
       nodes)"

definition backendPorts :: "KubeService \<Rightarrow> string list" where
  "backendPorts s =
     map (\<lambda>p. (if sp_Protocol p = [] then ''TCP'' else sp_Protocol p) @ ''/'' @
              (if sp_TargetPort p = ''0'' \<or> sp_TargetPort p = [] then FormatInt (sp_Port p) else sp_TargetPort p))
       (ks_Ports s)"

definition backendIdentity :: "kube_lib \<Rightarrow> KubeService \<Rightarrow> string" where
  "backendIdentity E s =
     (if ks_Selector s = [] then []
      else if backendPorts s = [] then []
      else json_text (kl_golib E)
             (JObj [(''Namespace'', JStr (ks_Namespace s)),
                    (''Selector'', JObj (map (\<lambda>(k, v). (k, JStr v)) (sort_key fst (ks_Selector s)))),
                    (''Ports'', JArr (map JStr (sort (backendPorts s))))]))"

abbreviation refOf :: "KubeService \<Rightarrow> serviceRef" where
  "refOf s \<equiv> (ks_Namespace s, ks_Name s)"

definition serviceCandidate :: "kube_lib \<Rightarrow> KubeDiscoverer \<Rightarrow> time \<Rightarrow> KubeNode list \<Rightarrow> KubeService \<Rightarrow> Candidate" where
  "serviceCandidate E d observedAt nodes s =
     (let c0 = newCandidate E d ''service'' (ks_Namespace s) (ks_Name s) ''Kubernetes Service'' (ks_Labels s) observedAt;
          c1 = addMetadata BackendMetadata (backendIdentity E s) (addMetadata ''service.type'' (ks_Type s) c0);
          externalName = TrimSpace (ks_ExternalName s);
          c2 = (if isExternalService s
                then (let c = addMetadata ''service.external'' ''true'' c1 in
                      if externalName \<noteq> [] then addMetadata ''service.externalName'' externalName c else c)
                else c1)
      in c2\<lparr>c_Endpoints := serviceEndpoints s @ externalServiceEndpoints E s @ nodeServiceEndpoints E s nodes\<rparr>)"

definition shownService :: "serviceRef list \<Rightarrow> bool \<Rightarrow> KubeService \<Rightarrow> bool" where
  "shownService routed routingPresent s \<longleftrightarrow> \<not> (routingPresent \<and> \<not> isExternalService s \<and> refOf s \<notin> set routed)"

definition selectService :: "KubeService \<Rightarrow> (serviceRef \<times> KubeService) list \<Rightarrow> (serviceRef \<times> KubeService) list" where
  "selectService s selected = (refOf s, s) # filter (\<lambda>p. fst p \<noteq> refOf s) selected"

definition needsNodes :: "KubeService list \<Rightarrow> bool" where
  "needsNodes services \<longleftrightarrow> list_ex (\<lambda>s. list_ex (\<lambda>p. sp_NodePort p > 0) (ks_Ports s)) services"

definition discoverServices ::
    "kube_lib \<Rightarrow> KubeDiscoverer \<Rightarrow> time \<Rightarrow> cluster \<Rightarrow> serviceRef list \<Rightarrow> bool \<Rightarrow>
     (kube_error, Candidate list \<times> (serviceRef \<times> KubeService) list) result" where
  "discoverServices E d observedAt K routed routingPresent =
     (case cl_Services K of
        None \<Rightarrow> Inl ListServices
      | Some services \<Rightarrow>
          (case (if needsNodes services then cl_Nodes K else Some []) of
             None \<Rightarrow> Inl ListNodes
           | Some nodes \<Rightarrow>
               (let shown = filter (shownService routed routingPresent) services in
                Inr (map (serviceCandidate E d observedAt nodes) shown, fold selectService shown []))))"

definition matchingServices :: "kube_lib \<Rightarrow> KubePod \<Rightarrow> (serviceRef \<times> KubeService) list \<Rightarrow> serviceRef list" where
  "matchingServices E pod selected =
     sort (map fst (filter (\<lambda>(ref, s). fst ref = kp_Namespace pod \<and> ks_Selector s \<noteq> []
                                       \<and> kl_Matches E (ks_Selector s) (kp_Labels pod)) selected))"

definition appendContainer :: "KubeContainer \<Rightarrow> string list \<times> Endpoint list \<Rightarrow> string list \<times> Endpoint list" where
  "appendContainer c = (\<lambda>(images, endpoints).
     let image = TrimSpace (kc_Image c); containerName = TrimSpace (kc_Name c) in
     (if image \<noteq> [] \<and> image \<notin> set images then images @ [image] else images,
      endpoints @
      map (\<lambda>p. let name = TrimSpace (cp_Name p) in
              \<lparr>ep_Name = (if name \<noteq> [] then name else if containerName \<noteq> [] then containerName
                           else portName (cp_ContainerPort p)),
               ep_URL = [], ep_Port = cp_ContainerPort p, ep_Protocol = cp_Protocol p, ep_Provenance = ''kubernetes.pod''\<rparr>)
        (kc_Ports c)))"

definition podObservations :: "KubePod \<Rightarrow> string list \<times> Endpoint list" where
  "podObservations pod =
     fold appendContainer (kp_InitContainers pod @ kp_Containers pod @ kp_EphemeralContainers pod) ([], [])"

definition podCandidate :: "kube_lib \<Rightarrow> KubeDiscoverer \<Rightarrow> time \<Rightarrow> serviceRef list \<Rightarrow> KubePod \<Rightarrow> Candidate" where
  "podCandidate E d observedAt matched pod =
     (let c0 = newCandidate E d ''pod'' (kp_Namespace pod) (kp_Name pod) ''Kubernetes Pod'' (kp_Labels pod) observedAt;
          c1 = addMetadata ''kubernetes.services'' (formatServiceRefs matched) c0;
          c2 = (if kp_Phase pod \<noteq> [] then addMetadata ''pod.phase'' (kp_Phase pod) c1 else c1);
          (images, endpoints) = podObservations pod
      in c2\<lparr>c_Images := images, c_Endpoints := endpoints\<rparr>)"

definition discoverPods ::
    "kube_lib \<Rightarrow> KubeDiscoverer \<Rightarrow> time \<Rightarrow> cluster \<Rightarrow> (serviceRef \<times> KubeService) list \<Rightarrow> (kube_error, Candidate list) result" where
  "discoverPods E d observedAt K selected =
     (case cl_Pods K of
        None \<Rightarrow> Inl ListPods
      | Some pods \<Rightarrow>
          Inr (map (\<lambda>pod. podCandidate E d observedAt (matchingServices E pod selected) pod)
                 (filter (\<lambda>pod. matchingServices E pod selected \<noteq> []) pods)))"

section \<open>Ingresses\<close>

definition normalizeRoutePath :: "string \<Rightarrow> string" where
  "normalizeRoutePath path0 =
     (let path = TrimSpace path0 in
      if path = [] then ''/'' else if \<not> prefix ''/'' path then ''/'' @ path else path)"

text \<open>\<open>absoluteRouteURL\<close>, and with no scheme \<open>schemeRelativeRouteURL\<close>.\<close>

definition routeURL :: "kube_lib \<Rightarrow> string \<Rightarrow> string \<Rightarrow> string \<Rightarrow> string" where
  "routeURL E scheme host0 path =
     (let host = TrimSpace host0 in if host = [] then [] else kl_URL E scheme host (normalizeRoutePath path))"

definition hostIsTLS :: "kube_lib \<Rightarrow> string \<Rightarrow> string list \<Rightarrow> bool" where
  "hostIsTLS E host0 tlsHosts \<longleftrightarrow>
     (let host = kl_ToLower E (TrimSpace host0) in
      host \<in> set tlsHosts
      \<or> list_ex (\<lambda>tlsHost.
           prefix ''*.'' tlsHost \<and> suffix (drop 1 tlsHost) host
           \<and> (let label = TrimSuffix host (drop 1 tlsHost) in label \<noteq> [] \<and> CHR ''.'' \<notin> set label)) tlsHosts)"

definition ingressBackend :: "IngressBackend \<Rightarrow> string \<times> int" where
  "ingressBackend b =
     (case ib_Service b of
        Some (name, port) \<Rightarrow> (TrimSpace name, port)
      | None \<Rightarrow> (case ib_Resource b of Some name \<Rightarrow> (TrimSpace name, 0) | None \<Rightarrow> ([], 0)))"

definition backendRef :: "string \<Rightarrow> IngressBackend \<Rightarrow> serviceRef list" where
  "backendRef namespace b =
     (case ib_Service b of
        Some (name, port) \<Rightarrow> if TrimSpace name \<noteq> [] then [(namespace, TrimSpace name)] else []
      | None \<Rightarrow> [])"

definition ingressEndpoint :: "string \<Rightarrow> string \<Rightarrow> string \<Rightarrow> IngressBackend \<Rightarrow> Endpoint" where
  "ingressEndpoint fallback url scheme b =
     (let (name, port) = ingressBackend b in
      \<lparr>ep_Name = (if name = [] then fallback else name), ep_URL = url, ep_Port = port, ep_Protocol = scheme,
       ep_Provenance = ''kubernetes.ingress''\<rparr>)"

definition ingressRule :: "kube_lib \<Rightarrow> bool \<Rightarrow> string list \<Rightarrow> IngressRule \<Rightarrow> Endpoint list" where
  "ingressRule E tlsAnyHost tlsHosts r =
     (case ir_HTTP r of
        None \<Rightarrow> []
      | Some paths \<Rightarrow>
          (let scheme = (if tlsAnyHost \<or> hostIsTLS E (ir_Host r) tlsHosts then ''https'' else ''http'') in
           map (\<lambda>(path, b). ingressEndpoint ''route'' (routeURL E scheme (ir_Host r) path) scheme b) paths))"

definition ingressBackends :: "KubeIngress \<Rightarrow> IngressBackend list" where
  "ingressBackends i =
     concat (map (\<lambda>r. case ir_HTTP r of None \<Rightarrow> [] | Some paths \<Rightarrow> map snd paths) (ki_Rules i))
     @ (case ki_DefaultBackend i of None \<Rightarrow> [] | Some b \<Rightarrow> [b])"

definition ingressEndpoints :: "kube_lib \<Rightarrow> KubeIngress \<Rightarrow> Endpoint list \<times> serviceRef list" where
  "ingressEndpoints E i =
     (let tlsAnyHost = list_ex (\<lambda>hosts. hosts = []) (ki_TLS i);
          tlsHosts = map (\<lambda>h. kl_ToLower E (TrimSpace h)) (concat (ki_TLS i)) in
      (concat (map (ingressRule E tlsAnyHost tlsHosts) (ki_Rules i))
       @ (case ki_DefaultBackend i of None \<Rightarrow> [] | Some b \<Rightarrow> [ingressEndpoint ''default-backend'' [] ''http'' b]),
       dedup_by (\<lambda>x. x) (concat (map (backendRef (ki_Namespace i)) (ingressBackends i)))))"

definition ingressCandidate :: "kube_lib \<Rightarrow> KubeDiscoverer \<Rightarrow> time \<Rightarrow> KubeIngress \<Rightarrow> Candidate" where
  "ingressCandidate E d observedAt i =
     (let (endpoints, refs) = ingressEndpoints E i in
      addServiceRefsMetadata refs
        ((newCandidate E d ''ingress'' (ki_Namespace i) (ki_Name i) ''Kubernetes Ingress'' (ki_Labels i) observedAt)
           \<lparr>c_Endpoints := endpoints\<rparr>))"

definition discoverIngresses ::
    "kube_lib \<Rightarrow> KubeDiscoverer \<Rightarrow> time \<Rightarrow> cluster \<Rightarrow> (kube_error, Candidate list \<times> serviceRef list) result" where
  "discoverIngresses E d observedAt K =
     (case cl_Ingresses K of
        None \<Rightarrow> Inl ListIngresses
      | Some ingresses \<Rightarrow>
          Inr (map (ingressCandidate E d observedAt) ingresses,
               dedup_by (\<lambda>x. x) (concat (map (\<lambda>i. snd (ingressEndpoints E i)) ingresses))))"

section \<open>HTTPRoutes\<close>

record routeBackend =
  rb_name :: string
  rb_namespace :: string
  rb_port :: int
  rb_service :: bool

text \<open>
  The port of a backend. A float outside of 64 bits becomes some number outside of the port range.
\<close>

definition routeBackendPort :: "kmap \<Rightarrow> (port_error, int) result" where
  "routeBackendPort ref =
     (let checked = (\<lambda>port. if port < 0 \<or> port > 65535 then Inl (PortRange port) else Inr port) in
      case map_of ref ''port'' of
        None \<Rightarrow> Inr 0
      | Some (KInt n) \<Rightarrow> checked n
      | Some (KInt32 n) \<Rightarrow> checked n
      | Some (KInt64 n) \<Rightarrow> checked n
      | Some (KFloat v) \<Rightarrow> (case v of None \<Rightarrow> Inl PortNotInteger | Some n \<Rightarrow> checked n)
      | Some (KNumber text) \<Rightarrow> (case ParseInt64 text of None \<Rightarrow> Inl PortSyntax | Some n \<Rightarrow> checked n)
      | Some _ \<Rightarrow> Inl PortType)"

text \<open>A string that must not have another type; \<open>NestedString\<close> gives the empty one where it is absent.\<close>

definition optionalString :: "kube_lib \<Rightarrow> kmap \<Rightarrow> string list \<Rightarrow> (string \<times> bool) option" where
  "optionalString E m path =
     (case kl_String E m path of Found s \<Rightarrow> Some (s, True) | Absent \<Rightarrow> Some ([], False) | WrongType \<Rightarrow> None)"

definition routeBackendOf :: "kube_lib \<Rightarrow> string \<Rightarrow> nat \<Rightarrow> nat \<Rightarrow> kvalue \<Rightarrow> (route_error, routeBackend) result" where
  "routeBackendOf E routeNamespace ruleIndex index raw =
     (case raw of
        KMap ref \<Rightarrow>
          (case (optionalString E ref [''name''], optionalString E ref [''group''], optionalString E ref [''kind''],
                 optionalString E ref [''namespace'']) of
             (Some (name0, foundName), Some (apiGroup, foundGroup), Some (kind, foundKind), Some (namespace0, foundNamespace)) \<Rightarrow>
               (case routeBackendPort ref of
                  Inl e \<Rightarrow> Inl (BackendPort index e)
                | Inr port \<Rightarrow>
                    (let name = TrimSpace name0; namespace = TrimSpace namespace0 in
                     Inr \<lparr>rb_name = (if name = [] then ''route-'' @ FormatInt (int ruleIndex) @ ''-'' @ FormatInt (int index) else name),
                          rb_namespace = (if foundNamespace \<and> namespace \<noteq> [] then namespace else routeNamespace),
                          rb_port = port,
                          rb_service = (foundName \<and> name \<noteq> []
                            \<and> (\<not> foundGroup \<or> TrimSpace apiGroup = [] \<or> kl_EqualFold E (TrimSpace apiGroup) ''core'')
                            \<and> (\<not> foundKind \<or> kl_EqualFold E (TrimSpace kind) ''service''))\<rparr>))
           | _ \<Rightarrow> Inl NestedError)
      | _ \<Rightarrow> Inl (BackendShape index))"

primrec eachFrom :: "nat \<Rightarrow> (nat \<Rightarrow> 'a \<Rightarrow> ('e, 'b) result) \<Rightarrow> 'a list \<Rightarrow> ('e, 'b list) result" where
  "eachFrom i f [] = Inr []"
| "eachFrom i f (x # xs) =
     (case f i x of
        Inl e \<Rightarrow> Inl e
      | Inr y \<Rightarrow> (case eachFrom (Suc i) f xs of Inl e \<Rightarrow> Inl e | Inr ys \<Rightarrow> Inr (y # ys)))"

definition httpRouteBackends :: "kube_lib \<Rightarrow> kmap \<Rightarrow> string \<Rightarrow> nat \<Rightarrow> (route_error, routeBackend list) result" where
  "httpRouteBackends E rule routeNamespace ruleIndex =
     (let none = Inr [\<lparr>rb_name = ''route-'' @ FormatInt (int ruleIndex), rb_namespace = routeNamespace, rb_port = 0, rb_service = False\<rparr>] in
      case kl_Slice E rule [''backendRefs''] of
        WrongType \<Rightarrow> Inl NestedError
      | Absent \<Rightarrow> none
      | Found refs \<Rightarrow> if refs = [] then none else eachFrom 0 (routeBackendOf E routeNamespace ruleIndex) refs)"

definition routePath :: "kube_lib \<Rightarrow> nat \<Rightarrow> kvalue \<Rightarrow> (route_error, string) result" where
  "routePath E index raw =
     (case raw of
        KMap m \<Rightarrow>
          (case optionalString E m [''path'', ''value''] of
             None \<Rightarrow> Inl NestedError
           | Some (path, found) \<Rightarrow> Inr (normalizeRoutePath (if \<not> found \<or> TrimSpace path = [] then ''/'' else path)))
      | _ \<Rightarrow> Inl (MatchShape index))"

definition httpRoutePaths :: "kube_lib \<Rightarrow> kmap \<Rightarrow> (route_error, string list) result" where
  "httpRoutePaths E rule =
     (case kl_Slice E rule [''matches''] of
        WrongType \<Rightarrow> Inl NestedError
      | Absent \<Rightarrow> Inr [''/'']
      | Found ms \<Rightarrow> if ms = [] then Inr [''/''] else eachFrom 0 (routePath E) ms)"

definition routeRule ::
    "kube_lib \<Rightarrow> string \<Rightarrow> string list \<Rightarrow> nat \<Rightarrow> kvalue \<Rightarrow> (route_error, Endpoint list \<times> serviceRef list) result" where
  "routeRule E namespace hostnames ruleIndex raw =
     (case raw of
        KMap rule \<Rightarrow>
          (case httpRoutePaths E rule of
             Inl e \<Rightarrow> Inl (RulePaths ruleIndex e)
           | Inr paths \<Rightarrow>
               (case httpRouteBackends E rule namespace ruleIndex of
                  Inl e \<Rightarrow> Inl (RuleBackends ruleIndex e)
                | Inr backends \<Rightarrow>
                    (let all = concat (map (\<lambda>hostname. concat (map (\<lambda>path. map (\<lambda>b. (hostname, path, b)) backends) paths)) hostnames) in
                     Inr (map (\<lambda>(hostname, path, b).
                                \<lparr>ep_Name = rb_name b, ep_URL = routeURL E [] hostname path, ep_Port = rb_port b,
                                 ep_Protocol = ''http'', ep_Provenance = ''kubernetes.httproute''\<rparr>) all,
                          map (\<lambda>(_, _, b). (rb_namespace b, rb_name b)) (filter (\<lambda>(_, _, b). rb_service b) all)))))
      | _ \<Rightarrow> Inl (RuleShape ruleIndex))"

definition httpRouteEndpoints :: "kube_lib \<Rightarrow> HTTPRoute \<Rightarrow> (route_error, Endpoint list \<times> serviceRef list) result" where
  "httpRouteEndpoints E r =
     (case kl_StringSlice E (hr_Object r) [''spec'', ''hostnames''] of
        WrongType \<Rightarrow> Inl ReadHostnames
      | hosts \<Rightarrow>
          (let hostnames = (if foundOr [] hosts = [] then [[]] else foundOr [] hosts) in
           case kl_Slice E (hr_Object r) [''spec'', ''rules''] of
             WrongType \<Rightarrow> Inl ReadRules
           | rules \<Rightarrow>
               (case eachFrom 0 (routeRule E (hr_Namespace r) hostnames) (foundOr [] rules) of
                  Inl e \<Rightarrow> Inl e
                | Inr parts \<Rightarrow> Inr (concat (map fst parts), dedup_by (\<lambda>x. x) (concat (map snd parts))))))"

section \<open>The evidence of routes\<close>

definition stringField :: "kmap \<Rightarrow> string \<Rightarrow> string" where
  "stringField m k = (case map_of m k of Some (KString s) \<Rightarrow> s | _ \<Rightarrow> [])"

definition stringOr :: "string \<Rightarrow> string \<Rightarrow> string" where
  "stringOr d s = (if s = [] then d else s)"

definition routeScope :: "kube_lib \<Rightarrow> string \<Rightarrow> kvalue \<Rightarrow> string list" where
  "routeScope E routeNamespace raw =
     (case raw of
        KMap parent \<Rightarrow>
          if stringField parent ''name'' = [] then []
          else
            [json_text (kl_golib E)
               (JArr [JStr (stringOr ''gateway.networking.k8s.io'' (stringField parent ''group'')),
                      JStr (stringOr ''Gateway'' (stringField parent ''kind'')),
                      JStr (stringOr routeNamespace (stringField parent ''namespace'')),
                      JStr (stringField parent ''name''), JStr (stringField parent ''sectionName''),
                      JNum (case map_of parent ''port'' of Some (KInt64 n) \<Rightarrow> n | _ \<Rightarrow> 0)])]
      | _ \<Rightarrow> [])"

definition routeScopes :: "kube_lib \<Rightarrow> HTTPRoute \<Rightarrow> string list" where
  "routeScopes E r =
     sort (concat (map (routeScope E (hr_Namespace r)) (foundOr [] (kl_Slice E (hr_Object r) [''spec'', ''parentRefs'']))))"

record redirection =
  rd_redirect :: bool
  rd_host :: string
  rd_path :: string
  rd_unsupported :: bool

definition headerFilters :: "string list" where
  "headerFilters = [''RequestHeaderModifier'', ''ResponseHeaderModifier'', ''URLRewrite'']"

fun routeFilters :: "kube_lib \<Rightarrow> kvalue list \<Rightarrow> redirection \<Rightarrow> redirection" where
  "routeFilters E [] st = st"
| "routeFilters E (KMap f # fs) st =
     (if stringField f ''type'' \<in> set headerFilters then routeFilters E fs st
      else if stringField f ''type'' \<noteq> ''RequestRedirect'' then st\<lparr>rd_unsupported := True\<rparr>
      else
        (let st1 = st\<lparr>rd_redirect := True, rd_host := foundOr [] (kl_String E f [''requestRedirect'', ''hostname''])\<rparr>;
             pathType = foundOr [] (kl_String E f [''requestRedirect'', ''path'', ''type'']) in
         if pathType \<noteq> [] \<and> pathType \<noteq> ''ReplaceFullPath'' then st1\<lparr>rd_unsupported := True\<rparr>
         else
           (let st2 = st1\<lparr>rd_path := foundOr [] (kl_String E f [''requestRedirect'', ''path'', ''replaceFullPath''])\<rparr> in
            routeFilters E fs
              (case kl_Int64 E f [''requestRedirect'', ''port''] of
                 Found port \<Rightarrow> if port \<noteq> 80 \<and> port \<noteq> 443 then st2\<lparr>rd_unsupported := True\<rparr> else st2
               | _ \<Rightarrow> st2))))"
| "routeFilters E (_ # fs) st = st\<lparr>rd_unsupported := True\<rparr>"

definition serviceText :: "routeBackend \<Rightarrow> string" where
  "serviceText b = rb_namespace b @ ''/'' @ rb_name b"

definition emptyExposure :: Exposure where
  "emptyExposure = \<lparr>x_Scope = [], x_Host = [], x_Path = [], x_Match = [], x_Service = [], x_Port = 0, x_RedirectHost = [], x_RedirectPath = []\<rparr>"

definition markUnknown :: "routeBackend list \<Rightarrow> Exposure list" where
  "markUnknown backends =
     map (\<lambda>b. emptyExposure\<lparr>x_Service := serviceText b, x_Match := ''Unsupported''\<rparr>) (filter rb_service backends)"

definition hostExposures ::
    "kube_lib \<Rightarrow> string \<Rightarrow> routeBackend list \<Rightarrow> redirection \<Rightarrow> string \<Rightarrow> string \<Rightarrow> string \<Rightarrow> Exposure list" where
  "hostExposures E scope backends rd path matchType host =
     (if host = [] \<or> CHR ''*'' \<in> set host then markUnknown backends
      else
        (let base = emptyExposure\<lparr>x_Scope := scope, x_Host := kl_ToLower E host, x_Path := path, x_Match := matchType\<rparr> in
         if rd_redirect rd
         then [base\<lparr>x_RedirectHost := stringOr (x_Host base) (kl_ToLower E (rd_host rd)),
                    x_RedirectPath := stringOr path (rd_path rd)\<rparr>]
         else map (\<lambda>b. base\<lparr>x_Service := serviceText b, x_Port := rb_port b\<rparr>) (filter rb_service backends)))"

definition matchExposures ::
    "kube_lib \<Rightarrow> string \<Rightarrow> string list \<Rightarrow> routeBackend list \<Rightarrow> redirection \<Rightarrow> kvalue \<Rightarrow> Exposure list" where
  "matchExposures E scope hosts backends rd raw =
     (case raw of
        KMap m \<Rightarrow>
          if length m > 1 \<or> length m = 1 \<and> (map_of m ''path'' = None \<or> map_of m ''path'' = Some KNull) then markUnknown backends
          else
            (let path = stringOr ''/'' (foundOr [] (kl_String E m [''path'', ''value'']));
                 matchType = stringOr ''PathPrefix'' (foundOr [] (kl_String E m [''path'', ''type''])) in
             if matchType \<noteq> ''Exact'' \<and> matchType \<noteq> ''PathPrefix'' then markUnknown backends
             else concat (map (hostExposures E scope backends rd path matchType) hosts))
      | _ \<Rightarrow> [])"

definition ruleExposures :: "kube_lib \<Rightarrow> string \<Rightarrow> string list \<Rightarrow> string \<Rightarrow> nat \<Rightarrow> kvalue \<Rightarrow> Exposure list" where
  "ruleExposures E scope hosts routeNamespace index raw =
     (case raw of
        KMap rule \<Rightarrow>
          (case httpRouteBackends E rule routeNamespace index of
             Inl _ \<Rightarrow> []
           | Inr backends \<Rightarrow>
               (let ms0 = foundOr [] (kl_Slice E rule [''matches'']);
                    ms = (if ms0 = [] then [KMap []] else ms0);
                    rd = routeFilters E (foundOr [] (kl_Slice E rule [''filters'']))
                           \<lparr>rd_redirect = False, rd_host = [], rd_path = [], rd_unsupported = False\<rparr> in
                if rd_unsupported rd then markUnknown backends
                else concat (map (matchExposures E scope hosts backends rd) ms)))
      | _ \<Rightarrow> [])"

definition routeExposures :: "kube_lib \<Rightarrow> HTTPRoute \<Rightarrow> Exposure list" where
  "routeExposures E r =
     (let scopes = routeScopes E r in
      if scopes = [] then []
      else
        (let scope = json_text (kl_golib E) (JArr (map JStr scopes));
             hosts = foundOr [] (kl_StringSlice E (hr_Object r) [''spec'', ''hostnames'']);
             rules = foundOr [] (kl_Slice E (hr_Object r) [''spec'', ''rules'']) in
         concat (map (\<lambda>(index, raw). ruleExposures E scope hosts (hr_Namespace r) index raw) (enumerate 0 rules))))"

text \<open>\<open>json.Marshal\<close> of the evidence; the last four members are left out when they are empty.\<close>

definition exposureJson :: "Exposure \<Rightarrow> json" where
  "exposureJson x =
     JObj ([(''scope'', JStr (x_Scope x)), (''host'', JStr (x_Host x)), (''path'', JStr (x_Path x)), (''match'', JStr (x_Match x))]
       @ (if x_Service x = [] then [] else [(''service'', JStr (x_Service x))])
       @ (if x_Port x = 0 then [] else [(''port'', JNum (x_Port x))])
       @ (if x_RedirectHost x = [] then [] else [(''redirectHost'', JStr (x_RedirectHost x))])
       @ (if x_RedirectPath x = [] then [] else [(''redirectPath'', JStr (x_RedirectPath x))]))"

definition routeCandidate :: "kube_lib \<Rightarrow> KubeDiscoverer \<Rightarrow> time \<Rightarrow> HTTPRoute \<Rightarrow> Endpoint list \<times> serviceRef list \<Rightarrow> Candidate" where
  "routeCandidate E d observedAt r = (\<lambda>(endpoints, refs).
     (let c0 = newCandidate E d ''httproute'' (hr_Namespace r) (hr_Name r) ''Kubernetes HTTPRoute'' (hr_Labels r) observedAt;
          evidence = routeExposures E r;
          c1 = (if evidence = [] then c0
                else addMetadata ExposureMetadata (json_text (kl_golib E) (JArr (map exposureJson evidence))) c0)
      in addServiceRefsMetadata refs (c1\<lparr>c_Endpoints := endpoints\<rparr>)))"

fun readRoutes :: "kube_lib \<Rightarrow> HTTPRoute list \<Rightarrow> (kube_error, (HTTPRoute \<times> Endpoint list \<times> serviceRef list) list) result" where
  "readRoutes E [] = Inr []"
| "readRoutes E (r # rs) =
     (case httpRouteEndpoints E r of
        Inl e \<Rightarrow> Inl (ReadHTTPRoute (hr_Namespace r) (hr_Name r) e)
      | Inr found \<Rightarrow> (case readRoutes E rs of Inl e \<Rightarrow> Inl e | Inr rest \<Rightarrow> Inr ((r, found) # rest)))"

definition discoverHTTPRoutes ::
    "kube_lib \<Rightarrow> KubeDiscoverer \<Rightarrow> time \<Rightarrow> cluster \<Rightarrow> (kube_error, Candidate list \<times> serviceRef list) result" where
  "discoverHTTPRoutes E d observedAt K =
     (case cl_HTTPRoutes K of
        NoSuchResource \<Rightarrow> Inr ([], [])
      | ListError \<Rightarrow> Inl ListHTTPRoutes
      | Listed routes \<Rightarrow>
          (case readRoutes E routes of
             Inl e \<Rightarrow> Inl e
           | Inr read \<Rightarrow>
               Inr (map (\<lambda>(r, found). routeCandidate E d observedAt r found) read,
                    dedup_by (\<lambda>x. x) (concat (map (\<lambda>(r, _, refs). refs) read)))))"

section \<open>Discovery\<close>

definition kindOrder :: "string \<Rightarrow> nat" where
  "kindOrder kind = (if kind = ''ingress'' then 1 else if kind = ''service'' then 2 else if kind = ''pod'' then 3 else 0)"

definition sortKey :: "Candidate \<Rightarrow> nat \<times> string \<times> string \<times> string" where
  "sortKey c = (kindOrder (res_Kind (c_Resource c)), res_Namespace (c_Resource c), res_Name (c_Resource c), c_ID c)"

definition sortCandidates :: "Candidate list \<Rightarrow> Candidate list" where
  "sortCandidates cs = sort_key sortKey cs"

definition mergeServiceSets :: "serviceRef list list \<Rightarrow> serviceRef list" where
  "mergeServiceSets sets = dedup_by (\<lambda>x. x) (concat sets)"

definition KubeDiscover :: "kube_lib \<Rightarrow> KubeDiscoverer \<Rightarrow> time \<Rightarrow> cluster \<Rightarrow> (kube_error, Candidate list) result" where
  "KubeDiscover E d observedAt K =
     (case discoverHTTPRoutes E d observedAt K of
        Inl e \<Rightarrow> Inl e
      | Inr (routes, routeServices) \<Rightarrow>
          (case discoverIngresses E d observedAt K of
             Inl e \<Rightarrow> Inl e
           | Inr (ingresses, ingressServices) \<Rightarrow>
               (let routed = mergeServiceSets [routeServices, ingressServices] in
                case discoverServices E d observedAt K routed (routed \<noteq> []) of
                  Inl e \<Rightarrow> Inl e
                | Inr (services, selected) \<Rightarrow>
                    (case discoverPods E d observedAt K selected of
                       Inl e \<Rightarrow> Inl e
                     | Inr pods \<Rightarrow> Inr (sortCandidates (routes @ ingresses @ services @ pods))))))"

end
