(* ===== verification/Discovery.thy ===== *)
theory Discovery
  imports CatalogService
begin

text \<open>
  What the discoverers share: trimmed text that starts with a printable character is not empty, distinct
  resources have distinct identifiers, and valid candidates of one source become exactly one snapshot when
  \<open>CatalogService\<close> splits what a discoverer found.
\<close>

section \<open>Text\<close>

lemma plain_not_starts: "plain_char c \<Longrightarrow> \<not> starts_space (c # s)"
proof -
  assume c: "plain_char c"
  have enc: "\<forall>e \<in> set space_encodings. e \<noteq> [] \<and> \<not> plain_char (hd e)" by (simp add: space_encodings_def)
  have "\<not> prefix e (c # s)" if "e \<in> set space_encodings" for e
  proof
    assume p: "prefix e (c # s)"
    have "e \<noteq> []" "\<not> plain_char (hd e)" using enc that by blast+
    with p c show False by (cases e) auto
  qed
  then show ?thesis by (auto simp: starts_space_def list_ex_iff)
qed

lemma TrimRightSpace_plain: "s \<noteq> [] \<Longrightarrow> plain_char (hd s) \<Longrightarrow> TrimRightSpace s \<noteq> []"
proof (induction s rule: TrimRightSpace.induct)
  case (1 s)
  show ?case
  proof (cases "find (\<lambda>e. suffix e s) space_encodings")
    case None
    then show ?thesis using 1(2) by (simp add: TrimRightSpace.simps [of s])
  next
    case (Some e)
    then have e: "e \<in> set space_encodings" "suffix e s" by (auto dest: find_Some_in_set)
    have "\<forall>e \<in> set space_encodings. \<not> plain_char (hd e)" by (simp add: space_encodings_def)
    with e(1) 1(3) have "e \<noteq> s" by auto
    with e(2) have "length e < length s" by (metis suffix_length_less strict_suffix_def)
    then have "take (length s - length e) s \<noteq> []" "hd (take (length s - length e) s) = hd s" by (auto simp: hd_take)
    with 1(1) [OF Some] 1(3) show ?thesis by (simp add: TrimRightSpace.simps [of s] Some)
  qed
qed

lemma TrimSpace_plain_start: "plain_char c \<Longrightarrow> TrimSpace (c # s) \<noteq> []"
  using TrimRightSpace_plain [of "c # s"] by (simp add: TrimSpace_def TrimLeftSpace_id plain_not_starts)

lemma set_TrimSpace: "set (TrimSpace s) \<subseteq> set s"
proof -
  have "set (TrimLeftSpace t) \<subseteq> set t" for t
  proof (induction t rule: TrimLeftSpace.induct)
    case (1 s)
    show ?case
    proof (cases "find (\<lambda>e. prefix e s) space_encodings")
      case None
      then show ?thesis by (simp add: TrimLeftSpace.simps [of s])
    next
      case (Some e)
      with 1 [OF Some] set_drop_subset [of "length e" s] show ?thesis by (auto simp: TrimLeftSpace.simps [of s])
    qed
  qed
  moreover have "set (TrimRightSpace t) \<subseteq> set t" for t using TrimRightSpace_prefix [of t] by (rule set_mono_prefix)
  ultimately show ?thesis unfolding TrimSpace_def by blast
qed

section \<open>Candidates\<close>

text \<open>A candidate for a resource of a source, whatever was observed of it.\<close>

definition observesIn :: "golib \<Rightarrow> SourceRef \<Rightarrow> time \<Rightarrow> ResourceRef \<Rightarrow> Candidate \<Rightarrow> bool" where
  "observesIn L source t r c \<longleftrightarrow>
     c_Source c = normalizeSource source \<and> c_Resource c = normalizeResource r \<and> c_ID c = StableID L source r
     \<and> c_DisplayName c = TrimSpace (res_Name r) \<and> c_ObservedAt c = t
     \<and> (\<forall>(k, v) \<in> set (c_Metadata c). TrimSpace k \<noteq> [])"

lemma observesIn_observations [simp]:
  "observesIn L source t r (c\<lparr>c_Endpoints := es\<rparr>) = observesIn L source t r c"
  "observesIn L source t r (c\<lparr>c_Images := is\<rparr>) = observesIn L source t r c"
  by (simp_all add: observesIn_def)

lemma observesIn_metadata:
  "observesIn L source t r c \<Longrightarrow> \<forall>(k, v) \<in> set m. TrimSpace k \<noteq> [] \<Longrightarrow> observesIn L source t r (c\<lparr>c_Metadata := m\<rparr>)"
  by (simp add: observesIn_def)

lemma candidate_valid:
  assumes c: "observesIn L source t r c" and time: "\<not> IsZero t" and source: "normalizeSource source = source"
    and id: "validIdentity source (normalizeResource r)" and digest: "\<forall>s. s \<noteq> [] \<longrightarrow> sha256_hex L s \<noteq> []"
    and images: "\<forall>img \<in> set (c_Images c). img \<noteq> [] \<and> NUL \<notin> set img \<and> TrimSpace img = img"
    and endpoints: "\<forall>e \<in> set (c_Endpoints c). \<forall>i. validEndpoint L i (normalizeEndpoint e) = None"
  shows "CandidateValidate L c = None \<and> c_Source c = source \<and> c_ID c = StableID L source (c_Resource c)
    \<and> normalizeResource (c_Resource c) = c_Resource c"
proof -
  have fields: "c_Source c = source" "c_Resource c = normalizeResource r" "c_ID c = StableID L source r"
      "c_DisplayName c = TrimSpace (res_Name r)" "c_ObservedAt c = t" "\<forall>(k, v) \<in> set (c_Metadata c). TrimSpace k \<noteq> []"
    using c source by (simp_all add: observesIn_def)
  have ID: "c_ID c = StableID L source (c_Resource c)" using fields(2,3) StableID_normalize [of L source r] source by simp
  have "identityText (identityParts source (c_Resource c)) \<noteq> []" by (simp add: identityParts_def identityText_Cons)
  with digest have "c_ID c \<noteq> []" unfolding ID StableID_def by blast
  moreover have "first_error_from 0 validImage (map TrimSpace (c_Images c)) = None"
    using images by (simp add: first_error_from_None validImage_def)
  moreover have "first_error_from 0 (validEndpoint L) (map normalizeEndpoint (c_Endpoints c)) = None"
    using endpoints by (simp add: first_error_from_None)
  moreover have "TrimSpace (res_Name r) \<noteq> []" using id by (simp add: validIdentity_def normalizeResource_def)
  ultimately have "CandidateValidate L c = None"
    unfolding CandidateValidate_None Let_def CandidateNormalize_fields fields(1,2,4,5)
    using ID id fields(2,6) source time by (simp add: normalizeResource_def)
  with ID fields(1,2) show ?thesis by simp
qed

section \<open>Snapshots\<close>

lemma distinct_StableID:
  assumes "inj (sha256_hex L)" "\<forall>c \<in> set cs. c_ID c = StableID L s (c_Resource c) \<and> normalizeResource (c_Resource c) = c_Resource c"
    "distinct (map c_Resource cs)"
  shows "distinct (map c_ID cs)"
proof -
  have "inj_on (StableID L s) (c_Resource ` set cs)"
  proof (rule inj_onI)
    fix a b
    assume "a \<in> c_Resource ` set cs" "b \<in> c_Resource ` set cs" "StableID L s a = StableID L s b"
    with assms(1,2) show "a = b"
      by (auto simp: StableID_def identityText_inj identityParts_eq dest!: injD)
  qed
  then have "distinct (map (StableID L s) (map c_Resource cs))" using assms(3) by (simp add: distinct_map comp_inj_on)
  moreover have "map (StableID L s) (map c_Resource cs) = map c_ID cs" using assms(2) by simp
  ultimately show ?thesis by (simp only:)
qed

lemma collectBy_one:
  assumes "cs \<noteq> []" "\<forall>c \<in> set cs. key c = k"
  shows "collectBy key cs = [(k, cs)]"
proof -
  have "key ` set cs = {k}" using assms by (cases cs) auto
  then have keys: "set (map fst (collectBy key cs)) = {k}" unfolding collectBy_keys by simp
  then have "length (map fst (collectBy key cs)) = card {k}" using distinct_card [OF distinct_collectBy] by metis
  then obtain p where p: "collectBy key cs = [p]" by (auto simp: length_Suc_conv)
  moreover have "filter (\<lambda>x. key x = k) cs = cs" using assms(2) by (auto intro: filter_True)
  ultimately show ?thesis using keys collectBy_member [of "fst p" "snd p" key cs] by (cases p) auto
qed

lemma c_ID_normalized: "map c_ID (map CandidateNormalize cs) = map c_ID cs"
  by simp

lemma one_valid_snapshot:
  assumes source: "normalizeSource source = source" "src_Kind source \<noteq> []" "src_ID source \<noteq> []" "src_Kind source \<noteq> ManualSourceKind"
      "CHR ''/'' \<notin> set (src_Kind source)" "NUL \<notin> set (src_Kind source) \<union> set (src_ID source)"
    and valid: "\<forall>c \<in> set cs. CandidateValidate L c = None \<and> c_Source c = source" and ids: "distinct (map c_ID cs)"
    and now: "\<not> IsZero now"
  shows "\<exists>s. snapshotBatches now \<lparr>di_Name = name, di_Source = Some source, di_Discover = Some cs\<rparr> cs = Inr [s]
    \<and> SnapshotValidate L s = None \<and> sn_Source s = source \<and> sn_Candidates s = map CandidateNormalize cs"
proof -
  let ?s = "\<lparr>sn_Source = source, sn_Candidates = map CandidateNormalize cs, sn_ObservedAt = now\<rparr>"
  have "SnapshotValidate L ?s = None"
    unfolding SnapshotValidate_None Let_def SnapshotNormalize_fields
    using source valid ids now by (auto simp: comp_def)
  moreover have "snapshotBatches now \<lparr>di_Name = name, di_Source = Some source, di_Discover = Some cs\<rparr> cs = Inr [?s]"
  proof (cases "cs = []")
    case True
    with source show ?thesis by (simp add: snapshotBatches_def)
  next
    case False
    have N: "\<forall>c \<in> set (map CandidateNormalize cs). c_Source c = source" using valid source(1) by auto
    then have "collectBy sourceKey (map CandidateNormalize cs)
        = [(nulJoin (src_Kind source) (src_ID source), map CandidateNormalize cs)]"
      using False by (intro collectBy_one) (auto simp: sourceKey_def)
    moreover have "c_Source (hd (map CandidateNormalize cs)) = source" using N False by (cases cs) auto
    ultimately have "sourceBatches now (map CandidateNormalize cs) = [?s]" by (simp add: sourceBatches_def)
    with N False source show ?thesis by (auto simp: snapshotBatches_def list_ex_iff)
  qed
  ultimately show ?thesis by auto
qed

end
