(* ===== verification/KubernetesFacts.thy ===== *)
theory KubernetesFacts
  imports Kubernetes Discovery
begin

text \<open>
  What discovery in a Kubernetes cluster gives the catalogue: one valid snapshot (with \<open>CatalogService\<close>, which
  splits and validates what a discoverer found), independent of the order in which the API server lists
  objects; which Services and Pods are shown; route evidence that names only services of the route; TLS hosts.
\<close>

section \<open>Candidates\<close>

abbreviation observes :: "kube_lib \<Rightarrow> KubeDiscoverer \<Rightarrow> time \<Rightarrow> ResourceRef \<Rightarrow> Candidate \<Rightarrow> bool" where
  "observes E d \<equiv> observesIn (kl_golib E) (kubeSource d)"

abbreviation kubeResource :: "string \<Rightarrow> string \<Rightarrow> string \<Rightarrow> ResourceRef" where
  "kubeResource kind namespace name \<equiv> \<lparr>res_Kind = kind, res_Namespace = namespace, res_Name = name\<rparr>"

lemma resourceMetadata_keys: "\<forall>(k, v) \<in> set (resourceMetadata kind labels). TrimSpace k \<noteq> []"
proof -
  have gen: "\<forall>(k, v) \<in> set (fold (\<lambda>k m. mset_key (''label.'' @ k) (mget labels k) m) ks m). TrimSpace k \<noteq> []"
    if "\<forall>(k, v) \<in> set m. TrimSpace k \<noteq> []" for ks m
    using that
  proof (induction ks arbitrary: m)
    case (Cons k ks)
    have "\<forall>(k', v) \<in> set (mset_key (''label.'' @ k) (mget labels k) m). TrimSpace k' \<noteq> []"
      using Cons.prems TrimSpace_plain_start [of "CHR ''l''"] by (auto simp: mset_key_def)
    then show ?case using Cons.IH by simp
  qed simp
  have "TrimSpace ''kubernetes.kind'' \<noteq> []" by (intro TrimSpace_plain_start) simp
  then show ?thesis unfolding resourceMetadata_def by (intro gen) simp
qed

lemma observes_newCandidate:
  "observes E d t (kubeResource kind namespace name) (newCandidate E d kind namespace name description labels t)"
  using resourceMetadata_keys StableID_normalize [of "kl_golib E" "kubeSource d" "kubeResource kind namespace name"]
  by (simp add: observesIn_def newCandidate_def NewCandidate_def Let_def normalizeResource_def)

lemma observes_addMetadata:
  "observes E d t r c \<Longrightarrow> plain_char (hd k) \<Longrightarrow> k \<noteq> [] \<Longrightarrow> observes E d t r (addMetadata k v c)"
  using TrimSpace_plain_start [of "hd k" "tl k"] by (auto simp: observesIn_def addMetadata_def mset_key_def)

lemma observes_serviceRefs: "observes E d t r c \<Longrightarrow> observes E d t r (addServiceRefsMetadata refs c)"
  by (simp add: addServiceRefsMetadata_def observes_addMetadata)

lemmas observes_intros = observes_newCandidate observes_addMetadata observes_serviceRefs

lemma observes_service: "observes E d t (kubeResource ''service'' (ks_Namespace s) (ks_Name s)) (serviceCandidate E d t nodes s)"
  by (auto simp: serviceCandidate_def Let_def BackendMetadata_def intro!: observes_intros)

lemma observes_pod: "observes E d t (kubeResource ''pod'' (kp_Namespace p) (kp_Name p)) (podCandidate E d t refs p)"
  by (auto simp: podCandidate_def Let_def split: prod.split intro!: observes_intros)

lemma observes_ingress: "observes E d t (kubeResource ''ingress'' (ki_Namespace i) (ki_Name i)) (ingressCandidate E d t i)"
  by (auto simp: ingressCandidate_def Let_def split: prod.split intro!: observes_intros)

lemma observes_route: "observes E d t (kubeResource ''httproute'' (hr_Namespace r) (hr_Name r)) (routeCandidate E d t r found)"
  by (auto simp: routeCandidate_def Let_def ExposureMetadata_def split: prod.split intro!: observes_intros)

lemma candidate_images [simp]:
  "c_Images (newCandidate E d kind namespace name description labels t) = []"
  "c_Images (addMetadata k v c) = c_Images c"
  "c_Images (addServiceRefsMetadata refs c) = c_Images c"
  "c_Endpoints (addMetadata k v c) = c_Endpoints c"
  "c_Endpoints (addServiceRefsMetadata refs c) = c_Endpoints c"
  by (simp_all add: newCandidate_def NewCandidate_def addMetadata_def addServiceRefsMetadata_def Let_def)

lemma candidate_observations:
  "c_Images (serviceCandidate E d t nodes s) = []"
  "c_Endpoints (serviceCandidate E d t nodes s) = serviceEndpoints s @ externalServiceEndpoints E s @ nodeServiceEndpoints E s nodes"
  "c_Images (podCandidate E d t refs p) = fst (podObservations p)"
  "c_Endpoints (podCandidate E d t refs p) = snd (podObservations p)"
  "c_Images (ingressCandidate E d t i) = []"
  "c_Endpoints (ingressCandidate E d t i) = fst (ingressEndpoints E i)"
  "c_Images (routeCandidate E d t r found) = []"
  "c_Endpoints (routeCandidate E d t r found) = fst found"
  by (simp_all add: serviceCandidate_def podCandidate_def ingressCandidate_def routeCandidate_def Let_def split: prod.split)

section \<open>What was found\<close>

lemma readRoutes_Inr:
  "readRoutes E rs = Inr read \<Longrightarrow> map fst read = rs \<and> (\<forall>(r, found) \<in> set read. httpRouteEndpoints E r = Inr found)"
  by (induction rs arbitrary: read) (auto split: sum.splits)

text \<open>The routes that were listed; there are none without the Gateway API.\<close>

definition listedRoutes :: "cluster \<Rightarrow> HTTPRoute list" where
  "listedRoutes K = (case cl_HTTPRoutes K of Listed rs \<Rightarrow> rs | _ \<Rightarrow> [])"

definition refsOfRoute :: "kube_lib \<Rightarrow> HTTPRoute \<Rightarrow> serviceRef list" where
  "refsOfRoute E r = (case httpRouteEndpoints E r of Inr (endpoints, refs) \<Rightarrow> refs | Inl e \<Rightarrow> [])"

definition endpointsOfRoute :: "kube_lib \<Rightarrow> HTTPRoute \<Rightarrow> Endpoint list" where
  "endpointsOfRoute E r = (case httpRouteEndpoints E r of Inr (endpoints, refs) \<Rightarrow> endpoints | Inl e \<Rightarrow> [])"

definition routedServices :: "kube_lib \<Rightarrow> HTTPRoute list \<Rightarrow> KubeIngress list \<Rightarrow> serviceRef set" where
  "routedServices E rs is = (\<Union>r \<in> set rs. set (refsOfRoute E r)) \<union> (\<Union>i \<in> set is. set (snd (ingressEndpoints E i)))"

definition shownServices :: "serviceRef set \<Rightarrow> KubeService list \<Rightarrow> KubeService list" where
  "shownServices routed ss = filter (\<lambda>s. routed = {} \<or> isExternalService s \<or> refOf s \<in> routed) ss"

definition selectedServices :: "KubeService list \<Rightarrow> (serviceRef \<times> KubeService) list" where
  "selectedServices ss = fold selectService ss []"

definition clusterCandidates ::
    "kube_lib \<Rightarrow> KubeDiscoverer \<Rightarrow> time \<Rightarrow> HTTPRoute list \<Rightarrow> KubeIngress list \<Rightarrow> KubeNode list \<Rightarrow> KubeService list \<Rightarrow> KubePod list \<Rightarrow>
     Candidate list" where
  "clusterCandidates E d t rs is nodes shown ps =
     map (\<lambda>r. routeCandidate E d t r (endpointsOfRoute E r, refsOfRoute E r)) rs
     @ map (ingressCandidate E d t) is
     @ map (serviceCandidate E d t nodes) shown
     @ map (\<lambda>p. podCandidate E d t (matchingServices E p (selectedServices shown)) p)
         (filter (\<lambda>p. matchingServices E p (selectedServices shown) \<noteq> []) ps)"

lemma discoverHTTPRoutes_Inr:
  assumes "discoverHTTPRoutes E d t K = Inr (cs, refs)"
  shows "cs = map (\<lambda>r. routeCandidate E d t r (endpointsOfRoute E r, refsOfRoute E r)) (listedRoutes K)
    \<and> set refs = (\<Union>r \<in> set (listedRoutes K). set (refsOfRoute E r))
    \<and> (\<forall>r \<in> set (listedRoutes K). \<exists>found. httpRouteEndpoints E r = Inr found)"
proof (cases "cl_HTTPRoutes K")
  case (Listed rs)
  with assms obtain read where read: "readRoutes E rs = Inr read"
    and cs: "cs = map (\<lambda>(r, found). routeCandidate E d t r found) read"
    and refs: "refs = dedup_by (\<lambda>x. x) (concat (map (\<lambda>(r, _, refs). refs) read))"
    by (auto simp: discoverHTTPRoutes_def split: sum.splits)
  note R = readRoutes_Inr [OF read]
  have found: "snd p = (endpointsOfRoute E (fst p), refsOfRoute E (fst p))" if "p \<in> set read" for p
    using R that by (cases "snd p") (auto simp: endpointsOfRoute_def refsOfRoute_def)
  have "cs = map ((\<lambda>r. routeCandidate E d t r (endpointsOfRoute E r, refsOfRoute E r)) \<circ> fst) read"
    unfolding cs using found by (auto simp: case_prod_beta')
  moreover have "set refs = (\<Union>p \<in> set read. set (refsOfRoute E (fst p)))"
    unfolding refs using found by (auto simp: case_prod_beta')
  moreover have "set rs = fst ` set read" using R by (metis list.set_map)
  ultimately show ?thesis using R Listed by (auto simp: listedRoutes_def simp flip: map_map)
qed (use assms in \<open>auto simp: discoverHTTPRoutes_def listedRoutes_def\<close>)

lemma discoverIngresses_Inr:
  assumes "discoverIngresses E d t K = Inr (cs, refs)"
  obtains ingresses where "cl_Ingresses K = Some ingresses" "cs = map (ingressCandidate E d t) ingresses"
    "set refs = (\<Union>i \<in> set ingresses. set (snd (ingressEndpoints E i)))"
  using assms by (auto simp: discoverIngresses_def split: option.splits)

text \<open>A discovery that succeeds, in terms of what was listed.\<close>

lemma KubeDiscover_Inr:
  assumes "KubeDiscover E d t K = Inr cs"
  obtains ingresses services nodes pods where
    "cl_Ingresses K = Some ingresses" "cl_Services K = Some services" "cl_Pods K = Some pods"
    "(if needsNodes services then cl_Nodes K else Some []) = Some nodes"
    "\<forall>r \<in> set (listedRoutes K). \<exists>found. httpRouteEndpoints E r = Inr found"
    "cs = sortCandidates (clusterCandidates E d t (listedRoutes K) ingresses nodes
       (shownServices (routedServices E (listedRoutes K) ingresses) services) pods)"
proof -
  from assms obtain rcs rrefs ics irefs scs sel pcs where
    r: "discoverHTTPRoutes E d t K = Inr (rcs, rrefs)" and i: "discoverIngresses E d t K = Inr (ics, irefs)" and
    s: "discoverServices E d t K (mergeServiceSets [rrefs, irefs]) (mergeServiceSets [rrefs, irefs] \<noteq> []) = Inr (scs, sel)" and
    p: "discoverPods E d t K sel = Inr pcs" and cs: "cs = sortCandidates (rcs @ ics @ scs @ pcs)"
    by (auto simp: KubeDiscover_def Let_def split: sum.splits)
  note R = discoverHTTPRoutes_Inr [OF r]
  from i obtain ingresses where I: "cl_Ingresses K = Some ingresses" "ics = map (ingressCandidate E d t) ingresses"
      "set irefs = (\<Union>i \<in> set ingresses. set (snd (ingressEndpoints E i)))"
    by (rule discoverIngresses_Inr)
  let ?routed = "mergeServiceSets [rrefs, irefs]"
  have routed: "set ?routed = routedServices E (listedRoutes K) ingresses"
    using R I(3) by (simp add: mergeServiceSets_def routedServices_def)
  from s obtain services nodes where S: "cl_Services K = Some services"
      "(if needsNodes services then cl_Nodes K else Some []) = Some nodes"
      "scs = map (serviceCandidate E d t nodes) (filter (shownService ?routed (?routed \<noteq> [])) services)"
      "sel = selectedServices (filter (shownService ?routed (?routed \<noteq> [])) services)"
    by (auto simp: discoverServices_def selectedServices_def Let_def split: option.splits)
  have "set ?routed = {} \<longleftrightarrow> ?routed = []" by simp
  then have shown: "filter (shownService ?routed (?routed \<noteq> [])) services
      = shownServices (routedServices E (listedRoutes K) ingresses) services"
    unfolding shownServices_def routed [symmetric] by (intro filter_cong) (auto simp: shownService_def)
  from p obtain pods where P: "cl_Pods K = Some pods"
      "pcs = map (\<lambda>p. podCandidate E d t (matchingServices E p sel) p) (filter (\<lambda>p. matchingServices E p sel \<noteq> []) pods)"
    by (auto simp: discoverPods_def split: option.splits)
  show ?thesis
    using I(1) S(1) P(1) S(2) conjunct2 [OF conjunct2 [OF R]]
  proof (rule that)
    show "cs = sortCandidates (clusterCandidates E d t (listedRoutes K) ingresses nodes
        (shownServices (routedServices E (listedRoutes K) ingresses) services) pods)"
      unfolding cs clusterCandidates_def conjunct1 [OF R] I(2) S(3) P(2) S(4) shown ..
  qed
qed

section \<open>One valid snapshot\<close>

text \<open>
  What the libraries do: digests are not empty and do not collide; the URLs that are put together from a scheme or
  protocol and a host parse as URLs with a host; protocols are written in lower case.
\<close>

definition hostChar :: "char \<Rightarrow> bool" where
  "hostChar c \<longleftrightarrow> c \<in> set ''abcdefghijklmnopqrstuvwxyzABCDEFGHIJKLMNOPQRSTUVWXYZ0123456789-.:*''"

definition kubeHost :: "string \<Rightarrow> bool" where
  "kubeHost h \<longleftrightarrow> h \<noteq> [] \<and> list_all hostChar h"

definition librariesOK :: "kube_lib \<Rightarrow> bool" where
  "librariesOK E \<longleftrightarrow>
     inj (sha256_hex (kl_golib E)) \<and> (\<forall>s. s \<noteq> [] \<longrightarrow> sha256_hex (kl_golib E) s \<noteq> [])
     \<and> (\<forall>scheme host path. scheme \<in> {[], ''http'', ''https''} \<and> kubeHost host \<longrightarrow>
           validEndpointURL (kl_golib E) (TrimSpace (kl_URL E scheme host (normalizeRoutePath path))))
     \<and> (\<forall>protocol host port. protocol \<in> {[], ''TCP'', ''UDP'', ''SCTP''} \<and> kubeHost host \<and> 0 \<le> port \<and> port \<le> 65535 \<longrightarrow>
           validEndpointURL (kl_golib E) (TrimSpace (portURL E protocol host port)))"

text \<open>What the API server guarantees of stored objects: names, ports, protocols, hosts, and that names are unique.\<close>

definition nameOK :: "string \<Rightarrow> string \<Rightarrow> bool" where
  "nameOK namespace name \<longleftrightarrow> TrimSpace name \<noteq> [] \<and> NUL \<notin> set namespace \<and> NUL \<notin> set name"

abbreviation portNumber :: "int \<Rightarrow> bool" where
  "portNumber n \<equiv> 0 \<le> n \<and> n \<le> 65535"

definition serviceOK :: "KubeService \<Rightarrow> bool" where
  "serviceOK s \<longleftrightarrow> nameOK (ks_Namespace s) (ks_Name s) \<and> (\<forall>h \<in> set (externalHosts s). kubeHost h)
     \<and> (\<forall>p \<in> set (ks_Ports s). portNumber (sp_Port p) \<and> sp_NodePort p \<le> 65535 \<and> sp_Protocol p \<in> {[], ''TCP'', ''UDP'', ''SCTP''})"

definition nodeOK :: "KubeNode \<Rightarrow> bool" where
  "nodeOK n \<longleftrightarrow> (\<forall>(kind, address) \<in> set n. address = [] \<or> kubeHost address)"

definition podOK :: "KubePod \<Rightarrow> bool" where
  "podOK p \<longleftrightarrow> nameOK (kp_Namespace p) (kp_Name p)
     \<and> (\<forall>c \<in> set (kp_InitContainers p @ kp_Containers p @ kp_EphemeralContainers p).
           NUL \<notin> set (kc_Image c) \<and> (\<forall>q \<in> set (kc_Ports c). portNumber (cp_ContainerPort q)))"

definition backendOK :: "IngressBackend \<Rightarrow> bool" where
  "backendOK b \<longleftrightarrow> (case ib_Service b of Some (name, port) \<Rightarrow> portNumber port | None \<Rightarrow> True)"

definition ingressOK :: "KubeIngress \<Rightarrow> bool" where
  "ingressOK i \<longleftrightarrow> nameOK (ki_Namespace i) (ki_Name i) \<and> (\<forall>b \<in> set (ingressBackends i). backendOK b)
     \<and> (\<forall>r \<in> set (ki_Rules i). TrimSpace (ir_Host r) = [] \<or> kubeHost (TrimSpace (ir_Host r)))"

definition routeOK :: "kube_lib \<Rightarrow> HTTPRoute \<Rightarrow> bool" where
  "routeOK E r \<longleftrightarrow> nameOK (hr_Namespace r) (hr_Name r)
     \<and> (\<forall>h \<in> set (foundOr [] (kl_StringSlice E (hr_Object r) [''spec'', ''hostnames''])). TrimSpace h = [] \<or> kubeHost (TrimSpace h))"

abbreviation trimmedName :: "('a \<Rightarrow> string) \<Rightarrow> ('a \<Rightarrow> string) \<Rightarrow> 'a \<Rightarrow> string \<times> string" where
  "trimmedName namespace name x \<equiv> (TrimSpace (namespace x), TrimSpace (name x))"

definition uniqueNames :: "cluster \<Rightarrow> bool" where
  "uniqueNames K \<longleftrightarrow>
     distinct (map (trimmedName hr_Namespace hr_Name) (listedRoutes K))
     \<and> (\<forall>is. cl_Ingresses K = Some is \<longrightarrow> distinct (map (trimmedName ki_Namespace ki_Name) is))
     \<and> (\<forall>ss. cl_Services K = Some ss \<longrightarrow> distinct (map (trimmedName ks_Namespace ks_Name) ss))
     \<and> (\<forall>ps. cl_Pods K = Some ps \<longrightarrow> distinct (map (trimmedName kp_Namespace kp_Name) ps))"

definition clusterOK :: "kube_lib \<Rightarrow> cluster \<Rightarrow> bool" where
  "clusterOK E K \<longleftrightarrow>
     uniqueNames K \<and> (\<forall>r \<in> set (listedRoutes K). routeOK E r)
     \<and> (\<forall>is. cl_Ingresses K = Some is \<longrightarrow> (\<forall>i \<in> set is. ingressOK i))
     \<and> (\<forall>ss. cl_Services K = Some ss \<longrightarrow> (\<forall>s \<in> set ss. serviceOK s))
     \<and> (\<forall>ns. cl_Nodes K = Some ns \<longrightarrow> (\<forall>n \<in> set ns. nodeOK n))
     \<and> (\<forall>ps. cl_Pods K = Some ps \<longrightarrow> (\<forall>p \<in> set ps. podOK p))"

definition endpointOK :: "kube_lib \<Rightarrow> Endpoint \<Rightarrow> bool" where
  "endpointOK E e \<longleftrightarrow> portNumber (ep_Port e) \<and> (ep_URL e = [] \<or> validEndpointURL (kl_golib E) (TrimSpace (ep_URL e)))"

lemma endpointOK_valid: "endpointOK E e \<Longrightarrow> validEndpoint (kl_golib E) i (normalizeEndpoint e) = None"
  by (auto simp: endpointOK_def validEndpoint_def normalizeEndpoint_def)

lemma serviceEndpoints_OK:
  assumes "librariesOK E" "serviceOK s" "\<forall>n \<in> set nodes. nodeOK n"
  shows "\<forall>e \<in> set (serviceEndpoints s @ externalServiceEndpoints E s @ nodeServiceEndpoints E s nodes). endpointOK E e"
proof -
  have host: "nodeHost h n = [] \<or> kubeHost (nodeHost h n)" if "nodeOK n" "h = [] \<or> kubeHost h" for n h
    using that by (induction h n rule: nodeHost.induct) (auto simp: nodeOK_def)
  have "endpointOK E e" if "e \<in> set (nodeServiceEndpoints E s nodes)" for e
    using that assms host [of _ "[]"]
    by (fastforce simp: nodeServiceEndpoints_def Let_def endpointOK_def serviceOK_def librariesOK_def split: if_splits)
  moreover have "endpointOK E e" if "e \<in> set (externalServiceEndpoints E s)" for e
    using that assms by (fastforce simp: externalServiceEndpoints_def endpointOK_def serviceOK_def librariesOK_def)
  moreover have "endpointOK E e" if "e \<in> set (serviceEndpoints s)" for e
    using that assms by (auto simp: serviceEndpoints_def Let_def endpointOK_def serviceOK_def)
  ultimately show ?thesis by auto
qed

lemma podObservations_OK:
  assumes "podOK p"
  shows "(\<forall>img \<in> set (fst (podObservations p)). img \<noteq> [] \<and> NUL \<notin> set img \<and> TrimSpace img = img)
    \<and> (\<forall>e \<in> set (snd (podObservations p)). endpointOK E e)"
proof -
  let ?ok = "\<lambda>(images, endpoints). (\<forall>img \<in> set images. img \<noteq> [] \<and> NUL \<notin> set img \<and> TrimSpace img = img)
    \<and> (\<forall>e \<in> set endpoints. endpointOK E e)"
  have NUL_trim: "NUL \<notin> set (TrimSpace s)" if "NUL \<notin> set s" for s
    using that set_TrimSpace by blast
  have gen: "?ok (fold appendContainer cs acc)"
    if "?ok acc" "\<forall>c \<in> set cs. NUL \<notin> set (kc_Image c) \<and> (\<forall>q \<in> set (kc_Ports c). portNumber (cp_ContainerPort q))" for cs acc
    using that
  proof (induction cs arbitrary: acc)
    case (Cons c cs)
    then have "?ok (appendContainer c acc)"
      by (auto simp: appendContainer_def Let_def endpointOK_def NUL_trim split: prod.split)
    with Cons show ?case by simp
  qed simp
  have "?ok (podObservations p)"
    unfolding podObservations_def by (rule gen) (use assms in \<open>auto simp: podOK_def\<close>)
  then show ?thesis by (simp add: case_prod_beta')
qed

lemma ingressEndpoints_OK:
  assumes "librariesOK E" "ingressOK i"
  shows "\<forall>e \<in> set (fst (ingressEndpoints E i)). endpointOK E e"
proof -
  have url: "routeURL E scheme (ir_Host r) path = [] \<or>
      validEndpointURL (kl_golib E) (TrimSpace (routeURL E scheme (ir_Host r) path))"
    if "scheme \<in> {''http'', ''https''}" "r \<in> set (ki_Rules i)" for scheme r path
    using that assms by (auto simp: routeURL_def Let_def librariesOK_def ingressOK_def)
  have port: "portNumber (snd (ingressBackend b))" if "b \<in> set (ingressBackends i)" for b
    using that assms(2) by (auto simp: ingressBackend_def backendOK_def ingressOK_def split: option.splits)
  have rule: "endpointOK E e" if "r \<in> set (ki_Rules i)" "e \<in> set (ingressRule E anyHost tlsHosts r)" for r e anyHost tlsHosts
  proof -
    define scheme where "scheme = (if anyHost \<or> hostIsTLS E (ir_Host r) tlsHosts then ''https'' else ''http'')"
    from that obtain path b paths where b: "(path, b) \<in> set paths" "ir_HTTP r = Some paths"
        "e = ingressEndpoint ''route'' (routeURL E scheme (ir_Host r) path) scheme b"
      unfolding ingressRule_def Let_def scheme_def [symmetric] by (auto split: option.splits)
    have s: "scheme \<in> {''http'', ''https''}" by (simp add: scheme_def)
    from b(1,2) that(1) have "b \<in> set (ingressBackends i)" by (force simp: ingressBackends_def)
    from port [OF this] url [OF s that(1), of path] show ?thesis
      unfolding b(3) by (auto simp: ingressEndpoint_def endpointOK_def case_prod_beta' Let_def)
  qed
  moreover have "endpointOK E (ingressEndpoint ''default-backend'' [] ''http'' b)" if "ki_DefaultBackend i = Some b" for b
    using port [of b] that by (auto simp: ingressBackends_def ingressEndpoint_def endpointOK_def split: prod.split)
  ultimately show ?thesis by (auto simp: ingressEndpoints_def Let_def split: option.splits)
qed

lemma eachFrom_Inr:
  "eachFrom i f xs = Inr ys \<Longrightarrow> length ys = length xs \<and> (\<forall>k < length xs. f (i + k) (xs ! k) = Inr (ys ! k))"
proof (induction xs arbitrary: i ys)
  case (Cons x xs)
  then obtain y zs where y: "f i x = Inr y" "eachFrom (Suc i) f xs = Inr zs" "ys = y # zs" by (auto split: sum.splits)
  from Cons.IH [OF y(2)] y show ?case by (auto simp: nth_Cons split: nat.split)
qed simp

lemma eachFrom_set:
  "eachFrom i f xs = Inr ys \<Longrightarrow> y \<in> set ys \<Longrightarrow> \<exists>k < length xs. f (i + k) (xs ! k) = Inr y"
  by (metis eachFrom_Inr in_set_conv_nth)

lemma routeBackendPort_OK: "routeBackendPort ref = Inr port \<Longrightarrow> portNumber port"
  by (auto simp: routeBackendPort_def Let_def split: option.splits kvalue.splits if_splits)

lemma routeBackendOf_OK: "routeBackendOf E ns ri i raw = Inr b \<Longrightarrow> portNumber (rb_port b)"
  by (auto simp: routeBackendOf_def Let_def dest: routeBackendPort_OK split: kvalue.splits option.splits sum.splits prod.splits)

lemma httpRouteBackends_OK: "httpRouteBackends E rule ns ri = Inr bs \<Longrightarrow> b \<in> set bs \<Longrightarrow> portNumber (rb_port b)"
  by (auto simp: httpRouteBackends_def Let_def dest!: eachFrom_set dest: routeBackendOf_OK split: nested.splits if_splits)

lemma routeRule_Inr:
  assumes "routeRule E ns hosts ri raw = Inr (es, refs)"
  obtains rule paths backends where "raw = KMap rule" "httpRoutePaths E rule = Inr paths" "httpRouteBackends E rule ns ri = Inr backends"
    "set es = {\<lparr>ep_Name = rb_name b, ep_URL = routeURL E [] host path, ep_Port = rb_port b, ep_Protocol = ''http'',
                ep_Provenance = ''kubernetes.httproute''\<rparr> | host path b. host \<in> set hosts \<and> path \<in> set paths \<and> b \<in> set backends}"
    "set refs = {(rb_namespace b, rb_name b) | host path b. host \<in> set hosts \<and> path \<in> set paths \<and> b \<in> set backends \<and> rb_service b}"
proof -
  from assms obtain rule paths backends where r: "raw = KMap rule" "httpRoutePaths E rule = Inr paths"
      "httpRouteBackends E rule ns ri = Inr backends"
    by (auto simp: routeRule_def split: kvalue.splits sum.splits)
  let ?all = "concat (map (\<lambda>hostname. concat (map (\<lambda>path. map (\<lambda>b. (hostname, path, b)) backends) paths)) hosts)"
  have all: "set ?all = set hosts \<times> set paths \<times> set backends" by auto
  from assms r have es: "es = map (\<lambda>(hostname, path, b). \<lparr>ep_Name = rb_name b, ep_URL = routeURL E [] hostname path, ep_Port = rb_port b,
                                 ep_Protocol = ''http'', ep_Provenance = ''kubernetes.httproute''\<rparr>) ?all"
    and refs: "refs = map (\<lambda>(_, _, b). (rb_namespace b, rb_name b)) (filter (\<lambda>(_, _, b). rb_service b) ?all)"
    by (simp_all add: routeRule_def Let_def)
  show ?thesis
  proof (rule that [OF r])
    show "set es = {\<lparr>ep_Name = rb_name b, ep_URL = routeURL E [] host path, ep_Port = rb_port b, ep_Protocol = ''http'',
        ep_Provenance = ''kubernetes.httproute''\<rparr> | host path b. host \<in> set hosts \<and> path \<in> set paths \<and> b \<in> set backends}"
      unfolding es list.set_map all by (force simp: image_iff)
    show "set refs = {(rb_namespace b, rb_name b) | host path b. host \<in> set hosts \<and> path \<in> set paths \<and> b \<in> set backends \<and> rb_service b}"
      unfolding refs list.set_map set_filter all by (force simp: image_iff)
  qed
qed

lemma routeRule_endpoints:
  assumes "routeRule E ns hosts ri raw = Inr (es, refs)" "e \<in> set es"
  shows "\<exists>host \<in> set hosts. \<exists>path. ep_URL e = routeURL E [] host path \<and> portNumber (ep_Port e)"
proof -
  from assms(1) obtain rule paths backends where r: "httpRouteBackends E rule ns ri = Inr backends"
      "set es = {\<lparr>ep_Name = rb_name b, ep_URL = routeURL E [] host path, ep_Port = rb_port b, ep_Protocol = ''http'',
                ep_Provenance = ''kubernetes.httproute''\<rparr> | host path b. host \<in> set hosts \<and> path \<in> set paths \<and> b \<in> set backends}"
    by (rule routeRule_Inr) blast
  with assms(2) obtain host path b where "host \<in> set hosts" "b \<in> set backends" "ep_URL e = routeURL E [] host path" "ep_Port e = rb_port b"
    by auto
  with httpRouteBackends_OK [OF r(1)] show ?thesis by metis
qed

lemma httpRouteEndpoints_OK:
  assumes "librariesOK E" "routeOK E r" "httpRouteEndpoints E r = Inr (es, refs)"
  shows "\<forall>e \<in> set es. endpointOK E e"
proof
  fix e assume e: "e \<in> set es"
  let ?hosts = "foundOr [] (kl_StringSlice E (hr_Object r) [''spec'', ''hostnames''])"
  from assms(3) obtain parts where parts: "eachFrom 0 (routeRule E (hr_Namespace r) (if ?hosts = [] then [[]] else ?hosts))
      (foundOr [] (kl_Slice E (hr_Object r) [''spec'', ''rules''])) = Inr parts" "es = concat (map fst parts)"
    by (auto simp: httpRouteEndpoints_def Let_def foundOr_def split: nested.splits sum.splits if_splits)
  with e obtain part where part: "part \<in> set parts" "e \<in> set (fst part)" by auto
  from eachFrom_set [OF parts(1) part(1)] obtain ri raw where
    "routeRule E (hr_Namespace r) (if ?hosts = [] then [[]] else ?hosts) ri raw = Inr (fst part, snd part)" by auto
  from routeRule_endpoints [OF this part(2)] obtain host path where
    "host \<in> set (if ?hosts = [] then [[]] else ?hosts)" "ep_URL e = routeURL E [] host path" "portNumber (ep_Port e)" by blast
  moreover from this have "TrimSpace host = [] \<or> kubeHost (TrimSpace host)"
    using assms(2) by (auto simp: routeOK_def split: if_splits)
  ultimately show "endpointOK E e" using assms(1) by (auto simp: endpointOK_def routeURL_def Let_def librariesOK_def)
qed

lemma kind_trimmed [simp]:
  "TrimSpace ''httproute'' = ''httproute''" "TrimSpace ''ingress'' = ''ingress''" "TrimSpace ''service'' = ''service''"
  "TrimSpace ''pod'' = ''pod''" "TrimSpace ''kubernetes'' = ''kubernetes''"
  by (intro TrimSpace_trimmed plain_trimmed; simp)+

lemma NewKubeDiscoverer_source:
  assumes "NewKubeDiscoverer client dynamicClient sourceID namespace = Inr d"
  shows "normalizeSource (kubeSource d) = kubeSource d" "kd_sourceID d \<noteq> []" "NUL \<notin> set (kd_sourceID d)"
  using assms by (auto simp: NewKubeDiscoverer_def Let_def normalizeSource_def kubeSource_def sourceKind_def split: if_splits)

text \<open>The candidates of a well-formed cluster, before they are sorted.\<close>

definition sound :: "kube_lib \<Rightarrow> KubeDiscoverer \<Rightarrow> time \<Rightarrow> Candidate \<Rightarrow> bool" where
  "sound E d t c \<longleftrightarrow>
     (\<exists>kind namespace name. observes E d t (kubeResource kind namespace name) c \<and> nameOK namespace name
        \<and> kind \<in> {''httproute'', ''ingress'', ''service'', ''pod''})
     \<and> (\<forall>img \<in> set (c_Images c). img \<noteq> [] \<and> NUL \<notin> set img \<and> TrimSpace img = img) \<and> (\<forall>e \<in> set (c_Endpoints c). endpointOK E e)"

lemma soundI:
  "observes E d t (kubeResource kind namespace name) c \<Longrightarrow> nameOK namespace name \<Longrightarrow>
   kind \<in> {''httproute'', ''ingress'', ''service'', ''pod''} \<Longrightarrow>
   \<forall>img \<in> set (c_Images c). img \<noteq> [] \<and> NUL \<notin> set img \<and> TrimSpace img = img \<Longrightarrow>
   \<forall>e \<in> set (c_Endpoints c). endpointOK E e \<Longrightarrow> sound E d t c"
  unfolding sound_def by blast

lemma sound_valid:
  assumes "sound E d t c" "librariesOK E" "\<not> IsZero t"
    and d: "normalizeSource (kubeSource d) = kubeSource d" "kd_sourceID d \<noteq> []" "NUL \<notin> set (kd_sourceID d)"
  shows "CandidateValidate (kl_golib E) c = None \<and> c_Source c = kubeSource d \<and> c_ID c = StableID (kl_golib E) (kubeSource d) (c_Resource c)"
proof -
  from assms(1) obtain kind namespace name where o: "observes E d t (kubeResource kind namespace name) c" "nameOK namespace name"
      "kind \<in> {''httproute'', ''ingress'', ''service'', ''pod''}"
    and img: "\<forall>img \<in> set (c_Images c). img \<noteq> [] \<and> NUL \<notin> set img \<and> TrimSpace img = img"
    and ep: "\<forall>e \<in> set (c_Endpoints c). endpointOK E e"
    unfolding sound_def by blast
  have "validIdentity (kubeSource d) (normalizeResource (kubeResource kind namespace name))"
    using d o(2,3) set_TrimSpace [of namespace] set_TrimSpace [of name]
    by (auto simp: validIdentity_def kubeSource_def sourceKind_def normalizeResource_def nameOK_def NUL_def)
  then show ?thesis
    using candidate_valid [OF o(1) assms(3) d(1)] assms(2) img ep endpointOK_valid by (simp add: librariesOK_def)
qed

lemma shownServices_subset: "set (shownServices routed ss) \<subseteq> set ss"
  by (auto simp: shownServices_def)

lemma clusterCandidates_sound:
  assumes "librariesOK E" "clusterOK E K" "cl_Ingresses K = Some ingresses" "cl_Services K = Some services" "cl_Pods K = Some pods"
    and nodes: "(if needsNodes services then cl_Nodes K else Some []) = Some nodes"
    and found: "\<forall>r \<in> set (listedRoutes K). \<exists>found. httpRouteEndpoints E r = Inr found"
    and "set shown \<subseteq> set services"
    and "c \<in> set (clusterCandidates E d t (listedRoutes K) ingresses nodes shown pods)"
  shows "sound E d t c"
proof -
  have N: "\<forall>n \<in> set nodes. nodeOK n" using nodes assms(2) by (auto simp: clusterOK_def split: if_splits)
  have route: "sound E d t (routeCandidate E d t r (endpointsOfRoute E r, refsOfRoute E r))" if r: "r \<in> set (listedRoutes K)" for r
  proof -
    have ok: "routeOK E r" using assms(2) r by (auto simp: clusterOK_def)
    from found r obtain es refs where f: "httpRouteEndpoints E r = Inr (es, refs)" by fastforce
    then have "endpointsOfRoute E r = es" by (simp add: endpointsOfRoute_def)
    with httpRouteEndpoints_OK [OF assms(1) ok f] ok show ?thesis
      by (intro soundI [OF observes_route]) (auto simp: candidate_observations routeOK_def)
  qed
  have ingress: "sound E d t (ingressCandidate E d t i)" if "i \<in> set ingresses" for i
  proof -
    have ok: "ingressOK i" using assms(2,3) that by (auto simp: clusterOK_def)
    with ingressEndpoints_OK [OF assms(1) ok] show ?thesis
      by (intro soundI [OF observes_ingress]) (auto simp: candidate_observations ingressOK_def)
  qed
  have service: "sound E d t (serviceCandidate E d t nodes s)" if "s \<in> set shown" for s
  proof -
    have ok: "serviceOK s" using assms(2,4,8) that by (auto simp: clusterOK_def)
    with serviceEndpoints_OK [OF assms(1) ok N] show ?thesis
      by (intro soundI [OF observes_service]) (auto simp: candidate_observations serviceOK_def)
  qed
  have pod: "sound E d t (podCandidate E d t refs p)" if "p \<in> set pods" for p refs
  proof -
    have ok: "podOK p" using assms(2,5) that by (auto simp: clusterOK_def)
    with podObservations_OK [OF ok, of E] show ?thesis
      by (intro soundI [OF observes_pod]) (auto simp: candidate_observations podOK_def)
  qed
  from assms(9) route ingress service pod show ?thesis by (auto simp: clusterCandidates_def)
qed

text \<open>Different objects are different resources.\<close>

lemma resource_of_candidate:
  "c_Resource (routeCandidate E d t r found) = \<lparr>res_Kind = ''httproute'', res_Namespace = TrimSpace (hr_Namespace r), res_Name = TrimSpace (hr_Name r)\<rparr>"
  "c_Resource (ingressCandidate E d t i) = \<lparr>res_Kind = ''ingress'', res_Namespace = TrimSpace (ki_Namespace i), res_Name = TrimSpace (ki_Name i)\<rparr>"
  "c_Resource (serviceCandidate E d t nodes s) = \<lparr>res_Kind = ''service'', res_Namespace = TrimSpace (ks_Namespace s), res_Name = TrimSpace (ks_Name s)\<rparr>"
  "c_Resource (podCandidate E d t refs p) = \<lparr>res_Kind = ''pod'', res_Namespace = TrimSpace (kp_Namespace p), res_Name = TrimSpace (kp_Name p)\<rparr>"
  using observes_route [of E d t r found] observes_ingress [of E d t i] observes_service [of E d t s nodes] observes_pod [of E d t p refs]
  by (simp_all add: observesIn_def normalizeResource_def)

lemma distinct_resources:
  "distinct (map (trimmedName namespace name) xs) \<Longrightarrow> \<forall>x \<in> set xs. f x = \<lparr>res_Kind = kind, res_Namespace = TrimSpace (namespace x), res_Name = TrimSpace (name x)\<rparr> \<Longrightarrow>
   distinct (map f xs)"
  by (induction xs) (auto simp: image_iff)

lemma clusterCandidates_distinct:
  assumes "uniqueNames K" "cl_Ingresses K = Some ingresses" "cl_Services K = Some services" "cl_Pods K = Some pods"
  shows "distinct (map c_Resource (clusterCandidates E d t (listedRoutes K) ingresses nodes (shownServices routed services) pods))"
proof -
  have "distinct (map (trimmedName ks_Namespace ks_Name) (shownServices routed services))"
    using assms(1,3) unfolding shownServices_def uniqueNames_def by (blast intro: distinct_map_filter_keys)
  moreover have "distinct (map (trimmedName kp_Namespace kp_Name) (filter P pods))" for P
    using assms(1,4) unfolding uniqueNames_def by (blast intro: distinct_map_filter_keys)
  moreover have "distinct (map (trimmedName hr_Namespace hr_Name) (listedRoutes K))"
      "distinct (map (trimmedName ki_Namespace ki_Name) ingresses)"
    using assms(1,2) unfolding uniqueNames_def by blast+
  ultimately show ?thesis
    unfolding clusterCandidates_def map_append distinct_append list.map_comp
    by (auto simp: resource_of_candidate intro!: distinct_resources)
qed


section \<open>The order of the lists\<close>

lemma dedup_set_cong: "set (dedup_by (\<lambda>x. x) xs) = set xs"
  by simp

lemma readRoutes_success:
  "\<forall>r \<in> set rs. \<exists>found. httpRouteEndpoints E r = Inr found \<Longrightarrow>
     readRoutes E rs = Inr (map (\<lambda>r. (r, endpointsOfRoute E r, refsOfRoute E r)) rs)"
  by (induction rs) (auto simp: endpointsOfRoute_def refsOfRoute_def)

text \<open>When discovery succeeds: the converse of \<open>KubeDiscover_Inr\<close>.\<close>

lemma KubeDiscover_success:
  assumes "cl_HTTPRoutes K \<noteq> ListError" "\<forall>r \<in> set (listedRoutes K). \<exists>found. httpRouteEndpoints E r = Inr found"
    and "cl_Ingresses K = Some ingresses" "cl_Services K = Some services" "cl_Pods K = Some pods"
    and "(if needsNodes services then cl_Nodes K else Some []) = Some nodes"
  shows "KubeDiscover E d t K = Inr (sortCandidates (clusterCandidates E d t (listedRoutes K) ingresses nodes
       (shownServices (routedServices E (listedRoutes K) ingresses) services) pods))"
proof -
  have "\<exists>rcs rrefs. discoverHTTPRoutes E d t K = Inr (rcs, rrefs)"
    using assms(1,2) by (auto simp: discoverHTTPRoutes_def listedRoutes_def readRoutes_success split: listing.splits)
  then have "\<exists>cs. KubeDiscover E d t K = Inr cs"
    using assms(3-6) by (auto simp: KubeDiscover_def discoverIngresses_def discoverServices_def discoverPods_def Let_def)
  then obtain cs where run: "KubeDiscover E d t K = Inr cs" ..
  then show ?thesis by (rule KubeDiscover_Inr) (use assms(3-6) run in auto)
qed

lemma KubeDiscover_listed: "KubeDiscover E d t K = Inr cs \<Longrightarrow> cl_HTTPRoutes K \<noteq> ListError"
  by (auto simp: KubeDiscover_def discoverHTTPRoutes_def)

definition sameObjects :: "cluster \<Rightarrow> cluster \<Rightarrow> bool" where
  "sameObjects K K' \<longleftrightarrow>
     (cl_HTTPRoutes K = ListError \<longleftrightarrow> cl_HTTPRoutes K' = ListError) \<and> mset (listedRoutes K) = mset (listedRoutes K')
     \<and> map_option mset (cl_Ingresses K) = map_option mset (cl_Ingresses K')
     \<and> map_option mset (cl_Services K) = map_option mset (cl_Services K')
     \<and> map_option mset (cl_Pods K) = map_option mset (cl_Pods K') \<and> cl_Nodes K = cl_Nodes K'"

lemma selectedServices_distinct:
  assumes "distinct (map refOf ss)"
  shows "selectedServices ss = rev (map (\<lambda>s. (refOf s, s)) ss)"
proof -
  have "fold selectService ss acc = rev (map (\<lambda>s. (refOf s, s)) ss) @ acc"
    if "distinct (map refOf ss)" "fst ` set acc \<inter> refOf ` set ss = {}" for ss acc
    using that
  proof (induction ss arbitrary: acc)
    case (Cons s ss)
    have "filter (\<lambda>p. fst p \<noteq> refOf s) acc = acc" using Cons.prems(2) by (intro filter_True) force
    then have "selectService s acc = (refOf s, s) # acc" by (simp add: selectService_def)
    with Cons show ?case by auto
  qed simp
  from this [of ss "[]"] assms show ?thesis by (simp add: selectedServices_def)
qed

lemma matchingServices_perm: "mset sel = mset sel' \<Longrightarrow> matchingServices E p sel = matchingServices E p sel'"
  unfolding matchingServices_def by (intro properties_for_sort) simp_all

lemma clusterCandidates_perm:
  assumes "mset rs = mset rs'" "mset ingresses = mset ingresses'" "mset shown = mset shown'" "mset pods = mset pods'"
    and "distinct (map refOf shown)"
  shows "mset (clusterCandidates E d t rs ingresses nodes shown pods) = mset (clusterCandidates E d t rs' ingresses' nodes shown' pods')"
proof -
  have "distinct (map refOf shown')" using assms(3,5) by (metis mset_eq_imp_distinct_iff mset_map)
  with assms(3,5) have "mset (selectedServices shown) = mset (selectedServices shown')" by (simp add: selectedServices_distinct)
  then have "matchingServices E p (selectedServices shown) = matchingServices E p (selectedServices shown')" for p
    by (rule matchingServices_perm)
  with assms(1-4) show ?thesis by (simp add: clusterCandidates_def)
qed

lemma sortKey_inj:
  assumes "distinct (map c_Resource cs)" "\<forall>c \<in> set cs. res_Kind (c_Resource c) \<in> {''httproute'', ''ingress'', ''service'', ''pod''}"
  shows "inj_on sortKey (set cs)"
proof (rule inj_onI)
  fix a b
  assume ab: "a \<in> set cs" "b \<in> set cs" "sortKey a = sortKey b"
  then have "kindOrder (res_Kind (c_Resource a)) = kindOrder (res_Kind (c_Resource b))" by (simp add: sortKey_def)
  moreover have "res_Kind (c_Resource a) \<in> {''httproute'', ''ingress'', ''service'', ''pod''}"
      "res_Kind (c_Resource b) \<in> {''httproute'', ''ingress'', ''service'', ''pod''}"
    using assms(2) ab(1,2) by blast+
  ultimately have "res_Kind (c_Resource a) = res_Kind (c_Resource b)" by (auto simp: kindOrder_def)
  with ab(3) have "c_Resource a = c_Resource b" by (simp add: sortKey_def)
  with ab(1,2) show "a = b" by (intro distinct_map_inj_on [OF assms(1)])
qed

lemma clusterCandidates_kinds:
  "\<forall>c \<in> set (clusterCandidates E d t rs ingresses nodes shown pods). res_Kind (c_Resource c) \<in> {''httproute'', ''ingress'', ''service'', ''pod''}"
  by (auto simp: clusterCandidates_def resource_of_candidate)


section \<open>What is shown\<close>

definition podSelected :: "kube_lib \<Rightarrow> KubeService list \<Rightarrow> KubePod \<Rightarrow> bool" where
  "podSelected E shown p \<longleftrightarrow>
     (\<exists>s \<in> set shown. ks_Namespace s = kp_Namespace p \<and> ks_Selector s \<noteq> [] \<and> kl_Matches E (ks_Selector s) (kp_Labels p))"

lemma sort_Nil_iff [simp]: "sort xs = [] \<longleftrightarrow> xs = []"
  by (metis length_0_conv length_sort)

lemma resources_of_cluster:
  "c_Resource ` set (clusterCandidates E d t rs ingresses nodes shown pods) =
     (\<lambda>r. normalizeResource (kubeResource ''httproute'' (hr_Namespace r) (hr_Name r))) ` set rs
     \<union> (\<lambda>i. normalizeResource (kubeResource ''ingress'' (ki_Namespace i) (ki_Name i))) ` set ingresses
     \<union> (\<lambda>s. normalizeResource (kubeResource ''service'' (ks_Namespace s) (ks_Name s))) ` set shown
     \<union> (\<lambda>p. normalizeResource (kubeResource ''pod'' (kp_Namespace p) (kp_Name p)))
         ` {p \<in> set pods. matchingServices E p (selectedServices shown) \<noteq> []}"
  by (simp add: clusterCandidates_def image_Un image_image resource_of_candidate normalizeResource_def Un_assoc)

lemma matchingServices_selected:
  assumes "distinct (map refOf shown)"
  shows "matchingServices E p (selectedServices shown) \<noteq> [] \<longleftrightarrow> podSelected E shown p"
  unfolding selectedServices_distinct [OF assms] podSelected_def matchingServices_def
  by (auto simp: filter_empty_conv)

lemma trimmedName_inj:
  "distinct (map (trimmedName namespace name) xs) \<Longrightarrow> x \<in> set xs \<Longrightarrow> y \<in> set xs \<Longrightarrow>
     TrimSpace (namespace x) = TrimSpace (namespace y) \<Longrightarrow> TrimSpace (name x) = TrimSpace (name y) \<Longrightarrow> x = y"
  by (rule distinct_map_inj_on [where f = "trimmedName namespace name"]) simp_all

text \<open>
  C19. What a discovery shows: every listed route and ingress; a Service exactly when nothing is routed at all, when it
  is reachable from outside, or when a route or an ingress refers to it; a Pod exactly when a shown Service of its
  namespace with a selector matches its labels.
\<close>

theorem discovery_shows_what_is_reachable:
  assumes "uniqueNames K" "KubeDiscover E d t K = Inr cs"
    and "cl_Ingresses K = Some ingresses" "cl_Services K = Some services" "cl_Pods K = Some pods"
  defines "routed \<equiv> routedServices E (listedRoutes K) ingresses"
    and "shows \<equiv> \<lambda>kind namespace name. \<exists>c \<in> set cs. c_Resource c = normalizeResource (kubeResource kind namespace name)"
  shows "(\<forall>r \<in> set (listedRoutes K). shows ''httproute'' (hr_Namespace r) (hr_Name r)) \<and>
    (\<forall>i \<in> set ingresses. shows ''ingress'' (ki_Namespace i) (ki_Name i)) \<and>
    (\<forall>s \<in> set services. shows ''service'' (ks_Namespace s) (ks_Name s) \<longleftrightarrow> routed = {} \<or> isExternalService s \<or> refOf s \<in> routed) \<and>
    (\<forall>p \<in> set pods. shows ''pod'' (kp_Namespace p) (kp_Name p) \<longleftrightarrow>
       podSelected E (filter (\<lambda>s. routed = {} \<or> isExternalService s \<or> refOf s \<in> routed) services) p)"
proof -
  let ?shown = "shownServices routed services"
  from assms(2) obtain nodes where cs: "set cs = set (clusterCandidates E d t (listedRoutes K) ingresses nodes ?shown pods)"
    by (rule KubeDiscover_Inr) (use assms(3-5) in \<open>auto simp: sortCandidates_def routed_def\<close>)
  have names: "distinct (map (trimmedName ks_Namespace ks_Name) services)" "distinct (map (trimmedName kp_Namespace kp_Name) pods)"
    using assms(1,4,5) unfolding uniqueNames_def by blast+
  then have "distinct (map refOf services)" by (auto simp: distinct_map inj_on_def)
  then have refs: "distinct (map refOf ?shown)" unfolding shownServices_def by (rule distinct_map_filter_keys)
  note inj = trimmedName_inj [OF names(1)] trimmedName_inj [OF names(2)]
  have "shows kind namespace name \<longleftrightarrow> normalizeResource (kubeResource kind namespace name) \<in> c_Resource ` set cs" for kind namespace name
    unfolding shows_def by (force simp: image_iff)
  note S = this [unfolded cs resources_of_cluster matchingServices_selected [OF refs]]
  have "shows ''service'' (ks_Namespace s) (ks_Name s) \<longleftrightarrow> s \<in> set ?shown" if "s \<in> set services" for s
    unfolding S using that inj(1) [of s] shownServices_subset [of routed services]
    by (auto simp: image_iff normalizeResource_def)
  moreover have "shows ''pod'' (kp_Namespace p) (kp_Name p) \<longleftrightarrow> podSelected E ?shown p" if "p \<in> set pods" for p
    unfolding S using that inj(2) [of p] by (auto simp: image_iff normalizeResource_def)
  moreover have "shows ''httproute'' (hr_Namespace r) (hr_Name r)" if "r \<in> set (listedRoutes K)" for r
    unfolding S using that by blast
  moreover have "shows ''ingress'' (ki_Namespace i) (ki_Name i)" if "i \<in> set ingresses" for i
    unfolding S using that by blast
  ultimately show ?thesis by (auto simp: shownServices_def)
qed

section \<open>The evidence of routes\<close>

definition namesService :: "routeBackend list \<Rightarrow> Exposure \<Rightarrow> bool" where
  "namesService backends x \<longleftrightarrow> x_Service x = [] \<or> (\<exists>b \<in> set backends. rb_service b \<and> x_Service x = serviceText b)"

lemma markUnknown_names: "x \<in> set (markUnknown backends) \<Longrightarrow> namesService backends x \<and> x_Match x = ''Unsupported''"
  by (auto simp: markUnknown_def namesService_def)

lemma hostExposures_names:
  assumes "x \<in> set (hostExposures E scope backends rd path matchType host)"
  shows "namesService backends x \<and>
    (x_Match x = ''Unsupported'' \<or> x_Match x = matchType \<and> x_Scope x = scope \<and> x_Host x = kl_ToLower E host \<and> CHR ''*'' \<notin> set host)"
  using assms markUnknown_names
  by (auto simp: hostExposures_def Let_def emptyExposure_def namesService_def split: if_splits)

lemma ruleExposures_names:
  assumes "x \<in> set (ruleExposures E scope hosts ns index raw)"
  shows "\<exists>rule backends. raw = KMap rule \<and> httpRouteBackends E rule ns index = Inr backends \<and> namesService backends x \<and>
    (x_Match x = ''Unsupported'' \<or> x_Match x \<in> {''Exact'', ''PathPrefix''} \<and> x_Scope x = scope \<and>
       (\<exists>host \<in> set hosts. x_Host x = kl_ToLower E host \<and> CHR ''*'' \<notin> set host))"
proof -
  from assms obtain rule where raw: "raw = KMap rule" by (cases raw) (auto simp: ruleExposures_def)
  with assms obtain backends where r: "raw = KMap rule" "httpRouteBackends E rule ns index = Inr backends"
    by (cases "httpRouteBackends E rule ns index") (auto simp: ruleExposures_def)
  let ?ok = "\<lambda>x. namesService backends x \<and>
    (x_Match x = ''Unsupported'' \<or> x_Match x \<in> {''Exact'', ''PathPrefix''} \<and> x_Scope x = scope \<and>
       (\<exists>host \<in> set hosts. x_Host x = kl_ToLower E host \<and> CHR ''*'' \<notin> set host))"
  have m: "?ok x" if "x \<in> set (matchExposures E scope hosts backends rd m)" for rd m
  proof (cases m)
    case (KMap fields)
    from that KMap consider "x \<in> set (markUnknown backends)"
      | path matchType host where "host \<in> set hosts" "matchType \<in> {''Exact'', ''PathPrefix''}"
          "x \<in> set (hostExposures E scope backends rd path matchType host)"
      by (auto simp: matchExposures_def Let_def split: if_splits)
    then show ?thesis using markUnknown_names hostExposures_names by cases (blast, metis)
  qed (use that in \<open>simp_all add: matchExposures_def\<close>)
  have "?ok x" using assms r m markUnknown_names by (auto simp: ruleExposures_def Let_def split: if_splits)
  with r show ?thesis by blast
qed

lemma httpRoutePaths_nonempty: "httpRoutePaths E rule = Inr paths \<Longrightarrow> paths \<noteq> []"
  by (auto simp: httpRoutePaths_def dest: eachFrom_Inr split: nested.splits if_splits)

text \<open>
  The evidence that a route leaves for the joining of catalogue groups names only Services that the route refers
  to, which are also the ones its candidate lists, and for an address that is not a wildcard: an exposure is either
  marked as unsupported or is one of the route's host names, in lower case, with the scope of its gateways.
\<close>

theorem route_evidence_names_its_services:
  assumes "httpRouteEndpoints E r = Inr (es, refs)" "x \<in> set (routeExposures E r)"
  shows "(x_Service x = [] \<or> (\<exists>(namespace, name) \<in> set refs. x_Service x = namespace @ ''/'' @ name)) \<and>
    (x_Match x = ''Unsupported'' \<or>
       x_Match x \<in> {''Exact'', ''PathPrefix''} \<and> x_Scope x = json_text (kl_golib E) (JArr (map JStr (routeScopes E r))) \<and>
       (\<exists>host \<in> set (foundOr [] (kl_StringSlice E (hr_Object r) [''spec'', ''hostnames''])).
          x_Host x = kl_ToLower E host \<and> CHR ''*'' \<notin> set host))"
proof -
  let ?hosts = "foundOr [] (kl_StringSlice E (hr_Object r) [''spec'', ''hostnames''])"
  let ?rules = "foundOr [] (kl_Slice E (hr_Object r) [''spec'', ''rules''])"
  let ?scope = "json_text (kl_golib E) (JArr (map JStr (routeScopes E r)))"
  from assms(1) obtain parts where parts: "eachFrom 0 (routeRule E (hr_Namespace r) (if ?hosts = [] then [[]] else ?hosts)) ?rules = Inr parts"
      "set refs = (\<Union>p \<in> set parts. set (snd p))"
    by (auto simp: httpRouteEndpoints_def Let_def foundOr_def split: nested.splits sum.splits if_splits)
  from assms(2) obtain i where i: "i < length ?rules" "x \<in> set (ruleExposures E ?scope ?hosts (hr_Namespace r) i (?rules ! i))"
    by (auto simp: routeExposures_def Let_def in_set_enumerate_eq split: if_splits)
  from ruleExposures_names [OF i(2)] obtain rule backends where b: "?rules ! i = KMap rule"
      "httpRouteBackends E rule (hr_Namespace r) i = Inr backends" "namesService backends x"
    and rest: "x_Match x = ''Unsupported'' \<or> x_Match x \<in> {''Exact'', ''PathPrefix''} \<and> x_Scope x = ?scope \<and>
       (\<exists>host \<in> set ?hosts. x_Host x = kl_ToLower E host \<and> CHR ''*'' \<notin> set host)" by blast
  have part: "routeRule E (hr_Namespace r) (if ?hosts = [] then [[]] else ?hosts) i (?rules ! i) = Inr (fst (parts ! i), snd (parts ! i))"
    "parts ! i \<in> set parts"
    using eachFrom_Inr [OF parts(1)] i(1) by auto
  from part(1) obtain rule' paths backends' where p: "?rules ! i = KMap rule'" "httpRoutePaths E rule' = Inr paths"
      "httpRouteBackends E rule' (hr_Namespace r) i = Inr backends'"
      "set (snd (parts ! i)) = {(rb_namespace b, rb_name b) | host path b.
         host \<in> set (if ?hosts = [] then [[]] else ?hosts) \<and> path \<in> set paths \<and> b \<in> set backends' \<and> rb_service b}"
    by (rule routeRule_Inr) blast
  from b p have eq: "backends' = backends" by simp
  obtain path where path: "path \<in> set paths" using httpRoutePaths_nonempty [OF p(2)] by (cases paths) auto
  obtain host where host: "host \<in> set (if ?hosts = [] then [[]] else ?hosts)" by (cases ?hosts) auto
  have "(rb_namespace b, rb_name b) \<in> set refs" if "b \<in> set backends" "rb_service b" for b
    unfolding parts(2) using part(2) p(4) path host that eq by blast
  with b(3) rest show ?thesis unfolding namesService_def serviceText_def by blast
qed

text \<open>
  A host is served with TLS exactly when a TLS entry names it or is the wildcard of its parent domain: a wildcard
  stands for one label.
\<close>

theorem tls_covers_one_label:
  "hostIsTLS E host0 tlsHosts \<longleftrightarrow>
     (let host = kl_ToLower E (TrimSpace host0) in
      host \<in> set tlsHosts \<or>
      (\<exists>label domain. host = label @ ''.'' @ domain \<and> label \<noteq> [] \<and> CHR ''.'' \<notin> set label \<and> ''*.'' @ domain \<in> set tlsHosts))"
proof -
  let ?h = "kl_ToLower E (TrimSpace host0)"
  have "prefix ''*.'' w \<and> suffix (drop 1 w) ?h \<and> (let label = TrimSuffix ?h (drop 1 w) in label \<noteq> [] \<and> CHR ''.'' \<notin> set label) \<longleftrightarrow>
      (\<exists>label domain. ?h = label @ ''.'' @ domain \<and> label \<noteq> [] \<and> CHR ''.'' \<notin> set label \<and> w = ''*.'' @ domain)" for w
    by (auto simp: prefix_def suffix_def TrimSuffix_def Let_def)
  then show ?thesis by (auto simp: hostIsTLS_def Let_def list_ex_iff)
qed

section \<open>A small cluster\<close>

fun evalField :: "kvalue \<Rightarrow> string list \<Rightarrow> kvalue nested" where
  "evalField v [] = Found v"
| "evalField (KMap m) (f # fs) = (case map_of m f of None \<Rightarrow> Absent | Some v \<Rightarrow> evalField v fs)"
| "evalField KNull (f # fs) = Absent"
| "evalField _ (f # fs) = WrongType"

definition evalAs :: "(kvalue \<Rightarrow> 'a option) \<Rightarrow> kmap \<Rightarrow> string list \<Rightarrow> 'a nested" where
  "evalAs read m path =
     (case evalField (KMap m) path of
        Found v \<Rightarrow> (case read v of None \<Rightarrow> WrongType | Some x \<Rightarrow> Found x) | Absent \<Rightarrow> Absent | WrongType \<Rightarrow> WrongType)"

definition readString :: "kvalue \<Rightarrow> string option" where
  "readString v = (case v of KString s \<Rightarrow> Some s | _ \<Rightarrow> None)"

definition readList :: "kvalue \<Rightarrow> kvalue list option" where
  "readList v = (case v of KList xs \<Rightarrow> Some xs | _ \<Rightarrow> None)"

definition readStrings :: "kvalue \<Rightarrow> string list option" where
  "readStrings v = (case v of KList xs \<Rightarrow> those (map readString xs) | _ \<Rightarrow> None)"

definition readInt64 :: "kvalue \<Rightarrow> int option" where
  "readInt64 v = (case v of KInt64 n \<Rightarrow> Some n | _ \<Rightarrow> None)"

definition evalKube :: kube_lib where
  "evalKube =
     \<lparr>kl_golib = evalLib\<lparr>sha256_hex := \<lambda>s. s,
        url_parse := \<lambda>s. Some \<lparr>u_Scheme = ''http'', u_Opaque = [], u_HasUser = False, u_Host = s @ ''h'', u_Hostname = s @ ''h'', u_Port = [],
                          u_Path = [], u_RawQuery = [], u_Fragment = []\<rparr>\<rparr>,
      kl_String = evalAs readString, kl_Slice = evalAs readList, kl_StringSlice = evalAs readStrings, kl_Int64 = evalAs readInt64,
      kl_Matches = (\<lambda>selector labels. list_all (\<lambda>(k, v). map_of labels k = Some v) selector),
      kl_ToLower = ToLower, kl_EqualFold = (\<lambda>a b. ToLower a = ToLower b),
      kl_URL = (\<lambda>scheme host path. (if scheme = [] then [] else scheme @ '':'') @ ''//'' @ host @ path)\<rparr>"

definition sampleKube :: KubeDiscoverer where
  "sampleKube = \<lparr>kd_sourceID = ''home'', kd_namespace = []\<rparr>"

definition sampleRoute :: HTTPRoute where
  "sampleRoute =
     \<lparr>hr_Namespace = ''apps'', hr_Name = ''web'', hr_Labels = [],
      hr_Object = [(''spec'', KMap
        [(''hostnames'', KList [KString ''Web.example'']), (''parentRefs'', KList [KMap [(''name'', KString ''gw'')]]),
         (''rules'', KList [KMap [(''backendRefs'', KList [KMap [(''name'', KString ''web''), (''port'', KInt64 80)]])]])])]\<rparr>"

definition sampleService :: "string \<Rightarrow> KubeService" where
  "sampleService name =
     \<lparr>ks_Namespace = ''apps'', ks_Name = name, ks_Labels = [], ks_Type = ''ClusterIP'', ks_ExternalName = [], ks_Selector = [(''app'', name)],
      ks_ExternalIPs = [], ks_Ports = [\<lparr>sp_Name = ''http'', sp_Port = 80, sp_NodePort = 0, sp_Protocol = ''TCP'', sp_TargetPort = ''8080''\<rparr>],
      ks_Ingress = []\<rparr>"

definition samplePod :: "string \<Rightarrow> KubePod" where
  "samplePod name =
     \<lparr>kp_Namespace = ''apps'', kp_Name = name, kp_Labels = [(''app'', name)], kp_Phase = ''Running'', kp_InitContainers = [],
      kp_Containers = [\<lparr>kc_Name = name, kc_Image = ''img'', kc_Ports = []\<rparr>], kp_EphemeralContainers = []\<rparr>"

definition sampleCluster :: "KubeService list \<Rightarrow> cluster" where
  "sampleCluster services =
     \<lparr>cl_HTTPRoutes = Listed [sampleRoute], cl_Ingresses = Some [], cl_Services = Some services, cl_Nodes = None,
      cl_Pods = Some [samplePod ''web'', samplePod ''db'']\<rparr>"

abbreviation twoServices :: "KubeService list" where
  "twoServices \<equiv> [sampleService ''web'', sampleService ''db'']"

lemma evalKube_OK: "librariesOK evalKube"
  by (simp add: librariesOK_def evalKube_def validEndpointURL_def IsAbs_def)

lemma sampleKube_new: "NewKubeDiscoverer True True ''home'' [] = Inr sampleKube"
  by code_simp

lemma sample_trimmed [simp]:
  "TrimSpace ''web'' = ''web''" "TrimSpace ''db'' = ''db''" "TrimSpace ''apps'' = ''apps''" "TrimSpace ''Web.example'' = ''Web.example''"
  by (intro TrimSpace_trimmed plain_trimmed; simp)+

lemma sampleRoute_read: "\<exists>refs es. httpRouteEndpoints evalKube sampleRoute = Inr (es, refs) \<and> refs = [(''apps'', ''web'')]"
proof -
  have "case httpRouteEndpoints evalKube sampleRoute of Inl e \<Rightarrow> False | Inr (es, refs) \<Rightarrow> refs = [(''apps'', ''web'')]"
    by code_simp
  then show ?thesis by (auto split: sum.splits)
qed

lemma sampleCluster_routes [simp]: "listedRoutes (sampleCluster ss) = [sampleRoute]"
  by (simp add: listedRoutes_def sampleCluster_def)

lemma sampleCluster_runs:
  "\<not> needsNodes ss \<Longrightarrow> \<exists>cs. KubeDiscover evalKube sampleKube 5 (sampleCluster ss) = Inr cs"
  by (rule exI, rule KubeDiscover_success [where ingresses = "[]" and pods = "[samplePod ''web'', samplePod ''db'']" and nodes = "[]"])
     (use sampleRoute_read in \<open>auto simp: sampleCluster_def listedRoutes_def\<close>)

lemma twoServices_nodes: "\<not> needsNodes twoServices" "\<not> needsNodes (rev twoServices)"
  by (simp_all add: needsNodes_def sampleService_def)

lemma sampleCluster_unique: "uniqueNames (sampleCluster twoServices)"
  by (simp add: uniqueNames_def) (simp add: sampleCluster_def sampleService_def samplePod_def)

lemma sampleCluster_OK: "clusterOK evalKube (sampleCluster twoServices)"
proof -
  have "kl_StringSlice evalKube (hr_Object sampleRoute) [''spec'', ''hostnames''] = Found [''Web.example'']" by code_simp
  then have "routeOK evalKube sampleRoute"
    by (simp add: routeOK_def foundOr_def kubeHost_def hostChar_def) (simp add: sampleRoute_def nameOK_def NUL_def)
  moreover have "serviceOK (sampleService ''web'')" "serviceOK (sampleService ''db'')"
    by (simp_all add: serviceOK_def sampleService_def nameOK_def NUL_def externalHosts_def)
  moreover have "podOK (samplePod ''web'')" "podOK (samplePod ''db'')"
    by (simp_all add: podOK_def samplePod_def nameOK_def NUL_def)
  ultimately show ?thesis
    using sampleCluster_unique unfolding clusterOK_def by (simp add: sampleCluster_def listedRoutes_def)
qed



lemma discovery_shows_what_is_reachable_witness:
  "\<exists>cs. KubeDiscover evalKube sampleKube 5 (sampleCluster twoServices) = Inr cs \<and>
     (\<exists>c \<in> set cs. c_Resource c = normalizeResource (kubeResource ''service'' ''apps'' ''web'')) \<and>
     \<not> (\<exists>c \<in> set cs. c_Resource c = normalizeResource (kubeResource ''service'' ''apps'' ''db'')) \<and>
     \<not> (\<exists>c \<in> set cs. c_Resource c = normalizeResource (kubeResource ''pod'' ''apps'' ''db''))"
proof -
  obtain cs where run: "KubeDiscover evalKube sampleKube 5 (sampleCluster twoServices) = Inr cs"
    using sampleCluster_runs [OF twoServices_nodes(1)] by blast
  have lists: "cl_Ingresses (sampleCluster twoServices) = Some []" "cl_Services (sampleCluster twoServices) = Some twoServices"
      "cl_Pods (sampleCluster twoServices) = Some [samplePod ''web'', samplePod ''db'']"
    by (simp_all add: sampleCluster_def)
  have routed: "routedServices evalKube [sampleRoute] [] = {(''apps'', ''web'')}"
    using sampleRoute_read by (auto simp: routedServices_def refsOfRoute_def)
  have ext: "\<not> isExternalService (sampleService name)" for name by (simp add: isExternalService_def sampleService_def)
  have names: "ks_Namespace (sampleService name) = ''apps''" "ks_Name (sampleService name) = name"
      "kp_Namespace (samplePod name) = ''apps''" "kp_Name (samplePod name) = name" for name
    by (simp_all add: sampleService_def samplePod_def)
  have "\<not> podSelected evalKube [sampleService ''web''] (samplePod ''db'')"
    by (simp add: podSelected_def sampleService_def samplePod_def evalKube_def)
  with discovery_shows_what_is_reachable [OF sampleCluster_unique run lists] run show ?thesis
    unfolding sampleCluster_routes routed by (simp add: ext names)
qed

lemma route_evidence_names_its_services_witness:
  "\<exists>x \<in> set (routeExposures evalKube sampleRoute). x_Service x = ''apps/web'' \<and> x_Host x = ''web.example''"
proof -
  obtain es refs where run: "httpRouteEndpoints evalKube sampleRoute = Inr (es, refs)" and refs: "refs = [(''apps'', ''web'')]"
    using sampleRoute_read by blast
  have x: "map (\<lambda>x. (x_Service x = [], x_Match x)) (routeExposures evalKube sampleRoute) = [(False, ''PathPrefix'')]" by code_simp
  then obtain x where m: "x \<in> set (routeExposures evalKube sampleRoute)" "x_Service x \<noteq> []" "x_Match x = ''PathPrefix''" by auto
  have h: "kl_StringSlice evalKube (hr_Object sampleRoute) [''spec'', ''hostnames''] = Found [''Web.example'']"
      "kl_ToLower evalKube ''Web.example'' = ''web.example''" by code_simp+
  from route_evidence_names_its_services [OF run m(1)] m(2,3) have "x_Service x = ''apps/web''" "x_Host x = ''web.example''"
    by (auto simp: refs h foundOr_def)
  with m(1) show ?thesis by blast
qed

end
