(* ===== verification/Containers.thy ===== *)
theory Containers
  imports KubernetesFacts "HOL-Library.Word"
begin

text \<open>
  Discovery in a Docker or Podman engine (\<open>internal/adapters/container/container.go\<close>): each running container
  is a candidate with its published ports, and the containers of one Compose service are together a candidate of
  their own.

  \<open>ContainerSummary\<close> and \<open>PortSummary\<close> have the fields of the engine's answer that the source reads; an address is
  its text, an invalid one \<open>None\<close>, and ports are 16-bit words. A Go map that is used as a set is a list
  whose repetitions are removed where it is read, the map of Compose services an association list in the order in which keys were added; what
  is read from either by a loop is sorted afterwards. Upper and lower case of Go's library are parameters.
\<close>

section \<open>Containers\<close>

record PortSummary =
  pt_IP :: "string option"
  pt_PrivatePort :: "16 word"
  pt_PublicPort :: "16 word"
  pt_Type :: string

record ContainerSummary =
  cs_ID :: string
  cs_Names :: "string list"
  cs_Image :: string
  cs_State :: string
  cs_Labels :: smap
  cs_Ports :: "PortSummary list"

record container_lib =
  ct_golib :: golib
  ct_ToLower :: "string \<Rightarrow> string"
  ct_ToUpper :: "string \<Rightarrow> string"

datatype container_error = ContainerNilClient | ContainerSourceEmpty | ContainerSourceNUL | ListContainers

definition containerKind :: string where
  "containerKind = ''container''"

definition composeProjectLabel :: string where "composeProjectLabel = ''com.docker.compose.project''"
definition composeServiceLabel :: string where "composeServiceLabel = ''com.docker.compose.service''"
definition composeWorkingDirLabel :: string where "composeWorkingDirLabel = ''com.docker.compose.project.working_dir''"
definition composeConfigFilesLabel :: string where "composeConfigFilesLabel = ''com.docker.compose.project.config_files''"
definition composeContainerNumberKey :: string where "composeContainerNumberKey = ''com.docker.compose.container-number''"
definition podmanProjectLabel :: string where "podmanProjectLabel = ''io.podman.compose.project''"
definition podmanServiceLabel :: string where "podmanServiceLabel = ''io.podman.compose.service''"
definition podmanWorkingDirLabel :: string where "podmanWorkingDirLabel = ''io.podman.compose.project.working_dir''"
definition podmanConfigFilesLabel :: string where "podmanConfigFilesLabel = ''io.podman.compose.project.config_files''"
definition podmanContainerNumberKey :: string where "podmanContainerNumberKey = ''io.podman.compose.container-number''"

definition NewContainerDiscoverer :: "bool \<Rightarrow> string \<Rightarrow> (container_error, string) result" where
  "NewContainerDiscoverer client sourceID =
     (if \<not> client then Inl ContainerNilClient
      else if TrimSpace sourceID = [] then Inl ContainerSourceEmpty
      else if NUL \<in> set (TrimSpace sourceID) then Inl ContainerSourceNUL
      else Inr (TrimSpace sourceID))"

definition containerSourceName :: "string \<Rightarrow> string" where
  "containerSourceName sourceID = containerKind @ ''/'' @ sourceID"

definition containerSource :: "string \<Rightarrow> SourceRef" where
  "containerSource sourceID = \<lparr>src_Kind = containerKind, src_ID = sourceID\<rparr>"

text \<open>The first label that is not blank, and \<open>strings.Trim (s, "/")\<close>.\<close>

fun composeLabel :: "smap \<Rightarrow> string list \<Rightarrow> string" where
  "composeLabel labels [] = []"
| "composeLabel labels (k # ks) =
     (let v = TrimSpace (mget labels k) in if v \<noteq> [] then v else composeLabel labels ks)"

definition TrimSlash :: "string \<Rightarrow> string" where
  "TrimSlash s = rev (dropWhile (\<lambda>c. c = CHR ''/'') (rev (dropWhile (\<lambda>c. c = CHR ''/'') s)))"

fun firstName :: "string list \<Rightarrow> string option" where
  "firstName [] = None"
| "firstName (raw # rest) =
     (let name = TrimSlash (TrimSpace raw) in if name \<noteq> [] then Some name else firstName rest)"

definition containerName :: "ContainerSummary \<Rightarrow> string" where
  "containerName c = (case firstName (cs_Names c) of Some name \<Rightarrow> name | None \<Rightarrow> TrimSpace (cs_ID c))"

type_synonym composeKey = "string \<times> string"

definition composeIdentity :: "smap \<Rightarrow> composeKey option" where
  "composeIdentity labels =
     (let project = composeLabel labels [composeProjectLabel, podmanProjectLabel];
          service = composeLabel labels [composeServiceLabel, podmanServiceLabel] in
      if project = [] \<or> service = [] then None else Some (project, service))"

definition addLabel :: "string \<Rightarrow> string \<Rightarrow> smap \<Rightarrow> smap" where
  "addLabel k v m = (if v \<noteq> [] then mset_key k v m else m)"

definition addComposeMetadata :: "smap \<Rightarrow> smap \<Rightarrow> smap" where
  "addComposeMetadata labels m =
     addLabel ''compose.containerNumber'' (composeLabel labels [composeContainerNumberKey, podmanContainerNumberKey])
      (addLabel ''compose.configFiles'' (composeLabel labels [composeConfigFilesLabel, podmanConfigFilesLabel])
       (addLabel ''compose.workingDir'' (composeLabel labels [composeWorkingDirLabel, podmanWorkingDirLabel])
        (addLabel ''compose.service'' (composeLabel labels [composeServiceLabel, podmanServiceLabel])
         (addLabel ''compose.project'' (composeLabel labels [composeProjectLabel, podmanProjectLabel]) m))))"

section \<open>Published ports\<close>

definition normalizeHostIP :: "string option \<Rightarrow> string" where
  "normalizeHostIP ip = (case ip of None \<Rightarrow> ''0.0.0.0'' | Some text \<Rightarrow> text)"

definition publishedPortName :: "string \<Rightarrow> PortSummary \<Rightarrow> string" where
  "publishedPortName protocol p =
     (if pt_PrivatePort p > 0 \<and> pt_PrivatePort p \<noteq> pt_PublicPort p
      then protocol @ ''/'' @ FormatInt (uint (pt_PublicPort p)) @ ''->'' @ FormatInt (uint (pt_PrivatePort p))
      else protocol @ ''/'' @ FormatInt (uint (pt_PublicPort p)))"

definition portProtocol :: "container_lib \<Rightarrow> PortSummary \<Rightarrow> string" where
  "portProtocol E p =
     (let protocol = ct_ToLower E (TrimSpace (pt_Type p)) in if protocol = [] then ''tcp'' else protocol)"

definition publishedEndpoint :: "container_lib \<Rightarrow> PortSummary \<Rightarrow> Endpoint" where
  "publishedEndpoint E p =
     (let protocol = portProtocol E p; port = uint (pt_PublicPort p) in
      \<lparr>ep_Name = publishedPortName protocol p,
       ep_URL = protocol @ ''://'' @ JoinHostPort (normalizeHostIP (pt_IP p)) port,
       ep_Port = port, ep_Protocol = ct_ToUpper E protocol, ep_Provenance = ''container.port''\<rparr>)"

definition endpointKey :: "Endpoint \<Rightarrow> string \<times> int \<times> string \<times> string" where
  "endpointKey e = (ep_URL e, ep_Port e, ep_Protocol e, ep_Name e)"

definition sortedEndpoints :: "Endpoint list \<Rightarrow> Endpoint list" where
  "sortedEndpoints es = sort_key endpointKey (dedup_by (\<lambda>e. e) es)"

definition sortedSet :: "string list \<Rightarrow> string list" where
  "sortedSet vs = sort (dedup_by (\<lambda>v. v) vs)"

definition publishedPorts :: "container_lib \<Rightarrow> PortSummary list \<Rightarrow> Endpoint list \<times> string list" where
  "publishedPorts E ports =
     (let public = filter (\<lambda>p. pt_PublicPort p \<noteq> 0) ports in
      (sortedEndpoints (map (publishedEndpoint E) public), sortedSet (map (\<lambda>p. normalizeHostIP (pt_IP p)) public)))"

definition setPublishedIPs :: "string list \<Rightarrow> smap \<Rightarrow> smap" where
  "setPublishedIPs hostIPs m = (if hostIPs \<noteq> [] then mset_key ''container.publishedIPs'' (Join '','' hostIPs) m else m)"

section \<open>Candidates\<close>

definition newContainerCandidate ::
    "container_lib \<Rightarrow> string \<Rightarrow> string \<Rightarrow> string \<Rightarrow> string \<Rightarrow> string \<Rightarrow> time \<Rightarrow> Candidate" where
  "newContainerCandidate E sourceID kind namespace name description observedAt =
     (NewCandidate (ct_golib E) (containerSource sourceID)
        \<lparr>res_Kind = kind, res_Namespace = namespace, res_Name = name\<rparr> observedAt)
       \<lparr>c_Description := description, c_Metadata := [(''container.kind'', kind)]\<rparr>"

definition containerCandidate :: "container_lib \<Rightarrow> string \<Rightarrow> time \<Rightarrow> ContainerSummary \<Rightarrow> Candidate" where
  "containerCandidate E sourceID observedAt c =
     (let (endpoints, hostIPs) = publishedPorts E (cs_Ports c);
          c0 = newContainerCandidate E sourceID ''container'' [] (containerName c) ''Container'' observedAt;
          image = TrimSpace (cs_Image c);
          metadata = addComposeMetadata (cs_Labels c)
            (setPublishedIPs hostIPs
             (addLabel ''container.state'' (TrimSpace (cs_State c))
              (addLabel ''container.image'' image
               (addLabel ''container.id'' (TrimSpace (cs_ID c)) (c_Metadata c0)))))
      in c0\<lparr>c_Metadata := metadata, c_Images := (if image \<noteq> [] then [image] else c_Images c0), c_Endpoints := endpoints\<rparr>)"

record composeAggregate =
  ag_images :: "string list"
  ag_endpoints :: "Endpoint list"
  ag_hostIPs :: "string list"
  ag_containers :: nat
  ag_workingDir :: string
  ag_configFiles :: string

definition newAggregate :: composeAggregate where
  "newAggregate = \<lparr>ag_images = [], ag_endpoints = [], ag_hostIPs = [], ag_containers = 0, ag_workingDir = [], ag_configFiles = []\<rparr>"

definition aggregateAdd :: "container_lib \<Rightarrow> ContainerSummary \<Rightarrow> composeAggregate \<Rightarrow> composeAggregate" where
  "aggregateAdd E c a =
     (let (endpoints, hostIPs) = publishedPorts E (cs_Ports c); image = TrimSpace (cs_Image c) in
      \<lparr>ag_images = (if image \<noteq> [] then ag_images a @ [image] else ag_images a),
       ag_endpoints = ag_endpoints a @ endpoints, ag_hostIPs = ag_hostIPs a @ hostIPs,
       ag_containers = ag_containers a + 1,
       ag_workingDir = (if ag_workingDir a = [] then composeLabel (cs_Labels c) [composeWorkingDirLabel, podmanWorkingDirLabel]
                        else ag_workingDir a),
       ag_configFiles = (if ag_configFiles a = [] then composeLabel (cs_Labels c) [composeConfigFilesLabel, podmanConfigFilesLabel]
                         else ag_configFiles a)\<rparr>)"

fun updateAggregate ::
    "'k \<Rightarrow> (composeAggregate \<Rightarrow> composeAggregate) \<Rightarrow> ('k \<times> composeAggregate) list \<Rightarrow> ('k \<times> composeAggregate) list" where
  "updateAggregate k f [] = [(k, f newAggregate)]"
| "updateAggregate k f ((k', a) # rest) = (if k' = k then (k', f a) # rest else (k', a) # updateAggregate k f rest)"

definition addContainer ::
    "container_lib \<Rightarrow> ContainerSummary \<Rightarrow> (composeKey \<times> composeAggregate) list \<Rightarrow> (composeKey \<times> composeAggregate) list" where
  "addContainer E c composes =
     (case composeIdentity (cs_Labels c) of None \<Rightarrow> composes | Some k \<Rightarrow> updateAggregate k (aggregateAdd E c) composes)"

definition composeCandidate :: "container_lib \<Rightarrow> string \<Rightarrow> time \<Rightarrow> composeKey \<times> composeAggregate \<Rightarrow> Candidate" where
  "composeCandidate E sourceID observedAt = (\<lambda>((project, service), a).
     (let c0 = newContainerCandidate E sourceID ''compose-service'' project service ''Compose Service'' observedAt;
          metadata = setPublishedIPs (sortedSet (ag_hostIPs a))
            (addLabel ''compose.configFiles'' (ag_configFiles a)
             (addLabel ''compose.workingDir'' (ag_workingDir a)
              (mset_key ''compose.containers'' (FormatInt (int (ag_containers a)))
               (mset_key ''compose.service'' service (mset_key ''compose.project'' project (c_Metadata c0))))))
      in c0\<lparr>c_Metadata := metadata, c_Images := sortedSet (ag_images a), c_Endpoints := sortedEndpoints (ag_endpoints a)\<rparr>))"

definition containerSortKey :: "Candidate \<Rightarrow> string \<times> string \<times> string" where
  "containerSortKey c = (res_Kind (c_Resource c), res_Namespace (c_Resource c), res_Name (c_Resource c))"

definition sortContainerCandidates :: "Candidate list \<Rightarrow> Candidate list" where
  "sortContainerCandidates cs = sort_key containerSortKey cs"

definition ContainerDiscover ::
    "container_lib \<Rightarrow> string \<Rightarrow> time \<Rightarrow> ContainerSummary list option \<Rightarrow> (container_error, Candidate list) result" where
  "ContainerDiscover E sourceID observedAt listed =
     (case listed of
        None \<Rightarrow> Inl ListContainers
      | Some containers \<Rightarrow>
          (let named = filter (\<lambda>c. containerName c \<noteq> []) containers in
           Inr (sortContainerCandidates
                  (map (containerCandidate E sourceID observedAt) named
                   @ map (composeCandidate E sourceID observedAt) (fold (addContainer E) named [])))))"

end
