(* ===== verification/ContainersFacts.thy ===== *)
theory ContainersFacts
  imports Containers Discovery
begin

text \<open>
  What discovery in a container engine gives the catalogue: one valid snapshot, a candidate for each named
  container with exactly its public ports, and a candidate for each Compose service with exactly what its
  containers have.
\<close>

section \<open>Labels and ports\<close>

lemma set_TrimSlash: "set (TrimSlash s) \<subseteq> set s"
  unfolding TrimSlash_def by (auto dest!: set_dropWhileD)

lemma composeLabel_trimmed [simp]: "TrimSpace (composeLabel labels ks) = composeLabel labels ks"
  by (induction ks) (auto simp: Let_def)

lemma mget_NUL: "\<forall>(k, v) \<in> set labels. NUL \<notin> set v \<Longrightarrow> NUL \<notin> set (mget labels k)"
  by (cases "map_of labels k") (auto simp: mget_def NUL_def dest!: map_of_SomeD)

lemma composeLabel_NUL: "\<forall>(k, v) \<in> set labels. NUL \<notin> set v \<Longrightarrow> NUL \<notin> set (composeLabel labels ks)"
  using set_TrimSpace mget_NUL by (induction ks) (auto simp: Let_def, blast)

lemma composeIdentity_Some:
  "composeIdentity labels = Some (project, service) \<Longrightarrow>
   project \<noteq> [] \<and> service \<noteq> [] \<and> TrimSpace project = project \<and> TrimSpace service = service
   \<and> ((\<forall>(k, v) \<in> set labels. NUL \<notin> set v) \<longrightarrow> NUL \<notin> set project \<union> set service)"
  by (auto simp: composeIdentity_def Let_def composeLabel_NUL simp del: composeLabel.simps split: if_splits)

lemma set_sortedEndpoints [simp]: "set (sortedEndpoints es) = set es"
  by (simp add: sortedEndpoints_def)

lemma set_sortedSet [simp]: "set (sortedSet vs) = set vs"
  by (simp add: sortedSet_def)

lemma sortedSet_distinct: "sorted (sortedSet vs) \<and> distinct (sortedSet vs)"
  by (simp add: sortedSet_def)

definition publicPorts :: "ContainerSummary \<Rightarrow> PortSummary set" where
  "publicPorts c = {p \<in> set (cs_Ports c). pt_PublicPort p \<noteq> 0}"

lemma set_publishedPorts [simp]:
  "set (fst (publishedPorts E (cs_Ports c))) = publishedEndpoint E ` publicPorts c"
  "set (snd (publishedPorts E (cs_Ports c))) = (\<lambda>p. normalizeHostIP (pt_IP p)) ` publicPorts c"
  by (auto simp: publishedPorts_def publicPorts_def Let_def)

definition imageOf :: "ContainerSummary \<Rightarrow> string list" where
  "imageOf c = (if TrimSpace (cs_Image c) \<noteq> [] then [TrimSpace (cs_Image c)] else [])"

lemma containerCandidate_observations [simp]:
  "set (c_Endpoints (containerCandidate E sid t c)) = publishedEndpoint E ` publicPorts c"
  "c_Images (containerCandidate E sid t c) = imageOf c"
  "c_Resource (containerCandidate E sid t c) = \<lparr>res_Kind = ''container'', res_Namespace = [], res_Name = TrimSpace (containerName c)\<rparr>"
proof -
  have "TrimSpace ''container'' = ''container''" by (intro TrimSpace_trimmed plain_trimmed) simp_all
  then show "c_Resource (containerCandidate E sid t c) = \<lparr>res_Kind = ''container'', res_Namespace = [], res_Name = TrimSpace (containerName c)\<rparr>"
    by (simp add: containerCandidate_def newContainerCandidate_def NewCandidate_def normalizeResource_def Let_def split: prod.split)
qed (auto simp: containerCandidate_def newContainerCandidate_def NewCandidate_def imageOf_def Let_def case_prod_beta')

section \<open>The aggregation of Compose services\<close>

lemma map_of_updateAggregate:
  "map_of (updateAggregate k f A) = (map_of A)(k \<mapsto> f (case map_of A k of Some a \<Rightarrow> a | None \<Rightarrow> newAggregate))"
proof (induction A)
  case (Cons p A)
  then show ?case by (cases p) auto
qed simp

lemma updateAggregate_keys: "fst ` set (updateAggregate k f A) = insert k (fst ` set A)"
  using map_of_updateAggregate [of k f A] by (metis dom_map_of_conv_image_fst dom_fun_upd option.distinct(1))

lemma updateAggregate_distinct: "distinct (map fst A) \<Longrightarrow> distinct (map fst (updateAggregate k f A))"
proof (induction A)
  case (Cons p A)
  then show ?case using updateAggregate_keys [of k f A] by (cases p) auto
qed simp

text \<open>What the loop over the containers leaves: for each identity the aggregate of exactly its containers.\<close>

definition membersOf :: "composeKey \<Rightarrow> ContainerSummary list \<Rightarrow> ContainerSummary list" where
  "membersOf k cs = filter (\<lambda>c. composeIdentity (cs_Labels c) = Some k) cs"

lemma composes_distinct: "distinct (map fst (fold (addContainer E) cs []))"
  by (rule fold_invariant [where Q = "\<lambda>_. True" and P = "\<lambda>A. distinct (map fst A)"])
     (auto simp: addContainer_def updateAggregate_distinct split: option.split)

lemma composes_spec:
  "map_of (fold (addContainer E) cs []) k =
     (if membersOf k cs = [] then None else Some (fold (aggregateAdd E) (membersOf k cs) newAggregate))"
proof (induction cs rule: rev_induct)
  case Nil
  then show ?case by (simp add: membersOf_def)
next
  case (snoc c cs)
  define A where "A = fold (addContainer E) cs []"
  have IH: "map_of A k = (if membersOf k cs = [] then None else Some (fold (aggregateAdd E) (membersOf k cs) newAggregate))"
    using snoc unfolding A_def .
  have members: "membersOf k (cs @ [c]) = membersOf k cs @ (if composeIdentity (cs_Labels c) = Some k then [c] else [])"
    by (simp add: membersOf_def)
  have step: "fold (addContainer E) (cs @ [c]) [] = addContainer E c A" by (simp add: A_def)
  show ?case
    unfolding step members using IH
    by (cases "composeIdentity (cs_Labels c)") (auto simp: addContainer_def map_of_updateAggregate)
qed

lemma aggregate_spec:
  "ag_containers (fold (aggregateAdd E) cs a) = ag_containers a + length cs
   \<and> set (ag_images (fold (aggregateAdd E) cs a)) = set (ag_images a) \<union> (\<Union>c \<in> set cs. set (imageOf c))
   \<and> set (ag_endpoints (fold (aggregateAdd E) cs a)) = set (ag_endpoints a) \<union> (\<Union>c \<in> set cs. publishedEndpoint E ` publicPorts c)"
proof (induction cs arbitrary: a)
  case (Cons c cs)
  have "ag_containers (aggregateAdd E c a) = ag_containers a + 1"
    "set (ag_images (aggregateAdd E c a)) = set (ag_images a) \<union> set (imageOf c)"
    "set (ag_endpoints (aggregateAdd E c a)) = set (ag_endpoints a) \<union> publishedEndpoint E ` publicPorts c"
    using set_publishedPorts [of E c] by (auto simp: aggregateAdd_def imageOf_def Let_def case_prod_beta')
  with Cons show ?case by auto
qed simp

section \<open>What is found\<close>

definition namedContainers :: "ContainerSummary list \<Rightarrow> ContainerSummary list" where
  "namedContainers cs = filter (\<lambda>c. containerName c \<noteq> []) cs"

lemma ContainerDiscover_Inr:
  "ContainerDiscover E sid t (Some cs) = Inr found \<Longrightarrow>
   mset found = mset (map (containerCandidate E sid t) (namedContainers cs)
     @ map (composeCandidate E sid t) (fold (addContainer E) (namedContainers cs) []))"
  by (auto simp: ContainerDiscover_def Let_def namedContainers_def sortContainerCandidates_def)

lemma kinds_trimmed [simp]:
  "TrimSpace ''container'' = ''container''" "TrimSpace ''compose-service'' = ''compose-service''"
  by (intro TrimSpace_trimmed plain_trimmed; simp)+

lemma composeCandidate_fields:
  "c_Resource (composeCandidate E sid t (k, a))
     = \<lparr>res_Kind = ''compose-service'', res_Namespace = TrimSpace (fst k), res_Name = TrimSpace (snd k)\<rparr>"
  "c_Images (composeCandidate E sid t (k, a)) = sortedSet (ag_images a)"
  "c_Endpoints (composeCandidate E sid t (k, a)) = sortedEndpoints (ag_endpoints a)"
  by (cases k; simp add: composeCandidate_def newContainerCandidate_def NewCandidate_def normalizeResource_def Let_def)+

lemma composeCandidate_count:
  "mget (c_Metadata (composeCandidate E sid t (k, a))) ''compose.containers'' = FormatInt (int (ag_containers a))"
  by (cases k) (simp add: composeCandidate_def newContainerCandidate_def Let_def setPublishedIPs_def addLabel_def mget_mset_key)

lemma compose_members:
  assumes "(k, a) \<in> set (fold (addContainer E) cs [])"
  shows "membersOf k cs \<noteq> [] \<and> a = fold (aggregateAdd E) (membersOf k cs) newAggregate"
proof -
  have "map_of (fold (addContainer E) cs []) k = Some a" using assms composes_distinct by (rule map_of_is_SomeI [rotated])
  then show ?thesis unfolding composes_spec by (simp split: if_splits)
qed

lemma compose_member_exists:
  "membersOf k cs \<noteq> [] \<Longrightarrow> \<exists>a. (k, a) \<in> set (fold (addContainer E) cs [])"
  using composes_spec [of E cs k] by (metis map_of_SomeD)

lemma membersOf_key: "membersOf k cs \<noteq> [] \<Longrightarrow> TrimSpace (fst k) = fst k \<and> TrimSpace (snd k) = snd k"
  using composeIdentity_Some by (cases k) (force simp: membersOf_def filter_empty_conv)

lemma compose_resource:
  assumes "(k, a) \<in> set (fold (addContainer E) cs [])"
  shows "c_Resource (composeCandidate E sid t (k, a)) = \<lparr>res_Kind = ''compose-service'', res_Namespace = fst k, res_Name = snd k\<rparr>"
  using membersOf_key [OF conjunct1 [OF compose_members [OF assms]]] by (simp add: composeCandidate_fields)

text \<open>
  C29. Compose services. A service of a project is found exactly when a named container carries both labels; then its
  addresses and images are exactly those of its containers, each once and the images in order, and it says how many
  containers it has. A container's own addresses are exactly its ports that are published.
\<close>

theorem compose_service_is_its_containers:
  assumes "ContainerDiscover E sid t (Some cs) = Inr found"
  defines "composeService \<equiv> \<lambda>k. \<lparr>res_Kind = ''compose-service'', res_Namespace = fst k, res_Name = snd k\<rparr>"
    and "members \<equiv> \<lambda>k. membersOf k (namedContainers cs)"
  shows "(\<forall>k. (\<exists>c \<in> set found. c_Resource c = composeService k) \<longleftrightarrow> members k \<noteq> []) \<and>
    (\<forall>k. \<forall>c \<in> set found. c_Resource c = composeService k \<longrightarrow>
       set (c_Endpoints c) = (\<Union>x \<in> set (members k). publishedEndpoint E ` publicPorts x) \<and> distinct (c_Endpoints c) \<and>
       set (c_Images c) = (\<Union>x \<in> set (members k). set (imageOf x)) \<and> sorted (c_Images c) \<and> distinct (c_Images c) \<and>
       mget (c_Metadata c) ''compose.containers'' = FormatInt (int (length (members k)))) \<and>
    (\<forall>x \<in> set (namedContainers cs). \<exists>c \<in> set found. set (c_Endpoints c) = publishedEndpoint E ` publicPorts x \<and>
       c_Resource c = \<lparr>res_Kind = ''container'', res_Namespace = [], res_Name = TrimSpace (containerName x)\<rparr>)"
proof -
  let ?A = "fold (addContainer E) (namedContainers cs) []"
  have found: "set found = containerCandidate E sid t ` set (namedContainers cs) \<union> composeCandidate E sid t ` set ?A"
    using mset_eq_setD [OF ContainerDiscover_Inr [OF assms(1)]] by simp
  have key: "c_Resource (composeCandidate E sid t (k, a)) = composeService k" if "(k, a) \<in> set ?A" for k a
    using compose_resource [OF that] by (simp add: composeService_def)
  have inv: "\<exists>a. (k, a) \<in> set ?A \<and> c = composeCandidate E sid t (k, a)" if c: "c \<in> set found" "c_Resource c = composeService k" for c k
  proof -
    from c(2) have "c \<notin> containerCandidate E sid t ` set (namedContainers cs)" by (auto simp: composeService_def)
    with c(1) found obtain k' a where a: "(k', a) \<in> set ?A" "c = composeCandidate E sid t (k', a)" by auto
    with key [OF a(1)] c(2) have "k' = k" by (simp add: composeService_def prod_eq_iff)
    with a show ?thesis by blast
  qed
  have "(\<exists>c \<in> set found. c_Resource c = composeService k) \<longleftrightarrow> members k \<noteq> []" for k
  proof
    assume "\<exists>c \<in> set found. c_Resource c = composeService k"
    then obtain a where "(k, a) \<in> set ?A" using inv by blast
    then show "members k \<noteq> []" using compose_members by (simp add: members_def)
  next
    assume "members k \<noteq> []"
    then obtain a where a: "(k, a) \<in> set ?A" using compose_member_exists unfolding members_def by blast
    then show "\<exists>c \<in> set found. c_Resource c = composeService k" using key [OF a] found by blast
  qed
  then have A: "\<forall>k. (\<exists>c \<in> set found. c_Resource c = composeService k) \<longleftrightarrow> members k \<noteq> []" by blast
  have B: "\<forall>k. \<forall>c \<in> set found. c_Resource c = composeService k \<longrightarrow>
       set (c_Endpoints c) = (\<Union>x \<in> set (members k). publishedEndpoint E ` publicPorts x) \<and> distinct (c_Endpoints c) \<and>
       set (c_Images c) = (\<Union>x \<in> set (members k). set (imageOf x)) \<and> sorted (c_Images c) \<and> distinct (c_Images c) \<and>
       mget (c_Metadata c) ''compose.containers'' = FormatInt (int (length (members k)))"
  proof (intro allI ballI impI)
    fix k c
    assume "c \<in> set found" "c_Resource c = composeService k"
    from inv [OF this] obtain a where a: "(k, a) \<in> set ?A" "c = composeCandidate E sid t (k, a)" by blast
    from compose_members [OF a(1)] have "a = fold (aggregateAdd E) (members k) newAggregate" by (simp add: members_def)
    with aggregate_spec [of E "members k" newAggregate] sortedSet_distinct
    show "set (c_Endpoints c) = (\<Union>x \<in> set (members k). publishedEndpoint E ` publicPorts x) \<and> distinct (c_Endpoints c) \<and>
       set (c_Images c) = (\<Union>x \<in> set (members k). set (imageOf x)) \<and> sorted (c_Images c) \<and> distinct (c_Images c) \<and>
       mget (c_Metadata c) ''compose.containers'' = FormatInt (int (length (members k)))"
      by (simp add: a(2) composeCandidate_fields composeCandidate_count newAggregate_def sortedEndpoints_def)
  qed
  have C: "\<forall>x \<in> set (namedContainers cs). \<exists>c \<in> set found. set (c_Endpoints c) = publishedEndpoint E ` publicPorts x \<and>
       c_Resource c = \<lparr>res_Kind = ''container'', res_Namespace = [], res_Name = TrimSpace (containerName x)\<rparr>"
    unfolding found by (intro ballI, rule_tac x = "containerCandidate E sid t x" in bexI) simp_all
  show ?thesis by (rule conjI [OF A conjI [OF B C]])
qed

section \<open>One valid snapshot\<close>

text \<open>What the libraries do, and what the engine says of a container.\<close>

definition addressText :: "string \<Rightarrow> bool" where
  "addressText h \<longleftrightarrow> h \<noteq> [] \<and> list_all (\<lambda>c. c \<in> set ''0123456789abcdef.:'') h"

definition containerLibOK :: "container_lib \<Rightarrow> bool" where
  "containerLibOK E \<longleftrightarrow>
     inj (sha256_hex (ct_golib E)) \<and> (\<forall>s. s \<noteq> [] \<longrightarrow> sha256_hex (ct_golib E) s \<noteq> [])
     \<and> (\<forall>p \<in> {''tcp'', ''udp'', ''sctp''}. ct_ToLower E p = p
          \<and> (\<forall>host port. addressText host \<and> 0 < port \<and> port \<le> 65535 \<longrightarrow>
               validEndpointURL (ct_golib E) (TrimSpace (p @ ''://'' @ JoinHostPort host port))))"

definition containerOK :: "ContainerSummary \<Rightarrow> bool" where
  "containerOK c \<longleftrightarrow>
     TrimSpace (containerName c) \<noteq> [] \<and> NUL \<notin> set (containerName c) \<and> NUL \<notin> set (cs_Image c)
     \<and> (\<forall>(k, v) \<in> set (cs_Labels c). NUL \<notin> set v)
     \<and> (\<forall>p \<in> publicPorts c. pt_Type p \<in> {''tcp'', ''udp'', ''sctp''} \<and> addressText (normalizeHostIP (pt_IP p)))"

definition engineOK :: "ContainerSummary list \<Rightarrow> bool" where
  "engineOK cs \<longleftrightarrow>
     distinct (map (\<lambda>c. TrimSpace (containerName c)) (namedContainers cs)) \<and> (\<forall>c \<in> set (namedContainers cs). containerOK c)"

lemma publishedEndpoint_valid:
  assumes "containerLibOK E" "containerOK c" "p \<in> publicPorts c"
  shows "validEndpoint (ct_golib E) i (normalizeEndpoint (publishedEndpoint E p)) = None"
proof -
  have trimmed: "TrimSpace ''tcp'' = ''tcp''" "TrimSpace ''udp'' = ''udp''" "TrimSpace ''sctp'' = ''sctp''"
    by (intro TrimSpace_trimmed plain_trimmed; simp)+
  from assms(2,3) have p: "pt_Type p \<in> {''tcp'', ''udp'', ''sctp''}" "addressText (normalizeHostIP (pt_IP p))" "pt_PublicPort p \<noteq> 0"
    by (auto simp: containerOK_def publicPorts_def)
  have "uint (pt_PublicPort p) < 2 ^ 16" using uint_lt2p [of "pt_PublicPort p"] by simp
  moreover have "uint (pt_PublicPort p) > 0" using p(3) uint_0_iff [of "pt_PublicPort p"] uint_ge_0 [of "pt_PublicPort p"] by linarith
  moreover have "portProtocol E p = pt_Type p"
    using p(1) assms(1) trimmed by (auto simp: portProtocol_def Let_def containerLibOK_def)
  ultimately have "validEndpointURL (ct_golib E) (TrimSpace (ep_URL (publishedEndpoint E p)))"
    "0 < ep_Port (publishedEndpoint E p)" "ep_Port (publishedEndpoint E p) \<le> 65535"
    using p assms(1) by (auto simp: publishedEndpoint_def Let_def containerLibOK_def)
  then show ?thesis by (auto simp: validEndpoint_def normalizeEndpoint_def)
qed

definition namedKeys :: "smap \<Rightarrow> bool" where
  "namedKeys m \<longleftrightarrow> (\<forall>(k, v) \<in> set m. TrimSpace k \<noteq> [])"

lemma namedKeys_add:
  "namedKeys m \<Longrightarrow> plain_char (hd k) \<Longrightarrow> k \<noteq> [] \<Longrightarrow> namedKeys (mset_key k v m)"
  "namedKeys m \<Longrightarrow> plain_char (hd k) \<Longrightarrow> k \<noteq> [] \<Longrightarrow> namedKeys (addLabel k v m)"
  using TrimSpace_plain_start [of "hd k" "tl k"] by (auto simp: namedKeys_def mset_key_def addLabel_def)

lemma namedKeys_setPublishedIPs: "namedKeys m \<Longrightarrow> namedKeys (setPublishedIPs ips m)"
  unfolding setPublishedIPs_def by (simp add: namedKeys_add)

lemma namedKeys_addComposeMetadata: "namedKeys m \<Longrightarrow> namedKeys (addComposeMetadata labels m)"
  unfolding addComposeMetadata_def by (intro namedKeys_add) simp_all

lemmas namedKeys_intros = namedKeys_add namedKeys_setPublishedIPs namedKeys_addComposeMetadata

lemma newContainerCandidate_fields:
  "namedKeys (c_Metadata (newContainerCandidate E sid kind namespace name description t))"
  "observesIn (ct_golib E) (containerSource sid) t \<lparr>res_Kind = kind, res_Namespace = namespace, res_Name = name\<rparr>
     (newContainerCandidate E sid kind namespace name description t)"
proof -
  have "TrimSpace ''container.kind'' \<noteq> []" by (intro TrimSpace_plain_start) simp
  then show "namedKeys (c_Metadata (newContainerCandidate E sid kind namespace name description t))"
    by (simp add: namedKeys_def newContainerCandidate_def)
  then show "observesIn (ct_golib E) (containerSource sid) t \<lparr>res_Kind = kind, res_Namespace = namespace, res_Name = name\<rparr>
     (newContainerCandidate E sid kind namespace name description t)"
    using StableID_normalize [of "ct_golib E" "containerSource sid" "\<lparr>res_Kind = kind, res_Namespace = namespace, res_Name = name\<rparr>"]
    by (simp add: observesIn_def newContainerCandidate_def NewCandidate_def Let_def normalizeResource_def namedKeys_def)
qed

lemma observesIn_update:
  "observesIn L source t r c \<Longrightarrow> namedKeys m \<Longrightarrow> observesIn L source t r (c\<lparr>c_Metadata := m, c_Images := is, c_Endpoints := es\<rparr>)"
  by (simp add: observesIn_def namedKeys_def)

lemma observes_container:
  "observesIn (ct_golib E) (containerSource sid) t \<lparr>res_Kind = ''container'', res_Namespace = [], res_Name = containerName c\<rparr>
     (containerCandidate E sid t c)"
  unfolding containerCandidate_def Let_def case_prod_beta'
  by (intro observesIn_update newContainerCandidate_fields namedKeys_intros) simp_all

lemma observes_compose:
  "observesIn (ct_golib E) (containerSource sid) t \<lparr>res_Kind = ''compose-service'', res_Namespace = fst k, res_Name = snd k\<rparr>
     (composeCandidate E sid t (k, a))"
  unfolding composeCandidate_def Let_def case_prod_beta' fst_conv snd_conv
  by (intro observesIn_update newContainerCandidate_fields namedKeys_intros) simp_all

lemma container_sound:
  assumes "NewContainerDiscoverer True sourceID = Inr sid" "containerLibOK E" "engineOK cs" "\<not> IsZero t"
    and "c \<in> set (map (containerCandidate E sid t) (namedContainers cs) @ map (composeCandidate E sid t) (fold (addContainer E) (namedContainers cs) []))"
  shows "CandidateValidate (ct_golib E) c = None \<and> c_Source c = containerSource sid
    \<and> c_ID c = StableID (ct_golib E) (containerSource sid) (c_Resource c) \<and> normalizeResource (c_Resource c) = c_Resource c"
proof -
  have sid: "sid \<noteq> []" "NUL \<notin> set sid" "TrimSpace sid = sid"
    using assms(1) by (auto simp: NewContainerDiscoverer_def split: if_splits)
  have source: "normalizeSource (containerSource sid) = containerSource sid"
    by (simp add: normalizeSource_def containerSource_def containerKind_def sid(3))
  have ok: "containerOK x" if "x \<in> set (namedContainers cs)" for x using assms(3) that by (simp add: engineOK_def)
  have digest: "\<forall>s. s \<noteq> [] \<longrightarrow> sha256_hex (ct_golib E) s \<noteq> []" using assms(2) by (simp add: containerLibOK_def)
  have image: "\<forall>img \<in> set (imageOf x). img \<noteq> [] \<and> NUL \<notin> set img \<and> TrimSpace img = img" if "x \<in> set (namedContainers cs)" for x
    using ok [OF that] set_TrimSpace [of "cs_Image x"] by (auto simp: imageOf_def containerOK_def)
  have identity: "validIdentity (containerSource sid) (normalizeResource \<lparr>res_Kind = kind, res_Namespace = namespace, res_Name = name\<rparr>)"
    if "kind \<in> {''container'', ''compose-service''}" "TrimSpace name \<noteq> []" "NUL \<notin> set namespace" "NUL \<notin> set name" for kind namespace name
    using that sid set_TrimSpace [of namespace] set_TrimSpace [of name]
    by (auto simp: validIdentity_def containerSource_def containerKind_def normalizeResource_def NUL_def)
  from assms(5) consider (container) x where "x \<in> set (namedContainers cs)" "c = containerCandidate E sid t x"
    | (compose) k a where "(k, a) \<in> set (fold (addContainer E) (namedContainers cs) [])" "c = composeCandidate E sid t (k, a)"
    by auto
  then show ?thesis
  proof cases
    case container
    then have x: "containerOK x" using ok by blast
    show ?thesis unfolding container(2)
    proof (rule candidate_valid [OF observes_container assms(4) source _ digest])
      show "validIdentity (containerSource sid) (normalizeResource \<lparr>res_Kind = ''container'', res_Namespace = [], res_Name = containerName x\<rparr>)"
        using x by (intro identity) (auto simp: containerOK_def)
    qed (use image [OF container(1)] publishedEndpoint_valid [OF assms(2) x] in auto)
  next
    case compose
    let ?ms = "membersOf k (namedContainers cs)"
    from compose_members [OF compose(1)] have ms: "?ms \<noteq> []" "a = fold (aggregateAdd E) ?ms newAggregate" by blast+
    have sub: "set ?ms \<subseteq> set (namedContainers cs)" by (auto simp: membersOf_def)
    from ms(1) obtain x where x: "x \<in> set ?ms" by (cases ?ms) auto
    then have "composeIdentity (cs_Labels x) = Some (fst k, snd k)" by (simp add: membersOf_def)
    from composeIdentity_Some [OF this] ok [of x] x sub
    have key: "TrimSpace (snd k) \<noteq> []" "NUL \<notin> set (fst k)" "NUL \<notin> set (snd k)" by (auto simp: containerOK_def)
    have "set (c_Images c) = (\<Union>x \<in> set ?ms. set (imageOf x))"
        "set (c_Endpoints c) = (\<Union>x \<in> set ?ms. publishedEndpoint E ` publicPorts x)"
      using aggregate_spec [of E ?ms newAggregate] by (simp_all add: compose(2) composeCandidate_fields ms(2) newAggregate_def)
    note parts = this
    show ?thesis unfolding compose(2)
    proof (rule candidate_valid [OF observes_compose assms(4) source _ digest])
      show "validIdentity (containerSource sid) (normalizeResource \<lparr>res_Kind = ''compose-service'', res_Namespace = fst k, res_Name = snd k\<rparr>)"
        using key by (intro identity) auto
      show "\<forall>img \<in> set (c_Images (composeCandidate E sid t (k, a))). img \<noteq> [] \<and> NUL \<notin> set img \<and> TrimSpace img = img"
        using parts(1) image sub unfolding compose(2) by blast
      show "\<forall>e \<in> set (c_Endpoints (composeCandidate E sid t (k, a))). \<forall>i. validEndpoint (ct_golib E) i (normalizeEndpoint e) = None"
        using parts(2) publishedEndpoint_valid [OF assms(2) ok] sub unfolding compose(2) by auto
    qed
  qed
qed

lemma container_resources_distinct:
  assumes "engineOK cs"
  shows "distinct (map c_Resource (map (containerCandidate E sid t) (namedContainers cs)
    @ map (composeCandidate E sid t) (fold (addContainer E) (namedContainers cs) [])))"
proof -
  let ?A = "fold (addContainer E) (namedContainers cs) []"
  have named: "distinct (map c_Resource (map (containerCandidate E sid t) (namedContainers cs)))"
    using assms by (simp add: engineOK_def distinct_map inj_on_def)
  have eq: "map c_Resource (map (composeCandidate E sid t) ?A)
      = map (\<lambda>k. \<lparr>res_Kind = ''compose-service'', res_Namespace = fst k, res_Name = snd k\<rparr>) (map fst ?A)"
    by (auto simp: compose_resource simp del: split_paired_All)
  have keys: "distinct (map (\<lambda>k. \<lparr>res_Kind = ''compose-service'', res_Namespace = fst k, res_Name = snd k\<rparr>) (map fst ?A))"
    using composes_distinct [of E "namedContainers cs"] by (subst distinct_map) (auto simp: inj_on_def prod_eq_iff)
  show ?thesis unfolding map_append distinct_append eq using named keys by auto
qed

text \<open>
  What one discovery of an engine finds becomes exactly one snapshot, which the catalogue accepts, when the engine's
  containers have different names, its addresses are addresses and its protocols the known ones.
\<close>

theorem container_discovery_gives_one_valid_snapshot:
  assumes "NewContainerDiscoverer True sourceID = Inr sid" "containerLibOK E" "engineOK cs" "\<not> IsZero t" "\<not> IsZero now"
    and "ContainerDiscover E sid t (Some cs) = Inr found"
  shows "\<exists>s. snapshotBatches now \<lparr>di_Name = containerSourceName sid, di_Source = Some (containerSource sid), di_Discover = Some found\<rparr> found
        = Inr [s]
    \<and> SnapshotValidate (ct_golib E) s = None \<and> sn_Source s = containerSource sid \<and> sn_Candidates s = map CandidateNormalize found"
proof -
  note m = ContainerDiscover_Inr [OF assms(6)]
  have V: "\<forall>c \<in> set found. CandidateValidate (ct_golib E) c = None \<and> c_Source c = containerSource sid
    \<and> c_ID c = StableID (ct_golib E) (containerSource sid) (c_Resource c) \<and> normalizeResource (c_Resource c) = c_Resource c"
    using container_sound [OF assms(1-4)] unfolding mset_eq_setD [OF m] by blast
  have "distinct (map c_Resource found)"
    using container_resources_distinct [OF assms(3), of E sid t] m by (metis mset_eq_imp_distinct_iff mset_map)
  then have ids: "distinct (map c_ID found)"
    using V assms(2) by (intro distinct_StableID [of "ct_golib E" found "containerSource sid"]) (auto simp: containerLibOK_def)
  have "sid \<noteq> []" "NUL \<notin> set sid" "TrimSpace sid = sid"
    using assms(1) by (auto simp: NewContainerDiscoverer_def split: if_splits)
  with V ids assms(5) show ?thesis
    by (intro one_valid_snapshot)
       (auto simp: normalizeSource_def containerSource_def containerKind_def ManualSourceKind_def NUL_def)
qed

section \<open>A small engine\<close>

definition evalEngine :: container_lib where
  "evalEngine =
     \<lparr>ct_golib = evalLib\<lparr>sha256_hex := \<lambda>s. s,
        url_parse := \<lambda>s. Some \<lparr>u_Scheme = ''http'', u_Opaque = [], u_HasUser = False, u_Host = s @ ''h'', u_Hostname = s @ ''h'', u_Port = [],
                          u_Path = [], u_RawQuery = [], u_Fragment = []\<rparr>\<rparr>,
      ct_ToLower = ToLower, ct_ToUpper = (\<lambda>s. s)\<rparr>"

definition sampleContainer :: "string \<Rightarrow> ContainerSummary" where
  "sampleContainer name =
     \<lparr>cs_ID = ''f'' @ name, cs_Names = [''/'' @ name], cs_Image = ''img'', cs_State = ''running'',
      cs_Labels = [(composeProjectLabel, ''media''), (podmanServiceLabel, ''tv'')],
      cs_Ports = [\<lparr>pt_IP = Some ''::'', pt_PrivatePort = 80, pt_PublicPort = 8080, pt_Type = ''tcp''\<rparr>,
                  \<lparr>pt_IP = None, pt_PrivatePort = 81, pt_PublicPort = 0, pt_Type = ''tcp''\<rparr>]\<rparr>"

abbreviation sampleEngine :: "ContainerSummary list" where
  "sampleEngine \<equiv> [sampleContainer ''a'', sampleContainer ''b'']"

lemma evalEngine_OK: "containerLibOK evalEngine"
proof -
  have "ToLower ''tcp'' = ''tcp''" "ToLower ''udp'' = ''udp''" "ToLower ''sctp'' = ''sctp''" by code_simp+
  then show ?thesis by (simp add: containerLibOK_def evalEngine_def validEndpointURL_def IsAbs_def)
qed

lemma sampleEngine_named: "containerName (sampleContainer ''a'') = ''a''" "containerName (sampleContainer ''b'') = ''b''"
  by code_simp+

lemma sampleEngine_OK: "engineOK sampleEngine"
proof -
  have t: "TrimSpace ''a'' = ''a''" "TrimSpace ''b'' = ''b''" by (intro TrimSpace_trimmed plain_trimmed; simp)+
  have "containerOK (sampleContainer ''a'')" "containerOK (sampleContainer ''b'')"
    using sampleEngine_named t
    by (auto simp: containerOK_def publicPorts_def sampleContainer_def NUL_def composeProjectLabel_def podmanServiceLabel_def
        addressText_def normalizeHostIP_def)
  then show ?thesis using sampleEngine_named t by (simp add: engineOK_def namedContainers_def)
qed

lemma sampleEngine_members: "membersOf (''media'', ''tv'') (namedContainers sampleEngine) = sampleEngine"
proof -
  have "map (\<lambda>c. composeIdentity (cs_Labels c)) sampleEngine = map (\<lambda>c. Some (''media'', ''tv'')) sampleEngine" by code_simp
  then show ?thesis using sampleEngine_named by (simp add: membersOf_def namedContainers_def)
qed

lemma compose_service_is_its_containers_witness:
  "\<exists>found. ContainerDiscover evalEngine ''home'' 5 (Some sampleEngine) = Inr found \<and>
     (\<exists>c \<in> set found. c_Resource c = \<lparr>res_Kind = ''compose-service'', res_Namespace = ''media'', res_Name = ''tv''\<rparr>)"
proof -
  obtain found where run: "ContainerDiscover evalEngine ''home'' 5 (Some sampleEngine) = Inr found"
    by (simp add: ContainerDiscover_def Let_def)
  from conjunct1 [OF compose_service_is_its_containers [OF run], THEN spec, of "(''media'', ''tv'')"]
  show ?thesis using run sampleEngine_members by auto
qed

lemma container_discovery_gives_one_valid_snapshot_witness:
  "\<exists>found s. ContainerDiscover evalEngine ''home'' 5 (Some sampleEngine) = Inr found \<and>
     snapshotBatches 7 \<lparr>di_Name = ''container/home'', di_Source = Some (containerSource ''home''), di_Discover = Some found\<rparr> found = Inr [s] \<and>
     SnapshotValidate (ct_golib evalEngine) s = None"
proof -
  obtain found where run: "ContainerDiscover evalEngine ''home'' 5 (Some sampleEngine) = Inr found"
    by (simp add: ContainerDiscover_def Let_def)
  have new: "NewContainerDiscoverer True ''home'' = Inr ''home''" by code_simp
  have "\<not> IsZero 5" "\<not> IsZero 7" by (simp_all add: IsZero_def zero_time_def second_def)
  from container_discovery_gives_one_valid_snapshot [OF new evalEngine_OK sampleEngine_OK this run] run show ?thesis
    by (auto simp: containerSourceName_def containerKind_def)
qed

end
