(* ===== verification/NotificationModel.thy ===== *)
theory NotificationModel
  imports Tables
begin

text \<open>
  The data of the notification inbox and its validation
  (\<open>internal/application/notifications/model.go\<close>): sources, destinations, messages, the canonical
  envelope whose size is bounded and the source-bound payload that replays are compared with.
  Severities are strings, as in the code. A query is a list of keys with their values.
\<close>

section \<open>Limits and errors\<close>

definition MaxEventIDBytes :: nat where "MaxEventIDBytes = 128"

definition MaxTitleCharacters :: nat where "MaxTitleCharacters = 200"

definition MaxBodyCharacters :: nat where "MaxBodyCharacters = 4000"

definition MaxSourceIDBytes :: nat where "MaxSourceIDBytes = 256"

definition MaxRouteBytes :: nat where "MaxRouteBytes = 512"

definition MaxPageBytes :: nat where "MaxPageBytes = 256"

definition MaxParameterBytes :: nat where "MaxParameterBytes = 512"

definition MaxEnvelopeBytes :: nat where "MaxEnvelopeBytes = 16 * 1024"

definition MaxInboxSize :: nat where "MaxInboxSize = 10000"

definition MaxPageSize :: nat where "MaxPageSize = 50"

definition MaxRetentionDays :: int where "MaxRetentionDays = 3650"

datatype notify_error =
    NotifyInvalid string
  | NotifyConflict
  | NotifyCapacity
  | NotifyNotFound
  | NotifyUnavailable
  | NotifyTooLarge
  | NotifyDecode string
  | NotifyConstraint string

section \<open>Data\<close>

record Source =
  so_Kind :: string
  so_ID :: string
  so_ConnectionID :: string

definition SourceCore :: string where "SourceCore = ''core''"

definition SourcePlugin :: string where "SourcePlugin = ''plugin''"

definition SourceExternal :: string where "SourceExternal = ''external''"

type_synonym squery = "(string \<times> string list) list"

record Destination =
  de_Kind :: string
  de_Route :: string
  de_PluginID :: string
  de_ConnectionID :: string
  de_Page :: string
  de_Params :: smap
  de_Query :: squery
  de_URL :: string

definition noDestination :: Destination where
  "noDestination = \<lparr>de_Kind = [], de_Route = [], de_PluginID = [], de_ConnectionID = [], de_Page = [],
                    de_Params = [], de_Query = [], de_URL = []\<rparr>"

record Message =
  ms_ServiceID :: string
  ms_EventID :: string
  ms_Severity :: string
  ms_Title :: string
  ms_Body :: string
  ms_OccurredAt :: time
  ms_Destination :: Destination

record Notification =
  no_ServiceID :: string
  no_ID :: string
  no_Source :: Source
  no_EventID :: string
  no_Severity :: string
  no_Title :: string
  no_Body :: string
  no_OccurredAt :: time
  no_ReceivedAt :: time
  no_Destination :: Destination
  no_ReadAt :: "time option"

record Receipt =
  rc_ID :: string
  rc_CreatedAt :: time
  rc_Accepted :: bool

record ListOptions =
  lo_Before :: nat
  lo_UnreadOnly :: bool
  lo_Limit :: int
  lo_Since :: time

record Page =
  pg_Notifications :: "Notification list"
  pg_UnreadCount :: nat
  pg_RetentionDays :: int
  pg_NextBefore :: nat

section \<open>Normal forms\<close>

definition canonicalConnection :: "golib \<Rightarrow> string \<Rightarrow> string \<Rightarrow> string" where
  "canonicalConnection L kind i =
     (if kind = SourcePlugin \<and> i \<noteq> []
      then (case uuid_parse L i of Some u \<Rightarrow> u | None \<Rightarrow> i)
      else i)"

definition SourceNormalize :: "golib \<Rightarrow> Source \<Rightarrow> Source" where
  "SourceNormalize L s =
     (let kind = TrimSpace (so_Kind s); connection = TrimSpace (so_ConnectionID s) in
      s\<lparr>so_Kind := kind, so_ID := TrimSpace (so_ID s),
        so_ConnectionID := canonicalConnection L kind connection\<rparr>)"

definition DestinationNormalize :: "golib \<Rightarrow> Destination \<Rightarrow> Destination" where
  "DestinationNormalize L d =
     d\<lparr>de_ConnectionID := canonicalConnection L (de_Kind d) (de_ConnectionID d)\<rparr>"

definition MessageNormalize :: "golib \<Rightarrow> Message \<Rightarrow> Message" where
  "MessageNormalize L m = m\<lparr>ms_Destination := DestinationNormalize L (ms_Destination m)\<rparr>"

section \<open>Validation\<close>

definition controlRune :: "nat \<Rightarrow> bool" where
  "controlRune r \<longleftrightarrow> r = 0 \<or> (r < 0x20 \<and> r \<noteq> 10 \<and> r \<noteq> 13 \<and> r \<noteq> 9) \<or> r = 0x7F"

definition validateText :: "string \<Rightarrow> string \<Rightarrow> nat \<Rightarrow> bool \<Rightarrow> notify_error option" where
  "validateText v label maxBytes allowEmpty =
     or_else (fail_if (\<not> ValidString v) (NotifyInvalid (label @ '' must be valid UTF-8'')))
       (or_else (fail_if (\<not> allowEmpty \<and> TrimSpace v = []) (NotifyInvalid (label @ '' must not be empty'')))
         (or_else (fail_if (maxBytes > 0 \<and> length v > maxBytes) (NotifyInvalid (label @ '' exceeds the limit'')))
           (fail_if (list_ex (\<lambda>(r, w). controlRune r) (runes_of v))
             (NotifyInvalid (label @ '' contains control characters'')))))"

definition validateServiceID :: "string \<Rightarrow> notify_error option" where
  "validateServiceID i =
     (if i \<noteq> []
      then fail_if (\<not> hex_ok i \<or> length i \<noteq> 64 \<or> i \<noteq> ToLower i) (NotifyInvalid ''invalid service identity'')
      else None)"

definition validSeverity :: "string \<Rightarrow> bool" where
  "validSeverity s \<longleftrightarrow> s = ''info'' \<or> s = ''success'' \<or> s = ''warning'' \<or> s = ''critical''"

definition validateMap :: "smap \<Rightarrow> string \<Rightarrow> notify_error option" where
  "validateMap vs label =
     first_error (\<lambda>(k, v). or_else (validateText k (label @ '' key'') MaxParameterBytes False)
                                   (validateText v (label @ '' value'') MaxParameterBytes True)) vs"

definition validateQuery :: "squery \<Rightarrow> notify_error option" where
  "validateQuery vs =
     first_error (\<lambda>(k, es). or_else (validateText k ''destination query key'' MaxParameterBytes False)
       (first_error (\<lambda>v. validateText v ''destination query value'' MaxParameterBytes True) es)) vs"

definition SourceValidate :: "golib \<Rightarrow> Source \<Rightarrow> notify_error option" where
  "SourceValidate L s0 =
     (let s = SourceNormalize L s0 in
      or_else (fail_if (so_Kind s \<noteq> SourceCore \<and> so_Kind s \<noteq> SourcePlugin \<and> so_Kind s \<noteq> SourceExternal)
                 (NotifyInvalid ''source kind''))
        (or_else (validateText (so_ID s) ''source ID'' MaxSourceIDBytes False)
          (if so_Kind s = SourcePlugin
           then (case uuid_parse L (so_ConnectionID s) of
                   None \<Rightarrow> Some (NotifyInvalid ''plugin source connection ID must be a UUID'')
                 | Some u \<Rightarrow> fail_if (u \<noteq> so_ConnectionID s)
                               (NotifyInvalid ''plugin source connection ID must be canonical''))
           else fail_if (so_ConnectionID s \<noteq> []) (NotifyInvalid ''source connection ID must be empty''))))"

definition coreDestinationRoutes :: "string list" where
  "coreDestinationRoutes = [''/'', ''/hosts'', ''/staging'', ''/notifications'']"

definition DestinationIsZero :: "Destination \<Rightarrow> bool" where
  "DestinationIsZero d \<longleftrightarrow>
     de_Kind d = [] \<and> de_Route d = [] \<and> de_PluginID d = [] \<and> de_ConnectionID d = [] \<and> de_Page d = [] \<and>
     length (de_Params d) = 0 \<and> length (de_Query d) = 0 \<and> de_URL d = []"

definition validateCore :: "Destination \<Rightarrow> notify_error option" where
  "validateCore d =
     or_else (validateText (de_Route d) ''core destination route'' MaxRouteBytes False)
       (or_else (fail_if (de_Route d \<notin> set coreDestinationRoutes)
                   (NotifyInvalid ''core destination route is not host-owned''))
         (fail_if (de_PluginID d \<noteq> [] \<or> de_ConnectionID d \<noteq> [] \<or> de_Page d \<noteq> [] \<or> de_URL d \<noteq> [] \<or>
                   length (de_Params d) > 0 \<or> length (de_Query d) > 0)
           (NotifyInvalid ''core destination has plugin or URL fields'')))"

definition validatePlugin :: "golib \<Rightarrow> Destination \<Rightarrow> notify_error option" where
  "validatePlugin L d =
     or_else (validateText (de_PluginID d) ''plugin destination plugin ID'' MaxSourceIDBytes False)
       (or_else (validateText (de_Page d) ''plugin destination page'' MaxPageBytes False)
         (or_else (fail_if (uuid_parse L (de_ConnectionID d) \<noteq> Some (de_ConnectionID d))
                     (NotifyInvalid ''plugin destination connection ID must be a canonical UUID''))
           (fail_if (de_Route d \<noteq> [] \<or> de_URL d \<noteq> [])
             (NotifyInvalid ''plugin destination has core or URL fields''))))"

text \<open>\<open>strconv.ParseUint(port, 10, 16)\<close> followed by the check that the port is positive.\<close>

definition portValid :: "string \<Rightarrow> bool" where
  "portValid port \<longleftrightarrow>
     port = [] \<or> (case parse_digits port of Some n \<Rightarrow> 0 < n \<and> n < 2 ^ 16 | None \<Rightarrow> False)"

definition validateExternal :: "golib \<Rightarrow> Destination \<Rightarrow> notify_error option" where
  "validateExternal L d =
     or_else (fail_if (de_URL d = []) (NotifyInvalid ''external destination URL must not be empty''))
       (or_else
         (case url_parse L (de_URL d) of
            None \<Rightarrow> Some (NotifyInvalid ''external destination URL'')
          | Some u \<Rightarrow>
              fail_if (\<not> portValid (u_Port u) \<or> u_Scheme u \<noteq> ''https'' \<or> u_Host u = [] \<or> u_Hostname u = [] \<or>
                       u_HasUser u \<or> u_Opaque u \<noteq> [] \<or>
                       ContainsAny (de_URL d) [CHR 0x00, CHR 0x0D, CHR 0x0A, CHR 0x09])
                (NotifyInvalid ''external destination URL''))
         (fail_if (de_Route d \<noteq> [] \<or> de_PluginID d \<noteq> [] \<or> de_ConnectionID d \<noteq> [] \<or> de_Page d \<noteq> [] \<or>
                   length (de_Params d) > 0 \<or> length (de_Query d) > 0)
           (NotifyInvalid ''external destination has typed reference fields'')))"

definition DestinationValidate :: "golib \<Rightarrow> Destination \<Rightarrow> notify_error option" where
  "DestinationValidate L d0 =
     (let d = DestinationNormalize L d0 in
      if DestinationIsZero d then None
      else or_else (fail_if (de_Kind d \<noteq> SourceCore \<and> de_Kind d \<noteq> SourcePlugin \<and> de_Kind d \<noteq> SourceExternal)
                      (NotifyInvalid ''destination kind is invalid''))
             (or_else (validateMap (de_Params d) ''destination parameter'')
               (or_else (validateQuery (de_Query d))
                 (if de_Kind d = SourceCore then validateCore d
                  else if de_Kind d = SourcePlugin then validatePlugin L d
                  else if de_Kind d = SourceExternal then validateExternal L d
                  else None))))"

definition MessageValidate :: "golib \<Rightarrow> time \<Rightarrow> Message \<Rightarrow> notify_error option" where
  "MessageValidate L now m0 =
     (let m = MessageNormalize L m0 in
      or_else (validateServiceID (ms_ServiceID m))
        (or_else (validateText (ms_EventID m) ''event ID'' MaxEventIDBytes False)
          (or_else (fail_if (\<not> validSeverity (ms_Severity m)) (NotifyInvalid ''severity''))
            (or_else (validateText (ms_Title m) ''title'' 0 False)
              (or_else (fail_if (RuneCount (ms_Title m) > MaxTitleCharacters) (NotifyInvalid ''title exceeds the limit''))
                (or_else (validateText (ms_Body m) ''body'' 0 True)
                  (or_else (fail_if (RuneCount (ms_Body m) > MaxBodyCharacters) (NotifyInvalid ''body exceeds the limit''))
                    (or_else (fail_if (IsZero (ms_OccurredAt m)) (NotifyInvalid ''occurred at must not be zero''))
                      (or_else (fail_if (ms_OccurredAt m > now + 5 * minute)
                                  (NotifyInvalid ''occurred at is too far in the future''))
                        (DestinationValidate L (ms_Destination m)))))))))))"

section \<open>The canonical envelope\<close>

definition omitEmpty :: "string \<Rightarrow> string \<Rightarrow> (string \<times> json) list" where
  "omitEmpty name v = (if v = [] then [] else [(name, JStr v)])"

definition destinationJSON :: "Destination \<Rightarrow> json" where
  "destinationJSON d =
     JObj (omitEmpty ''kind'' (de_Kind d) @ omitEmpty ''route'' (de_Route d) @ omitEmpty ''pluginId'' (de_PluginID d) @
           omitEmpty ''connectionId'' (de_ConnectionID d) @ omitEmpty ''page'' (de_Page d) @
           (if de_Params d = [] then []
            else [(''params'', JObj (map (\<lambda>(k, v). (k, JStr v)) (sort_key fst (de_Params d))))]) @
           (if de_Query d = [] then []
            else [(''query'', JObj (map (\<lambda>(k, vs). (k, JArr (map JStr vs))) (sort_key fst (de_Query d))))]) @
           omitEmpty ''url'' (de_URL d))"

definition messageJSON :: "golib \<Rightarrow> Message \<Rightarrow> json" where
  "messageJSON L m =
     JObj (omitEmpty ''serviceId'' (ms_ServiceID m) @
           [(''eventId'', JStr (ms_EventID m)), (''severity'', JStr (ms_Severity m)), (''title'', JStr (ms_Title m))] @
           omitEmpty ''body'' (ms_Body m) @
           [(''occurredAt'', JStr (rfc3339_text L (ms_OccurredAt m)))] @
           (if DestinationIsZero (ms_Destination m) then []
            else [(''destination'', destinationJSON (DestinationNormalize L (ms_Destination m)))]))"

text \<open>\<open>time.Time\<close> has a JSON text only for the years 0 to 9999; \<open>None\<close> is the marshalling error.\<close>

definition CanonicalMessage :: "golib \<Rightarrow> Message \<Rightarrow> json option" where
  "CanonicalMessage L m0 =
     (let m = MessageNormalize L m0 in
      if rfc3339 (ms_OccurredAt m) = None then None else Some (messageJSON L m))"

definition CanonicalMessageJSON :: "golib \<Rightarrow> Message \<Rightarrow> string option" where
  "CanonicalMessageJSON L m = map_option (json_text L) (CanonicalMessage L m)"

definition EnvelopeBytes :: "golib \<Rightarrow> Message \<Rightarrow> nat option" where
  "EnvelopeBytes L m = map_option length (CanonicalMessageJSON L m)"

definition sourceJSON :: "Source \<Rightarrow> json" where
  "sourceJSON s =
     JObj ([(''kind'', JStr (so_Kind s)), (''id'', JStr (so_ID s))] @ omitEmpty ''connectionId'' (so_ConnectionID s))"

definition CanonicalPayload :: "golib \<Rightarrow> Source \<Rightarrow> Message \<Rightarrow> string option" where
  "CanonicalPayload L s m =
     (case CanonicalMessage L (m\<lparr>ms_ServiceID := []\<rparr>) of
        None \<Rightarrow> None
      | Some j \<Rightarrow> Some (json_text L (JObj [(''source'', sourceJSON (SourceNormalize L s)), (''message'', j)])))"

section \<open>What the validators accept\<close>

text \<open>
  The documented behaviour of the UUID package: the text of a parsed UUID is not empty, has no white
  space around it and parses to itself.
\<close>

definition uuid_canonical :: "golib \<Rightarrow> bool" where
  "uuid_canonical L \<longleftrightarrow>
     (\<forall>i u. uuid_parse L i = Some u \<longrightarrow> u \<noteq> [] \<and> trimmed u \<and> uuid_parse L u = Some u)"

lemma uuid_canonicalD:
  "uuid_canonical L \<Longrightarrow> uuid_parse L i = Some u \<Longrightarrow> u \<noteq> [] \<and> TrimSpace u = u \<and> uuid_parse L u = Some u"
  unfolding uuid_canonical_def trimmed_iff_fixed by blast

lemma canonicalConnection_idem:
  assumes "uuid_canonical L"
  shows "canonicalConnection L k (canonicalConnection L k i) = canonicalConnection L k i"
  using uuid_canonicalD [OF assms] by (auto simp: canonicalConnection_def split: option.split)

lemma canonicalConnection_trim:
  assumes "uuid_canonical L"
  shows "TrimSpace (canonicalConnection L k (TrimSpace i)) = canonicalConnection L k (TrimSpace i)"
  using uuid_canonicalD [OF assms] by (auto simp: canonicalConnection_def split: option.split)

lemma SourceNormalize_idem:
  "uuid_canonical L \<Longrightarrow> SourceNormalize L (SourceNormalize L s) = SourceNormalize L s"
  by (simp add: SourceNormalize_def Let_def canonicalConnection_idem canonicalConnection_trim)

lemma DestinationNormalize_idem:
  "uuid_canonical L \<Longrightarrow> DestinationNormalize L (DestinationNormalize L d) = DestinationNormalize L d"
  by (simp add: DestinationNormalize_def canonicalConnection_idem)

lemma MessageNormalize_idem:
  "uuid_canonical L \<Longrightarrow> MessageNormalize L (MessageNormalize L m) = MessageNormalize L m"
  by (simp add: MessageNormalize_def DestinationNormalize_idem)

lemma MessageNormalize_sel [simp]:
  "ms_ServiceID (MessageNormalize L m) = ms_ServiceID m"
  "ms_EventID (MessageNormalize L m) = ms_EventID m"
  "ms_Severity (MessageNormalize L m) = ms_Severity m"
  "ms_Title (MessageNormalize L m) = ms_Title m"
  "ms_Body (MessageNormalize L m) = ms_Body m"
  "ms_OccurredAt (MessageNormalize L m) = ms_OccurredAt m"
  by (simp_all add: MessageNormalize_def)

text \<open>\<open>uuid_canonical\<close> holds where only the texts of a fixed list are UUIDs.\<close>

lemma uuid_canonical_list:
  "uuid_parse L = (\<lambda>i. if i \<in> set us then Some i else None) \<Longrightarrow> [] \<notin> set us \<Longrightarrow> list_all trimmed us \<Longrightarrow> uuid_canonical L"
  by (auto simp: uuid_canonical_def list_all_iff)

lemma decode_rune_width_le: "snd (decode_rune s) \<le> 4"
  by (cases s) (auto simp: Let_def split: list.split)

lemma length_le_runes: "length s \<le> 4 * RuneCount s"
proof (induction s rule: runes_of.induct)
  case (2 c cs)
  let ?w = "snd (decode_rune (c # cs))"
  have "length (c # cs) \<le> ?w + length (drop ?w (c # cs))" by simp
  also have "\<dots> \<le> 4 + 4 * RuneCount (drop ?w (c # cs))"
    using 2 decode_rune_width_le [of "c # cs"] by linarith
  also have "\<dots> = 4 * RuneCount (c # cs)" by (simp only: RuneCount_def runes_of.simps length_Cons mult_Suc_right)
  finally show ?case .
qed (simp add: RuneCount_def)

lemma validateText_None [validator]:
  "validateText v label n e = None \<longleftrightarrow>
     ValidString v \<and> (e \<or> TrimSpace v \<noteq> []) \<and> (n = 0 \<or> length v \<le> n) \<and>
     (\<forall>(r, w) \<in> set (runes_of v). \<not> controlRune r)"
  by (auto simp: validateText_def list_ex_iff)

text \<open>A destination that is of one kind has only the fields of that kind.\<close>

definition typedDestination :: "golib \<Rightarrow> Destination \<Rightarrow> bool" where
  "typedDestination L d \<longleftrightarrow>
     d = noDestination \<or>
     (\<exists>r \<in> set coreDestinationRoutes. d = noDestination\<lparr>de_Kind := SourceCore, de_Route := r\<rparr>) \<or>
     (de_Kind d = SourcePlugin \<and> uuid_parse L (de_ConnectionID d) = Some (de_ConnectionID d) \<and>
      TrimSpace (de_PluginID d) \<noteq> [] \<and> TrimSpace (de_Page d) \<noteq> [] \<and> de_Route d = [] \<and> de_URL d = []) \<or>
     (\<exists>u. url_parse L (de_URL d) = Some u \<and> u_Scheme u = ''https'' \<and> u_Hostname u \<noteq> [] \<and> \<not> u_HasUser u \<and>
          portValid (u_Port u) \<and> d = noDestination\<lparr>de_Kind := SourceExternal, de_URL := de_URL d\<rparr>)"

lemma validateCore_typed: "de_Kind d = SourceCore \<Longrightarrow> validateCore d = None \<Longrightarrow> typedDestination L d"
  by (cases d) (auto simp: validateCore_def typedDestination_def noDestination_def)

lemma validatePlugin_typed: "de_Kind d = SourcePlugin \<Longrightarrow> validatePlugin L d = None \<Longrightarrow> typedDestination L d"
  by (auto simp: validatePlugin_def typedDestination_def validator)

lemma validateExternal_typed:
  assumes "de_Kind d = SourceExternal" and "validateExternal L d = None"
  shows "typedDestination L d"
proof -
  obtain u where "url_parse L (de_URL d) = Some u" and "u_Scheme u = ''https''" and "u_Hostname u \<noteq> []"
    and "\<not> u_HasUser u" and "portValid (u_Port u)"
    using assms(2) by (auto simp: validateExternal_def split: option.splits)
  moreover have "d = noDestination\<lparr>de_Kind := SourceExternal, de_URL := de_URL d\<rparr>"
    using assms by (cases d) (auto simp: validateExternal_def noDestination_def)
  ultimately show ?thesis unfolding typedDestination_def by blast
qed

lemma DestinationIsZero_iff [simp]: "DestinationIsZero d \<longleftrightarrow> d = noDestination"
  by (cases d) (auto simp: DestinationIsZero_def noDestination_def)

lemma DestinationValidate_typed:
  "DestinationValidate L d = None \<Longrightarrow> typedDestination L (DestinationNormalize L d)"
  using validateCore_typed validatePlugin_typed validateExternal_typed
  by (auto simp: DestinationValidate_def Let_def typedDestination_def [of L noDestination] split: if_splits)

text \<open>
  What a message that passes validation may look like: its event identity is not blank and has at
  most 128 bytes, its title has at most 200 code points (so at most 800 bytes), its body at most 4000
  (16000 bytes), its severity is one of the four, it did not occur later than five minutes after the
  clock, and its destination, in normal form, is empty, one of the host's own routes, a page of a
  plugin with a canonical connection identity, or an absolute HTTPS URL without credentials, with no
  field of another kind set.
\<close>
theorem accepted_message_bounds:
  assumes "MessageValidate L now m = None"
  shows "TrimSpace (ms_EventID m) \<noteq> [] \<and> length (ms_EventID m) \<le> 128 \<and>
         TrimSpace (ms_Title m) \<noteq> [] \<and> RuneCount (ms_Title m) \<le> 200 \<and> length (ms_Title m) \<le> 800 \<and>
         RuneCount (ms_Body m) \<le> 4000 \<and> length (ms_Body m) \<le> 16000 \<and>
         ms_Severity m \<in> {''info'', ''success'', ''warning'', ''critical''} \<and>
         ms_OccurredAt m \<noteq> zero_time \<and> ms_OccurredAt m \<le> now + 300 * 1000000000 \<and>
         typedDestination L (ms_Destination (MessageNormalize L (MessageNormalize L m)))"
proof -
  have v: "validateText (ms_EventID m) ''event ID'' MaxEventIDBytes False = None"
    "validateText (ms_Title m) ''title'' 0 False = None" "validSeverity (ms_Severity m)"
    "RuneCount (ms_Title m) \<le> MaxTitleCharacters" "RuneCount (ms_Body m) \<le> MaxBodyCharacters"
    "\<not> IsZero (ms_OccurredAt m)" "ms_OccurredAt m \<le> now + 5 * minute"
    "DestinationValidate L (ms_Destination (MessageNormalize L m)) = None"
    using assms by (auto simp: MessageValidate_def Let_def)
  have "typedDestination L (DestinationNormalize L (ms_Destination (MessageNormalize L m)))"
    by (rule DestinationValidate_typed [OF v(8)])
  then have "typedDestination L (ms_Destination (MessageNormalize L (MessageNormalize L m)))"
    by (simp add: MessageNormalize_def [of L "MessageNormalize L m"])
  moreover have "length (ms_Title m) \<le> 800" "length (ms_Body m) \<le> 16000"
    using v(4,5) length_le_runes [of "ms_Title m"] length_le_runes [of "ms_Body m"]
    by (auto simp: MaxTitleCharacters_def MaxBodyCharacters_def)
  ultimately show ?thesis
    using v by (simp add: validator MaxEventIDBytes_def MaxTitleCharacters_def MaxBodyCharacters_def
        validSeverity_def IsZero_def time_units)
qed

section \<open>The payload that replays are compared with\<close>

lemma CanonicalMessage_normal:
  "uuid_canonical L \<Longrightarrow> CanonicalMessage L (MessageNormalize L m) = CanonicalMessage L m"
  by (simp add: CanonicalMessage_def MessageNormalize_idem)

text \<open>
  The payload that identifies a publication's content depends only on the normal forms of the source
  and of the message, and not on the service reference, which may be filled in later: two
  publications whose normal forms agree up to the service reference have the same payload, or neither
  has one.
\<close>
theorem payload_of_normal_forms:
  assumes "uuid_canonical L" and "SourceNormalize L s = SourceNormalize L s'"
    and "(MessageNormalize L m)\<lparr>ms_ServiceID := i\<rparr> = (MessageNormalize L m')\<lparr>ms_ServiceID := i\<rparr>"
  shows "CanonicalPayload L s m = CanonicalPayload L s' m' \<and>
         CanonicalPayload L (SourceNormalize L s) (MessageNormalize L m) = CanonicalPayload L s m"
proof -
  have clear: "MessageNormalize L (m\<lparr>ms_ServiceID := []\<rparr>) = (MessageNormalize L m)\<lparr>ms_ServiceID := []\<rparr>" for m
    by (simp add: MessageNormalize_def)
  have "(MessageNormalize L m)\<lparr>ms_ServiceID := []\<rparr> = (MessageNormalize L m')\<lparr>ms_ServiceID := []\<rparr>"
    using arg_cong [OF assms(3), of "\<lambda>x. x\<lparr>ms_ServiceID := []\<rparr>"] by simp
  then have "CanonicalMessage L (m\<lparr>ms_ServiceID := []\<rparr>) = CanonicalMessage L (m'\<lparr>ms_ServiceID := []\<rparr>)"
    by (simp only: CanonicalMessage_def clear)
  moreover have "(MessageNormalize L m)\<lparr>ms_ServiceID := []\<rparr> = MessageNormalize L (m\<lparr>ms_ServiceID := []\<rparr>)"
    by (simp add: clear)
  ultimately show ?thesis
    using assms(2) by (simp add: CanonicalPayload_def CanonicalMessage_normal [OF assms(1)]
        SourceNormalize_idem [OF assms(1)] split: option.split)
qed

section \<open>Evaluations\<close>

text \<open>Two UUIDs, the second with an upper-case spelling.\<close>

definition notifyLib :: golib where
  "notifyLib = evalLib\<lparr>uuid_parse := (\<lambda>i. if i = ''c1'' \<or> i = ''C1'' then Some ''c1'' else None)\<rparr>"

lemma uuid_canonical_notifyLib: "uuid_canonical notifyLib"
proof -
  have "trimmed ''c1''" by (rule plain_trimmed) simp_all
  then show ?thesis by (auto simp: uuid_canonical_def notifyLib_def split: if_splits)
qed

definition evalSource :: Source where
  "evalSource = \<lparr>so_Kind = ''plugin'', so_ID = ''p'', so_ConnectionID = ''c1''\<rparr>"

definition evalMessage :: Message where
  "evalMessage = \<lparr>ms_ServiceID = [], ms_EventID = ''e'', ms_Severity = ''info'', ms_Title = ''t'', ms_Body = [],
     ms_OccurredAt = 0,
     ms_Destination = noDestination\<lparr>de_Kind := ''plugin'', de_PluginID := ''p'', de_ConnectionID := ''C1'', de_Page := ''x''\<rparr>\<rparr>"

lemma TrimSpace_plain: "s \<noteq> [] \<Longrightarrow> plain_char (hd s) \<Longrightarrow> plain_char (last s) \<Longrightarrow> TrimSpace s = s"
  by (simp add: TrimSpace_trimmed plain_trimmed)

lemma evalMessage_valid: "MessageValidate notifyLib 0 evalMessage = None"
  by (simp add: MessageValidate_def MessageNormalize_def DestinationNormalize_def canonicalConnection_def Let_def
      DestinationValidate_def validatePlugin_def validateMap_def validateQuery_def validator TrimSpace_plain
      evalMessage_def noDestination_def notifyLib_def SourcePlugin_def SourceCore_def SourceExternal_def
      validateServiceID_def ValidString_def RuneCount_def byte_def controlRune_def RuneError_def IsZero_def
      zero_time_def time_units validSeverity_def MaxEventIDBytes_def MaxTitleCharacters_def MaxSourceIDBytes_def
      MaxPageBytes_def)

lemma accepted_message_bounds_witness:
  "MessageValidate notifyLib 0 evalMessage = None \<and> length (ms_Title evalMessage) \<le> 800 \<and>
   typedDestination notifyLib (ms_Destination (MessageNormalize notifyLib (MessageNormalize notifyLib evalMessage)))"
  using evalMessage_valid accepted_message_bounds [OF evalMessage_valid] by blast

lemma payload_of_normal_forms_witness:
  "CanonicalPayload notifyLib evalSource (evalMessage\<lparr>ms_ServiceID := ''s''\<rparr>) =
   CanonicalPayload notifyLib (evalSource\<lparr>so_ConnectionID := ''C1''\<rparr>)
     (evalMessage\<lparr>ms_Destination := (ms_Destination evalMessage)\<lparr>de_ConnectionID := ''c1''\<rparr>\<rparr>)"
  (is "CanonicalPayload _ ?s ?m = CanonicalPayload _ ?s' ?m'")
proof -
  have "SourceNormalize notifyLib ?s = SourceNormalize notifyLib ?s'" by code_simp
  moreover have "(MessageNormalize notifyLib ?m)\<lparr>ms_ServiceID := []\<rparr> = (MessageNormalize notifyLib ?m')\<lparr>ms_ServiceID := []\<rparr>"
    by code_simp
  ultimately show ?thesis using payload_of_normal_forms [OF uuid_canonical_notifyLib] by blast
qed

end
