(* ===== verification/NotificationStore.thy ===== *)
theory NotificationStore
  imports NotificationModel
begin

text \<open>
  The notification inbox on SQLite (\<open>internal/adapters/sqlite/notifications.go\<close>, with the statements
  of \<open>internal/storage/queries/notifications.sql\<close> and the tables of \<open>migrations/000012\<close>, \<open>000016\<close> and
  \<open>000017\<close>). The database also holds the Web Push tables, because inserting a notification fires the
  trigger \<open>notification_web_push\<close>, which queues a delivery for each live subscription, and deleting one
  cascades to its deliveries; the operations on those tables are in the theory of Web Push.

  Rows are in \<open>rowid\<close> order. Times are stored as text, so the columns are of option type; SQL compares
  \<open>unixepoch(received_at)\<close>, where \<open>NULL\<close> (text that is not a time) satisfies no comparison. A publication
  takes the identifier that \<open>uuid.New\<close> gives and the seconds that \<open>unixepoch()\<close> reads in the trigger.
  \<open>sequence\<close> is \<open>AUTOINCREMENT\<close>: the last number handed out is kept when rows are deleted, and SQLite
  refuses to insert after \<open>2^63 - 1\<close>.
\<close>

section \<open>Tables\<close>

record notificationRow =
  nt_Sequence :: int
  nt_ID :: string
  nt_Source :: Source
  nt_EventID :: string
  nt_Severity :: string
  nt_Title :: string
  nt_Body :: string
  nt_OccurredAt :: "time option"
  nt_ReceivedAt :: "time option"
  nt_Destination :: "Destination option"
  nt_Payload :: string
  nt_ReadAt :: "time option option"
  nt_ServiceID :: string

record subscriptionRow =
  sb_ID :: string
  sb_Endpoint :: string
  sb_P256dh :: string
  sb_Auth :: string
  sb_ExpiresAt :: int

record deliveryRow =
  dl_SubscriptionID :: string
  dl_NotificationID :: string
  dl_Attempts :: int
  dl_NextAttempt :: int
  dl_LeaseUntil :: int
  dl_ExpiresAt :: int

record notify_db =
  nd_rows :: "notificationRow list"
  nd_sequence :: int
  nd_push_key :: string
  nd_push_enabled :: bool
  nd_subscriptions :: "subscriptionRow list"
  nd_deliveries :: "deliveryRow list"

type_synonym 'a notify_result = "(notify_error, 'a \<times> notify_db) result"

definition rowIdentity :: "notificationRow \<Rightarrow> Source \<times> string" where
  "rowIdentity r = (nt_Source r, nt_EventID r)"

abbreviation getNotification :: "string \<Rightarrow> notify_db \<Rightarrow> notificationRow option" where
  "getNotification i db \<equiv> tbl_get nt_ID i (nd_rows db)"

abbreviation getByIdentity :: "Source \<Rightarrow> string \<Rightarrow> notify_db \<Rightarrow> notificationRow option" where
  "getByIdentity s e db \<equiv> tbl_get rowIdentity (s, e) (nd_rows db)"

definition retainedRow :: "golib \<Rightarrow> time \<Rightarrow> notificationRow \<Rightarrow> bool" where
  "retainedRow L since r \<longleftrightarrow>
     (case nt_ReceivedAt r of Some t \<Rightarrow> unixepoch L t \<ge> Unix since | None \<Rightarrow> False)"

definition expiredRow :: "golib \<Rightarrow> time \<Rightarrow> notificationRow \<Rightarrow> bool" where
  "expiredRow L since r \<longleftrightarrow>
     (case nt_ReceivedAt r of Some t \<Rightarrow> unixepoch L t < Unix since | None \<Rightarrow> False)"

section \<open>Statements\<close>

text \<open>\<open>DELETE\<close> with the cascade to the deliveries.\<close>

definition deleteNotifications :: "(notificationRow \<Rightarrow> bool) \<Rightarrow> notify_db \<Rightarrow> notify_db" where
  "deleteNotifications P db =
     db\<lparr>nd_rows := tbl_delete P (nd_rows db),
        nd_deliveries := tbl_delete (\<lambda>d. dl_NotificationID d \<in> nt_ID ` set (filter P (nd_rows db))) (nd_deliveries db)\<rparr>"

definition PruneExpiredNotifications :: "golib \<Rightarrow> time \<Rightarrow> notify_db \<Rightarrow> nat \<times> notify_db" where
  "PruneExpiredNotifications L since db =
     (length (filter (expiredRow L since) (nd_rows db)), deleteNotifications (expiredRow L since) db)"

text \<open>The check of the column \<open>service_id\<close>.\<close>

definition lower_hex :: "char \<Rightarrow> bool" where
  "lower_hex c \<longleftrightarrow> (let b = of_char c :: nat in 48 \<le> b \<and> b \<le> 57 \<or> 97 \<le> b \<and> b \<le> 102)"

definition serviceCheck :: "string \<Rightarrow> bool" where
  "serviceCheck i \<longleftrightarrow> i = [] \<or> length i = 64 \<and> list_all lower_hex i"

definition FillNotificationService :: "string \<Rightarrow> string \<Rightarrow> notify_db \<Rightarrow> (notify_error, notify_db) result" where
  "FillNotificationService service i db =
     (if \<not> serviceCheck service \<and> list_ex (\<lambda>r. nt_ID r = i \<and> nt_ServiceID r = []) (nd_rows db)
      then Inl (NotifyConstraint ''service_id'')
      else Inr (db\<lparr>nd_rows := tbl_update (\<lambda>r. nt_ID r = i \<and> nt_ServiceID r = []) (\<lambda>r. r\<lparr>nt_ServiceID := service\<rparr>)
                               (nd_rows db)\<rparr>))"

text \<open>The trigger: one delivery for each subscription that has not expired, while push is enabled.\<close>

definition notificationWebPush :: "int \<Rightarrow> string \<Rightarrow> notify_db \<Rightarrow> notify_db" where
  "notificationWebPush clock i db =
     (if nd_push_enabled db
      then db\<lparr>nd_deliveries := nd_deliveries db @
                map (\<lambda>s. \<lparr>dl_SubscriptionID = sb_ID s, dl_NotificationID = i, dl_Attempts = 0, dl_NextAttempt = 0,
                           dl_LeaseUntil = 0, dl_ExpiresAt = clock + 86400\<rparr>)
                  (filter (\<lambda>s. sb_ExpiresAt s > clock) (nd_subscriptions db))\<rparr>
      else db)"

definition MaxSequence :: int where
  "MaxSequence = 2 ^ 63 - 1"

definition InsertNotification :: "int \<Rightarrow> notificationRow \<Rightarrow> notify_db \<Rightarrow> (notify_error, notify_db) result" where
  "InsertNotification clock r db =
     (if nd_sequence db \<ge> MaxSequence then Inl (NotifyConstraint ''sequence'')
      else if \<not> validSeverity (nt_Severity r) then Inl (NotifyConstraint ''severity'')
      else if getNotification (nt_ID r) db \<noteq> None then Inl (NotifyConstraint ''id'')
      else if tbl_get rowIdentity (rowIdentity r) (nd_rows db) \<noteq> None then Inl (NotifyConstraint ''identity'')
      else Inr (notificationWebPush clock (nt_ID r)
                 (db\<lparr>nd_rows := nd_rows db @ [r\<lparr>nt_Sequence := nd_sequence db + 1\<rparr>],
                     nd_sequence := nd_sequence db + 1\<rparr>)))"

section \<open>Publishing\<close>

text \<open>What reading the stored JSON of a destination gives.\<close>

definition jsonQuery :: "squery \<Rightarrow> squery" where
  "jsonQuery q =
     fold (\<lambda>(k, vs) m. (toValidUTF8 k, jsonStrings vs) # filter (\<lambda>p. fst p \<noteq> toValidUTF8 k) m) (sort_key fst q) []"

definition jsonDestination :: "Destination \<Rightarrow> Destination" where
  "jsonDestination d =
     \<lparr>de_Kind = toValidUTF8 (de_Kind d), de_Route = toValidUTF8 (de_Route d), de_PluginID = toValidUTF8 (de_PluginID d),
      de_ConnectionID = toValidUTF8 (de_ConnectionID d), de_Page = toValidUTF8 (de_Page d),
      de_Params = jsonMap (de_Params d), de_Query = jsonQuery (de_Query d), de_URL = toValidUTF8 (de_URL d)\<rparr>"

definition newNotificationRow :: "golib \<Rightarrow> string \<Rightarrow> Source \<Rightarrow> Message \<Rightarrow> string \<Rightarrow> time \<Rightarrow> notificationRow" where
  "newNotificationRow L i source m canonical receivedAt =
     \<lparr>nt_Sequence = 0, nt_ID = i, nt_Source = source, nt_EventID = ms_EventID m, nt_Severity = ms_Severity m,
      nt_Title = ms_Title m, nt_Body = ms_Body m, nt_OccurredAt = rfc3339 (ms_OccurredAt m),
      nt_ReceivedAt = rfc3339 receivedAt,
      nt_Destination = Some (jsonDestination (DestinationNormalize L (ms_Destination m))),
      nt_Payload = canonical, nt_ReadAt = None, nt_ServiceID = []\<rparr>"

text \<open>The second half of \<open>Publish\<close>: the identity is free.\<close>

definition reclaimCapacity :: "golib \<Rightarrow> time \<Rightarrow> notify_db \<Rightarrow> (notify_error, notify_db) result" where
  "reclaimCapacity L cutoff db =
     (let count = length (nd_rows db) in
      if count \<ge> MaxInboxSize
      then (let (removed, db') = PruneExpiredNotifications L cutoff db in
            if count - removed \<ge> MaxInboxSize then Inl NotifyCapacity else Inr db')
      else Inr db)"

definition acceptMessage ::
    "golib \<Rightarrow> int \<Rightarrow> string \<Rightarrow> Source \<Rightarrow> Message \<Rightarrow> string \<Rightarrow> time \<Rightarrow> time \<Rightarrow> notify_db \<Rightarrow> Receipt notify_result" where
  "acceptMessage L clock newID source m canonical receivedAt cutoff db =
     (case reclaimCapacity L cutoff db of
        Inl e \<Rightarrow> Inl e
      | Inr db1 \<Rightarrow>
          (case InsertNotification clock (newNotificationRow L newID source m canonical receivedAt) db1 of
             Inl e \<Rightarrow> Inl e
           | Inr db2 \<Rightarrow>
               (let receipt = \<lparr>rc_ID = newID, rc_CreatedAt = receivedAt, rc_Accepted = True\<rparr> in
                if ms_ServiceID m \<noteq> []
                then (case FillNotificationService (ms_ServiceID m) newID db2 of
                        Inl e \<Rightarrow> Inl e
                      | Inr db3 \<Rightarrow> Inr (receipt, db3))
                else Inr (receipt, db2))))"

text \<open>An identity that is retained: a replay, unless the content or the service differs.\<close>

definition replayMessage :: "Message \<Rightarrow> string \<Rightarrow> notificationRow \<Rightarrow> time \<Rightarrow> notify_db \<Rightarrow> Receipt notify_result" where
  "replayMessage m canonical existing createdAt db =
     (let receipt = \<lparr>rc_ID = nt_ID existing, rc_CreatedAt = createdAt, rc_Accepted = False\<rparr> in
      if nt_Payload existing \<noteq> canonical then Inl NotifyConflict
      else if nt_ServiceID existing \<noteq> [] \<and> ms_ServiceID m \<noteq> [] \<and> nt_ServiceID existing \<noteq> ms_ServiceID m
      then Inl NotifyConflict
      else if nt_ServiceID existing = [] \<and> ms_ServiceID m \<noteq> []
      then (case FillNotificationService (ms_ServiceID m) (nt_ID existing) db of
              Inl e \<Rightarrow> Inl e
            | Inr db' \<Rightarrow> Inr (receipt, db'))
      else Inr (receipt, db))"

definition Publish ::
    "golib \<Rightarrow> int \<Rightarrow> string \<Rightarrow> Source \<Rightarrow> Message \<Rightarrow> string \<Rightarrow> time \<Rightarrow> time \<Rightarrow> notify_db \<Rightarrow> Receipt notify_result" where
  "Publish L clock newID source m canonical receivedAt cutoff db =
     (case getByIdentity source (ms_EventID m) db of
        Some existing \<Rightarrow>
          (case nt_ReceivedAt existing of
             None \<Rightarrow> Inl (NotifyDecode ''received'')
           | Some createdAt \<Rightarrow>
               if Unix createdAt \<ge> Unix cutoff then replayMessage m canonical existing createdAt db
               else acceptMessage L clock newID source m canonical receivedAt cutoff
                      (snd (PruneExpiredNotifications L cutoff db)))
      | None \<Rightarrow> acceptMessage L clock newID source m canonical receivedAt cutoff db)"

definition BindService :: "Source \<Rightarrow> string \<Rightarrow> string \<Rightarrow> time \<Rightarrow> notify_db \<Rightarrow> Receipt notify_result" where
  "BindService source eventID serviceID cutoff db =
     (case getByIdentity source eventID db of
        None \<Rightarrow> Inl NotifyNotFound
      | Some existing \<Rightarrow>
          (case nt_ReceivedAt existing of
             None \<Rightarrow> Inl (NotifyDecode ''received'')
           | Some received \<Rightarrow>
               (let receipt = \<lparr>rc_ID = nt_ID existing, rc_CreatedAt = received, rc_Accepted = False\<rparr> in
                if Unix received < Unix cutoff then Inl NotifyNotFound
                else if nt_ServiceID existing \<noteq> [] \<and> nt_ServiceID existing \<noteq> serviceID then Inl NotifyConflict
                else if nt_ServiceID existing = []
                then (case FillNotificationService serviceID (nt_ID existing) db of
                        Inl e \<Rightarrow> Inl e
                      | Inr db' \<Rightarrow> Inr (receipt, db'))
                else Inr (receipt, db))))"

section \<open>Reading\<close>

definition notificationFromRow :: "notificationRow \<Rightarrow> (notify_error, Notification) result" where
  "notificationFromRow r =
     (case nt_OccurredAt r of
        None \<Rightarrow> Inl (NotifyDecode ''occurred'')
      | Some occurredAt \<Rightarrow>
          (case nt_ReceivedAt r of
             None \<Rightarrow> Inl (NotifyDecode ''received'')
           | Some receivedAt \<Rightarrow>
               (case nt_Destination r of
                  None \<Rightarrow> Inl (NotifyDecode ''destination'')
                | Some d \<Rightarrow>
                    if nt_ReadAt r = Some None then Inl (NotifyDecode ''read'')
                    else Inr \<lparr>no_ServiceID = nt_ServiceID r, no_ID = nt_ID r, no_Source = nt_Source r,
                              no_EventID = nt_EventID r, no_Severity = nt_Severity r, no_Title = nt_Title r,
                              no_Body = nt_Body r, no_OccurredAt = occurredAt, no_ReceivedAt = receivedAt,
                              no_Destination = d, no_ReadAt = Option.bind (nt_ReadAt r) (\<lambda>t. t)\<rparr>)))"

fun notificationsFromRows :: "notificationRow list \<Rightarrow> (notify_error, Notification list) result" where
  "notificationsFromRows [] = Inr []"
| "notificationsFromRows (r # rs) =
     (case notificationFromRow r of
        Inl e \<Rightarrow> Inl e
      | Inr n \<Rightarrow> (case notificationsFromRows rs of Inl e \<Rightarrow> Inl e | Inr ns \<Rightarrow> Inr (n # ns)))"

text \<open>The rows a page is cut from, newest first.\<close>

definition pageRows :: "golib \<Rightarrow> int \<Rightarrow> bool \<Rightarrow> time \<Rightarrow> notify_db \<Rightarrow> notificationRow list" where
  "pageRows L before unreadOnly since db =
     rev (sort_key nt_Sequence
       (filter (\<lambda>r. (before = 0 \<or> nt_Sequence r < before) \<and> (\<not> unreadOnly \<or> nt_ReadAt r = None) \<and> retainedRow L since r)
         (nd_rows db)))"

definition ListNotifications :: "golib \<Rightarrow> ListOptions \<Rightarrow> notify_db \<Rightarrow> (notify_error, Page) result" where
  "ListNotifications L opts db =
     (if lo_Limit opts < 1 \<or> lo_Limit opts > int MaxPageSize then Inl (NotifyInvalid ''limit'')
      else if int (lo_Before opts) > MaxSequence then Inl (NotifyInvalid ''before'')
      else
        (let limit = nat (lo_Limit opts);
             rows = take (limit + 1) (pageRows L (int (lo_Before opts)) (lo_UnreadOnly opts) (lo_Since opts) db);
             unread = length (filter (\<lambda>r. nt_ReadAt r = None \<and> retainedRow L (lo_Since opts) r) (nd_rows db));
             shown = take limit rows;
             next = (if length rows > limit then nat (nt_Sequence (last shown)) else 0) in
         case notificationsFromRows shown of
           Inl e \<Rightarrow> Inl e
         | Inr ns \<Rightarrow> Inr \<lparr>pg_Notifications = ns, pg_UnreadCount = unread, pg_RetentionDays = 0, pg_NextBefore = next\<rparr>))"

definition GetNotification :: "string \<Rightarrow> notify_db \<Rightarrow> (notify_error, Notification) result" where
  "GetNotification i db =
     (case getNotification i db of None \<Rightarrow> Inl NotifyNotFound | Some r \<Rightarrow> notificationFromRow r)"

section \<open>Reading marks, clearing and pruning\<close>

definition MarkRead :: "string \<Rightarrow> time \<Rightarrow> notify_db \<Rightarrow> unit notify_result" where
  "MarkRead i readAt db =
     (if getNotification i db = None then Inl NotifyNotFound
      else Inr ((), db\<lparr>nd_rows := tbl_update (\<lambda>r. nt_ID r = i)
                          (\<lambda>r. r\<lparr>nt_ReadAt := (case nt_ReadAt r of Some t \<Rightarrow> Some t | None \<Rightarrow> Some (rfc3339 readAt))\<rparr>)
                          (nd_rows db)\<rparr>))"

definition ClearAll :: "notify_db \<Rightarrow> notify_db" where
  "ClearAll db = deleteNotifications (\<lambda>_. True) db"

definition MarkAllRead :: "golib \<Rightarrow> time \<Rightarrow> time \<Rightarrow> notify_db \<Rightarrow> notify_db" where
  "MarkAllRead L readAt since db =
     db\<lparr>nd_rows := tbl_update (\<lambda>r. nt_ReadAt r = None \<and> retainedRow L since r) (\<lambda>r. r\<lparr>nt_ReadAt := Some (rfc3339 readAt)\<rparr>)
                     (nd_rows db)\<rparr>"

definition PruneExpired :: "golib \<Rightarrow> time \<Rightarrow> notify_db \<Rightarrow> nat \<times> notify_db" where
  "PruneExpired L since db = PruneExpiredNotifications L since db"

section \<open>Invariant\<close>

definition deliveryKey :: "deliveryRow \<Rightarrow> string \<times> string" where
  "deliveryKey d = (dl_SubscriptionID d, dl_NotificationID d)"

definition inboxInv :: "int \<Rightarrow> notificationRow list \<Rightarrow> bool" where
  "inboxInv seq rows \<longleftrightarrow>
     unique_key nt_ID rows \<and> unique_key rowIdentity rows \<and> sorted_wrt (<) (map nt_Sequence rows) \<and>
     (\<forall>r \<in> set rows. 0 < nt_Sequence r \<and> nt_Sequence r \<le> seq \<and> validSeverity (nt_Severity r) \<and> serviceCheck (nt_ServiceID r)) \<and>
     0 \<le> seq \<and> seq \<le> MaxSequence \<and> length rows \<le> MaxInboxSize"

definition pushInv :: "string set \<Rightarrow> subscriptionRow list \<Rightarrow> deliveryRow list \<Rightarrow> bool" where
  "pushInv ids subs ds \<longleftrightarrow>
     unique_key sb_ID subs \<and> unique_key sb_Endpoint subs \<and> length subs \<le> 128 \<and> unique_key deliveryKey ds \<and>
     dl_SubscriptionID ` set ds \<subseteq> sb_ID ` set subs \<and> dl_NotificationID ` set ds \<subseteq> ids"

definition notifyInv :: "notify_db \<Rightarrow> bool" where
  "notifyInv db \<longleftrightarrow>
     inboxInv (nd_sequence db) (nd_rows db) \<and>
     pushInv (nt_ID ` set (nd_rows db)) (nd_subscriptions db) (nd_deliveries db)"

lemma notifyInvD:
  assumes "notifyInv db"
  shows "unique_key nt_ID (nd_rows db)" "unique_key rowIdentity (nd_rows db)"
    "sorted_wrt (<) (map nt_Sequence (nd_rows db))" "length (nd_rows db) \<le> MaxInboxSize"
    "0 \<le> nd_sequence db" "nd_sequence db \<le> MaxSequence"
  using assms unfolding notifyInv_def inboxInv_def by blast+

lemma inboxInv_sequence: "inboxInv seq rows \<Longrightarrow> r \<in> set rows \<Longrightarrow> 0 < nt_Sequence r \<and> nt_Sequence r \<le> seq"
  unfolding inboxInv_def by blast

lemma sorted_wrt_map_filter: "sorted_wrt P (map f xs) \<Longrightarrow> sorted_wrt P (map f (filter Q xs))"
  by (induction xs) auto

lemma inboxInv_delete: "inboxInv seq rows \<Longrightarrow> inboxInv seq (tbl_delete P rows)"
  using length_tbl_delete [of P rows] sorted_wrt_map_filter [of "(<)" nt_Sequence rows "\<lambda>r. \<not> P r"]
  unfolding inboxInv_def by (auto intro: unique_key_delete simp: tbl_delete_def [symmetric])

lemma inboxInv_append:
  assumes "inboxInv seq rows" and "nt_ID r \<notin> nt_ID ` set rows" and "rowIdentity r \<notin> rowIdentity ` set rows"
    and "nt_Sequence r = seq + 1" and "seq < MaxSequence" and "validSeverity (nt_Severity r)"
    and "serviceCheck (nt_ServiceID r)" and "length rows < MaxInboxSize"
  shows "inboxInv (seq + 1) (rows @ [r])"
proof -
  have "sorted_wrt (<) (map nt_Sequence (rows @ [r]))"
    using assms(1,4) inboxInv_sequence [OF assms(1)] by (force simp: sorted_wrt_append inboxInv_def)
  moreover have "\<forall>x \<in> set (rows @ [r]). 0 < nt_Sequence x \<and> nt_Sequence x \<le> seq + 1 \<and>
      validSeverity (nt_Severity x) \<and> serviceCheck (nt_ServiceID x)"
    using assms(1,4,6,7) by (force simp: inboxInv_def)
  moreover have "0 \<le> seq + 1" "seq + 1 \<le> MaxSequence" "length (rows @ [r]) \<le> MaxInboxSize"
    using assms(1,5,8) by (auto simp: inboxInv_def)
  ultimately show ?thesis
    using assms(1,2,3) unfolding inboxInv_def unique_key_append1 by blast
qed

text \<open>An update that changes only the read mark and the service.\<close>

lemma inboxInv_update:
  assumes "inboxInv seq rows" and "\<And>r. nt_ID (f r) = nt_ID r" and "\<And>r. rowIdentity (f r) = rowIdentity r"
    and "\<And>r. nt_Sequence (f r) = nt_Sequence r" and "\<And>r. nt_Severity (f r) = nt_Severity r"
    and "\<And>r. r \<in> set rows \<Longrightarrow> P r \<Longrightarrow> serviceCheck (nt_ServiceID (f r))"
  shows "inboxInv seq (tbl_update P f rows)"
proof -
  have "map nt_Sequence (tbl_update P f rows) = map nt_Sequence rows"
    by (rule map_tbl_update) (rule assms(4))
  moreover have "\<forall>r \<in> set (tbl_update P f rows). 0 < nt_Sequence r \<and> nt_Sequence r \<le> seq \<and>
      validSeverity (nt_Severity r) \<and> serviceCheck (nt_ServiceID r)"
    using assms by (auto simp: in_tbl_update inboxInv_def)
  ultimately show ?thesis
    using assms(1) unfolding inboxInv_def
    by (simp add: unique_key_update [of nt_ID f, OF assms(2)] unique_key_update [of rowIdentity f, OF assms(3)])
qed

lemma keys_tbl_delete:
  assumes "unique_key key rows"
  shows "key ` set (tbl_delete P rows) = key ` set rows - key ` set (filter P rows)"
proof -
  have "set (tbl_delete P rows) = set rows - set (filter P rows)" by auto
  moreover have "inj_on key (set rows)" using assms by (simp add: unique_key_def distinct_map)
  ultimately show ?thesis
    using inj_on_image_set_diff [of key "set rows" "set rows" "set (filter P rows)"] by auto
qed

lemma pushInv_delete:
  "pushInv ids subs ds \<Longrightarrow> pushInv (ids - gone) subs (tbl_delete (\<lambda>d. dl_NotificationID d \<in> gone) ds)"
  unfolding pushInv_def by (auto intro: unique_key_delete)

lemma deleteNotifications_inv [store_inv]: "notifyInv db \<Longrightarrow> notifyInv (deleteNotifications P db)"
  using pushInv_delete inboxInv_delete keys_tbl_delete [OF notifyInvD(1), of db P]
  by (simp add: notifyInv_def deleteNotifications_def del: set_tbl_delete)

lemma PruneExpired_inv [store_inv]: "notifyInv db \<Longrightarrow> notifyInv (snd (PruneExpired L since db))"
  by (simp add: PruneExpired_def PruneExpiredNotifications_def deleteNotifications_inv)

lemma ClearAll_inv [store_inv]: "notifyInv db \<Longrightarrow> notifyInv (ClearAll db)"
  by (simp add: ClearAll_def deleteNotifications_inv)

lemma notifyInv_update:
  assumes "notifyInv db" and "\<And>r. nt_ID (f r) = nt_ID r" and "\<And>r. rowIdentity (f r) = rowIdentity r"
    and "\<And>r. nt_Sequence (f r) = nt_Sequence r" and "\<And>r. nt_Severity (f r) = nt_Severity r"
    and "\<And>r. r \<in> set (nd_rows db) \<Longrightarrow> P r \<Longrightarrow> serviceCheck (nt_ServiceID (f r))"
  shows "notifyInv (db\<lparr>nd_rows := tbl_update P f (nd_rows db)\<rparr>)"
  using assms(1) inboxInv_update [of "nd_sequence db" "nd_rows db" f P] assms
  by (simp add: notifyInv_def keys_update [of nt_ID f, OF assms(2)])

lemma serviceCheck_row: "notifyInv db \<Longrightarrow> r \<in> set (nd_rows db) \<Longrightarrow> serviceCheck (nt_ServiceID r)"
  by (simp add: notifyInv_def inboxInv_def)

lemma MarkRead_inv [store_inv]: "notifyInv db \<Longrightarrow> MarkRead i t db = Inr (u, db') \<Longrightarrow> notifyInv db'"
  by (auto simp: MarkRead_def rowIdentity_def serviceCheck_row split: if_splits intro!: notifyInv_update)

lemma MarkAllRead_inv [store_inv]: "notifyInv db \<Longrightarrow> notifyInv (MarkAllRead L t since db)"
  by (auto simp: MarkAllRead_def rowIdentity_def serviceCheck_row intro!: notifyInv_update)

lemma FillNotificationService_inv [store_inv]:
  "notifyInv db \<Longrightarrow> FillNotificationService service i db = Inr db' \<Longrightarrow> notifyInv db'"
  by (auto simp: FillNotificationService_def rowIdentity_def list_ex_iff split: if_splits intro!: notifyInv_update)

lemma BindService_inv [store_inv]:
  "notifyInv db \<Longrightarrow> BindService s e i cutoff db = Inr (rc, db') \<Longrightarrow> notifyInv db'"
  by (auto simp: BindService_def Let_def FillNotificationService_inv split: option.splits if_splits sum.splits)

lemma notificationWebPush_sel [simp]:
  "nd_rows (notificationWebPush clock i db) = nd_rows db"
  "nd_sequence (notificationWebPush clock i db) = nd_sequence db"
  "nd_subscriptions (notificationWebPush clock i db) = nd_subscriptions db"
  "nd_push_key (notificationWebPush clock i db) = nd_push_key db"
  "nd_push_enabled (notificationWebPush clock i db) = nd_push_enabled db"
  by (simp_all add: notificationWebPush_def)

lemma unique_deliveries:
  assumes "unique_key deliveryKey ds" and "unique_key sb_ID subs" and "i \<notin> dl_NotificationID ` set ds"
    and "\<And>s. dl_SubscriptionID (f s) = sb_ID s" and "\<And>s. dl_NotificationID (f s) = i"
  shows "unique_key deliveryKey (ds @ map f (filter P subs))"
proof -
  have "map deliveryKey (map f (filter P subs)) = map (\<lambda>k. (k, i)) (map sb_ID (filter P subs))"
    by (simp add: deliveryKey_def assms(4,5) comp_def)
  moreover have "distinct (map (\<lambda>k. (k, i)) (map sb_ID (filter P subs)))"
    using assms(2) by (simp add: unique_key_def distinct_map distinct_map_filter inj_on_def)
  moreover have "deliveryKey ` set ds \<inter> (\<lambda>k. (k, i)) ` A = {}" for A
    using assms(3) by (auto simp: deliveryKey_def)
  ultimately show ?thesis
    using assms(1) unfolding unique_key_def map_append distinct_append by (metis list.set_map)
qed

lemma notificationWebPush_inv:
  assumes "pushInv ids (nd_subscriptions db) (nd_deliveries db)" and "i \<notin> ids"
  shows "pushInv (insert i ids) (nd_subscriptions db) (nd_deliveries (notificationWebPush clock i db))"
proof -
  have "i \<notin> dl_NotificationID ` set (nd_deliveries db)" using assms by (auto simp: pushInv_def)
  with assms(1) show ?thesis
    unfolding pushInv_def notificationWebPush_def by (auto intro!: unique_deliveries)
qed

lemma InsertNotification_inv [store_inv]:
  assumes "notifyInv db" and "length (nd_rows db) < MaxInboxSize" and "serviceCheck (nt_ServiceID r)"
    and "InsertNotification clock r db = Inr db'"
  shows "notifyInv db'"
proof -
  let ?r = "r\<lparr>nt_Sequence := nd_sequence db + 1\<rparr>"
  have new: "nt_ID r \<notin> nt_ID ` set (nd_rows db)" "rowIdentity ?r \<notin> rowIdentity ` set (nd_rows db)"
    and ok: "nd_sequence db < MaxSequence" "validSeverity (nt_Severity r)"
    and db': "db' = notificationWebPush clock (nt_ID r)
      (db\<lparr>nd_rows := nd_rows db @ [?r], nd_sequence := nd_sequence db + 1\<rparr>)"
    using assms(4) by (auto simp: InsertNotification_def tbl_get_None rowIdentity_def simp del: not_None_eq split: if_splits)
  have "inboxInv (nd_sequence db + 1) (nd_rows db @ [?r])"
    using assms(1,2,3) new ok by (intro inboxInv_append) (auto simp: notifyInv_def)
  moreover have "pushInv (insert (nt_ID r) (nt_ID ` set (nd_rows db))) (nd_subscriptions db) (nd_deliveries db')"
    using assms(1) notificationWebPush_inv [of "nt_ID ` set (nd_rows db)"
        "db\<lparr>nd_rows := nd_rows db @ [?r], nd_sequence := nd_sequence db + 1\<rparr>" "nt_ID r" clock] new(1)
    unfolding db' notifyInv_def by simp
  ultimately show ?thesis unfolding db' notifyInv_def by simp
qed

lemma reclaimCapacity_inv:
  assumes "notifyInv db" and "reclaimCapacity L cutoff db = Inr db'"
  shows "notifyInv db' \<and> length (nd_rows db') < MaxInboxSize"
proof -
  have "length (tbl_delete P rows) = length rows - length (filter P rows)" for P and rows :: "notificationRow list"
    using sum_length_filter_compl [of P rows] by (simp add: tbl_delete_def)
  then have "length (nd_rows (deleteNotifications P db)) = length (nd_rows db) - length (filter P (nd_rows db))" for P
    by (simp add: deleteNotifications_def)
  with assms show ?thesis
    by (auto simp: reclaimCapacity_def Let_def PruneExpiredNotifications_def deleteNotifications_inv split: if_splits)
qed

lemma serviceCheck_Nil [simp]: "serviceCheck []"
  by (simp add: serviceCheck_def)

lemma acceptMessage_parts:
  assumes "acceptMessage L clock i s m c t cutoff db = Inr (rc, db')"
  obtains db1 db2 where "reclaimCapacity L cutoff db = Inr db1"
    and "InsertNotification clock (newNotificationRow L i s m c t) db1 = Inr db2"
    and "rc = \<lparr>rc_ID = i, rc_CreatedAt = t, rc_Accepted = True\<rparr>"
    and "if ms_ServiceID m = [] then db' = db2 else FillNotificationService (ms_ServiceID m) i db2 = Inr db'"
proof (cases "reclaimCapacity L cutoff db")
  case (Inr db1)
  show ?thesis
  proof (cases "InsertNotification clock (newNotificationRow L i s m c t) db1")
    case (Inr db2)
    with \<open>reclaimCapacity L cutoff db = Inr db1\<close> assms that [of db1 db2] show ?thesis
      by (simp add: acceptMessage_def Let_def split: if_splits sum.splits)
  qed (use Inr assms in \<open>simp add: acceptMessage_def\<close>)
qed (use assms in \<open>simp add: acceptMessage_def\<close>)

lemma acceptMessage_inv:
  assumes "notifyInv db" and "acceptMessage L clock i s m c t cutoff db = Inr (rc, db')"
  shows "notifyInv db'"
proof -
  obtain db1 db2 where db1: "reclaimCapacity L cutoff db = Inr db1"
    and db2: "InsertNotification clock (newNotificationRow L i s m c t) db1 = Inr db2"
    and db': "if ms_ServiceID m = [] then db' = db2 else FillNotificationService (ms_ServiceID m) i db2 = Inr db'"
    using acceptMessage_parts [OF assms(2)] by metis
  have "serviceCheck (nt_ServiceID (newNotificationRow L i s m c t))" by (simp add: newNotificationRow_def)
  with reclaimCapacity_inv [OF assms(1) db1] db2 have "notifyInv db2" by (blast intro: InsertNotification_inv)
  with db' show ?thesis by (metis FillNotificationService_inv)
qed

lemma replayMessage_inv: "notifyInv db \<Longrightarrow> replayMessage m c r t db = Inr (rc, db') \<Longrightarrow> notifyInv db'"
  by (auto simp: replayMessage_def Let_def FillNotificationService_inv split: sum.splits if_splits)

lemma Publish_inv [store_inv]:
  "notifyInv db \<Longrightarrow> Publish L clock i s m c t cutoff db = Inr (rc, db') \<Longrightarrow> notifyInv db'"
  by (auto simp: Publish_def PruneExpiredNotifications_def intro: acceptMessage_inv replayMessage_inv
      deleteNotifications_inv split: option.splits if_splits)

section \<open>What a stored notification keeps\<close>

text \<open>
  \<open>sameContent r r'\<close>: \<open>r'\<close> is \<open>r\<close> later on. Everything but the read mark and the service is the same;
  a read mark and a service that were set are still the same.
\<close>

definition sameContent :: "notificationRow \<Rightarrow> notificationRow \<Rightarrow> bool" where
  "sameContent r r' \<longleftrightarrow>
     r' = r\<lparr>nt_ReadAt := nt_ReadAt r', nt_ServiceID := nt_ServiceID r'\<rparr> \<and>
     (nt_ReadAt r = None \<or> nt_ReadAt r' = nt_ReadAt r) \<and> (nt_ServiceID r = [] \<or> nt_ServiceID r' = nt_ServiceID r)"

lemma sameContent_refl [simp]: "sameContent r r"
  by (simp add: sameContent_def)

lemma sameContent_trans:
  assumes "sameContent a b" and "sameContent b c"
  shows "sameContent a c"
proof -
  have "c = b\<lparr>nt_ReadAt := nt_ReadAt c, nt_ServiceID := nt_ServiceID c\<rparr>"
    and "b = a\<lparr>nt_ReadAt := nt_ReadAt b, nt_ServiceID := nt_ServiceID b\<rparr>"
    using assms unfolding sameContent_def by blast+
  then have "c = a\<lparr>nt_ReadAt := nt_ReadAt c, nt_ServiceID := nt_ServiceID c\<rparr>" by (cases a; cases b; cases c) simp
  moreover have "nt_ReadAt a = None \<or> nt_ReadAt c = nt_ReadAt a" "nt_ServiceID a = [] \<or> nt_ServiceID c = nt_ServiceID a"
    using assms unfolding sameContent_def by auto
  ultimately show ?thesis unfolding sameContent_def by blast
qed

lemma sameContentD:
  assumes "sameContent r r'"
  shows "nt_Sequence r' = nt_Sequence r" "nt_ID r' = nt_ID r" "rowIdentity r' = rowIdentity r"
    "nt_ReceivedAt r' = nt_ReceivedAt r" "nt_Payload r' = nt_Payload r"
  using assms by (cases r; cases r'; simp add: sameContent_def rowIdentity_def)+

text \<open>\<open>history db db'\<close>: every row of \<open>db'\<close> is a row of \<open>db\<close> later on, or newer than all of \<open>db\<close>.\<close>

definition history :: "notify_db \<Rightarrow> notify_db \<Rightarrow> bool" where
  "history db db' \<longleftrightarrow>
     nd_sequence db \<le> nd_sequence db' \<and>
     (\<forall>r' \<in> set (nd_rows db'). nd_sequence db < nt_Sequence r' \<or> (\<exists>r \<in> set (nd_rows db). sameContent r r'))"

lemma history_rows:
  assumes "nd_sequence db' = nd_sequence db" and "set (nd_rows db') \<subseteq> set (nd_rows db)"
  shows "history db db'"
proof -
  have "\<exists>r' \<in> set (nd_rows db). sameContent r' r" if "r \<in> set (nd_rows db')" for r
    using that assms(2) by (intro bexI [of _ r]) auto
  with assms(1) show ?thesis by (simp add: history_def)
qed

lemma history_refl [simp]: "history db db"
  by (rule history_rows) auto

lemma history_trans:
  assumes ab: "history a b" and bc: "history b c"
  shows "history a c"
  unfolding history_def
proof (intro conjI ballI)
  show "nd_sequence a \<le> nd_sequence c" using assms unfolding history_def by linarith
  fix r assume "r \<in> set (nd_rows c)"
  with bc consider "nd_sequence b < nt_Sequence r" | r' where "r' \<in> set (nd_rows b)" "sameContent r' r"
    unfolding history_def by blast
  then show "nd_sequence a < nt_Sequence r \<or> (\<exists>r' \<in> set (nd_rows a). sameContent r' r)"
  proof cases
    case 1
    with ab show ?thesis unfolding history_def by linarith
  next
    case (2 r')
    with ab have "nd_sequence a < nt_Sequence r' \<or> (\<exists>q \<in> set (nd_rows a). sameContent q r')" unfolding history_def by blast
    with 2(2) show ?thesis using sameContentD(1) [OF 2(2)] sameContent_trans [OF _ 2(2)] by metis
  qed
qed

lemma history_update:
  assumes "\<And>r. P r \<Longrightarrow> sameContent r (f r)"
  shows "history db (db\<lparr>nd_rows := tbl_update P f (nd_rows db)\<rparr>)"
  using assms sameContent_refl by (force simp: history_def in_tbl_update)

lemma deleteNotifications_history: "history db (deleteNotifications P db)"
  by (rule history_rows) (auto simp: deleteNotifications_def)

lemma MarkRead_history: "MarkRead i t db = Inr (u, db') \<Longrightarrow> history db db'"
  by (auto simp: MarkRead_def sameContent_def split: if_splits option.split intro!: history_update)

lemma MarkAllRead_history: "history db (MarkAllRead L t since db)"
  by (auto simp: MarkAllRead_def sameContent_def intro!: history_update)

lemma FillNotificationService_history: "FillNotificationService i n db = Inr db' \<Longrightarrow> history db db'"
  by (auto simp: FillNotificationService_def sameContent_def split: if_splits intro!: history_update)

lemma BindService_history: "BindService s e i cutoff db = Inr (rc, db') \<Longrightarrow> history db db'"
  by (auto simp: BindService_def Let_def FillNotificationService_history split: option.splits if_splits sum.splits)

lemma InsertNotification_parts:
  assumes "InsertNotification clock r db = Inr db'"
  shows "db' = notificationWebPush clock (nt_ID r)
          (db\<lparr>nd_rows := nd_rows db @ [r\<lparr>nt_Sequence := nd_sequence db + 1\<rparr>], nd_sequence := nd_sequence db + 1\<rparr>) \<and>
         nd_sequence db < MaxSequence \<and> validSeverity (nt_Severity r) \<and> nt_ID r \<notin> nt_ID ` set (nd_rows db) \<and>
         rowIdentity r \<notin> rowIdentity ` set (nd_rows db)"
  using assms by (auto simp: InsertNotification_def tbl_get_None simp del: not_None_eq split: if_splits)

lemma InsertNotification_history: "InsertNotification clock r db = Inr db' \<Longrightarrow> history db db'"
  using InsertNotification_parts [of clock r db db'] sameContent_refl by (force simp: history_def)

lemma reclaimCapacity_db:
  "reclaimCapacity L cutoff db = Inr db' \<Longrightarrow> db' = db \<or> db' = deleteNotifications (expiredRow L cutoff) db"
  by (auto simp: reclaimCapacity_def Let_def PruneExpiredNotifications_def split: if_splits)

lemma acceptMessage_history:
  assumes "acceptMessage L clock i s m c t cutoff db = Inr (rc, db')"
  shows "history db db'"
proof -
  obtain db1 db2 where db1: "reclaimCapacity L cutoff db = Inr db1"
    and db2: "InsertNotification clock (newNotificationRow L i s m c t) db1 = Inr db2"
    and db': "if ms_ServiceID m = [] then db' = db2 else FillNotificationService (ms_ServiceID m) i db2 = Inr db'"
    using acceptMessage_parts [OF assms] by metis
  have "history db db1" using reclaimCapacity_db [OF db1] deleteNotifications_history by auto
  moreover have "history db1 db2" by (rule InsertNotification_history [OF db2])
  moreover have "history db2 db'" using db' FillNotificationService_history by (auto split: if_splits)
  ultimately show ?thesis by (blast intro: history_trans)
qed

lemma replayMessage_history: "replayMessage m c r t db = Inr (rc, db') \<Longrightarrow> history db db'"
  by (auto simp: replayMessage_def Let_def FillNotificationService_history split: sum.splits if_splits)

lemma Publish_history:
  assumes "Publish L clock i s m c t cutoff db = Inr (rc, db')"
  shows "history db db'"
proof -
  have "history db (snd (PruneExpiredNotifications L cutoff db))"
    by (simp add: PruneExpiredNotifications_def deleteNotifications_history)
  with assms show ?thesis
    by (auto simp: Publish_def intro: acceptMessage_history replayMessage_history history_trans
        split: option.splits if_splits)
qed

section \<open>Publishing\<close>

lemma FillNotificationService_row:
  "FillNotificationService v i db = Inr db' \<Longrightarrow> r \<in> set (nd_rows db) \<Longrightarrow> nt_ID r = i \<Longrightarrow> nt_ServiceID r = [] \<Longrightarrow>
   r\<lparr>nt_ServiceID := v\<rparr> \<in> set (nd_rows db')"
  by (force simp: FillNotificationService_def in_tbl_update split: if_splits)

lemma newNotificationRow_sel [simp]:
  "nt_ID (newNotificationRow L i s m c t) = i" "rowIdentity (newNotificationRow L i s m c t) = (s, ms_EventID m)"
  "nt_Payload (newNotificationRow L i s m c t) = c" "nt_ReceivedAt (newNotificationRow L i s m c t) = rfc3339 t"
  "nt_ServiceID (newNotificationRow L i s m c t) = []" "nt_ReadAt (newNotificationRow L i s m c t) = None"
  "nt_Severity (newNotificationRow L i s m c t) = ms_Severity m"
  by (simp_all add: newNotificationRow_def rowIdentity_def)

text \<open>The row that a successful publication leaves.\<close>

lemma acceptMessage_row:
  assumes "acceptMessage L clock i s m c t cutoff db = Inr (rc, db')"
  shows "rc = \<lparr>rc_ID = i, rc_CreatedAt = t, rc_Accepted = True\<rparr> \<and>
         (newNotificationRow L i s m c t)\<lparr>nt_Sequence := nd_sequence db + 1, nt_ServiceID := ms_ServiceID m\<rparr> \<in> set (nd_rows db')"
proof -
  let ?n = "newNotificationRow L i s m c t"
  obtain db1 db2 where db1: "reclaimCapacity L cutoff db = Inr db1"
    and db2: "InsertNotification clock ?n db1 = Inr db2"
    and rc: "rc = \<lparr>rc_ID = i, rc_CreatedAt = t, rc_Accepted = True\<rparr>"
    and db': "if ms_ServiceID m = [] then db' = db2 else FillNotificationService (ms_ServiceID m) i db2 = Inr db'"
    using acceptMessage_parts [OF assms] by metis
  have "nd_sequence db1 = nd_sequence db" using reclaimCapacity_db [OF db1] by (auto simp: deleteNotifications_def)
  then have r: "?n\<lparr>nt_Sequence := nd_sequence db + 1\<rparr> \<in> set (nd_rows db2)"
    using InsertNotification_parts [OF db2] by simp
  have "?n\<lparr>nt_Sequence := nd_sequence db + 1, nt_ServiceID := ms_ServiceID m\<rparr> \<in> set (nd_rows db')"
  proof (cases "ms_ServiceID m = []")
    case True
    with db' r show ?thesis by (simp add: newNotificationRow_def)
  next
    case False
    with db' FillNotificationService_row [of "ms_ServiceID m" i db2 db', OF _ r] show ?thesis by simp
  qed
  with rc show ?thesis by blast
qed

definition storedAs :: "notificationRow \<Rightarrow> Source \<Rightarrow> Message \<Rightarrow> string \<Rightarrow> Receipt \<Rightarrow> bool" where
  "storedAs r s m c rc \<longleftrightarrow>
     rowIdentity r = (s, ms_EventID m) \<and> nt_ID r = rc_ID rc \<and> nt_Payload r = c \<and>
     nt_ReceivedAt r = Some (rc_CreatedAt rc) \<and> (ms_ServiceID m = [] \<or> nt_ServiceID r = ms_ServiceID m)"

lemma replayMessage_row:
  assumes "replayMessage m c r t db = Inr (rc, db')" and "r \<in> set (nd_rows db)"
    and "rowIdentity r = (s, ms_EventID m)" and "nt_ReceivedAt r = Some t"
  shows "\<exists>r' \<in> set (nd_rows db'). storedAs r' s m c rc"
proof (cases "nt_ServiceID r = [] \<and> ms_ServiceID m \<noteq> []")
  case True
  then have fill: "FillNotificationService (ms_ServiceID m) (nt_ID r) db = Inr db'"
    and "nt_Payload r = c" "rc_ID rc = nt_ID r" "rc_CreatedAt rc = t"
    using assms(1) by (auto simp: replayMessage_def Let_def split: if_splits sum.splits)
  with True assms show ?thesis
    by (intro bexI [OF _ FillNotificationService_row [OF fill assms(2)]]) (auto simp: storedAs_def rowIdentity_def)
next
  case False
  with assms show ?thesis
    by (intro bexI [of _ r]) (auto simp: storedAs_def replayMessage_def Let_def split: if_splits)
qed

lemma Publish_row:
  assumes "Publish L clock i s m c t cutoff db = Inr (rc, db')" and "rfc3339 t = Some t"
  shows "\<exists>r' \<in> set (nd_rows db'). storedAs r' s m c rc"
proof -
  have accept: "\<exists>r' \<in> set (nd_rows db'). storedAs r' s m c rc"
    if a: "acceptMessage L clock i s m c t cutoff db0 = Inr (rc, db')" for db0
    using acceptMessage_row [OF a] assms(2)
    by (intro bexI [OF _ conjunct2 [OF acceptMessage_row [OF a]]]) (simp add: storedAs_def rowIdentity_def newNotificationRow_def)
  show ?thesis
  proof (cases "getByIdentity s (ms_EventID m) db")
    case None
    with assms(1) accept show ?thesis by (simp add: Publish_def)
  next
    case (Some r)
    then have r: "r \<in> set (nd_rows db)" "rowIdentity r = (s, ms_EventID m)" by (auto dest: tbl_get_Some)
    from Some assms(1) obtain t0 where t0: "nt_ReceivedAt r = Some t0"
      by (auto simp: Publish_def split: option.splits)
    show ?thesis
      using assms(1) Some t0 accept replayMessage_row [OF _ r t0, where c = c and rc = rc and db' = db']
      by (auto simp: Publish_def split: if_splits)
  qed
qed

lemma Publish_stored:
  assumes "notifyInv db" and "storedAs r s m c rc" and "r \<in> set (nd_rows db)" and "Unix cutoff \<le> Unix (rc_CreatedAt rc)"
  shows "Publish L clock i s m c t cutoff db = Inr (rc\<lparr>rc_Accepted := False\<rparr>, db) \<and>
         (c' \<noteq> c \<longrightarrow> Publish L clock i s m c' t cutoff db = Inl NotifyConflict)"
proof -
  have "getByIdentity s (ms_EventID m) db = Some r"
    using tbl_get_unique [OF notifyInvD(2) [OF assms(1)] assms(3)] assms(2) by (simp add: storedAs_def)
  with assms(2,4) show ?thesis
    by (cases rc) (auto simp: Publish_def storedAs_def replayMessage_def Let_def)
qed

text \<open>
  C17. Publishing is idempotent: once a publication has succeeded, publishing the same source, message and
  payload again while the row is retained returns the same identifier and creation time with
  \<open>Accepted\<close> false and changes nothing, whatever identifier and clock the second call has; and the
  same event with another payload is refused with a conflict.
\<close>
theorem publish_idempotent:
  assumes "notifyInv db" and "rfc3339 t = Some t" and "Publish L clock i s m c t cutoff db = Inr (rc, db')"
    and "Unix cutoff' \<le> Unix (rc_CreatedAt rc)"
  shows "Publish L clock' i' s m c t' cutoff' db' = Inr (rc\<lparr>rc_Accepted := False\<rparr>, db') \<and>
         (c' \<noteq> c \<longrightarrow> Publish L clock' i' s m c' t' cutoff' db' = Inl NotifyConflict)"
proof -
  have "notifyInv db'" using assms(1,3) by (rule Publish_inv)
  moreover obtain r where "r \<in> set (nd_rows db')" "storedAs r s m c rc" using Publish_row [OF assms(3,2)] by blast
  ultimately show ?thesis using assms(4) Publish_stored by blast
qed

section \<open>What an accepted publication leaves\<close>

lemma FillNotificationService_sel:
  "FillNotificationService v i db = Inr db' \<Longrightarrow> nd_deliveries db' = nd_deliveries db \<and> nd_subscriptions db' = nd_subscriptions db"
  by (auto simp: FillNotificationService_def split: if_splits)

abbreviation newDeliveries :: "int \<Rightarrow> string \<Rightarrow> notify_db \<Rightarrow> deliveryRow list" where
  "newDeliveries clock i db \<equiv>
     (if nd_push_enabled db
      then map (\<lambda>s. \<lparr>dl_SubscriptionID = sb_ID s, dl_NotificationID = i, dl_Attempts = 0, dl_NextAttempt = 0,
                     dl_LeaseUntil = 0, dl_ExpiresAt = clock + 86400\<rparr>)
             (filter (\<lambda>s. sb_ExpiresAt s > clock) (nd_subscriptions db))
      else [])"

lemma InsertNotification_deliveries:
  assumes "notifyInv db" and "InsertNotification clock r db = Inr db'"
  shows "filter (\<lambda>d. dl_NotificationID d = nt_ID r) (nd_deliveries db') = newDeliveries clock (nt_ID r) db"
proof -
  have "nt_ID r \<notin> nt_ID ` set (nd_rows db)" using InsertNotification_parts [OF assms(2)] by blast
  then have "nt_ID r \<notin> dl_NotificationID ` set (nd_deliveries db)"
    using assms(1) unfolding notifyInv_def pushInv_def by blast
  then have "filter (\<lambda>d. dl_NotificationID d = nt_ID r) (nd_deliveries db) = []"
    unfolding filter_empty_conv by (metis imageI)
  then show ?thesis using InsertNotification_parts [OF assms(2)] by (simp add: notificationWebPush_def)
qed

lemma acceptMessage_deliveries:
  assumes "notifyInv db" and "acceptMessage L clock i s m c t cutoff db = Inr (rc, db')"
  shows "filter (\<lambda>d. dl_NotificationID d = i) (nd_deliveries db') = newDeliveries clock i db"
proof -
  obtain db1 db2 where db1: "reclaimCapacity L cutoff db = Inr db1"
    and db2: "InsertNotification clock (newNotificationRow L i s m c t) db1 = Inr db2"
    and db': "if ms_ServiceID m = [] then db' = db2 else FillNotificationService (ms_ServiceID m) i db2 = Inr db'"
    using acceptMessage_parts [OF assms(2)] by metis
  have "nd_push_enabled db1 = nd_push_enabled db" "nd_subscriptions db1 = nd_subscriptions db"
    using reclaimCapacity_db [OF db1] by (auto simp: deleteNotifications_def)
  moreover have "nd_deliveries db' = nd_deliveries db2" using db' FillNotificationService_sel by (auto split: if_splits)
  ultimately show ?thesis
    using InsertNotification_deliveries [OF conjunct1 [OF reclaimCapacity_inv [OF assms(1) db1]] db2] by simp
qed

lemma Publish_accepted:
  assumes "Publish L clock i s m c t cutoff db = Inr (rc, db')" and "rc_Accepted rc"
  obtains db0 where "acceptMessage L clock i s m c t cutoff db0 = Inr (rc, db')"
    and "db0 = db \<or> db0 = deleteNotifications (expiredRow L cutoff) db"
proof -
  have "\<not> (\<exists>r t0. replayMessage m c r t0 db = Inr (rc, db'))"
    using assms(2) by (auto simp: replayMessage_def Let_def split: if_splits sum.splits)
  with assms(1) that show ?thesis
    by (auto simp: Publish_def PruneExpiredNotifications_def split: option.splits if_splits)
qed

text \<open>
  C28. What an accepted publication leaves. The notification can be read back under the returned
  identifier with the source, the content and the service it was published with (the destination in
  normal form, as its JSON text reads back), unread; its sequence number follows every number handed
  out before; and while push is enabled exactly the subscriptions that have not expired have a
  delivery of it queued, due at once and not leased.
\<close>
theorem accepted_publication:
  assumes "notifyInv db" and "Publish L clock i s m c t cutoff db = Inr (rc, db')" and "rc_Accepted rc"
    and "rfc3339 t = Some t" and "rfc3339 (ms_OccurredAt m) = Some (ms_OccurredAt m)"
  shows "GetNotification (rc_ID rc) db' =
           Inr \<lparr>no_ServiceID = ms_ServiceID m, no_ID = rc_ID rc, no_Source = s, no_EventID = ms_EventID m,
                no_Severity = ms_Severity m, no_Title = ms_Title m, no_Body = ms_Body m, no_OccurredAt = ms_OccurredAt m,
                no_ReceivedAt = t, no_Destination = jsonDestination (DestinationNormalize L (ms_Destination m)),
                no_ReadAt = None\<rparr> \<and>
         map_option nt_Sequence (getNotification (rc_ID rc) db') = Some (nd_sequence db + 1) \<and>
         filter (\<lambda>d. dl_NotificationID d = rc_ID rc) (nd_deliveries db') = newDeliveries clock (rc_ID rc) db"
proof -
  obtain db0 where a: "acceptMessage L clock i s m c t cutoff db0 = Inr (rc, db')"
    and db0: "db0 = db \<or> db0 = deleteNotifications (expiredRow L cutoff) db"
    using Publish_accepted [OF assms(2,3)] by blast
  let ?r = "(newNotificationRow L i s m c t)\<lparr>nt_Sequence := nd_sequence db + 1, nt_ServiceID := ms_ServiceID m\<rparr>"
  have same: "nd_sequence db0 = nd_sequence db" "nd_push_enabled db0 = nd_push_enabled db"
    "nd_subscriptions db0 = nd_subscriptions db" using db0 by (auto simp: deleteNotifications_def)
  have inv: "notifyInv db0" using db0 assms(1) deleteNotifications_inv by blast
  have rc: "rc_ID rc = i" and r: "?r \<in> set (nd_rows db')" using acceptMessage_row [OF a] same(1) by auto
  have "getNotification i db' = Some ?r"
    using tbl_get_unique [OF notifyInvD(1) [OF acceptMessage_inv [OF inv a]] r] by simp
  moreover have "filter (\<lambda>d. dl_NotificationID d = i) (nd_deliveries db') = newDeliveries clock i db"
    using acceptMessage_deliveries [OF inv a] same by simp
  ultimately show ?thesis
    using assms(4,5) by (simp add: rc GetNotification_def notificationFromRow_def newNotificationRow_def)
qed

section \<open>When publishing fails\<close>

lemma FillNotificationService_total: "serviceCheck v \<Longrightarrow> \<exists>db'. FillNotificationService v i db = Inr db'"
  by (simp add: FillNotificationService_def)

lemma InsertNotification_total:
  assumes "nd_sequence db < MaxSequence" and "validSeverity (nt_Severity r)"
    and "nt_ID r \<notin> nt_ID ` set (nd_rows db)" and "rowIdentity r \<notin> rowIdentity ` set (nd_rows db)"
  shows "\<exists>db'. InsertNotification clock r db = Inr db'"
  using assms tbl_get_None [of nt_ID "nt_ID r" "nd_rows db"] tbl_get_None [of rowIdentity "rowIdentity r" "nd_rows db"]
  by (simp add: InsertNotification_def)

lemma reclaimCapacity_Inl:
  assumes "length (nd_rows db) \<le> MaxInboxSize"
  shows "reclaimCapacity L cutoff db = Inl e \<longleftrightarrow>
           e = NotifyCapacity \<and> length (nd_rows db) = MaxInboxSize \<and> (\<forall>r \<in> set (nd_rows db). \<not> expiredRow L cutoff r)"
proof -
  have "MaxInboxSize > 0" by (simp add: MaxInboxSize_def)
  then have "MaxInboxSize \<le> length (nd_rows db) - length (filter (expiredRow L cutoff) (nd_rows db)) \<longleftrightarrow>
        length (nd_rows db) = MaxInboxSize \<and> filter (expiredRow L cutoff) (nd_rows db) = []"
    using assms by (cases "filter (expiredRow L cutoff) (nd_rows db)") auto
  then show ?thesis
    by (auto simp: reclaimCapacity_def Let_def PruneExpiredNotifications_def filter_empty_conv)
qed

lemma acceptMessage_Inl:
  assumes "length (nd_rows db) \<le> MaxInboxSize" and "nd_sequence db < MaxSequence" and "validSeverity (ms_Severity m)"
    and "serviceCheck (ms_ServiceID m)" and "i \<notin> nt_ID ` set (nd_rows db)"
    and "(s, ms_EventID m) \<notin> rowIdentity ` set (nd_rows db)"
  shows "acceptMessage L clock i s m c t cutoff db = Inl e \<longleftrightarrow> reclaimCapacity L cutoff db = Inl e"
proof (cases "reclaimCapacity L cutoff db")
  case (Inl e')
  then show ?thesis by (simp add: acceptMessage_def)
next
  case (Inr db1)
  have sub: "nd_sequence db1 = nd_sequence db" "set (nd_rows db1) \<subseteq> set (nd_rows db)"
    using reclaimCapacity_db [OF Inr] by (auto simp: deleteNotifications_def)
  have "\<exists>db2. InsertNotification clock (newNotificationRow L i s m c t) db1 = Inr db2"
    using assms sub by (intro InsertNotification_total) auto
  then obtain db2 where db2: "InsertNotification clock (newNotificationRow L i s m c t) db1 = Inr db2" ..
  obtain db3 where "FillNotificationService (ms_ServiceID m) i db2 = Inr db3"
    using FillNotificationService_total [OF assms(4)] by blast
  with Inr db2 show ?thesis by (simp add: acceptMessage_def Let_def)
qed

lemma expired_identity_pruned:
  assumes "notifyInv db" and "getByIdentity s e db = Some r" and "expiredRow L cutoff r"
  shows "(s, e) \<notin> rowIdentity ` set (nd_rows (deleteNotifications (expiredRow L cutoff) db))"
proof -
  have "tbl_get rowIdentity (s, e) (tbl_delete (expiredRow L cutoff) (nd_rows db)) = None"
    using tbl_get_delete [OF notifyInvD(2) [OF assms(1)]] assms(2,3) by simp
  then show ?thesis by (simp add: tbl_get_None deleteNotifications_def)
qed

lemma replayMessage_Inl:
  assumes "serviceCheck (ms_ServiceID m)"
  shows "replayMessage m c r t db = Inl e \<longleftrightarrow>
           e = NotifyConflict \<and>
           (nt_Payload r \<noteq> c \<or> nt_ServiceID r \<noteq> [] \<and> ms_ServiceID m \<noteq> [] \<and> nt_ServiceID r \<noteq> ms_ServiceID m)"
proof -
  obtain db' where "FillNotificationService (ms_ServiceID m) (nt_ID r) db = Inr db'"
    using FillNotificationService_total [OF assms] by blast
  then show ?thesis by (auto simp: replayMessage_def Let_def)
qed

lemma reclaimed_not_full:
  assumes "notifyInv db" and "r \<in> set (nd_rows db)" and "expiredRow L cutoff r"
  shows "reclaimCapacity L cutoff (deleteNotifications (expiredRow L cutoff) db) \<noteq> Inl e"
proof -
  let ?db = "deleteNotifications (expiredRow L cutoff) db"
  have "length (nd_rows ?db) < length (nd_rows db)"
    using assms(2,3) length_filter_less [of r "nd_rows db" "\<lambda>r. \<not> expiredRow L cutoff r"]
    by (simp add: deleteNotifications_def tbl_delete_def)
  with notifyInvD(4) [OF assms(1)] have "length (nd_rows ?db) < MaxInboxSize" by linarith
  then show ?thesis by (simp add: reclaimCapacity_def)
qed

text \<open>
  When publishing fails. For a message that passed validation, with a fresh identifier and sequence
  numbers left, and a database whose clock function agrees with Go's on stored times, the store
  refuses a publication in two cases only: the event is retained with another payload or another
  service (a conflict), or the event is new and all ten thousand places are taken by rows that have
  not expired (no capacity). In particular an expired event can always be published again.
\<close>
theorem publish_refused_iff:
  assumes "notifyInv db" and "\<forall>u. unixepoch L u = Unix u" and "\<forall>r \<in> set (nd_rows db). nt_ReceivedAt r \<noteq> None"
    and "validSeverity (ms_Severity m)" and "serviceCheck (ms_ServiceID m)" and "i \<notin> nt_ID ` set (nd_rows db)"
    and "nd_sequence db < MaxSequence"
  shows "Publish L clock i s m c t cutoff db = Inl e \<longleftrightarrow>
           (\<exists>r. getByIdentity s (ms_EventID m) db = Some r \<and> retainedRow L cutoff r \<and> e = NotifyConflict \<and>
                (nt_Payload r \<noteq> c \<or> nt_ServiceID r \<noteq> [] \<and> ms_ServiceID m \<noteq> [] \<and> nt_ServiceID r \<noteq> ms_ServiceID m)) \<or>
           (getByIdentity s (ms_EventID m) db = None \<and> e = NotifyCapacity \<and> length (nd_rows db) = 10000 \<and>
            (\<forall>r \<in> set (nd_rows db). \<not> expiredRow L cutoff r))"
proof (cases "getByIdentity s (ms_EventID m) db")
  case None
  then have "(s, ms_EventID m) \<notin> rowIdentity ` set (nd_rows db)" by (simp add: tbl_get_None)
  with assms have "acceptMessage L clock i s m c t cutoff db = Inl e \<longleftrightarrow> reclaimCapacity L cutoff db = Inl e"
    by (intro acceptMessage_Inl notifyInvD)
  then show ?thesis
    using None reclaimCapacity_Inl [OF notifyInvD(4) [OF assms(1)]] by (simp add: Publish_def MaxInboxSize_def)
next
  case (Some r)
  then have r: "r \<in> set (nd_rows db)" using tbl_get_Some [OF Some] by blast
  with assms(3) obtain t0 where t0: "nt_ReceivedAt r = Some t0" by blast
  show ?thesis
  proof (cases "Unix t0 \<ge> Unix cutoff")
    case True
    then have "retainedRow L cutoff r" using t0 assms(2) by (simp add: retainedRow_def)
    then show ?thesis using True Some t0 replayMessage_Inl [OF assms(5)] by (simp add: Publish_def)
  next
    case False
    then have x: "expiredRow L cutoff r" "\<not> retainedRow L cutoff r"
      using t0 assms(2) by (auto simp: expiredRow_def retainedRow_def)
    let ?db = "deleteNotifications (expiredRow L cutoff) db"
    have "acceptMessage L clock i s m c t cutoff ?db = Inl e \<longleftrightarrow> reclaimCapacity L cutoff ?db = Inl e"
      using assms expired_identity_pruned [OF assms(1) Some x(1)] notifyInvD(4) [OF deleteNotifications_inv [OF assms(1)]]
      by (intro acceptMessage_Inl) (auto simp: deleteNotifications_def)
    with reclaimed_not_full [OF assms(1) r x(1)] False Some t0 x(2) show ?thesis
      by (simp add: Publish_def PruneExpiredNotifications_def)
  qed
qed

section \<open>Paging\<close>

lemma filter_below_last:
  fixes f :: "'a \<Rightarrow> int"
  assumes "sorted_wrt (\<lambda>a b. f b < f a) R" and "0 < n" and "n \<le> length R"
  shows "filter (\<lambda>r. f r < f (last (take n R))) R = drop n R"
proof -
  let ?T = "take n R" and ?D = "drop n R"
  have "?T \<noteq> []" using assms(2,3) by auto
  then have T: "?T = butlast ?T @ [last ?T]" by simp
  have split: "sorted_wrt (\<lambda>a b. f b < f a) (?T @ ?D)" using assms(1) by simp
  then have "sorted_wrt (\<lambda>a b. f b < f a) (butlast ?T @ [last ?T])" using T by (simp add: sorted_wrt_append)
  then have "\<forall>r \<in> set (butlast ?T @ [last ?T]). \<not> f r < f (last ?T)" by (auto simp: sorted_wrt_append)
  then have "filter (\<lambda>r. f r < f (last ?T)) ?T = []" unfolding filter_empty_conv by (simp flip: T)
  moreover have "\<forall>r \<in> set ?D. f r < f (last ?T)"
    using split \<open>?T \<noteq> []\<close> unfolding sorted_wrt_append by (meson last_in_set)
  then have "filter (\<lambda>r. f r < f (last ?T)) ?D = ?D" by simp
  ultimately have "filter (\<lambda>r. f r < f (last ?T)) (?T @ ?D) = ?D" by (simp only: filter_append append_Nil)
  then show ?thesis by simp
qed

lemma sorted_pageRows:
  assumes "notifyInv db"
  shows "sorted_wrt (\<lambda>a b. nt_Sequence b < nt_Sequence a) (pageRows L b u since db)"
proof -
  let ?P = "\<lambda>r. (b = 0 \<or> nt_Sequence r < b) \<and> (\<not> u \<or> nt_ReadAt r = None) \<and> retainedRow L since r"
  have "sorted_wrt (<) (map nt_Sequence (filter ?P (nd_rows db)))"
    by (rule sorted_wrt_map_filter [OF notifyInvD(3) [OF assms]])
  then have strict: "sorted_wrt (\<lambda>a b. nt_Sequence a < nt_Sequence b) (filter ?P (nd_rows db))"
    and "sorted (map nt_Sequence (filter ?P (nd_rows db)))"
    unfolding sorted_wrt_map by (auto intro: sorted_wrt_mono_rel [rotated])
  then have "sort_key nt_Sequence (filter ?P (nd_rows db)) = filter ?P (nd_rows db)" by (intro sort_key_id_if_sorted)
  with strict show ?thesis unfolding pageRows_def by (simp add: sorted_wrt_rev)
qed

lemma pageRows_next:
  assumes "0 < b'" and "b = 0 \<or> b' \<le> b"
  shows "pageRows L b' u since db = filter (\<lambda>r. nt_Sequence r < b') (pageRows L b u since db)"
proof -
  have "filter (\<lambda>r. (b' = 0 \<or> nt_Sequence r < b') \<and> Q r) rows =
        filter (\<lambda>r. ((b = 0 \<or> nt_Sequence r < b) \<and> Q r) \<and> nt_Sequence r < b') rows" for Q and rows :: "notificationRow list"
    using assms by (intro filter_cong) auto
  then show ?thesis unfolding pageRows_def rev_filter [symmetric] filter_sort filter_filter by (rule arg_cong)
qed

lemma pageRows_member:
  "r \<in> set (pageRows L b u since db) \<longleftrightarrow>
     r \<in> set (nd_rows db) \<and> (b = 0 \<or> nt_Sequence r < b) \<and> (\<not> u \<or> nt_ReadAt r = None) \<and> retainedRow L since r"
  by (auto simp: pageRows_def)

lemma length_pageRows: "length (pageRows L b u since db) \<le> length (nd_rows db)"
  by (simp add: pageRows_def)

lemma notificationsFromRows_append:
  "notificationsFromRows (xs @ ys) = Inr ns \<Longrightarrow>
   \<exists>as bs. notificationsFromRows xs = Inr as \<and> notificationsFromRows ys = Inr bs \<and> ns = as @ bs"
  by (induction xs arbitrary: ns) (auto split: sum.splits)

text \<open>Follow the cursors of the pages until one has none.\<close>

fun walkPages :: "nat \<Rightarrow> golib \<Rightarrow> ListOptions \<Rightarrow> notify_db \<Rightarrow> Notification list option" where
  "walkPages 0 L opts db = None"
| "walkPages (Suc n) L opts db =
     (case ListNotifications L opts db of
        Inl e \<Rightarrow> None
      | Inr page \<Rightarrow>
          if pg_NextBefore page = 0 then Some (pg_Notifications page)
          else map_option ((@) (pg_Notifications page)) (walkPages n L (opts\<lparr>lo_Before := pg_NextBefore page\<rparr>) db))"

abbreviation optRows :: "golib \<Rightarrow> ListOptions \<Rightarrow> notify_db \<Rightarrow> notificationRow list" where
  "optRows L opts db \<equiv> pageRows L (int (lo_Before opts)) (lo_UnreadOnly opts) (lo_Since opts) db"

lemma ListNotifications_page:
  assumes "1 \<le> lo_Limit opts" and "lo_Limit opts \<le> int MaxPageSize" and "int (lo_Before opts) \<le> MaxSequence"
    and "notificationsFromRows (take (nat (lo_Limit opts)) (optRows L opts db)) = Inr ns"
  shows "\<exists>page. ListNotifications L opts db = Inr page \<and> pg_Notifications page = ns \<and>
           pg_NextBefore page =
             (if length (optRows L opts db) > nat (lo_Limit opts)
              then nat (nt_Sequence (last (take (nat (lo_Limit opts)) (optRows L opts db)))) else 0)"
proof -
  let ?n = "nat (lo_Limit opts)" and ?R = "optRows L opts db"
  have "take ?n (take (?n + 1) ?R) = take ?n ?R" by (simp add: min_def)
  moreover have "length (take (?n + 1) ?R) > ?n \<longleftrightarrow> length ?R > ?n" by auto
  ultimately show ?thesis
    using assms unfolding ListNotifications_def Let_def by simp
qed

lemma walkPages_all:
  assumes "notifyInv db" and "1 \<le> lo_Limit opts" and "lo_Limit opts \<le> int MaxPageSize"
  shows "int (lo_Before opts) \<le> MaxSequence \<Longrightarrow> notificationsFromRows (optRows L opts db) = Inr ns \<Longrightarrow>
         length (optRows L opts db) < fuel \<Longrightarrow> walkPages fuel L opts db = Some ns"
  using assms(2,3)
proof (induction fuel arbitrary: opts ns)
  case (Suc fuel)
  let ?n = "nat (lo_Limit opts)" and ?R = "optRows L opts db"
  obtain as bs where as: "notificationsFromRows (take ?n ?R) = Inr as"
    and bs: "notificationsFromRows (drop ?n ?R) = Inr bs" and ns: "ns = as @ bs"
    using notificationsFromRows_append [of "take ?n ?R" "drop ?n ?R"] Suc.prems(2) by auto
  obtain page where page: "ListNotifications L opts db = Inr page" "pg_Notifications page = as"
    "pg_NextBefore page = (if length ?R > ?n then nat (nt_Sequence (last (take ?n ?R))) else 0)"
    using ListNotifications_page [OF Suc.prems(4,5,1) as] by blast
  show ?case
  proof (cases "length ?R > ?n")
    case False
    with bs ns page show ?thesis by simp
  next
    case True
    let ?l = "last (take ?n ?R)"
    have n: "0 < ?n" using Suc.prems(4) by simp
    with True have "?l \<in> set (take ?n ?R)" by (intro last_in_set) auto
    then have "?l \<in> set ?R" by (rule in_set_takeD)
    then have l: "?l \<in> set (nd_rows db)" "int (lo_Before opts) = 0 \<or> nt_Sequence ?l < int (lo_Before opts)"
      by (auto simp: pageRows_member)
    with assms(1) have seq: "0 < nt_Sequence ?l" "nt_Sequence ?l \<le> nd_sequence db"
      using inboxInv_sequence unfolding notifyInv_def by blast+
    let ?opts = "opts\<lparr>lo_Before := nat (nt_Sequence ?l)\<rparr>"
    have rest: "optRows L ?opts db = drop ?n ?R"
      using pageRows_next [OF seq(1), of "int (lo_Before opts)" L "lo_UnreadOnly opts" "lo_Since opts" db] l(2) seq(1)
        filter_below_last [OF sorted_pageRows [OF assms(1)] n, of L "int (lo_Before opts)" "lo_UnreadOnly opts" "lo_Since opts"]
        True by auto
    have "walkPages fuel L ?opts db = Some bs"
    proof (rule Suc.IH)
      show "int (lo_Before ?opts) \<le> MaxSequence" using seq notifyInvD(6) [OF assms(1)] by simp
      show "notificationsFromRows (optRows L ?opts db) = Inr bs" unfolding rest by (rule bs)
      show "length (optRows L ?opts db) < fuel" unfolding rest using Suc.prems(3) n True by simp
    qed (use Suc.prems(4,5) in simp_all)
    with page True ns seq(1) show ?thesis by simp
  qed
qed simp

text \<open>
  C22. Paging loses and repeats nothing: following the cursors of the pages of a database, from the newest
  row and with any allowed page size, gives exactly the retained notifications (only the unread ones
  if asked), newest first, and ends after at most one page more than there are rows.
\<close>
theorem paging_complete:
  assumes "notifyInv db" and "1 \<le> n" and "n \<le> 50"
    and "notificationsFromRows (rev (filter (\<lambda>r. (\<not> u \<or> nt_ReadAt r = None) \<and> retainedRow L since r) (nd_rows db))) = Inr ns"
  shows "walkPages (Suc (length (nd_rows db))) L \<lparr>lo_Before = 0, lo_UnreadOnly = u, lo_Limit = n, lo_Since = since\<rparr> db = Some ns"
proof -
  have "sorted (map nt_Sequence (filter P (nd_rows db)))" for P
    by (rule strict_sorted_imp_sorted) (rule sorted_wrt_map_filter [OF notifyInvD(3) [OF assms(1)]])
  then have rows: "pageRows L 0 u since db = rev (filter (\<lambda>r. (\<not> u \<or> nt_ReadAt r = None) \<and> retainedRow L since r) (nd_rows db))"
    by (simp add: pageRows_def sort_key_id_if_sorted)
  have "length (pageRows L 0 u since db) \<le> length (nd_rows db)" by (rule length_pageRows)
  moreover have "notificationsFromRows (pageRows L 0 u since db) = Inr ns" unfolding rows by (rule assms(4))
  ultimately show ?thesis
    using assms(1,2,3) by (intro walkPages_all) (auto simp: MaxPageSize_def MaxSequence_def)
qed

section \<open>Evaluations\<close>

definition inboxRow :: "int \<Rightarrow> string \<Rightarrow> notificationRow" where
  "inboxRow n i = (newNotificationRow evalLib i evalSource (evalMessage\<lparr>ms_EventID := i\<rparr>) ''p'' 0)\<lparr>nt_Sequence := n\<rparr>"

definition inboxDb :: notify_db where
  "inboxDb = \<lparr>nd_rows = [inboxRow 1 ''a'', inboxRow 2 ''b'', inboxRow 4 ''c''], nd_sequence = 4, nd_push_key = ''k'',
     nd_push_enabled = True,
     nd_subscriptions = [\<lparr>sb_ID = ''s'', sb_Endpoint = ''e'', sb_P256dh = ''p'', sb_Auth = ''u'', sb_ExpiresAt = 9\<rparr>],
     nd_deliveries = [\<lparr>dl_SubscriptionID = ''s'', dl_NotificationID = ''b'', dl_Attempts = 0, dl_NextAttempt = 0,
                       dl_LeaseUntil = 0, dl_ExpiresAt = 5\<rparr>]\<rparr>"

lemmas inbox_eval = inboxDb_def inboxRow_def newNotificationRow_def evalMessage_def evalSource_def rowIdentity_def
  evalLib_def Unix_def second_def rfc3339_def

lemma inboxDb_inv: "notifyInv inboxDb"
  by (simp add: notifyInv_def inboxInv_def pushInv_def unique_key_def deliveryKey_def validSeverity_def MaxSequence_def
      MaxInboxSize_def inbox_eval)

lemma inboxDb_publish:
  "\<exists>db'. Publish evalLib 6 ''x'' evalSource evalMessage ''q'' 0 0 inboxDb =
     Inr (\<lparr>rc_ID = ''x'', rc_CreatedAt = 0, rc_Accepted = True\<rparr>, db')"
  by (simp add: Publish_def acceptMessage_def reclaimCapacity_def InsertNotification_def tbl_get_def MaxSequence_def
      MaxInboxSize_def validSeverity_def inbox_eval)

lemma publish_idempotent_witness:
  "Publish evalLib 7 ''y'' evalSource evalMessage ''q'' 9 0 (snd (projr (Publish evalLib 6 ''x'' evalSource evalMessage ''q'' 0 0 inboxDb))) =
   Inr (\<lparr>rc_ID = ''x'', rc_CreatedAt = 0, rc_Accepted = False\<rparr>, snd (projr (Publish evalLib 6 ''x'' evalSource evalMessage ''q'' 0 0 inboxDb)))"
proof -
  obtain db' where p: "Publish evalLib 6 ''x'' evalSource evalMessage ''q'' 0 0 inboxDb =
      Inr (\<lparr>rc_ID = ''x'', rc_CreatedAt = 0, rc_Accepted = True\<rparr>, db')"
    using inboxDb_publish by (elim exE)
  have "rfc3339 0 = Some 0" by (simp add: rfc3339_def second_def)
  from publish_idempotent [OF inboxDb_inv this p, of 0 7 "''y''" 9] p show ?thesis by simp
qed

lemma publish_refused_iff_witness:
  "Publish evalLib 6 ''x'' evalSource (evalMessage\<lparr>ms_EventID := ''a''\<rparr>) ''q'' 0 0 inboxDb = Inl NotifyConflict"
proof -
  have ok: "\<forall>u. unixepoch evalLib u = Unix u" "\<forall>r \<in> set (nd_rows inboxDb). nt_ReceivedAt r \<noteq> None"
    "validSeverity (ms_Severity (evalMessage\<lparr>ms_EventID := ''a''\<rparr>))" "serviceCheck (ms_ServiceID (evalMessage\<lparr>ms_EventID := ''a''\<rparr>))"
    "''x'' \<notin> nt_ID ` set (nd_rows inboxDb)" "nd_sequence inboxDb < MaxSequence"
    by (simp_all add: validSeverity_def MaxSequence_def inbox_eval)
  have r: "getByIdentity evalSource ''a'' inboxDb = Some (inboxRow 1 ''a'')" "retainedRow evalLib 0 (inboxRow 1 ''a'')"
    "nt_Payload (inboxRow 1 ''a'') \<noteq> ''q''"
    by (simp_all add: tbl_get_def retainedRow_def inbox_eval)
  show ?thesis
    unfolding publish_refused_iff [OF inboxDb_inv ok] using r by (intro disjI1 exI [of _ "inboxRow 1 ''a''"]) simp
qed

lemma paging_complete_witness:
  "\<exists>ns. walkPages 4 evalLib \<lparr>lo_Before = 0, lo_UnreadOnly = True, lo_Limit = 2, lo_Since = 0\<rparr> inboxDb = Some ns \<and>
        map no_ID ns = [''c'', ''b'', ''a'']"
proof -
  have "\<exists>ns. notificationsFromRows (rev (filter (\<lambda>r. (\<not> True \<or> nt_ReadAt r = None) \<and> retainedRow evalLib 0 r) (nd_rows inboxDb))) = Inr ns \<and>
      map no_ID ns = [''c'', ''b'', ''a'']"
    by (simp add: notificationFromRow_def retainedRow_def inbox_eval)
  then obtain ns where ns: "notificationsFromRows (rev (filter (\<lambda>r. (\<not> True \<or> nt_ReadAt r = None) \<and> retainedRow evalLib 0 r) (nd_rows inboxDb))) = Inr ns"
    "map no_ID ns = [''c'', ''b'', ''a'']" by (elim exE conjE)
  have "Suc (length (nd_rows inboxDb)) = 4" by (simp add: inboxDb_def)
  with paging_complete [OF inboxDb_inv _ _ ns(1), of 2] ns(2) show ?thesis by simp
qed

lemma accepted_publication_witness:
  "\<exists>rc db'. Publish evalLib 6 ''x'' evalSource evalMessage ''q'' 0 0 inboxDb = Inr (rc, db') \<and>
     map dl_SubscriptionID (filter (\<lambda>d. dl_NotificationID d = rc_ID rc) (nd_deliveries db')) = [''s'']"
proof -
  obtain db' where p: "Publish evalLib 6 ''x'' evalSource evalMessage ''q'' 0 0 inboxDb =
      Inr (\<lparr>rc_ID = ''x'', rc_CreatedAt = 0, rc_Accepted = True\<rparr>, db')"
    using inboxDb_publish by (elim exE)
  have "rfc3339 0 = Some 0" "rfc3339 (ms_OccurredAt evalMessage) = Some (ms_OccurredAt evalMessage)"
    by (simp_all add: rfc3339_def second_def evalMessage_def)
  then have "filter (\<lambda>d. dl_NotificationID d = ''x'') (nd_deliveries db') = newDeliveries 6 ''x'' inboxDb"
    using accepted_publication [OF inboxDb_inv p] by simp
  with p show ?thesis by (simp add: inboxDb_def)
qed

end
