(* ===== verification/WebPush.thy ===== *)
theory WebPush
  imports NotificationStore
begin

text \<open>
  Web Push: the store of subscriptions and queued deliveries
  (\<open>internal/adapters/sqlite/web_push.go\<close>) and the delivery policy
  (\<open>internal/application/webpush/service.go\<close>), on the database of the inbox. A delivery is leased for a
  minute when it is handed out, completed or postponed by the outcome of the send, and removed with its
  subscription or its notification.

  The sender is a function from a delivery to the HTTP status, \<open>None\<close> for a transport error; the
  cancellation of the context and the clock are arguments of each round of \<open>Drain\<close>. \<open>Run\<close> calls \<open>Drain\<close>
  every two seconds until it is cancelled. SQL deletes of subscriptions cascade to their deliveries.

  The last section is the step relation of the whole database, with every operation of the inbox and of
  Web Push, and what each of its runs keeps.
\<close>

section \<open>Data\<close>

datatype push_error = PushInvalid | PushConflict | PushCapacity | PushNoRow

record Keys =
  ky_P256dh :: string
  ky_Auth :: string

record Subscription =
  su_Endpoint :: string
  su_Keys :: Keys

record Registration =
  rg_Token :: string
  rg_Subscription :: Subscription

record Settings =
  se_Enabled :: bool
  se_PublicKey :: string
  se_Subscribed :: bool

record Delivery =
  dv_SubscriptionID :: string
  dv_NotificationID :: string
  dv_Subscription :: Subscription
  dv_Title :: string
  dv_Body :: string
  dv_Attempts :: int

section \<open>The store\<close>

definition deleteSubscriptions :: "(subscriptionRow \<Rightarrow> bool) \<Rightarrow> notify_db \<Rightarrow> notify_db" where
  "deleteSubscriptions P db =
     db\<lparr>nd_subscriptions := tbl_delete P (nd_subscriptions db),
        nd_deliveries := tbl_delete (\<lambda>d. dl_SubscriptionID d \<in> sb_ID ` set (filter P (nd_subscriptions db))) (nd_deliveries db)\<rparr>"

definition deleteDeliveries :: "(deliveryRow \<Rightarrow> bool) \<Rightarrow> notify_db \<Rightarrow> notify_db" where
  "deleteDeliveries P db = db\<lparr>nd_deliveries := tbl_delete P (nd_deliveries db)\<rparr>"

definition PushConfigure :: "string \<Rightarrow> bool \<Rightarrow> notify_db \<Rightarrow> notify_db" where
  "PushConfigure key0 enabled db =
     (let previous = nd_push_key db;
          db1 = (if key0 \<noteq> [] \<and> key0 \<noteq> previous then deleteSubscriptions (\<lambda>_. True) db else db);
          key = (if key0 = [] then previous else key0);
          db2 = db1\<lparr>nd_push_key := key, nd_push_enabled := enabled\<rparr> in
      if \<not> enabled then deleteDeliveries (\<lambda>_. True) db2 else db2)"

definition subscriptionRowOf :: "string \<Rightarrow> Subscription \<Rightarrow> time \<Rightarrow> subscriptionRow" where
  "subscriptionRowOf i sub expires =
     \<lparr>sb_ID = i, sb_Endpoint = su_Endpoint sub, sb_P256dh = ky_P256dh (su_Keys sub), sb_Auth = ky_Auth (su_Keys sub),
      sb_ExpiresAt = Unix expires\<rparr>"

definition replacesKeys :: "Subscription \<Rightarrow> subscriptionRow \<Rightarrow> bool" where
  "replacesKeys sub r \<longleftrightarrow>
     sb_Endpoint r \<noteq> su_Endpoint sub \<or> sb_P256dh r \<noteq> ky_P256dh (su_Keys sub) \<or> sb_Auth r \<noteq> ky_Auth (su_Keys sub)"

definition PushSave :: "string \<Rightarrow> Subscription \<Rightarrow> time \<Rightarrow> notify_db \<Rightarrow> (push_error, notify_db) result" where
  "PushSave i sub expires db =
     (let owner = tbl_get sb_Endpoint (su_Endpoint sub) (nd_subscriptions db);
          count = length (nd_subscriptions db);
          known = list_ex (\<lambda>r. sb_ID r = i) (nd_subscriptions db) in
      if (case owner of Some r \<Rightarrow> sb_ID r \<noteq> i | None \<Rightarrow> False) then Inl PushConflict
      else if count \<ge> 128 \<and> \<not> known then Inl PushCapacity
      else
        (let db1 = deleteDeliveries (\<lambda>d. dl_SubscriptionID d = i \<and>
                     list_ex (\<lambda>r. sb_ID r = i \<and> replacesKeys sub r) (nd_subscriptions db)) db in
         Inr (db1\<lparr>nd_subscriptions := tbl_upsert sb_ID (\<lambda>old new. new\<lparr>sb_ID := sb_ID old\<rparr>) (subscriptionRowOf i sub expires)
                    (nd_subscriptions db1)\<rparr>)))"

definition PushDelete :: "string \<Rightarrow> notify_db \<Rightarrow> notify_db" where
  "PushDelete i db = deleteSubscriptions (\<lambda>r. sb_ID r = i) db"

definition PushExists :: "string \<Rightarrow> time \<Rightarrow> notify_db \<Rightarrow> bool" where
  "PushExists i now db \<longleftrightarrow> list_ex (\<lambda>r. sb_ID r = i \<and> sb_ExpiresAt r > Unix now) (nd_subscriptions db)"

text \<open>The two deletes that \<open>Next\<close> begins with.\<close>

definition sweepExpired :: "time \<Rightarrow> notify_db \<Rightarrow> notify_db" where
  "sweepExpired now db =
     (let db1 = deleteSubscriptions (\<lambda>r. sb_ExpiresAt r \<le> Unix now) db in
      deleteDeliveries (\<lambda>d. dl_ExpiresAt d \<le> Unix now \<or>
        dl_NotificationID d \<in> nt_ID ` set (filter (\<lambda>n. nt_ReadAt n \<noteq> None) (nd_rows db1))) db1)"

definition dueDelivery :: "time \<Rightarrow> deliveryRow \<Rightarrow> bool" where
  "dueDelivery now d \<longleftrightarrow> dl_NextAttempt d \<le> Unix now \<and> dl_LeaseUntil d \<le> Unix now"

definition leaseRow :: "time \<Rightarrow> deliveryRow \<Rightarrow> deliveryRow" where
  "leaseRow now d = d\<lparr>dl_LeaseUntil := Unix (now + minute), dl_Attempts := dl_Attempts d + 1\<rparr>"

definition PushNext :: "time \<Rightarrow> notify_db \<Rightarrow> (push_error, Delivery option \<times> notify_db) result" where
  "PushNext now db0 =
     (let db = sweepExpired now db0 in
      case sort_key dl_NextAttempt (filter (dueDelivery now) (nd_deliveries db)) of
        [] \<Rightarrow> Inr (None, db)
      | d # _ \<Rightarrow>
          (case (tbl_get sb_ID (dl_SubscriptionID d) (nd_subscriptions db), getNotification (dl_NotificationID d) db) of
             (Some s, Some n) \<Rightarrow>
               Inr (Some \<lparr>dv_SubscriptionID = dl_SubscriptionID d, dv_NotificationID = dl_NotificationID d,
                          dv_Subscription = \<lparr>su_Endpoint = sb_Endpoint s, su_Keys = \<lparr>ky_P256dh = sb_P256dh s, ky_Auth = sb_Auth s\<rparr>\<rparr>,
                          dv_Title = nt_Title n, dv_Body = nt_Body n, dv_Attempts = dl_Attempts d + 1\<rparr>,
                    db\<lparr>nd_deliveries := tbl_update (\<lambda>x. deliveryKey x = deliveryKey d) (leaseRow now) (nd_deliveries db)\<rparr>)
           | _ \<Rightarrow> Inl PushNoRow))"

definition sameAttempt :: "Delivery \<Rightarrow> deliveryRow \<Rightarrow> bool" where
  "sameAttempt d x \<longleftrightarrow>
     dl_SubscriptionID x = dv_SubscriptionID d \<and> dl_NotificationID x = dv_NotificationID d \<and> dl_Attempts x = dv_Attempts d"

definition PushComplete :: "Delivery \<Rightarrow> int \<Rightarrow> time \<Rightarrow> notify_db \<Rightarrow> notify_db" where
  "PushComplete d status now db =
     (if status = 404 \<or> status = 410
      then deleteSubscriptions (\<lambda>r. sb_ID r = dv_SubscriptionID d \<and> sb_Endpoint r = su_Endpoint (dv_Subscription d) \<and>
             sb_P256dh r = ky_P256dh (su_Keys (dv_Subscription d)) \<and> sb_Auth r = ky_Auth (su_Keys (dv_Subscription d)) \<and>
             list_ex (sameAttempt d) (nd_deliveries db)) db
      else if (200 \<le> status \<and> status < 300) \<or> dv_Attempts d \<ge> 8 \<or>
              (400 \<le> status \<and> status < 500 \<and> status \<noteq> 408 \<and> status \<noteq> 429)
      then deleteDeliveries (sameAttempt d) db
      else
        (let delay = 2 ^ nat (min (dv_Attempts d) 6) * minute in
         db\<lparr>nd_deliveries := tbl_update (sameAttempt d)
              (\<lambda>x. x\<lparr>dl_NextAttempt := Unix (now + delay), dl_LeaseUntil := 0\<rparr>) (nd_deliveries db)\<rparr>))"

section \<open>The service\<close>

definition TokenID :: "golib \<Rightarrow> string \<Rightarrow> (push_error, string) result" where
  "TokenID L token =
     (if length token \<noteq> 43 then Inl PushInvalid
      else case base64_decode token of
          None \<Rightarrow> Inl PushInvalid
        | Some raw \<Rightarrow> if length raw \<noteq> 32 then Inl PushInvalid else Inr (sha256_hex L raw))"

definition ValidEndpoint :: "golib \<Rightarrow> string \<Rightarrow> bool" where
  "ValidEndpoint L endpoint \<longleftrightarrow>
     (case url_parse L endpoint of
        None \<Rightarrow> False
      | Some u \<Rightarrow> u_Scheme u = ''https'' \<and> u_Hostname u \<noteq> [] \<and> \<not> u_HasUser u \<and> u_Fragment u = [] \<and>
                  (u_Port u = [] \<or> u_Port u = ''443'') \<and> length endpoint \<le> 2048)"

definition ValidSubject :: "golib \<Rightarrow> string \<Rightarrow> bool" where
  "ValidSubject L v \<longleftrightarrow>
     (case url_parse L v of
        None \<Rightarrow> False
      | Some u \<Rightarrow>
          TrimSpace v = v \<and>
          ((u_Scheme u = ''mailto'' \<and> u_Opaque u \<noteq> [] \<and> \<not> ContainsAny (u_Opaque u) [CHR '' '', CHR 0x0D, CHR 0x0A]) \<or>
           (u_Scheme u = ''https'' \<and> u_Hostname u \<noteq> [] \<and> \<not> u_HasUser u \<and> u_Fragment u = [])))"

definition Register :: "golib \<Rightarrow> time \<Rightarrow> Registration \<Rightarrow> notify_db \<Rightarrow> (push_error, notify_db) result" where
  "Register L now r db =
     (let sub = rg_Subscription r in
      case TokenID L (rg_Token r) of
        Inl e \<Rightarrow> Inl e
      | Inr i \<Rightarrow>
          if \<not> ValidEndpoint L (su_Endpoint sub) then Inl PushInvalid
          else case base64_decode (ky_P256dh (su_Keys sub)) of
              None \<Rightarrow> Inl PushInvalid
            | Some key \<Rightarrow>
                if \<not> p256_point L key then Inl PushInvalid
                else case base64_decode (ky_Auth (su_Keys sub)) of
                    None \<Rightarrow> Inl PushInvalid
                  | Some auth \<Rightarrow>
                      if length auth \<noteq> 16 then Inl PushInvalid else PushSave i sub (now + 90 * 24 * hour) db)"

definition Unregister :: "golib \<Rightarrow> string \<Rightarrow> notify_db \<Rightarrow> (push_error, notify_db) result" where
  "Unregister L token db = (case TokenID L token of Inl e \<Rightarrow> Inl e | Inr i \<Rightarrow> Inr (PushDelete i db))"

text \<open>A service has a sender or not, and the configured public key.\<close>

definition PushEnabled :: "bool \<Rightarrow> string \<Rightarrow> bool" where
  "PushEnabled sender publicKey \<longleftrightarrow> sender \<and> publicKey \<noteq> []"

definition PushSettings :: "golib \<Rightarrow> bool \<Rightarrow> string \<Rightarrow> time \<Rightarrow> string \<Rightarrow> notify_db \<Rightarrow> (push_error, Settings) result" where
  "PushSettings L sender publicKey now token db =
     (let enabled = PushEnabled sender publicKey;
          key = (if enabled then publicKey else []) in
      if token \<noteq> []
      then (case TokenID L token of
              Inl e \<Rightarrow> Inl e
            | Inr i \<Rightarrow> Inr \<lparr>se_Enabled = enabled, se_PublicKey = key, se_Subscribed = PushExists i now db\<rparr>)
      else Inr \<lparr>se_Enabled = enabled, se_PublicKey = key, se_Subscribed = False\<rparr>)"

text \<open>What a round of \<open>Drain\<close> meets: cancellation before and after the send, the clock, the sender.\<close>

record drainRound =
  dr_Cancelled :: bool
  dr_Now :: time
  dr_Send :: "Delivery \<Rightarrow> int option"
  dr_CancelledAfter :: bool
  dr_Done :: time

definition sendStatus :: "drainRound \<Rightarrow> Delivery \<Rightarrow> int" where
  "sendStatus r d = (case dr_Send r d of Some status \<Rightarrow> status | None \<Rightarrow> 0)"

fun drainRounds :: "drainRound list \<Rightarrow> notify_db \<Rightarrow> Delivery list \<times> notify_db" where
  "drainRounds [] db = ([], db)"
| "drainRounds (r # rs) db =
     (if dr_Cancelled r then ([], db)
      else case PushNext (dr_Now r) db of
          Inl e \<Rightarrow> ([], db)
        | Inr (None, db') \<Rightarrow> ([], db')
        | Inr (Some d, db') \<Rightarrow>
            if dr_CancelledAfter r then ([d], db')
            else (let (ds, db2) = drainRounds rs (PushComplete d (sendStatus r d) (dr_Done r) db') in (d # ds, db2)))"

text \<open>\<open>Drain\<close> with the deliveries it sent.\<close>

definition Drain :: "drainRound list \<Rightarrow> notify_db \<Rightarrow> Delivery list \<times> notify_db" where
  "Drain rounds db = drainRounds (take 32 rounds) db"

section \<open>Every operation keeps the invariant\<close>

interpretation subscription_table: upsert_table sb_ID "\<lambda>old new. new\<lparr>sb_ID := sb_ID old\<rparr>"
  by unfold_locales simp

lemma deleteSubscriptions_inv [store_inv]:
  assumes "notifyInv db"
  shows "notifyInv (deleteSubscriptions P db)"
proof -
  let ?gone = "sb_ID ` set (filter P (nd_subscriptions db))"
  have p: "pushInv (nt_ID ` set (nd_rows db)) (nd_subscriptions db) (nd_deliveries db)"
    using assms by (simp add: notifyInv_def)
  then have "sb_ID ` set (tbl_delete P (nd_subscriptions db)) = sb_ID ` set (nd_subscriptions db) - ?gone"
    by (intro keys_tbl_delete) (simp add: pushInv_def)
  moreover have "length (tbl_delete P (nd_subscriptions db)) \<le> 128"
    using p length_tbl_delete [of P "nd_subscriptions db"] by (auto simp: pushInv_def)
  ultimately show ?thesis
    using assms p unfolding notifyInv_def pushInv_def deleteSubscriptions_def
    by (auto intro: unique_key_delete simp del: set_tbl_delete set_filter)
       (auto simp: subset_iff)
qed

lemma deleteDeliveries_inv [store_inv]: "notifyInv db \<Longrightarrow> notifyInv (deleteDeliveries P db)"
  by (auto simp: notifyInv_def pushInv_def deleteDeliveries_def intro: unique_key_delete)

lemma deliveries_update_inv:
  assumes "notifyInv db" and "\<And>d. dl_SubscriptionID (f d) = dl_SubscriptionID d" and "\<And>d. dl_NotificationID (f d) = dl_NotificationID d"
  shows "notifyInv (db\<lparr>nd_deliveries := tbl_update P f (nd_deliveries db)\<rparr>)"
  using assms(1) unique_key_update [of deliveryKey f P "nd_deliveries db"]
    keys_update [of dl_SubscriptionID f P "nd_deliveries db", OF assms(2)]
    keys_update [of dl_NotificationID f P "nd_deliveries db", OF assms(3)] assms(2,3)
  by (simp add: notifyInv_def pushInv_def deliveryKey_def)

lemma PushConfigure_inv [store_inv]: "notifyInv db \<Longrightarrow> notifyInv (PushConfigure key enabled db)"
proof -
  assume "notifyInv db"
  have set_state: "notifyInv (d\<lparr>nd_push_key := k, nd_push_enabled := e\<rparr>) = notifyInv d" for d k e
    by (simp add: notifyInv_def)
  have "notifyInv (if b then deleteSubscriptions (\<lambda>_. True) db else db)" for b
    using \<open>notifyInv db\<close> by (simp add: deleteSubscriptions_inv)
  then show ?thesis
    unfolding PushConfigure_def Let_def by (simp only: set_state deleteDeliveries_inv split: if_split) simp
qed

lemma PushDelete_inv [store_inv]: "notifyInv db \<Longrightarrow> notifyInv (PushDelete i db)"
  by (simp add: PushDelete_def deleteSubscriptions_inv)

lemma tbl_update_Cons: "tbl_update P f (r # rows) = (if P r then f r else r) # tbl_update P f rows"
  by (simp add: tbl_update_def)

lemma unique_endpoint_upsert:
  assumes "unique_key sb_ID subs" and "unique_key sb_Endpoint subs"
    and "\<And>r. r \<in> set subs \<Longrightarrow> sb_Endpoint r = sb_Endpoint new \<Longrightarrow> sb_ID r = sb_ID new"
  shows "unique_key sb_Endpoint (tbl_upsert sb_ID (\<lambda>old new. new\<lparr>sb_ID := sb_ID old\<rparr>) new subs)"
proof (cases "tbl_get sb_ID (sb_ID new) subs")
  case None
  then have "sb_Endpoint new \<notin> sb_Endpoint ` set subs"
    using assms(3) unfolding tbl_get_None by (metis (no_types, opaque_lifting) imageE imageI)
  with None assms(2) show ?thesis by (simp add: tbl_upsert_def)
next
  case (Some old)
  have "unique_key sb_Endpoint (tbl_update (\<lambda>r. sb_ID r = sb_ID new) (\<lambda>old. new\<lparr>sb_ID := sb_ID old\<rparr>) subs)"
    using assms
  proof (induction subs)
    case (Cons r subs)
    have IH: "unique_key sb_Endpoint (tbl_update (\<lambda>r. sb_ID r = sb_ID new) (\<lambda>old. new\<lparr>sb_ID := sb_ID old\<rparr>) subs)"
      using Cons by (auto simp: unique_key_def)
    show ?case
    proof (cases "sb_ID r = sb_ID new")
      case True
      then have "sb_ID new \<notin> sb_ID ` set subs" using Cons.prems(1) by (simp add: unique_key_def)
      then have "\<forall>x \<in> set subs. sb_ID x \<noteq> sb_ID new" by (metis imageI)
      moreover from this have "sb_Endpoint new \<notin> sb_Endpoint ` set subs"
        using Cons.prems(3) by (metis imageE list.set_intros(2))
      ultimately show ?thesis
        using True Cons.prems(2) tbl_update_nop [of subs "\<lambda>r. sb_ID r = sb_ID new"]
        by (simp add: unique_key_def tbl_update_def)
    next
      case False
      then have "sb_Endpoint r \<noteq> sb_Endpoint new" using Cons.prems(3) [of r] by auto
      moreover have "sb_Endpoint r \<notin> sb_Endpoint ` set subs" using Cons.prems(2) by (simp add: unique_key_def)
      ultimately have "sb_Endpoint r \<notin> sb_Endpoint ` set (tbl_update (\<lambda>r. sb_ID r = sb_ID new) (\<lambda>old. new\<lparr>sb_ID := sb_ID old\<rparr>) subs)"
        by (auto simp: in_tbl_update split: if_splits)
      with IH False show ?thesis unfolding tbl_update_Cons by (simp add: unique_key_def)
    qed
  qed (simp add: tbl_update_def)
  with Some show ?thesis by (simp add: tbl_upsert_def)
qed

lemma length_upsert:
  "length (tbl_upsert key merge new rows) = (if tbl_get key (key new) rows = None then Suc (length rows) else length rows)"
  by (simp add: tbl_upsert_def)

lemma PushSave_inv [store_inv]:
  assumes "notifyInv db" and "PushSave i sub expires db = Inr db'"
  shows "notifyInv db'"
proof -
  let ?new = "subscriptionRowOf i sub expires" and ?subs = "nd_subscriptions db"
  obtain P where db': "db' = (deleteDeliveries P db)\<lparr>nd_subscriptions := tbl_upsert sb_ID (\<lambda>old new. new\<lparr>sb_ID := sb_ID old\<rparr>) ?new ?subs\<rparr>"
    using assms(2) by (auto simp: PushSave_def Let_def deleteDeliveries_def split: if_splits)
  have p: "unique_key sb_ID ?subs" "unique_key sb_Endpoint ?subs" "length ?subs \<le> 128"
    using assms(1) by (auto simp: notifyInv_def pushInv_def)
  have own: "sb_ID r = sb_ID ?new" if "r \<in> set ?subs" "sb_Endpoint r = sb_Endpoint ?new" for r
    using assms(2) tbl_get_unique [OF p(2) that(1)] that(2)
    by (auto simp: PushSave_def Let_def subscriptionRowOf_def split: if_splits)
  have "tbl_get sb_ID i ?subs = None \<Longrightarrow> length ?subs < 128"
    using assms(2) by (auto simp: PushSave_def Let_def list_ex_iff tbl_get_None image_iff split: if_splits)
  then have "length (tbl_upsert sb_ID (\<lambda>old new. new\<lparr>sb_ID := sb_ID old\<rparr>) ?new ?subs) \<le> 128"
    using p(3) by (cases "tbl_get sb_ID i ?subs") (simp_all add: length_upsert subscriptionRowOf_def Suc_le_eq)
  moreover have "unique_key sb_Endpoint (tbl_upsert sb_ID (\<lambda>old new. new\<lparr>sb_ID := sb_ID old\<rparr>) ?new ?subs)"
    using p own by (intro unique_endpoint_upsert)
  ultimately show ?thesis
    using deleteDeliveries_inv [OF assms(1), of P] subscription_table.unique_key_upsert [OF p(1), of ?new]
      subscription_table.keys_upsert [of ?new ?subs]
    unfolding db' notifyInv_def pushInv_def by (auto simp: deleteDeliveries_def)
qed

lemma sweepExpired_inv [store_inv]: "notifyInv db \<Longrightarrow> notifyInv (sweepExpired now db)"
  by (simp add: sweepExpired_def Let_def deleteDeliveries_inv deleteSubscriptions_inv)

lemma leaseRow_sel [simp]:
  "dl_SubscriptionID (leaseRow now d) = dl_SubscriptionID d" "dl_NotificationID (leaseRow now d) = dl_NotificationID d"
  "deliveryKey (leaseRow now d) = deliveryKey d" "dl_NextAttempt (leaseRow now d) = dl_NextAttempt d"
  "dl_LeaseUntil (leaseRow now d) = Unix (now + minute)" "dl_Attempts (leaseRow now d) = dl_Attempts d + 1"
  "dl_ExpiresAt (leaseRow now d) = dl_ExpiresAt d"
  by (simp_all add: leaseRow_def deliveryKey_def)

text \<open>The three outcomes of \<open>Next\<close>.\<close>

lemma PushNext_parts:
  assumes "PushNext now db = Inr (r, db')"
  obtains (idle) "r = None" "db' = sweepExpired now db" "\<forall>d \<in> set (nd_deliveries db'). \<not> dueDelivery now d"
  | (lease) d s n where "d \<in> set (nd_deliveries (sweepExpired now db))" "dueDelivery now d"
      "\<forall>x \<in> set (nd_deliveries (sweepExpired now db)). dueDelivery now x \<longrightarrow> dl_NextAttempt d \<le> dl_NextAttempt x"
      "tbl_get sb_ID (dl_SubscriptionID d) (nd_subscriptions (sweepExpired now db)) = Some s"
      "getNotification (dl_NotificationID d) (sweepExpired now db) = Some n"
      "r = Some \<lparr>dv_SubscriptionID = dl_SubscriptionID d, dv_NotificationID = dl_NotificationID d,
                 dv_Subscription = \<lparr>su_Endpoint = sb_Endpoint s, su_Keys = \<lparr>ky_P256dh = sb_P256dh s, ky_Auth = sb_Auth s\<rparr>\<rparr>,
                 dv_Title = nt_Title n, dv_Body = nt_Body n, dv_Attempts = dl_Attempts d + 1\<rparr>"
      "db' = (sweepExpired now db)\<lparr>nd_deliveries := tbl_update (\<lambda>x. deliveryKey x = deliveryKey d) (leaseRow now)
               (nd_deliveries (sweepExpired now db))\<rparr>"
proof (cases "sort_key dl_NextAttempt (filter (dueDelivery now) (nd_deliveries (sweepExpired now db)))")
  case Nil
  then have "filter (dueDelivery now) (nd_deliveries (sweepExpired now db)) = []"
    by (metis length_0_conv length_sort)
  with assms Nil show ?thesis by (intro idle) (auto simp: PushNext_def Let_def filter_empty_conv)
next
  case (Cons d ds)
  let ?due = "filter (dueDelivery now) (nd_deliveries (sweepExpired now db))"
  have "set (d # ds) = set ?due" by (metis Cons set_sort)
  then have d: "d \<in> set ?due" by auto
  have "sorted (map dl_NextAttempt (d # ds))" by (metis Cons sorted_sort_key)
  then have "\<forall>x \<in> set (d # ds). dl_NextAttempt d \<le> dl_NextAttempt x" by simp
  then have least: "\<forall>x \<in> set ?due. dl_NextAttempt d \<le> dl_NextAttempt x" unfolding \<open>set (d # ds) = set ?due\<close> .
  from assms Cons obtain s n where "tbl_get sb_ID (dl_SubscriptionID d) (nd_subscriptions (sweepExpired now db)) = Some s"
    "getNotification (dl_NotificationID d) (sweepExpired now db) = Some n"
    by (auto simp: PushNext_def Let_def split: option.splits)
  with assms Cons d least show ?thesis by (intro lease [of d s n]) (auto simp: PushNext_def Let_def)
qed

lemma PushNext_inv [store_inv]: "notifyInv db \<Longrightarrow> PushNext now db = Inr (r, db') \<Longrightarrow> notifyInv db'"
  by (elim PushNext_parts) (auto intro: sweepExpired_inv deliveries_update_inv)

lemma PushComplete_inv [store_inv]: "notifyInv db \<Longrightarrow> notifyInv (PushComplete d status now db)"
  by (auto simp: PushComplete_def Let_def intro: deleteSubscriptions_inv deleteDeliveries_inv deliveries_update_inv)

lemma Register_inv [store_inv]: "notifyInv db \<Longrightarrow> Register L now r db = Inr db' \<Longrightarrow> notifyInv db'"
  by (auto simp: Register_def Let_def intro: PushSave_inv split: sum.splits option.splits if_splits)

section \<open>Deliveries and leases\<close>

lemma sweepExpired_deliveries:
  "d \<in> set (nd_deliveries (sweepExpired now db)) \<Longrightarrow>
   d \<in> set (nd_deliveries db) \<and> dl_ExpiresAt d > Unix now \<and>
   (\<forall>n \<in> set (nd_rows db). nt_ID n = dl_NotificationID d \<longrightarrow> nt_ReadAt n = None)"
  by (auto simp: sweepExpired_def Let_def deleteDeliveries_def deleteSubscriptions_def image_iff)

lemma sweepExpired_sel [simp]:
  "nd_rows (sweepExpired now db) = nd_rows db" "nd_sequence (sweepExpired now db) = nd_sequence db"
  "nd_push_enabled (sweepExpired now db) = nd_push_enabled db"
  by (simp_all add: sweepExpired_def Let_def deleteDeliveries_def deleteSubscriptions_def)

lemma sweepExpired_subscriptions:
  "nd_subscriptions (sweepExpired now db) = tbl_delete (\<lambda>r. sb_ExpiresAt r \<le> Unix now) (nd_subscriptions db)"
  by (simp add: sweepExpired_def Let_def deleteDeliveries_def deleteSubscriptions_def)

text \<open>
  C38. What \<open>Next\<close> hands out. It never fails on a database that satisfies the invariant. A delivery it
  hands out goes to a stored subscription that has not expired, with that subscription's endpoint and
  keys; its notification is stored and unread and gives the title and the body; it was queued, due and
  not leased, none that is due has been due for longer, and afterwards it is leased for a minute with
  one attempt more. If it hands out nothing, nothing is due.
\<close>
theorem next_hands_out_due_delivery:
  assumes "notifyInv db"
  shows "(\<exists>db'. PushNext now db = Inr (None, db') \<and> (\<forall>d \<in> set (nd_deliveries db'). \<not> dueDelivery now d)) \<or>
         (\<exists>v db' s n d. PushNext now db = Inr (Some v, db') \<and>
            s \<in> set (nd_subscriptions db) \<and> sb_ID s = dv_SubscriptionID v \<and> sb_ExpiresAt s > Unix now \<and>
            dv_Subscription v = \<lparr>su_Endpoint = sb_Endpoint s, su_Keys = \<lparr>ky_P256dh = sb_P256dh s, ky_Auth = sb_Auth s\<rparr>\<rparr> \<and>
            n \<in> set (nd_rows db) \<and> nt_ID n = dv_NotificationID v \<and> nt_ReadAt n = None \<and>
            dv_Title v = nt_Title n \<and> dv_Body v = nt_Body n \<and>
            d \<in> set (nd_deliveries db) \<and> deliveryKey d = (dv_SubscriptionID v, dv_NotificationID v) \<and>
            dueDelivery now d \<and> dl_ExpiresAt d > Unix now \<and> leaseRow now d \<in> set (nd_deliveries db') \<and>
            dv_Attempts v = dl_Attempts d + 1 \<and>
            (\<forall>x \<in> set (nd_deliveries db'). dueDelivery now x \<longrightarrow> dl_NextAttempt d \<le> dl_NextAttempt x))"
proof -
  have inv: "notifyInv (sweepExpired now db)" using assms by (rule sweepExpired_inv)
  have "\<exists>r db'. PushNext now db = Inr (r, db')"
  proof (cases "sort_key dl_NextAttempt (filter (dueDelivery now) (nd_deliveries (sweepExpired now db)))")
    case (Cons d ds)
    then have "d \<in> set (nd_deliveries (sweepExpired now db))"
      using set_sort [of dl_NextAttempt "filter (dueDelivery now) (nd_deliveries (sweepExpired now db))"] by auto
    then have "dl_SubscriptionID d \<in> sb_ID ` set (nd_subscriptions (sweepExpired now db))"
      "dl_NotificationID d \<in> nt_ID ` set (nd_rows (sweepExpired now db))"
      using inv unfolding notifyInv_def pushInv_def by blast+
    then obtain s n where "tbl_get sb_ID (dl_SubscriptionID d) (nd_subscriptions (sweepExpired now db)) = Some s"
      "getNotification (dl_NotificationID d) (sweepExpired now db) = Some n"
      by (metis tbl_get_None not_None_eq)
    with Cons show ?thesis by (simp add: PushNext_def Let_def)
  qed (simp add: PushNext_def Let_def)
  then obtain r db' where p: "PushNext now db = Inr (r, db')" by blast
  then show ?thesis
  proof (cases rule: PushNext_parts)
    case idle
    with p show ?thesis by blast
  next
    case (lease d s n)
    let ?D = "nd_deliveries (sweepExpired now db)"
    note d = sweepExpired_deliveries [OF lease(1)]
    have s: "s \<in> set (nd_subscriptions db)" "sb_ExpiresAt s > Unix now" "sb_ID s = dl_SubscriptionID d"
      using tbl_get_Some [OF lease(4)] by (auto simp: sweepExpired_subscriptions)
    have n: "n \<in> set (nd_rows db)" "nt_ID n = dl_NotificationID d" using tbl_get_Some [OF lease(5)] by auto
    have "leaseRow now d \<in> set (nd_deliveries db')"
      using lease(1) unfolding lease(7) by (force simp: in_tbl_update)
    moreover have "dl_NextAttempt d \<le> dl_NextAttempt x" if "x \<in> set (nd_deliveries db')" "dueDelivery now x" for x
    proof -
      have "x \<in> set (tbl_update (\<lambda>x. deliveryKey x = deliveryKey d) (leaseRow now) ?D)" using that(1) lease(7) by simp
      then obtain y where y: "y \<in> set ?D" "x = (if deliveryKey y = deliveryKey d then leaseRow now y else y)"
        unfolding in_tbl_update by (elim bexE)
      have "\<not> dueDelivery now (leaseRow now y)" by (simp add: dueDelivery_def Unix_def time_units) linarith
      with that(2) y lease(3) show ?thesis by (auto split: if_splits)
    qed
    ultimately show ?thesis
      using p lease(2,6) d s n by (intro disjI2) (auto simp: deliveryKey_def)
  qed
qed

lemma Unix_add_seconds: "Unix (t + n * second) = Unix t + n"
  by (simp add: Unix_def second_def)

lemma Unix_minute: "Unix (t + minute) = Unix t + 60"
  using Unix_add_seconds [of t 60] by (simp add: minute_def)

text \<open>The row that \<open>Next\<close> handed out, in the database it left.\<close>

lemma PushNext_leased:
  assumes "notifyInv db" and "PushNext now db = Inr (Some v, db')"
    and "x \<in> set (nd_deliveries db')" and "deliveryKey x = (dv_SubscriptionID v, dv_NotificationID v)"
  shows "\<exists>d \<in> set (nd_deliveries (sweepExpired now db)). deliveryKey d = deliveryKey x \<and> dueDelivery now d \<and>
           x = leaseRow now d \<and> dv_Attempts v = dl_Attempts d + 1"
  using assms(2)
proof (cases rule: PushNext_parts)
  case (lease d s n)
  let ?D = "nd_deliveries (sweepExpired now db)"
  have key: "deliveryKey d = deliveryKey x" using lease(6) assms(4) by (simp add: deliveryKey_def)
  have "x \<in> set (tbl_update (\<lambda>x. deliveryKey x = deliveryKey d) (leaseRow now) ?D)" using assms(3) lease(7) by simp
  then obtain y where y: "y \<in> set ?D" "x = (if deliveryKey y = deliveryKey d then leaseRow now y else y)"
    unfolding in_tbl_update by (elim bexE)
  then have "deliveryKey y = deliveryKey x" by (simp split: if_splits)
  with key have "deliveryKey y = deliveryKey d" by simp
  moreover have "unique_key deliveryKey ?D"
    using sweepExpired_inv [OF assms(1)] unfolding notifyInv_def pushInv_def by blast
  ultimately have "y = d" using y(1) lease(1) unfolding unique_key_def by (blast intro: distinct_map_inj_on)
  with y(2) have "x = leaseRow now d" by simp
  moreover have "dv_Attempts v = dl_Attempts d + 1" using lease(6) by simp
  ultimately show ?thesis using lease(1,2) key by blast
qed simp

lemma PushComplete_stale:
  assumes "\<forall>x \<in> set (nd_deliveries db). \<not> sameAttempt v x"
  shows "PushComplete v status t db = db"
proof -
  have "\<not> list_ex (sameAttempt v) (nd_deliveries db)" using assms by (simp add: list_ex_iff)
  moreover have "tbl_delete (sameAttempt v) (nd_deliveries db) = nd_deliveries db"
    "tbl_update (sameAttempt v) f (nd_deliveries db) = nd_deliveries db" for f
    using assms by (simp_all add: tbl_delete_nop tbl_update_nop)
  ultimately show ?thesis
    by (simp add: PushComplete_def Let_def deleteSubscriptions_def deleteDeliveries_def tbl_delete_nop)
qed

text \<open>
  C24. A lease is exclusive for a minute and fences its holder: if the same delivery is handed out twice in a
  row, the second time is at least 60 seconds after the first, it counts as a further attempt, and
  whatever the first holder reports afterwards, success, failure or a lost subscription, is ignored.
\<close>
theorem lease_fences_previous_holder:
  assumes "notifyInv db" and "PushNext now db = Inr (Some v, db1)" and "PushNext now' db1 = Inr (Some v', db2)"
    and "(dv_SubscriptionID v', dv_NotificationID v') = (dv_SubscriptionID v, dv_NotificationID v)"
  shows "Unix now' \<ge> Unix now + 60 \<and> dv_Attempts v' = dv_Attempts v + 1 \<and> PushComplete v status t db2 = db2"
proof -
  have inv1: "notifyInv db1" using assms(1,2) by (rule PushNext_inv)
  have held: "Unix now' \<ge> Unix now + 60 \<and> dv_Attempts v' = dv_Attempts v + 1"
    if x: "x \<in> set (nd_deliveries db2)" "deliveryKey x = (dv_SubscriptionID v', dv_NotificationID v')" for x
  proof -
    obtain d where d: "d \<in> set (nd_deliveries (sweepExpired now' db1))" "deliveryKey d = deliveryKey x"
      "dueDelivery now' d" "dv_Attempts v' = dl_Attempts d + 1"
      using PushNext_leased [OF inv1 assms(3) x] by blast
    have "d \<in> set (nd_deliveries db1)" using sweepExpired_deliveries [OF d(1)] by blast
    moreover have "deliveryKey d = (dv_SubscriptionID v, dv_NotificationID v)" using d(2) x(2) assms(4) by simp
    ultimately obtain d0 where "d = leaseRow now d0" "dv_Attempts v = dl_Attempts d0 + 1"
      using PushNext_leased [OF assms(1,2)] by blast
    with d(3,4) show ?thesis by (simp add: dueDelivery_def Unix_minute)
  qed
  have "\<exists>x \<in> set (nd_deliveries db2). deliveryKey x = (dv_SubscriptionID v', dv_NotificationID v') \<and> dl_Attempts x = dv_Attempts v'"
    using assms(3)
  proof (cases rule: PushNext_parts)
    case (lease d s n)
    then have "leaseRow now' d \<in> set (nd_deliveries db2)" by (force simp: in_tbl_update)
    with lease(6) show ?thesis by (intro bexI [of _ "leaseRow now' d"]) (auto simp: deliveryKey_def)
  qed simp
  then have first: "Unix now' \<ge> Unix now + 60 \<and> dv_Attempts v' = dv_Attempts v + 1" using held by blast
  have "\<not> sameAttempt v x" if x: "x \<in> set (nd_deliveries db2)" for x
  proof
    assume "sameAttempt v x"
    then have "deliveryKey x = (dv_SubscriptionID v', dv_NotificationID v')" "dl_Attempts x = dv_Attempts v"
      using assms(4) by (auto simp: sameAttempt_def deliveryKey_def)
    then obtain d where "x = leaseRow now' d" "dv_Attempts v' = dl_Attempts d + 1"
      using PushNext_leased [OF inv1 assms(3) x] by blast
    with \<open>dl_Attempts x = dv_Attempts v\<close> first show False by simp
  qed
  with first show ?thesis by (simp add: PushComplete_stale)
qed

text \<open>Deliveries wait with at most seven attempts, so that the eighth is the last.\<close>

definition attemptsBelow :: "int \<Rightarrow> notify_db \<Rightarrow> bool" where
  "attemptsBelow n db \<longleftrightarrow> (\<forall>d \<in> set (nd_deliveries db). 0 \<le> dl_Attempts d \<and> dl_Attempts d < n)"

lemma PushNext_attempts:
  assumes "notifyInv db" and "attemptsBelow 8 db" and "PushNext now db = Inr (Some v, db')"
  shows "1 \<le> dv_Attempts v \<and> dv_Attempts v \<le> 8 \<and>
         (\<forall>x \<in> set (nd_deliveries db'). 0 \<le> dl_Attempts x \<and> (dl_Attempts x < 8 \<or> sameAttempt v x))"
  using assms(3)
proof (cases rule: PushNext_parts)
  case (lease d s n)
  have below: "0 \<le> dl_Attempts y \<and> dl_Attempts y < 8" if "y \<in> set (nd_deliveries (sweepExpired now db))" for y
    using that assms(2) sweepExpired_deliveries unfolding attemptsBelow_def by blast
  have v: "1 \<le> dv_Attempts v" "dv_Attempts v \<le> 8" using below [OF lease(1)] lease(6) by auto
  have "0 \<le> dl_Attempts x \<and> (dl_Attempts x < 8 \<or> sameAttempt v x)" if x: "x \<in> set (nd_deliveries db')" for x
  proof (cases "deliveryKey x = (dv_SubscriptionID v, dv_NotificationID v)")
    case True
    then obtain y where "x = leaseRow now y" "dv_Attempts v = dl_Attempts y + 1"
      using PushNext_leased [OF assms(1,3) x] by blast
    with v True show ?thesis by (simp add: sameAttempt_def deliveryKey_def)
  next
    case False
    have "x \<in> set (tbl_update (\<lambda>x. deliveryKey x = deliveryKey d) (leaseRow now) (nd_deliveries (sweepExpired now db)))"
      using x lease(7) by simp
    then obtain y where y: "y \<in> set (nd_deliveries (sweepExpired now db))"
      "x = (if deliveryKey y = deliveryKey d then leaseRow now y else y)"
      unfolding in_tbl_update by (elim bexE)
    with False lease(6) have "x = y" by (auto simp: deliveryKey_def split: if_splits)
    with below [OF y(1)] show ?thesis by simp
  qed
  with v show ?thesis by blast
qed simp

lemma PushComplete_attempts:
  assumes "\<forall>x \<in> set (nd_deliveries db). 0 \<le> dl_Attempts x \<and> (dl_Attempts x < 8 \<or> sameAttempt v x)"
    and "status \<noteq> 404" and "status \<noteq> 410"
  shows "attemptsBelow 8 (PushComplete v status t db)"
proof (cases "dv_Attempts v \<ge> 8 \<or> (200 \<le> status \<and> status < 300) \<or> (400 \<le> status \<and> status < 500 \<and> status \<noteq> 408 \<and> status \<noteq> 429)")
  case True
  then have "PushComplete v status t db = deleteDeliveries (sameAttempt v) db"
    using assms(2,3) unfolding PushComplete_def by auto
  then show ?thesis using assms(1) by (auto simp: attemptsBelow_def deleteDeliveries_def)
next
  case False
  have "0 \<le> dl_Attempts x \<and> dl_Attempts x < 8" if "x \<in> set (nd_deliveries db)" for x
    using assms(1) that False by (auto simp: sameAttempt_def)
  then show ?thesis
    using False assms(2,3) by (auto simp: PushComplete_def Let_def attemptsBelow_def in_tbl_update)
qed

lemma PushComplete_gone:
  assumes "\<forall>x \<in> set (nd_deliveries db). 0 \<le> dl_Attempts x \<and> (dl_Attempts x < 8 \<or> sameAttempt v x)"
    and "status = 404 \<or> status = 410"
    and "s \<in> set (nd_subscriptions db)" and "sb_ID s = dv_SubscriptionID v"
    and "dv_Subscription v = \<lparr>su_Endpoint = sb_Endpoint s, su_Keys = \<lparr>ky_P256dh = sb_P256dh s, ky_Auth = sb_Auth s\<rparr>\<rparr>"
  shows "attemptsBelow 8 (PushComplete v status t db)"
proof (cases "list_ex (sameAttempt v) (nd_deliveries db)")
  case True
  define P where "P r \<longleftrightarrow> sb_ID r = dv_SubscriptionID v \<and> sb_Endpoint r = su_Endpoint (dv_Subscription v) \<and>
    sb_P256dh r = ky_P256dh (su_Keys (dv_Subscription v)) \<and> sb_Auth r = ky_Auth (su_Keys (dv_Subscription v)) \<and>
    list_ex (sameAttempt v) (nd_deliveries db)" for r :: subscriptionRow
  have "P s" using assms(4,5) True by (simp add: P_def)
  then have gone: "dv_SubscriptionID v \<in> sb_ID ` set (filter P (nd_subscriptions db))"
    unfolding set_filter using assms(3,4) by (intro image_eqI [of _ _ s] CollectI conjI) simp_all
  have eq: "PushComplete v status t db = deleteSubscriptions P db"
    using assms(2) by (simp add: PushComplete_def P_def [abs_def])
  have "0 \<le> dl_Attempts x \<and> dl_Attempts x < 8" if "x \<in> set (nd_deliveries (deleteSubscriptions P db))" for x
  proof -
    have "x \<in> set (nd_deliveries db)" "dl_SubscriptionID x \<notin> sb_ID ` set (filter P (nd_subscriptions db))"
      using that by (simp_all add: deleteSubscriptions_def)
    moreover from this(2) gone have "\<not> sameAttempt v x" unfolding sameAttempt_def by metis
    ultimately show ?thesis using assms(1) by blast
  qed
  then show ?thesis unfolding attemptsBelow_def eq by blast
next
  case False
  then have "PushComplete v status t db = db" by (intro PushComplete_stale) (simp add: list_ex_iff)
  with False assms(1) show ?thesis by (auto simp: attemptsBelow_def list_ex_iff)
qed

lemma PushNext_subscription:
  assumes "PushNext now db = Inr (Some v, db')"
  shows "\<exists>s \<in> set (nd_subscriptions db'). sb_ID s = dv_SubscriptionID v \<and>
           dv_Subscription v = \<lparr>su_Endpoint = sb_Endpoint s, su_Keys = \<lparr>ky_P256dh = sb_P256dh s, ky_Auth = sb_Auth s\<rparr>\<rparr>"
  using assms
proof (cases rule: PushNext_parts)
  case (lease d s n)
  then show ?thesis using tbl_get_Some [OF lease(4)] by (intro bexI [of _ s]) auto
qed simp

lemma PushNext_Complete_attempts:
  assumes "notifyInv db" and "attemptsBelow 8 db" and "PushNext now db = Inr (Some v, db')"
  shows "attemptsBelow 8 (PushComplete v status t db')"
proof -
  have x: "\<forall>x \<in> set (nd_deliveries db'). 0 \<le> dl_Attempts x \<and> (dl_Attempts x < 8 \<or> sameAttempt v x)"
    using PushNext_attempts [OF assms] by blast
  obtain s where "s \<in> set (nd_subscriptions db')" "sb_ID s = dv_SubscriptionID v"
    "dv_Subscription v = \<lparr>su_Endpoint = sb_Endpoint s, su_Keys = \<lparr>ky_P256dh = sb_P256dh s, ky_Auth = sb_Auth s\<rparr>\<rparr>"
    using PushNext_subscription [OF assms(3)] by blast
  then show ?thesis
    using PushComplete_attempts [OF x] PushComplete_gone [OF x] by blast
qed

lemma PushNext_None_attempts:
  assumes "attemptsBelow 8 db" and "PushNext now db = Inr (None, db')"
  shows "attemptsBelow 8 db'"
  using assms(2)
proof (cases rule: PushNext_parts)
  case idle
  then show ?thesis using assms(1) sweepExpired_deliveries by (auto simp: attemptsBelow_def)
qed simp

lemma drainRounds_keeps:
  assumes "notifyInv db" and "attemptsBelow 8 db" and "list_all (\<lambda>r. \<not> dr_CancelledAfter r) rounds"
    and "drainRounds rounds db = (sent, db')"
  shows "notifyInv db' \<and> attemptsBelow 8 db' \<and> length sent \<le> length rounds \<and>
         list_all (\<lambda>v. 1 \<le> dv_Attempts v \<and> dv_Attempts v \<le> 8) sent"
  using assms
proof (induction rounds db arbitrary: sent db' rule: drainRounds.induct)
  case (2 r rs db)
  show ?case
  proof (cases "dr_Cancelled r")
    case False
    show ?thesis
    proof (cases "PushNext (dr_Now r) db")
      case (Inr p)
      obtain o1 db1 where p: "p = (o1, db1)" by (cases p)
      show ?thesis
      proof (cases o1)
        case None
        with 2 False Inr p show ?thesis using PushNext_inv PushNext_None_attempts by force
      next
        case (Some v)
        have nx: "PushNext (dr_Now r) db = Inr (Some v, db1)" using Inr p Some by simp
        let ?db = "PushComplete v (sendStatus r v) (dr_Done r) db1"
        obtain ds db2 where rest: "drainRounds rs ?db = (ds, db2)" by (cases "drainRounds rs ?db")
        have go: "\<not> dr_CancelledAfter r" "list_all (\<lambda>r. \<not> dr_CancelledAfter r) rs" using 2(4) by auto
        have "notifyInv ?db" using PushNext_inv [OF 2(2) nx] by (rule PushComplete_inv)
        moreover have "attemptsBelow 8 ?db" by (rule PushNext_Complete_attempts [OF 2(2,3) nx])
        ultimately have "notifyInv db2 \<and> attemptsBelow 8 db2 \<and> length ds \<le> length rs \<and>
            list_all (\<lambda>v. 1 \<le> dv_Attempts v \<and> dv_Attempts v \<le> 8) ds"
          using 2(1) [OF False Inr p [symmetric] Some go(1)] go(2) rest by blast
        moreover have "sent = v # ds" "db' = db2" using 2(5) False nx go(1) rest by auto
        ultimately show ?thesis using PushNext_attempts [OF 2(2,3) nx] by simp
      qed
    qed (use 2 False in auto)
  qed (use 2 in auto)
qed simp

text \<open>
  C39. \<open>Drain\<close> is bounded: one call sends at most 32 deliveries, each at its first to eighth attempt, and
  unless it is cancelled between a send and its record, no delivery is left waiting with eight
  attempts: whatever the outcomes of the sends, the eighth is the last, and the database keeps its
  invariant.
\<close>
theorem drain_is_bounded:
  assumes "notifyInv db" and "attemptsBelow 8 db" and "list_all (\<lambda>r. \<not> dr_CancelledAfter r) rounds"
    and "Drain rounds db = (sent, db')"
  shows "length sent \<le> 32 \<and> list_all (\<lambda>v. 1 \<le> dv_Attempts v \<and> dv_Attempts v \<le> 8) sent \<and>
         notifyInv db' \<and> attemptsBelow 8 db'"
proof -
  have "list_all (\<lambda>r. \<not> dr_CancelledAfter r) (take 32 rounds)"
    using assms(3) by (auto simp: list_all_iff dest: in_set_takeD)
  from drainRounds_keeps [OF assms(1,2) this] assms(4) show ?thesis by (auto simp: Drain_def)
qed

section \<open>The whole database\<close>

text \<open>One committed operation of the inbox or of Web Push.\<close>

inductive notifyStep :: "golib \<Rightarrow> notify_db \<Rightarrow> notify_db \<Rightarrow> bool" for L where
  publish: "Publish L clock i s m c t cutoff db = Inr (rc, db') \<Longrightarrow> notifyStep L db db'"
| bind: "BindService s e v cutoff db = Inr (rc, db') \<Longrightarrow> notifyStep L db db'"
| read: "MarkRead i t db = Inr (u, db') \<Longrightarrow> notifyStep L db db'"
| readAll: "notifyStep L db (MarkAllRead L t since db)"
| clear: "notifyStep L db (ClearAll db)"
| prune: "notifyStep L db (snd (PruneExpired L since db))"
| configure: "notifyStep L db (PushConfigure key enabled db)"
| register: "Register L now reg db = Inr db' \<Longrightarrow> notifyStep L db db'"
| unregister: "Unregister L token db = Inr db' \<Longrightarrow> notifyStep L db db'"
| lease: "PushNext now db = Inr (r, db') \<Longrightarrow> notifyStep L db db'"
| complete: "notifyStep L db (PushComplete v status now db)"

inductive_simps notifyStep_iff: "notifyStep L db db'"

lemma notifyStep_inv: "notifyStep L db db' \<Longrightarrow> notifyInv db \<Longrightarrow> notifyInv db'"
proof (induction rule: notifyStep.induct)
  case (unregister token db db')
  then show ?case by (auto simp: Unregister_def PushDelete_inv split: sum.splits)
qed (auto intro: store_inv)

lemma push_rows [simp]:
  "nd_rows (deleteSubscriptions P db) = nd_rows db" "nd_sequence (deleteSubscriptions P db) = nd_sequence db"
  "nd_rows (deleteDeliveries Q db) = nd_rows db" "nd_sequence (deleteDeliveries Q db) = nd_sequence db"
  by (simp_all add: deleteSubscriptions_def deleteDeliveries_def)

lemma PushNext_rows: "PushNext now db = Inr (r, db') \<Longrightarrow> nd_rows db' = nd_rows db \<and> nd_sequence db' = nd_sequence db"
  by (elim PushNext_parts) simp_all

lemma PushSave_rows: "PushSave i sub t db = Inr db' \<Longrightarrow> nd_rows db' = nd_rows db \<and> nd_sequence db' = nd_sequence db"
  by (auto simp: PushSave_def Let_def split: if_splits)

lemma history_same: "nd_rows db' = nd_rows db \<and> nd_sequence db' = nd_sequence db \<Longrightarrow> history db db'"
  by (rule history_rows) simp_all

lemma notifyStep_history: "notifyStep L db db' \<Longrightarrow> history db db'"
proof (induction rule: notifyStep.induct)
  case (clear db)
  then show ?case by (simp add: ClearAll_def deleteNotifications_history)
next
  case (prune db since)
  then show ?case by (simp add: PruneExpired_def PruneExpiredNotifications_def deleteNotifications_history)
next
  case (configure db key enabled)
  then show ?case by (intro history_same) (auto simp: PushConfigure_def Let_def)
next
  case (register now reg db db')
  then show ?case
    by (intro history_same) (auto simp: Register_def Let_def dest: PushSave_rows split: sum.splits option.splits if_splits)
next
  case (unregister token db db')
  then show ?case by (intro history_same) (auto simp: Unregister_def PushDelete_def split: sum.splits)
next
  case (lease now db r db')
  then show ?case by (intro history_same PushNext_rows)
next
  case (complete db v status now)
  then show ?case by (intro history_same) (auto simp: PushComplete_def Let_def)
qed (auto intro: Publish_history BindService_history MarkRead_history MarkAllRead_history)

lemma notify_run_history: "(notifyStep L)\<^sup>*\<^sup>* db db' \<Longrightarrow> history db db'"
  by (induction rule: rtranclp_induct) (auto intro: history_trans notifyStep_history)

lemma notify_run_inv: "(notifyStep L)\<^sup>*\<^sup>* db db' \<Longrightarrow> notifyInv db \<Longrightarrow> notifyInv db'"
  by (induction rule: rtranclp_induct) (auto intro: notifyStep_inv)

definition emptyNotifyDb :: notify_db where
  "emptyNotifyDb = \<lparr>nd_rows = [], nd_sequence = 0, nd_push_key = [], nd_push_enabled = False, nd_subscriptions = [], nd_deliveries = []\<rparr>"

lemma emptyNotifyDb_inv: "notifyInv emptyNotifyDb"
  by (simp add: emptyNotifyDb_def notifyInv_def inboxInv_def pushInv_def MaxSequence_def MaxInboxSize_def)

text \<open>
  C8. In every database that the migrations and any run of publications, service bindings, read marks,
  clearing, pruning, push configuration, registrations, leases and completions can reach:
  notification identifiers and event identities are unique, sequence numbers increase from row to row
  and never exceed the last one handed out, the inbox holds at most 10000 rows and Web Push at most
  128 subscriptions, no endpoint is registered twice, and every queued delivery belongs to a stored
  subscription and a stored notification, once.
\<close>
theorem notify_reachable_inv:
  assumes "(notifyStep L)\<^sup>*\<^sup>* emptyNotifyDb db"
  shows "distinct (map nt_ID (nd_rows db)) \<and> distinct (map rowIdentity (nd_rows db)) \<and>
         sorted_wrt (<) (map nt_Sequence (nd_rows db)) \<and>
         list_all (\<lambda>r. 0 < nt_Sequence r \<and> nt_Sequence r \<le> nd_sequence db) (nd_rows db) \<and> nd_sequence db < 2 ^ 63 \<and>
         length (nd_rows db) \<le> 10000 \<and> length (nd_subscriptions db) \<le> 128 \<and> distinct (map sb_Endpoint (nd_subscriptions db)) \<and>
         distinct (map deliveryKey (nd_deliveries db)) \<and>
         dl_SubscriptionID ` set (nd_deliveries db) \<subseteq> sb_ID ` set (nd_subscriptions db) \<and>
         dl_NotificationID ` set (nd_deliveries db) \<subseteq> nt_ID ` set (nd_rows db)"
  using notify_run_inv [OF assms emptyNotifyDb_inv]
  unfolding notifyInv_def inboxInv_def pushInv_def unique_key_def MaxInboxSize_def MaxSequence_def
  by (simp add: list_all_iff)

text \<open>
  C9. What a stored notification keeps over every run. Its identifier, sequence number, source, event,
  content, payload and times never change; a read mark, once set, keeps its time; a service, once
  bound, stays bound. A row with a sequence number that the starting database had already handed out
  is one of its rows, so a page cursor from before a clearing or pruning never points at a later
  notification.
\<close>
theorem stored_notifications_immutable:
  assumes "(notifyStep L)\<^sup>*\<^sup>* db db'" and "r' \<in> set (nd_rows db')" and "nt_Sequence r' \<le> nd_sequence db"
  shows "\<exists>r \<in> set (nd_rows db).
           r' = r\<lparr>nt_ReadAt := nt_ReadAt r', nt_ServiceID := nt_ServiceID r'\<rparr> \<and>
           (nt_ReadAt r = None \<or> nt_ReadAt r' = nt_ReadAt r) \<and> (nt_ServiceID r = [] \<or> nt_ServiceID r' = nt_ServiceID r)"
proof -
  obtain r where r: "r \<in> set (nd_rows db)" "sameContent r r'"
    using notify_run_history [OF assms(1)] assms(2,3) unfolding history_def by force
  then show ?thesis unfolding sameContent_def by (rule bexI [rotated])
qed

section \<open>Evaluations\<close>

definition pushDelivery :: "int \<Rightarrow> int \<Rightarrow> deliveryRow" where
  "pushDelivery attempts lease = \<lparr>dl_SubscriptionID = ''s'', dl_NotificationID = ''b'', dl_Attempts = attempts, dl_NextAttempt = 0,
     dl_LeaseUntil = lease, dl_ExpiresAt = 900\<rparr>"

definition pushDb :: "deliveryRow list \<Rightarrow> notify_db" where
  "pushDb ds = inboxDb\<lparr>nd_subscriptions := [\<lparr>sb_ID = ''s'', sb_Endpoint = ''e'', sb_P256dh = ''p'', sb_Auth = ''u'', sb_ExpiresAt = 900\<rparr>],
     nd_deliveries := ds\<rparr>"

definition pushSent :: "int \<Rightarrow> Delivery" where
  "pushSent attempts = \<lparr>dv_SubscriptionID = ''s'', dv_NotificationID = ''b'',
     dv_Subscription = \<lparr>su_Endpoint = ''e'', su_Keys = \<lparr>ky_P256dh = ''p'', ky_Auth = ''u''\<rparr>\<rparr>,
     dv_Title = ''t'', dv_Body = [], dv_Attempts = attempts\<rparr>"

lemma inboxDb_rows:
  "tbl_get nt_ID ''b'' (nd_rows inboxDb) = Some (inboxRow 2 ''b'')" "{x \<in> set (nd_rows inboxDb). \<exists>y. nt_ReadAt x = Some y} = {}"
  "nt_Title (inboxRow 2 ''b'') = ''t''" "nt_Body (inboxRow 2 ''b'') = []"
  by (auto simp: tbl_get_def inbox_eval)

lemma pushDb_inv: "notifyInv (pushDb [pushDelivery 0 0])"
  using inboxDb_inv by (simp add: notifyInv_def pushInv_def pushDb_def pushDelivery_def unique_key_def deliveryKey_def inboxDb_def inboxRow_def)

lemma pushDb_next:
  assumes "lease \<le> Unix now" and "0 \<le> Unix now" and "Unix now < 900"
  shows "PushNext now (pushDb [pushDelivery n lease]) = Inr (Some (pushSent (n + 1)), pushDb [pushDelivery (n + 1) (Unix now + 60)])"
  using assms
  by (simp add: PushNext_def sweepExpired_def Let_def deleteSubscriptions_def deleteDeliveries_def tbl_delete_def
      tbl_update_def dueDelivery_def leaseRow_def pushDb_def pushDelivery_def pushSent_def inboxDb_rows Unix_minute
      deliveryKey_def) (simp add: tbl_get_def tbl_update_def leaseRow_def deliveryKey_def Unix_minute inboxDb_rows)

lemma next_hands_out_due_delivery_witness:
  "PushNext 0 (pushDb [pushDelivery 0 0]) = Inr (Some (pushSent 1), pushDb [pushDelivery 1 60]) \<and>
   (\<exists>s \<in> set (nd_subscriptions (pushDb [pushDelivery 0 0])). sb_ID s = ''s'' \<and> sb_ExpiresAt s > 0)"
proof -
  have "Unix 0 = 0" by (simp add: Unix_def)
  then have p: "PushNext 0 (pushDb [pushDelivery 0 0]) = Inr (Some (pushSent 1), pushDb [pushDelivery 1 60])"
    using pushDb_next [of 0 0 0] by simp
  then show ?thesis using next_hands_out_due_delivery [OF pushDb_inv, of 0] \<open>Unix 0 = 0\<close> by (auto simp: pushSent_def)
qed

lemma lease_fences_previous_holder_witness:
  "PushNext (60 * second) (pushDb [pushDelivery 1 60]) = Inr (Some (pushSent 2), pushDb [pushDelivery 2 120]) \<and>
   PushComplete (pushSent 1) 201 0 (pushDb [pushDelivery 2 120]) = pushDb [pushDelivery 2 120]"
proof -
  have u: "Unix 0 = 0" "Unix (60 * second) = 60" by (simp_all add: Unix_def second_def)
  have p: "PushNext 0 (pushDb [pushDelivery 0 0]) = Inr (Some (pushSent 1), pushDb [pushDelivery 1 60])"
    "PushNext (60 * second) (pushDb [pushDelivery 1 60]) = Inr (Some (pushSent 2), pushDb [pushDelivery 2 120])"
    using pushDb_next [of 0 0 0] pushDb_next [of 60 "60 * second" 1] u by simp_all
  from lease_fences_previous_holder [OF pushDb_inv p, of 201 0] p(2) show ?thesis by (simp add: pushSent_def)
qed

definition pushRound :: drainRound where
  "pushRound = \<lparr>dr_Cancelled = False, dr_Now = 0, dr_Send = (\<lambda>_. Some 201), dr_CancelledAfter = False, dr_Done = 0\<rparr>"

lemma drain_is_bounded_witness:
  "Drain [pushRound] (pushDb [pushDelivery 0 0]) = ([pushSent 1], pushDb []) \<and> attemptsBelow 8 (pushDb [])"
proof -
  have "Unix 0 = 0" by (simp add: Unix_def)
  then have "PushNext 0 (pushDb [pushDelivery 0 0]) = Inr (Some (pushSent 1), pushDb [pushDelivery 1 60])"
    using pushDb_next [of 0 0 0] by simp
  then have d: "Drain [pushRound] (pushDb [pushDelivery 0 0]) = ([pushSent 1], pushDb [])"
    by (simp add: Drain_def pushRound_def sendStatus_def PushComplete_def deleteDeliveries_def tbl_delete_def sameAttempt_def
        pushSent_def pushDelivery_def pushDb_def)
  have "attemptsBelow 8 (pushDb [pushDelivery 0 0])" by (simp add: attemptsBelow_def pushDb_def pushDelivery_def)
  from drain_is_bounded [OF pushDb_inv this _ d] d show ?thesis by (simp add: pushRound_def)
qed

lemma empty_publish:
  "\<exists>rc db'. Publish evalLib 6 ''x'' evalSource evalMessage ''q'' 0 0 emptyNotifyDb = Inr (rc, db') \<and> nd_rows db' \<noteq> []"
  by (simp add: Publish_def acceptMessage_def reclaimCapacity_def InsertNotification_def tbl_get_def MaxSequence_def
      MaxInboxSize_def validSeverity_def inbox_eval emptyNotifyDb_def)

lemma notify_reachable_inv_witness:
  "\<exists>db. (notifyStep evalLib)\<^sup>*\<^sup>* emptyNotifyDb db \<and> nd_rows db \<noteq> [] \<and> length (nd_rows db) \<le> 10000"
proof -
  obtain rc db where p: "Publish evalLib 6 ''x'' evalSource evalMessage ''q'' 0 0 emptyNotifyDb = Inr (rc, db)" and ne: "nd_rows db \<noteq> []"
    using empty_publish by (elim exE conjE)
  have "(notifyStep evalLib)\<^sup>*\<^sup>* emptyNotifyDb db" using notifyStep.publish [OF p] by (rule r_into_rtranclp)
  then show ?thesis using notify_reachable_inv [of evalLib db] ne by blast
qed

lemma stored_notifications_immutable_witness:
  "\<exists>db'. MarkRead ''a'' 5 inboxDb = Inr ((), db') \<and> (\<exists>r \<in> set (nd_rows inboxDb). nt_ID r = nt_ID (hd (nd_rows db')))"
proof -
  have "tbl_get nt_ID ''a'' (nd_rows inboxDb) = Some (inboxRow 1 ''a'')" by (simp add: tbl_get_def inbox_eval)
  then obtain db' where p: "MarkRead ''a'' 5 inboxDb = Inr ((), db')"
    and "nd_rows db' = tbl_update (\<lambda>r. nt_ID r = ''a'') (\<lambda>r. r\<lparr>nt_ReadAt := (case nt_ReadAt r of Some t \<Rightarrow> Some t | None \<Rightarrow> Some (rfc3339 5))\<rparr>) (nd_rows inboxDb)"
    by (simp add: MarkRead_def)
  then have hd: "hd (nd_rows db') \<in> set (nd_rows db')" "nt_Sequence (hd (nd_rows db')) \<le> nd_sequence inboxDb"
    by (simp_all add: tbl_update_def inboxDb_def inboxRow_def newNotificationRow_def)
  have run: "(notifyStep evalLib)\<^sup>*\<^sup>* inboxDb db'" using notifyStep.read [OF p] by (rule r_into_rtranclp)
  from stored_notifications_immutable [OF run hd] obtain r where r: "r \<in> set (nd_rows inboxDb)"
    and eq: "hd (nd_rows db') = r\<lparr>nt_ReadAt := nt_ReadAt (hd (nd_rows db')), nt_ServiceID := nt_ServiceID (hd (nd_rows db'))\<rparr>"
    by (elim bexE conjE)
  have "nt_ID (hd (nd_rows db')) = nt_ID r" using arg_cong [OF eq, of nt_ID] by simp
  with r p show ?thesis by (intro exI [of _ db'] conjI bexI [of _ r]) simp_all
qed

end
