(* ===== verification/NotificationService.thy ===== *)
theory NotificationService
  imports WebPush
begin

text \<open>
  The notification use cases (\<open>internal/application/notifications/service.go\<close>) over the port \<open>Store\<close>:
  the record \<open>notification_store\<close> holds the operations of the port, the locale
  \<open>notification_store_contract\<close> what the service relies on, and the SQLite store is an instance for each
  identifier and trigger clock a call may meet. \<open>now\<close> is the service's clock and \<open>days\<close> its retention,
  at most 3650, so that the duration of the retention stays far below the bound of a 64-bit
  \<open>time.Duration\<close>. A service without a store answers \<open>ErrUnavailable\<close>; here the store is always given.
\<close>

section \<open>The port\<close>

record 'db notification_store =
  ns_BindService :: "Source \<Rightarrow> string \<Rightarrow> string \<Rightarrow> time \<Rightarrow> 'db \<Rightarrow> (notify_error, Receipt \<times> 'db) result"
  ns_Publish :: "Source \<Rightarrow> Message \<Rightarrow> string \<Rightarrow> time \<Rightarrow> time \<Rightarrow> 'db \<Rightarrow> (notify_error, Receipt \<times> 'db) result"
  ns_List :: "ListOptions \<Rightarrow> 'db \<Rightarrow> (notify_error, Page) result"
  ns_Get :: "string \<Rightarrow> 'db \<Rightarrow> (notify_error, Notification) result"
  ns_MarkRead :: "string \<Rightarrow> time \<Rightarrow> 'db \<Rightarrow> (notify_error, unit \<times> 'db) result"
  ns_ClearAll :: "'db \<Rightarrow> 'db"
  ns_MarkAllRead :: "time \<Rightarrow> time \<Rightarrow> 'db \<Rightarrow> 'db"
  ns_PruneExpired :: "time \<Rightarrow> 'db \<Rightarrow> nat \<times> 'db"

section \<open>The use cases\<close>

definition NewServiceWithRetention :: "int \<Rightarrow> (notify_error, int) result" where
  "NewServiceWithRetention days = (if days < 1 \<or> days > MaxRetentionDays then Inl (NotifyInvalid ''retention'') else Inr days)"

definition retentionCutoff :: "time \<Rightarrow> int \<Rightarrow> time" where
  "retentionCutoff now days = Truncate now second - days * 24 * hour"

definition servicePruneExpired :: "'db notification_store \<Rightarrow> time \<Rightarrow> int \<Rightarrow> 'db \<Rightarrow> nat \<times> 'db" where
  "servicePruneExpired st now days db = ns_PruneExpired st (retentionCutoff now days) db"

definition serviceMarkAllRead :: "'db notification_store \<Rightarrow> time \<Rightarrow> int \<Rightarrow> 'db \<Rightarrow> 'db" where
  "serviceMarkAllRead st now days db = ns_MarkAllRead st now (retentionCutoff now days) db"

definition validateDestinationScope :: "Source \<Rightarrow> Destination \<Rightarrow> notify_error option" where
  "validateDestinationScope source d =
     (if de_Kind d \<noteq> SourcePlugin then None
      else fail_if (so_Kind source \<noteq> SourcePlugin \<or> de_PluginID d \<noteq> so_ID source \<or> de_ConnectionID d \<noteq> so_ConnectionID source)
             (NotifyInvalid ''plugin destination must match publishing source''))"

definition servicePublish ::
    "golib \<Rightarrow> 'db notification_store \<Rightarrow> time \<Rightarrow> int \<Rightarrow> Source \<Rightarrow> Message \<Rightarrow> 'db \<Rightarrow> (notify_error, Receipt \<times> 'db) result" where
  "servicePublish L st now days source0 message0 db =
     (let source = SourceNormalize L source0; message = MessageNormalize L message0 in
      case SourceValidate L source of
        Some e \<Rightarrow> Inl e
      | None \<Rightarrow>
          (case MessageValidate L now message of
             Some e \<Rightarrow> Inl e
           | None \<Rightarrow>
               (case validateDestinationScope source (ms_Destination message) of
                  Some e \<Rightarrow> Inl e
                | None \<Rightarrow>
                    (case EnvelopeBytes L message of
                       None \<Rightarrow> Inl NotifyUnavailable
                     | Some envelopeBytes \<Rightarrow>
                         if envelopeBytes > MaxEnvelopeBytes then Inl NotifyTooLarge
                         else (case CanonicalPayload L source message of
                                 None \<Rightarrow> Inl NotifyUnavailable
                               | Some canonical \<Rightarrow>
                                   ns_Publish st source message canonical now (retentionCutoff now days) db)))))"

definition serviceList ::
    "'db notification_store \<Rightarrow> time \<Rightarrow> int \<Rightarrow> ListOptions \<Rightarrow> 'db \<Rightarrow> (notify_error, Page) result" where
  "serviceList st now days opts0 db =
     (let opts = (if lo_Limit opts0 = 0 then opts0\<lparr>lo_Limit := int MaxPageSize\<rparr> else opts0) in
      if lo_Limit opts < 1 \<or> lo_Limit opts > int MaxPageSize then Inl (NotifyInvalid ''limit'')
      else case ns_List st (opts\<lparr>lo_Since := retentionCutoff now days\<rparr>) db of
          Inl e \<Rightarrow> Inl e
        | Inr page \<Rightarrow> Inr (page\<lparr>pg_RetentionDays := days\<rparr>))"

definition serviceGet :: "'db notification_store \<Rightarrow> time \<Rightarrow> int \<Rightarrow> string \<Rightarrow> 'db \<Rightarrow> (notify_error, Notification) result" where
  "serviceGet st now days i db =
     (if TrimSpace i = [] \<or> length i > 128 then Inl NotifyNotFound
      else case ns_Get st (TrimSpace i) db of
          Inl e \<Rightarrow> Inl e
        | Inr item \<Rightarrow> if Unix (no_ReceivedAt item) < Unix (retentionCutoff now days) then Inl NotifyNotFound else Inr item)"

definition serviceMarkRead :: "'db notification_store \<Rightarrow> time \<Rightarrow> int \<Rightarrow> string \<Rightarrow> 'db \<Rightarrow> (notify_error, unit \<times> 'db) result" where
  "serviceMarkRead st now days i db =
     (if TrimSpace i = [] \<or> length i > 128 then Inl NotifyNotFound
      else case serviceGet st now days i db of
          Inl e \<Rightarrow> Inl e
        | Inr _ \<Rightarrow> ns_MarkRead st (TrimSpace i) now db)"

definition serviceClearAll :: "'db notification_store \<Rightarrow> 'db \<Rightarrow> 'db" where
  "serviceClearAll st db = ns_ClearAll st db"

definition serviceBindService ::
    "golib \<Rightarrow> 'db notification_store \<Rightarrow> time \<Rightarrow> int \<Rightarrow> Source \<Rightarrow> string \<Rightarrow> string \<Rightarrow> 'db \<Rightarrow> (notify_error, Receipt \<times> 'db) result" where
  "serviceBindService L st now days source0 eventID serviceID db =
     (let source = SourceNormalize L source0 in
      case SourceValidate L source of
        Some e \<Rightarrow> Inl e
      | None \<Rightarrow>
          (case validateText eventID ''event ID'' MaxEventIDBytes False of
             Some e \<Rightarrow> Inl e
           | None \<Rightarrow>
               if validateServiceID serviceID \<noteq> None \<or> serviceID = [] then Inl (NotifyInvalid ''service'')
               else ns_BindService st source eventID serviceID (retentionCutoff now days) db))"

section \<open>What the service relies on\<close>

text \<open>
  \<open>legal\<close> is the invariant of the store. A successful \<open>MarkRead\<close> sets the read time of a notification that
  had none and changes no other; a repeated publication is a replay.
\<close>

locale notification_store_contract =
  fixes st :: "'db notification_store" and legal :: "'db \<Rightarrow> bool"
  assumes publish_legal: "legal db \<Longrightarrow> ns_Publish st s m c t cutoff db = Inr (rc, db') \<Longrightarrow> legal db'"
    and bind_legal: "legal db \<Longrightarrow> ns_BindService st s e v cutoff db = Inr (rc, db') \<Longrightarrow> legal db'"
    and read_legal: "legal db \<Longrightarrow> ns_MarkRead st i t db = Inr (u, db') \<Longrightarrow> legal db'"
    and clear_legal: "legal db \<Longrightarrow> legal (ns_ClearAll st db)"
    and read_all_legal: "legal db \<Longrightarrow> legal (ns_MarkAllRead st t cutoff db)"
    and prune_legal: "legal db \<Longrightarrow> legal (snd (ns_PruneExpired st cutoff db))"
    and read_total: "ns_Get st i db = Inr n \<Longrightarrow> \<exists>db'. ns_MarkRead st i t db = Inr ((), db')"
    and get_read: "ns_MarkRead st i t db = Inr (u, db') \<Longrightarrow> rfc3339 t = Some t \<Longrightarrow> ns_Get st i db = Inr n \<Longrightarrow>
       ns_Get st i db' = Inr (n\<lparr>no_ReadAt := Some (case no_ReadAt n of Some t0 \<Rightarrow> t0 | None \<Rightarrow> t)\<rparr>)"
    and get_other: "ns_MarkRead st i t db = Inr (u, db') \<Longrightarrow> j \<noteq> i \<Longrightarrow> ns_Get st j db' = ns_Get st j db"
    and replay: "legal db \<Longrightarrow> rfc3339 t = Some t \<Longrightarrow> ns_Publish st s m c t cutoff db = Inr (rc, db') \<Longrightarrow>
       Unix cutoff' \<le> Unix (rc_CreatedAt rc) \<Longrightarrow>
       ns_Publish st s m c t' cutoff' db' = Inr (rc\<lparr>rc_Accepted := False\<rparr>, db')"
    and recent: "ns_Publish st s m c t cutoff db = Inr (rc, db') \<Longrightarrow> Unix cutoff \<le> Unix t \<Longrightarrow> Unix cutoff \<le> Unix (rc_CreatedAt rc)"
begin

lemma service_publish_parts:
  assumes "servicePublish L st now days s m db = Inr (rc, db')"
  obtains c where "SourceValidate L (SourceNormalize L s) = None" "MessageValidate L now (MessageNormalize L m) = None"
    "validateDestinationScope (SourceNormalize L s) (ms_Destination (MessageNormalize L m)) = None"
    "EnvelopeBytes L (MessageNormalize L m) \<noteq> None" "the (EnvelopeBytes L (MessageNormalize L m)) \<le> MaxEnvelopeBytes"
    "CanonicalPayload L (SourceNormalize L s) (MessageNormalize L m) = Some c"
    "ns_Publish st (SourceNormalize L s) (MessageNormalize L m) c now (retentionCutoff now days) db = Inr (rc, db')"
  using assms by (auto simp: servicePublish_def Let_def split: option.splits if_splits)

lemma service_get_retained:
  "serviceGet st now days i db = Inr n \<Longrightarrow>
   ns_Get st (TrimSpace i) db = Inr n \<and> Unix (retentionCutoff now days) \<le> Unix (no_ReceivedAt n)"
  by (auto simp: serviceGet_def split: if_splits sum.splits)

lemma service_mark_read:
  assumes "serviceGet st now days i db = Inr n" and "rfc3339 now = Some now"
  shows "\<exists>db'. serviceMarkRead st now days i db = Inr ((), db') \<and>
           serviceGet st now days i db' = Inr (n\<lparr>no_ReadAt := Some (case no_ReadAt n of Some t0 \<Rightarrow> t0 | None \<Rightarrow> now)\<rparr>) \<and>
           (\<forall>j. TrimSpace j \<noteq> TrimSpace i \<longrightarrow> serviceGet st now days j db' = serviceGet st now days j db)"
proof -
  let ?i = "TrimSpace i"
  have guard: "\<not> (?i = [] \<or> length i > 128)" using assms(1) by (auto simp: serviceGet_def split: if_splits)
  have get: "ns_Get st ?i db = Inr n" "Unix (retentionCutoff now days) \<le> Unix (no_ReceivedAt n)"
    using service_get_retained [OF assms(1)] by blast+
  obtain db' where db': "ns_MarkRead st ?i now db = Inr ((), db')" using read_total [OF get(1)] by blast
  have "serviceMarkRead st now days i db = Inr ((), db')"
    using guard assms(1) db' by (simp add: serviceMarkRead_def)
  moreover have "serviceGet st now days i db' = Inr (n\<lparr>no_ReadAt := Some (case no_ReadAt n of Some t0 \<Rightarrow> t0 | None \<Rightarrow> now)\<rparr>)"
    using get_read [OF db' assms(2) get(1)] get(2) guard by (simp add: serviceGet_def)
  moreover have "serviceGet st now days j db' = serviceGet st now days j db" if "TrimSpace j \<noteq> ?i" for j
    using get_other [OF db' that] by (simp add: serviceGet_def)
  ultimately show ?thesis by blast
qed

lemma service_replay:
  assumes "legal db" and "rfc3339 now = Some now" and "servicePublish L st now days s m db = Inr (rc, db')"
    and "MessageValidate L now' (MessageNormalize L m) = None"
    and "Unix (retentionCutoff now' days') \<le> Unix (rc_CreatedAt rc)"
  shows "servicePublish L st now' days' s m db' = Inr (rc\<lparr>rc_Accepted := False\<rparr>, db')"
proof -
  obtain c where "SourceValidate L (SourceNormalize L s) = None"
    "validateDestinationScope (SourceNormalize L s) (ms_Destination (MessageNormalize L m)) = None"
    "EnvelopeBytes L (MessageNormalize L m) \<noteq> None" "the (EnvelopeBytes L (MessageNormalize L m)) \<le> MaxEnvelopeBytes"
    "CanonicalPayload L (SourceNormalize L s) (MessageNormalize L m) = Some c"
    and p: "ns_Publish st (SourceNormalize L s) (MessageNormalize L m) c now (retentionCutoff now days) db = Inr (rc, db')"
    using service_publish_parts [OF assms(3)] by metis
  moreover have "ns_Publish st (SourceNormalize L s) (MessageNormalize L m) c now' (retentionCutoff now' days') db' =
      Inr (rc\<lparr>rc_Accepted := False\<rparr>, db')"
    by (rule replay [OF assms(1,2) p assms(5)])
  ultimately show ?thesis using assms(4) by (auto simp: servicePublish_def Let_def)
qed

end

section \<open>The SQLite store\<close>

definition sqliteNotifications :: "golib \<Rightarrow> int \<Rightarrow> string \<Rightarrow> notify_db notification_store" where
  "sqliteNotifications L clock newID =
     \<lparr>ns_BindService = BindService, ns_Publish = Publish L clock newID, ns_List = ListNotifications L,
      ns_Get = GetNotification, ns_MarkRead = MarkRead, ns_ClearAll = ClearAll, ns_MarkAllRead = MarkAllRead L,
      ns_PruneExpired = PruneExpired L\<rparr>"

lemma GetNotification_MarkRead:
  assumes "MarkRead i t db = Inr (u, db')"
  shows "getNotification j db' =
     map_option (\<lambda>r. if nt_ID r = i then r\<lparr>nt_ReadAt := (case nt_ReadAt r of Some t0 \<Rightarrow> Some t0 | None \<Rightarrow> Some (rfc3339 t))\<rparr> else r)
       (getNotification j db)"
proof -
  have "nd_rows db' = tbl_update (\<lambda>r. nt_ID r = i)
      (\<lambda>r. r\<lparr>nt_ReadAt := (case nt_ReadAt r of Some t0 \<Rightarrow> Some t0 | None \<Rightarrow> Some (rfc3339 t))\<rparr>) (nd_rows db)"
    using assms by (auto simp: MarkRead_def split: if_splits)
  then show ?thesis by (simp add: tbl_get_update)
qed

lemma GetNotification_total: "GetNotification i db = Inr n \<Longrightarrow> \<exists>db'. MarkRead i t db = Inr ((), db')"
  by (auto simp: GetNotification_def MarkRead_def split: option.splits)

lemma get_read_sqlite:
  assumes "MarkRead i t db = Inr (u, db')" and "rfc3339 t = Some t" and "GetNotification i db = Inr n"
  shows "GetNotification i db' = Inr (n\<lparr>no_ReadAt := Some (case no_ReadAt n of Some t0 \<Rightarrow> t0 | None \<Rightarrow> t)\<rparr>)"
proof -
  obtain r where r: "getNotification i db = Some r" "notificationFromRow r = Inr n"
    using assms(3) by (auto simp: GetNotification_def split: option.splits)
  have "nt_ID r = i" using r(1) by (rule tbl_get_key)
  with GetNotification_MarkRead [OF assms(1), of i] r assms(2) show ?thesis
    by (cases "nt_ReadAt r") (auto simp: GetNotification_def notificationFromRow_def split: option.splits if_splits)
qed

lemma get_other_sqlite:
  assumes "MarkRead i t db = Inr (u, db')" and "j \<noteq> i"
  shows "GetNotification j db' = GetNotification j db"
proof -
  have "getNotification j db' = getNotification j db"
    using GetNotification_MarkRead [OF assms(1), of j] assms(2) tbl_get_key [of nt_ID j "nd_rows db"]
    by (cases "getNotification j db") auto
  then show ?thesis by (simp add: GetNotification_def)
qed

lemma replay_sqlite:
  assumes "notifyInv db" and "rfc3339 t = Some t" and "Publish L clock i s m c t cutoff db = Inr (rc, db')"
    and "Unix cutoff' \<le> Unix (rc_CreatedAt rc)"
  shows "Publish L clock i s m c t' cutoff' db' = Inr (rc\<lparr>rc_Accepted := False\<rparr>, db')"
proof -
  obtain r where "r \<in> set (nd_rows db')" "storedAs r s m c rc" using Publish_row [OF assms(3,2)] by (elim bexE)
  with Publish_inv [OF assms(1,3)] assms(4) show ?thesis by (blast dest: Publish_stored)
qed

lemma recent_sqlite:
  assumes "Publish L clock i s m c t cutoff db = Inr (rc, db')" and "Unix cutoff \<le> Unix t"
  shows "Unix cutoff \<le> Unix (rc_CreatedAt rc)"
proof -
  have "Unix cutoff \<le> Unix (rc_CreatedAt rc)" if "acceptMessage L clock i s m c t cutoff db0 = Inr (rc, db')" for db0
    using acceptMessage_row [OF that] assms(2) by simp
  then show ?thesis
    using assms(1) by (auto simp: Publish_def replayMessage_def Let_def split: option.splits if_splits sum.splits)
qed

interpretation sqlite_inbox: notification_store_contract "sqliteNotifications L clock newID" notifyInv for L clock newID
  by unfold_locales
    (auto simp: sqliteNotifications_def
      intro: store_inv get_read_sqlite get_other_sqlite GetNotification_total replay_sqlite recent_sqlite)

section \<open>What the service guarantees\<close>

lemma Unix_retentionCutoff: "0 \<le> days \<Longrightarrow> Unix (retentionCutoff now days) \<le> Unix now"
proof -
  assume "0 \<le> days"
  then have "retentionCutoff now days \<le> Truncate now second" by (simp add: retentionCutoff_def time_units)
  moreover have "Unix (Truncate now second) = Unix now" unfolding Truncate_second by (simp add: Unix_def second_def)
  ultimately show ?thesis using Unix_mono by metis
qed

text \<open>
  C30. What the service lets through. If publishing succeeds on the SQLite store, the source and the message
  passed validation in normal form, the destination is empty or of exactly one kind, a link to a
  plugin page names the publishing plugin and its connection, and the envelope has at most 16384
  bytes; the store keeps its invariant; and an immediate retry with the same arguments is answered
  with the same receipt, marked as not accepted, and changes nothing.
\<close>
theorem service_publish_guarantee:
  assumes "uuid_canonical L" and "notifyInv db" and "0 \<le> days" and "rfc3339 now = Some now"
    and "servicePublish L (sqliteNotifications L clock newID) now days s m db = Inr (rc, db')"
  shows "SourceValidate L (SourceNormalize L s) = None \<and> MessageValidate L now (MessageNormalize L m) = None \<and>
         typedDestination L (ms_Destination (MessageNormalize L m)) \<and>
         (de_Kind (ms_Destination (MessageNormalize L m)) = SourcePlugin \<longrightarrow>
            so_Kind (SourceNormalize L s) = SourcePlugin \<and>
            de_PluginID (ms_Destination (MessageNormalize L m)) = so_ID (SourceNormalize L s) \<and>
            de_ConnectionID (ms_Destination (MessageNormalize L m)) = so_ConnectionID (SourceNormalize L s)) \<and>
         (\<exists>n. EnvelopeBytes L (MessageNormalize L m) = Some n \<and> n \<le> 16384) \<and>
         notifyInv db' \<and>
         servicePublish L (sqliteNotifications L clock newID) now days s m db' = Inr (rc\<lparr>rc_Accepted := False\<rparr>, db')"
proof -
  let ?m = "MessageNormalize L m"
  obtain c where v: "SourceValidate L (SourceNormalize L s) = None" "MessageValidate L now ?m = None"
    "validateDestinationScope (SourceNormalize L s) (ms_Destination ?m) = None"
    "EnvelopeBytes L ?m \<noteq> None" "the (EnvelopeBytes L ?m) \<le> MaxEnvelopeBytes"
    and p: "ns_Publish (sqliteNotifications L clock newID) (SourceNormalize L s) ?m c now (retentionCutoff now days) db = Inr (rc, db')"
    using sqlite_inbox.service_publish_parts [OF assms(5)] by metis
  have "DestinationValidate L (ms_Destination ?m) = None"
    using v(2) by (simp add: MessageValidate_def Let_def MessageNormalize_idem [OF assms(1)])
  then have "typedDestination L (ms_Destination ?m)"
    using DestinationValidate_typed DestinationNormalize_idem [OF assms(1)] by (metis (no_types, lifting) MessageNormalize_def Message.select_convs(7) Message.simps(14) Message.surjective Message.update_convs(7))
  moreover have "servicePublish L (sqliteNotifications L clock newID) now days s m db' = Inr (rc\<lparr>rc_Accepted := False\<rparr>, db')"
    using sqlite_inbox.recent [OF p Unix_retentionCutoff [OF assms(3)]]
    by (rule sqlite_inbox.service_replay [OF assms(2,4,5) v(2)])
  moreover have "notifyInv db'" by (rule sqlite_inbox.publish_legal [OF assms(2) p])
  ultimately show ?thesis
    using v by (auto simp: validateDestinationScope_def MaxEnvelopeBytes_def split: if_splits)
qed

text \<open>
  Marking as read through the service. A notification that is stored and retained can be marked; from
  then on it is read with the time of its first mark, whatever later calls say, every other
  notification is as it was, and a notification past the retention is not found, also for marking.
\<close>
theorem service_mark_read_once:
  assumes "serviceGet (sqliteNotifications L clock newID) now days i db = Inr n" and "rfc3339 now = Some now"
  shows "Unix (retentionCutoff now days) \<le> Unix (no_ReceivedAt n) \<and>
         (\<exists>db'. serviceMarkRead (sqliteNotifications L clock newID) now days i db = Inr ((), db') \<and>
            serviceGet (sqliteNotifications L clock newID) now days i db' =
              Inr (n\<lparr>no_ReadAt := Some (case no_ReadAt n of Some t0 \<Rightarrow> t0 | None \<Rightarrow> now)\<rparr>) \<and>
            (\<forall>j. TrimSpace j \<noteq> TrimSpace i \<longrightarrow>
               serviceGet (sqliteNotifications L clock newID) now days j db' = serviceGet (sqliteNotifications L clock newID) now days j db)) \<and>
         (Unix (no_ReceivedAt n) < Unix (retentionCutoff later days) \<longrightarrow>
            serviceMarkRead (sqliteNotifications L clock newID) later days i db = Inl NotifyNotFound)"
proof -
  have "ns_Get (sqliteNotifications L clock newID) (TrimSpace i) db = Inr n" "Unix (retentionCutoff now days) \<le> Unix (no_ReceivedAt n)"
    using sqlite_inbox.service_get_retained [OF assms(1)] by blast+
  then show ?thesis
    using sqlite_inbox.service_mark_read [OF assms] by (auto simp: serviceMarkRead_def serviceGet_def)
qed

section \<open>Evaluations\<close>

lemma evalSource_valid: "SourceValidate notifyLib evalSource = None" "SourceNormalize notifyLib evalSource = evalSource"
  by (simp_all add: SourceValidate_def SourceNormalize_def Let_def canonicalConnection_def evalSource_def notifyLib_def
      TrimSpace_plain SourcePlugin_def SourceCore_def SourceExternal_def validator ValidString_def byte_def controlRune_def
      RuneError_def MaxSourceIDBytes_def)

lemma evalMessage_normal:
  "MessageNormalize notifyLib evalMessage = evalMessage\<lparr>ms_Destination := (ms_Destination evalMessage)\<lparr>de_ConnectionID := ''c1''\<rparr>\<rparr>"
  by (simp add: MessageNormalize_def DestinationNormalize_def canonicalConnection_def evalMessage_def notifyLib_def SourcePlugin_def)

lemma evalMessage_envelope: "\<exists>n c. EnvelopeBytes notifyLib (MessageNormalize notifyLib evalMessage) = Some n \<and> n \<le> 100 \<and>
   CanonicalPayload notifyLib evalSource (MessageNormalize notifyLib evalMessage) = Some c"
  unfolding evalMessage_normal
  by (simp add: EnvelopeBytes_def CanonicalMessageJSON_def CanonicalPayload_def CanonicalMessage_def Let_def messageJSON_def
        destinationJSON_def omitEmpty_def MessageNormalize_def DestinationNormalize_def canonicalConnection_def SourcePlugin_def
        evalMessage_def noDestination_def notifyLib_def evalLib_def rfc3339_def second_def FormatInt_def nat_to_dec.simps)

lemma empty_accepts:
  "ms_ServiceID m = [] \<Longrightarrow> validSeverity (ms_Severity m) \<Longrightarrow>
   \<exists>db'. Publish L clock i s m c t cutoff emptyNotifyDb = Inr (\<lparr>rc_ID = i, rc_CreatedAt = t, rc_Accepted = True\<rparr>, db')"
  by (simp add: Publish_def acceptMessage_def reclaimCapacity_def InsertNotification_def tbl_get_def MaxSequence_def
      MaxInboxSize_def emptyNotifyDb_def)

lemma service_publish_guarantee_witness:
  "\<exists>rc db'. servicePublish notifyLib (sqliteNotifications notifyLib 6 ''x'') 0 30 evalSource evalMessage emptyNotifyDb = Inr (rc, db') \<and>
     servicePublish notifyLib (sqliteNotifications notifyLib 6 ''x'') 0 30 evalSource evalMessage db' = Inr (rc\<lparr>rc_Accepted := False\<rparr>, db')"
proof -
  let ?st = "sqliteNotifications notifyLib 6 ''x''" and ?m = "MessageNormalize notifyLib evalMessage"
  obtain n c where nc: "EnvelopeBytes notifyLib ?m = Some n" "n \<le> 100" "CanonicalPayload notifyLib evalSource ?m = Some c"
    using evalMessage_envelope by blast
  have "MessageValidate notifyLib 0 ?m = None"
    using evalMessage_valid by (simp add: MessageValidate_def MessageNormalize_idem [OF uuid_canonical_notifyLib])
  moreover have "validateDestinationScope evalSource (ms_Destination ?m) = None"
    unfolding evalMessage_normal by (simp add: validateDestinationScope_def evalSource_def evalMessage_def SourcePlugin_def)
  moreover have "ms_ServiceID ?m = []" "validSeverity (ms_Severity ?m)" by (simp_all add: evalMessage_def validSeverity_def)
  then obtain db' where "ns_Publish ?st evalSource ?m c 0 (retentionCutoff 0 30) emptyNotifyDb =
      Inr (\<lparr>rc_ID = ''x'', rc_CreatedAt = 0, rc_Accepted = True\<rparr>, db')"
    using empty_accepts [of ?m notifyLib 6 "''x''" evalSource c 0 "retentionCutoff 0 30"] by (auto simp: sqliteNotifications_def)
  ultimately have p: "servicePublish notifyLib ?st 0 30 evalSource evalMessage emptyNotifyDb =
      Inr (\<lparr>rc_ID = ''x'', rc_CreatedAt = 0, rc_Accepted = True\<rparr>, db')"
    using nc by (simp add: servicePublish_def Let_def evalSource_valid MaxEnvelopeBytes_def)
  have "rfc3339 0 = Some 0" by (simp add: rfc3339_def second_def)
  from service_publish_guarantee [OF uuid_canonical_notifyLib emptyNotifyDb_inv _ this p] p show ?thesis by auto
qed

lemma service_mark_read_once_witness:
  "\<exists>db' n. serviceMarkRead (sqliteNotifications evalLib 6 ''x'') 5 30 ''a'' inboxDb = Inr ((), db') \<and>
     serviceGet (sqliteNotifications evalLib 6 ''x'') 5 30 ''a'' db' = Inr n \<and> no_ReadAt n = Some 5"
proof -
  have "\<exists>n. GetNotification ''a'' inboxDb = Inr n \<and> no_ReceivedAt n = 0 \<and> no_ReadAt n = None"
    by (simp add: GetNotification_def tbl_get_def notificationFromRow_def inbox_eval)
  then obtain n where n: "GetNotification ''a'' inboxDb = Inr n" "no_ReceivedAt n = 0" "no_ReadAt n = None" by (elim exE conjE)
  have "Unix (retentionCutoff 5 30) \<le> 0"
    using Unix_retentionCutoff [of 30 5] by (simp add: Unix_def [of 5] second_def)
  with n have "serviceGet (sqliteNotifications evalLib 6 ''x'') 5 30 ''a'' inboxDb = Inr n"
    by (simp add: serviceGet_def sqliteNotifications_def TrimSpace_plain Unix_def [of 0])
  from service_mark_read_once [OF this, of 0] n(3) show ?thesis by (force simp: rfc3339_def second_def)
qed

end
