(* ===== verification/LayoutModel.thy ===== *)
theory LayoutModel
  imports Tables
begin

text \<open>
  The dashboard's layout document and its validation
  (\<open>internal/application/dashboard/layout_types.go\<close>, \<open>layout_validate.go\<close>, and the type \<open>Widget\<close> of
  \<open>service.go\<close>). A slice that the code tells apart from an empty one, because JSON \<open>null\<close> decodes to a nil
  slice, is of option type; \<open>idsOf\<close> and \<open>placementsOf\<close> read it. The data of a widget, which layouts never
  look at, is a type variable.

  The field errors are collected in the order of the code as (pointer, message) pairs; a pair that comes
  later replaces one with the same pointer, as in the map they are kept in. UUID parsing is a parameter.
\<close>

section \<open>Documents\<close>

record 'd Widget =
  wd_ID :: string
  wd_Kind :: string
  wd_Presentation :: string
  wd_SourceKind :: string
  wd_SourceID :: string
  wd_Title :: string
  wd_Data :: "'d option"
  wd_Error :: string

record ContainerLayout =
  cl_Type :: string
  cl_Columns :: int
  cl_GapPx :: int

record Ordering =
  or_Mode :: string
  or_IDs :: "string list option"

record HomepagePlacement =
  hp_GroupID :: string
  hp_Span :: string

record LayoutGroup =
  lg_ID :: string
  lg_Title :: string
  lg_Layout :: ContainerLayout
  lg_Ordering :: Ordering
  lg_Collapsible :: "bool option"
  lg_ShowHeading :: bool
  lg_InitiallyCollapsed :: bool
  lg_Placements :: "string list option"

record HomepageLayout =
  hl_Width :: string
  hl_Layout :: ContainerLayout
  hl_Ordering :: Ordering
  hl_Placements :: "HomepagePlacement list option"

record SourceGroups =
  sg_Host :: string
  sg_Service :: string
  sg_Other :: string

record LayoutDocument =
  ld_SchemaVersion :: int
  ld_Homepage :: HomepageLayout
  ld_Groups :: "LayoutGroup list"
  ld_SourceGroups :: SourceGroups

record LayoutState =
  ls_Revision :: string
  ls_Document :: LayoutDocument

record LayoutError =
  le_Status :: int
  le_Code :: string
  le_Message :: string
  le_FieldErrors :: "smap option"

abbreviation elems :: "'a list option \<Rightarrow> 'a list" where
  "elems xs \<equiv> (case xs of Some ys \<Rightarrow> ys | None \<Rightarrow> [])"

definition idsOf :: "Ordering \<Rightarrow> string list" where
  "idsOf ord = elems (or_IDs ord)"

definition placementsOf :: "LayoutGroup \<Rightarrow> string list" where
  "placementsOf g = elems (lg_Placements g)"

definition LayoutFailure :: "int \<Rightarrow> string \<Rightarrow> string \<Rightarrow> LayoutError" where
  "LayoutFailure status code message = \<lparr>le_Status = status, le_Code = code, le_Message = message, le_FieldErrors = None\<rparr>"

definition ValidLayoutRevision :: "string \<Rightarrow> bool" where
  "ValidLayoutRevision s \<longleftrightarrow> canonical_revision s"

definition builtinIDs :: "string list" where
  "builtinIDs = [''builtin:hosts'', ''builtin:services'', ''builtin:widgets'']"

definition defaultGroup :: "string \<Rightarrow> string \<Rightarrow> LayoutGroup" where
  "defaultGroup i title =
     \<lparr>lg_ID = i, lg_Title = title, lg_Layout = \<lparr>cl_Type = ''masonry'', cl_Columns = 3, cl_GapPx = 16\<rparr>,
      lg_Ordering = \<lparr>or_Mode = ''alphabetical'', or_IDs = Some []\<rparr>, lg_Collapsible = None, lg_ShowHeading = False,
      lg_InitiallyCollapsed = False, lg_Placements = Some []\<rparr>"

definition DefaultLayout :: LayoutDocument where
  "DefaultLayout =
     \<lparr>ld_SchemaVersion = 1,
      ld_Homepage = \<lparr>hl_Width = ''full'', hl_Layout = \<lparr>cl_Type = ''stack'', cl_Columns = 1, cl_GapPx = 16\<rparr>,
        hl_Ordering = \<lparr>or_Mode = ''alphabetical'', or_IDs = Some []\<rparr>,
        hl_Placements = Some (map (\<lambda>i. \<lparr>hp_GroupID = i, hp_Span = ''auto''\<rparr>) builtinIDs)\<rparr>,
      ld_Groups = [defaultGroup ''builtin:hosts'' ''Hosts'', defaultGroup ''builtin:services'' ''Services'',
                   defaultGroup ''builtin:widgets'' ''Widgets''],
      ld_SourceGroups = \<lparr>sg_Host = ''builtin:hosts'', sg_Service = ''builtin:services'', sg_Other = ''builtin:widgets''\<rparr>\<rparr>"

text \<open>
  \<open>CloneLayout\<close> writes a document as JSON and reads it back, which replaces bytes that are not valid
  UTF-8 and changes nothing else.
\<close>

definition cloneOrdering :: "Ordering \<Rightarrow> Ordering" where
  "cloneOrdering ord = \<lparr>or_Mode = toValidUTF8 (or_Mode ord), or_IDs = map_option jsonStrings (or_IDs ord)\<rparr>"

definition cloneContainer :: "ContainerLayout \<Rightarrow> ContainerLayout" where
  "cloneContainer c = c\<lparr>cl_Type := toValidUTF8 (cl_Type c)\<rparr>"

definition cloneGroup :: "LayoutGroup \<Rightarrow> LayoutGroup" where
  "cloneGroup g =
     g\<lparr>lg_ID := toValidUTF8 (lg_ID g), lg_Title := toValidUTF8 (lg_Title g), lg_Layout := cloneContainer (lg_Layout g),
       lg_Ordering := cloneOrdering (lg_Ordering g), lg_Placements := map_option jsonStrings (lg_Placements g)\<rparr>"

definition cloneHomepage :: "HomepageLayout \<Rightarrow> HomepageLayout" where
  "cloneHomepage h =
     \<lparr>hl_Width = toValidUTF8 (hl_Width h), hl_Layout = cloneContainer (hl_Layout h),
      hl_Ordering = cloneOrdering (hl_Ordering h),
      hl_Placements = map_option (map (\<lambda>p. \<lparr>hp_GroupID = toValidUTF8 (hp_GroupID p), hp_Span = toValidUTF8 (hp_Span p)\<rparr>))
        (hl_Placements h)\<rparr>"

definition CloneLayout :: "LayoutDocument \<Rightarrow> LayoutDocument" where
  "CloneLayout d =
     d\<lparr>ld_Homepage := cloneHomepage (ld_Homepage d), ld_Groups := map cloneGroup (ld_Groups d),
       ld_SourceGroups := \<lparr>sg_Host = toValidUTF8 (sg_Host (ld_SourceGroups d)),
         sg_Service = toValidUTF8 (sg_Service (ld_SourceGroups d)), sg_Other = toValidUTF8 (sg_Other (ld_SourceGroups d))\<rparr>\<rparr>"

section \<open>Validation\<close>

type_synonym field_errors = "(string \<times> string) list"

definition complain :: "bool \<Rightarrow> string \<Rightarrow> string \<Rightarrow> field_errors" where
  "complain b p m = (if b then [(p, m)] else [])"

definition geometry :: "ContainerLayout \<Rightarrow> string \<Rightarrow> field_errors" where
  "geometry v p =
     complain (cl_Type v \<notin> set [''stack'', ''grid'', ''masonry'']) (p @ ''/type'') ''Choose Stack, Grid or Masonry.'' @
     complain (cl_Columns v < 1 \<or> cl_Columns v > 4) (p @ ''/columns'') ''Choose 1 through 4 columns.'' @
     complain (cl_GapPx v \<notin> set [12, 16, 24]) (p @ ''/gapPx'') ''Choose 12, 16 or 24 pixels.''"

definition pointerAt :: "string \<Rightarrow> nat \<Rightarrow> string" where
  "pointerAt p i = p @ ''/'' @ nat_to_dec i"

text \<open>The loop over the ranked identifiers; \<open>seen\<close> has the last index of each.\<close>

fun rankErrors :: "string list \<Rightarrow> string \<Rightarrow> nat \<Rightarrow> (string \<times> nat) list \<Rightarrow> string list \<Rightarrow> field_errors" where
  "rankErrors members p i seen [] = []"
| "rankErrors members p i seen (x # xs) =
     (case map_of seen x of
        Some old \<Rightarrow> [(pointerAt p i, ''Repeated rank.''), (pointerAt p old, ''Repeated rank.'')]
      | None \<Rightarrow> []) @
     complain (x \<notin> set members) (pointerAt p i) ''Rank must belong to this parent.'' @
     rankErrors members p (Suc i) ((x, i) # seen) xs"

definition order :: "Ordering \<Rightarrow> string list \<Rightarrow> string \<Rightarrow> field_errors" where
  "order ord members p =
     complain (or_IDs ord = None) (p @ ''/ids'') ''Use an array, including for an empty order.'' @
     complain (or_Mode ord \<noteq> ''alphabetical'' \<and> or_Mode ord \<noteq> ''custom'') (p @ ''/mode'') ''Choose Alphabetical or Custom.'' @
     complain (or_Mode ord = ''alphabetical'' \<and> length (idsOf ord) > 0) (p @ ''/ids'') ''Alphabetical order has no ranked IDs.'' @
     rankErrors members (p @ ''/ids'') 0 [] (idsOf ord)"

text \<open>The loop over a group's placements; \<open>seen\<close> has the last pointer to each widget, of all groups so far.\<close>

fun itemErrors :: "(string \<times> string) list \<Rightarrow> (string \<times> string) list \<Rightarrow> field_errors" where
  "itemErrors seen [] = []"
| "itemErrors seen ((i, at) # rest) =
     complain (i = [] \<or> length i > 256) at ''Use an existing widget ID of at most 256 bytes.'' @
     (case map_of seen i of
        Some old \<Rightarrow> [(old, ''Widget belongs to exactly one group.''), (at, ''Widget belongs to exactly one group.'')]
      | None \<Rightarrow> []) @
     itemErrors ((i, at) # seen) rest"

definition itemPointers :: "string \<Rightarrow> LayoutGroup \<Rightarrow> (string \<times> string) list" where
  "itemPointers p g =
     map (\<lambda>(j, i). (i, pointerAt (p @ ''/placements'') j @ ''/itemId'')) (enumerate 0 (placementsOf g))"

definition normalGroup :: "LayoutGroup \<Rightarrow> LayoutGroup" where
  "normalGroup g =
     g\<lparr>lg_Title := TrimSpace (lg_Title g),
       lg_Collapsible := (case lg_Collapsible g of
          Some c \<Rightarrow> if \<not> c \<and> lg_InitiallyCollapsed g then Some c
                    else if c = lg_InitiallyCollapsed g then None else Some c
        | None \<Rightarrow> None)\<rparr>"

definition canonicalUUID :: "golib \<Rightarrow> string \<Rightarrow> bool" where
  "canonicalUUID L i \<longleftrightarrow> uuid_parse L i = Some i"

text \<open>The loop over the groups; \<open>first\<close> has the last index of each group so far.\<close>

fun groupErrors ::
    "golib \<Rightarrow> string list \<Rightarrow> nat \<Rightarrow> (string \<times> nat) list \<Rightarrow> (string \<times> string) list \<Rightarrow> LayoutGroup list \<Rightarrow> field_errors" where
  "groupErrors L previousGroups n first refs [] = []"
| "groupErrors L previousGroups n first refs (g # gs) =
     (let p = pointerAt ''/groups'' n; items = itemPointers p g in
      complain (lg_Collapsible g = Some False \<and> lg_InitiallyCollapsed g) (p @ ''/initiallyCollapsed'')
        ''Enable accordion before starting collapsed.'' @
      (case map_of first (lg_ID g) of
         Some old \<Rightarrow> [(p @ ''/id'', ''Repeated group ID.''), (pointerAt ''/groups'' old @ ''/id'', ''Repeated group ID.'')]
       | None \<Rightarrow> []) @
      complain (lg_ID g \<in> set builtinIDs \<and> lg_ID g \<notin> set previousGroups) (p @ ''/id'')
        ''A removed builtin identity cannot be recreated.'' @
      complain (lg_ID g \<notin> set builtinIDs \<and> \<not> canonicalUUID L (lg_ID g)) (p @ ''/id'')
        ''Use a canonical UUID for a user group.'' @
      complain (TrimSpace (lg_Title g) = [] \<or> RuneCount (TrimSpace (lg_Title g)) > 80) (p @ ''/title'')
        ''Enter a title of 1 through 80 characters.'' @
      geometry (lg_Layout g) (p @ ''/layout'') @
      complain (lg_Placements g = None) (p @ ''/placements'') ''Use an array.'' @
      itemErrors refs items @
      order (lg_Ordering g) (placementsOf g) (p @ ''/ordering'') @
      groupErrors L previousGroups (Suc n) ((lg_ID g, n) # first) (rev items @ refs) gs)"

fun placementErrors :: "string list \<Rightarrow> nat \<Rightarrow> (string \<times> nat) list \<Rightarrow> HomepagePlacement list \<Rightarrow> field_errors" where
  "placementErrors groups i placed [] = []"
| "placementErrors groups i placed (p # ps) =
     (let at = pointerAt ''/homepage/placements'' i in
      (case map_of placed (hp_GroupID p) of
         Some old \<Rightarrow> [(at @ ''/groupId'', ''Repeated group placement.''),
                      (pointerAt ''/homepage/placements'' old @ ''/groupId'', ''Repeated group placement.'')]
       | None \<Rightarrow> []) @
      complain (hp_GroupID p \<notin> set groups) (at @ ''/groupId'') ''Group does not exist.'' @
      complain (hp_Span p \<noteq> ''auto'' \<and> hp_Span p \<noteq> ''full'') (at @ ''/span'') ''Choose Auto or Full.'' @
      placementErrors groups (Suc i) ((hp_GroupID p, i) # placed) ps)"

definition groupIDs :: "LayoutDocument \<Rightarrow> string list" where
  "groupIDs d = map lg_ID (ld_Groups d)"

definition itemIDs :: "LayoutDocument \<Rightarrow> string list" where
  "itemIDs d = concat (map placementsOf (ld_Groups d))"

definition homepageErrors :: "LayoutDocument \<Rightarrow> field_errors" where
  "homepageErrors d =
     (let h = ld_Homepage d; groups = groupIDs d; placed = map hp_GroupID (elems (hl_Placements h)) in
      complain (hl_Width h \<noteq> ''full'' \<and> hl_Width h \<noteq> ''contained'') ''/homepage/width'' ''Choose Full or Contained.'' @
      geometry (hl_Layout h) ''/homepage/layout'' @
      order (hl_Ordering h) groups ''/homepage/ordering'' @
      placementErrors groups 0 [] (elems (hl_Placements h)) @
      complain (\<not> set groups \<subseteq> set placed) ''/homepage/placements'' ''Place every configured group exactly once.'')"

definition sourceGroupErrors :: "LayoutDocument \<Rightarrow> field_errors" where
  "sourceGroupErrors d =
     (let s = ld_SourceGroups d; groups = groupIDs d in
      complain (sg_Host s \<notin> set groups) ''/sourceGroups/host'' ''Choose an existing group.'' @
      complain (sg_Service s \<notin> set groups) ''/sourceGroups/service'' ''Choose an existing group.'' @
      complain (sg_Other s \<notin> set groups) ''/sourceGroups/other'' ''Choose an existing group.'')"

text \<open>A group may only be deleted when its widget references are in other groups.\<close>

definition deletedGroupErrors :: "LayoutDocument \<Rightarrow> LayoutDocument \<Rightarrow> field_errors" where
  "deletedGroupErrors d previous =
     complain (\<exists>g \<in> set (ld_Groups previous). lg_ID g \<notin> set (groupIDs d) \<and> \<not> set (placementsOf g) \<subseteq> set (itemIDs d))
       ''/groups'' ''Move every retained widget reference before deleting its group.''"

definition layoutFieldErrors :: "golib \<Rightarrow> LayoutDocument \<Rightarrow> LayoutDocument \<Rightarrow> field_errors" where
  "layoutFieldErrors L d previous =
     groupErrors L (groupIDs previous) 0 [] [] (ld_Groups d) @ homepageErrors d @ sourceGroupErrors d @
     deletedGroupErrors d previous"

text \<open>The error of at most 32 fields, in the order of their pointers.\<close>

definition fieldMap :: "field_errors \<Rightarrow> smap" where
  "fieldMap fs = fold (\<lambda>(p, m). mset_key p m) fs []"

definition boundedLayoutError :: "smap \<Rightarrow> LayoutError" where
  "boundedLayoutError m =
     (let kept = sort_key fst m in
      \<lparr>le_Status = 422, le_Code = ''invalid_layout'',
       le_Message = ''Layout needs corrections.'' @
         (if length kept > 32 then '' Additional field errors were omitted.'' else []),
       le_FieldErrors = Some (take 32 kept)\<rparr>)"

text \<open>The last newly referenced widget that is not selected.\<close>

definition unknownItem :: "LayoutDocument \<Rightarrow> LayoutDocument \<Rightarrow> 'd Widget list \<Rightarrow> string" where
  "unknownItem d previous active =
     (case filter (\<lambda>i. i \<notin> set (itemIDs previous) \<and> i \<notin> wd_ID ` set active) (itemIDs d) of
        [] \<Rightarrow> []
      | xs \<Rightarrow> last xs)"

definition sortedGroup :: "LayoutGroup \<Rightarrow> LayoutGroup" where
  "sortedGroup g = g\<lparr>lg_Placements := map_option sort (lg_Placements g)\<rparr>"

definition normalLayout :: "LayoutDocument \<Rightarrow> LayoutDocument" where
  "normalLayout d =
     d\<lparr>ld_Groups := map sortedGroup (sort_key lg_ID (map normalGroup (ld_Groups d))),
       ld_Homepage := (ld_Homepage d)\<lparr>hl_Placements := map_option (sort_key hp_GroupID) (hl_Placements (ld_Homepage d))\<rparr>\<rparr>"

definition ValidateLayout ::
    "golib \<Rightarrow> LayoutDocument \<Rightarrow> LayoutDocument \<Rightarrow> 'd Widget list \<Rightarrow> (LayoutError, LayoutDocument) result" where
  "ValidateLayout L d previous active =
     (if ld_SchemaVersion d \<noteq> 1 then Inl (LayoutFailure 400 ''invalid_request'' ''Unsupported layout schema version.'')
      else if length (ld_Groups d) < 1 \<or> length (ld_Groups d) > 32
      then Inl (LayoutFailure 409 ''limit_exceeded'' ''A layout needs between 1 and 32 groups.'')
      else if length (itemIDs d) > 512
      then Inl (LayoutFailure 409 ''limit_exceeded'' ''At most 512 explicit widget references are allowed.'')
      else if layoutFieldErrors L d previous \<noteq> []
      then Inl (boundedLayoutError (fieldMap (layoutFieldErrors L d previous)))
      else if unknownItem d previous active \<noteq> []
      then Inl (LayoutFailure 404 ''not_found'' ''A newly referenced widget is not selected.'')
      else Inr (normalLayout d))"

section \<open>What a valid layout is\<close>

definition geometryOK :: "ContainerLayout \<Rightarrow> bool" where
  "geometryOK v \<longleftrightarrow>
     cl_Type v \<in> {''stack'', ''grid'', ''masonry''} \<and> 1 \<le> cl_Columns v \<and> cl_Columns v \<le> 4 \<and> cl_GapPx v \<in> {12, 16, 24}"

definition orderOK :: "Ordering \<Rightarrow> string set \<Rightarrow> bool" where
  "orderOK ord members \<longleftrightarrow>
     or_IDs ord \<noteq> None \<and> (or_Mode ord = ''alphabetical'' \<and> idsOf ord = [] \<or> or_Mode ord = ''custom'') \<and>
     distinct (idsOf ord) \<and> set (idsOf ord) \<subseteq> members"

definition groupOK :: "golib \<Rightarrow> LayoutGroup \<Rightarrow> bool" where
  "groupOK L g \<longleftrightarrow>
     \<not> (lg_Collapsible g = Some False \<and> lg_InitiallyCollapsed g) \<and>
     (lg_ID g \<in> set builtinIDs \<or> canonicalUUID L (lg_ID g)) \<and>
     TrimSpace (lg_Title g) \<noteq> [] \<and> RuneCount (TrimSpace (lg_Title g)) \<le> 80 \<and> geometryOK (lg_Layout g) \<and>
     lg_Placements g \<noteq> None \<and> (\<forall>i \<in> set (placementsOf g). i \<noteq> [] \<and> length i \<le> 256) \<and>
     orderOK (lg_Ordering g) (set (placementsOf g))"

definition homepageOK :: "HomepageLayout \<Rightarrow> string set \<Rightarrow> bool" where
  "homepageOK h groups \<longleftrightarrow>
     hl_Width h \<in> {''full'', ''contained''} \<and> geometryOK (hl_Layout h) \<and> orderOK (hl_Ordering h) groups \<and>
     distinct (map hp_GroupID (elems (hl_Placements h))) \<and> hp_GroupID ` set (elems (hl_Placements h)) = groups \<and>
     (\<forall>p \<in> set (elems (hl_Placements h)). hp_Span p = ''auto'' \<or> hp_Span p = ''full'')"

definition layoutOK :: "golib \<Rightarrow> LayoutDocument \<Rightarrow> bool" where
  "layoutOK L d \<longleftrightarrow>
     ld_SchemaVersion d = 1 \<and> 1 \<le> length (ld_Groups d) \<and> length (ld_Groups d) \<le> 32 \<and> length (itemIDs d) \<le> 512 \<and>
     distinct (groupIDs d) \<and> distinct (itemIDs d) \<and> (\<forall>g \<in> set (ld_Groups d). groupOK L g) \<and>
     homepageOK (ld_Homepage d) (set (groupIDs d)) \<and>
     {sg_Host (ld_SourceGroups d), sg_Service (ld_SourceGroups d), sg_Other (ld_SourceGroups d)} \<subseteq> set (groupIDs d)"

text \<open>What ties a layout to the one before: no builtin group comes back, no widget reference is lost or invented.\<close>

definition successorOK :: "LayoutDocument \<Rightarrow> LayoutDocument \<Rightarrow> 'd Widget list \<Rightarrow> bool" where
  "successorOK d previous active \<longleftrightarrow>
     set (groupIDs d) \<inter> set builtinIDs \<subseteq> set (groupIDs previous) \<and>
     (\<forall>g \<in> set (ld_Groups previous). lg_ID g \<in> set (groupIDs d) \<or> set (placementsOf g) \<subseteq> set (itemIDs d)) \<and>
     set (itemIDs d) \<subseteq> set (itemIDs previous) \<union> wd_ID ` set active"

lemma complain_Nil [simp]: "complain b p m = [] \<longleftrightarrow> \<not> b"
  by (simp add: complain_def)

lemma geometry_Nil [simp]: "geometry v p = [] \<longleftrightarrow> geometryOK v"
  by (auto simp: geometry_def geometryOK_def)

lemma repeated_Nil:
  assumes "\<And>y. f y \<noteq> []"
  shows "(case map_of m k of Some y \<Rightarrow> f y | None \<Rightarrow> []) = [] \<longleftrightarrow> k \<notin> fst ` set m"
proof (cases "map_of m k")
  case None
  then have "k \<notin> fst ` set m" by (simp add: map_of_eq_None_iff)
  with None show ?thesis by simp
next
  case (Some y)
  then have "k \<in> fst ` set m" by (metis map_of_eq_None_iff option.distinct(1))
  with Some assms show ?thesis by simp
qed

lemma rankErrors_Nil:
  "rankErrors members p i seen xs = [] \<longleftrightarrow> distinct xs \<and> set xs \<inter> fst ` set seen = {} \<and> set xs \<subseteq> set members"
proof (induction xs arbitrary: i seen)
  case (Cons x xs)
  have "rankErrors members p i seen (x # xs) = [] \<longleftrightarrow>
      x \<notin> fst ` set seen \<and> x \<in> set members \<and> rankErrors members p (Suc i) ((x, i) # seen) xs = []"
    by (simp add: repeated_Nil)
  then show ?case unfolding Cons.IH by auto
qed simp

lemma order_Nil [simp]: "order ord members p = [] \<longleftrightarrow> orderOK ord (set members)"
  by (auto simp: order_def orderOK_def rankErrors_Nil)

lemma itemErrors_Nil:
  "itemErrors seen xs = [] \<longleftrightarrow>
     distinct (map fst xs) \<and> fst ` set xs \<inter> fst ` set seen = {} \<and> (\<forall>i \<in> fst ` set xs. i \<noteq> [] \<and> length i \<le> 256)"
proof (induction seen xs rule: itemErrors.induct)
  case (2 seen i at rest)
  have "itemErrors seen ((i, at) # rest) = [] \<longleftrightarrow>
      i \<notin> fst ` set seen \<and> i \<noteq> [] \<and> length i \<le> 256 \<and> itemErrors ((i, at) # seen) rest = []"
    by (auto simp: repeated_Nil)
  then show ?case unfolding 2 by auto
qed simp

lemma itemPointers_fst [simp]: "map fst (itemPointers p g) = placementsOf g"
  by (simp add: itemPointers_def comp_def case_prod_beta')

lemma itemPointers_keys [simp]: "fst ` set (itemPointers p g) = set (placementsOf g)"
  by (metis itemPointers_fst list.set_map)

lemma groupErrors_Nil:
  "groupErrors L prev n first refs gs = [] \<longleftrightarrow>
     distinct (map lg_ID gs) \<and> lg_ID ` set gs \<inter> fst ` set first = {} \<and>
     distinct (concat (map placementsOf gs)) \<and> set (concat (map placementsOf gs)) \<inter> fst ` set refs = {} \<and>
     (\<forall>g \<in> set gs. groupOK L g \<and> (lg_ID g \<in> set builtinIDs \<longrightarrow> lg_ID g \<in> set prev))"
proof (induction gs arbitrary: n first refs)
  case (Cons g gs)
  have "groupErrors L prev n first refs (g # gs) = [] \<longleftrightarrow>
      lg_ID g \<notin> fst ` set first \<and> groupOK L g \<and> (lg_ID g \<in> set builtinIDs \<longrightarrow> lg_ID g \<in> set prev) \<and>
      distinct (placementsOf g) \<and> set (placementsOf g) \<inter> fst ` set refs = {} \<and>
      groupErrors L prev (Suc n) ((lg_ID g, n) # first) (rev (itemPointers (pointerAt ''/groups'' n) g) @ refs) gs = []"
    unfolding groupErrors.simps Let_def append_is_Nil_conv complain_Nil geometry_Nil order_Nil
      itemErrors_Nil itemPointers_fst itemPointers_keys groupOK_def
    by (subst repeated_Nil) (auto simp: not_less)
  moreover have "fst ` set (rev (itemPointers q g) @ refs) = set (placementsOf g) \<union> fst ` set refs" for q
    by (simp add: image_Un)
  moreover have "set (concat (map placementsOf (g # gs))) = set (placementsOf g) \<union> set (concat (map placementsOf gs))"
    and "distinct (concat (map placementsOf (g # gs))) \<longleftrightarrow> distinct (placementsOf g) \<and>
      distinct (concat (map placementsOf gs)) \<and> set (placementsOf g) \<inter> set (concat (map placementsOf gs)) = {}"
    and "distinct (map lg_ID (g # gs)) \<longleftrightarrow> lg_ID g \<notin> lg_ID ` set gs \<and> distinct (map lg_ID gs)"
    by auto
  ultimately show ?case
    by (simp only: Cons.IH list.set ball_simps image_insert fst_conv insert_disjoint disjoint_insert Int_Un_distrib
        Int_Un_distrib2 Un_empty Int_commute [of "set (concat (map placementsOf gs))" "set (placementsOf g)"] conj_ac)
qed simp

lemma placementErrors_Nil:
  "placementErrors groups i placed ps = [] \<longleftrightarrow>
     distinct (map hp_GroupID ps) \<and> hp_GroupID ` set ps \<inter> fst ` set placed = {} \<and> hp_GroupID ` set ps \<subseteq> set groups \<and>
     (\<forall>p \<in> set ps. hp_Span p = ''auto'' \<or> hp_Span p = ''full'')"
proof (induction ps arbitrary: i placed)
  case (Cons p ps)
  have "placementErrors groups i placed (p # ps) = [] \<longleftrightarrow>
      hp_GroupID p \<notin> fst ` set placed \<and> hp_GroupID p \<in> set groups \<and> (hp_Span p = ''auto'' \<or> hp_Span p = ''full'') \<and>
      placementErrors groups (Suc i) ((hp_GroupID p, i) # placed) ps = []"
    by (auto simp: Let_def repeated_Nil)
  then show ?case unfolding Cons.IH by auto
qed simp

lemma homepageErrors_Nil: "homepageErrors d = [] \<longleftrightarrow> homepageOK (ld_Homepage d) (set (groupIDs d))"
  by (auto simp: homepageErrors_def homepageOK_def Let_def placementErrors_Nil)

lemma layoutFieldErrors_Nil:
  "layoutFieldErrors L d previous = [] \<longleftrightarrow>
     distinct (groupIDs d) \<and> distinct (itemIDs d) \<and> (\<forall>g \<in> set (ld_Groups d). groupOK L g) \<and>
     set (groupIDs d) \<inter> set builtinIDs \<subseteq> set (groupIDs previous) \<and>
     homepageOK (ld_Homepage d) (set (groupIDs d)) \<and>
     {sg_Host (ld_SourceGroups d), sg_Service (ld_SourceGroups d), sg_Other (ld_SourceGroups d)} \<subseteq> set (groupIDs d) \<and>
     (\<forall>g \<in> set (ld_Groups previous). lg_ID g \<in> set (groupIDs d) \<or> set (placementsOf g) \<subseteq> set (itemIDs d))"
proof -
  have "groupErrors L (groupIDs previous) 0 [] [] (ld_Groups d) = [] \<longleftrightarrow>
      distinct (groupIDs d) \<and> distinct (itemIDs d) \<and> (\<forall>g \<in> set (ld_Groups d). groupOK L g) \<and>
      set (groupIDs d) \<inter> set builtinIDs \<subseteq> set (groupIDs previous)"
    unfolding groupErrors_Nil groupIDs_def itemIDs_def by auto
  moreover have "sourceGroupErrors d = [] \<longleftrightarrow>
      {sg_Host (ld_SourceGroups d), sg_Service (ld_SourceGroups d), sg_Other (ld_SourceGroups d)} \<subseteq> set (groupIDs d)"
    by (simp add: sourceGroupErrors_def Let_def)
  moreover have "deletedGroupErrors d previous = [] \<longleftrightarrow>
      (\<forall>g \<in> set (ld_Groups previous). lg_ID g \<in> set (groupIDs d) \<or> set (placementsOf g) \<subseteq> set (itemIDs d))"
    by (auto simp: deletedGroupErrors_def)
  ultimately show ?thesis unfolding layoutFieldErrors_def append_is_Nil_conv homepageErrors_Nil by blast
qed

lemma unknownItem_Nil:
  assumes "\<forall>i \<in> set (itemIDs d). i \<noteq> []"
  shows "unknownItem d previous active = [] \<longleftrightarrow> set (itemIDs d) \<subseteq> set (itemIDs previous) \<union> wd_ID ` set active"
proof (cases "filter (\<lambda>i. i \<notin> set (itemIDs previous) \<and> i \<notin> wd_ID ` set active) (itemIDs d)")
  case Nil
  then show ?thesis by (auto simp: unknownItem_def filter_empty_conv)
next
  case (Cons x xs)
  then have "last (x # xs) \<in> set (filter (\<lambda>i. i \<notin> set (itemIDs previous) \<and> i \<notin> wd_ID ` set active) (itemIDs d))"
    by (metis last_in_set list.distinct(1))
  then have "last (x # xs) \<in> set (itemIDs d)" "last (x # xs) \<notin> set (itemIDs previous) \<union> wd_ID ` set active" by simp_all
  moreover have "unknownItem d previous active = last (x # xs)" unfolding unknownItem_def Cons by simp
  ultimately show ?thesis using assms by auto
qed

text \<open>The validator accepts exactly the valid layouts that may follow the previous one, and normalises them.\<close>

lemma ValidateLayout_iff:
  "ValidateLayout L d previous active = Inr d' \<longleftrightarrow>
     layoutOK L d \<and> successorOK d previous active \<and> d' = normalLayout d"
proof -
  have items: "\<forall>i \<in> set (itemIDs d). i \<noteq> []" if "\<forall>g \<in> set (ld_Groups d). groupOK L g"
    using that by (auto simp: itemIDs_def groupOK_def)
  show ?thesis
  proof (cases "layoutFieldErrors L d previous = []")
    case True
    then have "\<forall>i \<in> set (itemIDs d). i \<noteq> []" using items by (simp add: layoutFieldErrors_Nil)
    with True show ?thesis
      unfolding ValidateLayout_def layoutOK_def successorOK_def layoutFieldErrors_Nil
      by (auto simp: unknownItem_Nil Suc_le_eq)
  next
    case False
    then show ?thesis
      unfolding ValidateLayout_def layoutOK_def successorOK_def layoutFieldErrors_Nil by auto
  qed
qed

section \<open>Normal layouts\<close>

lemma normalGroup_sel [simp]:
  "lg_ID (normalGroup g) = lg_ID g" "placementsOf (normalGroup g) = placementsOf g"
  "lg_Placements (normalGroup g) = lg_Placements g" "lg_Ordering (normalGroup g) = lg_Ordering g"
  "lg_Layout (normalGroup g) = lg_Layout g"
  by (simp_all add: normalGroup_def placementsOf_def)

lemma sortedGroup_sel [simp]:
  "lg_ID (sortedGroup g) = lg_ID g" "placementsOf (sortedGroup g) = sort (placementsOf g)"
  "lg_Ordering (sortedGroup g) = lg_Ordering g"
  by (simp_all add: sortedGroup_def placementsOf_def split: option.split)

lemma normalGroup_idem: "normalGroup (sortedGroup (normalGroup g)) = sortedGroup (normalGroup g)"
  by (simp add: normalGroup_def sortedGroup_def split: option.split)

lemma sortedGroup_idem: "sortedGroup (sortedGroup g) = sortedGroup g"
  by (cases "lg_Placements g") (simp_all add: sortedGroup_def sort_key_id_if_sorted)

lemma groupOK_normal:
  assumes "groupOK L g"
  shows "groupOK L (sortedGroup (normalGroup g))"
proof -
  let ?g = "sortedGroup (normalGroup g)"
  have "TrimSpace (lg_Title ?g) = TrimSpace (lg_Title g)" "lg_Layout ?g = lg_Layout g" "lg_Placements ?g = None \<longleftrightarrow> lg_Placements g = None"
    "lg_InitiallyCollapsed ?g = lg_InitiallyCollapsed g"
    by (simp_all add: normalGroup_def sortedGroup_def)
  moreover have "lg_Collapsible ?g = Some False \<and> lg_InitiallyCollapsed g \<Longrightarrow> lg_Collapsible g = Some False"
    by (auto simp: normalGroup_def sortedGroup_def split: option.splits if_splits)
  ultimately show ?thesis using assms unfolding groupOK_def by (simp del: not_None_eq) blast
qed

lemma groupIDs_normal: "groupIDs (normalLayout d) = sort (groupIDs d)"
proof -
  have "groupIDs (normalLayout d) = map lg_ID (sort_key lg_ID (map normalGroup (ld_Groups d)))"
    by (simp add: groupIDs_def normalLayout_def)
  also have "\<dots> = sort (map lg_ID (map normalGroup (ld_Groups d)))"
    by (rule properties_for_sort [symmetric]) (simp_all add: multiset.map_comp)
  also have "map lg_ID (map normalGroup (ld_Groups d)) = groupIDs d" by (simp add: groupIDs_def)
  finally show ?thesis .
qed

lemma mset_itemIDs: "mset (itemIDs d) = (\<Sum>g \<in># mset (ld_Groups d). mset (placementsOf g))"
  by (simp add: itemIDs_def mset_concat sum_mset_sum_list [symmetric] comp_def)

lemma mset_itemIDs_normal: "mset (itemIDs (normalLayout d)) = mset (itemIDs d)"
  unfolding mset_itemIDs by (simp add: normalLayout_def image_mset.compositionality comp_def)

lemma itemIDs_normal:
  "set (itemIDs (normalLayout d)) = set (itemIDs d)" "length (itemIDs (normalLayout d)) = length (itemIDs d)"
  "distinct (itemIDs (normalLayout d)) \<longleftrightarrow> distinct (itemIDs d)"
  using mset_itemIDs_normal [of d] by (metis set_mset_mset, metis size_mset, metis mset_eq_imp_distinct_iff)

lemma elems_map_option: "elems (map_option f xs) = (case xs of Some ys \<Rightarrow> f ys | None \<Rightarrow> [])"
  by (cases xs) simp_all

lemma homepageOK_normal:
  "homepageOK h groups \<Longrightarrow> homepageOK (h\<lparr>hl_Placements := map_option (sort_key hp_GroupID) (hl_Placements h)\<rparr>) groups"
  by (cases "hl_Placements h") (auto simp: homepageOK_def distinct_map)

lemma layoutOK_normal:
  assumes "layoutOK L d"
  shows "layoutOK L (normalLayout d)"
proof -
  have "\<forall>g \<in> set (ld_Groups (normalLayout d)). groupOK L g"
    using assms groupOK_normal by (auto simp: layoutOK_def normalLayout_def)
  moreover have "homepageOK (ld_Homepage (normalLayout d)) (set (groupIDs d))"
    using assms homepageOK_normal by (simp add: layoutOK_def normalLayout_def)
  moreover have "ld_SourceGroups (normalLayout d) = ld_SourceGroups d" "ld_SchemaVersion (normalLayout d) = ld_SchemaVersion d"
    "length (ld_Groups (normalLayout d)) = length (ld_Groups d)" by (simp_all add: normalLayout_def)
  ultimately show ?thesis using assms by (simp add: layoutOK_def groupIDs_normal itemIDs_normal)
qed

lemma normalLayout_idem: "normalLayout (normalLayout d) = normalLayout d"
proof -
  let ?gs = "sort_key lg_ID (map normalGroup (ld_Groups d))"
  have "\<forall>g \<in> set ?gs. normalGroup (sortedGroup g) = sortedGroup g" using normalGroup_idem by auto
  then have n: "map normalGroup (map sortedGroup ?gs) = map sortedGroup ?gs" by (simp add: map_idI)
  have "map lg_ID (map sortedGroup ?gs) = map lg_ID ?gs" by simp
  then have "sorted (map lg_ID (map sortedGroup ?gs))" by (metis sorted_sort_key)
  then have "sort_key lg_ID (map sortedGroup ?gs) = map sortedGroup ?gs" by (rule sort_key_id_if_sorted)
  then have "map sortedGroup (sort_key lg_ID (map normalGroup (map sortedGroup ?gs))) = map sortedGroup ?gs"
    unfolding n by (simp add: sortedGroup_idem)
  moreover have "map_option (sort_key hp_GroupID) (map_option (sort_key hp_GroupID) ps) = map_option (sort_key hp_GroupID) ps"
    for ps :: "HomepagePlacement list option"
    by (cases ps) (simp_all add: sort_key_id_if_sorted)
  ultimately show ?thesis by (simp add: normalLayout_def)
qed

lemma successorOK_refl: "successorOK d d []"
  by (auto simp: successorOK_def groupIDs_def)

text \<open>
  C31. What the validator accepts. It accepts a layout exactly when the layout is well formed (one to 32
  groups with distinct, builtin or canonical UUID identities and titles of 1 to 80 characters; at most
  512 widgets, each in one group; every group placed once on the homepage; orders that rank existing
  members once; source groups that exist) and follows from the previous one (no removed builtin group
  comes back, no widget of a deleted group is lost, new references are selected widgets). The result is
  the layout in normal form.
\<close>
theorem validate_layout_iff:
  "ValidateLayout L d previous active = Inr d' \<longleftrightarrow>
     layoutOK L d \<and> successorOK d previous active \<and> d' = normalLayout d"
  by (rule ValidateLayout_iff)

text \<open>
  Accepted layouts stay acceptable: the normal form of an accepted layout is well formed, has the same
  groups and widgets, is its own normal form, and is accepted again when it is read back from storage,
  where it is checked against itself and no selected widgets.
\<close>
theorem accepted_layout_is_stable:
  assumes "ValidateLayout L d previous active = Inr d'"
  shows "layoutOK L d' \<and> groupIDs d' = sort (groupIDs d) \<and> mset (itemIDs d') = mset (itemIDs d) \<and>
         normalLayout d' = d' \<and> ValidateLayout L d' d' ([] :: unit Widget list) = Inr d'"
proof -
  have d: "layoutOK L d" "d' = normalLayout d" using assms by (simp_all add: ValidateLayout_iff)
  then show ?thesis
    by (simp add: ValidateLayout_iff layoutOK_normal groupIDs_normal mset_itemIDs_normal normalLayout_idem successorOK_refl)
qed

section \<open>Evaluations\<close>

lemma DefaultLayout_OK: "layoutOK L DefaultLayout"
proof -
  have titles: "TrimSpace ''Hosts'' = ''Hosts''" "TrimSpace ''Services'' = ''Services''" "TrimSpace ''Widgets'' = ''Widgets''"
    by (intro TrimSpace_trimmed plain_trimmed; simp)+
  have count: "RuneCount s \<le> 80" if "length s \<le> 80" for s using RuneCount_le [of s] that by simp
  show ?thesis
    by (auto simp: layoutOK_def DefaultLayout_def defaultGroup_def groupIDs_def itemIDs_def placementsOf_def groupOK_def
        builtinIDs_def titles geometryOK_def orderOK_def idsOf_def homepageOK_def intro!: count)
qed

lemma DefaultLayout_normal: "normalLayout DefaultLayout = DefaultLayout"
proof -
  have titles: "TrimSpace ''Hosts'' = ''Hosts''" "TrimSpace ''Services'' = ''Services''" "TrimSpace ''Widgets'' = ''Widgets''"
    by (intro TrimSpace_trimmed plain_trimmed; simp)+
  show ?thesis
    by (simp add: normalLayout_def DefaultLayout_def defaultGroup_def normalGroup_def sortedGroup_def builtinIDs_def titles)
qed

definition containedLayout :: LayoutDocument where
  "containedLayout = DefaultLayout\<lparr>ld_Homepage := (ld_Homepage DefaultLayout)\<lparr>hl_Width := ''contained''\<rparr>\<rparr>"

lemma containedLayout_OK: "layoutOK L containedLayout"
  using DefaultLayout_OK [of L] by (simp add: layoutOK_def containedLayout_def groupIDs_def itemIDs_def homepageOK_def)

lemma containedLayout_normal: "normalLayout containedLayout = containedLayout"
proof -
  let ?h = "ld_Homepage DefaultLayout"
  have n: "normalLayout DefaultLayout = DefaultLayout" by (rule DefaultLayout_normal)
  have "map sortedGroup (sort_key lg_ID (map normalGroup (ld_Groups DefaultLayout))) = ld_Groups DefaultLayout"
    using arg_cong [OF n, of ld_Groups] by (simp add: normalLayout_def)
  moreover have "map_option (sort_key hp_GroupID) (hl_Placements ?h) = hl_Placements ?h"
    using arg_cong [OF n, of "\<lambda>d. hl_Placements (ld_Homepage d)"] by (simp add: normalLayout_def)
  ultimately show ?thesis unfolding normalLayout_def containedLayout_def by simp
qed

lemma containedLayout_exact: "CloneLayout containedLayout = containedLayout"
  by (simp add: CloneLayout_def containedLayout_def DefaultLayout_def defaultGroup_def builtinIDs_def cloneHomepage_def
      cloneContainer_def cloneOrdering_def cloneGroup_def jsonStrings_def toValidUTF8_ascii)

lemma accepted_layout_is_stable_witness:
  "ValidateLayout evalLib DefaultLayout DefaultLayout ([] :: unit Widget list) = Inr DefaultLayout \<and>
   normalLayout DefaultLayout = DefaultLayout"
proof -
  have "ValidateLayout evalLib DefaultLayout DefaultLayout ([] :: unit Widget list) = Inr DefaultLayout"
    by (simp add: ValidateLayout_iff DefaultLayout_OK DefaultLayout_normal successorOK_refl)
  from accepted_layout_is_stable [OF this] this show ?thesis by blast
qed

end
