(* ===== verification/LayoutResolve.thy ===== *)
theory LayoutResolve
  imports LayoutModel
begin

text \<open>
  How a layout and the selected widgets give the groups of the homepage
  (\<open>internal/application/dashboard/layout_resolve.go\<close>), and the edits of a layout
  (\<open>layout_service.go\<close>) as functions from the current document and the selected widgets to the next
  document. The Unicode folding of names and the JSON text without HTML escapes are parameters.

  A Go map that is filled in a loop is read as its last entry for each key. Writing a member of a group
  that does not exist is a write to a nil map, at which the program panics: \<open>ResolveLayout\<close> is \<open>None\<close>.
\<close>

section \<open>Orders and labels\<close>

record layout_env =
  lv_lib :: golib
  lv_nameKey :: "string \<Rightarrow> string"
  lv_encode :: "json \<Rightarrow> string"

definition byName :: "layout_env \<Rightarrow> smap \<Rightarrow> string list \<Rightarrow> string list" where
  "byName E names ids = sort_key (\<lambda>i. (lv_nameKey E (mget names i), i)) ids"

definition ordered :: "layout_env \<Rightarrow> string list \<Rightarrow> Ordering \<Rightarrow> smap \<Rightarrow> string list" where
  "ordered E ids ord names =
     (let sorted = byName E names ids in
      if or_Mode ord \<noteq> ''custom'' then sorted
      else (let ranked = dedup_by (\<lambda>i. i) (filter (\<lambda>i. i \<in> set sorted) (idsOf ord)) in
            ranked @ filter (\<lambda>i. i \<notin> set ranked) sorted))"

definition groupFor :: "LayoutDocument \<Rightarrow> 'd Widget \<Rightarrow> string" where
  "groupFor d w =
     (if wd_SourceKind w = ''host'' then sg_Host (ld_SourceGroups d)
      else if wd_SourceKind w = ''service'' then sg_Service (ld_SourceGroups d)
      else sg_Other (ld_SourceGroups d))"

definition labelName :: "string \<times> string \<Rightarrow> string" where
  "labelName p = (if snd p = [] then fst p else snd p)"

definition uniqueLabels :: "layout_env \<Rightarrow> (string \<Rightarrow> string list \<Rightarrow> string) \<Rightarrow> smap \<Rightarrow> smap" where
  "uniqueLabels E suffixOf names =
     map (\<lambda>p.
        (let same = map fst (filter (\<lambda>q. lv_nameKey E (labelName q) = lv_nameKey E (labelName p)) names) in
         (fst p, if length same < 2 then labelName p
                 else labelName p @ [CHR '' '', CHR 0xC2, CHR 0xB7, CHR '' ''] @ suffixOf (fst p) same))) names"

definition withoutDashes :: "string \<Rightarrow> string" where
  "withoutDashes s = filter (\<lambda>c. c \<noteq> CHR ''-'') s"

definition groupSuffix :: "string \<Rightarrow> string list \<Rightarrow> string" where
  "groupSuffix i ids =
     (if prefix ''builtin:'' i then ''default '' @ TrimPrefix i ''builtin:''
      else
        (let s = withoutDashes i in
         case find (\<lambda>n. \<not> list_ex (\<lambda>x. x \<noteq> i \<and> prefix (take n s) (withoutDashes x)) ids) [6..<length s + 1] of
           Some n \<Rightarrow> take n s
         | None \<Rightarrow> i))"

definition widgetOf :: "'d Widget list \<Rightarrow> string \<Rightarrow> 'd Widget option" where
  "widgetOf active i = find (\<lambda>w. wd_ID w = i) (rev active)"

definition itemSuffix :: "'d Widget list \<Rightarrow> string \<Rightarrow> string list \<Rightarrow> string" where
  "itemSuffix active i ids =
     (let tail = (case find (\<lambda>n. \<not> list_ex (\<lambda>x. i \<noteq> x \<and> suffix (drop (length i - n) i) x) ids) [6..<length i + 1] of
                    Some n \<Rightarrow> drop (length i - n) i
                  | None \<Rightarrow> i);
          kind = (case widgetOf active i of Some w \<Rightarrow> wd_SourceKind w | None \<Rightarrow> []) in
      (if kind = [] then (case Cut CHR ''-'' i of Some (a, _) \<Rightarrow> a | None \<Rightarrow> i) else kind) @ '' '' @ tail)"

section \<open>Resolving a layout\<close>

record LayoutMember =
  lm_ItemID :: string
  lm_State :: string
  lm_DisplayLabel :: string

record ResolvedGroup =
  rg_GroupID :: string
  rg_Title :: string
  rg_DisplayLabel :: string
  rg_Members :: "LayoutMember list"

record DashboardGroup =
  dg_GroupID :: string
  dg_Title :: string
  dg_DisplayLabel :: string
  dg_ItemIDs :: "string list"

definition MembershipToken :: "layout_env \<Rightarrow> string \<Rightarrow> string list \<Rightarrow> string" where
  "MembershipToken E gid ids =
     ''members-'' @ sha256_hex (lv_lib E)
       (lv_encode E (JArr [JStr ''layout-members-v1'', JStr gid, JArr (map JStr (remdups_adj (sort ids)))]))"

definition lastGroup :: "LayoutDocument \<Rightarrow> string \<Rightarrow> LayoutGroup option" where
  "lastGroup d i = find (\<lambda>g. lg_ID g = i) (rev (ld_Groups d))"

definition parentOf :: "LayoutDocument \<Rightarrow> string \<Rightarrow> string" where
  "parentOf d i = (case find (\<lambda>g. i \<in> set (placementsOf g)) (rev (ld_Groups d)) of Some g \<Rightarrow> lg_ID g | None \<Rightarrow> [])"

definition homeOf :: "LayoutDocument \<Rightarrow> 'd Widget \<Rightarrow> string" where
  "homeOf d w = (if parentOf d (wd_ID w) = [] then groupFor d w else parentOf d (wd_ID w))"

definition memberIDsOf :: "LayoutDocument \<Rightarrow> 'd Widget list \<Rightarrow> string \<Rightarrow> string list" where
  "memberIDsOf d active i =
     dedup_by (\<lambda>x. x) ((case lastGroup d i of Some g \<Rightarrow> placementsOf g | None \<Rightarrow> []) @
                       map wd_ID (filter (\<lambda>w. homeOf d w = i) active))"

definition itemNames :: "LayoutDocument \<Rightarrow> 'd Widget list \<Rightarrow> smap" where
  "itemNames d active =
     (let known = fold (\<lambda>w. mset_key (wd_ID w) (if wd_Title w = [] then wd_ID w else wd_Title w)) active [] in
      fold (\<lambda>i m. if i \<in> fst ` set m then m else mset_key i i m) (itemIDs d) known)"

definition groupNames :: "LayoutDocument \<Rightarrow> smap" where
  "groupNames d = fold (\<lambda>g. mset_key (lg_ID g) (lg_Title g)) (ld_Groups d) []"

definition resolveGroup :: "layout_env \<Rightarrow> LayoutDocument \<Rightarrow> 'd Widget list \<Rightarrow> string \<Rightarrow> ResolvedGroup" where
  "resolveGroup E d active i =
     (let names = itemNames d active;
          labels = uniqueLabels E groupSuffix (groupNames d);
          itemLabels = uniqueLabels E (itemSuffix active) names;
          ord = (case lastGroup d i of Some g \<Rightarrow> lg_Ordering g | None \<Rightarrow> \<lparr>or_Mode = [], or_IDs = None\<rparr>) in
      \<lparr>rg_GroupID = i, rg_Title = (case lastGroup d i of Some g \<Rightarrow> lg_Title g | None \<Rightarrow> []),
       rg_DisplayLabel = mget labels i,
       rg_Members = map (\<lambda>x. \<lparr>lm_ItemID = x, lm_State = (if widgetOf active x = None then ''dormant'' else ''active''),
                              lm_DisplayLabel = mget itemLabels x\<rparr>)
                      (ordered E (memberIDsOf d active i) ord names)\<rparr>)"

definition ResolveLayout :: "layout_env \<Rightarrow> LayoutDocument \<Rightarrow> 'd Widget list \<Rightarrow> (ResolvedGroup list \<times> smap) option" where
  "ResolveLayout E d active =
     (if list_ex (\<lambda>w. homeOf d w \<notin> set (groupIDs d)) active then None
      else
        (let ids = ordered E (groupIDs d) (hl_Ordering (ld_Homepage d)) (groupNames d) in
         Some (map (resolveGroup E d active) ids, map (\<lambda>i. (i, MembershipToken E i (memberIDsOf d active i))) ids)))"

definition activeItems :: "ResolvedGroup \<Rightarrow> string list" where
  "activeItems g = map lm_ItemID (filter (\<lambda>m. lm_State m = ''active'') (rg_Members g))"

definition ActiveLayoutGroups :: "ResolvedGroup list \<Rightarrow> DashboardGroup list" where
  "ActiveLayoutGroups groups =
     map (\<lambda>g. \<lparr>dg_GroupID = rg_GroupID g, dg_Title = rg_Title g, dg_DisplayLabel = rg_DisplayLabel g,
               dg_ItemIDs = activeItems g\<rparr>)
       (filter (\<lambda>g. length (activeItems g) > 0) groups)"

section \<open>Edits\<close>

text \<open>An edit has no result where resolving the current layout would panic.\<close>

type_synonym layout_edit = "(LayoutError, LayoutDocument) result option"

fun repeatedRanks :: "nat \<Rightarrow> (string \<times> nat) list \<Rightarrow> string list \<Rightarrow> field_errors" where
  "repeatedRanks i seen [] = []"
| "repeatedRanks i seen (x # xs) =
     (case map_of seen x of
        Some old \<Rightarrow> [(pointerAt ''/ids'' old, ''Repeated ordering ID.''), (pointerAt ''/ids'' i, ''Repeated ordering ID.'')]
      | None \<Rightarrow> []) @
     repeatedRanks (Suc i) ((x, i) # seen) xs"

definition completeOrder :: "Ordering \<Rightarrow> string list \<Rightarrow> LayoutError option" where
  "completeOrder ord ids =
     (let fields =
        complain (or_Mode ord \<noteq> ''alphabetical'' \<and> or_Mode ord \<noteq> ''custom'') ''/mode'' ''Choose Alphabetical or Custom.'' @
        complain (or_IDs ord = None \<or> or_Mode ord = ''alphabetical'' \<and> length (idsOf ord) > 0) ''/ids''
          ''Alphabetical order requires an empty array.'' @
        repeatedRanks 0 [] (idsOf ord) in
      if fields \<noteq> [] then Some (boundedLayoutError (fieldMap fields))
      else if or_Mode ord = ''alphabetical'' then None
      else if length (idsOf ord) \<noteq> length ids \<or> \<not> set ids \<subseteq> set (idsOf ord)
      then Some (LayoutFailure 409 ''membership_changed'' ''Submit every current member exactly once.'')
      else None)"

definition orderGroups :: "Ordering \<Rightarrow> LayoutDocument \<Rightarrow> (LayoutError, LayoutDocument) result" where
  "orderGroups ord d =
     (case completeOrder ord (groupIDs d) of
        Some e \<Rightarrow> Inl e
      | None \<Rightarrow> Inr (d\<lparr>ld_Homepage := (ld_Homepage d)\<lparr>hl_Ordering := ord\<rparr>\<rparr>))"

definition memberIDs :: "ResolvedGroup \<Rightarrow> string list" where
  "memberIDs g = map lm_ItemID (rg_Members g)"

definition membersOf :: "string \<Rightarrow> ResolvedGroup list \<Rightarrow> string list" where
  "membersOf i groups = (case find (\<lambda>g. rg_GroupID g = i) (rev groups) of Some g \<Rightarrow> memberIDs g | None \<Rightarrow> [])"

text \<open>Change the first group with an identity, as the loop that returns there does.\<close>

fun updateFirst :: "('a \<Rightarrow> bool) \<Rightarrow> ('a \<Rightarrow> 'a) \<Rightarrow> 'a list \<Rightarrow> 'a list" where
  "updateFirst P f [] = []"
| "updateFirst P f (x # xs) = (if P x then f x # xs else x # updateFirst P f xs)"

definition rankItems :: "Ordering \<Rightarrow> string list \<Rightarrow> LayoutGroup \<Rightarrow> LayoutGroup" where
  "rankItems ord ids g =
     (if or_Mode ord = ''custom'' then g\<lparr>lg_Placements := Some ids, lg_Ordering := ord\<rparr> else g\<lparr>lg_Ordering := ord\<rparr>)"

definition orderItems :: "layout_env \<Rightarrow> string \<Rightarrow> string \<Rightarrow> Ordering \<Rightarrow> LayoutDocument \<Rightarrow> 'd Widget list \<Rightarrow> layout_edit" where
  "orderItems E gid token ord d items =
     (case ResolveLayout E d items of
        None \<Rightarrow> None
      | Some (groups, tokens) \<Rightarrow>
          Some (if gid \<notin> set (groupIDs d) then Inl (LayoutFailure 404 ''not_found'' ''Group not found.'')
                else if mget tokens gid \<noteq> token
                then Inl (LayoutFailure 409 ''membership_changed'' ''Group membership changed. Refresh the preview.'')
                else (case completeOrder ord (membersOf gid groups) of
                        Some e \<Rightarrow> Inl e
                      | None \<Rightarrow> Inr (d\<lparr>ld_Groups := updateFirst (\<lambda>g. lg_ID g = gid)
                                          (rankItems ord (membersOf gid groups)) (ld_Groups d)\<rparr>))))"

text \<open>\<open>beforeItemId\<close> of a move: absent, \<open>null\<close>, a string, or JSON of another type.\<close>

datatype BeforeItem = BeforeAbsent | BeforeNull | BeforeID string | BeforeMalformed

record LayoutMove =
  mv_GroupID :: string
  mv_Before :: BeforeItem

definition sourceOf :: "string \<Rightarrow> ResolvedGroup list \<Rightarrow> string" where
  "sourceOf item groups =
     (case find (\<lambda>g. item \<in> set (memberIDs g)) (rev groups) of Some g \<Rightarrow> rg_GroupID g | None \<Rightarrow> [])"

definition withoutItem :: "string \<Rightarrow> LayoutGroup \<Rightarrow> LayoutGroup" where
  "withoutItem item g =
     g\<lparr>lg_Placements := map_option (filter (\<lambda>i. i \<noteq> item)) (lg_Placements g),
       lg_Ordering := (lg_Ordering g)\<lparr>or_IDs := map_option (filter (\<lambda>i. i \<noteq> item)) (or_IDs (lg_Ordering g))\<rparr>\<rparr>"

text \<open>Change the last group with an identity: the loop keeps the last index.\<close>

definition updateLast :: "('a \<Rightarrow> bool) \<Rightarrow> ('a \<Rightarrow> 'a) \<Rightarrow> 'a list \<Rightarrow> 'a list" where
  "updateLast P f xs = rev (updateFirst P f (rev xs))"

fun insertBeforeItem :: "string \<Rightarrow> string \<Rightarrow> string list \<Rightarrow> string list" where
  "insertBeforeItem b item [] = [item]"
| "insertBeforeItem b item (x # xs) = (if x = b then item # x # xs else x # insertBeforeItem b item xs)"

definition placeItem :: "BeforeItem \<Rightarrow> string \<Rightarrow> string list \<Rightarrow> LayoutGroup \<Rightarrow> LayoutGroup" where
  "placeItem before item destIDs g =
     (case before of
        BeforeAbsent \<Rightarrow> g\<lparr>lg_Placements := Some (placementsOf g @ [item])\<rparr>
      | _ \<Rightarrow>
          (let ids = (case before of BeforeID b \<Rightarrow> insertBeforeItem b item destIDs | _ \<Rightarrow> destIDs @ [item]) in
           g\<lparr>lg_Placements := Some ids, lg_Ordering := \<lparr>or_Mode = ''custom'', or_IDs = Some ids\<rparr>\<rparr>))"

definition moveItem :: "layout_env \<Rightarrow> string \<Rightarrow> LayoutMove \<Rightarrow> LayoutDocument \<Rightarrow> 'd Widget list \<Rightarrow> layout_edit" where
  "moveItem E item m d items =
     (case ResolveLayout E d items of
        None \<Rightarrow> None
      | Some (groups, tokens) \<Rightarrow>
          (let source = sourceOf item groups; dest = mv_GroupID m;
               destIDs = filter (\<lambda>i. i \<noteq> item) (membersOf dest groups) in
           Some (if source = [] \<or> dest \<notin> set (groupIDs d)
                 then Inl (LayoutFailure 404 ''not_found'' ''Widget or destination group not found.'')
                 else if source = dest \<and> mv_Before m = BeforeAbsent then Inr d
                 else if mv_Before m = BeforeMalformed
                 then Inl (LayoutFailure 400 ''invalid_request'' ''beforeItemId must be a string or null.'')
                 else if (case mv_Before m of BeforeID b \<Rightarrow> b \<notin> set destIDs | _ \<Rightarrow> False)
                 then Inl (boundedLayoutError [(''/beforeItemId'', ''Choose another member of the destination group.'')])
                 else Inr (d\<lparr>ld_Groups := updateLast (\<lambda>g. lg_ID g = dest) (placeItem (mv_Before m) item destIDs)
                               (map (withoutItem item) (ld_Groups d))\<rparr>))))"

section \<open>Orders\<close>

lemma dedup_id_distinct: "distinct xs \<Longrightarrow> dedup_by (\<lambda>x. x) xs = xs"
  by (rule dedup_onto_distinct) simp_all

lemma set_byName [simp]: "set (byName E names ids) = set ids"
  by (simp add: byName_def)

lemma distinct_byName [simp]: "distinct (byName E names ids) \<longleftrightarrow> distinct ids"
  by (simp add: byName_def)

lemma mset_byName [simp]: "mset (byName E names ids) = mset ids"
  by (simp add: byName_def)

lemma set_ordered [simp]: "set (ordered E ids ord names) = set ids"
  by (auto simp: ordered_def Let_def)

lemma distinct_ordered: "distinct ids \<Longrightarrow> distinct (ordered E ids ord names)"
  by (auto simp: ordered_def Let_def)

lemma mset_ordered: "distinct ids \<Longrightarrow> mset (ordered E ids ord names) = mset ids"
  using set_eq_iff_mset_eq_distinct [of "ordered E ids ord names" ids] by (simp add: distinct_ordered)

lemma ordered_custom:
  assumes "or_Mode ord = ''custom''" and "distinct (idsOf ord)" and "set (idsOf ord) \<subseteq> set ids"
  shows "ordered E ids ord names = idsOf ord @ filter (\<lambda>i. i \<notin> set (idsOf ord)) (byName E names ids)"
proof -
  have "filter (\<lambda>i. i \<in> set (byName E names ids)) (idsOf ord) = idsOf ord" using assms(3) by (auto intro: filter_True)
  then show ?thesis
    by (simp only: ordered_def Let_def assms(1) dedup_id_distinct [OF assms(2)] not_True_eq_False if_False refl)
qed

lemma ordered_complete:
  assumes "or_Mode ord = ''custom''" and "distinct (idsOf ord)" and "set (idsOf ord) = set ids"
  shows "ordered E ids ord names = idsOf ord"
  using ordered_custom [OF assms(1,2)] assms(3) by (simp add: filter_empty_conv)

section \<open>Where a widget is\<close>

lemma distinct_concat_unique:
  assumes "distinct (concat (map f gs))" and "g \<in> set gs" and "h \<in> set gs" and "i \<in> set (f g)" and "i \<in> set (f h)"
  shows "g = h"
  using assms by (induction gs) auto

lemma distinct_concat_map:
  assumes "distinct ids" and "\<And>i. i \<in> set ids \<Longrightarrow> distinct (f i)"
    and "\<And>i j. i \<in> set ids \<Longrightarrow> j \<in> set ids \<Longrightarrow> i \<noteq> j \<Longrightarrow> set (f i) \<inter> set (f j) = {}"
  shows "distinct (concat (map f ids))"
  using assms
proof (induction ids)
  case (Cons i ids)
  have "set (f i) \<inter> set (f j) = {}" if "j \<in> set ids" for j using that Cons.prems(1,3) by auto
  moreover have "distinct (concat (map f ids))" using Cons.prems by (intro Cons.IH) auto
  ultimately show ?case using Cons.prems(2) by auto
qed simp

lemma find_rev_unique:
  assumes "x \<in> set xs" and "P x" and "\<And>y. y \<in> set xs \<Longrightarrow> P y \<Longrightarrow> y = x"
  shows "find P (rev xs) = Some x"
proof (cases "find P (rev xs)")
  case None
  with assms(1,2) show ?thesis by (auto simp: find_None_all)
next
  case (Some y)
  then have "y \<in> set xs \<and> P y" using find_Some_in_set [of P "rev xs" y] by simp
  with Some assms(3) show ?thesis by simp
qed

lemma lastGroup_eq:
  assumes "distinct (groupIDs d)" and "g \<in> set (ld_Groups d)"
  shows "lastGroup d (lg_ID g) = Some g"
  unfolding lastGroup_def
  using assms distinct_map_inj_on [of lg_ID "ld_Groups d"] by (intro find_rev_unique) (auto simp: groupIDs_def)

lemma parentOf_placed:
  assumes "distinct (itemIDs d)" and "g \<in> set (ld_Groups d)" and "i \<in> set (placementsOf g)"
  shows "parentOf d i = lg_ID g"
proof -
  have "find (\<lambda>h. i \<in> set (placementsOf h)) (rev (ld_Groups d)) = Some g"
    using assms distinct_concat_unique [of placementsOf "ld_Groups d"] unfolding itemIDs_def
    by (intro find_rev_unique) auto
  then show ?thesis by (simp add: parentOf_def)
qed

lemma parentOf_free: "i \<notin> set (itemIDs d) \<Longrightarrow> parentOf d i = []"
proof -
  assume "i \<notin> set (itemIDs d)"
  then have "find (\<lambda>h. i \<in> set (placementsOf h)) (rev (ld_Groups d)) = None"
    by (auto simp: find_None_all itemIDs_def)
  then show ?thesis by (simp add: parentOf_def)
qed

text \<open>The documented fact about UUIDs that the next lemmas need: the empty string is none.\<close>

lemma groupID_nonempty: "layoutOK L d \<Longrightarrow> uuid_parse L [] = None \<Longrightarrow> g \<in> set (ld_Groups d) \<Longrightarrow> lg_ID g \<noteq> []"
  by (force simp: layoutOK_def groupOK_def canonicalUUID_def builtinIDs_def)

lemma homeOf_placed:
  assumes "layoutOK L d" and "uuid_parse L [] = None" and "g \<in> set (ld_Groups d)" and "wd_ID w \<in> set (placementsOf g)"
  shows "homeOf d w = lg_ID g"
proof -
  have "parentOf d (wd_ID w) = lg_ID g" using assms(1,3,4) by (intro parentOf_placed) (auto simp: layoutOK_def)
  with groupID_nonempty [OF assms(1-3)] show ?thesis by (simp add: homeOf_def)
qed

lemma homeOf_free: "wd_ID w \<notin> set (itemIDs d) \<Longrightarrow> homeOf d w = groupFor d w"
  by (simp add: homeOf_def parentOf_free)

lemma groupFor_exists: "layoutOK L d \<Longrightarrow> groupFor d w \<in> set (groupIDs d)"
  by (simp add: groupFor_def layoutOK_def)

lemma itemIDs_group: "i \<in> set (itemIDs d) \<longleftrightarrow> (\<exists>g \<in> set (ld_Groups d). i \<in> set (placementsOf g))"
  by (auto simp: itemIDs_def)

lemma homeOf_exists:
  assumes "layoutOK L d" and "uuid_parse L [] = None"
  shows "homeOf d w \<in> set (groupIDs d)"
proof (cases "wd_ID w \<in> set (itemIDs d)")
  case True
  then obtain g where g: "g \<in> set (ld_Groups d)" "wd_ID w \<in> set (placementsOf g)" by (auto simp: itemIDs_group)
  from homeOf_placed [OF assms g] g(1) show ?thesis by (simp add: groupIDs_def)
next
  case False
  then show ?thesis using homeOf_free groupFor_exists [OF assms(1)] by metis
qed

lemma memberIDsOf_set:
  assumes "layoutOK L d" and "g \<in> set (ld_Groups d)"
  shows "set (memberIDsOf d active (lg_ID g)) = set (placementsOf g) \<union> wd_ID ` {w \<in> set active. homeOf d w = lg_ID g}"
proof -
  have "lastGroup d (lg_ID g) = Some g" using assms by (intro lastGroup_eq) (auto simp: layoutOK_def)
  then show ?thesis by (auto simp: memberIDsOf_def)
qed

lemma distinct_memberIDsOf [simp]: "distinct (memberIDsOf d active i)"
  by (simp add: memberIDsOf_def)

lemma memberIDsOf_disjoint:
  assumes ok: "layoutOK L d" "uuid_parse L [] = None" and dist: "distinct (map wd_ID active)"
    and g: "g \<in> set (ld_Groups d)" and h: "h \<in> set (ld_Groups d)" and ne: "lg_ID g \<noteq> lg_ID h"
  shows "set (memberIDsOf d active (lg_ID g)) \<inter> set (memberIDsOf d active (lg_ID h)) = {}"
proof -
  have home: "lg_ID k = homeOf d w"
    if k: "k \<in> set (ld_Groups d)" and w: "w \<in> set active" and m: "wd_ID w \<in> set (memberIDsOf d active (lg_ID k))" for k w
  proof -
    from m consider "wd_ID w \<in> set (placementsOf k)" | v where "v \<in> set active" "wd_ID v = wd_ID w" "homeOf d v = lg_ID k"
      unfolding memberIDsOf_set [OF ok(1) k] by auto
    then show ?thesis
    proof cases
      case 1
      show ?thesis by (rule homeOf_placed [OF ok k 1, symmetric])
    next
      case (2 v)
      then have "v = w" using dist w by (blast intro: distinct_map_inj_on)
      with 2 show ?thesis by simp
    qed
  qed
  have "False" if "i \<in> set (memberIDsOf d active (lg_ID g))" "i \<in> set (memberIDsOf d active (lg_ID h))" for i
  proof (cases "i \<in> wd_ID ` set active")
    case True
    then obtain w where "w \<in> set active" "i = wd_ID w" by auto
    with home [OF g] home [OF h] that ne show False by metis
  next
    case False
    with that have "i \<in> set (placementsOf g)" "i \<in> set (placementsOf h)"
      unfolding memberIDsOf_set [OF ok(1) g] memberIDsOf_set [OF ok(1) h] by auto
    then have "g = h" using ok(1) g h distinct_concat_unique [of placementsOf "ld_Groups d" g h i] by (auto simp: layoutOK_def itemIDs_def)
    with ne show False by simp
  qed
  then show ?thesis by blast
qed

section \<open>Every widget is shown once\<close>

lemma resolveGroup_sel [simp]: "rg_GroupID (resolveGroup E d active i) = i"
  by (simp add: resolveGroup_def Let_def)

lemma memberIDs_resolve:
  "\<exists>ord names. memberIDs (resolveGroup E d active i) = ordered E (memberIDsOf d active i) ord names"
  by (simp add: memberIDs_def resolveGroup_def Let_def comp_def) blast

lemma memberIDs_resolve_set [simp]: "set (memberIDs (resolveGroup E d active i)) = set (memberIDsOf d active i)"
  using memberIDs_resolve [of E d active i] by auto

lemma memberIDs_resolve_distinct: "distinct (memberIDs (resolveGroup E d active i))"
  using memberIDs_resolve [of E d active i] distinct_ordered by (metis distinct_memberIDsOf)

lemma widgetOf_None [simp]: "widgetOf active i = None \<longleftrightarrow> i \<notin> wd_ID ` set active"
  by (auto simp: widgetOf_def find_None_all)

lemma resolve_state:
  "m \<in> set (rg_Members (resolveGroup E d active i)) \<Longrightarrow> lm_State m = ''active'' \<longleftrightarrow> lm_ItemID m \<in> wd_ID ` set active"
  by (auto simp: resolveGroup_def Let_def simp del: not_None_eq split: if_splits)

lemma ResolveLayout_total:
  assumes "layoutOK L d" and "uuid_parse L [] = None"
  shows "\<exists>tokens. ResolveLayout E d active =
           Some (map (resolveGroup E d active) (ordered E (groupIDs d) (hl_Ordering (ld_Homepage d)) (groupNames d)), tokens)"
  by (simp add: ResolveLayout_def list_ex_iff Let_def homeOf_exists [OF assms])

abbreviation resolvedItems :: "ResolvedGroup list \<Rightarrow> string list" where
  "resolvedItems groups \<equiv> concat (map memberIDs groups)"

lemma resolved_groups:
  assumes ok: "layoutOK L d" "uuid_parse L [] = None" and dist: "distinct (map wd_ID active)"
    and ids: "set ids = set (groupIDs d)" "distinct ids"
  shows "distinct (resolvedItems (map (resolveGroup E d active) ids))"
    and "set (resolvedItems (map (resolveGroup E d active) ids)) = set (itemIDs d) \<union> wd_ID ` set active"
proof -
  have grp: "\<exists>g \<in> set (ld_Groups d). lg_ID g = i" if "i \<in> set ids" for i
    using that ids(1) by (auto simp: groupIDs_def)
  have "distinct (concat (map (\<lambda>i. memberIDs (resolveGroup E d active i)) ids))"
  proof (rule distinct_concat_map [OF ids(2) memberIDs_resolve_distinct])
    fix i j assume "i \<in> set ids" "j \<in> set ids" "i \<noteq> j"
    with grp show "set (memberIDs (resolveGroup E d active i)) \<inter> set (memberIDs (resolveGroup E d active j)) = {}"
      unfolding memberIDs_resolve_set by (metis memberIDsOf_disjoint [OF ok dist])
  qed
  then show "distinct (resolvedItems (map (resolveGroup E d active) ids))" by (simp add: comp_def)
  have "set (resolvedItems (map (resolveGroup E d active) ids)) = (\<Union>i \<in> set (groupIDs d). set (memberIDsOf d active i))"
    using ids(1) by simp
  also have "\<dots> = (\<Union>g \<in> set (ld_Groups d). set (placementsOf g) \<union> wd_ID ` {w \<in> set active. homeOf d w = lg_ID g})"
    by (simp add: groupIDs_def memberIDsOf_set [OF ok(1)])
  also have "\<dots> = set (itemIDs d) \<union> wd_ID ` set active"
  proof -
    have "\<exists>g \<in> set (ld_Groups d). homeOf d w = lg_ID g" for w :: "'a Widget"
      using homeOf_exists [OF ok, of w] by (auto simp: groupIDs_def)
    then have "(\<Union>g \<in> set (ld_Groups d). {w \<in> set active. homeOf d w = lg_ID g}) = set active" by blast
    then have "(\<Union>g \<in> set (ld_Groups d). wd_ID ` {w \<in> set active. homeOf d w = lg_ID g}) = wd_ID ` set active"
      by (subst image_UN [symmetric]) (rule arg_cong)
    then show ?thesis by (simp add: UN_Un_distrib itemIDs_def)
  qed
  finally show "set (resolvedItems (map (resolveGroup E d active) ids)) = set (itemIDs d) \<union> wd_ID ` set active" .
qed

lemma activeItems_resolve:
  "activeItems (resolveGroup E d active i) = filter (\<lambda>x. x \<in> wd_ID ` set active) (memberIDs (resolveGroup E d active i))"
  unfolding activeItems_def memberIDs_def filter_map comp_def
  by (intro arg_cong [where f = "map lm_ItemID"] filter_cong refl) (rule resolve_state)

lemma active_groups_items:
  "concat (map dg_ItemIDs (ActiveLayoutGroups gs)) = concat (map activeItems gs)"
  by (induction gs) (auto simp: ActiveLayoutGroups_def)

lemma resolved_items_once:
  assumes "layoutOK L d" and "uuid_parse L [] = None" and dist: "distinct (map wd_ID active)"
  shows "\<exists>groups tokens. ResolveLayout E d active = Some (groups, tokens) \<and>
           mset (concat (map dg_ItemIDs (ActiveLayoutGroups groups))) = mset (map wd_ID active)"
proof -
  let ?ids = "ordered E (groupIDs d) (hl_Ordering (ld_Homepage d)) (groupNames d)"
  let ?gs = "map (resolveGroup E d active) ?ids"
  have gids: "distinct (groupIDs d)" using assms(1) by (simp add: layoutOK_def)
  have ids: "set ?ids = set (groupIDs d)" "distinct ?ids" by (simp_all add: distinct_ordered [OF gids])
  note items = resolved_groups [OF assms ids, of E]
  have "concat (map activeItems ?gs) = filter (\<lambda>x. x \<in> wd_ID ` set active) (resolvedItems ?gs)"
    by (simp add: filter_concat comp_def activeItems_resolve)
  then have "mset (concat (map dg_ItemIDs (ActiveLayoutGroups ?gs))) = mset (map wd_ID active)"
    using items dist set_eq_iff_mset_eq_distinct [of "concat (map activeItems ?gs)" "map wd_ID active"]
    by (simp add: active_groups_items) blast
  then show ?thesis using ResolveLayout_total [OF assms(1,2), of E active] by blast
qed

text \<open>
  C12. Resolving a well-formed layout never panics, and shows every widget once. The resolved groups are the
  groups of the layout; each widget that is selected or placed is a member of exactly one of them; a
  placed widget is in the group it is placed in and a selected widget without a place in the group of
  its source kind; the dashboard's items, over all its groups, are the selected widgets, each once.
\<close>
theorem resolved_layout_shows_each_widget_once:
  assumes "layoutOK (lv_lib E) d" and "uuid_parse (lv_lib E) [] = None" and "distinct (map wd_ID active)"
  shows "\<exists>groups tokens. ResolveLayout E d active = Some (groups, tokens) \<and>
           mset (map rg_GroupID groups) = mset (groupIDs d) \<and>
           distinct (resolvedItems groups) \<and> set (resolvedItems groups) = set (itemIDs d) \<union> wd_ID ` set active \<and>
           (\<forall>g \<in> set (ld_Groups d). \<exists>r \<in> set groups. rg_GroupID r = lg_ID g \<and> set (placementsOf g) \<subseteq> set (memberIDs r)) \<and>
           (\<forall>w \<in> set active. wd_ID w \<notin> set (itemIDs d) \<longrightarrow>
              (\<exists>r \<in> set groups. rg_GroupID r = groupFor d w \<and> wd_ID w \<in> set (memberIDs r))) \<and>
           mset (concat (map dg_ItemIDs (ActiveLayoutGroups groups))) = mset (map wd_ID active)"
proof -
  let ?ids = "ordered E (groupIDs d) (hl_Ordering (ld_Homepage d)) (groupNames d)"
  let ?gs = "map (resolveGroup E d active) ?ids"
  obtain tokens where res: "ResolveLayout E d active = Some (?gs, tokens)"
    using ResolveLayout_total [OF assms(1,2)] by blast
  have gids: "distinct (groupIDs d)" using assms(1) by (simp add: layoutOK_def)
  have ids: "set ?ids = set (groupIDs d)" "distinct ?ids" by (simp_all add: distinct_ordered [OF gids])
  note items = resolved_groups [OF assms ids, of E]
  have "map rg_GroupID ?gs = ?ids" by (simp add: comp_def)
  then have "mset (map rg_GroupID ?gs) = mset (groupIDs d)" using mset_ordered [OF gids] by metis
  moreover have "\<exists>r \<in> set ?gs. rg_GroupID r = lg_ID g \<and> set (placementsOf g) \<subseteq> set (memberIDs r)"
    if "g \<in> set (ld_Groups d)" for g
    using that memberIDsOf_set [OF assms(1) that, of active] by (auto simp: groupIDs_def)
  moreover have "\<exists>r \<in> set ?gs. rg_GroupID r = groupFor d w \<and> wd_ID w \<in> set (memberIDs r)"
    if w: "w \<in> set active" "wd_ID w \<notin> set (itemIDs d)" for w
  proof -
    obtain g where g: "g \<in> set (ld_Groups d)" "lg_ID g = groupFor d w"
      using groupFor_exists [OF assms(1), of w] by (auto simp: groupIDs_def)
    then have "wd_ID w \<in> set (memberIDsOf d active (groupFor d w))"
      using memberIDsOf_set [OF assms(1) g(1), of active] w homeOf_free [OF w(2)] by auto
    with groupFor_exists [OF assms(1), of w] show ?thesis by auto
  qed
  moreover have "mset (concat (map dg_ItemIDs (ActiveLayoutGroups ?gs))) = mset (map wd_ID active)"
    using resolved_items_once [OF assms, of E] res by auto
  ultimately show ?thesis using res items by blast
qed

section \<open>Evaluations\<close>

definition evalLayouts :: layout_env where
  "evalLayouts = \<lparr>lv_lib = evalLib\<lparr>uuid_parse := \<lambda>s. if s = [] then None else Some s\<rparr>, lv_nameKey = (\<lambda>s. s), lv_encode = evalJson\<rparr>"

definition cpuWidget :: "unit Widget" where
  "cpuWidget =
     \<lparr>wd_ID = ''host-a'', wd_Kind = ''host-metrics'', wd_Presentation = ''card'', wd_SourceKind = ''host'',
      wd_SourceID = ''a'', wd_Title = ''node a'', wd_Data = None, wd_Error = []\<rparr>"

lemma resolved_layout_shows_each_widget_once_witness:
  "\<exists>groups tokens. ResolveLayout evalLayouts DefaultLayout [cpuWidget] = Some (groups, tokens) \<and>
     mset (concat (map dg_ItemIDs (ActiveLayoutGroups groups))) = {#''host-a''#}"
proof -
  have "uuid_parse (lv_lib evalLayouts) [] = None" by (simp add: evalLayouts_def)
  from resolved_layout_shows_each_widget_once [OF DefaultLayout_OK this, of "[cpuWidget]"]
  show ?thesis by (auto simp: cpuWidget_def)
qed

end
