(* ===== verification/PluginModel.thy ===== *)
theory PluginModel
  imports Tables
begin

text \<open>
  Plugins as the core sees them (\<open>internal/application/plugins/service.go\<close>, \<open>actions.go\<close>,
  \<open>placements.go\<close>): the fixed failures, the connections and placements, and when two JSON option texts are
  the same. What the sources only call is the record \<open>plugin_env\<close>: the decoder of \<open>encoding/json\<close> with
  \<open>UseNumber\<close>, which gives the single value a text holds or nothing, its encoder, the text of the rational
  that \<open>math/big\<close> reads from a number, and the parser of RFC 3339 times. A decoded object lists its members
  in the order of their keys, so two decoded values are deeply equal exactly when they are equal.
\<close>

section \<open>Failures\<close>

record Failure =
  fa_Code :: string
  fa_Message :: string
  fa_Retryable :: bool

definition failureMessages :: smap where
  "failureMessages =
     [(''invalid_argument'', ''Invalid plugin input.''),
      (''permission_denied'', ''Plugin operation is not granted.''),
      (''not_found'', ''Plugin data was not found.''),
      (''conflict'', ''Plugin state changed. Refresh to retry.''),
      (''precondition_failed'', ''Widget revision changed. Reload before saving.''),
      (''precondition_required'', ''Widget revision is required.''),
      (''resource_exhausted'', ''Plugin capacity exceeded.''),
      (''invalid_response'', ''Plugin response is invalid.''),
      (''deadline_exceeded'', ''Plugin request timed out.''),
      (''unavailable'', ''Plugin data is unavailable.''),
      (''collection_failed'', ''Source collection failed.'')]"

definition Fail :: "string \<Rightarrow> Failure" where
  "Fail code =
     (let c = (if map_of failureMessages code = None then ''unavailable'' else code) in
      \<lparr>fa_Code = c, fa_Message = mget failureMessages c,
       fa_Retryable = (c = ''unavailable'' \<or> c = ''deadline_exceeded'' \<or> c = ''resource_exhausted'' \<or> c = ''collection_failed'')\<rparr>)"

text \<open>\<open>ErrorCode\<close> of an error that is a \<open>Failure\<close>; every other error of a store is \<open>unavailable\<close>.\<close>

definition ErrorCode :: "Failure \<Rightarrow> string" where
  "ErrorCode f = fa_Code (Fail (fa_Code f))"

lemma Fail_code: "map_of failureMessages c \<noteq> None \<Longrightarrow> fa_Code (Fail c) = c"
  by (auto simp: Fail_def Let_def)

lemma Fail_neq: "map_of failureMessages c \<noteq> None \<Longrightarrow> map_of failureMessages d \<noteq> None \<Longrightarrow> c \<noteq> d \<Longrightarrow> Fail c \<noteq> Fail d"
  by (metis Fail_code)

section \<open>Connections and placements\<close>

record Provision =
  pn_PluginID :: string
  pn_Key :: string
  pn_Name :: string
  pn_Digest :: string
  pn_ManifestDigest :: string
  pn_Version :: string

record Connection =
  cn_ID :: string
  cn_PluginID :: string
  cn_Key :: string
  cn_Name :: string
  cn_Revision :: string
  cn_Enabled :: bool
  cn_Digest :: string
  cn_ManifestDigest :: string
  cn_Version :: string

record PlacementBody =
  pb_PluginID :: string
  pb_ConnectionID :: string
  pb_ContributionID :: string
  pb_Options :: string
  pb_Enabled :: bool

record Placement =
  pm_Body :: PlacementBody
  pm_PlacementID :: string
  pm_Revision :: string
  pm_CreatedAt :: time
  pm_UpdatedAt :: time

record Definition =
  df_PluginID :: string
  df_ContributionID :: string
  df_Title :: string
  df_OptionsSchema :: string

section \<open>Options\<close>

datatype jvalue =
  JvNull | JvBool bool | JvNumber string | JvRat string | JvString string | JvArr "jvalue list"
  | JvObj "(string \<times> jvalue) list"

record plugin_env =
  px_lib :: golib
  px_decode :: "string \<Rightarrow> jvalue option"
  px_encode :: "jvalue \<Rightarrow> string"
  px_ratString :: "string \<Rightarrow> string option"
  px_parseTime :: "string \<Rightarrow> time option"

definition MaxOptionsBytes :: nat where
  "MaxOptionsBytes = 65536"

definition CanonicalOptions :: "plugin_env \<Rightarrow> string \<Rightarrow> (Failure, string) result" where
  "CanonicalOptions E raw =
     (if length raw = 0 \<or> length raw > MaxOptionsBytes then Inl (Fail ''invalid_argument'')
      else (case px_decode E raw of
              Some (JvObj ms) \<Rightarrow> Inr (px_encode E (JvObj ms))
            | _ \<Rightarrow> Inl (Fail ''invalid_argument'')))"

fun normalizedValue :: "plugin_env \<Rightarrow> jvalue \<Rightarrow> jvalue" where
  "normalizedValue E (JvNumber s) = (case px_ratString E s of Some r \<Rightarrow> JvRat r | None \<Rightarrow> JvNumber s)"
| "normalizedValue E (JvObj ms) = JvObj (map (\<lambda>(k, v). (k, normalizedValue E v)) ms)"
| "normalizedValue E (JvArr vs) = JvArr (map (normalizedValue E) vs)"
| "normalizedValue E v = v"

definition equalOptions :: "plugin_env \<Rightarrow> string \<Rightarrow> string \<Rightarrow> bool" where
  "equalOptions E a b =
     (case (px_decode E a, px_decode E b) of
        (Some x, Some y) \<Rightarrow> normalizedValue E x = normalizedValue E y
      | _ \<Rightarrow> False)"

definition SamePlacement :: "plugin_env \<Rightarrow> PlacementBody \<Rightarrow> PlacementBody \<Rightarrow> bool" where
  "SamePlacement E a b =
     (case (CanonicalOptions E (pb_Options a), CanonicalOptions E (pb_Options b)) of
        (Inr x, Inr y) \<Rightarrow>
          pb_PluginID a = pb_PluginID b \<and> pb_ConnectionID a = pb_ConnectionID b \<and>
          pb_ContributionID a = pb_ContributionID b \<and> pb_Enabled a = pb_Enabled b \<and> equalOptions E x y
      | _ \<Rightarrow> False)"

lemma equalOptions_refl: "equalOptions E a a \<longleftrightarrow> px_decode E a \<noteq> None"
  by (auto simp: equalOptions_def split: option.splits)

lemma equalOptions_decode: "px_decode E a = Some v \<Longrightarrow> px_decode E b = Some v \<Longrightarrow> equalOptions E a b"
  by (simp add: equalOptions_def)

lemma CanonicalOptions_Inr:
  "CanonicalOptions E raw = Inr c \<longleftrightarrow>
     0 < length raw \<and> length raw \<le> MaxOptionsBytes \<and> (\<exists>ms. px_decode E raw = Some (JvObj ms) \<and> c = px_encode E (JvObj ms))"
  by (auto simp: CanonicalOptions_def split: option.splits jvalue.splits)

end
