(* ===== verification/Revisions.thy ===== *)
theory Revisions
  imports Tables
begin

text \<open>
  The contract of a stored value with a revision, as the dashboard's layout and the plugin placements have it: a reader gets the value
  with its revision, a writer names the revision it started from. A write against another revision is
  refused; an accepted write either changes nothing or installs the value under the next revision, where
  the next reader finds it. \<open>fits\<close> restricts the values for which storing and reading back is exact. What
  follows for every resource with this contract: no accepted write is lost to a writer that has not seen
  it, revisions never decrease, and a revision identifies the value.
\<close>

section \<open>Revisions as text\<close>

definition revisionNumber :: "string \<Rightarrow> int" where
  "revisionNumber s = (case ParseInt64 s of Some n \<Rightarrow> n | None \<Rightarrow> 0)"

lemma ParseInt64_FormatInt_large:
  assumes "2 ^ 63 \<le> k"
  shows "ParseInt64 (FormatInt k) = None"
proof -
  obtain c cs where s: "nat_to_dec (nat k) = c # cs"
    by (cases "nat_to_dec (nat k)") auto
  then have "c \<in> set (nat_to_dec (nat k))" by simp
  then have "c \<noteq> CHR ''-''" and "c \<noteq> CHR ''+''" using nat_to_dec_digits digit_char_neq by metis+
  moreover have "parse_digits (c # cs) = Some (nat k)"
    using dec_value_nat_to_dec [of "nat k"] s by (simp add: parse_digits_def)
  moreover have "\<not> nat k < 2 ^ 63" using assms by (simp add: nat_less_iff)
  ultimately show ?thesis using assms s by (simp add: ParseInt64_def FormatInt_def)
qed

lemma revisionNumber_FormatInt: "0 \<le> n \<Longrightarrow> revisionNumber (FormatInt n) = (if n < 2 ^ 63 then n else 0)"
  using ParseInt64_FormatInt_nonneg [of n] ParseInt64_FormatInt_large [of n] by (auto simp: revisionNumber_def)

lemma FormatInt_negative:
  assumes "n < 0"
  shows "revisionNumber (FormatInt n) \<le> 0"
  using assms by (auto simp: revisionNumber_def FormatInt_def ParseInt64_def split: option.splits if_splits)

lemma revisionNumber_pos: "0 < revisionNumber (FormatInt n) \<Longrightarrow> 0 < n \<and> revisionNumber (FormatInt n) = n"
  using revisionNumber_FormatInt [of n] FormatInt_negative [of n] by (cases "n < 0") (auto split: if_splits)

section \<open>The contract\<close>

locale revisioned_resource =
  fixes current :: "'db \<Rightarrow> (string \<times> 'v) option"
    and update :: "string \<Rightarrow> 'c \<Rightarrow> 'db \<Rightarrow> ('e, (string \<times> 'v) \<times> 'db) result option"
    and fits :: "'v \<Rightarrow> bool"
    and num :: "string \<Rightarrow> int"
  assumes stale: "current db = Some (r, v) \<Longrightarrow> r \<noteq> expected \<Longrightarrow> \<exists>e. update expected c db = Some (Inl e)"
    and accepted: "update expected c db = Some (Inr ((r', v'), db')) \<Longrightarrow> fits v' \<Longrightarrow>
       \<exists>v. current db = Some (expected, v) \<and> current db' = Some (r', v') \<and>
           (r' = expected \<and> v' = v \<and> db' = db \<or> num r' = num expected + 1)"
begin

lemma no_lost_update:
  assumes "update e c db = Some (Inr ((r, v), db1))" and "fits v" and "r \<noteq> e"
  shows "\<exists>err. update e c' db1 = Some (Inl err)"
  using accepted [OF assms(1,2)] stale [of db1 r v e c'] assms(3) by blast

definition step :: "'db \<Rightarrow> 'db \<Rightarrow> bool" where
  "step db db' \<longleftrightarrow> (\<exists>e c r v. update e c db = Some (Inr ((r, v), db')) \<and> fits v)"

lemma step_current:
  assumes "step db db'" and "current db = Some (r, v)"
  shows "\<exists>r' v'. current db' = Some (r', v') \<and> (r' = r \<and> v' = v \<or> num r' = num r + 1)"
proof -
  obtain e c r' v' where "update e c db = Some (Inr ((r', v'), db'))" "fits v'" using assms(1) unfolding step_def by blast
  from accepted [OF this] assms(2) show ?thesis by auto
qed

lemma run_current:
  assumes "step\<^sup>*\<^sup>* db db'" and "current db = Some (r, v)"
  shows "\<exists>r' v'. current db' = Some (r', v') \<and> (r' = r \<and> v' = v \<or> num r < num r')"
  using assms
proof (induction rule: rtranclp_induct)
  case (step x y)
  then obtain r1 v1 where x: "current x = Some (r1, v1)" and ord: "r1 = r \<and> v1 = v \<or> num r < num r1" by blast
  obtain r2 v2 where y: "current y = Some (r2, v2)" and next_rev: "r2 = r1 \<and> v2 = v1 \<or> num r2 = num r1 + 1"
    using step_current [OF step.hyps(2) x] by blast
  have "r2 = r \<and> v2 = v \<or> num r < num r2" using ord next_rev by auto
  with y show ?case by blast
qed simp

end

end
