(* ===== verification/PluginStore.thy ===== *)
theory PluginStore
  imports PluginModel Revisions
begin

text \<open>
  The SQLite tables of plugin connections and placements (\<open>internal/adapters/sqlite/plugins.go\<close>,
  \<open>placements.go\<close>) with the dashboard's selections, with which the placements share a limit
  (\<open>internal/adapters/sqlite/dashboard.go\<close>). Each operation is the statements of its transaction in order,
  with the constraints of the tables: identifiers and pairs of plugin and deployment key are unique, and a
  placement refers to a connection, which therefore is not deleted. An error that is not a \<open>Failure\<close> is the
  one its code is read as, \<open>unavailable\<close>. The random identifiers that \<open>Reconcile\<close> draws are an argument.
\<close>

section \<open>Tables\<close>

record connectionRow =
  pc_ID :: string
  pc_PluginID :: string
  pc_Key :: string
  pc_Name :: string
  pc_Revision :: int
  pc_Digest :: string
  pc_ManifestDigest :: string
  pc_Version :: string
  pc_Enabled :: bool
  pc_CreatedAt :: string
  pc_UpdatedAt :: string

record placementRow =
  pp_ID :: string
  pp_PluginID :: string
  pp_ConnectionID :: string
  pp_ContributionID :: string
  pp_Options :: string
  pp_Enabled :: bool
  pp_Revision :: int
  pp_CreatedAt :: string
  pp_UpdatedAt :: string

record widget_db =
  wg_connections :: "connectionRow list"
  wg_placements :: "placementRow list"
  wg_selections :: "(string \<times> string) list"

definition widgetCount :: "widget_db \<Rightarrow> nat" where
  "widgetCount db = length (wg_selections db) + length (wg_placements db)"

section \<open>Connections\<close>

definition scanPlugin :: "connectionRow \<Rightarrow> Connection" where
  "scanPlugin r =
     \<lparr>cn_ID = pc_ID r, cn_PluginID = pc_PluginID r, cn_Key = pc_Key r, cn_Name = pc_Name r,
      cn_Revision = FormatInt (pc_Revision r), cn_Enabled = pc_Enabled r, cn_Digest = pc_Digest r,
      cn_ManifestDigest = pc_ManifestDigest r, cn_Version = pc_Version r\<rparr>"

definition PluginGet :: "string \<Rightarrow> string \<Rightarrow> widget_db \<Rightarrow> (Failure, Connection) result" where
  "PluginGet plugin i db =
     (case find (\<lambda>r. pc_PluginID r = plugin \<and> pc_ID r = i) (wg_connections db) of
        None \<Rightarrow> Inl (Fail ''not_found'')
      | Some r \<Rightarrow> Inr (scanPlugin r))"

definition PluginList :: "widget_db \<Rightarrow> Connection list" where
  "PluginList db = map scanPlugin (sort_key (\<lambda>r. (pc_PluginID r, pc_Key r)) (wg_connections db))"

definition provisionKey :: "Provision \<Rightarrow> string" where
  "provisionKey p = pn_PluginID p @ ''/'' @ pn_Key p"

definition deploymentKey :: "connectionRow \<Rightarrow> string \<times> string" where
  "deploymentKey r = (pc_PluginID r, pc_Key r)"

definition provisionRow :: "string \<Rightarrow> Provision \<Rightarrow> string \<Rightarrow> connectionRow" where
  "provisionRow now p i =
     \<lparr>pc_ID = i, pc_PluginID = pn_PluginID p, pc_Key = pn_Key p, pc_Name = pn_Name p, pc_Revision = 1,
      pc_Digest = pn_Digest p, pc_ManifestDigest = pn_ManifestDigest p, pc_Version = pn_Version p, pc_Enabled = True,
      pc_CreatedAt = now, pc_UpdatedAt = now\<rparr>"

definition applyProvision :: "string \<Rightarrow> Provision \<Rightarrow> connectionRow \<Rightarrow> connectionRow" where
  "applyProvision now p r =
     r\<lparr>pc_Name := pn_Name p, pc_Revision := pc_Revision r + 1, pc_Digest := pn_Digest p,
       pc_ManifestDigest := pn_ManifestDigest p, pc_Version := pn_Version p, pc_Enabled := True, pc_UpdatedAt := now\<rparr>"

definition reconcileOne :: "string \<Rightarrow> Provision \<Rightarrow> string \<Rightarrow> widget_db \<Rightarrow> (Failure, widget_db) result" where
  "reconcileOne now p new db =
     (case tbl_get deploymentKey (pn_PluginID p, pn_Key p) (wg_connections db) of
        None \<Rightarrow>
          if new \<in> pc_ID ` set (wg_connections db) then Inl (Fail ''unavailable'')
          else Inr (db\<lparr>wg_connections := wg_connections db @ [provisionRow now p new]\<rparr>)
      | Some r \<Rightarrow>
          if pc_Digest r \<noteq> pn_Digest p \<or> pc_Name r \<noteq> pn_Name p \<or> \<not> pc_Enabled r
          then Inr (db\<lparr>wg_connections := tbl_update (\<lambda>x. pc_ID x = pc_ID r) (applyProvision now p) (wg_connections db)\<rparr>)
          else Inr db)"

text \<open>Each item comes with the identifier that is drawn if it is new; \<open>desired\<close> has the keys so far.\<close>

fun reconcileItems ::
    "string \<Rightarrow> string list \<Rightarrow> (Provision \<times> string) list \<Rightarrow> widget_db \<Rightarrow> (Failure, widget_db) result" where
  "reconcileItems now desired [] db = Inr db"
| "reconcileItems now desired ((p, new) # items) db =
     (if provisionKey p \<in> set desired \<or> pn_PluginID p = [] \<or> pn_Key p = [] \<or> pn_Name p = [] \<or> pn_Digest p = []
      then Inl (Fail ''invalid_argument'')
      else (case reconcileOne now p new db of
              Inl e \<Rightarrow> Inl e
            | Inr db' \<Rightarrow> reconcileItems now (provisionKey p # desired) items db'))"

definition omitted :: "(Provision \<times> string) list \<Rightarrow> connectionRow \<Rightarrow> bool" where
  "omitted items r \<longleftrightarrow> pc_Enabled r \<and> pc_PluginID r @ ''/'' @ pc_Key r \<notin> provisionKey ` fst ` set items"

definition disableRow :: "string \<Rightarrow> connectionRow \<Rightarrow> connectionRow" where
  "disableRow now r = r\<lparr>pc_Enabled := False, pc_Revision := pc_Revision r + 1, pc_UpdatedAt := now\<rparr>"

definition Reconcile ::
    "string \<Rightarrow> (Provision \<times> string) list \<Rightarrow> widget_db \<Rightarrow> (Failure, Connection list \<times> widget_db) result" where
  "Reconcile now items db =
     (case reconcileItems now [] items db of
        Inl e \<Rightarrow> Inl e
      | Inr db1 \<Rightarrow>
          (let db2 = db1\<lparr>wg_connections := tbl_update (omitted items) (disableRow now) (wg_connections db1)\<rparr> in
           Inr (PluginList db2, db2)))"

definition PluginDelete :: "string \<Rightarrow> widget_db \<Rightarrow> (Failure, widget_db) result" where
  "PluginDelete i db =
     (if i \<in> pp_ConnectionID ` set (wg_placements db) \<and> i \<in> pc_ID ` set (wg_connections db) then Inl (Fail ''conflict'')
      else Inr (db\<lparr>wg_connections := tbl_delete (\<lambda>r. pc_ID r = i) (wg_connections db)\<rparr>))"

section \<open>Placements\<close>

definition scanPlacement :: "plugin_env \<Rightarrow> placementRow \<Rightarrow> Placement" where
  "scanPlacement E r =
     \<lparr>pm_Body = \<lparr>pb_PluginID = pp_PluginID r, pb_ConnectionID = pp_ConnectionID r,
                 pb_ContributionID = pp_ContributionID r, pb_Options = pp_Options r, pb_Enabled = pp_Enabled r\<rparr>,
      pm_PlacementID = pp_ID r, pm_Revision = FormatInt (pp_Revision r),
      pm_CreatedAt = (case px_parseTime E (pp_CreatedAt r) of Some t \<Rightarrow> t | None \<Rightarrow> zero_time),
      pm_UpdatedAt = (case px_parseTime E (pp_UpdatedAt r) of Some t \<Rightarrow> t | None \<Rightarrow> zero_time)\<rparr>"

definition ListPluginPlacements :: "widget_db \<Rightarrow> placementRow list" where
  "ListPluginPlacements db = sort_key (\<lambda>p. (pp_CreatedAt p, pp_ID p)) (wg_placements db)"

definition StorePlacements :: "plugin_env \<Rightarrow> widget_db \<Rightarrow> Placement list" where
  "StorePlacements E db = map (scanPlacement E) (ListPluginPlacements db)"

definition StorePlacement :: "plugin_env \<Rightarrow> string \<Rightarrow> widget_db \<Rightarrow> (Failure, Placement) result" where
  "StorePlacement E i db =
     (case tbl_get pp_ID i (wg_placements db) of
        None \<Rightarrow> Inl (Fail ''not_found'')
      | Some r \<Rightarrow> Inr (scanPlacement E r))"

definition insertPlacement :: "string \<Rightarrow> string \<Rightarrow> PlacementBody \<Rightarrow> widget_db \<Rightarrow> (Failure, widget_db) result" where
  "insertPlacement now i b db =
     (if pb_ConnectionID b \<notin> pc_ID ` set (wg_connections db) then Inl (Fail ''conflict'')
      else Inr (db\<lparr>wg_placements := wg_placements db @
             [\<lparr>pp_ID = i, pp_PluginID = pb_PluginID b, pp_ConnectionID = pb_ConnectionID b,
               pp_ContributionID = pb_ContributionID b, pp_Options = pb_Options b, pp_Enabled = pb_Enabled b,
               pp_Revision = 1, pp_CreatedAt = now, pp_UpdatedAt = now\<rparr>]\<rparr>))"

definition changePlacement :: "string \<Rightarrow> PlacementBody \<Rightarrow> placementRow \<Rightarrow> placementRow" where
  "changePlacement now b r =
     r\<lparr>pp_Options := pb_Options b, pp_Enabled := pb_Enabled b, pp_Revision := pp_Revision r + 1, pp_UpdatedAt := now\<rparr>"

definition StorePutPlacement ::
    "plugin_env \<Rightarrow> string \<Rightarrow> string \<Rightarrow> PlacementBody \<Rightarrow> string \<Rightarrow> widget_db \<Rightarrow>
     (Failure, (Placement \<times> bool) \<times> widget_db) result" where
  "StorePutPlacement E now i b match db =
     (case tbl_get pp_ID i (wg_placements db) of
        Some r \<Rightarrow>
          (let old = scanPlacement E r in
           if match = [] then (if SamePlacement E (pm_Body old) b then Inr ((old, False), db) else Inl (Fail ''conflict''))
           else if match \<noteq> pm_Revision old then Inl (Fail ''precondition_failed'')
           else if pb_PluginID (pm_Body old) \<noteq> pb_PluginID b \<or> pb_ConnectionID (pm_Body old) \<noteq> pb_ConnectionID b \<or>
                   pb_ContributionID (pm_Body old) \<noteq> pb_ContributionID b then Inl (Fail ''conflict'')
           else if SamePlacement E (pm_Body old) b then Inr ((old, False), db)
           else (let db' = db\<lparr>wg_placements := tbl_update (\<lambda>x. pp_ID x = i) (changePlacement now b) (wg_placements db)\<rparr> in
                 case StorePlacement E i db' of Inl e \<Rightarrow> Inl e | Inr v \<Rightarrow> Inr ((v, False), db')))
      | None \<Rightarrow>
          if match \<noteq> [] then Inl (Fail ''precondition_failed'')
          else if widgetCount db \<ge> 128 then Inl (Fail ''conflict'')
          else (case insertPlacement now i b db of
                  Inl e \<Rightarrow> Inl e
                | Inr db' \<Rightarrow> (case StorePlacement E i db' of Inl e \<Rightarrow> Inl e | Inr v \<Rightarrow> Inr ((v, True), db'))))"

definition StoreDeletePlacement :: "string \<Rightarrow> string \<Rightarrow> widget_db \<Rightarrow> (Failure, widget_db) result" where
  "StoreDeletePlacement i match db =
     (if match = [] then Inl (Fail ''precondition_required'')
      else (case tbl_get pp_ID i (wg_placements db) of
              None \<Rightarrow> Inl (Fail ''not_found'')
            | Some r \<Rightarrow>
                if FormatInt (pp_Revision r) \<noteq> match then Inl (Fail ''precondition_failed'')
                else Inr (db\<lparr>wg_placements := tbl_delete (\<lambda>x. pp_ID x = i) (wg_placements db)\<rparr>)))"

section \<open>Selections\<close>

datatype dashboard_error = SourceUnsupported | SourceNotFound | SelectionLimit

definition SelectionsList :: "string \<Rightarrow> widget_db \<Rightarrow> string list" where
  "SelectionsList kind db = sort (map snd (filter (\<lambda>p. fst p = kind) (wg_selections db)))"

definition SelectionsSet :: "string \<Rightarrow> string \<Rightarrow> bool \<Rightarrow> widget_db \<Rightarrow> (dashboard_error, widget_db) result" where
  "SelectionsSet kind i enabled db =
     (if \<not> enabled then Inr (db\<lparr>wg_selections := tbl_delete (\<lambda>p. p = (kind, i)) (wg_selections db)\<rparr>)
      else if widgetCount db < 128
      then Inr (db\<lparr>wg_selections := tbl_insert_ignore (\<lambda>p. p) (kind, i) (wg_selections db)\<rparr>)
      else if (kind, i) \<in> set (wg_selections db) then Inr db
      else Inl SelectionLimit)"

section \<open>The invariant\<close>

definition widgetInv :: "widget_db \<Rightarrow> bool" where
  "widgetInv db \<longleftrightarrow>
     unique_key pc_ID (wg_connections db) \<and> unique_key deploymentKey (wg_connections db) \<and>
     (\<forall>r \<in> set (wg_connections db). 0 < pc_Revision r) \<and>
     unique_key pp_ID (wg_placements db) \<and> (\<forall>r \<in> set (wg_placements db). 0 < pp_Revision r) \<and>
     (\<forall>r \<in> set (wg_placements db). pp_ConnectionID r \<in> pc_ID ` set (wg_connections db)) \<and>
     distinct (wg_selections db) \<and> widgetCount db \<le> 128"

lemma widgetInvD:
  assumes "widgetInv db"
  shows "unique_key pc_ID (wg_connections db)" and "unique_key deploymentKey (wg_connections db)"
    and "unique_key pp_ID (wg_placements db)"
    and "q \<in> set (wg_placements db) \<Longrightarrow> pp_ConnectionID q \<in> pc_ID ` set (wg_connections db)"
    and "distinct (wg_selections db)" and "widgetCount db \<le> 128"
    and "r \<in> set (wg_connections db) \<Longrightarrow> 0 < pc_Revision r" and "q \<in> set (wg_placements db) \<Longrightarrow> 0 < pp_Revision q"
  using assms unfolding widgetInv_def by blast+

text \<open>What changes only connections, keeping their identities, keeps the invariant.\<close>

lemma widgetInv_connections:
  assumes inv: "widgetInv db" and keep: "\<And>r. pc_ID (f r) = pc_ID r" "\<And>r. deploymentKey (f r) = deploymentKey r"
    and pos: "\<And>r. 0 < pc_Revision r \<Longrightarrow> 0 < pc_Revision (f r)"
  shows "widgetInv (db\<lparr>wg_connections := tbl_update P f (wg_connections db)\<rparr>)"
  using widgetInvD [OF inv] inv pos
  by (simp add: widgetInv_def widgetCount_def unique_key_update keep keys_update) (auto simp: in_tbl_update split: if_splits)

lemma applyProvision_sel [simp]:
  "pc_ID (applyProvision now p r) = pc_ID r" "pc_Revision (applyProvision now p r) = pc_Revision r + 1"
  "pc_Digest (applyProvision now p r) = pn_Digest p" "pc_Name (applyProvision now p r) = pn_Name p"
  "pc_Enabled (applyProvision now p r)" "deploymentKey (applyProvision now p r) = deploymentKey r"
  by (simp_all add: applyProvision_def deploymentKey_def)

lemma disableRow_sel [simp]:
  "pc_ID (disableRow now r) = pc_ID r" "pc_Revision (disableRow now r) = pc_Revision r + 1"
  "\<not> pc_Enabled (disableRow now r)" "deploymentKey (disableRow now r) = deploymentKey r"
  by (simp_all add: disableRow_def deploymentKey_def)

lemma provisionRow_sel [simp]:
  "pc_ID (provisionRow now p i) = i" "pc_Revision (provisionRow now p i) = 1" "pc_Digest (provisionRow now p i) = pn_Digest p"
  "pc_Name (provisionRow now p i) = pn_Name p" "pc_Enabled (provisionRow now p i)"
  "deploymentKey (provisionRow now p i) = (pn_PluginID p, pn_Key p)"
  by (simp_all add: provisionRow_def deploymentKey_def)

section \<open>Reconciliation\<close>

definition pairOf :: "Provision \<Rightarrow> string \<times> string" where
  "pairOf p = (pn_PluginID p, pn_Key p)"

definition upToDate :: "Provision \<Rightarrow> connectionRow \<Rightarrow> bool" where
  "upToDate p r \<longleftrightarrow> pc_Digest r = pn_Digest p \<and> pc_Name r = pn_Name p \<and> pc_Enabled r"

text \<open>The connection that an item leaves, from the one it finds.\<close>

definition reconciled :: "string \<Rightarrow> Provision \<Rightarrow> string \<Rightarrow> connectionRow option \<Rightarrow> connectionRow" where
  "reconciled now p new found =
     (case found of None \<Rightarrow> provisionRow now p new | Some r \<Rightarrow> if upToDate p r then r else applyProvision now p r)"

lemma reconciled_upToDate: "upToDate p (reconciled now p new found)"
  by (auto simp: reconciled_def upToDate_def split: option.split)

lemma reconcileOne_spec:
  assumes inv: "widgetInv db" and res: "reconcileOne now p new db = Inr db'"
  shows "widgetInv db' \<and> wg_placements db' = wg_placements db \<and> wg_selections db' = wg_selections db \<and>
         (\<forall>k. tbl_get deploymentKey k (wg_connections db') =
            (if k = pairOf p then Some (reconciled now p new (tbl_get deploymentKey k (wg_connections db)))
             else tbl_get deploymentKey k (wg_connections db)))"
proof (cases "tbl_get deploymentKey (pairOf p) (wg_connections db)")
  case None
  then have db': "db' = db\<lparr>wg_connections := wg_connections db @ [provisionRow now p new]\<rparr>"
    and new: "new \<notin> pc_ID ` set (wg_connections db)"
    using res by (auto simp: reconcileOne_def pairOf_def split: if_splits)
  have "tbl_get deploymentKey k [provisionRow now p new] = (if k = pairOf p then Some (provisionRow now p new) else None)" for k
    by (auto simp: tbl_get_def pairOf_def)
  moreover have "widgetInv db'"
    using inv new None by (auto simp: widgetInv_def db' widgetCount_def tbl_get_None pairOf_def)
  ultimately show ?thesis using None by (auto simp: db' tbl_get_append reconciled_def split: option.split)
next
  case (Some r)
  then have r: "r \<in> set (wg_connections db)" "deploymentKey r = pairOf p" by (auto dest: tbl_get_Some)
  show ?thesis
  proof (cases "upToDate p r")
    case True
    then have "db' = db" using res Some by (auto simp: reconcileOne_def pairOf_def upToDate_def)
    with Some True inv show ?thesis by (auto simp: reconciled_def)
  next
    case False
    let ?f = "applyProvision now p"
    have db': "db' = db\<lparr>wg_connections := tbl_update (\<lambda>x. pc_ID x = pc_ID r) ?f (wg_connections db)\<rparr>"
      using res Some False by (auto simp: reconcileOne_def pairOf_def upToDate_def)
    have hit: "pc_ID x = pc_ID r \<longleftrightarrow> k = pairOf p" if "tbl_get deploymentKey k (wg_connections db) = Some x" for k x
      using tbl_get_Some [OF that] r distinct_map_inj_on [of pc_ID "wg_connections db" x r] Some that widgetInvD(1) [OF inv]
      by (auto simp: unique_key_def)
    have "tbl_get deploymentKey k (wg_connections db') = (if k = pairOf p then Some (reconciled now p new (Some r))
        else tbl_get deploymentKey k (wg_connections db))" for k
      using Some False hit [of k] by (cases "tbl_get deploymentKey k (wg_connections db)")
        (auto simp: db' tbl_get_update reconciled_def)
    moreover have "widgetInv db'" unfolding db' by (rule widgetInv_connections [OF inv]) auto
    ultimately show ?thesis using Some by (simp add: db')
  qed
qed

lemma reconcileItems_spec:
  assumes "widgetInv db" and "reconcileItems now desired items db = Inr db'"
  shows "widgetInv db' \<and> wg_placements db' = wg_placements db \<and> wg_selections db' = wg_selections db \<and>
         distinct (map (provisionKey \<circ> fst) items) \<and> set desired \<inter> (provisionKey \<circ> fst) ` set items = {} \<and>
         (\<forall>(p, new) \<in> set items. tbl_get deploymentKey (pairOf p) (wg_connections db') =
            Some (reconciled now p new (tbl_get deploymentKey (pairOf p) (wg_connections db)))) \<and>
         (\<forall>k. k \<notin> (pairOf \<circ> fst) ` set items \<longrightarrow>
            tbl_get deploymentKey k (wg_connections db') = tbl_get deploymentKey k (wg_connections db))"
  using assms
proof (induction now desired items db rule: reconcileItems.induct)
  case (2 now desired p new items db)
  obtain db1 where 1: "reconcileOne now p new db = Inr db1" "reconcileItems now (provisionKey p # desired) items db1 = Inr db'"
    and fresh: "provisionKey p \<notin> set desired"
    using "2.prems"(2) by (auto split: if_splits sum.splits)
  note one = reconcileOne_spec [OF "2.prems"(1) 1(1)]
  have ok: "\<not> (provisionKey p \<in> set desired \<or> pn_PluginID p = [] \<or> pn_Key p = [] \<or> pn_Name p = [] \<or> pn_Digest p = [])"
    using "2.prems"(2) by (auto split: if_splits)
  note rest = "2.IH" [OF ok 1(1) conjunct1 [OF one] 1(2)]
  have new: "provisionKey p \<notin> (provisionKey \<circ> fst) ` set items" using rest by auto
  then have pair: "pairOf p \<notin> (pairOf \<circ> fst) ` set items" by (force simp: pairOf_def provisionKey_def)
  have later: "pairOf q \<noteq> pairOf p" if "(q, i) \<in> set items" for q i
    using that pair by force
  have "tbl_get deploymentKey (pairOf q) (wg_connections db1) = tbl_get deploymentKey (pairOf q) (wg_connections db)"
    if "(q, i) \<in> set items" for q i
    using one [THEN conjunct2, THEN conjunct2, THEN conjunct2, rule_format, of "pairOf q"] later [OF that] by (simp only: if_False)
  moreover have "tbl_get deploymentKey (pairOf p) (wg_connections db') =
      Some (reconciled now p new (tbl_get deploymentKey (pairOf p) (wg_connections db)))"
    using one [THEN conjunct2, THEN conjunct2, THEN conjunct2, rule_format, of "pairOf p"]
      rest [THEN conjunct2, THEN conjunct2, THEN conjunct2, THEN conjunct2, THEN conjunct2, THEN conjunct2, rule_format, OF pair]
    by (simp only: if_True refl)
  moreover have "tbl_get deploymentKey (pairOf q) (wg_connections db') =
      Some (reconciled now q i (tbl_get deploymentKey (pairOf q) (wg_connections db)))" if "(q, i) \<in> set items" for q i
    using rest that calculation(1) [OF that] by force
  ultimately have "\<forall>(q, i) \<in> set ((p, new) # items). tbl_get deploymentKey (pairOf q) (wg_connections db') =
      Some (reconciled now q i (tbl_get deploymentKey (pairOf q) (wg_connections db)))" by auto
  moreover have "tbl_get deploymentKey k (wg_connections db') = tbl_get deploymentKey k (wg_connections db)"
    if "k \<notin> (pairOf \<circ> fst) ` set ((p, new) # items)" for k
    using one [THEN conjunct2, THEN conjunct2, THEN conjunct2, rule_format, of k] that
      rest [THEN conjunct2, THEN conjunct2, THEN conjunct2, THEN conjunct2, THEN conjunct2, THEN conjunct2, rule_format, of k]
    by auto
  ultimately show ?case using one rest fresh new by (intro conjI allI impI) auto
qed auto

lemma omitted_none:
  assumes "\<And>r. r \<in> set rows \<Longrightarrow> pc_Enabled r \<Longrightarrow> pc_PluginID r @ ''/'' @ pc_Key r \<in> provisionKey ` fst ` set items"
  shows "tbl_update (omitted items) (disableRow now) rows = rows"
  using assms by (intro tbl_update_nop) (auto simp: omitted_def)

lemma reconcileItems_done:
  assumes "distinct (map (provisionKey \<circ> fst) items)" and "set desired \<inter> (provisionKey \<circ> fst) ` set items = {}"
    and "\<forall>(p, new) \<in> set items. pn_PluginID p \<noteq> [] \<and> pn_Key p \<noteq> [] \<and> pn_Name p \<noteq> [] \<and> pn_Digest p \<noteq> [] \<and>
           (\<exists>r. tbl_get deploymentKey (pairOf p) (wg_connections db) = Some r \<and> upToDate p r)"
  shows "reconcileItems now desired items db = Inr db"
  using assms
proof (induction items arbitrary: desired)
  case (Cons i items)
  obtain p new where i: "i = (p, new)" by (cases i)
  have "reconcileOne now p new db = Inr db" using Cons.prems(3) by (auto simp: i reconcileOne_def pairOf_def upToDate_def)
  moreover have "reconcileItems now (provisionKey p # desired) items db = Inr db"
    using Cons.prems by (intro Cons.IH) (auto simp: i)
  ultimately show ?case using Cons.prems by (auto simp: i)
qed simp

lemma reconcileItems_nonempty:
  "reconcileItems now desired items db = Inr db' \<Longrightarrow> (p, new) \<in> set items \<Longrightarrow>
     pn_PluginID p \<noteq> [] \<and> pn_Key p \<noteq> [] \<and> pn_Name p \<noteq> [] \<and> pn_Digest p \<noteq> []"
  by (induction now desired items db rule: reconcileItems.induct) (auto split: if_splits sum.splits)

lemma get_deployment:
  "widgetInv db \<Longrightarrow> r \<in> set (wg_connections db) \<Longrightarrow> tbl_get deploymentKey (deploymentKey r) (wg_connections db) = Some r"
  by (rule tbl_get_unique [OF widgetInvD(2)])

section \<open>Every operation keeps the invariant\<close>

lemma reconcile_disable:
  assumes "widgetInv db"
  shows "widgetInv (db\<lparr>wg_connections := tbl_update P (disableRow now) (wg_connections db)\<rparr>)"
  by (rule widgetInv_connections [OF assms]) auto

lemma Reconcile_inv: "widgetInv db \<Longrightarrow> Reconcile now items db = Inr (cs, db') \<Longrightarrow> widgetInv db'"
  unfolding Reconcile_def Let_def
  by (cases "reconcileItems now [] items db") (auto dest: reconcileItems_spec intro: reconcile_disable)

lemma PluginDelete_inv:
  assumes "widgetInv db" and "PluginDelete i db = Inr db'"
  shows "widgetInv db'"
proof -
  have db': "db' = db\<lparr>wg_connections := tbl_delete (\<lambda>r. pc_ID r = i) (wg_connections db)\<rparr>"
    and free: "i \<notin> pp_ConnectionID ` set (wg_placements db)"
    using assms widgetInvD(4) [OF assms(1)] by (auto simp: PluginDelete_def split: if_splits)
  have "pp_ConnectionID q \<in> pc_ID ` {r \<in> set (wg_connections db). pc_ID r \<noteq> i}" if "q \<in> set (wg_placements db)" for q
    using that widgetInvD(4) [OF assms(1) that] free by force
  then show ?thesis
    using widgetInvD [OF assms(1)] by (auto simp: db' widgetInv_def widgetCount_def unique_key_delete)
qed

lemma changePlacement_sel [simp]:
  "pp_ID (changePlacement now b r) = pp_ID r" "pp_ConnectionID (changePlacement now b r) = pp_ConnectionID r"
  "pp_PluginID (changePlacement now b r) = pp_PluginID r" "pp_ContributionID (changePlacement now b r) = pp_ContributionID r"
  "pp_Revision (changePlacement now b r) = pp_Revision r + 1"
  by (simp_all add: changePlacement_def)

lemma changePlacement_inv:
  "widgetInv db \<Longrightarrow> widgetInv (db\<lparr>wg_placements := tbl_update P (changePlacement now b) (wg_placements db)\<rparr>)"
  by (auto simp: widgetInv_def widgetCount_def unique_key_update keys_update in_tbl_update split: if_splits) fastforce

lemma insertPlacement_inv:
  assumes "widgetInv db" and "tbl_get pp_ID i (wg_placements db) = None" and "widgetCount db < 128"
    and "insertPlacement now i b db = Inr db'"
  shows "widgetInv db'"
  using assms by (auto simp: insertPlacement_def widgetInv_def widgetCount_def tbl_get_None split: if_splits)

lemma StorePutPlacement_inv:
  assumes "widgetInv db" and "StorePutPlacement E now i b match db = Inr (v, db')"
  shows "widgetInv db'"
  using assms
  by (auto simp: StorePutPlacement_def Let_def changePlacement_inv
      split: option.splits if_splits sum.splits intro: insertPlacement_inv)

lemma StoreDeletePlacement_inv:
  assumes "widgetInv db" and "StoreDeletePlacement i match db = Inr db'"
  shows "widgetInv db'"
  using assms length_tbl_delete [of "\<lambda>x. pp_ID x = i" "wg_placements db"]
  by (auto simp: StoreDeletePlacement_def widgetInv_def widgetCount_def unique_key_delete split: if_splits option.splits)

lemma SelectionsSet_inv:
  assumes "widgetInv db" and "SelectionsSet kind i enabled db = Inr db'"
  shows "widgetInv db'"
proof -
  have "length (tbl_delete P (wg_selections db)) + length (wg_placements db) \<le> 128" for P
    using assms(1) length_tbl_delete [of P "wg_selections db"] by (auto simp: widgetInv_def widgetCount_def)
  then show ?thesis
    using assms by (auto simp: SelectionsSet_def widgetInv_def widgetCount_def tbl_insert_ignore_def tbl_get_None
        tbl_delete_def split: if_splits)
qed

inductive widgetStep :: "plugin_env \<Rightarrow> widget_db \<Rightarrow> widget_db \<Rightarrow> bool" for E :: plugin_env where
  reconcile: "Reconcile now items db = Inr (cs, db') \<Longrightarrow> widgetStep E db db'"
| removeConnection: "PluginDelete i db = Inr db' \<Longrightarrow> widgetStep E db db'"
| put: "StorePutPlacement E now i b match db = Inr (v, db') \<Longrightarrow> widgetStep E db db'"
| removePlacement: "StoreDeletePlacement i match db = Inr db' \<Longrightarrow> widgetStep E db db'"
| select: "SelectionsSet kind i enabled db = Inr db' \<Longrightarrow> widgetStep E db db'"

lemma widgetStep_inv: "widgetStep E db db' \<Longrightarrow> widgetInv db \<Longrightarrow> widgetInv db'"
  by (induction rule: widgetStep.induct)
     (auto intro: Reconcile_inv PluginDelete_inv StorePutPlacement_inv StoreDeletePlacement_inv SelectionsSet_inv)

definition emptyWidgets :: widget_db where
  "emptyWidgets = \<lparr>wg_connections = [], wg_placements = [], wg_selections = []\<rparr>"

lemma emptyWidgets_inv: "widgetInv emptyWidgets"
  by (simp add: widgetInv_def emptyWidgets_def widgetCount_def)

section \<open>Placements as revisioned resources\<close>

definition currentPlacement :: "plugin_env \<Rightarrow> string \<Rightarrow> widget_db \<Rightarrow> (string \<times> Placement) option" where
  "currentPlacement E i db =
     (case StorePlacement E i db of Inl e \<Rightarrow> None | Inr p \<Rightarrow> Some (pm_Revision p, p))"

text \<open>A change names a revision; without one it is the creation of the placement.\<close>

definition editPlacement ::
    "plugin_env \<Rightarrow> string \<Rightarrow> string \<Rightarrow> string \<times> PlacementBody \<Rightarrow> widget_db \<Rightarrow>
     (Failure, (string \<times> Placement) \<times> widget_db) result option" where
  "editPlacement E i expected c db =
     Some (if expected = [] then Inl (Fail ''precondition_required'')
           else (case StorePutPlacement E (fst c) i (snd c) expected db of
                   Inl e \<Rightarrow> Inl e
                 | Inr ((p, created), db') \<Rightarrow> Inr ((pm_Revision p, p), db')))"

abbreviation numbered :: "Placement \<Rightarrow> bool" where
  "numbered p \<equiv> 0 < revisionNumber (pm_Revision p)"

lemma scanPlacement_sel [simp]:
  "pm_PlacementID (scanPlacement E r) = pp_ID r" "pm_Revision (scanPlacement E r) = FormatInt (pp_Revision r)"
  "pb_Options (pm_Body (scanPlacement E r)) = pp_Options r" "pb_PluginID (pm_Body (scanPlacement E r)) = pp_PluginID r"
  "pb_ConnectionID (pm_Body (scanPlacement E r)) = pp_ConnectionID r"
  "pb_ContributionID (pm_Body (scanPlacement E r)) = pp_ContributionID r"
  "pb_Enabled (pm_Body (scanPlacement E r)) = pp_Enabled r"
  by (simp_all add: scanPlacement_def)

lemma put_edit:
  assumes "StorePutPlacement E now i b match db = Inr ((p, created), db')" and "match \<noteq> []"
  shows "\<exists>r. tbl_get pp_ID i (wg_placements db) = Some r \<and> match = FormatInt (pp_Revision r) \<and> \<not> created \<and>
           pb_PluginID b = pp_PluginID r \<and> pb_ConnectionID b = pp_ConnectionID r \<and> pb_ContributionID b = pp_ContributionID r \<and>
           (if SamePlacement E (pm_Body (scanPlacement E r)) b then db' = db \<and> p = scanPlacement E r
            else db' = db\<lparr>wg_placements := tbl_update (\<lambda>x. pp_ID x = i) (changePlacement now b) (wg_placements db)\<rparr> \<and>
                 p = scanPlacement E (changePlacement now b r) \<and>
                 tbl_get pp_ID i (wg_placements db') = Some (changePlacement now b r))"
proof (cases "tbl_get pp_ID i (wg_placements db)")
  case (Some r)
  have "tbl_get pp_ID i (tbl_update (\<lambda>x. pp_ID x = i) (changePlacement now b) (wg_placements db)) = Some (changePlacement now b r)"
    using Some tbl_get_Some [OF Some] by (simp add: tbl_get_update)
  with Some assms show ?thesis
    by (auto simp: StorePutPlacement_def Let_def StorePlacement_def split: if_splits)
qed (use assms in \<open>simp add: StorePutPlacement_def\<close>)

interpretation plugin_placement: revisioned_resource "currentPlacement E i" "editPlacement E i" numbered revisionNumber for E i
proof
  fix db r v expected and c :: "string \<times> PlacementBody"
  assume "currentPlacement E i db = Some (r, v)" "r \<noteq> expected"
  then obtain row where "tbl_get pp_ID i (wg_placements db) = Some row" "FormatInt (pp_Revision row) \<noteq> expected"
    by (auto simp: currentPlacement_def StorePlacement_def split: option.splits)
  then show "\<exists>e. editPlacement E i expected c db = Some (Inl e)"
    by (simp add: editPlacement_def StorePutPlacement_def Let_def)
next
  fix db db' r' v' expected and c :: "string \<times> PlacementBody"
  assume e: "editPlacement E i expected c db = Some (Inr ((r', v'), db'))" and fits: "numbered v'"
  then obtain created where put: "StorePutPlacement E (fst c) i (snd c) expected db = Inr ((v', created), db')"
    and "expected \<noteq> []" and r': "r' = pm_Revision v'"
    by (auto simp: editPlacement_def split: if_splits sum.splits)
  from put_edit [OF put this(2)] obtain r where r: "tbl_get pp_ID i (wg_placements db) = Some r"
    and exp: "expected = FormatInt (pp_Revision r)"
    and alt: "if SamePlacement E (pm_Body (scanPlacement E r)) (snd c) then db' = db \<and> v' = scanPlacement E r
            else db' = db\<lparr>wg_placements := tbl_update (\<lambda>x. pp_ID x = i) (changePlacement (fst c) (snd c)) (wg_placements db)\<rparr> \<and>
                 v' = scanPlacement E (changePlacement (fst c) (snd c) r) \<and>
                 tbl_get pp_ID i (wg_placements db') = Some (changePlacement (fst c) (snd c) r)" by blast
  show "\<exists>v. currentPlacement E i db = Some (expected, v) \<and> currentPlacement E i db' = Some (r', v') \<and>
      (r' = expected \<and> v' = v \<and> db' = db \<or> revisionNumber r' = revisionNumber expected + 1)"
  proof (cases "SamePlacement E (pm_Body (scanPlacement E r)) (snd c)")
    case True
    with r exp alt r' show ?thesis by (simp add: currentPlacement_def StorePlacement_def)
  next
    case False
    let ?n = "pp_Revision r"
    have v': "v' = scanPlacement E (changePlacement (fst c) (snd c) r)" using alt False by simp
    then have n: "0 < revisionNumber (FormatInt (?n + 1))" using fits by simp
    then have "0 \<le> ?n" "revisionNumber (FormatInt (?n + 1)) = ?n + 1" using revisionNumber_pos [OF n] by simp_all
    moreover have "?n + 1 < 2 ^ 63" using n \<open>0 \<le> ?n\<close> revisionNumber_FormatInt [of "?n + 1"] by (auto split: if_splits)
    ultimately have "revisionNumber (FormatInt (?n + 1)) = revisionNumber (FormatInt ?n) + 1"
      by (simp add: revisionNumber_FormatInt)
    moreover have "tbl_get pp_ID i (wg_placements db') = Some (changePlacement (fst c) (snd c) r)"
      using alt unfolding if_not_P [OF False] by blast
    ultimately show ?thesis using r exp r' False v' by (simp add: currentPlacement_def StorePlacement_def)
  qed
qed

section \<open>Properties\<close>

text \<open>
  C21. However connections are reconciled and deleted, placements written and removed, and selections changed,
  the tables keep their invariant: identifiers are unique, every placement belongs to a stored connection, so
  no connection in use is ever deleted, and there are at most 128 selections and placements together. The
  limit is the only reason a selection is refused, and a placement that is new for a stored connection is
  refused exactly when it is reached or a revision is named.
\<close>
theorem widget_reachable_inv:
  assumes "(widgetStep E)\<^sup>*\<^sup>* emptyWidgets db"
  shows "widgetInv db \<and>
         ((\<exists>e. SelectionsSet kind i True db = Inl e) \<longleftrightarrow> widgetCount db = 128 \<and> i \<notin> set (SelectionsList kind db)) \<and>
         (pb_ConnectionID b \<in> pc_ID ` set (wg_connections db) \<and> tbl_get pp_ID j (wg_placements db) = None \<longrightarrow>
            ((\<exists>e. StorePutPlacement E now j b match db = Inl e) \<longleftrightarrow> widgetCount db = 128 \<or> match \<noteq> []))"
proof -
  from assms have inv: "widgetInv db"
    by (induction rule: rtranclp_induct) (auto intro: emptyWidgets_inv widgetStep_inv)
  have "(kind, i) \<in> set (wg_selections db) \<longleftrightarrow> i \<in> set (SelectionsList kind db)" by (force simp: SelectionsList_def)
  moreover have "(\<exists>e. StorePutPlacement E now j b match db = Inl e) \<longleftrightarrow> widgetCount db = 128 \<or> match \<noteq> []"
    if "pb_ConnectionID b \<in> pc_ID ` set (wg_connections db)" "tbl_get pp_ID j (wg_placements db) = None"
  proof -
    have "tbl_get pp_ID j [\<lparr>pp_ID = j, pp_PluginID = pb_PluginID b, pp_ConnectionID = pb_ConnectionID b,
               pp_ContributionID = pb_ContributionID b, pp_Options = pb_Options b, pp_Enabled = pb_Enabled b,
               pp_Revision = 1, pp_CreatedAt = now, pp_UpdatedAt = now\<rparr>] \<noteq> None" by (simp add: tbl_get_def)
    then show ?thesis
      using that widgetInvD(6) [OF inv]
      by (auto simp: StorePutPlacement_def insertPlacement_def StorePlacement_def tbl_get_append)
  qed
  ultimately show ?thesis using inv widgetInvD(6) [OF inv] by (auto simp: SelectionsSet_def)
qed

lemma Reconcile_parts:
  assumes "Reconcile now items db = Inr (cs, db')"
  obtains db1 where "reconcileItems now [] items db = Inr db1"
    "db' = db1\<lparr>wg_connections := tbl_update (omitted items) (disableRow now) (wg_connections db1)\<rparr>" "cs = PluginList db'"
    "\<forall>k. tbl_get deploymentKey k (wg_connections db') =
       map_option (\<lambda>r. if omitted items r then disableRow now r else r) (tbl_get deploymentKey k (wg_connections db1))"
proof -
  from assms obtain db1 where "reconcileItems now [] items db = Inr db1"
    "db' = db1\<lparr>wg_connections := tbl_update (omitted items) (disableRow now) (wg_connections db1)\<rparr>" "cs = PluginList db'"
    by (auto simp: Reconcile_def Let_def split: sum.splits)
  with that show ?thesis by (simp add: tbl_get_update)
qed

lemma Reconcile_enabled:
  assumes "Reconcile now items db = Inr (cs, db')" and "r \<in> set (wg_connections db')" and "pc_Enabled r"
  shows "pc_PluginID r @ ''/'' @ pc_Key r \<in> provisionKey ` fst ` set items"
proof -
  from assms(1) obtain db1 where "db' = db1\<lparr>wg_connections := tbl_update (omitted items) (disableRow now) (wg_connections db1)\<rparr>"
    by (rule Reconcile_parts)
  with assms(2,3) show ?thesis
    by (auto simp: in_tbl_update omitted_def split: if_splits) (metis disableRow_sel(3))
qed

lemma Reconcile_item:
  assumes "widgetInv db" and "Reconcile now items db = Inr (cs, db')" and p: "(p, new) \<in> set items"
  shows "\<exists>r. tbl_get deploymentKey (pairOf p) (wg_connections db') = Some r \<and> upToDate p r"
proof -
  from assms(2) obtain db1 where 1: "reconcileItems now [] items db = Inr db1" and final: "\<forall>k. tbl_get deploymentKey k (wg_connections db') =
       map_option (\<lambda>r. if omitted items r then disableRow now r else r) (tbl_get deploymentKey k (wg_connections db1))"
    by (rule Reconcile_parts)
  obtain r where r: "tbl_get deploymentKey (pairOf p) (wg_connections db1) = Some r" "upToDate p r"
    using reconcileItems_spec [OF assms(1) 1] p reconciled_upToDate by fastforce
  have "pc_PluginID r @ ''/'' @ pc_Key r = provisionKey p"
    using tbl_get_Some [OF r(1)] by (simp add: deploymentKey_def pairOf_def provisionKey_def)
  then have "\<not> omitted items r" using p by (force simp: omitted_def)
  with r show ?thesis by (simp add: final)
qed

lemma Reconcile_keeps:
  assumes "widgetInv db" and "Reconcile now items db = Inr (cs, db')" and r: "r \<in> set (wg_connections db)"
  shows "\<exists>r' \<in> set (wg_connections db'). pc_ID r' = pc_ID r \<and> deploymentKey r' = deploymentKey r \<and>
           (r' = r \<or> pc_Revision r' = pc_Revision r + 1)"
proof -
  let ?k = "deploymentKey r"
  from assms(2) obtain db1 where 1: "reconcileItems now [] items db = Inr db1" and final: "\<forall>k. tbl_get deploymentKey k (wg_connections db') =
       map_option (\<lambda>r. if omitted items r then disableRow now r else r) (tbl_get deploymentKey k (wg_connections db1))"
    by (rule Reconcile_parts)
  note items = reconcileItems_spec [OF assms(1) 1] and get = get_deployment [OF assms(1) r]
  have "\<exists>r1. tbl_get deploymentKey ?k (wg_connections db1) = Some r1 \<and> pc_ID r1 = pc_ID r \<and>
      (r1 = r \<or> pc_Revision r1 = pc_Revision r + 1 \<and> \<not> omitted items r1)"
  proof (cases "?k \<in> (pairOf \<circ> fst) ` set items")
    case False
    with items [THEN conjunct2, THEN conjunct2, THEN conjunct2, THEN conjunct2, THEN conjunct2, THEN conjunct2, rule_format, OF False] get
    show ?thesis by simp
  next
    case True
    then obtain p new where p: "(p, new) \<in> set items" "?k = pairOf p" by force
    then have "tbl_get deploymentKey ?k (wg_connections db1) = Some (reconciled now p new (Some r))"
      using items get by fastforce
    moreover have "\<not> omitted items (applyProvision now p r)"
      using p by (force simp: omitted_def applyProvision_def deploymentKey_def pairOf_def provisionKey_def)
    ultimately show ?thesis by (auto simp: reconciled_def)
  qed
  then obtain r1 where r1: "tbl_get deploymentKey ?k (wg_connections db1) = Some r1" "pc_ID r1 = pc_ID r"
      "r1 = r \<or> pc_Revision r1 = pc_Revision r + 1 \<and> \<not> omitted items r1" by blast
  let ?r' = "if omitted items r1 then disableRow now r1 else r1"
  have "tbl_get deploymentKey ?k (wg_connections db') = Some ?r'" using r1(1) by (simp add: final)
  then have "?r' \<in> set (wg_connections db') \<and> deploymentKey ?r' = ?k" by (rule tbl_get_Some)
  with r1(2,3) show ?thesis by (intro bexI [of _ ?r']) auto
qed

lemma Reconcile_again:
  assumes inv: "widgetInv db" and run: "Reconcile now items db = Inr (cs, db')" and same: "map fst again = map fst items"
  shows "Reconcile later again db' = Inr (cs, db')"
proof -
  from run obtain db1 where 1: "reconcileItems now [] items db = Inr db1" and cs: "cs = PluginList db'" by (rule Reconcile_parts)
  note items = reconcileItems_spec [OF inv 1]
  have fst_set: "fst ` set again = fst ` set items" using same by (metis list.set_map)
  have pk: "map (provisionKey \<circ> fst) again = map (provisionKey \<circ> fst) items" using same by (metis map_map)
  have "\<forall>(p, new) \<in> set again. pn_PluginID p \<noteq> [] \<and> pn_Key p \<noteq> [] \<and> pn_Name p \<noteq> [] \<and> pn_Digest p \<noteq> [] \<and>
      (\<exists>r. tbl_get deploymentKey (pairOf p) (wg_connections db') = Some r \<and> upToDate p r)"
  proof (intro ballI, clarify)
    fix p new assume "(p, new) \<in> set again"
    then have "p \<in> fst ` set items" using fst_set by (metis fst_conv imageI)
    then obtain new' where "(p, new') \<in> set items" by force
    from reconcileItems_nonempty [OF 1 this] Reconcile_item [OF inv run this]
    show "pn_PluginID p \<noteq> [] \<and> pn_Key p \<noteq> [] \<and> pn_Name p \<noteq> [] \<and> pn_Digest p \<noteq> [] \<and>
      (\<exists>r. tbl_get deploymentKey (pairOf p) (wg_connections db') = Some r \<and> upToDate p r)" by simp
  qed
  then have "reconcileItems later [] again db' = Inr db'" using items pk by (intro reconcileItems_done) auto
  moreover have "tbl_update (omitted again) (disableRow later) (wg_connections db') = wg_connections db'"
    using Reconcile_enabled [OF run] fst_set by (intro omitted_none) metis
  ultimately show ?thesis by (simp add: Reconcile_def cs)
qed

text \<open>
  C23. What \<open>Reconcile\<close> does with the deployed connections. Every item has its connection, enabled and with the
  item's name and digest; every enabled connection is that of an item; a connection that existed keeps its
  identifier and is either untouched or has the next revision; nothing else changes. Reconciling the same
  items again changes nothing.
\<close>
theorem reconcile_matches_deployment:
  assumes "widgetInv db" and "Reconcile now items db = Inr (cs, db')"
  shows "(\<forall>(p, new) \<in> set items. \<exists>r \<in> set (wg_connections db').
            deploymentKey r = pairOf p \<and> pc_Name r = pn_Name p \<and> pc_Digest r = pn_Digest p \<and> pc_Enabled r) \<and>
         (\<forall>r \<in> set (wg_connections db'). pc_Enabled r \<longrightarrow> pc_PluginID r @ ''/'' @ pc_Key r \<in> provisionKey ` fst ` set items) \<and>
         (\<forall>r \<in> set (wg_connections db). \<exists>r' \<in> set (wg_connections db').
            pc_ID r' = pc_ID r \<and> deploymentKey r' = deploymentKey r \<and> (r' = r \<or> pc_Revision r' = pc_Revision r + 1)) \<and>
         wg_placements db' = wg_placements db \<and> wg_selections db' = wg_selections db \<and>
         (map fst again = map fst items \<longrightarrow> Reconcile later again db' = Inr (cs, db'))"
proof -
  from assms(2) obtain db1 where 1: "reconcileItems now [] items db = Inr db1"
    and db': "db' = db1\<lparr>wg_connections := tbl_update (omitted items) (disableRow now) (wg_connections db1)\<rparr>"
    by (rule Reconcile_parts)
  have rest: "wg_placements db' = wg_placements db" "wg_selections db' = wg_selections db"
    using reconcileItems_spec [OF assms(1) 1] by (simp_all add: db')
  have "\<forall>(p, new) \<in> set items. \<exists>r \<in> set (wg_connections db').
      deploymentKey r = pairOf p \<and> pc_Name r = pn_Name p \<and> pc_Digest r = pn_Digest p \<and> pc_Enabled r"
    using Reconcile_item [OF assms] unfolding upToDate_def by (fastforce dest: tbl_get_Some)
  then show ?thesis
    using rest Reconcile_enabled [OF assms(2)] Reconcile_keeps [OF assms] Reconcile_again [OF assms] by simp
qed

text \<open>
  Changes of a placement are serialised by its revision. A change that names a revision and is accepted
  started from the stored one; what it returns is what is read next; and either nothing changed, or the
  revision is the next number and every further change from the old one is refused. The plugin, connection
  and contribution of a placement never change, and no other placement does.
\<close>
theorem placement_edits_serialised:
  assumes "StorePutPlacement E now i b expected db = Inr ((p, created), db')" and "expected \<noteq> []"
    and "0 < revisionNumber (pm_Revision p)"
  shows "StorePlacement E i db' = Inr p \<and> \<not> created \<and>
         (\<exists>old. StorePlacement E i db = Inr old \<and> pm_Revision old = expected \<and>
            pb_PluginID (pm_Body p) = pb_PluginID (pm_Body old) \<and> pb_ConnectionID (pm_Body p) = pb_ConnectionID (pm_Body old) \<and>
            pb_ContributionID (pm_Body p) = pb_ContributionID (pm_Body old) \<and>
            (p = old \<and> db' = db \<or>
             revisionNumber (pm_Revision p) = revisionNumber expected + 1 \<and> pb_Options (pm_Body p) = pb_Options b \<and>
             pb_Enabled (pm_Body p) = pb_Enabled b \<and>
             (\<exists>e. StorePutPlacement E now' i b' expected db' = Inl e))) \<and>
         (\<forall>j. j \<noteq> i \<longrightarrow> StorePlacement E j db' = StorePlacement E j db)"
proof -
  obtain r where r: "tbl_get pp_ID i (wg_placements db) = Some r" "expected = FormatInt (pp_Revision r)" "\<not> created"
    and alt: "if SamePlacement E (pm_Body (scanPlacement E r)) b then db' = db \<and> p = scanPlacement E r
            else db' = db\<lparr>wg_placements := tbl_update (\<lambda>x. pp_ID x = i) (changePlacement now b) (wg_placements db)\<rparr> \<and>
                 p = scanPlacement E (changePlacement now b r) \<and>
                 tbl_get pp_ID i (wg_placements db') = Some (changePlacement now b r)"
    using put_edit [OF assms(1,2)] by blast
  have e: "editPlacement E i expected (now, b) db = Some (Inr ((pm_Revision p, p), db'))"
    using assms(1,2) by (simp add: editPlacement_def)
  have others: "StorePlacement E j db' = StorePlacement E j db" if "j \<noteq> i" for j
  proof -
    have "tbl_get pp_ID j (wg_placements db') = tbl_get pp_ID j (wg_placements db)"
    proof (cases "SamePlacement E (pm_Body (scanPlacement E r)) b")
      case False
      have "map_option (\<lambda>r. if pp_ID r = i then changePlacement now b r else r) (tbl_get pp_ID j (wg_placements db)) =
          tbl_get pp_ID j (wg_placements db)"
        using that by (cases "tbl_get pp_ID j (wg_placements db)") (auto dest: tbl_get_Some)
      with False alt show ?thesis by (simp add: tbl_get_update)
    qed (use alt in simp)
    then show ?thesis by (simp add: StorePlacement_def)
  qed
  from plugin_placement.accepted [OF e assms(3)]
  have now: "StorePlacement E i db' = Inr p"
    and step: "pm_Revision p = expected \<and> p = scanPlacement E r \<and> db' = db \<or> revisionNumber (pm_Revision p) = revisionNumber expected + 1"
    using r(1) by (auto simp: currentPlacement_def StorePlacement_def split: sum.splits option.splits)
  have stale: "\<exists>err. StorePutPlacement E now' i b' expected db' = Inl err" if "pm_Revision p \<noteq> expected"
    using plugin_placement.no_lost_update [OF e assms(3) that, of "(now', b')"] assms(2)
    by (auto simp: editPlacement_def split: sum.splits)
  have same: "pb_PluginID (pm_Body p) = pp_PluginID r \<and> pb_ConnectionID (pm_Body p) = pp_ConnectionID r \<and>
      pb_ContributionID (pm_Body p) = pp_ContributionID r \<and>
      (p = scanPlacement E r \<and> db' = db \<or> pb_Options (pm_Body p) = pb_Options b \<and> pb_Enabled (pm_Body p) = pb_Enabled b)"
  proof (cases "SamePlacement E (pm_Body (scanPlacement E r)) b")
    case False
    then have "p = scanPlacement E (changePlacement now b r)" using alt by simp
    then show ?thesis by (simp add: changePlacement_def)
  qed (use alt in simp)
  have old: "StorePlacement E i db = Inr (scanPlacement E r)" using r(1) by (simp add: StorePlacement_def)
  show ?thesis
  proof (cases "pm_Revision p = expected")
    case True
    with step have "p = scanPlacement E r \<and> db' = db" by auto
    with now old others r(2,3) show ?thesis by simp
  next
    case False
    then have "\<not> (p = scanPlacement E r \<and> db' = db)" using r(2) by auto
    with now old others r(2,3) step same stale [OF False] show ?thesis by auto
  qed
qed

section \<open>Evaluations\<close>

definition evalPlugins :: plugin_env where
  "evalPlugins = \<lparr>px_lib = evalLib, px_decode = (\<lambda>s. Some (JvObj [(s, JvNull)])),
     px_encode = (\<lambda>v. case v of JvObj ((k, x) # ms) \<Rightarrow> k | _ \<Rightarrow> []), px_ratString = Some, px_parseTime = (\<lambda>_. None)\<rparr>"

definition sampleProvision :: Provision where
  "sampleProvision = \<lparr>pn_PluginID = ''p'', pn_Key = ''k'', pn_Name = ''n'', pn_Digest = ''d'', pn_ManifestDigest = ''m'', pn_Version = ''1''\<rparr>"

definition sampleBody :: PlacementBody where
  "sampleBody = \<lparr>pb_PluginID = ''p'', pb_ConnectionID = ''c'', pb_ContributionID = ''w'', pb_Options = ''o'', pb_Enabled = True\<rparr>"

definition connectedDb :: widget_db where
  "connectedDb = emptyWidgets\<lparr>wg_connections := [provisionRow ''t'' sampleProvision ''c'']\<rparr>"

lemma connectedDb_reconcile:
  "Reconcile ''t'' [(sampleProvision, ''c'')] emptyWidgets = Inr (PluginList connectedDb, connectedDb)"
  by (simp add: Reconcile_def reconcileOne_def emptyWidgets_def sampleProvision_def provisionRow_def tbl_get_def tbl_update_def
      omitted_def provisionKey_def connectedDb_def Let_def)

lemma connectedDb_put:
  "\<exists>p db. StorePutPlacement evalPlugins ''t'' ''x'' sampleBody [] connectedDb = Inr ((p, True), db) \<and> pm_Revision p = ''1'' \<and>
     db = connectedDb\<lparr>wg_placements := [\<lparr>pp_ID = ''x'', pp_PluginID = ''p'', pp_ConnectionID = ''c'', pp_ContributionID = ''w'',
       pp_Options = ''o'', pp_Enabled = True, pp_Revision = 1, pp_CreatedAt = ''t'', pp_UpdatedAt = ''t''\<rparr>]\<rparr>"
proof -
  have "FormatInt 1 = ''1''" by code_simp
  then show ?thesis
    by (simp add: StorePutPlacement_def insertPlacement_def StorePlacement_def connectedDb_def emptyWidgets_def tbl_get_def
        widgetCount_def sampleBody_def)
qed

lemma widget_reachable_inv_witness:
  "\<exists>db. (widgetStep evalPlugins)\<^sup>*\<^sup>* emptyWidgets db \<and> widgetInv db \<and> wg_placements db \<noteq> []"
proof -
  obtain p db where put: "StorePutPlacement evalPlugins ''t'' ''x'' sampleBody [] connectedDb = Inr ((p, True), db)"
    and "wg_placements db \<noteq> []" using connectedDb_put by force
  have "(widgetStep evalPlugins)\<^sup>*\<^sup>* emptyWidgets connectedDb"
    using connectedDb_reconcile by (intro r_into_rtranclp widgetStep.reconcile)
  moreover have "widgetStep evalPlugins connectedDb db" using put by (rule widgetStep.put)
  ultimately have run: "(widgetStep evalPlugins)\<^sup>*\<^sup>* emptyWidgets db" by (rule rtranclp.rtrancl_into_rtrancl)
  from widget_reachable_inv [OF run] run \<open>wg_placements db \<noteq> []\<close> show ?thesis by blast
qed

lemma reconcile_matches_deployment_witness:
  "Reconcile ''u'' [(sampleProvision, ''other'')] connectedDb = Inr (PluginList connectedDb, connectedDb)"
proof -
  have "map fst [(sampleProvision, ''other'')] = map fst [(sampleProvision, ''c'')]" by simp
  with reconcile_matches_deployment [OF emptyWidgets_inv connectedDb_reconcile] show ?thesis by blast
qed

lemma placement_edits_serialised_witness:
  "\<exists>db db' p. StorePutPlacement evalPlugins ''u'' ''x'' (sampleBody\<lparr>pb_Enabled := False\<rparr>) ''1'' db = Inr ((p, False), db') \<and>
     StorePlacement evalPlugins ''x'' db' = Inr p"
proof -
  obtain p db where db: "db = connectedDb\<lparr>wg_placements := [\<lparr>pp_ID = ''x'', pp_PluginID = ''p'', pp_ConnectionID = ''c'', pp_ContributionID = ''w'',
       pp_Options = ''o'', pp_Enabled = True, pp_Revision = 1, pp_CreatedAt = ''t'', pp_UpdatedAt = ''t''\<rparr>]\<rparr>"
    using connectedDb_put by blast
  have rev: "FormatInt 1 = ''1''" "FormatInt 2 = ''2''" by code_simp+
  have "\<not> SamePlacement evalPlugins b (sampleBody\<lparr>pb_Enabled := False\<rparr>)" if "pb_Enabled b" for b
    using that by (auto simp: SamePlacement_def split: sum.splits)
  then have "\<exists>p db'. StorePutPlacement evalPlugins ''u'' ''x'' (sampleBody\<lparr>pb_Enabled := False\<rparr>) ''1'' db = Inr ((p, False), db') \<and>
      pm_Revision p = FormatInt 2"
    using rev(1) by (simp add: StorePutPlacement_def StorePlacement_def db tbl_get_def tbl_update_def sampleBody_def Let_def)
  then obtain p db' where put: "StorePutPlacement evalPlugins ''u'' ''x'' (sampleBody\<lparr>pb_Enabled := False\<rparr>) ''1'' db = Inr ((p, False), db')"
    and "pm_Revision p = FormatInt 2" by blast
  then have "0 < revisionNumber (pm_Revision p)" by (simp add: revisionNumber_FormatInt)
  from placement_edits_serialised [OF put _ this] put show ?thesis by blast
qed

end
