(* ===== verification/TelemetryModel.thy ===== *)
theory TelemetryModel
  imports Complex_Main CatalogModel "HOL-Library.Signed_Division"
begin

text \<open>
  Host observations (\<open>internal/application/telemetry/model.go\<close>): the types, the validation of a batch and
  the status of a host. A \<open>float64\<close> is a number that is not one, an infinity or the rational it stands for;
  the sources only compare it. A nil slice of workloads is \<open>None\<close>; nothing tells a nil slice of images from an
  empty one. The difference of two instants that \<open>Sub\<close> cannot hold is the largest or smallest duration,
  which compares with three minutes as the difference does.
\<close>

section \<open>Types\<close>

datatype float64 = NaN | Infinity bool | Finite rat

record TelemetrySource =
  ts_Kind :: string
  ts_ID :: string

record Metrics =
  mt_CPUPercent :: "float64 option"
  mt_MemoryUsed :: "int option"
  mt_MemoryTotal :: "int option"

record Workload =
  wl_Name :: string
  wl_Namespace :: string
  wl_State :: string
  wl_Restarts :: int
  wl_Node :: string
  wl_Ready :: "bool option"
  wl_Reason :: string
  wl_Images :: "string list"

record Observation =
  ob_Node :: string
  ob_Architecture :: string
  ob_InventoryAvailable :: bool
  ob_Ready :: string
  ob_Metrics :: Metrics
  ob_Workloads :: "Workload list option"

record Batch =
  ba_Source :: TelemetrySource
  ba_ObservedAt :: time
  ba_Hosts :: "Observation list"

record Host =
  ho_ID :: string
  ho_Name :: string
  ho_Kind :: string
  ho_Source :: TelemetrySource
  ho_ParentID :: string
  ho_ObservedAt :: "time option"
  ho_ReceivedAt :: "time option"
  ho_Status :: string
  ho_Observation :: Observation

record Sample =
  sa_At :: time
  sa_Metrics :: Metrics

record HostDetail =
  hd_Host :: Host
  hd_Children :: "Host list"
  hd_Samples :: "Sample list"
  hd_Range :: string

datatype telemetry_error = InvalidTelemetry string | HostLimit | UnknownHost | TelemetryFailure

definition noMetrics :: Metrics where
  "noMetrics = \<lparr>mt_CPUPercent = None, mt_MemoryUsed = None, mt_MemoryTotal = None\<rparr>"

section \<open>Hosts\<close>

definition hostID :: "golib \<Rightarrow> TelemetrySource \<Rightarrow> string \<Rightarrow> string" where
  "hostID L source node = sha256_hex L (ts_Kind source @ [CHR 0x00] @ ts_ID source @ [CHR 0x00] @ node)"

definition NewHost :: "golib \<Rightarrow> TelemetrySource \<Rightarrow> string \<Rightarrow> Host" where
  "NewHost L source node =
     \<lparr>ho_ID = hostID L source node,
      ho_Name = (if node \<noteq> [] then node else ts_ID source),
      ho_Kind = (if node \<noteq> [] then ''node''
                 else if ts_Kind source = ''container'' then ''docker''
                 else if ts_Kind source = ''kubernetes'' then ''cluster''
                 else ''unknown''),
      ho_Source = source,
      ho_ParentID = (if node \<noteq> [] then hostID L source [] else []),
      ho_ObservedAt = None, ho_ReceivedAt = None, ho_Status = ''unavailable'',
      ho_Observation = \<lparr>ob_Node = node, ob_Architecture = [], ob_InventoryAvailable = False, ob_Ready = [],
                        ob_Metrics = noMetrics, ob_Workloads = Some []\<rparr>\<rparr>"

definition hostStatus :: "time \<Rightarrow> Host \<Rightarrow> string" where
  "hostStatus now h =
     (case (ho_ReceivedAt h, ho_ObservedAt h) of
        (Some received, Some observed) \<Rightarrow>
          if now - received > 3 * minute \<or> now - observed > 3 * minute then ''stale''
          else (let m = ob_Metrics (ho_Observation h) in
                if mt_CPUPercent m = None \<or> mt_MemoryUsed m = None \<or> mt_MemoryTotal m = None then ''partial''
                else ''fresh'')
      | _ \<Rightarrow> ''unavailable'')"

definition SetStatus :: "time \<Rightarrow> Host \<Rightarrow> Host" where
  "SetStatus now h = h\<lparr>ho_Status := hostStatus now h\<rparr>"

section \<open>Validation\<close>

definition validText :: "string \<Rightarrow> nat \<Rightarrow> bool \<Rightarrow> bool" where
  "validText s limit required \<longleftrightarrow>
     length s \<le> limit \<and> (\<not> required \<or> TrimSpace s \<noteq> []) \<and> \<not> list_ex (\<lambda>(r, w). IsControl r) (runes_of s)"

fun badPercent :: "float64 \<Rightarrow> bool" where
  "badPercent NaN = True"
| "badPercent (Infinity b) = True"
| "badPercent (Finite q) = (q < 0 \<or> q > 100)"

definition MetricsValidate :: "Metrics \<Rightarrow> telemetry_error option" where
  "MetricsValidate m =
     or_else (fail_if (case mt_CPUPercent m of Some p \<Rightarrow> badPercent p | None \<Rightarrow> False)
                (InvalidTelemetry ''invalid CPU percentage''))
       (fail_if ((case mt_MemoryUsed m of Some used \<Rightarrow> used < 0 | None \<Rightarrow> False) \<or>
                 (case mt_MemoryTotal m of Some tot \<Rightarrow> tot \<le> 0 | None \<Rightarrow> False) \<or>
                 (case mt_MemoryUsed m of
                    Some used \<Rightarrow> (case mt_MemoryTotal m of Some tot \<Rightarrow> used > tot | None \<Rightarrow> True)
                  | None \<Rightarrow> False))
          (InvalidTelemetry ''invalid memory measurement''))"

definition validateWorkload :: "Workload \<Rightarrow> telemetry_error option" where
  "validateWorkload w =
     or_else (fail_if (\<not> validText (wl_Name w) 253 True \<or> \<not> validText (wl_Namespace w) 253 False \<or>
                       \<not> validText (wl_State w) 64 True \<or> wl_Restarts w < 0) (InvalidTelemetry ''invalid workload''))
       (or_else (fail_if (\<not> validText (wl_Node w) 253 False \<or> \<not> validText (wl_Reason w) 253 False \<or>
                          length (wl_Images w) > 64) (InvalidTelemetry ''invalid workload details''))
          (first_error (\<lambda>i. fail_if (\<not> validText i 2048 True) (InvalidTelemetry ''invalid workload image''))
             (wl_Images w)))"

definition workloadsOf :: "Observation \<Rightarrow> Workload list" where
  "workloadsOf h = (case ob_Workloads h of Some ws \<Rightarrow> ws | None \<Rightarrow> [])"

definition validateObservation :: "Observation \<Rightarrow> telemetry_error option" where
  "validateObservation h =
     or_else (fail_if (\<not> validText (ob_Architecture h) 64 False) (InvalidTelemetry ''invalid CPU architecture''))
       (or_else (fail_if (ob_Ready h \<notin> set [[], ''True'', ''False'', ''Unknown'']) (InvalidTelemetry ''invalid readiness''))
          (or_else (MetricsValidate (ob_Metrics h))
             (or_else (fail_if (length (workloadsOf h) > 1000) (InvalidTelemetry ''too many workloads''))
                (first_error validateWorkload (workloadsOf h)))))"

fun validateHosts :: "string \<Rightarrow> string list \<Rightarrow> Observation list \<Rightarrow> telemetry_error option" where
  "validateHosts kind seen [] = fail_if ([] \<notin> set seen) (InvalidTelemetry ''root host required'')"
| "validateHosts kind seen (h # hs) =
     or_else (fail_if (ob_Node h \<in> set seen \<or> \<not> validText (ob_Node h) 253 False \<or>
                       kind = ''container'' \<and> ob_Node h \<noteq> []) (InvalidTelemetry ''invalid or duplicate node''))
       (or_else (validateObservation h) (validateHosts kind (ob_Node h # seen) hs))"

definition BatchValidate :: "time \<Rightarrow> Batch \<Rightarrow> telemetry_error option" where
  "BatchValidate now b =
     (let kind = ts_Kind (ba_Source b) in
      or_else (fail_if (kind \<noteq> ''container'' \<and> kind \<noteq> ''kubernetes'' \<or> \<not> validText (ts_ID (ba_Source b)) 253 True)
                 (InvalidTelemetry ''invalid telemetry source''))
        (or_else (fail_if (IsZero (ba_ObservedAt b) \<or> ba_ObservedAt b < now - 24 * hour \<or>
                           ba_ObservedAt b > now + 30 * second)
                    (InvalidTelemetry ''observation time outside accepted window''))
           (or_else (fail_if (ba_Hosts b = [] \<or> length (ba_Hosts b) > 128 \<or>
                              kind = ''container'' \<and> length (ba_Hosts b) \<noteq> 1) (InvalidTelemetry ''invalid host count''))
              (validateHosts kind [] (ba_Hosts b)))))"

section \<open>What an accepted batch is\<close>

definition metricsOK :: "Metrics \<Rightarrow> bool" where
  "metricsOK m \<longleftrightarrow>
     (\<forall>p. mt_CPUPercent m = Some p \<longrightarrow> (\<exists>q. p = Finite q \<and> 0 \<le> q \<and> q \<le> 100)) \<and>
     (\<forall>tot. mt_MemoryTotal m = Some tot \<longrightarrow> 0 < tot) \<and>
     (\<forall>used. mt_MemoryUsed m = Some used \<longrightarrow> (\<exists>tot. mt_MemoryTotal m = Some tot \<and> 0 \<le> used \<and> used \<le> tot))"

lemma badPercent_iff: "badPercent p \<longleftrightarrow> \<not> (\<exists>q. p = Finite q \<and> 0 \<le> q \<and> q \<le> 100)"
  by (cases p) auto

lemma MetricsValidate_None [validator]: "MetricsValidate m = None \<longleftrightarrow> metricsOK m"
  by (auto simp: MetricsValidate_def metricsOK_def badPercent_iff split: option.splits)

lemma validateHosts_None [validator]:
  "validateHosts kind seen hs = None \<longleftrightarrow>
     [] \<in> set seen \<union> ob_Node ` set hs \<and> distinct (map ob_Node hs) \<and> set seen \<inter> ob_Node ` set hs = {} \<and>
     (\<forall>h \<in> set hs. validText (ob_Node h) 253 False \<and> (kind = ''container'' \<longrightarrow> ob_Node h = []) \<and>
        validateObservation h = None)"
  by (induction kind seen hs rule: validateHosts.induct) auto

lemma BatchValidate_None [validator]:
  assumes "BatchValidate now b = None"
  shows "ts_Kind (ba_Source b) \<in> {''container'', ''kubernetes''}"
    and "now - 24 * hour \<le> ba_ObservedAt b" and "ba_ObservedAt b \<le> now + 30 * second"
    and "length (ba_Hosts b) \<le> 128"
    and "[] \<in> ob_Node ` set (ba_Hosts b)" and "distinct (map ob_Node (ba_Hosts b))"
    and "o' \<in> set (ba_Hosts b) \<Longrightarrow> metricsOK (ob_Metrics o') \<and> length (workloadsOf o') \<le> 1000"
  using assms
  by (auto simp: BatchValidate_def Let_def validateHosts_None validateObservation_def MetricsValidate_None)

end
