(* ===== verification/TelemetryStore.thy ===== *)
theory TelemetryStore
  imports TelemetryModel CatalogStore
begin

text \<open>
  The host observations in SQLite (\<open>internal/adapters/sqlite/telemetry.go\<close>): the tables \<open>telemetry_hosts\<close>
  and \<open>telemetry_samples\<close> with their constraints (a host has one row for its identifier and one for its
  source and node; a sample refers to a host and is deleted with it) and every method of the store. The
  columns with instants hold nanoseconds, 0 for none. The columns with JSON text hold the value that decoding
  gives, \<open>None\<close> for text that does not decode; writing a value and reading it back replaces bytes that are not
  UTF-8. An accepted batch has only finite numbers, which JSON text gives back.
\<close>

section \<open>Tables\<close>

record hostRow =
  hr_ID :: string
  hr_Source :: TelemetrySource
  hr_Node :: string
  hr_ObservedAt :: int
  hr_ReceivedAt :: int
  hr_Observation :: "Observation option"

record sampleRow =
  sm_HostID :: string
  sm_Minute :: int
  sm_Metrics :: "Metrics option"

record telemetry_db =
  td_hosts :: "hostRow list"
  td_samples :: "sampleRow list"

definition jsonWorkload :: "Workload \<Rightarrow> Workload" where
  "jsonWorkload w =
     \<lparr>wl_Name = toValidUTF8 (wl_Name w), wl_Namespace = toValidUTF8 (wl_Namespace w), wl_State = toValidUTF8 (wl_State w),
      wl_Restarts = wl_Restarts w, wl_Node = toValidUTF8 (wl_Node w), wl_Ready = wl_Ready w,
      wl_Reason = toValidUTF8 (wl_Reason w), wl_Images = jsonStrings (wl_Images w)\<rparr>"

definition jsonObservation :: "Observation \<Rightarrow> Observation" where
  "jsonObservation o' =
     \<lparr>ob_Node = toValidUTF8 (ob_Node o'), ob_Architecture = toValidUTF8 (ob_Architecture o'),
      ob_InventoryAvailable = ob_InventoryAvailable o', ob_Ready = toValidUTF8 (ob_Ready o'),
      ob_Metrics = ob_Metrics o', ob_Workloads = map_option (map jsonWorkload) (ob_Workloads o')\<rparr>"

text \<open>The key that the table declares \<open>UNIQUE\<close>, and deleting hosts with their samples.\<close>

definition hostKey :: "hostRow \<Rightarrow> TelemetrySource \<times> string" where
  "hostKey r = (hr_Source r, hr_Node r)"

definition deleteHosts :: "(hostRow \<Rightarrow> bool) \<Rightarrow> telemetry_db \<Rightarrow> telemetry_db" where
  "deleteHosts P db =
     (let gone = hr_ID ` set (filter P (td_hosts db)) in
      \<lparr>td_hosts = tbl_delete P (td_hosts db), td_samples = tbl_delete (\<lambda>s. sm_HostID s \<in> gone) (td_samples db)\<rparr>)"

definition deleteSamples :: "(sampleRow \<Rightarrow> bool) \<Rightarrow> telemetry_db \<Rightarrow> telemetry_db" where
  "deleteSamples P db = db\<lparr>td_samples := tbl_delete P (td_samples db)\<rparr>"

section \<open>Operations\<close>

definition registerSource :: "golib \<Rightarrow> TelemetrySource \<Rightarrow> telemetry_db \<Rightarrow> telemetry_db" where
  "registerSource L source db =
     (let h = NewHost L source [] in
      if list_ex (\<lambda>r. hr_ID r = ho_ID h \<or> hostKey r = (source, [])) (td_hosts db) then db
      else db\<lparr>td_hosts := td_hosts db @
             [\<lparr>hr_ID = ho_ID h, hr_Source = source, hr_Node = [], hr_ObservedAt = 0, hr_ReceivedAt = 0,
               hr_Observation = Some (jsonObservation (ho_Observation h))\<rparr>]\<rparr>)"

definition TelemetryRegister :: "golib \<Rightarrow> TelemetrySource list \<Rightarrow> telemetry_db \<Rightarrow> telemetry_db" where
  "TelemetryRegister L sources db = fold (registerSource L) sources db"

text \<open>Go divides towards zero.\<close>

definition sampleMinute :: "time \<Rightarrow> int" where
  "sampleMinute t = Unix t sdiv 60"

lemma sdiv_mono:
  fixes a b :: int
  assumes "a \<le> b"
  shows "a sdiv 60 \<le> b sdiv 60"
proof -
  have "- (- a div 60) \<le> 0 \<or> 0 < a" "0 \<le> b div 60 \<or> b < 0"
    using pos_imp_zdiv_nonneg_iff [of 60 "- a"] pos_imp_zdiv_nonneg_iff [of 60 b] by linarith+
  then show ?thesis using assms by (auto simp: signed_divide_int_def sgn_if zdiv_mono1)
qed

definition expiredHost :: "time \<Rightarrow> hostRow \<Rightarrow> bool" where
  "expiredHost now r \<longleftrightarrow> hr_Node r \<noteq> [] \<and> hr_ReceivedAt r < now - 24 * hour"

definition expiredSample :: "time \<Rightarrow> sampleRow \<Rightarrow> bool" where
  "expiredSample now s \<longleftrightarrow> sm_Minute s < sampleMinute (now - 24 * hour)"

definition TelemetryPrune :: "time \<Rightarrow> telemetry_db \<Rightarrow> telemetry_db" where
  "TelemetryPrune now db = deleteHosts (expiredHost now) (deleteSamples (expiredSample now) db)"

definition storedObservation :: "Observation \<Rightarrow> Observation" where
  "storedObservation o' =
     jsonObservation (o'\<lparr>ob_Workloads := (case ob_Workloads o' of Some ws \<Rightarrow> Some ws | None \<Rightarrow> Some [])\<rparr>)"

definition mergeHost :: "hostRow \<Rightarrow> hostRow \<Rightarrow> hostRow" where
  "mergeHost old new =
     old\<lparr>hr_ObservedAt := hr_ObservedAt new, hr_ReceivedAt := hr_ReceivedAt new, hr_Observation := hr_Observation new\<rparr>"

definition mergeSample :: "sampleRow \<Rightarrow> sampleRow \<Rightarrow> sampleRow" where
  "mergeSample old new = old\<lparr>sm_Metrics := sm_Metrics new\<rparr>"

definition sampleKey :: "sampleRow \<Rightarrow> string \<times> int" where
  "sampleKey s = (sm_HostID s, sm_Minute s)"

definition observedRow :: "golib \<Rightarrow> Batch \<Rightarrow> time \<Rightarrow> Observation \<Rightarrow> hostRow" where
  "observedRow L b now o' =
     \<lparr>hr_ID = ho_ID (NewHost L (ba_Source b) (ob_Node o')), hr_Source = ba_Source b, hr_Node = ob_Node o',
      hr_ObservedAt = ba_ObservedAt b, hr_ReceivedAt = now, hr_Observation = Some (storedObservation o')\<rparr>"

definition observedSample :: "golib \<Rightarrow> Batch \<Rightarrow> Observation \<Rightarrow> sampleRow" where
  "observedSample L b o' =
     \<lparr>sm_HostID = ho_ID (NewHost L (ba_Source b) (ob_Node o')), sm_Minute = sampleMinute (ba_ObservedAt b),
      sm_Metrics = Some (ob_Metrics o')\<rparr>"

definition ingestHost :: "golib \<Rightarrow> Batch \<Rightarrow> time \<Rightarrow> Observation \<Rightarrow> telemetry_db \<Rightarrow> (telemetry_error, telemetry_db) result" where
  "ingestHost L b now o' db =
     (let row = observedRow L b now o' in
      if tbl_get hr_ID (hr_ID row) (td_hosts db) = None \<and> list_ex (\<lambda>r. hostKey r = hostKey row) (td_hosts db)
      then Inl TelemetryFailure
      else Inr \<lparr>td_hosts = tbl_upsert hr_ID mergeHost row (td_hosts db),
                td_samples = tbl_upsert sampleKey mergeSample (observedSample L b o') (td_samples db)\<rparr>)"

fun ingestHosts :: "golib \<Rightarrow> Batch \<Rightarrow> time \<Rightarrow> Observation list \<Rightarrow> telemetry_db \<Rightarrow> (telemetry_error, telemetry_db) result" where
  "ingestHosts L b now [] db = Inr db"
| "ingestHosts L b now (o' # os) db =
     (case ingestHost L b now o' db of Inl e \<Rightarrow> Inl e | Inr db' \<Rightarrow> ingestHosts L b now os db')"

definition sourceCount :: "TelemetrySource \<Rightarrow> telemetry_db \<Rightarrow> nat" where
  "sourceCount source db = length (filter (\<lambda>r. hr_Source r = source) (td_hosts db))"

definition lastObserved :: "golib \<Rightarrow> TelemetrySource \<Rightarrow> telemetry_db \<Rightarrow> int" where
  "lastObserved L source db = (case tbl_get hr_ID (hostID L source []) (td_hosts db) of Some r \<Rightarrow> hr_ObservedAt r | None \<Rightarrow> 0)"

definition TelemetryIngest :: "golib \<Rightarrow> Batch \<Rightarrow> time \<Rightarrow> telemetry_db \<Rightarrow> (telemetry_error, telemetry_db) result" where
  "TelemetryIngest L b now db =
     (case BatchValidate now b of
        Some e \<Rightarrow> Inl e
      | None \<Rightarrow>
          if ba_ObservedAt b \<le> lastObserved L (ba_Source b) db then Inr db
          else (case ingestHosts L b now (ba_Hosts b) (deleteHosts (expiredHost now) db) of
                  Inl e \<Rightarrow> Inl e
                | Inr db' \<Rightarrow>
                    if sourceCount (ba_Source b) db' > 128 then Inl HostLimit
                    else Inr (deleteSamples (expiredSample now) db')))"

section \<open>Reading\<close>

definition hostFromRow :: "golib \<Rightarrow> hostRow \<Rightarrow> Observation \<Rightarrow> Host" where
  "hostFromRow L r o' =
     (NewHost L (hr_Source r) (hr_Node r))
       \<lparr>ho_Observation := o',
        ho_ObservedAt := (if hr_ObservedAt r \<noteq> 0 then Some (hr_ObservedAt r) else None),
        ho_ReceivedAt := (if hr_ReceivedAt r \<noteq> 0 then Some (hr_ReceivedAt r) else None)\<rparr>"

fun hostsFromRows :: "golib \<Rightarrow> time \<Rightarrow> hostRow list \<Rightarrow> (telemetry_error, Host list) result" where
  "hostsFromRows L now [] = Inr []"
| "hostsFromRows L now (r # rs) =
     (case hr_Observation r of
        None \<Rightarrow> Inl TelemetryFailure
      | Some o' \<Rightarrow>
          (case hostsFromRows L now rs of
             Inl e \<Rightarrow> Inl e
           | Inr hs \<Rightarrow> Inr (if expiredHost now r then hs else SetStatus now (hostFromRow L r o') # hs)))"

text \<open>The sources of the catalogue that are not manual.\<close>

definition discoverySources :: "catalog_db \<Rightarrow> TelemetrySource list" where
  "discoverySources db =
     dedup_by (\<lambda>s. s) (map (\<lambda>r. \<lparr>ts_Kind = src_Kind (sv_Source r), ts_ID = src_ID (sv_Source r)\<rparr>)
                         (filter (\<lambda>r. src_Kind (sv_Source r) \<noteq> ''manual'') (db_services db)))"

definition hostBefore :: "Host \<Rightarrow> Host \<Rightarrow> bool" where
  "hostBefore a b \<longleftrightarrow> (ho_Kind a, ho_Name a) < (ho_Kind b, ho_Name b)"

definition TelemetryList :: "golib \<Rightarrow> time \<Rightarrow> catalog_db \<Rightarrow> telemetry_db \<Rightarrow> (telemetry_error, Host list) result" where
  "TelemetryList L now cat db =
     (case hostsFromRows L now (sort_key (\<lambda>r. (ts_Kind (hr_Source r), ts_ID (hr_Source r), hr_Node r)) (td_hosts db)) of
        Inl e \<Rightarrow> Inl e
      | Inr hs \<Rightarrow>
          Inr (SortSlice hostBefore
                 (hs @ filter (\<lambda>h. ho_ID h \<notin> ho_ID ` set hs) (map (\<lambda>s. NewHost L s []) (discoverySources cat)))))"

text \<open>The instants of the loop \<open>for at := start; !at.After(end); at = at.Add(time.Minute)\<close>.\<close>

function minutesUpTo :: "time \<Rightarrow> time \<Rightarrow> time list" where
  "minutesUpTo t stop = (if t > stop then [] else t # minutesUpTo (t + minute) stop)"
  by pat_completeness auto
termination by (relation "measure (\<lambda>(t, stop). nat (stop - t + 1))") (auto simp: time_units)

declare minutesUpTo.simps [simp del]

definition sampleAt :: "string \<Rightarrow> telemetry_db \<Rightarrow> time \<Rightarrow> Sample" where
  "sampleAt i db t =
     \<lparr>sa_At = t,
      sa_Metrics = (case tbl_get sampleKey (i, sampleMinute t) (td_samples db) of
          Some s \<Rightarrow> (case sm_Metrics s of Some m \<Rightarrow> m | None \<Rightarrow> noMetrics)
        | None \<Rightarrow> noMetrics)\<rparr>"

definition windowHours :: "string \<Rightarrow> int option" where
  "windowHours window = (if window = ''24h'' then Some 24 else if window = ''1h'' then Some 1 else None)"

definition TelemetryDetail ::
    "golib \<Rightarrow> string \<Rightarrow> string \<Rightarrow> time \<Rightarrow> catalog_db \<Rightarrow> telemetry_db \<Rightarrow> (telemetry_error, HostDetail) result" where
  "TelemetryDetail L i window now cat db =
     (case TelemetryList L now cat db of
        Inl e \<Rightarrow> Inl e
      | Inr hosts \<Rightarrow>
          (case find (\<lambda>h. ho_ID h = i) (rev hosts) of
             None \<Rightarrow> Inl UnknownHost
           | Some h \<Rightarrow>
               if i = [] then Inl UnknownHost
               else (case windowHours window of
                   None \<Rightarrow> Inl (InvalidTelemetry ''invalid range'')
                 | Some hours \<Rightarrow>
                     (let stop = Truncate now minute; start = stop - hours * hour + minute;
                          rows = filter (\<lambda>s. sm_HostID s = i \<and> sampleMinute start \<le> sm_Minute s \<and>
                                              sm_Minute s \<le> sampleMinute stop) (td_samples db) in
                      if list_ex (\<lambda>s. sm_Metrics s = None) rows then Inl TelemetryFailure
                      else Inr \<lparr>hd_Host = h, hd_Children = filter (\<lambda>c. ho_ParentID c = i) hosts,
                                hd_Samples = map (sampleAt i db) (minutesUpTo start stop), hd_Range = window\<rparr>))))"

section \<open>The invariant\<close>

interpretation host_table: upsert_table hr_ID mergeHost
  by unfold_locales (simp add: mergeHost_def)

interpretation sample_table: upsert_table sampleKey mergeSample
  by unfold_locales (simp add: sampleKey_def mergeSample_def)

abbreviation hostKeys :: "telemetry_db \<Rightarrow> (TelemetrySource \<times> string) set" where
  "hostKeys db \<equiv> hostKey ` set (td_hosts db)"

abbreviation identifierOf :: "golib \<Rightarrow> TelemetrySource \<times> string \<Rightarrow> string" where
  "identifierOf L k \<equiv> hostID L (fst k) (snd k)"

text \<open>
  The rows are what the declared constraints ask for, and an identifier is the digest of its source and node.
  \<open>K\<close> has the sources and nodes that occur.
\<close>

definition hostsOK :: "golib \<Rightarrow> (TelemetrySource \<times> string) set \<Rightarrow> telemetry_db \<Rightarrow> bool" where
  "hostsOK L K db \<longleftrightarrow>
     unique_key hr_ID (td_hosts db) \<and> unique_key hostKey (td_hosts db) \<and> hostKeys db \<subseteq> K \<and>
     (\<forall>r \<in> set (td_hosts db). hr_ID r = identifierOf L (hostKey r) \<and> hr_Observation r \<noteq> None \<and> 0 \<le> hr_ObservedAt r) \<and>
     unique_key sampleKey (td_samples db) \<and>
     (\<forall>s \<in> set (td_samples db). sm_HostID s \<in> hr_ID ` set (td_hosts db) \<and> sm_Metrics s \<noteq> None)"

definition telemetryInv :: "golib \<Rightarrow> (TelemetrySource \<times> string) set \<Rightarrow> telemetry_db \<Rightarrow> bool" where
  "telemetryInv L K db \<longleftrightarrow>
     hostsOK L K db \<and> (\<forall>k \<in> hostKeys db. (fst k, []) \<in> hostKeys db) \<and> (\<forall>source. sourceCount source db \<le> 128)"

lemma hostsOKD:
  assumes "hostsOK L K db"
  shows "unique_key hr_ID (td_hosts db)" and "unique_key hostKey (td_hosts db)" and "hostKeys db \<subseteq> K"
    and "unique_key sampleKey (td_samples db)"
    and "r \<in> set (td_hosts db) \<Longrightarrow> hr_ID r = identifierOf L (hostKey r) \<and> hr_Observation r \<noteq> None \<and> 0 \<le> hr_ObservedAt r"
    and "s \<in> set (td_samples db) \<Longrightarrow> sm_HostID s \<in> hr_ID ` set (td_hosts db) \<and> sm_Metrics s \<noteq> None"
  using assms unfolding hostsOK_def by blast+

lemma hostIDs: "hostsOK L K db \<Longrightarrow> hr_ID ` set (td_hosts db) = identifierOf L ` hostKeys db"
  by (force simp: image_image dest: hostsOKD(5))

lemma sourceCount_card:
  assumes "unique_key hostKey (td_hosts db)"
  shows "sourceCount source db = card {k \<in> hostKeys db. fst k = source}"
proof -
  have "distinct (map hostKey (filter (\<lambda>r. hr_Source r = source) (td_hosts db)))"
    using assms by (auto simp: unique_key_def intro: distinct_map_filter_keys)
  then have "sourceCount source db = card (hostKey ` set (filter (\<lambda>r. hr_Source r = source) (td_hosts db)))"
    unfolding sourceCount_def by (metis distinct_card length_map list.set_map)
  also have "hostKey ` set (filter (\<lambda>r. hr_Source r = source) (td_hosts db)) = {k \<in> hostKeys db. fst k = source}"
    by (auto simp: hostKey_def)
  finally show ?thesis .
qed

lemma sourceCount_mono:
  assumes "unique_key hostKey (td_hosts db)" and "unique_key hostKey (td_hosts db')"
    and "{k \<in> hostKeys db'. fst k = source} \<subseteq> {k \<in> hostKeys db. fst k = source}"
  shows "sourceCount source db' \<le> sourceCount source db"
  unfolding sourceCount_card [OF assms(1)] sourceCount_card [OF assms(2)] by (rule card_mono [OF _ assms(3)]) simp

lemma deleteSamples_OK: "hostsOK L K db \<Longrightarrow> hostsOK L K (deleteSamples P db)"
  by (auto simp: hostsOK_def deleteSamples_def unique_key_delete)

lemma deleteHosts_OK:
  assumes "hostsOK L K db"
  shows "hostsOK L K (deleteHosts P db)"
proof -
  note ok = hostsOKD [OF assms]
  have "sm_HostID s \<in> hr_ID ` {r \<in> set (td_hosts db). \<not> P r}"
    if "s \<in> set (td_samples db)" "sm_HostID s \<notin> hr_ID ` set (filter P (td_hosts db))" for s
    using ok(6) [OF that(1)] that(2) by auto
  then show ?thesis using ok by (auto simp: hostsOK_def deleteHosts_def Let_def unique_key_delete)
qed

lemma hostKeys_deleteHosts: "hostKeys (deleteHosts P db) = hostKey ` {r \<in> set (td_hosts db). \<not> P r}"
  by (simp add: deleteHosts_def Let_def)

lemma deleteExpired_inv:
  assumes "telemetryInv L K db"
  shows "telemetryInv L K (deleteHosts (expiredHost now) db)"
proof -
  let ?db = "deleteHosts (expiredHost now) db"
  have ok: "hostsOK L K db" "hostsOK L K ?db"
    using assms deleteHosts_OK unfolding telemetryInv_def by auto
  have keys: "hostKeys ?db \<subseteq> hostKeys db" by (auto simp: hostKeys_deleteHosts)
  have "(fst k, []) \<in> hostKeys ?db" if "k \<in> hostKeys ?db" for k
  proof -
    have "(fst k, []) \<in> hostKeys db" using that keys assms by (auto simp: telemetryInv_def)
    then obtain r where "r \<in> set (td_hosts db)" "hostKey r = (fst k, [])" by (metis imageE)
    then show ?thesis unfolding hostKeys_deleteHosts by (force simp: expiredHost_def hostKey_def)
  qed
  moreover have "sourceCount s ?db \<le> 128" for s
    using sourceCount_mono [OF hostsOKD(2) [OF ok(1)] hostsOKD(2) [OF ok(2)], of s] keys assms
    by (force simp: telemetryInv_def intro: order_trans)
  ultimately show ?thesis using ok(2) by (simp add: telemetryInv_def)
qed

lemma deleteSamples_inv: "telemetryInv L K db \<Longrightarrow> telemetryInv L K (deleteSamples P db)"
  using deleteSamples_OK by (auto simp: telemetryInv_def deleteSamples_def sourceCount_def)

lemma TelemetryPrune_inv: "telemetryInv L K db \<Longrightarrow> telemetryInv L K (TelemetryPrune now db)"
  by (simp add: TelemetryPrune_def deleteExpired_inv deleteSamples_inv)

lemma key_by_ID:
  assumes "hostsOK L K db" and "inj_on (identifierOf L) K" and "k \<in> K"
  shows "tbl_get hr_ID (identifierOf L k) (td_hosts db) = None \<longleftrightarrow> k \<notin> hostKeys db"
    and "tbl_get hr_ID (identifierOf L k) (td_hosts db) = Some r \<Longrightarrow> hostKey r = k"
proof -
  have same: "hostKey r = k" if "r \<in> set (td_hosts db)" "hr_ID r = identifierOf L k" for r
    using hostsOKD(5) [OF assms(1) that(1)] that hostsOKD(3) [OF assms(1)] assms(2,3) by (auto dest: inj_onD)
  then show "tbl_get hr_ID (identifierOf L k) (td_hosts db) = None \<longleftrightarrow> k \<notin> hostKeys db"
    using hostsOKD(5) [OF assms(1)] by (force simp: tbl_get_None)
  show "tbl_get hr_ID (identifierOf L k) (td_hosts db) = Some r \<Longrightarrow> hostKey r = k"
    using same by (auto dest: tbl_get_Some)
qed

lemma registerSource_inv:
  assumes inv: "telemetryInv L K db" and inj: "inj_on (identifierOf L) K" and k: "(source, []) \<in> K"
  shows "telemetryInv L K (registerSource L source db)"
proof (cases "(source, []) \<in> hostKeys db")
  case True
  then have "registerSource L source db = db"
    by (auto simp: registerSource_def Let_def list_ex_iff)
  with inv show ?thesis by simp
next
  case False
  have ok: "hostsOK L K db" using inv by (simp add: telemetryInv_def)
  let ?row = "\<lparr>hr_ID = hostID L source [], hr_Source = source, hr_Node = [], hr_ObservedAt = 0, hr_ReceivedAt = 0,
               hr_Observation = Some (jsonObservation (ho_Observation (NewHost L source [])))\<rparr>"
  let ?db = "db\<lparr>td_hosts := td_hosts db @ [?row]\<rparr>"
  have new: "hostID L source [] \<notin> hr_ID ` set (td_hosts db)"
    using key_by_ID(1) [OF ok inj k] False by (simp add: tbl_get_None)
  have id: "ho_ID (NewHost L source []) = hostID L source []" by (simp add: NewHost_def)
  have "\<not> (\<exists>r \<in> set (td_hosts db). hr_ID r = hostID L source [] \<or> hostKey r = (source, []))"
    using new False by (metis imageI)
  then have reg: "registerSource L source db = ?db"
    unfolding registerSource_def Let_def list_ex_iff id by (rule if_not_P)
  have keys: "hostKeys ?db = insert (source, []) (hostKeys db)" by (auto simp: hostKey_def)
  have ok': "hostsOK L K ?db"
    using ok new False k by (auto simp: hostsOK_def hostKey_def)
  have none: "sourceCount source db = 0"
  proof -
    have "hr_Source r \<noteq> source" if "r \<in> set (td_hosts db)" for r
      using that False inv by (force simp: telemetryInv_def hostKey_def)
    then show ?thesis by (simp add: sourceCount_def)
  qed
  have "sourceCount s ?db \<le> 128" for s
    using inv none by (auto simp: sourceCount_def telemetryInv_def)
  then show ?thesis using inv ok' unfolding reg telemetryInv_def keys by auto
qed

lemma TelemetryRegister_inv:
  assumes "telemetryInv L K db" and "inj_on (identifierOf L) K" and "\<forall>s \<in> set sources. (s, []) \<in> K"
  shows "telemetryInv L K (TelemetryRegister L sources db)"
  using assms(1,3) unfolding TelemetryRegister_def
  by (induction sources arbitrary: db) (auto intro: registerSource_inv [OF _ assms(2)])

section \<open>Ingesting a batch\<close>

lemma NewHost_sel [simp]:
  "ho_ID (NewHost L source node) = hostID L source node"
  "ho_Source (NewHost L source node) = source"
  "ho_ParentID (NewHost L source node) = (if node \<noteq> [] then hostID L source [] else [])"
  by (simp_all add: NewHost_def)

lemma observedRow_sel [simp]:
  "hr_ID (observedRow L b now o') = hostID L (ba_Source b) (ob_Node o')"
  "hostKey (observedRow L b now o') = (ba_Source b, ob_Node o')"
  "hr_Node (observedRow L b now o') = ob_Node o'"
  "hr_Source (observedRow L b now o') = ba_Source b"
  "hr_ObservedAt (observedRow L b now o') = ba_ObservedAt b" "hr_ReceivedAt (observedRow L b now o') = now"
  "hr_Observation (observedRow L b now o') = Some (storedObservation o')"
  by (simp_all add: observedRow_def hostKey_def)

lemma observedSample_sel [simp]:
  "sm_HostID (observedSample L b o') = hostID L (ba_Source b) (ob_Node o')"
  "sampleKey (observedSample L b o') = (hostID L (ba_Source b) (ob_Node o'), sampleMinute (ba_ObservedAt b))"
  "sm_Metrics (observedSample L b o') = Some (ob_Metrics o')"
  by (simp_all add: observedSample_def sampleKey_def)

lemma mergeHost_key [simp]: "hostKey (mergeHost old new) = hostKey old" "hr_ID (mergeHost old new) = hr_ID old"
  by (simp_all add: mergeHost_def hostKey_def)

lemma mergeHost_full: "hostKey old = hostKey new \<Longrightarrow> hr_ID old = hr_ID new \<Longrightarrow> mergeHost old new = new"
  by (simp add: mergeHost_def hostKey_def)

lemma mergeSample_full: "sampleKey old = sampleKey new \<Longrightarrow> mergeSample old new = new"
  by (simp add: mergeSample_def sampleKey_def)

lemma in_upsertE:
  assumes "r \<in> set (tbl_upsert key merge new rows)"
  obtains "r \<in> set rows" | "r = new" | old where "old \<in> set rows" "key old = key new" "r = merge old new"
  using assms by (auto simp: tbl_upsert_def in_tbl_update split: if_splits)

text \<open>What one observation changes: its row and its sample.\<close>

lemma ingestHost_spec:
  assumes ok: "hostsOK L K db" and inj: "inj_on (identifierOf L) K" and k: "(ba_Source b, ob_Node o') \<in> K"
    and pos: "0 \<le> ba_ObservedAt b"
  shows "\<exists>db'. ingestHost L b now o' db = Inr db' \<and> hostsOK L K db' \<and>
           hostKeys db' = insert (ba_Source b, ob_Node o') (hostKeys db) \<and>
           (\<forall>k \<in> K. tbl_get hr_ID (identifierOf L k) (td_hosts db') =
              (if k = (ba_Source b, ob_Node o') then Some (observedRow L b now o')
               else tbl_get hr_ID (identifierOf L k) (td_hosts db))) \<and>
           (\<forall>q. tbl_get sampleKey q (td_samples db') =
              (if q = sampleKey (observedSample L b o') then Some (observedSample L b o')
               else tbl_get sampleKey q (td_samples db)))"
proof -
  let ?row = "observedRow L b now o'" and ?key = "(ba_Source b, ob_Node o')" and ?s = "observedSample L b o'"
  let ?db = "\<lparr>td_hosts = tbl_upsert hr_ID mergeHost ?row (td_hosts db),
              td_samples = tbl_upsert sampleKey mergeSample ?s (td_samples db)\<rparr>"
  have at: "hr_ID ?row = identifierOf L ?key" by simp
  have none: "tbl_get hr_ID (hr_ID ?row) (td_hosts db) = None \<longleftrightarrow> ?key \<notin> hostKeys db"
    using key_by_ID(1) [OF ok inj k] by simp
  have some: "hostKey r = ?key" if "tbl_get hr_ID (hr_ID ?row) (td_hosts db) = Some r" for r
    using key_by_ID(2) [OF ok inj k] that by simp
  have merged: "mergeHost r ?row = ?row" if "tbl_get hr_ID (hr_ID ?row) (td_hosts db) = Some r" for r
    using some [OF that] tbl_get_Some [OF that] by (intro mergeHost_full) auto
  have "\<not> (tbl_get hr_ID (hr_ID ?row) (td_hosts db) = None \<and> list_ex (\<lambda>r. hostKey r = hostKey ?row) (td_hosts db))"
    unfolding list_ex_iff using none by (metis imageI observedRow_sel(2))
  then have res: "ingestHost L b now o' db = Inr ?db" unfolding ingestHost_def Let_def by (rule if_not_P)
  have row: "old \<in> set (td_hosts db) \<Longrightarrow> hr_ID old = hr_ID ?row \<Longrightarrow> mergeHost old ?row = ?row" for old
    using tbl_get_unique [OF hostsOKD(1) [OF ok]] merged by metis
  have sample: "old \<in> set (td_samples db) \<Longrightarrow> sampleKey old = sampleKey ?s \<Longrightarrow> mergeSample old ?s = ?s" for old
    by (rule mergeSample_full)
  have rows: "r \<in> set (td_hosts db) \<or> r = ?row" if "r \<in> set (td_hosts ?db)" for r
    using that row by (auto elim!: in_upsertE)
  have samples: "s \<in> set (td_samples db) \<or> s = ?s" if "s \<in> set (td_samples ?db)" for s
    using that sample by (auto elim!: in_upsertE)
  have keys: "hostKeys ?db = insert ?key (hostKeys db)"
  proof (cases "?key \<in> hostKeys db")
    case True
    with none have "td_hosts ?db = tbl_update (\<lambda>r. hr_ID r = hr_ID ?row) (\<lambda>old. mergeHost old ?row) (td_hosts db)"
      by (auto simp: tbl_upsert_def)
    with True show ?thesis by (simp add: keys_update insert_absorb)
  next
    case False
    with none show ?thesis by (simp add: tbl_upsert_def)
  qed
  have "unique_key hostKey (td_hosts ?db)"
    using none hostsOKD(2) [OF ok]
    by (auto simp: tbl_upsert_def unique_key_update [where f = "\<lambda>old. mergeHost old ?row"] simp del: observedRow_sel(1))
  moreover have "hr_ID ` set (td_hosts ?db) = insert (hr_ID ?row) (hr_ID ` set (td_hosts db))"
    unfolding telemetry_db.select_convs by (rule host_table.keys_upsert)
  ultimately have ok': "hostsOK L K ?db"
    unfolding hostsOK_def keys
    using hostsOKD [OF ok] k pos rows samples host_table.unique_key_upsert [OF hostsOKD(1) [OF ok], of ?row]
      sample_table.unique_key_upsert [OF hostsOKD(4) [OF ok], of ?s]
    by (intro conjI ballI) (force dest!: rows samples)+
  have "tbl_get hr_ID (identifierOf L k') (td_hosts ?db) =
      (if k' = ?key then Some ?row else tbl_get hr_ID (identifierOf L k') (td_hosts db))" if "k' \<in> K" for k'
  proof -
    have "identifierOf L k' = hr_ID ?row \<longleftrightarrow> k' = ?key" unfolding at by (rule inj_on_eq_iff [OF inj that k])
    with merged show ?thesis
      by (auto simp: host_table.get_upsert simp del: observedRow_sel split: option.split)
  qed
  moreover have "tbl_get sampleKey q (td_samples ?db) =
      (if q = sampleKey ?s then Some ?s else tbl_get sampleKey q (td_samples db))" for q
    using mergeSample_full [of _ ?s]
    by (auto simp: sample_table.get_upsert simp del: observedSample_sel split: option.split dest!: tbl_get_Some)
  ultimately show ?thesis using res ok' keys by blast
qed

text \<open>A batch, whose nodes differ.\<close>

lemma ingestHosts_spec:
  assumes "hostsOK L K db" and inj: "inj_on (identifierOf L) K" and "\<forall>o' \<in> set os. (ba_Source b, ob_Node o') \<in> K"
    and pos: "0 \<le> ba_ObservedAt b" and "distinct (map ob_Node os)"
  shows "\<exists>db'. ingestHosts L b now os db = Inr db' \<and> hostsOK L K db' \<and>
           hostKeys db' = (\<lambda>o'. (ba_Source b, ob_Node o')) ` set os \<union> hostKeys db \<and>
           (\<forall>o' \<in> set os. tbl_get hr_ID (hostID L (ba_Source b) (ob_Node o')) (td_hosts db') = Some (observedRow L b now o')) \<and>
           (\<forall>k \<in> K. k \<notin> (\<lambda>o'. (ba_Source b, ob_Node o')) ` set os \<longrightarrow>
              tbl_get hr_ID (identifierOf L k) (td_hosts db') = tbl_get hr_ID (identifierOf L k) (td_hosts db)) \<and>
           (\<forall>o' \<in> set os. tbl_get sampleKey (sampleKey (observedSample L b o')) (td_samples db') = Some (observedSample L b o')) \<and>
           (\<forall>q. q \<notin> (\<lambda>o'. sampleKey (observedSample L b o')) ` set os \<longrightarrow>
              tbl_get sampleKey q (td_samples db') = tbl_get sampleKey q (td_samples db))"
  using assms(1,3,5)
proof (induction os arbitrary: db)
  case (Cons o' os)
  have k: "(ba_Source b, ob_Node o') \<in> K" using Cons.prems(2) by simp
  obtain db1 where 1: "ingestHost L b now o' db = Inr db1" "hostsOK L K db1"
      "hostKeys db1 = insert (ba_Source b, ob_Node o') (hostKeys db)"
    and h1: "\<And>k. k \<in> K \<Longrightarrow> tbl_get hr_ID (identifierOf L k) (td_hosts db1) =
        (if k = (ba_Source b, ob_Node o') then Some (observedRow L b now o') else tbl_get hr_ID (identifierOf L k) (td_hosts db))"
    and s1: "\<And>q. tbl_get sampleKey q (td_samples db1) =
        (if q = sampleKey (observedSample L b o') then Some (observedSample L b o') else tbl_get sampleKey q (td_samples db))"
    using ingestHost_spec [OF Cons.prems(1) inj k pos, of now] by blast
  obtain db2 where 2: "ingestHosts L b now os db1 = Inr db2" "hostsOK L K db2"
      "hostKeys db2 = (\<lambda>o'. (ba_Source b, ob_Node o')) ` set os \<union> hostKeys db1"
    and h2: "\<forall>o' \<in> set os. tbl_get hr_ID (hostID L (ba_Source b) (ob_Node o')) (td_hosts db2) = Some (observedRow L b now o')"
    and h3: "\<forall>k \<in> K. k \<notin> (\<lambda>o'. (ba_Source b, ob_Node o')) ` set os \<longrightarrow>
        tbl_get hr_ID (identifierOf L k) (td_hosts db2) = tbl_get hr_ID (identifierOf L k) (td_hosts db1)"
    and s2: "\<forall>o' \<in> set os. tbl_get sampleKey (sampleKey (observedSample L b o')) (td_samples db2) = Some (observedSample L b o')"
    and s3: "\<forall>q. q \<notin> (\<lambda>o'. sampleKey (observedSample L b o')) ` set os \<longrightarrow>
        tbl_get sampleKey q (td_samples db2) = tbl_get sampleKey q (td_samples db1)"
    using Cons.IH [OF 1(2)] Cons.prems(2,3) by auto
  have new: "(ba_Source b, ob_Node o') \<notin> (\<lambda>o'. (ba_Source b, ob_Node o')) ` set os" using Cons.prems(3) by auto
  have newS: "sampleKey (observedSample L b o') \<notin> (\<lambda>o'. sampleKey (observedSample L b o')) ` set os"
  proof
    assume "sampleKey (observedSample L b o') \<in> (\<lambda>o'. sampleKey (observedSample L b o')) ` set os"
    then obtain p where p: "p \<in> set os" "identifierOf L (ba_Source b, ob_Node o') = identifierOf L (ba_Source b, ob_Node p)" by auto
    then have "ob_Node o' = ob_Node p" using inj_onD [OF inj p(2) k] Cons.prems(2) by auto
    with p(1) Cons.prems(3) show False by auto
  qed
  have "tbl_get hr_ID (hostID L (ba_Source b) (ob_Node o')) (td_hosts db2) = Some (observedRow L b now o')"
    using h3 [rule_format, OF k new] h1 [OF k] by simp
  moreover have "tbl_get sampleKey (sampleKey (observedSample L b o')) (td_samples db2) = Some (observedSample L b o')"
    using s3 [rule_format, OF newS] s1 by simp
  ultimately show ?case
    using 1(1,3) 2 h1 h2 h3 s1 s2 s3 by (intro exI [of _ db2]) (simp del: observedSample_sel, blast?)
qed simp

lemma lastObserved_nonneg: "hostsOK L K db \<Longrightarrow> 0 \<le> lastObserved L source db"
  using hostsOKD(5) by (auto simp: lastObserved_def split: option.split dest!: tbl_get_Some)

text \<open>A batch that is stored: its rows and samples are what it reports, and nothing else changes but for expiry.\<close>

lemma TelemetryIngest_stored:
  assumes inv: "telemetryInv L K db" and inj: "inj_on (identifierOf L) K"
    and K: "\<forall>o' \<in> set (ba_Hosts b). (ba_Source b, ob_Node o') \<in> K"
    and valid: "BatchValidate now b = None" and later: "lastObserved L (ba_Source b) db < ba_ObservedAt b"
    and res: "TelemetryIngest L b now db = Inr db'"
  shows "telemetryInv L K db'"
    and "o' \<in> set (ba_Hosts b) \<Longrightarrow>
         tbl_get hr_ID (hostID L (ba_Source b) (ob_Node o')) (td_hosts db') = Some (observedRow L b now o') \<and>
         tbl_get sampleKey (sampleKey (observedSample L b o')) (td_samples db') = Some (observedSample L b o')"
    and "r \<in> set (td_hosts db) \<Longrightarrow> hostKey r \<notin> (\<lambda>o'. (ba_Source b, ob_Node o')) ` set (ba_Hosts b) \<Longrightarrow>
         r \<in> set (td_hosts db') \<or> expiredHost now r"
proof -
  note vb = BatchValidate_None [OF valid]
  let ?db0 = "deleteHosts (expiredHost now) db" and ?keys = "(\<lambda>o'. (ba_Source b, ob_Node o')) ` set (ba_Hosts b)"
  have inv0: "telemetryInv L K ?db0" by (rule deleteExpired_inv [OF inv])
  then have ok0: "hostsOK L K ?db0" by (simp add: telemetryInv_def)
  have pos: "0 \<le> ba_ObservedAt b" using later lastObserved_nonneg [of L K db "ba_Source b"] inv by (simp add: telemetryInv_def)
  obtain db1 where 1: "ingestHosts L b now (ba_Hosts b) ?db0 = Inr db1" "hostsOK L K db1"
      "hostKeys db1 = ?keys \<union> hostKeys ?db0"
    and h: "\<forall>o' \<in> set (ba_Hosts b). tbl_get hr_ID (hostID L (ba_Source b) (ob_Node o')) (td_hosts db1) = Some (observedRow L b now o')"
    and h': "\<forall>k \<in> K. k \<notin> ?keys \<longrightarrow> tbl_get hr_ID (identifierOf L k) (td_hosts db1) = tbl_get hr_ID (identifierOf L k) (td_hosts ?db0)"
    and s: "\<forall>o' \<in> set (ba_Hosts b). tbl_get sampleKey (sampleKey (observedSample L b o')) (td_samples db1) = Some (observedSample L b o')"
    using ingestHosts_spec [OF ok0 inj K pos vb(6), of now] by blast
  have db': "db' = deleteSamples (expiredSample now) db1" and count: "sourceCount (ba_Source b) db1 \<le> 128"
    using res later 1(1) by (simp_all add: TelemetryIngest_def valid split: if_splits)
  have "sourceCount source db1 \<le> 128" for source
  proof (cases "source = ba_Source b")
    case False
    then have "{k \<in> hostKeys db1. fst k = source} \<subseteq> {k \<in> hostKeys ?db0. fst k = source}" unfolding 1(3) by auto
    then have "sourceCount source db1 \<le> sourceCount source ?db0"
      by (rule sourceCount_mono [OF hostsOKD(2) [OF ok0] hostsOKD(2) [OF 1(2)]])
    with inv0 show ?thesis by (auto simp: telemetryInv_def intro: order_trans)
  qed (use count in simp)
  moreover have "(fst k, []) \<in> hostKeys db1" if "k \<in> hostKeys db1" for k
  proof (cases "k \<in> ?keys")
    case True
    then have "(fst k, []) \<in> ?keys" using vb(5) by force
    then show ?thesis unfolding 1(3) by blast
  next
    case False
    with that have "k \<in> hostKeys ?db0" unfolding 1(3) by blast
    then show ?thesis using inv0 unfolding 1(3) telemetryInv_def by blast
  qed
  ultimately have "telemetryInv L K db1" using 1(2) by (simp add: telemetryInv_def)
  then show "telemetryInv L K db'" unfolding db' by (rule deleteSamples_inv)
  have hosts: "td_hosts db' = td_hosts db1" by (simp add: db' deleteSamples_def)
  {
    assume o': "o' \<in> set (ba_Hosts b)"
    have "Unix (now - 24 * hour) sdiv 60 \<le> Unix (ba_ObservedAt b) sdiv 60"
      by (rule sdiv_mono) (rule Unix_mono [OF vb(2)])
    then have "\<not> expiredSample now (observedSample L b o')"
      by (simp add: expiredSample_def observedSample_def sampleMinute_def)
    with o' s h hosts
    show "tbl_get hr_ID (hostID L (ba_Source b) (ob_Node o')) (td_hosts db') = Some (observedRow L b now o') \<and>
         tbl_get sampleKey (sampleKey (observedSample L b o')) (td_samples db') = Some (observedSample L b o')"
      using tbl_get_delete [OF hostsOKD(4) [OF 1(2)]] by (simp add: db' deleteSamples_def)
  }
  assume r: "r \<in> set (td_hosts db)" "hostKey r \<notin> ?keys"
  have ok: "hostsOK L K db" using inv by (simp add: telemetryInv_def)
  have key: "hr_ID r = identifierOf L (hostKey r)" "hostKey r \<in> K" using hostsOKD(5,3) [OF ok] r(1) by blast+
  have "tbl_get hr_ID (hr_ID r) (td_hosts ?db0) = Some r" if "\<not> expiredHost now r"
    using that r(1) tbl_get_unique [OF hostsOKD(1) [OF ok0], of r] by (simp add: deleteHosts_def Let_def)
  then have "tbl_get hr_ID (hr_ID r) (td_hosts db1) = Some r" if "\<not> expiredHost now r"
    using that h' key r(2) by metis
  then show "r \<in> set (td_hosts db') \<or> expiredHost now r" unfolding hosts by (blast dest: tbl_get_Some)
qed

lemma TelemetryIngest_old:
  "ba_ObservedAt b \<le> lastObserved L (ba_Source b) db \<Longrightarrow> TelemetryIngest L b now db = Inr db' \<Longrightarrow> db' = db"
  by (auto simp: TelemetryIngest_def split: option.splits)

lemma TelemetryIngest_inv:
  assumes "telemetryInv L K db" and "inj_on (identifierOf L) K"
    and "\<forall>o' \<in> set (ba_Hosts b). (ba_Source b, ob_Node o') \<in> K" and "TelemetryIngest L b now db = Inr db'"
  shows "telemetryInv L K db'"
proof (cases "lastObserved L (ba_Source b) db < ba_ObservedAt b")
  case True
  have "BatchValidate now b = None" using assms(4) by (cases "BatchValidate now b") (auto simp: TelemetryIngest_def)
  from TelemetryIngest_stored(1) [OF assms(1-3) this True assms(4)] show ?thesis .
next
  case False
  then show ?thesis using TelemetryIngest_old assms(1,4) by (metis not_less)
qed

section \<open>What the store shows\<close>

lemma hostsFromRows_total:
  assumes "\<forall>r \<in> set rows. hr_Observation r \<noteq> None"
  shows "\<exists>hs. hostsFromRows L now rows = Inr hs \<and>
           (\<forall>h. h \<in> set hs \<longleftrightarrow> (\<exists>r \<in> set rows. \<exists>o'. \<not> expiredHost now r \<and> hr_Observation r = Some o' \<and>
                                     h = SetStatus now (hostFromRow L r o')))"
  using assms
proof (induction rows)
  case (Cons r rows)
  then obtain hs where hs: "hostsFromRows L now rows = Inr hs"
      "\<forall>h. h \<in> set hs \<longleftrightarrow> (\<exists>r \<in> set rows. \<exists>o'. \<not> expiredHost now r \<and> hr_Observation r = Some o' \<and>
                               h = SetStatus now (hostFromRow L r o'))" by auto
  obtain o' where "hr_Observation r = Some o'" using Cons.prems by auto
  with hs show ?case by (cases "expiredHost now r") auto
qed simp

lemma hostFromRow_sel [simp]:
  "ho_ID (SetStatus now (hostFromRow L r o')) = hostID L (hr_Source r) (hr_Node r)"
  "ho_Source (SetStatus now (hostFromRow L r o')) = hr_Source r"
  "ho_Observation (SetStatus now (hostFromRow L r o')) = o'"
  "ho_ObservedAt (SetStatus now (hostFromRow L r o')) = (if hr_ObservedAt r \<noteq> 0 then Some (hr_ObservedAt r) else None)"
  "ho_ReceivedAt (SetStatus now (hostFromRow L r o')) = (if hr_ReceivedAt r \<noteq> 0 then Some (hr_ReceivedAt r) else None)"
  by (simp_all add: SetStatus_def hostFromRow_def)

text \<open>The listed hosts: the rows that have not expired, and the catalogue's sources without one.\<close>

lemma TelemetryList_spec:
  assumes "hostsOK L K db"
  shows "\<exists>hs. TelemetryList L now cat db = Inr hs \<and>
           (\<forall>h. h \<in> set hs \<longleftrightarrow>
              (\<exists>r \<in> set (td_hosts db). \<exists>o'. \<not> expiredHost now r \<and> hr_Observation r = Some o' \<and>
                  h = SetStatus now (hostFromRow L r o')) \<or>
              (\<exists>s \<in> set (discoverySources cat). h = NewHost L s [] \<and>
                  (\<forall>r \<in> set (td_hosts db). expiredHost now r \<or> hr_ID r \<noteq> hostID L s [])))"
proof -
  let ?rows = "sort_key (\<lambda>r. (ts_Kind (hr_Source r), ts_ID (hr_Source r), hr_Node r)) (td_hosts db)"
  have obs: "\<forall>r \<in> set ?rows. hr_Observation r \<noteq> None" using hostsOKD(5) [OF assms] by simp
  obtain hs where hs: "hostsFromRows L now ?rows = Inr hs"
    and mem: "\<And>h. h \<in> set hs \<longleftrightarrow> (\<exists>r \<in> set (td_hosts db). \<exists>o'. \<not> expiredHost now r \<and> hr_Observation r = Some o' \<and>
                 h = SetStatus now (hostFromRow L r o'))"
    using hostsFromRows_total [OF obs, of L now] by auto
  have "i \<in> ho_ID ` set hs \<longleftrightarrow> (\<exists>r \<in> set (td_hosts db). \<not> expiredHost now r \<and> hr_ID r = i)" for i
  proof
    assume "i \<in> ho_ID ` set hs"
    then show "\<exists>r \<in> set (td_hosts db). \<not> expiredHost now r \<and> hr_ID r = i"
      using mem hostsOKD(5) [OF assms] by (force simp: hostKey_def)
  next
    assume "\<exists>r \<in> set (td_hosts db). \<not> expiredHost now r \<and> hr_ID r = i"
    then obtain r o' where "r \<in> set (td_hosts db)" "\<not> expiredHost now r" "hr_ID r = i" "hr_Observation r = Some o'"
      using hostsOKD(5) [OF assms] by blast
    moreover from this have "SetStatus now (hostFromRow L r o') \<in> set hs" using mem by blast
    ultimately show "i \<in> ho_ID ` set hs" using hostsOKD(5) [OF assms] by (force simp: hostKey_def)
  qed
  then have "ho_ID (NewHost L s []) \<notin> ho_ID ` set hs \<longleftrightarrow>
      (\<forall>r \<in> set (td_hosts db). expiredHost now r \<or> hr_ID r \<noteq> hostID L s [])" for s
    unfolding NewHost_sel by blast
  then have extra: "h \<in> set (filter (\<lambda>h. ho_ID h \<notin> ho_ID ` set hs) (map (\<lambda>s. NewHost L s []) (discoverySources cat))) \<longleftrightarrow>
      (\<exists>s \<in> set (discoverySources cat). h = NewHost L s [] \<and>
         (\<forall>r \<in> set (td_hosts db). expiredHost now r \<or> hr_ID r \<noteq> hostID L s []))" for h
    unfolding set_filter set_map by blast
  have "TelemetryList L now cat db =
      Inr (SortSlice hostBefore (hs @ filter (\<lambda>h. ho_ID h \<notin> ho_ID ` set hs) (map (\<lambda>s. NewHost L s []) (discoverySources cat))))"
    using hs by (simp add: TelemetryList_def)
  then show ?thesis by (intro exI conjI allI) (assumption, simp only: set_SortSlice set_append Un_iff mem extra)
qed

lemma statusOf_row:
  assumes "hr_ObservedAt r \<noteq> 0" and "hr_ReceivedAt r \<noteq> 0"
  shows "ho_Status (SetStatus now (hostFromRow L r o')) =
     (if now - hr_ReceivedAt r > 3 * minute \<or> now - hr_ObservedAt r > 3 * minute then ''stale''
      else if mt_CPUPercent (ob_Metrics o') = None \<or> mt_MemoryUsed (ob_Metrics o') = None \<or> mt_MemoryTotal (ob_Metrics o') = None
      then ''partial'' else ''fresh'')"
  using assms by (simp add: SetStatus_def hostStatus_def hostFromRow_def Let_def)

section \<open>Properties\<close>

inductive telemetryStep :: "golib \<Rightarrow> (TelemetrySource \<times> string) set \<Rightarrow> telemetry_db \<Rightarrow> telemetry_db \<Rightarrow> bool"
  for L :: golib and K :: "(TelemetrySource \<times> string) set" where
  register: "\<forall>s \<in> set sources. (s, []) \<in> K \<Longrightarrow> telemetryStep L K db (TelemetryRegister L sources db)"
| ingest: "\<forall>o' \<in> set (ba_Hosts b). (ba_Source b, ob_Node o') \<in> K \<Longrightarrow> TelemetryIngest L b now db = Inr db' \<Longrightarrow>
    telemetryStep L K db db'"
| prune: "telemetryStep L K db (TelemetryPrune now db)"

definition emptyTelemetry :: telemetry_db where
  "emptyTelemetry = \<lparr>td_hosts = [], td_samples = []\<rparr>"

lemma telemetryStep_inv:
  assumes "telemetryStep L K db db'" and "inj_on (identifierOf L) K" and "telemetryInv L K db"
  shows "telemetryInv L K db'"
  using assms
  by (induction rule: telemetryStep.induct) (auto intro: TelemetryRegister_inv TelemetryIngest_inv TelemetryPrune_inv)

text \<open>
  C18. However sources are registered, batches arrive (in any order, accepted or refused, from any source) and
  old rows are pruned, the store keeps its invariant: a host has one row, found under the digest of its
  source and node; every source with a row has its root row and at most 128 rows; every sample belongs to a
  stored host, with one sample per host and minute. Listing the hosts never fails on what is stored. The
  digests of the sources and nodes that occur are assumed to differ.
\<close>
theorem telemetry_reachable_inv:
  assumes "inj_on (identifierOf L) K" and "(telemetryStep L K)\<^sup>*\<^sup>* emptyTelemetry db"
  shows "telemetryInv L K db \<and> (\<exists>hs. TelemetryList L now cat db = Inr hs)"
proof -
  from assms(2) have inv: "telemetryInv L K db"
  proof (induction rule: rtranclp_induct)
    case base
    show ?case by (simp add: telemetryInv_def hostsOK_def emptyTelemetry_def sourceCount_def)
  qed (rule telemetryStep_inv [OF _ assms(1)])
  then have "hostsOK L K db" by (simp add: telemetryInv_def)
  with inv TelemetryList_spec show ?thesis by blast
qed

text \<open>
  C25. What an accepted batch leaves. A batch that is not newer than the last one of its source changes nothing.
  Otherwise every host it reports is listed with exactly the reported observation and times, as fresh,
  partial or stale by the age and the completeness of the observation; its metrics are the sample of the
  batch's minute; and every other host keeps its row unless that has expired.
\<close>
theorem ingested_batch_is_shown:
  assumes "telemetryInv L K db" and "inj_on (identifierOf L) K" and "0 < now"
    and "\<forall>o' \<in> set (ba_Hosts b). (ba_Source b, ob_Node o') \<in> K" and "TelemetryIngest L b now db = Inr db'"
  shows "if ba_ObservedAt b \<le> lastObserved L (ba_Source b) db then db' = db
         else (\<exists>hs. TelemetryList L now cat db' = Inr hs \<and>
                 (\<forall>o' \<in> set (ba_Hosts b). \<exists>h \<in> set hs.
                    ho_ID h = hostID L (ba_Source b) (ob_Node o') \<and> ho_Source h = ba_Source b \<and>
                    ho_Observation h = storedObservation o' \<and>
                    ho_ObservedAt h = Some (ba_ObservedAt b) \<and> ho_ReceivedAt h = Some now \<and>
                    ho_Status h = (if now - ba_ObservedAt b > 3 * minute then ''stale''
                                   else if mt_CPUPercent (ob_Metrics o') = None \<or> mt_MemoryUsed (ob_Metrics o') = None \<or>
                                           mt_MemoryTotal (ob_Metrics o') = None then ''partial''
                                   else ''fresh'') \<and>
                    tbl_get sampleKey (ho_ID h, sampleMinute (ba_ObservedAt b)) (td_samples db') =
                      Some \<lparr>sm_HostID = ho_ID h, sm_Minute = sampleMinute (ba_ObservedAt b), sm_Metrics = Some (ob_Metrics o')\<rparr>)) \<and>
              (\<forall>r \<in> set (td_hosts db). r \<in> set (td_hosts db') \<or> expiredHost now r \<or>
                 hostKey r \<in> (\<lambda>o'. (ba_Source b, ob_Node o')) ` set (ba_Hosts b))"
proof (cases "ba_ObservedAt b \<le> lastObserved L (ba_Source b) db")
  case True
  with TelemetryIngest_old [OF True assms(5)] show ?thesis by simp
next
  case False
  have valid: "BatchValidate now b = None" using assms(5) by (cases "BatchValidate now b") (auto simp: TelemetryIngest_def)
  from False have "lastObserved L (ba_Source b) db < ba_ObservedAt b" by simp
  note st = TelemetryIngest_stored [OF assms(1,2,4) valid this assms(5)]
  have ok: "hostsOK L K db'" "0 < ba_ObservedAt b"
    using st(1) lastObserved_nonneg [of L K db "ba_Source b"] assms(1) False by (auto simp: telemetryInv_def)
  obtain hs where hs: "TelemetryList L now cat db' = Inr hs"
    and mem: "\<And>r o'. r \<in> set (td_hosts db') \<Longrightarrow> \<not> expiredHost now r \<Longrightarrow> hr_Observation r = Some o' \<Longrightarrow>
                SetStatus now (hostFromRow L r o') \<in> set hs"
    using TelemetryList_spec [OF ok(1), of now cat] by blast
  have "\<exists>h \<in> set hs. ho_ID h = hostID L (ba_Source b) (ob_Node o') \<and> ho_Source h = ba_Source b \<and>
      ho_Observation h = storedObservation o' \<and> ho_ObservedAt h = Some (ba_ObservedAt b) \<and> ho_ReceivedAt h = Some now \<and>
      ho_Status h = (if now - ba_ObservedAt b > 3 * minute then ''stale''
                     else if mt_CPUPercent (ob_Metrics o') = None \<or> mt_MemoryUsed (ob_Metrics o') = None \<or>
                             mt_MemoryTotal (ob_Metrics o') = None then ''partial'' else ''fresh'') \<and>
      tbl_get sampleKey (ho_ID h, sampleMinute (ba_ObservedAt b)) (td_samples db') =
        Some \<lparr>sm_HostID = ho_ID h, sm_Minute = sampleMinute (ba_ObservedAt b), sm_Metrics = Some (ob_Metrics o')\<rparr>"
    if o': "o' \<in> set (ba_Hosts b)" for o'
  proof -
    let ?r = "observedRow L b now o'"
    have "?r \<in> set (td_hosts db')" using st(2) [OF o'] by (blast dest: tbl_get_Some)
    moreover have "\<not> expiredHost now ?r" by (simp add: expiredHost_def time_units)
    ultimately have "SetStatus now (hostFromRow L ?r (storedObservation o')) \<in> set hs" by (intro mem) simp_all
    moreover have "ob_Metrics (storedObservation o') = ob_Metrics o'" by (simp add: storedObservation_def jsonObservation_def)
    moreover have "\<not> 3 * minute < now - now" by (simp add: time_units)
    ultimately show ?thesis
      using ok(2) assms(3) st(2) [OF o']
      by (intro bexI [of _ "SetStatus now (hostFromRow L ?r (storedObservation o'))"])
         (simp_all add: statusOf_row, simp add: observedSample_def)
  qed
  with False hs st(3) show ?thesis by auto
qed

lemma minutesUpTo_map: "minutesUpTo t (t + int n * minute) = map (\<lambda>k. t + int k * minute) [0..<Suc n]"
proof (induction n arbitrary: t)
  case 0
  have "minutesUpTo (t + minute) t = []" by (subst minutesUpTo.simps) (simp add: time_units)
  then show ?case by (subst minutesUpTo.simps) simp
next
  case (Suc n)
  have "minutesUpTo t (t + int (Suc n) * minute) = t # minutesUpTo (t + minute) (t + minute + int n * minute)"
    by (subst minutesUpTo.simps) (simp add: algebra_simps time_units)
  also have "\<dots> = t # map (\<lambda>k. t + int (Suc k) * minute) [0..<Suc n]"
    unfolding Suc.IH by (simp add: algebra_simps)
  also have "\<dots> = map (\<lambda>k. t + int k * minute) [0..<Suc (Suc n)]"
    unfolding upt_conv_Cons [of 0 "Suc (Suc n)", OF zero_less_Suc] map_Suc_upt [symmetric] by (simp add: comp_def)
  finally show ?case .
qed

lemma window_minutes:
  assumes "windowHours window = Some hours"
  shows "minutesUpTo (stop - hours * hour + minute) stop =
         map (\<lambda>k. stop - (60 * hours - 1 - int k) * minute) [0..<nat (60 * hours)]"
proof -
  have h: "hours = 1 \<or> hours = 24" using assms by (simp add: windowHours_def split: if_splits)
  let ?t = "stop - hours * hour + minute" and ?n = "nat (60 * hours - 1)"
  have "stop = ?t + int ?n * minute" "Suc ?n = nat (60 * hours)" using h by (auto simp: time_units)
  with minutesUpTo_map [of ?t ?n] have "minutesUpTo ?t stop = map (\<lambda>k. ?t + int k * minute) [0..<nat (60 * hours)]" by metis
  moreover have "?t + int k * minute = stop - (60 * hours - 1 - int k) * minute" for k by (simp add: algebra_simps time_units)
  ultimately show ?thesis by simp
qed

text \<open>
  The detail of a host. It is given exactly for a listed host and the windows \<open>1h\<close> and \<open>24h\<close>; it has the
  host, the hosts whose parent it is, and one sample for each of the last 60 or 1440 minutes, oldest first and
  up to the current minute, with the metrics that are stored for that minute or none.
\<close>
theorem detail_covers_window:
  assumes "telemetryInv L K db"
  shows "\<exists>hs. TelemetryList L now cat db = Inr hs \<and>
           ((\<exists>d. TelemetryDetail L i window now cat db = Inr d) \<longleftrightarrow>
              i \<noteq> [] \<and> i \<in> ho_ID ` set hs \<and> window \<in> {''1h'', ''24h''}) \<and>
           (\<forall>d. TelemetryDetail L i window now cat db = Inr d \<longrightarrow>
              hd_Host d \<in> set hs \<and> ho_ID (hd_Host d) = i \<and> hd_Children d = filter (\<lambda>h. ho_ParentID h = i) hs \<and>
              length (hd_Samples d) = (if window = ''1h'' then 60 else 1440) \<and>
              (\<forall>k < length (hd_Samples d).
                 (let t = Truncate now minute - (int (length (hd_Samples d)) - 1 - int k) * minute in
                  hd_Samples d ! k =
                    \<lparr>sa_At = t, sa_Metrics = (case tbl_get sampleKey (i, sampleMinute t) (td_samples db) of
                                                Some s \<Rightarrow> the (sm_Metrics s) | None \<Rightarrow> noMetrics)\<rparr>)))"
proof -
  have ok: "hostsOK L K db" using assms by (simp add: telemetryInv_def)
  obtain hs where hs: "TelemetryList L now cat db = Inr hs" using TelemetryList_spec [OF ok] by blast
  have metrics: "\<not> list_ex (\<lambda>s. sm_Metrics s = None) (filter P (td_samples db))" for P
    using hostsOKD(6) [OF ok] by (auto simp: list_ex_iff)
  have sample: "sampleAt i db t = \<lparr>sa_At = t, sa_Metrics = (case tbl_get sampleKey (i, sampleMinute t) (td_samples db) of
      Some s \<Rightarrow> the (sm_Metrics s) | None \<Rightarrow> noMetrics)\<rparr>" for t
    using hostsOKD(6) [OF ok] by (force simp: sampleAt_def split: option.split dest!: tbl_get_Some)
  have found: "find (\<lambda>h. ho_ID h = i) (rev hs) = None \<longleftrightarrow> i \<notin> ho_ID ` set hs" by (auto simp: find_None_all)
  have detail: "TelemetryDetail L i window now cat db = Inr d \<longleftrightarrow>
      (\<exists>h hours. find (\<lambda>h. ho_ID h = i) (rev hs) = Some h \<and> i \<noteq> [] \<and> windowHours window = Some hours \<and>
         d = \<lparr>hd_Host = h, hd_Children = filter (\<lambda>c. ho_ParentID c = i) hs,
              hd_Samples = map (sampleAt i db) (minutesUpTo (Truncate now minute - hours * hour + minute) (Truncate now minute)),
              hd_Range = window\<rparr>)" for d
    unfolding TelemetryDetail_def hs sum.case Let_def if_not_P [OF metrics] by (auto split: option.splits)
  have "(\<exists>d. TelemetryDetail L i window now cat db = Inr d) \<longleftrightarrow> i \<noteq> [] \<and> i \<in> ho_ID ` set hs \<and> window \<in> {''1h'', ''24h''}"
    using found unfolding detail by (auto simp: windowHours_def)
  moreover have "hd_Host d \<in> set hs \<and> ho_ID (hd_Host d) = i \<and> hd_Children d = filter (\<lambda>h. ho_ParentID h = i) hs \<and>
      length (hd_Samples d) = (if window = ''1h'' then 60 else 1440) \<and>
      (\<forall>k < length (hd_Samples d).
         (let t = Truncate now minute - (int (length (hd_Samples d)) - 1 - int k) * minute in
          hd_Samples d ! k =
            \<lparr>sa_At = t, sa_Metrics = (case tbl_get sampleKey (i, sampleMinute t) (td_samples db) of
                                        Some s \<Rightarrow> the (sm_Metrics s) | None \<Rightarrow> noMetrics)\<rparr>))"
    if d: "TelemetryDetail L i window now cat db = Inr d" for d
  proof -
    from d obtain h hours where h: "find (\<lambda>h. ho_ID h = i) (rev hs) = Some h" and w: "windowHours window = Some hours"
      and d': "hd_Host d = h" "hd_Children d = filter (\<lambda>c. ho_ParentID c = i) hs"
        "hd_Samples d = map (sampleAt i db) (map (\<lambda>k. Truncate now minute - (60 * hours - 1 - int k) * minute) [0..<nat (60 * hours)])"
      unfolding detail using window_minutes [of window] by auto
    have len: "hours = (if window = ''1h'' then 1 else 24)" "int (length (hd_Samples d)) = 60 * hours"
      using w unfolding d'(3) by (auto simp: windowHours_def split: if_splits)
    then have "int (length (hd_Samples d)) = int (if window = ''1h'' then 60 else 1440)" by simp
    then have "length (hd_Samples d) = (if window = ''1h'' then 60 else 1440)" by (simp only: int_int_eq)
    moreover have "h \<in> set hs \<and> ho_ID h = i" using find_Some_in_set [OF h] by simp
    ultimately show ?thesis unfolding len(2) using d' by (simp add: sample Let_def)
  qed
  ultimately show ?thesis using hs by blast
qed

section \<open>Evaluations\<close>

definition piSource :: TelemetrySource where
  "piSource = \<lparr>ts_Kind = ''container'', ts_ID = ''pi''\<rparr>"

definition piBatch :: Batch where
  "piBatch =
     \<lparr>ba_Source = piSource, ba_ObservedAt = minute,
      ba_Hosts = [\<lparr>ob_Node = [], ob_Architecture = [], ob_InventoryAvailable = False, ob_Ready = [],
                   ob_Metrics = \<lparr>mt_CPUPercent = Some (Finite 5), mt_MemoryUsed = Some 1, mt_MemoryTotal = Some 2\<rparr>,
                   ob_Workloads = None\<rparr>]\<rparr>"

lemma piBatch_valid: "BatchValidate minute piBatch = None"
proof -
  have "TrimSpace ''pi'' = ''pi''" by (intro TrimSpace_trimmed plain_trimmed; simp)
  moreover have "\<not> list_ex (\<lambda>(r, w). IsControl r) (runes_of ''pi'')" by code_simp
  ultimately show ?thesis
    by (simp add: BatchValidate_def piBatch_def piSource_def validText_def validateObservation_def MetricsValidate_def
        workloadsOf_def IsZero_def zero_time_def time_units)
qed

lemma piBatch_ingest:
  "\<exists>db. TelemetryIngest evalLib piBatch minute emptyTelemetry = Inr db \<and> td_hosts db \<noteq> []"
  by (simp add: TelemetryIngest_def piBatch_valid, simp add: piBatch_def lastObserved_def emptyTelemetry_def tbl_get_def
      deleteHosts_def deleteSamples_def ingestHost_def sourceCount_def tbl_upsert_def tbl_delete_def Let_def time_units)

lemma piBatch_keys:
  "inj_on (identifierOf evalLib) {(piSource, [])}"
  "\<forall>o' \<in> set (ba_Hosts piBatch). (ba_Source piBatch, ob_Node o') \<in> {(piSource, [])}"
  by (simp_all add: piBatch_def)

lemma telemetry_reachable_inv_witness:
  "\<exists>db. TelemetryIngest evalLib piBatch minute emptyTelemetry = Inr db \<and> td_hosts db \<noteq> [] \<and>
     telemetryInv evalLib {(piSource, [])} db \<and> (\<exists>hs. TelemetryList evalLib minute emptyCatalog db = Inr hs)"
proof -
  obtain db where db: "TelemetryIngest evalLib piBatch minute emptyTelemetry = Inr db" "td_hosts db \<noteq> []"
    using piBatch_ingest by blast
  have "telemetryStep evalLib {(piSource, [])} emptyTelemetry db"
    by (rule telemetryStep.ingest [OF piBatch_keys(2) db(1)])
  then have "(telemetryStep evalLib {(piSource, [])})\<^sup>*\<^sup>* emptyTelemetry db" by (rule r_into_rtranclp)
  from telemetry_reachable_inv [OF piBatch_keys(1) this, of minute emptyCatalog] db show ?thesis by blast
qed

lemma emptyTelemetry_inv: "telemetryInv L K emptyTelemetry"
  by (simp add: telemetryInv_def hostsOK_def emptyTelemetry_def sourceCount_def)

lemma ingested_batch_is_shown_witness:
  "\<exists>db hs. TelemetryIngest evalLib piBatch minute emptyTelemetry = Inr db \<and>
     TelemetryList evalLib minute emptyCatalog db = Inr hs \<and> ''fresh'' \<in> ho_Status ` set hs"
proof -
  obtain db where db: "TelemetryIngest evalLib piBatch minute emptyTelemetry = Inr db"
    using piBatch_ingest by blast
  have "0 < minute" by (simp add: time_units)
  note shown = ingested_batch_is_shown [OF emptyTelemetry_inv piBatch_keys(1) this piBatch_keys(2) db, of emptyCatalog]
  have later: "\<not> ba_ObservedAt piBatch \<le> lastObserved evalLib (ba_Source piBatch) emptyTelemetry"
    by (simp add: piBatch_def lastObserved_def emptyTelemetry_def tbl_get_def time_units)
  have fresh: "\<not> 3 * minute < minute - ba_ObservedAt piBatch" by (simp add: piBatch_def time_units)
  obtain o' where o': "o' \<in> set (ba_Hosts piBatch)" "mt_CPUPercent (ob_Metrics o') = Some (Finite 5)"
      "mt_MemoryUsed (ob_Metrics o') = Some 1" "mt_MemoryTotal (ob_Metrics o') = Some 2"
    by (simp add: piBatch_def)
  from shown [unfolded if_not_P [OF later]] o' fresh
  obtain hs h where "TelemetryList evalLib minute emptyCatalog db = Inr hs" "h \<in> set hs" "ho_Status h = ''fresh''"
    by force
  with db show ?thesis by (metis imageI)
qed

lemma detail_covers_window_witness:
  "\<exists>d. TelemetryDetail evalLib (hostID evalLib piSource []) ''1h'' minute emptyCatalog
         (TelemetryRegister evalLib [piSource] emptyTelemetry) = Inr d \<and> length (hd_Samples d) = 60"
proof -
  let ?db = "TelemetryRegister evalLib [piSource] emptyTelemetry"
  have inv: "telemetryInv evalLib {(piSource, [])} ?db"
    by (rule TelemetryRegister_inv [OF emptyTelemetry_inv piBatch_keys(1)]) simp
  have "td_hosts ?db = [\<lparr>hr_ID = hostID evalLib piSource [], hr_Source = piSource, hr_Node = [], hr_ObservedAt = 0,
      hr_ReceivedAt = 0, hr_Observation = Some (jsonObservation (ho_Observation (NewHost evalLib piSource [])))\<rparr>]"
    by (simp add: TelemetryRegister_def registerSource_def emptyTelemetry_def Let_def)
  then have list: "\<exists>h. TelemetryList evalLib minute emptyCatalog ?db = Inr [h] \<and> ho_ID h = hostID evalLib piSource []"
    by (simp add: TelemetryList_def expiredHost_def discoverySources_def emptyCatalog_def SortSlice_def
        del: hostFromRow_sel(2-) One_nat_def)
  have "hostID evalLib piSource [] \<noteq> []" by code_simp
  with list show ?thesis
    using detail_covers_window [OF inv, of minute emptyCatalog "hostID evalLib piSource []" "''1h''"] by auto
qed

end
