(* ===== verification/DashboardStore.thy ===== *)
theory DashboardStore
  imports LayoutResolve CatalogService PluginStore TelemetryStore
begin

text \<open>
  The layout in SQLite (\<open>internal/adapters/sqlite/dashboard_layout.go\<close>) and the use cases of the layout
  (\<open>internal/application/dashboard/layout_service.go\<close>) on it. The database has the catalogue, the single
  row of \<open>dashboard_layout\<close>, the tables of connections, placements and selections, and the telemetry.

  The stored document is what decoding its JSON gives: \<open>None\<close> for text that \<open>DecodeLayoutJSON\<close> rejects. The
  JSON text of two documents is the same exactly when their clones are, and it has a \<open>null\<close>, which the
  decoder rejects, exactly where a slice is nil. Reserving the write lock, which retries while the
  database is busy, always succeeds here; a layout edit that panics (\<open>None\<close>) leaves the database as it was.
\<close>

section \<open>Tables\<close>

record layoutRow =
  lr_SchemaVersion :: int
  lr_Revision :: int
  lr_Document :: "LayoutDocument option"
  lr_UpdatedAt :: "time option"

record dashboard_db =
  dd_catalog :: catalog_db
  dd_layout :: "layoutRow option"
  dd_widgets :: widget_db
  dd_telemetry :: telemetry_db

record dashboard_env =
  dx_catalog :: catalog_env
  dx_layout :: layout_env
  dx_pluginTitle :: "string \<Rightarrow> string \<Rightarrow> string"

abbreviation dx_lib :: "dashboard_env \<Rightarrow> golib" where
  "dx_lib E \<equiv> lv_lib (dx_layout E)"

section \<open>The layout store\<close>

definition layoutUnavailable :: LayoutError where
  "layoutUnavailable = LayoutFailure 503 ''unavailable'' ''Layout storage or selected identities are unavailable.''"

definition layoutUnreadable :: LayoutError where
  "layoutUnreadable = LayoutFailure 503 ''layout_unreadable''
     ''Saved layout is unreadable. Use the temporary default view or restore a compatible backup.''"

text \<open>A document without nil slices, and what its stored text decodes to.\<close>

definition withoutNulls :: "LayoutDocument \<Rightarrow> bool" where
  "withoutNulls d \<longleftrightarrow>
     hl_Placements (ld_Homepage d) \<noteq> None \<and> or_IDs (hl_Ordering (ld_Homepage d)) \<noteq> None \<and>
     list_all (\<lambda>g. lg_Placements g \<noteq> None \<and> or_IDs (lg_Ordering g) \<noteq> None) (ld_Groups d)"

definition storedLayout :: "LayoutDocument \<Rightarrow> LayoutDocument option" where
  "storedLayout d = (if withoutNulls d then Some (CloneLayout d) else None)"

definition readLayout :: "golib \<Rightarrow> dashboard_db \<Rightarrow> (LayoutError, LayoutState) result" where
  "readLayout L db =
     (case dd_layout db of
        None \<Rightarrow> Inr \<lparr>ls_Revision = ''0'', ls_Document = DefaultLayout\<rparr>
      | Some r \<Rightarrow>
          if lr_SchemaVersion r \<noteq> 1 \<or> lr_Revision r < 1 then Inl layoutUnreadable
          else case lr_Document r of
              None \<Rightarrow> Inl layoutUnreadable
            | Some d \<Rightarrow>
                (case ValidateLayout L d (CloneLayout d) ([] :: unit Widget list) of
                   Inl _ \<Rightarrow> Inl layoutUnreadable
                 | Inr d' \<Rightarrow> Inr \<lparr>ls_Revision = FormatInt (lr_Revision r), ls_Document = d'\<rparr>))"

definition serviceWidget :: "Candidate \<Rightarrow> 'd Widget" where
  "serviceWidget c =
     \<lparr>wd_ID = ''service-'' @ c_ID c, wd_Kind = ''service-links'', wd_Presentation = ''card'', wd_SourceKind = ''service'',
      wd_SourceID = c_ID c, wd_Title = c_DisplayName c, wd_Data = None, wd_Error = []\<rparr>"

text \<open>\<open>COALESCE(NULLIF(h.node, ''), h.source_id, d.source_id)\<close> over the left join.\<close>

definition hostTitle :: "hostRow list \<Rightarrow> string \<Rightarrow> string" where
  "hostTitle hosts i =
     (case tbl_get hr_ID i hosts of
        None \<Rightarrow> i
      | Some h \<Rightarrow> if hr_Node h \<noteq> [] then hr_Node h else ts_ID (hr_Source h))"

definition hostWidget :: "hostRow list \<Rightarrow> string \<Rightarrow> 'd Widget" where
  "hostWidget hosts i =
     \<lparr>wd_ID = ''host-'' @ i, wd_Kind = ''host-metrics'', wd_Presentation = ''card'', wd_SourceKind = ''host'',
      wd_SourceID = i, wd_Title = hostTitle hosts i, wd_Data = None, wd_Error = []\<rparr>"

definition placementWidget :: "dashboard_env \<Rightarrow> placementRow \<Rightarrow> 'd Widget" where
  "placementWidget E p =
     (let i = ''plugin-'' @ pp_ID p; title = dx_pluginTitle E (pp_PluginID p) (pp_ContributionID p) in
      \<lparr>wd_ID = i, wd_Kind = ''plugin-widget'', wd_Presentation = ''plugin-ui'', wd_SourceKind = ''plugin'',
       wd_SourceID = pp_ID p, wd_Title = (if title \<noteq> [] then title else i), wd_Data = None, wd_Error = []\<rparr>)"

definition identities :: "dashboard_env \<Rightarrow> dashboard_db \<Rightarrow> (LayoutError, 'd Widget list) result" where
  "identities E db =
     (case listCandidates (env_lib (dx_catalog E)) False (dd_catalog db) of
        Inl _ \<Rightarrow> Inl layoutUnavailable
      | Inr cs \<Rightarrow>
          Inr (map serviceWidget (HomepageCandidates (env_lib (dx_catalog E)) (env_exposures (dx_catalog E)) cs) @
               map (hostWidget (td_hosts (dd_telemetry db))) (SelectionsList ''host'' (dd_widgets db)) @
               map (placementWidget E) (filter pp_Enabled (ListPluginPlacements (dd_widgets db)))))"

definition LayoutRead :: "dashboard_env \<Rightarrow> bool \<Rightarrow> dashboard_db \<Rightarrow> (LayoutError, LayoutState \<times> 'd Widget list) result" where
  "LayoutRead E project db =
     (case readLayout (dx_lib E) db of
        Inl e \<Rightarrow> Inl e
      | Inr state \<Rightarrow>
          if project then (case identities E db of Inl e \<Rightarrow> Inl e | Inr items \<Rightarrow> Inr (state, items))
          else Inr (state, []))"

definition LayoutReadDefault :: "dashboard_env \<Rightarrow> dashboard_db \<Rightarrow> (LayoutError, 'd Widget list) result" where
  "LayoutReadDefault E db = identities E db"

definition MaxRevision :: int where
  "MaxRevision = 2 ^ 63 - 1"

definition writeLayout :: "time \<Rightarrow> LayoutState \<Rightarrow> LayoutDocument \<Rightarrow> dashboard_db \<Rightarrow> (LayoutError, LayoutState \<times> dashboard_db) result" where
  "writeLayout now current d db =
     (if CloneLayout d = CloneLayout (ls_Document current) then Inr (current, db)
      else
        (let revision = (case ParseInt64 (ls_Revision current) of Some n \<Rightarrow> n | None \<Rightarrow> 0) in
         if revision = MaxRevision then Inl (LayoutFailure 409 ''limit_exceeded'' ''Layout revision limit reached.'')
         else
           (let row = \<lparr>lr_SchemaVersion = 1, lr_Revision = revision + 1, lr_Document = storedLayout d, lr_UpdatedAt = rfc3339 now\<rparr>;
                state = \<lparr>ls_Revision = FormatInt (revision + 1), ls_Document = d\<rparr> in
            case dd_layout db of
              None \<Rightarrow> if ls_Revision current = ''0'' then Inr (state, db\<lparr>dd_layout := Some row\<rparr>) else Inl layoutUnavailable
            | Some old \<Rightarrow>
                if ls_Revision current = ''0'' \<or> FormatInt (lr_Revision old) \<noteq> ls_Revision current then Inl layoutUnavailable
                else Inr (state, db\<lparr>dd_layout := Some (row\<lparr>lr_SchemaVersion := lr_SchemaVersion old\<rparr>)\<rparr>))))"

definition LayoutUpdate ::
    "dashboard_env \<Rightarrow> time \<Rightarrow> string \<Rightarrow> (LayoutState \<Rightarrow> 'd Widget list \<Rightarrow> layout_edit) \<Rightarrow> dashboard_db \<Rightarrow>
     (LayoutError, LayoutState \<times> dashboard_db) result option" where
  "LayoutUpdate E now expected fn db =
     (case readLayout (dx_lib E) db of
        Inl e \<Rightarrow> Some (Inl e)
      | Inr current \<Rightarrow>
          if ls_Revision current \<noteq> expected
          then Some (Inl (LayoutFailure 412 ''revision_conflict''
                      ''Layout changed. Preserve the draft and inspect the saved version.''))
          else case identities E db of
              Inl e \<Rightarrow> Some (Inl e)
            | Inr items \<Rightarrow>
                (case fn current items of
                   None \<Rightarrow> None
                 | Some (Inl e) \<Rightarrow> Some (Inl e)
                 | Some (Inr d) \<Rightarrow> Some (writeLayout now current d db)))"

section \<open>The use cases\<close>

definition LayoutsGet :: "dashboard_env \<Rightarrow> dashboard_db \<Rightarrow> (LayoutError, LayoutState) result" where
  "LayoutsGet E db =
     (case LayoutRead E False db of Inl e \<Rightarrow> Inl e | Inr (state, items :: unit Widget list) \<Rightarrow> Inr state)"

text \<open>An edit followed by the validation against the current document.\<close>

definition validatedEdit ::
    "golib \<Rightarrow> (LayoutDocument \<Rightarrow> 'd Widget list \<Rightarrow> layout_edit) \<Rightarrow> LayoutState \<Rightarrow> 'd Widget list \<Rightarrow> layout_edit" where
  "validatedEdit L fn current items =
     (case fn (CloneLayout (ls_Document current)) items of
        None \<Rightarrow> None
      | Some (Inl e) \<Rightarrow> Some (Inl e)
      | Some (Inr d) \<Rightarrow> Some (ValidateLayout L d (ls_Document current) items))"

definition changeLayout ::
    "dashboard_env \<Rightarrow> time \<Rightarrow> string \<Rightarrow> (LayoutDocument \<Rightarrow> unit Widget list \<Rightarrow> layout_edit) \<Rightarrow> dashboard_db \<Rightarrow>
     (LayoutError, LayoutState \<times> dashboard_db) result option" where
  "changeLayout E now revision fn db = LayoutUpdate E now revision (validatedEdit (dx_lib E) fn) db"

definition LayoutsReplace :: "dashboard_env \<Rightarrow> time \<Rightarrow> string \<Rightarrow> LayoutDocument \<Rightarrow> dashboard_db \<Rightarrow> (LayoutError, LayoutState \<times> dashboard_db) result option" where
  "LayoutsReplace E now revision d db = changeLayout E now revision (\<lambda>_ _. Some (Inr (CloneLayout d))) db"

definition LayoutsOrderGroups :: "dashboard_env \<Rightarrow> time \<Rightarrow> string \<Rightarrow> Ordering \<Rightarrow> dashboard_db \<Rightarrow> (LayoutError, LayoutState \<times> dashboard_db) result option" where
  "LayoutsOrderGroups E now revision ord db = changeLayout E now revision (\<lambda>d _. Some (orderGroups ord d)) db"

definition LayoutsOrderItems ::
    "dashboard_env \<Rightarrow> time \<Rightarrow> string \<Rightarrow> string \<Rightarrow> string \<Rightarrow> Ordering \<Rightarrow> dashboard_db \<Rightarrow> (LayoutError, LayoutState \<times> dashboard_db) result option" where
  "LayoutsOrderItems E now revision gid token ord db =
     changeLayout E now revision (orderItems (dx_layout E) gid token ord) db"

definition LayoutsMove ::
    "dashboard_env \<Rightarrow> time \<Rightarrow> string \<Rightarrow> string \<Rightarrow> LayoutMove \<Rightarrow> dashboard_db \<Rightarrow> (LayoutError, LayoutState \<times> dashboard_db) result option" where
  "LayoutsMove E now revision item m db = changeLayout E now revision (moveItem (dx_layout E) item m) db"

record LayoutPreviewRequest =
  pr_RequestID :: string
  pr_DraftGeneration :: int
  pr_ExpectedRevision :: string
  pr_Document :: LayoutDocument

record LayoutPreview =
  pv_RequestID :: string
  pv_DraftGeneration :: int
  pv_LayoutRevision :: string
  pv_Document :: LayoutDocument
  pv_ResolvedGroups :: "ResolvedGroup list"
  pv_MembershipTokens :: smap
  pv_Stale :: bool

definition underDocument :: "LayoutError \<Rightarrow> LayoutError" where
  "underDocument e = e\<lparr>le_FieldErrors := map_option (map (\<lambda>(p, m). (''/document'' @ p, m))) (le_FieldErrors e)\<rparr>"

definition LayoutsPreview :: "dashboard_env \<Rightarrow> LayoutPreviewRequest \<Rightarrow> dashboard_db \<Rightarrow> (LayoutError, LayoutPreview) result option" where
  "LayoutsPreview E r db =
     (if uuid_parse (dx_lib E) (pr_RequestID r) = None \<or> pr_DraftGeneration r < 0 \<or>
         pr_DraftGeneration r > 9007199254740991 \<or> \<not> ValidLayoutRevision (pr_ExpectedRevision r)
      then Some (Inl (LayoutFailure 400 ''invalid_request'' ''Invalid preview identity, generation or revision.''))
      else case LayoutRead E True db of
          Inl e \<Rightarrow> Some (Inl e)
        | Inr (current, items :: unit Widget list) \<Rightarrow>
            (case ValidateLayout (dx_lib E) (CloneLayout (pr_Document r)) (ls_Document current) items of
               Inl e \<Rightarrow> Some (Inl (underDocument e))
             | Inr d \<Rightarrow>
                 (case ResolveLayout (dx_layout E) d items of
                    None \<Rightarrow> None
                  | Some (groups, tokens) \<Rightarrow>
                      Some (Inr \<lparr>pv_RequestID = pr_RequestID r, pv_DraftGeneration = pr_DraftGeneration r,
                                 pv_LayoutRevision = ls_Revision current, pv_Document = d, pv_ResolvedGroups = groups,
                                 pv_MembershipTokens = tokens, pv_Stale = (ls_Revision current \<noteq> pr_ExpectedRevision r)\<rparr>))))"

section \<open>What is stored can be read\<close>

abbreviation exactText :: "LayoutDocument \<Rightarrow> bool" where
  "exactText d \<equiv> CloneLayout d = d"

lemma layoutOK_withoutNulls:
  assumes "layoutOK L d"
  shows "withoutNulls d"
proof -
  have "ld_Groups d \<noteq> []" using assms by (auto simp: layoutOK_def)
  then have "set (groupIDs d) \<noteq> {}" by (simp add: groupIDs_def)
  moreover have "hp_GroupID ` set (elems (hl_Placements (ld_Homepage d))) = set (groupIDs d)"
    using assms by (simp add: layoutOK_def homepageOK_def)
  ultimately have "hl_Placements (ld_Homepage d) \<noteq> None" by (cases "hl_Placements (ld_Homepage d)") auto
  with assms show ?thesis
    by (auto simp: withoutNulls_def layoutOK_def homepageOK_def groupOK_def orderOK_def list_all_iff)
qed

lemma readLayout_stored:
  assumes "layoutOK L d" and "normalLayout d = d" and "exactText d" and "lr_SchemaVersion r = 1" and "1 \<le> lr_Revision r"
    and "lr_Document r = storedLayout d"
  shows "readLayout L (db\<lparr>dd_layout := Some r\<rparr>) = Inr \<lparr>ls_Revision = FormatInt (lr_Revision r), ls_Document = d\<rparr>"
proof -
  have "ValidateLayout L d d ([] :: unit Widget list) = Inr d"
    using assms(1,2) by (simp add: ValidateLayout_iff successorOK_refl)
  then show ?thesis
    using assms by (simp add: readLayout_def storedLayout_def layoutOK_withoutNulls)
qed

lemma readLayout_shape:
  assumes "readLayout L db = Inr s"
  shows "layoutOK L (ls_Document s) \<and> normalLayout (ls_Document s) = ls_Document s \<and>
         (dd_layout db = None \<and> ls_Revision s = ''0'' \<or>
          (\<exists>r. dd_layout db = Some r \<and> lr_SchemaVersion r = 1 \<and> 1 \<le> lr_Revision r \<and> ls_Revision s = FormatInt (lr_Revision r)))"
proof (cases "dd_layout db")
  case None
  with assms show ?thesis by (auto simp: readLayout_def DefaultLayout_OK DefaultLayout_normal)
next
  case (Some r)
  with assms obtain d where r: "lr_SchemaVersion r = 1" "1 \<le> lr_Revision r" "lr_Document r = Some d"
    and v: "ValidateLayout L d (CloneLayout d) ([] :: unit Widget list) = Inr (ls_Document s)"
    and s: "ls_Revision s = FormatInt (lr_Revision r)"
    by (auto simp: readLayout_def split: option.splits sum.splits if_splits)
  have "layoutOK L d" "ls_Document s = normalLayout d" using v by (simp_all add: ValidateLayout_iff)
  then show ?thesis using Some r s by (simp add: layoutOK_normal normalLayout_idem)
qed

lemma readLayout_revision:
  assumes "readLayout L db = Inr s"
  shows "0 \<le> revisionNumber (ls_Revision s) \<and> revisionNumber (ls_Revision s) \<le> MaxRevision"
proof -
  have "''0'' = FormatInt 0" by code_simp
  moreover have "ls_Revision s = ''0'' \<or> (\<exists>n \<ge> 1. ls_Revision s = FormatInt n)" using readLayout_shape [OF assms] by blast
  ultimately obtain k where "0 \<le> k" "ls_Revision s = FormatInt k" by (metis order.refl order.trans zero_le_one)
  then show ?thesis by (simp add: revisionNumber_FormatInt MaxRevision_def)
qed

lemma writeLayout_parts:
  assumes "CloneLayout d \<noteq> CloneLayout (ls_Document s)" and "writeLayout now s d db = Inr (s', db')"
  shows "revisionNumber (ls_Revision s) \<noteq> MaxRevision \<and>
         s' = \<lparr>ls_Revision = FormatInt (revisionNumber (ls_Revision s) + 1), ls_Document = d\<rparr> \<and>
         (\<exists>r. db' = db\<lparr>dd_layout := Some r\<rparr> \<and> lr_Revision r = revisionNumber (ls_Revision s) + 1 \<and>
              lr_Document r = storedLayout d \<and>
              (dd_layout db = None \<and> lr_SchemaVersion r = 1 \<or>
               (\<exists>q. dd_layout db = Some q \<and> lr_SchemaVersion r = lr_SchemaVersion q)))"
proof (cases "dd_layout db")
  case None
  with assms show ?thesis
    unfolding writeLayout_def Let_def revisionNumber_def [symmetric] by (auto split: if_splits)
next
  case (Some q)
  with assms show ?thesis
    unfolding writeLayout_def Let_def revisionNumber_def [symmetric] by (auto split: if_splits)
qed

lemma writeLayout_reads_back:
  assumes "readLayout L db = Inr s" and "layoutOK L d" and "normalLayout d = d"
    and "writeLayout now s d db = Inr (s', db')" and "exactText (ls_Document s')"
  shows "readLayout L db' = Inr s' \<and>
         (s' = s \<and> db' = db \<or> revisionNumber (ls_Revision s') = revisionNumber (ls_Revision s) + 1)"
proof (cases "CloneLayout d = CloneLayout (ls_Document s)")
  case True
  with assms(1,4) show ?thesis by (simp add: writeLayout_def)
next
  case False
  let ?n = "revisionNumber (ls_Revision s)"
  obtain r where n: "?n \<noteq> MaxRevision" and s': "s' = \<lparr>ls_Revision = FormatInt (?n + 1), ls_Document = d\<rparr>"
    and r: "db' = db\<lparr>dd_layout := Some r\<rparr>" "lr_Revision r = ?n + 1" "lr_Document r = storedLayout d"
    and "dd_layout db = None \<and> lr_SchemaVersion r = 1 \<or> (\<exists>q. dd_layout db = Some q \<and> lr_SchemaVersion r = lr_SchemaVersion q)"
    using writeLayout_parts [OF False assms(4)] by blast
  then have v: "lr_SchemaVersion r = 1" using readLayout_shape [OF assms(1)] by auto
  have range: "0 \<le> ?n" "?n + 1 < 2 ^ 63" using readLayout_revision [OF assms(1)] n by (simp_all add: MaxRevision_def)
  have "readLayout L db' = Inr s'"
    using readLayout_stored [OF assms(2,3) _ v, of db] assms(5) r s' range(1) by simp
  moreover have "revisionNumber (ls_Revision s') = ?n + 1" using s' range by (simp add: revisionNumber_FormatInt)
  ultimately show ?thesis by blast
qed

section \<open>Layouts are revisioned\<close>

definition currentLayout :: "dashboard_env \<Rightarrow> dashboard_db \<Rightarrow> (string \<times> LayoutDocument) option" where
  "currentLayout E db =
     (case LayoutsGet E db of Inr s \<Rightarrow> Some (ls_Revision s, ls_Document s) | Inl e \<Rightarrow> None)"

lemma LayoutsGet_read: "LayoutsGet E db = readLayout (dx_lib E) db"
  by (simp add: LayoutsGet_def LayoutRead_def split: sum.split)

text \<open>An edit with its clock, in the shape of the contract.\<close>

definition editLayout ::
    "dashboard_env \<Rightarrow> string \<Rightarrow> time \<times> (LayoutDocument \<Rightarrow> unit Widget list \<Rightarrow> layout_edit) \<Rightarrow> dashboard_db \<Rightarrow>
     (LayoutError, (string \<times> LayoutDocument) \<times> dashboard_db) result option" where
  "editLayout E expected c db =
     map_option (map_sum id (\<lambda>(s, db'). ((ls_Revision s, ls_Document s), db'))) (changeLayout E (fst c) expected (snd c) db)"

lemma editLayout_Inl: "editLayout E expected c db = Some (Inl e) \<longleftrightarrow> changeLayout E (fst c) expected (snd c) db = Some (Inl e)"
proof (cases "changeLayout E (fst c) expected (snd c) db")
  case (Some r)
  then show ?thesis by (cases r) (auto simp: editLayout_def split: prod.splits)
qed (simp add: editLayout_def)

lemma changeLayout_parts:
  assumes "changeLayout E now expected fn db = Some (Inr (s', db'))"
  obtains s items d where "readLayout (dx_lib E) db = Inr s" "ls_Revision s = expected" "identities E db = Inr items"
    "fn (CloneLayout (ls_Document s)) items = Some (Inr d)" "layoutOK (dx_lib E) d" "successorOK d (ls_Document s) items"
    "writeLayout now s (normalLayout d) db = Inr (s', db')"
proof -
  obtain s items d' where s: "readLayout (dx_lib E) db = Inr s" "ls_Revision s = expected" "identities E db = Inr items"
    and d': "validatedEdit (dx_lib E) fn s items = Some (Inr d')" and w: "writeLayout now s d' db = Inr (s', db')"
    using assms by (auto simp: changeLayout_def LayoutUpdate_def split: sum.splits if_splits option.splits)
  obtain d where "fn (CloneLayout (ls_Document s)) items = Some (Inr d)" "ValidateLayout (dx_lib E) d (ls_Document s) items = Inr d'"
    using d' by (auto simp: validatedEdit_def split: option.splits sum.splits)
  with s w that show ?thesis by (auto simp: ValidateLayout_iff)
qed

interpretation dashboard_layout: revisioned_resource "currentLayout E" "editLayout E" exactText revisionNumber for E
proof
  fix db r v expected and c :: "time \<times> (LayoutDocument \<Rightarrow> unit Widget list \<Rightarrow> layout_edit)"
  assume "currentLayout E db = Some (r, v)" "r \<noteq> expected"
  then obtain s where "readLayout (dx_lib E) db = Inr s" "ls_Revision s \<noteq> expected"
    by (auto simp: currentLayout_def LayoutsGet_read split: sum.splits)
  then show "\<exists>e. editLayout E expected c db = Some (Inl e)"
    by (simp add: editLayout_def changeLayout_def LayoutUpdate_def)
next
  fix db db' r' v' expected and c :: "time \<times> (LayoutDocument \<Rightarrow> unit Widget list \<Rightarrow> layout_edit)"
  assume e: "editLayout E expected c db = Some (Inr ((r', v'), db'))" and fits: "exactText v'"
  then obtain s' where c: "changeLayout E (fst c) expected (snd c) db = Some (Inr (s', db'))"
    and s': "r' = ls_Revision s'" "v' = ls_Document s'"
    by (cases "changeLayout E (fst c) expected (snd c) db" rule: option.exhaust)
       (auto simp: editLayout_def map_sum_def split: sum.splits prod.splits)
  from c obtain s items d where s: "readLayout (dx_lib E) db = Inr s" "ls_Revision s = expected"
    and d: "layoutOK (dx_lib E) d" "writeLayout (fst c) s (normalLayout d) db = Inr (s', db')"
    by (rule changeLayout_parts)
  have "readLayout (dx_lib E) db' = Inr s' \<and>
      (s' = s \<and> db' = db \<or> revisionNumber (ls_Revision s') = revisionNumber (ls_Revision s) + 1)"
    using writeLayout_reads_back [OF s(1) layoutOK_normal [OF d(1)] normalLayout_idem d(2)] fits s'(2) by simp
  with s s' show "\<exists>v. currentLayout E db = Some (expected, v) \<and> currentLayout E db' = Some (r', v') \<and>
      (r' = expected \<and> v' = v \<and> db' = db \<or> revisionNumber r' = revisionNumber expected + 1)"
    by (auto simp: currentLayout_def LayoutsGet_read)
qed

text \<open>
  C15. Layout edits are serialised by their revision. If an edit (a replacement, a new order, a move) started
  from a revision is accepted, that revision was the current one; the returned state is what the next
  read gives; and either nothing changed, or the revision is the next number and every further edit from
  the old revision is refused. Over any run of accepted edits the revision never decreases, and as long
  as it is the same the document is the same.
\<close>
theorem layout_edits_serialised:
  assumes "changeLayout E now expected fn db = Some (Inr (s', db'))" and "CloneLayout (ls_Document s') = ls_Document s'"
  shows "LayoutsGet E db' = Inr s' \<and>
         (\<exists>s. LayoutsGet E db = Inr s \<and> ls_Revision s = expected \<and>
              (s' = s \<and> db' = db \<or>
               revisionNumber (ls_Revision s') = revisionNumber expected + 1 \<and>
               (\<exists>e. changeLayout E now' expected fn' db' = Some (Inl e)))) \<and>
         (dashboard_layout.step E)\<^sup>*\<^sup>* db db' \<and>
         (\<forall>db''. (dashboard_layout.step E)\<^sup>*\<^sup>* db' db'' \<longrightarrow>
            (\<exists>s''. LayoutsGet E db'' = Inr s'' \<and>
                (s'' = s' \<or> revisionNumber (ls_Revision s') < revisionNumber (ls_Revision s''))))"
proof -
  have e: "editLayout E expected (now, fn) db = Some (Inr ((ls_Revision s', ls_Document s'), db'))"
    using assms(1) by (simp add: editLayout_def)
  have state: "LayoutsGet E x = Inr s" if "currentLayout E x = Some (ls_Revision s, ls_Document s)" for x s
    using that by (auto simp: currentLayout_def split: sum.splits)
  obtain v where v: "currentLayout E db = Some (expected, v)" and c': "currentLayout E db' = Some (ls_Revision s', ls_Document s')"
    and step: "ls_Revision s' = expected \<and> ls_Document s' = v \<and> db' = db \<or> revisionNumber (ls_Revision s') = revisionNumber expected + 1"
    using dashboard_layout.accepted [OF e assms(2)] by blast
  have cur: "LayoutsGet E db = Inr \<lparr>ls_Revision = expected, ls_Document = v\<rparr>" using v by (intro state) simp
  have "\<exists>err. changeLayout E now' expected fn' db' = Some (Inl err)" if "ls_Revision s' \<noteq> expected"
    using dashboard_layout.no_lost_update [OF e assms(2) that, of "(now', fn')"]
    by (simp add: editLayout_Inl)
  with step have change: "s' = \<lparr>ls_Revision = expected, ls_Document = v\<rparr> \<and> db' = db \<or>
      revisionNumber (ls_Revision s') = revisionNumber expected + 1 \<and> (\<exists>e. changeLayout E now' expected fn' db' = Some (Inl e))"
    by (cases "ls_Revision s' = expected") auto
  have "dashboard_layout.step E db db'" using e assms(2) unfolding dashboard_layout.step_def by blast
  then have run: "(dashboard_layout.step E)\<^sup>*\<^sup>* db db'" by (rule r_into_rtranclp)
  have later: "\<exists>s''. LayoutsGet E db'' = Inr s'' \<and> (s'' = s' \<or> revisionNumber (ls_Revision s') < revisionNumber (ls_Revision s''))"
    if r: "(dashboard_layout.step E)\<^sup>*\<^sup>* db' db''" for db''
  proof -
    obtain r2 v2 where c2: "currentLayout E db'' = Some (r2, v2)"
      and "r2 = ls_Revision s' \<and> v2 = ls_Document s' \<or> revisionNumber (ls_Revision s') < revisionNumber r2"
      using dashboard_layout.run_current [OF r c'] by blast
    moreover have "LayoutsGet E db'' = Inr \<lparr>ls_Revision = r2, ls_Document = v2\<rparr>" using c2 by (intro state) simp
    ultimately show ?thesis by (intro exI [of _ "\<lparr>ls_Revision = r2, ls_Document = v2\<rparr>"]) auto
  qed
  show ?thesis using state [OF c'] cur change run later by (intro conjI exI [of _ "\<lparr>ls_Revision = expected, ls_Document = v\<rparr>"]) auto
qed

section \<open>Evaluations\<close>

definition emptyDash :: dashboard_db where
  "emptyDash = \<lparr>dd_catalog = emptyCatalog, dd_layout = None, dd_widgets = emptyWidgets, dd_telemetry = emptyTelemetry\<rparr>"

definition evalDash :: dashboard_env where
  "evalDash = \<lparr>dx_catalog = evalEnv, dx_layout = \<lparr>lv_lib = evalLib, lv_nameKey = (\<lambda>s. s), lv_encode = evalJson\<rparr>,
               dx_pluginTitle = (\<lambda>_ _. [])\<rparr>"

lemma evalDash_identities: "identities evalDash emptyDash = (Inr [] :: (LayoutError, unit Widget list) result)"
  by code_simp

lemma evalDash_replace:
  "\<exists>db'. changeLayout evalDash 0 ''0'' (\<lambda>_ _. Some (Inr containedLayout)) emptyDash =
     Some (Inr (\<lparr>ls_Revision = ''1'', ls_Document = containedLayout\<rparr>, db'))"
proof -
  have read: "readLayout (dx_lib evalDash) emptyDash = Inr \<lparr>ls_Revision = ''0'', ls_Document = DefaultLayout\<rparr>"
    by (simp add: readLayout_def emptyDash_def)
  have valid: "ValidateLayout (dx_lib evalDash) containedLayout DefaultLayout ([] :: unit Widget list) = Inr containedLayout"
  proof -
    have "successorOK containedLayout DefaultLayout ([] :: unit Widget list)"
      by (simp add: successorOK_def groupIDs_def itemIDs_def containedLayout_def)
    then show ?thesis by (simp add: ValidateLayout_iff containedLayout_OK containedLayout_normal)
  qed
  have "hl_Width (ld_Homepage (CloneLayout DefaultLayout)) \<noteq> hl_Width (ld_Homepage containedLayout)"
    by (simp add: CloneLayout_def containedLayout_def DefaultLayout_def cloneHomepage_def toValidUTF8_ascii)
  then have "CloneLayout DefaultLayout \<noteq> containedLayout" by (rule contrapos_nn) simp
  moreover have "FormatInt 0 = ''0''" "FormatInt 1 = ''1''" by code_simp+
  moreover from this(1) have "ParseInt64 ''0'' = Some 0" using ParseInt64_FormatInt_nonneg [of 0] by simp
  moreover have "dd_layout emptyDash = None" by (simp add: emptyDash_def)
  ultimately show ?thesis
    using read valid
    by (simp add: changeLayout_def LayoutUpdate_def evalDash_identities validatedEdit_def writeLayout_def containedLayout_exact
        MaxRevision_def)
qed

lemma layout_edits_serialised_witness:
  "\<exists>db'. changeLayout evalDash 0 ''0'' (\<lambda>_ _. Some (Inr containedLayout)) emptyDash =
       Some (Inr (\<lparr>ls_Revision = ''1'', ls_Document = containedLayout\<rparr>, db')) \<and>
     LayoutsGet evalDash db' = Inr \<lparr>ls_Revision = ''1'', ls_Document = containedLayout\<rparr>"
proof -
  obtain db' where p: "changeLayout evalDash 0 ''0'' (\<lambda>_ _. Some (Inr containedLayout)) emptyDash =
      Some (Inr (\<lparr>ls_Revision = ''1'', ls_Document = containedLayout\<rparr>, db'))"
    using evalDash_replace by (elim exE)
  from layout_edits_serialised [OF p] p show ?thesis by (simp add: containedLayout_exact)
qed

end
