(* ===== verification/PluginService.thy ===== *)
theory PluginService
  imports PluginStore LayoutModel
begin

text \<open>
  The use cases of plugins (\<open>internal/application/plugins/service.go\<close>, \<open>actions.go\<close>, \<open>placements.go\<close>) on the
  tables of \<open>PluginStore\<close>. The runtime that hosts the plugin processes is a record of its operations; the
  interfaces that it may lack are of option type. The widget data of a placement is what the dashboard's
  browser code needs to address the plugin.
\<close>

section \<open>The runtime\<close>

record PluginStatus =
  st_Ready :: bool
  st_State :: string
  st_AppliedRevision :: "string option"
  st_ObservationRevision :: "string option"
  st_ObservedAt :: "time option"
  st_LastSuccessAt :: "time option"
  st_LastAttemptAt :: "time option"
  st_SourceError :: "Failure option"
  st_ConfigurationError :: "Failure option"
  st_LastConfigureAttemptAt :: "time option"

record PlacementValidator =
  va_Definitions :: "Definition list"
  va_ValidateOptions :: "string \<Rightarrow> string \<Rightarrow> string \<Rightarrow> Failure option"

record 'r ActionRuntime =
  ar_Action :: "string \<Rightarrow> string \<Rightarrow> string \<Rightarrow> string \<Rightarrow> (Failure, 'r) result"
  ar_GrantedActions :: "string \<Rightarrow> string \<Rightarrow> string list"

record ('q, 'r) plugin_runtime =
  rt_CachedStatus :: "string \<Rightarrow> string \<Rightarrow> PluginStatus \<times> string list"
  rt_Query :: "string \<Rightarrow> string \<Rightarrow> string \<Rightarrow> string \<Rightarrow> (Failure, 'q) result"
  rt_Validator :: "PlacementValidator option"
  rt_Actions :: "'r ActionRuntime option"

section \<open>Connections\<close>

record ConnectionDescriptor =
  cd_Connection :: Connection
  cd_Status :: PluginStatus
  cd_Queries :: "string list"
  cd_Actions :: "string list"

record Descriptor =
  de_ID :: string
  de_Version :: string
  de_ManifestDigest :: string
  de_Connections :: "ConnectionDescriptor list"

definition unavailableStatus :: PluginStatus where
  "unavailableStatus =
     \<lparr>st_Ready = False, st_State = ''unavailable'', st_AppliedRevision = None, st_ObservationRevision = None,
      st_ObservedAt = None, st_LastSuccessAt = None, st_LastAttemptAt = None, st_SourceError = None,
      st_ConfigurationError = None, st_LastConfigureAttemptAt = None\<rparr>"

definition describeConnection :: "('q, 'r) plugin_runtime \<Rightarrow> Connection \<Rightarrow> ConnectionDescriptor" where
  "describeConnection R c =
     (let (cached, known) = rt_CachedStatus R (cn_PluginID c) (cn_ID c);
          state = (if cn_Enabled c then cached else unavailableStatus);
          queries = (if cn_Enabled c \<and> st_Ready state then known else []) in
      \<lparr>cd_Connection = c, cd_Status = state, cd_Queries = queries,
       cd_Actions = (case rt_Actions R of
                       Some a \<Rightarrow> if cn_Enabled c \<and> st_Ready state then ar_GrantedActions a (cn_PluginID c) (cn_ID c) else []
                     | None \<Rightarrow> [])\<rparr>)"

text \<open>The loop over the connections: the descriptor of a plugin is where its first connection put it.\<close>

definition describeInto :: "('q, 'r) plugin_runtime \<Rightarrow> Connection \<Rightarrow> Descriptor list \<Rightarrow> Descriptor list" where
  "describeInto R c ds =
     (let ds' = (if cn_PluginID c \<in> de_ID ` set ds then ds
                 else ds @ [\<lparr>de_ID = cn_PluginID c, de_Version = cn_Version c, de_ManifestDigest = cn_ManifestDigest c,
                             de_Connections = []\<rparr>]) in
      map (\<lambda>d. if de_ID d = cn_PluginID c
               then (if cn_Enabled c then d\<lparr>de_Version := cn_Version c, de_ManifestDigest := cn_ManifestDigest c\<rparr> else d)
                      \<lparr>de_Connections := de_Connections d @ [describeConnection R c]\<rparr>
               else d) ds')"

definition Descriptors :: "('q, 'r) plugin_runtime \<Rightarrow> widget_db \<Rightarrow> Descriptor list" where
  "Descriptors R db = fold (describeInto R) (PluginList db) []"

definition PluginQuery ::
    "('q, 'r) plugin_runtime \<Rightarrow> string \<Rightarrow> string \<Rightarrow> string \<Rightarrow> string \<Rightarrow> widget_db \<Rightarrow> (Failure, 'q) result" where
  "PluginQuery R plugin connection operation input db =
     (case PluginGet plugin connection db of
        Inl e \<Rightarrow> Inl e
      | Inr c \<Rightarrow>
          if \<not> cn_Enabled c then Inl (Fail ''permission_denied'')
          else if length input > 65536 then Inl (Fail ''invalid_argument'')
          else rt_Query R plugin connection operation input)"

definition PluginAction ::
    "('q, 'r) plugin_runtime \<Rightarrow> string \<Rightarrow> string \<Rightarrow> string \<Rightarrow> string \<Rightarrow> widget_db \<Rightarrow> (Failure, 'r) result" where
  "PluginAction R plugin connection operation input db =
     (case PluginGet plugin connection db of
        Inl e \<Rightarrow> Inl e
      | Inr c \<Rightarrow>
          if \<not> cn_Enabled c then Inl (Fail ''permission_denied'')
          else (case rt_Actions R of
                  None \<Rightarrow> Inl (Fail ''permission_denied'')
                | Some a \<Rightarrow>
                    if length input > 65536 then Inl (Fail ''invalid_argument'')
                    else ar_Action a plugin connection operation input))"

section \<open>Placements\<close>

definition pluginDefinitions :: "('q, 'r) plugin_runtime \<Rightarrow> Definition list" where
  "pluginDefinitions R = (case rt_Validator R of Some v \<Rightarrow> va_Definitions v | None \<Rightarrow> [])"

text \<open>What a placement must satisfy unless the request only disables it.\<close>

definition checkPlacement :: "('q, 'r) plugin_runtime \<Rightarrow> PlacementBody \<Rightarrow> widget_db \<Rightarrow> Failure option" where
  "checkPlacement R b db =
     (case PluginGet (pb_PluginID b) (pb_ConnectionID b) db of
        Inl e \<Rightarrow> Some e
      | Inr c \<Rightarrow>
          if \<not> cn_Enabled c then Some (Fail ''conflict'')
          else (case rt_Validator R of
                  None \<Rightarrow> Some (Fail ''unavailable'')
                | Some v \<Rightarrow> va_ValidateOptions v (pb_PluginID b) (pb_ContributionID b) (pb_Options b)))"

definition disabling :: "plugin_env \<Rightarrow> PlacementBody \<Rightarrow> (Failure, Placement) result \<Rightarrow> bool" where
  "disabling E b found =
     (case found of
        Inl e \<Rightarrow> False
      | Inr p \<Rightarrow>
          \<not> pb_Enabled b \<and> pb_PluginID (pm_Body p) = pb_PluginID b \<and> pb_ConnectionID (pm_Body p) = pb_ConnectionID b \<and>
          pb_ContributionID (pm_Body p) = pb_ContributionID b \<and> equalOptions E (pb_Options (pm_Body p)) (pb_Options b))"

definition PutPlacement ::
    "plugin_env \<Rightarrow> ('q, 'r) plugin_runtime \<Rightarrow> string \<Rightarrow> string \<Rightarrow> PlacementBody \<Rightarrow> string \<Rightarrow> widget_db \<Rightarrow>
     (Failure, (Placement \<times> bool) \<times> widget_db) result" where
  "PutPlacement E R now i b match db =
     (if uuid_parse (px_lib E) i = None then Inl (Fail ''invalid_argument'')
      else
        (let found = StorePlacement E i db in
         case found of
           Inl e \<Rightarrow>
             if ErrorCode e \<noteq> ''not_found'' then Inl e
             else (case checkPlacement R b db of
                     Some e \<Rightarrow> Inl e
                   | None \<Rightarrow>
                       (case CanonicalOptions E (pb_Options b) of
                          Inl e \<Rightarrow> Inl e
                        | Inr options \<Rightarrow> StorePutPlacement E now i (b\<lparr>pb_Options := options\<rparr>) match db))
         | Inr p \<Rightarrow>
             (case (if disabling E b found then None else checkPlacement R b db) of
                Some e \<Rightarrow> Inl e
              | None \<Rightarrow>
                  (case CanonicalOptions E (pb_Options b) of
                     Inl e \<Rightarrow> Inl e
                   | Inr options \<Rightarrow> StorePutPlacement E now i (b\<lparr>pb_Options := options\<rparr>) match db))))"

section \<open>The provider of the dashboard\<close>

record PluginData =
  pd_PluginID :: string
  pd_ConnectionID :: string
  pd_ContributionID :: string
  pd_PlacementID :: string
  pd_PlacementRevision :: string
  pd_ObservationRevision :: string
  pd_ManifestDigest :: string
  pd_Available :: bool

definition placementTitle :: "Definition list \<Rightarrow> PlacementBody \<Rightarrow> string" where
  "placementTitle ds b =
     (case find (\<lambda>d. df_PluginID d = pb_PluginID b \<and> df_ContributionID d = pb_ContributionID b) (rev ds) of
        Some d \<Rightarrow> df_Title d
      | None \<Rightarrow> ''Unavailable plugin widget'')"

definition pluginWidget :: "('q, 'r) plugin_runtime \<Rightarrow> (PluginData \<Rightarrow> 'd) \<Rightarrow> widget_db \<Rightarrow> Placement \<Rightarrow> 'd Widget" where
  "pluginWidget R wrap db p =
     (let b = pm_Body p;
          (status, queries) = rt_CachedStatus R (pb_PluginID b) (pb_ConnectionID b);
          connection = PluginGet (pb_PluginID b) (pb_ConnectionID b) db;
          available = (case connection of Inr c \<Rightarrow> cn_Enabled c \<and> st_Ready status | Inl e \<Rightarrow> False) in
      \<lparr>wd_ID = [], wd_Kind = ''plugin-widget'', wd_Presentation = ''plugin-ui'', wd_SourceKind = [],
       wd_SourceID = pm_PlacementID p, wd_Title = placementTitle (pluginDefinitions R) b,
       wd_Data = Some (wrap \<lparr>pd_PluginID = pb_PluginID b, pd_ConnectionID = pb_ConnectionID b,
         pd_ContributionID = pb_ContributionID b, pd_PlacementID = pm_PlacementID p, pd_PlacementRevision = pm_Revision p,
         pd_ObservationRevision = (case st_ObservationRevision status of Some r \<Rightarrow> r | None \<Rightarrow> []),
         pd_ManifestDigest = (case connection of Inr c \<Rightarrow> cn_ManifestDigest c | Inl e \<Rightarrow> []),
         pd_Available = available\<rparr>),
       wd_Error = (if available then [] else ''Plugin unavailable'')\<rparr>)"

definition pluginSelected ::
    "plugin_env \<Rightarrow> ('q, 'r) plugin_runtime \<Rightarrow> (PluginData \<Rightarrow> 'd) \<Rightarrow> widget_db \<Rightarrow> 'd Widget list" where
  "pluginSelected E R wrap db =
     map (pluginWidget R wrap db) (filter (\<lambda>p. pb_Enabled (pm_Body p)) (StorePlacements E db))"

section \<open>Repeating a creation\<close>

lemma ErrorCode_not_found [simp]: "ErrorCode (Fail ''not_found'') = ''not_found''"
  by (simp add: ErrorCode_def Fail_code failureMessages_def)

lemma StorePlacement_Inl: "StorePlacement E i db = Inl e \<longleftrightarrow> tbl_get pp_ID i (wg_placements db) = None \<and> e = Fail ''not_found''"
  by (auto simp: StorePlacement_def split: option.splits)

lemma put_created:
  assumes "StorePutPlacement E now i b match db = Inr ((p, True), db')"
  shows "match = [] \<and> tbl_get pp_ID i (wg_placements db) = None \<and>
         (\<exists>r. tbl_get pp_ID i (wg_placements db') = Some r \<and> p = scanPlacement E r \<and> pm_Body p = b \<and>
              wg_connections db' = wg_connections db)"
  using assms
  by (auto simp: StorePutPlacement_def insertPlacement_def StorePlacement_def scanPlacement_def Let_def tbl_get_append
      split: option.splits if_splits sum.splits) (auto simp: tbl_get_def)

lemma PluginGet_connections: "wg_connections db' = wg_connections db \<Longrightarrow> PluginGet plugin i db' = PluginGet plugin i db"
  by (simp add: PluginGet_def)

text \<open>
  Repeating the request that created a placement. As long as the canonical text of its options is not longer
  than the 64 KiB the texts may have, the repetition is answered with the placement that was created and
  changes nothing. Encoding can make the text longer than the one that was sent; then the repetition is refused
  as a conflict, although the request is the same. Decoding the encoded options is assumed to give them again.
\<close>
theorem repeated_creation:
  assumes "PutPlacement E R now i b [] db = Inr ((p, True), db')"
    and "CanonicalOptions E (pb_Options b) = Inr options" and "px_decode E options = px_decode E (pb_Options b)"
    and "px_decode E [] = None"
  shows "StorePlacement E i db' = Inr p \<and> pm_Body p = b\<lparr>pb_Options := options\<rparr> \<and>
         PutPlacement E R later i b [] db' =
           (if length options \<le> MaxOptionsBytes then Inr ((p, False), db') else Inl (Fail ''conflict''))"
proof -
  let ?b = "b\<lparr>pb_Options := options\<rparr>"
  have put: "StorePutPlacement E now i ?b [] db = Inr ((p, True), db')"
    and check: "\<And>e. StorePlacement E i db = Inl e \<Longrightarrow> checkPlacement R b db = None"
    using assms(1,2) by (auto simp: PutPlacement_def Let_def split: if_splits sum.splits option.splits)
  obtain r where r: "tbl_get pp_ID i (wg_placements db) = None" "tbl_get pp_ID i (wg_placements db') = Some r"
      "p = scanPlacement E r" "pm_Body p = ?b" "wg_connections db' = wg_connections db"
    using put_created [OF put] by blast
  have check': "checkPlacement R b db' = None"
    using check r(1) PluginGet_connections [OF r(5)] by (simp add: checkPlacement_def StorePlacement_def)
  obtain ms where ms: "px_decode E options = Some (JvObj ms)" "options = px_encode E (JvObj ms)"
    using assms(2,3) by (auto simp: CanonicalOptions_Inr)
  then have "options \<noteq> []" using assms(4) by auto
  then have canonical: "CanonicalOptions E options = (if length options \<le> MaxOptionsBytes then Inr options else Inl (Fail ''invalid_argument''))"
    using ms by (auto simp: CanonicalOptions_def)
  have same: "SamePlacement E ?b ?b \<longleftrightarrow> length options \<le> MaxOptionsBytes"
    using ms(1) by (simp add: SamePlacement_def canonical equalOptions_refl)
  have old: "pm_Body (scanPlacement E r) = ?b" using r(3,4) by simp
  have uuid: "uuid_parse (px_lib E) i \<noteq> None" using assms(1) by (auto simp: PutPlacement_def split: if_splits)
  have "PutPlacement E R later i b [] db' = StorePutPlacement E later i ?b [] db'"
    using uuid check' assms(2) r(2) by (auto simp: PutPlacement_def StorePlacement_def)
  also have "\<dots> = (if length options \<le> MaxOptionsBytes then Inr ((p, False), db') else Inl (Fail ''conflict''))"
    unfolding StorePutPlacement_def r(2) option.case Let_def old same by (simp add: r(3))
  finally show ?thesis using r(2-4) by (simp add: StorePlacement_def)
qed

section \<open>Evaluations\<close>

definition evalRuntime :: "(unit, unit) plugin_runtime" where
  "evalRuntime =
     \<lparr>rt_CachedStatus = (\<lambda>_ _. (unavailableStatus, [])), rt_Query = (\<lambda>_ _ _ _. Inr ()),
      rt_Validator = Some \<lparr>va_Definitions = [], va_ValidateOptions = (\<lambda>_ _ _. None)\<rparr>, rt_Actions = None\<rparr>"

text \<open>The encoder doubles a text of one character, as escapes do.\<close>

definition doublingPlugins :: plugin_env where
  "doublingPlugins = evalPlugins
     \<lparr>px_decode := \<lambda>s. if s = [] then None else Some (JvObj [([hd s], JvNull)]),
      px_encode := \<lambda>v. case v of JvObj ((k, x) # ms) \<Rightarrow> k @ k | _ \<Rightarrow> []\<rparr>"

lemma repeated_creation_witness:
  "\<exists>p db'. PutPlacement doublingPlugins evalRuntime ''t'' ''x'' sampleBody [] connectedDb = Inr ((p, True), db') \<and>
     PutPlacement doublingPlugins evalRuntime ''u'' ''x'' sampleBody [] db' = Inr ((p, False), db')"
proof -
  have opts: "CanonicalOptions doublingPlugins (pb_Options sampleBody) = Inr ''oo''"
    by (simp add: CanonicalOptions_def MaxOptionsBytes_def doublingPlugins_def evalPlugins_def sampleBody_def)
  have "checkPlacement evalRuntime sampleBody connectedDb = None"
    by (simp add: checkPlacement_def PluginGet_def connectedDb_def emptyWidgets_def provisionRow_def sampleProvision_def
        sampleBody_def scanPlugin_def evalRuntime_def)
  moreover have "StorePlacement doublingPlugins ''x'' connectedDb = Inl (Fail ''not_found'')"
    by (simp add: StorePlacement_def connectedDb_def emptyWidgets_def tbl_get_def)
  moreover have "uuid_parse (px_lib doublingPlugins) ''x'' \<noteq> None"
    by (simp add: doublingPlugins_def evalPlugins_def evalLib_def)
  moreover have "\<exists>p db'. StorePutPlacement doublingPlugins ''t'' ''x'' (sampleBody\<lparr>pb_Options := ''oo''\<rparr>) [] connectedDb = Inr ((p, True), db')"
    by (simp add: StorePutPlacement_def insertPlacement_def StorePlacement_def connectedDb_def emptyWidgets_def tbl_get_def
        widgetCount_def sampleBody_def)
  ultimately obtain p db' where put: "PutPlacement doublingPlugins evalRuntime ''t'' ''x'' sampleBody [] connectedDb = Inr ((p, True), db')"
    using opts by (auto simp: PutPlacement_def)
  have "px_decode doublingPlugins ''oo'' = px_decode doublingPlugins (pb_Options sampleBody)" "px_decode doublingPlugins [] = None"
    by (simp_all add: doublingPlugins_def sampleBody_def)
  from repeated_creation [OF put opts this, of "''u''"] put show ?thesis by (auto simp: MaxOptionsBytes_def)
qed

end
