(* ===== verification/DashboardService.thy ===== *)
theory DashboardService
  imports DashboardStore PluginService
begin

text \<open>
  The dashboard (\<open>internal/application/dashboard/service.go\<close>, \<open>providers.go\<close>): the providers of services,
  hosts and plugin widgets, the selection of a source and the snapshot that the homepage shows. A
  provider is a record of its operations on the database; the data of a widget is that of its provider.
\<close>

section \<open>Providers\<close>

record HostMetrics =
  hm_ID :: string
  hm_Name :: string
  hm_Kind :: string
  hm_Status :: string
  hm_ObservedAt :: "time option"
  hm_CPU :: "float64 option"
  hm_MemoryUsed :: "int option"
  hm_MemoryTotal :: "int option"

datatype widget_data = ServiceData Candidate | HostData HostMetrics | PluginWidgetData PluginData

datatype source_error = Dashboard dashboard_error | Catalogue catalog_error | Telemetry telemetry_error

record provider =
  pv_Kind :: string
  pv_Selected :: "dashboard_db \<Rightarrow> (source_error, widget_data Widget list) result"
  pv_SetSelected :: "string \<Rightarrow> bool \<Rightarrow> dashboard_db \<Rightarrow> (source_error, dashboard_db) result"

definition sourceWidget :: "string \<Rightarrow> string \<Rightarrow> string \<Rightarrow> 'd option \<Rightarrow> string \<Rightarrow> 'd Widget" where
  "sourceWidget kind i title data problem =
     \<lparr>wd_ID = [], wd_Kind = kind, wd_Presentation = [], wd_SourceKind = [], wd_SourceID = i, wd_Title = title,
      wd_Data = data, wd_Error = problem\<rparr>"

definition serviceSelected :: "dashboard_env \<Rightarrow> dashboard_db \<Rightarrow> (source_error, widget_data Widget list) result" where
  "serviceSelected E db =
     (case ListHomepage (dx_catalog E) (sqliteStore (dx_catalog E)) (dd_catalog db) of
        Inl e \<Rightarrow> Inl (Catalogue e)
      | Inr services \<Rightarrow>
          Inr (map (\<lambda>c. sourceWidget ''service-links'' (c_ID c) (c_DisplayName c) (Some (ServiceData c)) []) services))"

definition serviceSetSelected ::
    "dashboard_env \<Rightarrow> time \<Rightarrow> string \<Rightarrow> bool \<Rightarrow> dashboard_db \<Rightarrow> (source_error, dashboard_db) result" where
  "serviceSetSelected E now i enabled db =
     (case (if enabled then Pin (dx_catalog E) (sqliteStore (dx_catalog E)) now i (dd_catalog db)
            else Unpin (dx_catalog E) (sqliteStore (dx_catalog E)) now i (dd_catalog db)) of
        Inl e \<Rightarrow> Inl (Catalogue e)
      | Inr (c, cat) \<Rightarrow> Inr (db\<lparr>dd_catalog := cat\<rparr>))"

definition serviceProvider :: "dashboard_env \<Rightarrow> time \<Rightarrow> provider" where
  "serviceProvider E now =
     \<lparr>pv_Kind = ''service'', pv_Selected = serviceSelected E, pv_SetSelected = serviceSetSelected E now\<rparr>"

definition hostMetrics :: "Host \<Rightarrow> HostMetrics" where
  "hostMetrics h =
     (let m = ob_Metrics (ho_Observation h) in
      \<lparr>hm_ID = ho_ID h, hm_Name = ho_Name h, hm_Kind = ho_Kind h, hm_Status = ho_Status h, hm_ObservedAt = ho_ObservedAt h,
       hm_CPU = mt_CPUPercent m, hm_MemoryUsed = mt_MemoryUsed m, hm_MemoryTotal = mt_MemoryTotal m\<rparr>)"

definition selectedHost :: "Host list \<Rightarrow> string \<Rightarrow> widget_data Widget" where
  "selectedHost hosts i =
     (case find (\<lambda>h. ho_ID h = i) (rev hosts) of
        Some h \<Rightarrow> sourceWidget ''host-metrics'' i (ho_Name h) (Some (HostData (hostMetrics h))) []
      | None \<Rightarrow> sourceWidget ''host-metrics'' i ''Unavailable host'' None ''Host no longer reports telemetry.'')"

definition listHosts :: "dashboard_env \<Rightarrow> time \<Rightarrow> dashboard_db \<Rightarrow> (source_error, Host list) result" where
  "listHosts E now db = map_sum Telemetry id (TelemetryList (dx_lib E) now (dd_catalog db) (dd_telemetry db))"

definition hostSelected :: "dashboard_env \<Rightarrow> time \<Rightarrow> dashboard_db \<Rightarrow> (source_error, widget_data Widget list) result" where
  "hostSelected E now db =
     (let ids = SelectionsList ''host'' (dd_widgets db) in
      if ids = [] then Inr []
      else (case listHosts E now db of Inl e \<Rightarrow> Inl e | Inr hosts \<Rightarrow> Inr (map (selectedHost hosts) ids)))"

definition hostSetSelected ::
    "dashboard_env \<Rightarrow> time \<Rightarrow> string \<Rightarrow> bool \<Rightarrow> dashboard_db \<Rightarrow> (source_error, dashboard_db) result" where
  "hostSetSelected E now i enabled db =
     (case (if enabled then (case listHosts E now db of
                               Inl e \<Rightarrow> Some e
                             | Inr hosts \<Rightarrow> fail_if (i \<notin> ho_ID ` set hosts) (Dashboard SourceNotFound))
            else None) of
        Some e \<Rightarrow> Inl e
      | None \<Rightarrow>
          (case SelectionsSet ''host'' i enabled (dd_widgets db) of
             Inl e \<Rightarrow> Inl (Dashboard e)
           | Inr w \<Rightarrow> Inr (db\<lparr>dd_widgets := w\<rparr>)))"

definition hostProvider :: "dashboard_env \<Rightarrow> time \<Rightarrow> provider" where
  "hostProvider E now = \<lparr>pv_Kind = ''host'', pv_Selected = hostSelected E now, pv_SetSelected = hostSetSelected E now\<rparr>"

definition pluginProvider :: "plugin_env \<Rightarrow> ('q, 'r) plugin_runtime \<Rightarrow> provider" where
  "pluginProvider P R =
     \<lparr>pv_Kind = ''plugin'', pv_Selected = (\<lambda>db. Inr (pluginSelected P R PluginWidgetData (dd_widgets db))),
      pv_SetSelected = (\<lambda>_ _ _. Inl (Dashboard SourceUnsupported))\<rparr>"

section \<open>The service\<close>

text \<open>\<open>New\<close> panics (\<open>None\<close>) for a provider without a kind and for a repeated kind.\<close>

definition NewDashboard :: "provider list \<Rightarrow> provider list option" where
  "NewDashboard ps = (if [] \<in> pv_Kind ` set ps \<or> \<not> distinct (map pv_Kind ps) then None else Some ps)"

record DashboardSnapshot =
  ds_Items :: "widget_data Widget list"
  ds_Unavailable :: "string list"
  ds_LayoutRevision :: string
  ds_Groups :: "DashboardGroup list"
  ds_LayoutError :: "LayoutError option"

definition providedItem :: "string \<Rightarrow> 'd Widget \<Rightarrow> 'd Widget" where
  "providedItem kind w =
     w\<lparr>wd_SourceKind := kind, wd_ID := kind @ ''-'' @ wd_SourceID w,
       wd_Presentation := (if wd_Presentation w = [] then ''card'' else wd_Presentation w)\<rparr>"

fun collectItems :: "provider list \<Rightarrow> dashboard_db \<Rightarrow> widget_data Widget list \<times> string list" where
  "collectItems [] db = ([], [])"
| "collectItems (p # ps) db =
     (let (items, missing) = collectItems ps db in
      case pv_Selected p db of
        Inl e \<Rightarrow> (items, pv_Kind p # missing)
      | Inr ws \<Rightarrow> (map (providedItem (pv_Kind p)) ws @ items, missing))"

definition observedItem :: "'d Widget list \<Rightarrow> 'd Widget \<Rightarrow> 'd Widget" where
  "observedItem observed w =
     (case find (\<lambda>x. wd_ID x = wd_ID w) (rev observed) of
        Some x \<Rightarrow> w\<lparr>wd_Data := wd_Data x, wd_Error := wd_Error x\<rparr>
      | None \<Rightarrow> w\<lparr>wd_Error := ''Source data is unavailable.''\<rparr>)"

definition layoutView :: "dashboard_env \<Rightarrow> bool \<Rightarrow> dashboard_db \<Rightarrow> (LayoutError, LayoutState \<times> widget_data Widget list) result" where
  "layoutView E defaults db =
     (if defaults
      then (case LayoutReadDefault E db of
              Inl e \<Rightarrow> Inl e
            | Inr items \<Rightarrow> Inr (\<lparr>ls_Revision = [], ls_Document = DefaultLayout\<rparr>, items))
      else LayoutRead E True db)"

definition noSnapshot :: DashboardSnapshot where
  "noSnapshot = \<lparr>ds_Items = [], ds_Unavailable = [], ds_LayoutRevision = [], ds_Groups = [], ds_LayoutError = None\<rparr>"

text \<open>\<open>layouts\<close> says whether the service has layouts; there is no snapshot where resolving the layout panics.\<close>

definition SnapshotView :: "dashboard_env \<Rightarrow> provider list \<Rightarrow> bool \<Rightarrow> bool \<Rightarrow> dashboard_db \<Rightarrow> DashboardSnapshot option" where
  "SnapshotView E providers layouts defaults db =
     (let (items, missing) = collectItems providers db in
      if \<not> layouts then Some (noSnapshot\<lparr>ds_Items := items, ds_Unavailable := missing\<rparr>)
      else (case layoutView E defaults db of
              Inl e \<Rightarrow> Some (noSnapshot\<lparr>ds_LayoutError := Some e\<rparr>)
            | Inr (state, eligible) \<Rightarrow>
                (case ResolveLayout (dx_layout E) (ls_Document state) eligible of
                   None \<Rightarrow> None
                 | Some (resolved, tokens) \<Rightarrow>
                     Some \<lparr>ds_Items = map (observedItem items) eligible, ds_Unavailable = missing,
                           ds_LayoutRevision = (if defaults then [] else ls_Revision state),
                           ds_Groups = ActiveLayoutGroups resolved, ds_LayoutError = None\<rparr>)))"

definition SetSelected ::
    "provider list \<Rightarrow> string \<Rightarrow> string \<Rightarrow> bool \<Rightarrow> dashboard_db \<Rightarrow> (source_error, dashboard_db) result" where
  "SetSelected providers kind i enabled db =
     (if i = [] \<or> length i > 128 then Inl (Dashboard SourceUnsupported)
      else (case find (\<lambda>p. pv_Kind p = kind) providers of
              Some p \<Rightarrow> pv_SetSelected p i enabled db
            | None \<Rightarrow> Inl (Dashboard SourceUnsupported)))"

definition dashboardProviders :: "dashboard_env \<Rightarrow> plugin_env \<Rightarrow> ('q, 'r) plugin_runtime \<Rightarrow> time \<Rightarrow> provider list" where
  "dashboardProviders E P R now = [serviceProvider E now, hostProvider E now, pluginProvider P R]"

section \<open>Identities\<close>

lemma SelectionsList_set: "i \<in> set (SelectionsList kind w) \<longleftrightarrow> (kind, i) \<in> set (wg_selections w)"
  by (force simp: SelectionsList_def)

lemma SelectionsList_distinct: "distinct (wg_selections w) \<Longrightarrow> distinct (SelectionsList kind w)"
  by (auto simp: SelectionsList_def distinct_map inj_on_def)

text \<open>The services of the homepage, as the store of the layout and the provider of services read them.\<close>

definition homepageServices :: "dashboard_env \<Rightarrow> dashboard_db \<Rightarrow> (catalog_error, Candidate list) result" where
  "homepageServices E db = ListHomepage (dx_catalog E) (sqliteStore (dx_catalog E)) (dd_catalog db)"

lemma homepageServices_eq:
  "homepageServices E db =
     map_sum id (HomepageCandidates (env_lib (dx_catalog E)) (env_exposures (dx_catalog E)))
       (listCandidates (env_lib (dx_catalog E)) False (dd_catalog db))"
  by (simp add: homepageServices_def ListHomepage_def sqliteStore_def split: sum.split)

lemma identities_eq:
  "identities E db = Inr items \<longleftrightarrow>
     (\<exists>cs. homepageServices E db = Inr cs \<and>
        items = map serviceWidget cs @ map (hostWidget (td_hosts (dd_telemetry db))) (SelectionsList ''host'' (dd_widgets db)) @
                map (placementWidget E) (filter pp_Enabled (ListPluginPlacements (dd_widgets db))))"
  by (auto simp: identities_def homepageServices_eq split: sum.split)

lemma widget_IDs [simp]:
  "wd_ID (serviceWidget c) = ''service-'' @ c_ID c" "wd_SourceID (serviceWidget c) = c_ID c"
  "wd_SourceKind (serviceWidget c) = ''service''"
  "wd_ID (hostWidget hosts i) = ''host-'' @ i" "wd_SourceID (hostWidget hosts i) = i" "wd_SourceKind (hostWidget hosts i) = ''host''"
  "wd_ID (placementWidget E p) = ''plugin-'' @ pp_ID p" "wd_SourceID (placementWidget E p) = pp_ID p"
  "wd_SourceKind (placementWidget E p) = ''plugin''"
  by (simp_all add: serviceWidget_def hostWidget_def placementWidget_def Let_def)

lemma identities_distinct:
  assumes "identities E db = Inr items" and "widgetInv (dd_widgets db)"
    and "\<forall>cs. homepageServices E db = Inr cs \<longrightarrow> distinct (map c_ID cs)"
  shows "distinct (map wd_ID items)"
proof -
  obtain cs where cs: "homepageServices E db = Inr cs"
    and items: "items = map serviceWidget cs @ map (hostWidget (td_hosts (dd_telemetry db))) (SelectionsList ''host'' (dd_widgets db)) @
                map (placementWidget E) (filter pp_Enabled (ListPluginPlacements (dd_widgets db)))"
    using assms(1) unfolding identities_eq by blast
  note inv = widgetInvD [OF assms(2)]
  have "distinct (map pp_ID (ListPluginPlacements (dd_widgets db)))"
    using inv(3) by (simp add: ListPluginPlacements_def unique_key_def distinct_map)
  then have "distinct (map (\<lambda>p. ''plugin-'' @ pp_ID p) (filter pp_Enabled (ListPluginPlacements (dd_widgets db))))"
    by (simp add: distinct_map inj_on_def)
  moreover have "distinct (map (\<lambda>i. ''host-'' @ i) (SelectionsList ''host'' (dd_widgets db)))"
    using SelectionsList_distinct [OF inv(5)] by (simp add: distinct_map inj_on_def)
  moreover have "distinct (map (\<lambda>c. ''service-'' @ c_ID c) cs)"
    using assms(3) cs by (auto simp: distinct_map inj_on_def)
  ultimately show ?thesis unfolding items by (auto simp: comp_def)
qed

section \<open>What providers select\<close>

lemma collectItems_mem:
  "x \<in> set (fst (collectItems ps db)) \<longleftrightarrow>
     (\<exists>p \<in> set ps. \<exists>ws. pv_Selected p db = Inr ws \<and> x \<in> providedItem (pv_Kind p) ` set ws)"
  by (induction ps db rule: collectItems.induct) (auto simp: collectItems.simps Let_def split: prod.splits sum.splits)

lemma providedItem_sel [simp]:
  "wd_ID (providedItem kind w) = kind @ ''-'' @ wd_SourceID w" "wd_Data (providedItem kind w) = wd_Data w"
  "wd_Error (providedItem kind w) = wd_Error w"
  by (simp_all add: providedItem_def)

lemma sourceWidget_sel [simp]:
  "wd_SourceID (sourceWidget kind i title data problem) = i" "wd_Data (sourceWidget kind i title data problem) = data"
  "wd_Error (sourceWidget kind i title data problem) = problem"
  by (simp_all add: sourceWidget_def)

abbreviation providedBy :: "provider list \<Rightarrow> dashboard_db \<Rightarrow> string \<Rightarrow> widget_data Widget \<Rightarrow> bool" where
  "providedBy ps db i x \<equiv> x \<in> set (fst (collectItems ps db)) \<and> wd_ID x = i"

lemma observedItem_sel [simp]: "wd_ID (observedItem xs w) = wd_ID w" "wd_SourceKind (observedItem xs w) = wd_SourceKind w"
  "wd_SourceID (observedItem xs w) = wd_SourceID w"
  by (simp_all add: observedItem_def split: option.split)

lemma observedItem_found:
  assumes "x \<in> set xs" and "wd_ID x = wd_ID w"
  obtains y where "y \<in> set xs" "wd_ID y = wd_ID w" "wd_Data (observedItem xs w) = wd_Data y" "wd_Error (observedItem xs w) = wd_Error y"
proof (cases "find (\<lambda>x. wd_ID x = wd_ID w) (rev xs)")
  case None
  with assms show ?thesis by (auto simp: find_None_all)
next
  case (Some y)
  with find_Some_in_set [OF Some] that [of y] show ?thesis by (simp add: observedItem_def)
qed

lemma observedItem_missing:
  assumes "\<forall>x \<in> set xs. wd_ID x \<noteq> wd_ID w"
  shows "wd_Data (observedItem xs w) = wd_Data w \<and> wd_Error (observedItem xs w) = ''Source data is unavailable.''"
proof -
  have "find (\<lambda>x. wd_ID x = wd_ID w) (rev xs) = None" using assms by (simp add: find_None_all)
  then show ?thesis by (simp add: observedItem_def)
qed

text \<open>The three providers: an item with the identifier of a source is that source's.\<close>

declare collectItems.simps [simp del]

lemma provided_mem:
  "x \<in> set (fst (collectItems (dashboardProviders E P R now) db)) \<longleftrightarrow>
     (\<exists>ws. serviceSelected E db = Inr ws \<and> x \<in> providedItem ''service'' ` set ws) \<or>
     (\<exists>ws. hostSelected E now db = Inr ws \<and> x \<in> providedItem ''host'' ` set ws) \<or>
     x \<in> providedItem ''plugin'' ` set (pluginSelected P R PluginWidgetData (dd_widgets db))"
  unfolding collectItems_mem dashboardProviders_def hostProvider_def pluginProvider_def serviceProvider_def by simp

lemma provided_service:
  "providedBy (dashboardProviders E P R now) db (''service-'' @ i) x \<longleftrightarrow>
     (\<exists>cs. homepageServices E db = Inr cs \<and> (\<exists>c \<in> set cs. c_ID c = i \<and>
        x = providedItem ''service'' (sourceWidget ''service-links'' (c_ID c) (c_DisplayName c) (Some (ServiceData c)) [])))"
proof -
  have sel: "(\<exists>ws. serviceSelected E db = Inr ws \<and> x \<in> providedItem ''service'' ` set ws) \<longleftrightarrow>
      (\<exists>cs. homepageServices E db = Inr cs \<and> (\<exists>c \<in> set cs.
        x = providedItem ''service'' (sourceWidget ''service-links'' (c_ID c) (c_DisplayName c) (Some (ServiceData c)) [])))"
    by (cases "homepageServices E db") (auto simp: serviceSelected_def homepageServices_def)
  show ?thesis unfolding provided_mem sel by auto
qed

lemma selectedHost_ID [simp]: "wd_SourceID (selectedHost hosts i) = i"
  by (simp add: selectedHost_def split: option.split)

lemma provided_host:
  "providedBy (dashboardProviders E P R now) db (''host-'' @ i) x \<longleftrightarrow>
     i \<in> set (SelectionsList ''host'' (dd_widgets db)) \<and>
     (\<exists>hosts. listHosts E now db = Inr hosts \<and> x = providedItem ''host'' (selectedHost hosts i))"
proof -
  have sel: "(\<exists>ws. hostSelected E now db = Inr ws \<and> x \<in> providedItem ''host'' ` set ws) \<longleftrightarrow>
      (\<exists>hosts. listHosts E now db = Inr hosts \<and> (\<exists>j \<in> set (SelectionsList ''host'' (dd_widgets db)).
         x = providedItem ''host'' (selectedHost hosts j)))"
    by (cases "listHosts E now db") (auto simp: hostSelected_def Let_def)
  show ?thesis unfolding provided_mem sel by auto
qed

lemma pluginWidget_ID [simp]: "wd_SourceID (pluginWidget R wrap w p) = pm_PlacementID p"
  by (simp add: pluginWidget_def Let_def split: prod.split)

lemma provided_plugin:
  "providedBy (dashboardProviders E P R now) db (''plugin-'' @ i) x \<longleftrightarrow>
     (\<exists>r \<in> set (wg_placements (dd_widgets db)). pp_Enabled r \<and> pp_ID r = i \<and>
        x = providedItem ''plugin'' (pluginWidget R PluginWidgetData (dd_widgets db) (scanPlacement P r)))"
proof -
  have "set (pluginSelected P R PluginWidgetData (dd_widgets db)) =
      (\<lambda>r. pluginWidget R PluginWidgetData (dd_widgets db) (scanPlacement P r)) ` {r \<in> set (wg_placements (dd_widgets db)). pp_Enabled r}"
    by (auto simp: pluginSelected_def StorePlacements_def ListPluginPlacements_def)
  then show ?thesis unfolding provided_mem by auto
qed

lemma pluginWidget_data:
  "\<exists>d. wd_Data (pluginWidget R wrap w p) = Some (wrap d) \<and> pd_PlacementID d = pm_PlacementID p"
  by (simp add: pluginWidget_def Let_def split: prod.split) (metis PluginData.select_convs(4))

lemma SelectionsSet_effect:
  assumes "SelectionsSet kind i enabled w = Inr w'"
  shows "wg_connections w' = wg_connections w \<and> wg_placements w' = wg_placements w \<and>
         (j \<in> set (SelectionsList k w') \<longleftrightarrow> (if k = kind \<and> j = i then enabled else j \<in> set (SelectionsList k w)))"
  using assms by (auto simp: SelectionsSet_def SelectionsList_set tbl_insert_ignore_def tbl_delete_def split: if_splits option.splits
      dest: tbl_get_Some)

lemma SetSelected_kind:
  assumes "SetSelected (dashboardProviders E P R now) kind i enabled db = Inr db'"
  shows "i \<noteq> [] \<and> length i \<le> 128 \<and>
         (kind = ''service'' \<and> serviceSetSelected E now i enabled db = Inr db' \<or>
          kind = ''host'' \<and> hostSetSelected E now i enabled db = Inr db')"
  using assms
  by (auto simp: SetSelected_def dashboardProviders_def serviceProvider_def hostProvider_def pluginProvider_def split: if_splits)

section \<open>What the dashboard shows\<close>

lemma shown_service:
  assumes "homepageServices E db = Inr cs" and "distinct (map c_ID cs)" and "c \<in> set cs" and "wd_ID w = ''service-'' @ c_ID c"
  shows "wd_Data (observedItem (fst (collectItems (dashboardProviders E P R now) db)) w) = Some (ServiceData c) \<and>
         wd_Error (observedItem (fst (collectItems (dashboardProviders E P R now) db)) w) = []"
proof -
  let ?x = "providedItem ''service'' (sourceWidget ''service-links'' (c_ID c) (c_DisplayName c) (Some (ServiceData c)) [])"
  let ?items = "fst (collectItems (dashboardProviders E P R now) db)"
  have "providedBy (dashboardProviders E P R now) db (''service-'' @ c_ID c) ?x"
    unfolding provided_service using assms(1,3) by blast
  then obtain y where y: "y \<in> set ?items" "wd_ID y = wd_ID w"
      "wd_Data (observedItem ?items w) = wd_Data y" "wd_Error (observedItem ?items w) = wd_Error y"
    using observedItem_found [of ?x ?items w] assms(4) by metis
  then have "providedBy (dashboardProviders E P R now) db (''service-'' @ c_ID c) y" using assms(4) by simp
  then obtain c' where "c' \<in> set cs" "c_ID c' = c_ID c"
      "y = providedItem ''service'' (sourceWidget ''service-links'' (c_ID c') (c_DisplayName c') (Some (ServiceData c')) [])"
    unfolding provided_service using assms(1) by auto
  moreover from this have "c' = c" using assms(2,3) by (auto simp: distinct_map dest: inj_onD)
  ultimately show ?thesis using y by simp
qed

lemma selectedHost_data:
  "if i \<in> ho_ID ` set hosts
   then \<exists>h \<in> set hosts. ho_ID h = i \<and> wd_Data (selectedHost hosts i) = Some (HostData (hostMetrics h)) \<and> wd_Error (selectedHost hosts i) = []
   else wd_Data (selectedHost hosts i) = None \<and> wd_Error (selectedHost hosts i) = ''Host no longer reports telemetry.''"
proof (cases "find (\<lambda>h. ho_ID h = i) (rev hosts)")
  case None
  then have "i \<notin> ho_ID ` set hosts" by (auto simp: find_None_all)
  with None show ?thesis by (simp add: selectedHost_def)
next
  case (Some h)
  with find_Some_in_set [OF Some] show ?thesis by (auto simp: selectedHost_def)
qed

definition hostShown :: "(source_error, Host list) result \<Rightarrow> string \<Rightarrow> widget_data Widget \<Rightarrow> bool" where
  "hostShown listed i w \<longleftrightarrow>
     (case listed of
        Inl e \<Rightarrow> wd_Data w = None \<and> wd_Error w = ''Source data is unavailable.''
      | Inr hosts \<Rightarrow>
          if i \<in> ho_ID ` set hosts
          then \<exists>h \<in> set hosts. ho_ID h = i \<and> wd_Data w = Some (HostData (hostMetrics h)) \<and> wd_Error w = []
          else wd_Data w = None \<and> wd_Error w = ''Host no longer reports telemetry.'')"

lemma shown_host:
  assumes "i \<in> set (SelectionsList ''host'' (dd_widgets db))" and "wd_ID w = ''host-'' @ i" and "wd_Data w = None"
  shows "hostShown (listHosts E now db) i (observedItem (fst (collectItems (dashboardProviders E P R now) db)) w)"
proof (cases "listHosts E now db")
  case (Inl e)
  then have "\<forall>x \<in> set (fst (collectItems (dashboardProviders E P R now) db)). wd_ID x \<noteq> wd_ID w"
    using provided_host [of _ E P R now db i] assms(2) by auto
  from observedItem_missing [OF this] Inl assms(3) show ?thesis by (simp add: hostShown_def)
next
  case (Inr hosts)
  let ?x = "providedItem ''host'' (selectedHost hosts i)"
  let ?items = "fst (collectItems (dashboardProviders E P R now) db)"
  have "providedBy (dashboardProviders E P R now) db (''host-'' @ i) ?x"
    unfolding provided_host using assms(1) Inr by blast
  then obtain y where y: "y \<in> set ?items" "wd_ID y = wd_ID w"
      "wd_Data (observedItem ?items w) = wd_Data y" "wd_Error (observedItem ?items w) = wd_Error y"
    using observedItem_found [of ?x ?items w] assms(2) by metis
  then have "providedBy (dashboardProviders E P R now) db (''host-'' @ i) y" using assms(2) by simp
  then have "y = ?x" unfolding provided_host using Inr by auto
  then show ?thesis using y selectedHost_data [of i hosts] Inr by (simp add: hostShown_def)
qed

lemma shown_plugin:
  assumes "r \<in> set (wg_placements (dd_widgets db))" and "pp_Enabled r" and "wd_ID w = ''plugin-'' @ pp_ID r"
  shows "\<exists>d. wd_Data (observedItem (fst (collectItems (dashboardProviders E P R now) db)) w) = Some (PluginWidgetData d) \<and>
             pd_PlacementID d = pp_ID r"
proof -
  let ?x = "providedItem ''plugin'' (pluginWidget R PluginWidgetData (dd_widgets db) (scanPlacement P r))"
  let ?items = "fst (collectItems (dashboardProviders E P R now) db)"
  have "providedBy (dashboardProviders E P R now) db (''plugin-'' @ pp_ID r) ?x"
    unfolding provided_plugin using assms(1,2) by blast
  then obtain y where y: "y \<in> set ?items" "wd_ID y = wd_ID w" "wd_Data (observedItem ?items w) = wd_Data y"
    using observedItem_found [of ?x ?items w] assms(3) by metis
  then have "providedBy (dashboardProviders E P R now) db (''plugin-'' @ pp_ID r) y" using assms(3) by simp
  then obtain q where "pp_ID q = pp_ID r"
      "y = providedItem ''plugin'' (pluginWidget R PluginWidgetData (dd_widgets db) (scanPlacement P q))"
    unfolding provided_plugin by blast
  moreover have "pm_PlacementID (scanPlacement P q) = pp_ID q" by (simp add: scanPlacement_def)
  ultimately show ?thesis using y(3) pluginWidget_data [of R PluginWidgetData "dd_widgets db" "scanPlacement P q"] by auto
qed

text \<open>The identities that the layout shows are those of the homepage services, the selected hosts and the enabled placements.\<close>

definition shownIDs :: "Candidate list \<Rightarrow> widget_db \<Rightarrow> string set" where
  "shownIDs cs w =
     (\<lambda>c. ''service-'' @ c_ID c) ` set cs \<union> (\<lambda>i. ''host-'' @ i) ` set (SelectionsList ''host'' w) \<union>
     (\<lambda>r. ''plugin-'' @ pp_ID r) ` {r \<in> set (wg_placements w). pp_Enabled r}"

lemma shownIDs_mem:
  "c \<in> set cs \<Longrightarrow> ''service-'' @ c_ID c \<in> shownIDs cs w"
  "i \<in> set (SelectionsList ''host'' w) \<Longrightarrow> ''host-'' @ i \<in> shownIDs cs w"
  "r \<in> set (wg_placements w) \<Longrightarrow> pp_Enabled r \<Longrightarrow> ''plugin-'' @ pp_ID r \<in> shownIDs cs w"
  by (auto simp: shownIDs_def)

lemma identities_shown:
  assumes "identities E db = Inr items" and "homepageServices E db = Inr cs"
  shows "wd_ID ` set items = shownIDs cs (dd_widgets db)" and "w \<in> set items \<Longrightarrow> wd_Data w = None"
  using assms
  by (auto simp: identities_eq shownIDs_def image_Un image_image ListPluginPlacements_def serviceWidget_def hostWidget_def
      placementWidget_def Let_def)

lemma observed_at:
  assumes "k \<in> wd_ID ` set ws" and "\<And>w. w \<in> set ws \<Longrightarrow> wd_ID w = k \<Longrightarrow> Q (observedItem xs w)"
  shows "\<exists>w \<in> set (map (observedItem xs) ws). wd_ID w = k \<and> Q w"
  using assms by auto

lemma dashboard_snapshot:
  assumes "readLayout (dx_lib E) db = Inr state" and "identities E db = Inr eligible" and "distinct (map wd_ID eligible)"
    and "uuid_parse (dx_lib E) [] = None"
  shows "\<exists>groups. SnapshotView E ps True False db =
           Some \<lparr>ds_Items = map (observedItem (fst (collectItems ps db))) eligible, ds_Unavailable = snd (collectItems ps db),
                 ds_LayoutRevision = ls_Revision state, ds_Groups = ActiveLayoutGroups groups, ds_LayoutError = None\<rparr> \<and>
           mset (concat (map dg_ItemIDs (ActiveLayoutGroups groups))) = mset (map wd_ID eligible)"
proof -
  have ok: "layoutOK (dx_lib E) (ls_Document state)" using readLayout_shape [OF assms(1)] by blast
  obtain groups tokens where "ResolveLayout (dx_layout E) (ls_Document state) eligible = Some (groups, tokens)"
      "mset (concat (map dg_ItemIDs (ActiveLayoutGroups groups))) = mset (map wd_ID eligible)"
    using resolved_items_once [OF ok assms(4,3), of "dx_layout E"] by blast
  then show ?thesis
    using assms(1,2) by (auto simp: SnapshotView_def layoutView_def LayoutRead_def split: prod.split)
qed

text \<open>
  C3. The snapshot of the homepage shows every selection once, with the data of its source. If the layout can be
  read and the homepage services have distinct identifiers, a snapshot exists; its items are exactly the
  homepage services, the selected hosts and the enabled placements, each once, and its groups hold each item
  once. A service comes with its row of the catalogue, a plugin widget with its placement, a host with its
  metrics; a host that reports nothing, or telemetry that cannot be read, is said so on the item. Layout and
  sources are read from one state of the database here.
\<close>
theorem snapshot_shows_every_selection:
  assumes "readLayout (dx_lib E) db = Inr state" and "homepageServices E db = Inr cs" and "distinct (map c_ID cs)"
    and "widgetInv (dd_widgets db)" and "uuid_parse (dx_lib E) [] = None"
  shows "\<exists>snap. SnapshotView E (dashboardProviders E P R now) True False db = Some snap \<and>
           ds_LayoutError snap = None \<and> ds_LayoutRevision snap = ls_Revision state \<and>
           distinct (map wd_ID (ds_Items snap)) \<and> wd_ID ` set (ds_Items snap) = shownIDs cs (dd_widgets db) \<and>
           mset (concat (map dg_ItemIDs (ds_Groups snap))) = mset (map wd_ID (ds_Items snap)) \<and>
           (\<forall>c \<in> set cs. \<exists>w \<in> set (ds_Items snap). wd_ID w = ''service-'' @ c_ID c \<and>
              wd_Data w = Some (ServiceData c) \<and> wd_Error w = []) \<and>
           (\<forall>i \<in> set (SelectionsList ''host'' (dd_widgets db)). \<exists>w \<in> set (ds_Items snap).
              wd_ID w = ''host-'' @ i \<and> hostShown (listHosts E now db) i w) \<and>
           (\<forall>r \<in> {r \<in> set (wg_placements (dd_widgets db)). pp_Enabled r}. \<exists>w \<in> set (ds_Items snap).
              wd_ID w = ''plugin-'' @ pp_ID r \<and>
              (\<exists>d. wd_Data w = Some (PluginWidgetData d) \<and> pd_PlacementID d = pp_ID r))"
proof -
  let ?ps = "dashboardProviders E P R now"
  let ?xs = "fst (collectItems ?ps db)"
  obtain eligible :: "widget_data Widget list" where el: "identities E db = Inr eligible"
    using assms(2) by (auto simp: identities_eq)
  note ids = identities_shown [OF el assms(2)] and shown = shownIDs_mem [where cs = cs and w = "dd_widgets db"]
  have dist: "distinct (map wd_ID eligible)" using identities_distinct [OF el assms(4)] assms(2,3) by simp
  let ?snap = "\<lambda>groups. \<lparr>ds_Items = map (observedItem ?xs) eligible, ds_Unavailable = snd (collectItems ?ps db),
                 ds_LayoutRevision = ls_Revision state, ds_Groups = ActiveLayoutGroups groups, ds_LayoutError = None\<rparr>"
  obtain groups where snap: "SnapshotView E ?ps True False db = Some (?snap groups)"
    and m: "mset (concat (map dg_ItemIDs (ActiveLayoutGroups groups))) = mset (map wd_ID eligible)"
    using dashboard_snapshot [OF assms(1) el dist assms(5)] by blast
  have same: "map wd_ID (map (observedItem ?xs) eligible) = map wd_ID eligible" by simp
  have ids': "wd_ID ` set (map (observedItem ?xs) eligible) = shownIDs cs (dd_widgets db)"
    using ids(1) by (metis list.set_map same)
  have "\<exists>w \<in> set (map (observedItem ?xs) eligible). wd_ID w = ''service-'' @ c_ID c \<and>
      wd_Data w = Some (ServiceData c) \<and> wd_Error w = []" if c: "c \<in> set cs" for c
    by (intro observed_at shown_service [OF assms(2,3) c]) (simp_all only: ids(1) shown(1) [OF c])
  moreover have "\<exists>w \<in> set (map (observedItem ?xs) eligible). wd_ID w = ''host-'' @ i \<and> hostShown (listHosts E now db) i w"
    if i: "i \<in> set (SelectionsList ''host'' (dd_widgets db))" for i
    by (intro observed_at shown_host [OF i] ids(2)) (simp_all only: ids(1) shown(2) [OF i])
  moreover have "\<exists>w \<in> set (map (observedItem ?xs) eligible). wd_ID w = ''plugin-'' @ pp_ID r \<and>
      (\<exists>d. wd_Data w = Some (PluginWidgetData d) \<and> pd_PlacementID d = pp_ID r)"
    if r: "r \<in> set (wg_placements (dd_widgets db))" "pp_Enabled r" for r
    by (intro observed_at conjI shown_plugin [OF r]) (simp_all only: ids(1) shown(3) [OF r])
  ultimately show ?thesis
    using snap ids' dist m
    by (intro exI [of _ "?snap groups"]) (simp only: DashboardSnapshot.select_convs same mem_Collect_eq simp_thms, blast)
qed

text \<open>
  Selecting a source changes that source only. A host is selected only when its telemetry lists it, and the
  change is exactly its membership among the selected hosts; selecting a service pins exactly the named
  row, which the projection shows live; nothing else in the database changes. Every other kind of source,
  plugins included, is refused, and so is an empty or overlong identifier.
\<close>
theorem selection_changes_one_source:
  assumes "SetSelected (dashboardProviders E P R now) kind i enabled db = Inr db'"
    and "catalogInv (dx_catalog E) (dd_catalog db)" and "TrimSpace i = i"
  shows "dd_layout db' = dd_layout db \<and> dd_telemetry db' = dd_telemetry db \<and> i \<noteq> [] \<and> length i \<le> 128 \<and>
         (kind = ''host'' \<and> dd_catalog db' = dd_catalog db \<and>
            wg_connections (dd_widgets db') = wg_connections (dd_widgets db) \<and>
            wg_placements (dd_widgets db') = wg_placements (dd_widgets db) \<and>
            (\<forall>k j. j \<in> set (SelectionsList k (dd_widgets db')) \<longleftrightarrow>
               (if k = kind \<and> j = i then enabled else j \<in> set (SelectionsList k (dd_widgets db)))) \<and>
            (enabled \<longrightarrow> (\<exists>hosts. listHosts E now db = Inr hosts \<and> i \<in> ho_ID ` set hosts)) \<or>
          kind = ''service'' \<and> dd_widgets db' = dd_widgets db \<and>
            (enabled \<longrightarrow>
               rowPinned (dd_catalog db') i \<and> (\<forall>k. k \<noteq> i \<longrightarrow> rowPinned (dd_catalog db') k = rowPinned (dd_catalog db) k) \<and>
               (\<exists>groups g. ListStaging (dx_catalog E) (sqliteStore (dx_catalog E)) (dd_catalog db) = Inr groups \<and> g \<in> set groups \<and>
                  c_ID g = i \<and> Status g = ''live'')))"
proof -
  note kind = SetSelected_kind [OF assms(1)]
  then consider "kind = ''service''" "serviceSetSelected E now i enabled db = Inr db'"
    | "kind = ''host''" "hostSetSelected E now i enabled db = Inr db'" by blast
  then show ?thesis
  proof cases
    case 1
    then obtain c cat where run: "(if enabled then Pin (dx_catalog E) (sqliteStore (dx_catalog E)) now i (dd_catalog db)
            else Unpin (dx_catalog E) (sqliteStore (dx_catalog E)) now i (dd_catalog db)) = Inr (c, cat)"
      and db': "db' = db\<lparr>dd_catalog := cat\<rparr>"
      by (auto simp: serviceSetSelected_def split: sum.splits)
    show ?thesis
    proof (cases enabled)
      case True
      with run have "Pin (dx_catalog E) (sqliteStore (dx_catalog E)) now i (dd_catalog db) = Inr (c, cat)" by simp
      from sqlite_catalog.Pin_pins [OF assms(2) this assms(3)] db' kind 1(1) show ?thesis by simp
    qed (use db' kind 1(1) in simp)
  next
    case 2
    then obtain w where set: "SelectionsSet ''host'' i enabled (dd_widgets db) = Inr w" and db': "db' = db\<lparr>dd_widgets := w\<rparr>"
      and listed: "enabled \<longrightarrow> (\<exists>hosts. listHosts E now db = Inr hosts \<and> i \<in> ho_ID ` set hosts)"
      by (auto simp: hostSetSelected_def split: sum.splits option.splits if_splits)
    with SelectionsSet_effect [OF set] kind 2(1) show ?thesis by simp
  qed
qed

section \<open>Evaluations\<close>

text \<open>A database where one host is selected that reports nothing.\<close>

definition hostDash :: dashboard_db where
  "hostDash = emptyDash\<lparr>dd_widgets := emptyWidgets\<lparr>wg_selections := [(''host'', ''a'')]\<rparr>\<rparr>"

definition shownDash :: dashboard_env where
  "shownDash = evalDash\<lparr>dx_layout := evalLayouts\<rparr>"

lemma hostDash_widgets:
  "widgetInv (dd_widgets hostDash)" "SelectionsList ''host'' (dd_widgets hostDash) = [''a'']"
  by (simp_all add: hostDash_def widgetInv_def emptyWidgets_def widgetCount_def unique_key_def SelectionsList_def)

lemma hostDash_services: "homepageServices shownDash hostDash = Inr []"
  by code_simp

lemma snapshot_shows_every_selection_witness:
  "\<exists>snap. SnapshotView shownDash (dashboardProviders shownDash evalPlugins evalRuntime minute) True False hostDash = Some snap \<and>
     wd_ID ` set (ds_Items snap) = {''host-a''} \<and>
     (\<exists>w \<in> set (ds_Items snap). hostShown (listHosts shownDash minute hostDash) ''a'' w)"
proof -
  have read: "readLayout (dx_lib shownDash) hostDash = Inr \<lparr>ls_Revision = ''0'', ls_Document = DefaultLayout\<rparr>"
    by (simp add: readLayout_def hostDash_def emptyDash_def)
  have uuid: "uuid_parse (dx_lib shownDash) [] = None" by (simp add: shownDash_def evalLayouts_def)
  have shown: "shownIDs [] (dd_widgets hostDash) = {''host-a''}"
    using hostDash_widgets(2) by (simp add: shownIDs_def) (simp add: hostDash_def emptyWidgets_def)
  have sel: "''a'' \<in> set (SelectionsList ''host'' (dd_widgets hostDash))" using hostDash_widgets(2) by simp
  have dist: "distinct (map c_ID [])" by simp
  from snapshot_shows_every_selection [OF read hostDash_services dist hostDash_widgets(1) uuid, of evalPlugins evalRuntime minute]
  show ?thesis using shown sel by metis
qed

lemma selection_changes_one_source_witness:
  "\<exists>db'. SetSelected (dashboardProviders shownDash evalPlugins evalRuntime minute) ''host'' ''a'' False hostDash = Inr db' \<and>
     ''a'' \<notin> set (SelectionsList ''host'' (dd_widgets db'))"
proof -
  have run: "\<exists>db'. SetSelected (dashboardProviders shownDash evalPlugins evalRuntime minute) ''host'' ''a'' False hostDash = Inr db'"
    by (simp add: SetSelected_def dashboardProviders_def serviceProvider_def hostProvider_def hostSetSelected_def SelectionsSet_def)
  then obtain db' where db': "SetSelected (dashboardProviders shownDash evalPlugins evalRuntime minute) ''host'' ''a'' False hostDash = Inr db'"
    by blast
  have inv: "catalogInv (dx_catalog shownDash) (dd_catalog hostDash)"
    by (simp add: hostDash_def emptyDash_def catalogInv_empty)
  have trim: "TrimSpace ''a'' = ''a''" by code_simp
  from selection_changes_one_source [OF db' inv trim] db' show ?thesis by auto
qed

end
