(* ===== verification/PresentationModel.thy ===== *)
theory PresentationModel
  imports Revisions
begin

text \<open>
  The appearance of the instance (\<open>internal/application/presentation/types.go\<close>): themes, fonts and the
  settings that select a theme, with the commands on them and the checks of identifiers, revisions and
  names. A theme's definition belongs to the external package \<open>themes\<close> and is a type variable; what the
  sources call of that package, and the JSON text that is hashed, is the record \<open>theme_env\<close>. An error of the
  store that is not an \<open>Error\<close> is one of the package (a definition or a receipt that does not decode, an unknown preset) or a constraint of the
  tables. The field errors of an \<open>Error\<close>, which this component never sets, are left out.
\<close>

section \<open>Errors\<close>

record Conflict =
  cf_Kind :: string
  cf_ID :: string
  cf_CurrentRevision :: string

datatype presentation_error =
  PresentationError (pe_Code: string) (pe_Message: string) (pe_Conflict: "Conflict option") (pe_UsedBy: "string list")
| Unreadable
| Constraint

definition Invalid :: presentation_error where
  "Invalid = PresentationError ''invalid_request'' ''Invalid presentation request.'' None []"

definition Missing :: presentation_error where
  "Missing = PresentationError ''not_found'' ''Resource not found.'' None []"

definition Stale :: "string \<Rightarrow> string \<Rightarrow> string \<Rightarrow> presentation_error" where
  "Stale kind i revision =
     PresentationError ''conflict'' ''Saved state changed. Preserve your draft and inspect the saved version.''
       (Some \<lparr>cf_Kind = kind, cf_ID = i, cf_CurrentRevision = revision\<rparr>) []"

section \<open>Themes and settings\<close>

record 'd Draft =
  dr_BrandLogoID :: "string option"
  dr_BrandIconID :: "string option"
  dr_Name :: string
  dr_Definition :: 'd

record 'd Selection =
  sl_BrandLogoID :: "string option"
  sl_BrandIconID :: string
  sl_Kind :: string
  sl_Key :: string
  sl_ID :: string
  sl_ExpectedCatalogRevision :: string
  sl_ExpectedThemeRevision :: string
  sl_Name :: string
  sl_Definition :: "'d option"
  sl_Draft :: "'d Draft option"

record 'd PresentationSettings =
  sg_Revision :: string
  sg_ColorMode :: string
  sg_Selection :: "'d Selection"

record 'd State =
  sa_BrandLogoID :: string
  sa_BrandIconID :: string
  sa_Settings :: "'d PresentationSettings"
  sa_CatalogRevision :: string
  sa_Definition :: 'd

record 'd Save =
  cm_CommandID :: string
  cm_ExpectedSettingsRevision :: string
  cm_ColorMode :: string
  cm_Selection :: "'d Selection"

record 'd SaveReceipt =
  rc_CommandID :: string
  rc_Settings :: "'d PresentationSettings"
  rc_ThemeRevision :: string

record 'd Theme =
  th_BrandLogoID :: string
  th_BrandIconID :: string
  th_ID :: string
  th_Name :: string
  th_Revision :: string
  th_Definition :: 'd

record 'd Builtin =
  bi_Key :: string
  bi_Label :: string
  bi_Definition :: 'd

record 'd ThemeCatalog =
  tc_CatalogRevision :: string
  tc_Builtins :: "'d Builtin list"
  tc_Custom :: "'d Theme list"

record CopyFrom =
  cp_ID :: string
  cp_ExpectedRevision :: string

record 'd Create =
  cr_BrandLogoID :: "string option"
  cr_BrandIconID :: string
  cr_ID :: string
  cr_Name :: string
  cr_Definition :: "'d option"
  cr_CopyFrom :: "CopyFrom option"

record Rename =
  rn_Name :: string
  rn_ExpectedRevision :: string

record Font =
  fn_ID :: string
  fn_Name :: string
  fn_Family :: string
  fn_Weight :: string
  fn_Style :: string
  fn_Variable :: bool
  fn_Format :: string
  fn_MIME :: string
  fn_ByteLength :: int
  fn_Digest :: string
  fn_Revision :: string
  fn_UsedBy :: "string list"
  fn_Data :: string

definition MaxFontBytes :: nat where
  "MaxFontBytes = 10 * 2 ^ 20"

definition MaxThemes :: nat where
  "MaxThemes = 128"

definition MaxFonts :: nat where
  "MaxFonts = 256"

definition MaxFontStorage :: int where
  "MaxFontStorage = 512 * 2 ^ 20"

section \<open>The external package\<close>

datatype font_role = Title | Body

lemma all_roles: "(\<forall>role. P role) \<longleftrightarrow> P Title \<and> P Body"
  by (metis font_role.exhaust)

record 'd theme_env =
  te_lib :: golib
  te_decode :: "string \<Rightarrow> 'd option"
  te_encode :: "'d \<Rightarrow> string"
  te_schema :: "'d \<Rightarrow> int"
  te_provenance :: "'d \<Rightarrow> string"
  te_valid :: "'d \<Rightarrow> bool"
  te_source :: "'d \<Rightarrow> font_role \<Rightarrow> string"
  te_fontID :: "'d \<Rightarrow> font_role \<Rightarrow> string"
  te_resolves :: "'d \<Rightarrow> font_role \<Rightarrow> bool"
  te_preset :: "string \<Rightarrow> 'd option"
  te_builtin :: "(string \<times> string) list"
  te_catalogRevision :: string
  te_saveText :: "'d Save \<Rightarrow> string"
  te_createText :: "'d Create \<Rightarrow> string"

definition uploaded :: "'d theme_env \<Rightarrow> 'd \<Rightarrow> font_role \<Rightarrow> bool" where
  "uploaded E d role \<longleftrightarrow> te_source E d role = ''upload''"

section \<open>Checks\<close>

abbreviation lowerHex :: string where
  "lowerHex \<equiv> ''0123456789abcdef''"

text \<open>The regular expression of a UUID, as the class of each position.\<close>

definition uuidPattern :: "string list" where
  "uuidPattern =
     replicate 8 lowerHex @ [''-''] @ replicate 4 lowerHex @ [''-'', ''12345678''] @ replicate 3 lowerHex @
     [''-'', ''89ab''] @ replicate 3 lowerHex @ [''-''] @ replicate 12 lowerHex"

definition MatchUUID :: "string \<Rightarrow> bool" where
  "MatchUUID s \<longleftrightarrow> list_all2 (\<lambda>cs c. c \<in> set cs) uuidPattern s"

definition ValidID :: "string \<Rightarrow> string \<Rightarrow> bool" where
  "ValidID i kind \<longleftrightarrow> prefix (kind @ '':'') i \<and> MatchUUID (TrimPrefix i (kind @ '':''))"

definition ValidCommand :: "string \<Rightarrow> bool" where
  "ValidCommand i \<longleftrightarrow> MatchUUID i"

definition ValidRevision :: "string \<Rightarrow> bool" where
  "ValidRevision r \<longleftrightarrow> (case ParseInt64 r of None \<Rightarrow> False | Some n \<Rightarrow> 0 \<le> n \<and> FormatInt n = r)"

definition ValidName :: "string \<Rightarrow> bool" where
  "ValidName s \<longleftrightarrow>
     s = TrimSpace s \<and> ValidString s \<and> 0 < RuneCount s \<and> RuneCount s \<le> 200 \<and>
     \<not> ContainsAny s [CHR 0x00, CHR 0x0D, CHR 0x0A]"

fun builtinsFrom :: "'d theme_env \<Rightarrow> (string \<times> string) list \<Rightarrow> 'd Builtin list option" where
  "builtinsFrom E [] = Some []"
| "builtinsFrom E ((k, l) # ts) =
     (case te_preset E k of
        None \<Rightarrow> None
      | Some d \<Rightarrow> map_option (\<lambda>bs. \<lparr>bi_Key = k, bi_Label = l, bi_Definition = d\<rparr> # bs) (builtinsFrom E ts))"

definition Builtins :: "'d theme_env \<Rightarrow> 'd Builtin list option" where
  "Builtins E = builtinsFrom E (te_builtin E)"

lemma Builtins_None: "Builtins E = None \<longleftrightarrow> (\<exists>t \<in> set (te_builtin E). te_preset E (fst t) = None)"
proof -
  have "builtinsFrom E ts = None \<longleftrightarrow> (\<exists>t \<in> set ts. te_preset E (fst t) = None)" for ts
    by (induction E ts rule: builtinsFrom.induct) (auto split: option.splits)
  then show ?thesis by (simp add: Builtins_def)
qed

lemma ValidRevision_FormatInt: "0 \<le> n \<Longrightarrow> n < 2 ^ 63 \<Longrightarrow> ValidRevision (FormatInt n)"
  by (simp add: ValidRevision_def ParseInt64_FormatInt_nonneg)

lemma length_uuidPattern: "length uuidPattern = 36"
  by (simp add: uuidPattern_def)

lemma MatchUUID_length: "MatchUUID s \<Longrightarrow> length s = 36"
  by (auto simp: MatchUUID_def length_uuidPattern dest: list_all2_lengthD)

lemma ValidID_length: "ValidID i kind \<Longrightarrow> length i = length kind + 37"
  by (auto simp: ValidID_def TrimPrefix_def prefix_def dest: MatchUUID_length)

end
