(* ===== verification/PresentationStore.thy ===== *)
theory PresentationStore
  imports PresentationModel CatalogStore
begin

text \<open>
  Themes, fonts and appearance settings in SQLite (\<open>internal/adapters/sqlite/presentation.go\<close>) and the
  uploaded icons (\<open>sqlite/icons.go\<close>), which themes use as brand images and service edits as icons: the tables
  of \<open>migrations/000006\<close> and \<open>000013\<close> to \<open>000015\<close> with their constraints. A theme that another row refers to is
  not deleted while the settings select it and takes its font references with it; a font or an icon that is
  referred to is not deleted. The settings have the one row that the migration inserts.

  A stored definition is its JSON text. The stored receipt is what decoding its text gives; of its strings
  only the key of a built-in theme may have bytes that are not UTF-8. The two entries of the map literal in
  \<open>references\<close> touch different rows, so its order does not matter. Revisions are not at the largest integer.
\<close>

section \<open>Tables\<close>

record themeRow =
  tr_ID :: string
  tr_Name :: string
  tr_SchemaVersion :: int
  tr_Definition :: string
  tr_Provenance :: string
  tr_Revision :: int
  tr_CreationDigest :: string
  tr_BrandIconID :: "string option"
  tr_BrandLogoID :: "string option"

record fontRow =
  fr_Font :: Font
  fr_Revision :: int
  fr_CreationDigest :: string

record 'd settingsRow =
  sr_BuiltinKey :: "string option"
  sr_CustomThemeID :: "string option"
  sr_ColorMode :: string
  sr_Revision :: int
  sr_LastCommandID :: string
  sr_LastPayloadDigest :: string
  sr_LastReceipt :: "'d SaveReceipt option"

record 'd appearance_db =
  ap_catalog :: catalog_db
  ap_themes :: "themeRow list"
  ap_fonts :: "fontRow list"
  ap_themeFonts :: "(string \<times> font_role \<times> string) list"
  ap_settings :: "'d settingsRow"

type_synonym ('a, 'd) appearance_result = "(presentation_error, 'a \<times> 'd appearance_db) result"

abbreviation ap_icons :: "'d appearance_db \<Rightarrow> Icon list" where
  "ap_icons db \<equiv> db_icons (ap_catalog db)"

abbreviation fr_ID :: "fontRow \<Rightarrow> string" where
  "fr_ID r \<equiv> fn_ID (fr_Font r)"

definition nullif :: "string \<Rightarrow> string option" where
  "nullif s = (if s = [] then None else Some s)"

definition coalesce :: "string option \<Rightarrow> string" where
  "coalesce v = (case v of Some s \<Rightarrow> s | None \<Rightarrow> [])"

section \<open>Reading\<close>

definition jsonDigest :: "'d theme_env \<Rightarrow> string \<Rightarrow> string" where
  "jsonDigest E body = sha256_hex (te_lib E) body"

definition themeFromRow :: "'d theme_env \<Rightarrow> themeRow \<Rightarrow> (presentation_error, 'd Theme) result" where
  "themeFromRow E r =
     (case te_decode E (tr_Definition r) of
        None \<Rightarrow> Inl Unreadable
      | Some d \<Rightarrow>
          Inr \<lparr>th_BrandLogoID = coalesce (tr_BrandLogoID r), th_BrandIconID = coalesce (tr_BrandIconID r), th_ID = tr_ID r,
               th_Name = tr_Name r, th_Revision = FormatInt (tr_Revision r), th_Definition = d\<rparr>)"

definition GetTheme :: "'d theme_env \<Rightarrow> string \<Rightarrow> 'd appearance_db \<Rightarrow> (presentation_error, 'd Theme) result" where
  "GetTheme E i db =
     (case tbl_get tr_ID i (ap_themes db) of None \<Rightarrow> Inl Missing | Some r \<Rightarrow> themeFromRow E r)"

definition noSelection :: "'d Selection" where
  "noSelection =
     \<lparr>sl_BrandLogoID = None, sl_BrandIconID = [], sl_Kind = [], sl_Key = [], sl_ID = [], sl_ExpectedCatalogRevision = [],
      sl_ExpectedThemeRevision = [], sl_Name = [], sl_Definition = None, sl_Draft = None\<rparr>"

definition settingsOf :: "'d appearance_db \<Rightarrow> 'd PresentationSettings" where
  "settingsOf db =
     (let r = ap_settings db in
      \<lparr>sg_Revision = FormatInt (sr_Revision r), sg_ColorMode = sr_ColorMode r,
       sg_Selection = (case sr_BuiltinKey r of
                         Some k \<Rightarrow> noSelection\<lparr>sl_Kind := ''builtin'', sl_Key := k\<rparr>
                       | None \<Rightarrow> noSelection\<lparr>sl_Kind := ''custom'', sl_ID := coalesce (sr_CustomThemeID r)\<rparr>)\<rparr>)"

definition checkFont :: "'d theme_env \<Rightarrow> 'd appearance_db \<Rightarrow> 'd \<Rightarrow> font_role \<Rightarrow> presentation_error option" where
  "checkFont E db d role =
     (if uploaded E d role
      then fail_if (\<not> ValidID (te_fontID E d role) ''font'' \<or> tbl_get fr_ID (te_fontID E d role) (ap_fonts db) = None) Invalid
      else fail_if (\<not> te_resolves E d role) Invalid)"

definition checkFonts :: "'d theme_env \<Rightarrow> 'd appearance_db \<Rightarrow> 'd \<Rightarrow> presentation_error option" where
  "checkFonts E db d = (if \<not> te_valid E d then Some Invalid else first_error (checkFont E db d) [Title, Body])"

definition checkBrand :: "'d appearance_db \<Rightarrow> string \<Rightarrow> presentation_error option" where
  "checkBrand db i =
     (if i = [] then None
      else if \<not> prefix ''upload:'' i \<or> length i > 200 then Some Invalid
      else fail_if (tbl_get ic_ID i (ap_icons db) = None) Invalid)"

definition PresentationState :: "'d theme_env \<Rightarrow> 'd appearance_db \<Rightarrow> (presentation_error, 'd State) result" where
  "PresentationState E db =
     (let settings = settingsOf db; selection = sg_Selection settings;
          found = (if sl_Kind selection = ''builtin''
                   then (case te_preset E (sl_Key selection) of
                           None \<Rightarrow> Inl Unreadable | Some d \<Rightarrow> Inr (d, [], [], settings))
                   else (case GetTheme E (sl_ID selection) db of
                           Inl e \<Rightarrow> Inl e
                         | Inr t \<Rightarrow>
                             Inr (th_Definition t, th_BrandIconID t, th_BrandLogoID t,
                                  settings\<lparr>sg_Selection := selection\<lparr>sl_ExpectedThemeRevision := th_Revision t\<rparr>\<rparr>)))
      in case found of
           Inl e \<Rightarrow> Inl e
         | Inr (d, brand, logo, settings) \<Rightarrow>
             (case checkFonts E db d of
                Some e \<Rightarrow> Inl e
              | None \<Rightarrow>
                  Inr \<lparr>sa_BrandLogoID = logo, sa_BrandIconID = brand, sa_Settings = settings,
                       sa_CatalogRevision = te_catalogRevision E, sa_Definition = d\<rparr>))"

fun themesFromRows :: "'d theme_env \<Rightarrow> themeRow list \<Rightarrow> (presentation_error, 'd Theme list) result" where
  "themesFromRows E [] = Inr []"
| "themesFromRows E (r # rs) =
     (case themeFromRow E r of
        Inl e \<Rightarrow> Inl e
      | Inr t \<Rightarrow> (case themesFromRows E rs of Inl e \<Rightarrow> Inl e | Inr ts \<Rightarrow> Inr (t # ts)))"

definition themesByName :: "'d appearance_db \<Rightarrow> themeRow list" where
  "themesByName db = sort_key (\<lambda>r. (tr_Name r, tr_ID r)) (ap_themes db)"

definition ThemeCatalogList :: "'d theme_env \<Rightarrow> 'd appearance_db \<Rightarrow> (presentation_error, 'd ThemeCatalog) result" where
  "ThemeCatalogList E db =
     (case Builtins E of
        None \<Rightarrow> Inl Unreadable
      | Some bs \<Rightarrow>
          (case themesFromRows E (themesByName db) of
             Inl e \<Rightarrow> Inl e
           | Inr ts \<Rightarrow> Inr \<lparr>tc_CatalogRevision = te_catalogRevision E, tc_Builtins = bs, tc_Custom = ts\<rparr>))"

section \<open>Writing themes\<close>

abbreviation roles :: "font_role list" where
  "roles \<equiv> [Title, Body]"

definition references :: "'d theme_env \<Rightarrow> string \<Rightarrow> 'd \<Rightarrow> 'd appearance_db \<Rightarrow> (presentation_error, 'd appearance_db) result" where
  "references E i d db =
     (let used = filter (uploaded E d) roles in
      if list_ex (\<lambda>role. tbl_get fr_ID (te_fontID E d role) (ap_fonts db) = None) used then Inl Constraint
      else Inr (db\<lparr>ap_themeFonts := tbl_delete (\<lambda>(t, _). t = i) (ap_themeFonts db) @ map (\<lambda>role. (i, role, te_fontID E d role)) used\<rparr>))"

text \<open>The foreign keys of the two brand columns.\<close>

definition brandsKnown :: "string \<Rightarrow> string \<Rightarrow> 'd appearance_db \<Rightarrow> bool" where
  "brandsKnown icon logo db \<longleftrightarrow> (\<forall>i \<in> {icon, logo}. i = [] \<or> tbl_get ic_ID i (ap_icons db) \<noteq> None)"

definition newThemeRow :: "'d theme_env \<Rightarrow> 'd Theme \<Rightarrow> string \<Rightarrow> themeRow" where
  "newThemeRow E t creationDigest =
     \<lparr>tr_ID = th_ID t, tr_Name = th_Name t, tr_SchemaVersion = te_schema E (th_Definition t),
      tr_Definition = te_encode E (th_Definition t), tr_Provenance = te_provenance E (th_Definition t), tr_Revision = 1,
      tr_CreationDigest = creationDigest, tr_BrandIconID = nullif (th_BrandIconID t), tr_BrandLogoID = nullif (th_BrandLogoID t)\<rparr>"

definition themesFull :: presentation_error where
  "themesFull = PresentationError ''limit_exceeded'' ''Theme catalog is full.'' None []"

definition insertTheme ::
    "'d theme_env \<Rightarrow> 'd Theme \<Rightarrow> string \<Rightarrow> 'd appearance_db \<Rightarrow> (presentation_error, 'd appearance_db) result" where
  "insertTheme E t creationDigest db =
     (if length (ap_themes db) \<ge> MaxThemes then Inl themesFull
      else if tbl_get tr_ID (th_ID t) (ap_themes db) \<noteq> None \<or> \<not> brandsKnown (th_BrandIconID t) (th_BrandLogoID t) db
      then Inl Constraint
      else references E (th_ID t) (th_Definition t) (db\<lparr>ap_themes := ap_themes db @ [newThemeRow E t creationDigest]\<rparr>))"

definition updateTheme ::
    "'d theme_env \<Rightarrow> string \<Rightarrow> string \<Rightarrow> 'd \<Rightarrow> string \<Rightarrow> string \<Rightarrow> 'd appearance_db \<Rightarrow> (presentation_error, 'd appearance_db) result" where
  "updateTheme E i name d icon logo db =
     (if \<not> brandsKnown icon logo db then Inl Constraint
      else references E i d
             (db\<lparr>ap_themes := tbl_update (\<lambda>r. tr_ID r = i)
                (\<lambda>r. r\<lparr>tr_Name := name, tr_Definition := te_encode E d, tr_Provenance := te_provenance E d,
                       tr_BrandIconID := nullif icon, tr_BrandLogoID := nullif logo, tr_Revision := tr_Revision r + 1\<rparr>)
                (ap_themes db)\<rparr>))"

definition nextRevision :: "string \<Rightarrow> string" where
  "nextRevision r = FormatInt ((case ParseInt64 r of Some n \<Rightarrow> n | None \<Rightarrow> 0) + 1)"

section \<open>Saving the settings\<close>

definition selectionFits :: "'d Selection \<Rightarrow> bool" where
  "selectionFits v =
     (if sl_Kind v = ''builtin'' then
        sl_BrandLogoID v = None \<and> sl_BrandIconID v = [] \<and> sl_ID v = [] \<and> sl_Name v = [] \<and> Option.is_none (sl_Definition v) \<and>
        Option.is_none (sl_Draft v) \<and> sl_ExpectedThemeRevision v = [] \<and> sl_ExpectedCatalogRevision v \<noteq> []
      else if sl_Kind v = ''custom'' then
        sl_BrandLogoID v = None \<and> sl_BrandIconID v = [] \<and> ValidID (sl_ID v) ''theme'' \<and>
        ValidRevision (sl_ExpectedThemeRevision v) \<and> sl_Key v = [] \<and> Option.is_none (sl_Definition v) \<and> sl_Name v = [] \<and>
        sl_ExpectedCatalogRevision v = []
      else
        sl_Kind v = ''newCustom'' \<and> ValidID (sl_ID v) ''theme'' \<and> ValidName (sl_Name v) \<and> \<not> Option.is_none (sl_Definition v) \<and>
        sl_ExpectedCatalogRevision v \<noteq> [] \<and> sl_Key v = [] \<and> Option.is_none (sl_Draft v) \<and> sl_ExpectedThemeRevision v = [])"

definition saveBuiltin :: "'d theme_env \<Rightarrow> 'd Selection \<Rightarrow> 'd appearance_db \<Rightarrow> ('d Selection \<times> string, 'd) appearance_result" where
  "saveBuiltin E v db =
     (case te_preset E (sl_Key v) of
        None \<Rightarrow> Inl Invalid
      | Some d \<Rightarrow>
          (case checkFonts E db d of
             Some e \<Rightarrow> Inl e
           | None \<Rightarrow> Inr ((noSelection\<lparr>sl_Kind := ''builtin'', sl_Key := sl_Key v\<rparr>, []), db)))"

definition saveDraft ::
    "'d theme_env \<Rightarrow> string \<Rightarrow> 'd Theme \<Rightarrow> 'd Draft \<Rightarrow> 'd appearance_db \<Rightarrow> (presentation_error, 'd appearance_db) result" where
  "saveDraft E i t draft db =
     (let icon = (case dr_BrandIconID draft of Some b \<Rightarrow> b | None \<Rightarrow> th_BrandIconID t);
          logo = (case dr_BrandLogoID draft of Some b \<Rightarrow> b | None \<Rightarrow> th_BrandLogoID t) in
      case or_else (checkBrand db logo) (or_else (checkBrand db icon)
             (or_else (fail_if (\<not> ValidName (dr_Name draft)) Invalid) (checkFonts E db (dr_Definition draft)))) of
        Some e \<Rightarrow> Inl e
      | None \<Rightarrow> updateTheme E i (dr_Name draft) (dr_Definition draft) icon logo db)"

definition saveCustom :: "'d theme_env \<Rightarrow> 'd Selection \<Rightarrow> 'd appearance_db \<Rightarrow> ('d Selection \<times> string, 'd) appearance_result" where
  "saveCustom E v db =
     (case GetTheme E (sl_ID v) db of
        Inl e \<Rightarrow> Inl e
      | Inr t \<Rightarrow>
          if th_Revision t \<noteq> sl_ExpectedThemeRevision v then Inl (Stale ''theme'' (sl_ID v) (th_Revision t))
          else
            (let selected = noSelection\<lparr>sl_Kind := ''custom'', sl_ID := sl_ID v\<rparr> in
             case sl_Draft v of
               Some draft \<Rightarrow>
                 (case saveDraft E (sl_ID v) t draft db of
                    Inl e \<Rightarrow> Inl e
                  | Inr db' \<Rightarrow> Inr ((selected, nextRevision (th_Revision t)), db'))
             | None \<Rightarrow>
                 (case checkFonts E db (th_Definition t) of
                    Some e \<Rightarrow> Inl e
                  | None \<Rightarrow> Inr ((selected, th_Revision t), db))))"

definition createOfSelection :: "'d Selection \<Rightarrow> 'd Create" where
  "createOfSelection v =
     \<lparr>cr_BrandLogoID = sl_BrandLogoID v, cr_BrandIconID = sl_BrandIconID v, cr_ID = sl_ID v, cr_Name = sl_Name v,
      cr_Definition = sl_Definition v, cr_CopyFrom = None\<rparr>"

definition saveNewCustom :: "'d theme_env \<Rightarrow> 'd Selection \<Rightarrow> 'd appearance_db \<Rightarrow> ('d Selection \<times> string, 'd) appearance_result" where
  "saveNewCustom E v db =
     (let logo = (case sl_BrandLogoID v of Some b \<Rightarrow> b | None \<Rightarrow> sl_BrandIconID v) in
      case sl_Definition v of
        None \<Rightarrow> Inl Invalid
      | Some d \<Rightarrow>
          (case or_else (checkBrand db logo) (or_else (checkBrand db (sl_BrandIconID v)) (checkFonts E db d)) of
             Some e \<Rightarrow> Inl e
           | None \<Rightarrow>
               if tbl_get tr_ID (sl_ID v) (ap_themes db) \<noteq> None then Inl (Stale ''theme'' (sl_ID v) [])
               else
                 (case insertTheme E
                         \<lparr>th_BrandLogoID = logo, th_BrandIconID = sl_BrandIconID v, th_ID = sl_ID v, th_Name = sl_Name v,
                          th_Revision = [], th_Definition = d\<rparr>
                         (jsonDigest E (te_createText E (createOfSelection v))) db of
                    Inl e \<Rightarrow> Inl e
                  | Inr db' \<Rightarrow> Inr ((noSelection\<lparr>sl_Kind := ''custom'', sl_ID := sl_ID v\<rparr>, ''1''), db'))))"

definition storedReceipt :: "'d SaveReceipt \<Rightarrow> 'd SaveReceipt" where
  "storedReceipt r =
     (let s = rc_Settings r; v = sg_Selection s in
      r\<lparr>rc_Settings := s\<lparr>sg_Selection := v\<lparr>sl_Key := toValidUTF8 (sl_Key v)\<rparr>\<rparr>\<rparr>)"

definition applySelection :: "'d theme_env \<Rightarrow> 'd Selection \<Rightarrow> 'd appearance_db \<Rightarrow> ('d Selection \<times> string, 'd) appearance_result" where
  "applySelection E v db =
     (if sl_Kind v = ''builtin'' then saveBuiltin E v db
      else if sl_Kind v = ''custom'' then saveCustom E v db
      else saveNewCustom E v db)"

definition writeSettings :: "'d theme_env \<Rightarrow> 'd Save \<Rightarrow> 'd Selection \<Rightarrow> string \<Rightarrow> 'd PresentationSettings \<Rightarrow> 'd appearance_db \<Rightarrow> 'd SaveReceipt \<times> 'd appearance_db" where
  "writeSettings E c selected themeRevision settings db =
     (let receipt = \<lparr>rc_CommandID = cm_CommandID c,
            rc_Settings = \<lparr>sg_Revision = nextRevision (sg_Revision settings), sg_ColorMode = cm_ColorMode c, sg_Selection = selected\<rparr>,
            rc_ThemeRevision = themeRevision\<rparr> in
      (receipt,
       db\<lparr>ap_settings :=
         \<lparr>sr_BuiltinKey = (if sl_Kind selected = ''builtin'' then Some (sl_Key selected) else None),
          sr_CustomThemeID = (if sl_Kind selected = ''builtin'' then None else Some (sl_ID selected)),
          sr_ColorMode = cm_ColorMode c, sr_Revision = sr_Revision (ap_settings db) + 1, sr_LastCommandID = cm_CommandID c,
          sr_LastPayloadDigest = jsonDigest E (te_saveText E c), sr_LastReceipt = Some (storedReceipt receipt)\<rparr>\<rparr>))"

definition PresentationSave :: "'d theme_env \<Rightarrow> 'd Save \<Rightarrow> 'd appearance_db \<Rightarrow> ('d SaveReceipt, 'd) appearance_result" where
  "PresentationSave E c db =
     (let v = cm_Selection c; settings = settingsOf db; row = ap_settings db in
      if \<not> ValidCommand (cm_CommandID c) \<or> \<not> ValidRevision (cm_ExpectedSettingsRevision c) \<or>
         cm_ColorMode c \<notin> {''system'', ''light'', ''dark''} \<or> \<not> selectionFits v
      then Inl Invalid
      else if sr_LastCommandID row = cm_CommandID c
      then (if sr_LastPayloadDigest row \<noteq> jsonDigest E (te_saveText E c)
            then Inl (Stale ''command'' (cm_CommandID c) (sg_Revision settings))
            else (case sr_LastReceipt row of None \<Rightarrow> Inl Unreadable | Some r \<Rightarrow> Inr (r, db)))
      else if sg_Revision settings \<noteq> cm_ExpectedSettingsRevision c
      then Inl (Stale ''settings'' [] (sg_Revision settings))
      else if sl_ExpectedCatalogRevision v \<noteq> [] \<and> sl_ExpectedCatalogRevision v \<noteq> te_catalogRevision E
      then Inl (Stale ''catalog'' [] (te_catalogRevision E))
      else (case applySelection E v db of
              Inl e \<Rightarrow> Inl e
            | Inr ((selected, themeRevision), db') \<Rightarrow> Inr (writeSettings E c selected themeRevision settings db')))"

section \<open>Themes\<close>

definition createFits :: "'d Create \<Rightarrow> bool" where
  "createFits c \<longleftrightarrow>
     ValidID (cr_ID c) ''theme'' \<and> ValidName (cr_Name c) \<and>
     Option.is_none (cr_Definition c) \<noteq> Option.is_none (cr_CopyFrom c) \<and>
     (Option.is_none (cr_CopyFrom c) \<or> cr_BrandIconID c = [] \<and> cr_BrandLogoID c = None)"

text \<open>The definition and the brand images of a new theme: given or copied.\<close>

definition createSource ::
    "'d theme_env \<Rightarrow> 'd Create \<Rightarrow> 'd appearance_db \<Rightarrow> (presentation_error, 'd \<times> string \<times> string) result" where
  "createSource E c db =
     (case cr_CopyFrom c of
        Some f \<Rightarrow>
          if \<not> ValidID (cp_ID f) ''theme'' \<or> \<not> ValidRevision (cp_ExpectedRevision f) then Inl Invalid
          else (case GetTheme E (cp_ID f) db of
                  Inl e \<Rightarrow> Inl e
                | Inr t \<Rightarrow>
                    if th_Revision t \<noteq> cp_ExpectedRevision f then Inl (Stale ''theme'' (th_ID t) (th_Revision t))
                    else Inr (th_Definition t, th_BrandIconID t, th_BrandLogoID t))
      | None \<Rightarrow>
          (case cr_Definition c of
             None \<Rightarrow> Inl Invalid
           | Some d \<Rightarrow>
               Inr (d, cr_BrandIconID c, case cr_BrandLogoID c of Some l \<Rightarrow> l | None \<Rightarrow> cr_BrandIconID c)))"

definition CreateTheme :: "'d theme_env \<Rightarrow> 'd Create \<Rightarrow> 'd appearance_db \<Rightarrow> ('d Theme \<times> bool, 'd) appearance_result" where
  "CreateTheme E c db =
     (if \<not> createFits c then Inl Invalid
      else (case tbl_get tr_ID (cr_ID c) (ap_themes db) of
              Some r \<Rightarrow>
                if tr_CreationDigest r \<noteq> jsonDigest E (te_createText E c) then Inl (Stale ''theme'' (cr_ID c) [])
                else map_sum id (\<lambda>t. ((t, False), db)) (themeFromRow E r)
            | None \<Rightarrow>
                (case createSource E c db of
                   Inl e \<Rightarrow> Inl e
                 | Inr (d, brand, logo) \<Rightarrow>
                     (case or_else (checkFonts E db d) (or_else (checkBrand db logo) (checkBrand db brand)) of
                        Some e \<Rightarrow> Inl e
                      | None \<Rightarrow>
                          (let t = \<lparr>th_BrandLogoID = logo, th_BrandIconID = brand, th_ID = cr_ID c, th_Name = cr_Name c,
                                    th_Revision = ''1'', th_Definition = d\<rparr> in
                           map_sum id (\<lambda>db'. ((t, True), db')) (insertTheme E t (jsonDigest E (te_createText E c)) db))))))"

definition RenameTheme :: "'d theme_env \<Rightarrow> string \<Rightarrow> Rename \<Rightarrow> 'd appearance_db \<Rightarrow> ('d Theme, 'd) appearance_result" where
  "RenameTheme E i c db =
     (if \<not> ValidID i ''theme'' \<or> \<not> ValidName (rn_Name c) \<or> \<not> ValidRevision (rn_ExpectedRevision c) then Inl Invalid
      else (case GetTheme E i db of
              Inl e \<Rightarrow> Inl e
            | Inr t \<Rightarrow>
                if th_Revision t \<noteq> rn_ExpectedRevision c then Inl (Stale ''theme'' i (th_Revision t))
                else Inr (t\<lparr>th_Name := rn_Name c, th_Revision := nextRevision (th_Revision t)\<rparr>,
                          db\<lparr>ap_themes := tbl_update (\<lambda>r. tr_ID r = i)
                               (\<lambda>r. r\<lparr>tr_Name := rn_Name c, tr_Revision := tr_Revision r + 1\<rparr>) (ap_themes db)\<rparr>)))"

definition themeInUse :: presentation_error where
  "themeInUse =
     PresentationError ''in_use'' ''Select and save another theme before deleting this theme.'' None [''presentation'']"

definition deleteThemeRow :: "string \<Rightarrow> 'd appearance_db \<Rightarrow> (presentation_error, 'd appearance_db) result" where
  "deleteThemeRow i db =
     (if sr_CustomThemeID (ap_settings db) = Some i \<and> tbl_get tr_ID i (ap_themes db) \<noteq> None then Inl Constraint
      else Inr (db\<lparr>ap_themes := tbl_delete (\<lambda>r. tr_ID r = i) (ap_themes db),
                   ap_themeFonts := tbl_delete (\<lambda>(t, _). t = i) (ap_themeFonts db)\<rparr>))"

definition DeleteTheme :: "'d theme_env \<Rightarrow> string \<Rightarrow> string \<Rightarrow> 'd appearance_db \<Rightarrow> (presentation_error, 'd appearance_db) result" where
  "DeleteTheme E i revision db =
     (if \<not> ValidID i ''theme'' \<or> \<not> ValidRevision revision then Inl Invalid
      else (case GetTheme E i db of
              Inl e \<Rightarrow> Inl e
            | Inr t \<Rightarrow>
                if th_Revision t \<noteq> revision then Inl (Stale ''theme'' i (th_Revision t))
                else if sl_ID (sg_Selection (settingsOf db)) = i then Inl themeInUse
                else deleteThemeRow i db))"

section \<open>Fonts\<close>

definition FontGet :: "string \<Rightarrow> 'd appearance_db \<Rightarrow> (presentation_error, Font) result" where
  "FontGet i db =
     (case tbl_get fr_ID i (ap_fonts db) of
        None \<Rightarrow> Inl Missing | Some r \<Rightarrow> Inr ((fr_Font r)\<lparr>fn_Revision := FormatInt (fr_Revision r), fn_UsedBy := []\<rparr>))"

text \<open>The themes that refer to a font, by name and identifier; the join has a row for each role.\<close>

definition themeLabel :: "themeRow \<Rightarrow> string" where
  "themeLabel r = tr_Name r @ '' ['' @ tr_ID r @ '']''"

definition fontUsers :: "string \<Rightarrow> 'd appearance_db \<Rightarrow> string list" where
  "fontUsers i db =
     dedup_by id (map themeLabel (filter (\<lambda>r. \<exists>role \<in> set roles. (tr_ID r, role, i) \<in> set (ap_themeFonts db)) (themesByName db)))"

definition fontListed :: "'d appearance_db \<Rightarrow> fontRow \<Rightarrow> Font" where
  "fontListed db r =
     (fr_Font r)\<lparr>fn_Revision := FormatInt (fr_Revision r), fn_UsedBy := fontUsers (fr_ID r) db, fn_Data := []\<rparr>"

definition FontList :: "'d appearance_db \<Rightarrow> Font list" where
  "FontList db = map (fontListed db) (sort_key (\<lambda>r. (fn_Name (fr_Font r), fr_ID r)) (ap_fonts db))"

definition fontsFull :: presentation_error where
  "fontsFull = PresentationError ''limit_exceeded'' ''Font storage limit reached.'' None []"

definition fontCreation :: "'d theme_env \<Rightarrow> Font \<Rightarrow> string" where
  "fontCreation E f =
     jsonDigest E (json_text (te_lib E)
       (JObj [(''ID'', JStr (fn_ID f)), (''Name'', JStr (fn_Name f)), (''Digest'', JStr (fn_Digest f))]))"

definition fontStorage :: "'d appearance_db \<Rightarrow> int" where
  "fontStorage db = sum_list (map (fn_ByteLength \<circ> fr_Font) (ap_fonts db))"

definition CreateFont :: "'d theme_env \<Rightarrow> Font \<Rightarrow> 'd appearance_db \<Rightarrow> (Font \<times> bool, 'd) appearance_result" where
  "CreateFont E f0 db =
     (if \<not> ValidID (fn_ID f0) ''font'' \<or> \<not> ValidName (fn_Name f0) \<or> fn_Data f0 = [] \<or> length (fn_Data f0) > MaxFontBytes
      then Inl Invalid
      else
        (let f = f0\<lparr>fn_Digest := sha256_hex (te_lib E) (fn_Data f0), fn_ByteLength := int (length (fn_Data f0)),
                     fn_Revision := ''1'', fn_UsedBy := []\<rparr>;
             creation = fontCreation E f in
         case tbl_get fr_ID (fn_ID f) (ap_fonts db) of
           Some r \<Rightarrow>
             if fr_CreationDigest r \<noteq> creation then Inl (Stale ''font'' (fn_ID f) ''1'')
             else Inr (((fr_Font r)\<lparr>fn_Revision := FormatInt (fr_Revision r), fn_UsedBy := [], fn_Data := []\<rparr>, False), db)
         | None \<Rightarrow>
             if length (ap_fonts db) \<ge> MaxFonts \<or> fontStorage db + fn_ByteLength f > MaxFontStorage then Inl fontsFull
             else Inr ((f\<lparr>fn_Data := []\<rparr>, True),
                       db\<lparr>ap_fonts := ap_fonts db @ [\<lparr>fr_Font = f, fr_Revision = 1, fr_CreationDigest = creation\<rparr>]\<rparr>)))"

definition fontInUse :: "string list \<Rightarrow> presentation_error" where
  "fontInUse used = PresentationError ''in_use'' ''Saved themes reference this font.'' None used"

definition DeleteFont :: "string \<Rightarrow> string \<Rightarrow> 'd appearance_db \<Rightarrow> (presentation_error, 'd appearance_db) result" where
  "DeleteFont i revision db =
     (if \<not> ValidID i ''font'' \<or> \<not> ValidRevision revision then Inl Invalid
      else (case FontGet i db of
              Inl e \<Rightarrow> Inl e
            | Inr f \<Rightarrow>
                if fn_Revision f \<noteq> revision then Inl (Stale ''font'' i (fn_Revision f))
                else if fontUsers i db \<noteq> [] then Inl (fontInUse (fontUsers i db))
                else if i \<in> (\<lambda>(t, role, f). f) ` set (ap_themeFonts db) then Inl Constraint
                else Inr (db\<lparr>ap_fonts := tbl_delete (\<lambda>r. fr_ID r = i) (ap_fonts db)\<rparr>)))"

section \<open>Uploaded icons\<close>

definition brandUsers :: "string \<Rightarrow> 'd appearance_db \<Rightarrow> themeRow list" where
  "brandUsers i db = filter (\<lambda>r. tr_BrandIconID r = Some i \<or> tr_BrandLogoID r = Some i) (ap_themes db)"

definition iconEdits :: "string \<Rightarrow> 'd appearance_db \<Rightarrow> serviceEditRow list" where
  "iconEdits i db = filter (\<lambda>e. se_IconRef e = i) (db_edits (ap_catalog db))"

definition iconUsers :: "string \<Rightarrow> 'd appearance_db \<Rightarrow> string list" where
  "iconUsers i db = sort (map se_DisplayName (iconEdits i db) @ map (\<lambda>r. ''Theme: '' @ tr_Name r) (brandUsers i db))"

definition IconList :: "'d appearance_db \<Rightarrow> Icon list" where
  "IconList db =
     map (\<lambda>r. r\<lparr>ic_UsedBy := iconUsers (ic_ID r) db, ic_Data := []\<rparr>) (sort_key (\<lambda>r. (ic_Name r, ic_ID r)) (ap_icons db))"

definition IconGet :: "string \<Rightarrow> 'd appearance_db \<Rightarrow> (icon_error, Icon) result" where
  "IconGet i db = (case tbl_get ic_ID i (ap_icons db) of None \<Rightarrow> Inl IconNotFound | Some r \<Rightarrow> Inr r)"

definition setIcons :: "Icon list \<Rightarrow> 'd appearance_db \<Rightarrow> 'd appearance_db" where
  "setIcons rows db = db\<lparr>ap_catalog := (ap_catalog db)\<lparr>db_icons := rows\<rparr>\<rparr>"

text \<open>\<open>fresh\<close> is the identifier drawn for a new icon; the driver refuses one that is taken.\<close>

definition IconSave ::
    "golib \<Rightarrow> (string \<Rightarrow> string option) \<Rightarrow> string \<Rightarrow> string \<Rightarrow> string \<Rightarrow> string \<Rightarrow> string \<Rightarrow> string \<Rightarrow> 'd appearance_db \<Rightarrow>
     (icon_error, Icon \<times> 'd appearance_db) result" where
  "IconSave L validateImage fresh i name0 tags0 revision data0 db =
     (let name = TrimSpace name0; tags = TrimSpace tags0;
          given = (if i \<noteq> [] \<and> data0 = [] then map_sum id ic_Data (IconGet i db) else Inr data0) in
      case given of
        Inl e \<Rightarrow> Inl e
      | Inr data \<Rightarrow>
          (case IconValidate validateImage name tags data of
             Inl _ \<Rightarrow> Inl IconInvalid
           | Inr mime \<Rightarrow>
               (let digest = sha256_hex L (name @ [NUL] @ tags @ [NUL] @ data);
                    icon = \<lparr>ic_ID = (if i = [] then ''upload:'' @ fresh else i), ic_Name = name, ic_Tags = tags, ic_MIME = mime,
                            ic_Digest = digest, ic_UsedBy = [], ic_Data = data\<rparr> in
                if i = []
                then (if tbl_get ic_ID (ic_ID icon) (ap_icons db) \<noteq> None then Inl IconStorage
                      else Inr (icon\<lparr>ic_Data := []\<rparr>, setIcons (ap_icons db @ [icon]) db))
                else (let P = (\<lambda>r. ic_ID r = i \<and> ic_Digest r = revision \<and> (ic_Data r = data \<or> brandUsers i db = [])) in
                      if length (filter P (ap_icons db)) \<noteq> 1 then Inl IconConflict
                      else Inr (icon\<lparr>ic_Data := []\<rparr>, setIcons (tbl_update P (\<lambda>_. icon) (ap_icons db)) db)))))"

definition IconDelete :: "string \<Rightarrow> string \<Rightarrow> 'd appearance_db \<Rightarrow> (icon_error, 'd appearance_db) result" where
  "IconDelete i revision db =
     (let P = (\<lambda>r. ic_ID r = i \<and> ic_Digest r = revision \<and> iconEdits i db = [] \<and> brandUsers i db = []) in
      if length (filter P (ap_icons db)) \<noteq> 1 then Inl IconConflict
      else Inr (setIcons (tbl_delete P (ap_icons db)) db))"

end
