(* ===== verification/Appearance.thy ===== *)
theory Appearance
  imports PresentationStore
begin

text \<open>
  What the store of themes, fonts and icons keeps, and what its commands do. \<open>themesOK\<close> is what the store
  relies on of the package \<open>themes\<close>: a valid definition is decoded from its JSON text, a preset is valid and
  uses no uploaded font, and the presets are listed under UTF-8 keys.
\<close>

section \<open>The package\<close>

definition themesOK :: "'d theme_env \<Rightarrow> bool" where
  "themesOK E \<longleftrightarrow>
     (\<forall>d. te_valid E d \<longrightarrow> te_decode E (te_encode E d) = Some d) \<and>
     (\<forall>k d. te_preset E k = Some d \<longrightarrow>
        ValidString k \<and> te_valid E d \<and> (\<forall>role. \<not> uploaded E d role \<and> te_resolves E d role)) \<and>
     te_preset E ''goshtoso'' \<noteq> None \<and> (\<forall>t \<in> set (te_builtin E). te_preset E (fst t) \<noteq> None)"

lemma themesOKD:
  assumes "themesOK E"
  shows "te_valid E d \<Longrightarrow> te_decode E (te_encode E d) = Some d"
    and "te_preset E k = Some p \<Longrightarrow> ValidString k \<and> te_valid E p \<and> \<not> uploaded E p role \<and> te_resolves E p role"
    and "te_preset E ''goshtoso'' \<noteq> None" and "t \<in> set (te_builtin E) \<Longrightarrow> te_preset E (fst t) \<noteq> None"
  using assms unfolding themesOK_def by blast+

section \<open>The invariant\<close>

definition fontUsed :: "'d theme_env \<Rightarrow> 'd \<Rightarrow> font_role \<Rightarrow> string \<Rightarrow> bool" where
  "fontUsed E d role f \<longleftrightarrow> uploaded E d role \<and> te_fontID E d role = f"

definition themeOK :: "'d theme_env \<Rightarrow> string set \<Rightarrow> (string \<times> font_role \<times> string) set \<Rightarrow> themeRow \<Rightarrow> bool" where
  "themeOK E icons refs r \<longleftrightarrow>
     1 \<le> tr_Revision r \<and>
     (\<forall>i. tr_BrandIconID r = Some i \<or> tr_BrandLogoID r = Some i \<longrightarrow> i \<in> icons) \<and>
     (\<exists>d. te_decode E (tr_Definition r) = Some d \<and> te_valid E d \<and>
          (\<forall>role. uploaded E d role \<or> te_resolves E d role) \<and>
          (\<forall>role f. (tr_ID r, role, f) \<in> refs \<longleftrightarrow> fontUsed E d role f))"

definition fontOK :: "fontRow \<Rightarrow> bool" where
  "fontOK r \<longleftrightarrow>
     ValidID (fr_ID r) ''font'' \<and> fr_Revision r = 1 \<and> fn_Data (fr_Font r) \<noteq> [] \<and> length (fn_Data (fr_Font r)) \<le> MaxFontBytes \<and>
     fn_ByteLength (fr_Font r) = int (length (fn_Data (fr_Font r)))"

definition settingsOK :: "'d theme_env \<Rightarrow> string set \<Rightarrow> 'd settingsRow \<Rightarrow> bool" where
  "settingsOK E themes s \<longleftrightarrow>
     0 \<le> sr_Revision s \<and> sr_ColorMode s \<in> {''system'', ''light'', ''dark''} \<and>
     (case sr_BuiltinKey s of
        Some k \<Rightarrow> sr_CustomThemeID s = None \<and> te_preset E k \<noteq> None
      | None \<Rightarrow> (\<exists>i \<in> themes. sr_CustomThemeID s = Some i)) \<and>
     (sr_LastCommandID s \<noteq> [] \<longrightarrow> sr_LastReceipt s \<noteq> None)"

definition appearanceInv :: "'d theme_env \<Rightarrow> catalog_env \<Rightarrow> 'd appearance_db \<Rightarrow> bool" where
  "appearanceInv E C db \<longleftrightarrow>
     catalogInv C (ap_catalog db) \<and> unique_key ic_ID (ap_icons db) \<and>
     unique_key tr_ID (ap_themes db) \<and> length (ap_themes db) \<le> MaxThemes \<and>
     unique_key fr_ID (ap_fonts db) \<and> length (ap_fonts db) \<le> MaxFonts \<and> fontStorage db \<le> MaxFontStorage \<and>
     (\<forall>r \<in> set (ap_fonts db). fontOK r) \<and>
     (\<forall>r \<in> set (ap_themes db). themeOK E (ic_ID ` set (ap_icons db)) (set (ap_themeFonts db)) r) \<and>
     (\<forall>(t, role, f) \<in> set (ap_themeFonts db). t \<in> tr_ID ` set (ap_themes db) \<and> f \<in> fr_ID ` set (ap_fonts db)) \<and>
     settingsOK E (tr_ID ` set (ap_themes db)) (ap_settings db)"

lemma appearanceInvD:
  assumes "appearanceInv E C db"
  shows "catalogInv C (ap_catalog db)" and "unique_key ic_ID (ap_icons db)" and "unique_key tr_ID (ap_themes db)"
    and "length (ap_themes db) \<le> MaxThemes" and "unique_key fr_ID (ap_fonts db)" and "length (ap_fonts db) \<le> MaxFonts"
    and "fontStorage db \<le> MaxFontStorage" and "q \<in> set (ap_fonts db) \<Longrightarrow> fontOK q"
    and "r \<in> set (ap_themes db) \<Longrightarrow> themeOK E (ic_ID ` set (ap_icons db)) (set (ap_themeFonts db)) r"
    and "(t, role, f) \<in> set (ap_themeFonts db) \<Longrightarrow> t \<in> tr_ID ` set (ap_themes db) \<and> f \<in> fr_ID ` set (ap_fonts db)"
    and "settingsOK E (tr_ID ` set (ap_themes db)) (ap_settings db)"
  using assms unfolding appearanceInv_def by blast+

lemma themeOK_mono: "themeOK E icons refs r \<Longrightarrow> icons \<subseteq> icons' \<Longrightarrow> themeOK E icons' refs r"
  unfolding themeOK_def by blast

section \<open>Definitions that were checked\<close>

lemma checkFonts_None:
  "checkFonts E db d = None \<longleftrightarrow>
     te_valid E d \<and>
     (\<forall>role. if uploaded E d role then ValidID (te_fontID E d role) ''font'' \<and> te_fontID E d role \<in> fr_ID ` set (ap_fonts db)
             else te_resolves E d role)"
proof -
  have "checkFont E db d role = None \<longleftrightarrow>
      (if uploaded E d role then ValidID (te_fontID E d role) ''font'' \<and> te_fontID E d role \<in> fr_ID ` set (ap_fonts db)
       else te_resolves E d role)" for role
    by (auto simp: checkFont_def tbl_get_None)
  then show ?thesis unfolding checkFonts_def by (simp add: all_roles)
qed

section \<open>Writing a theme keeps the invariant\<close>

lemma settingsOK_mono: "settingsOK E A s \<Longrightarrow> A \<subseteq> B \<Longrightarrow> settingsOK E B s"
  unfolding settingsOK_def by (auto split: option.splits)

lemma themeOK_refs:
  assumes "themeOK E icons refs r" and "\<And>role f. (tr_ID r, role, f) \<in> refs' \<longleftrightarrow> (tr_ID r, role, f) \<in> refs"
  shows "themeOK E icons refs' r"
  using assms unfolding themeOK_def by simp

lemma references_parts:
  assumes "references E i d db = Inr db'"
  shows "db' = db\<lparr>ap_themeFonts := ap_themeFonts db'\<rparr>"
    and "(t, role, f) \<in> set (ap_themeFonts db') \<longleftrightarrow>
         (if t = i then fontUsed E d role f else (t, role, f) \<in> set (ap_themeFonts db))"
    and "fontUsed E d role f \<Longrightarrow> f \<in> fr_ID ` set (ap_fonts db)"
proof -
  have roles: "role \<in> set roles" for role by (cases role) simp_all
  from assms show "db' = db\<lparr>ap_themeFonts := ap_themeFonts db'\<rparr>"
    by (auto simp: references_def Let_def split: if_splits)
  from assms show "(t, role, f) \<in> set (ap_themeFonts db') \<longleftrightarrow>
      (if t = i then fontUsed E d role f else (t, role, f) \<in> set (ap_themeFonts db))"
    by (cases role) (auto simp: references_def fontUsed_def Let_def split: if_splits)
  from assms roles [of role] show "fontUsed E d role f \<Longrightarrow> f \<in> fr_ID ` set (ap_fonts db)"
    by (auto simp: references_def fontUsed_def list_ex_iff tbl_get_None Let_def split: if_splits)
qed

lemma references_inv:
  assumes inv: "appearanceInv E C db" and "\<And>r. r \<in> set ts \<Longrightarrow> tr_ID r \<noteq> i \<Longrightarrow> r \<in> set (ap_themes db)"
    and ts: "unique_key tr_ID ts" "length ts \<le> MaxThemes" "tr_ID ` set (ap_themes db) \<subseteq> tr_ID ` set ts" "i \<in> tr_ID ` set ts"
    and new: "\<And>r. r \<in> set ts \<Longrightarrow> tr_ID r = i \<Longrightarrow> 1 \<le> tr_Revision r \<and> te_decode E (tr_Definition r) = Some d \<and>
           (\<forall>j. tr_BrandIconID r = Some j \<or> tr_BrandLogoID r = Some j \<longrightarrow> j \<in> ic_ID ` set (ap_icons db))"
    and d: "te_valid E d" "\<And>role. uploaded E d role \<or> te_resolves E d role"
    and run: "references E i d (db\<lparr>ap_themes := ts\<rparr>) = Inr db'"
  shows "appearanceInv E C db' \<and> ap_themes db' = ts \<and> ap_fonts db' = ap_fonts db \<and> ap_catalog db' = ap_catalog db \<and>
         ap_settings db' = ap_settings db"
proof -
  note parts = references_parts [OF run] and D = appearanceInvD [OF inv]
  from parts(1) have db': "ap_themes db' = ts" "ap_fonts db' = ap_fonts db" "ap_catalog db' = ap_catalog db"
      "ap_settings db' = ap_settings db"
    by (metis appearance_db.select_convs appearance_db.surjective appearance_db.update_convs)+
  have themes: "themeOK E (ic_ID ` set (ap_icons db)) (set (ap_themeFonts db')) r" if r: "r \<in> set ts" for r
  proof (cases "tr_ID r = i")
    case True
    then show ?thesis using new [OF r True] d unfolding themeOK_def parts(2) by simp
  next
    case False
    show ?thesis by (rule themeOK_refs [OF D(9) [OF assms(2) [OF r False]]]) (simp add: parts(2) False)
  qed
  have refs: "\<forall>(t, role, f) \<in> set (ap_themeFonts db'). t \<in> tr_ID ` set ts \<and> f \<in> fr_ID ` set (ap_fonts db)"
  proof (clarify)
    fix t role f assume r: "(t, role, f) \<in> set (ap_themeFonts db')"
    show "t \<in> tr_ID ` set ts \<and> f \<in> fr_ID ` set (ap_fonts db)"
    proof (cases "t = i")
      case True
      then show ?thesis using r parts(2,3) ts(4) by auto
    next
      case False
      then have "(t, role, f) \<in> set (ap_themeFonts db)" using r parts(2) by simp
      from D(10) [OF this] ts(3) show ?thesis by blast
    qed
  qed
  have "appearanceInv E C db'"
    unfolding appearanceInv_def db' fontStorage_def
    using D(1,2,5,6) D(7) [unfolded fontStorage_def] D(8) ts(1,2) themes refs settingsOK_mono [OF D(11) ts(3)]
    by (intro conjI ballI) simp_all
  then show ?thesis using db' by blast
qed

lemma nullif_Some: "nullif s = Some i \<longleftrightarrow> s = i \<and> i \<noteq> []"
  by (auto simp: nullif_def)

lemma coalesce_nullif [simp]: "coalesce (nullif s) = s"
  by (simp add: coalesce_def nullif_def)

lemma brandsKnownD:
  "brandsKnown icon logo db \<Longrightarrow> nullif icon = Some i \<or> nullif logo = Some i \<Longrightarrow> i \<in> ic_ID ` set (ap_icons db)"
  by (auto simp: brandsKnown_def nullif_Some tbl_get_None)

lemma insertTheme_inv:
  assumes ok: "themesOK E" and inv: "appearanceInv E C db" and fonts: "checkFonts E db (th_Definition t) = None"
    and run: "insertTheme E t dg db = Inr db'"
  shows "appearanceInv E C db' \<and> ap_themes db' = ap_themes db @ [newThemeRow E t dg] \<and> ap_fonts db' = ap_fonts db \<and>
         ap_catalog db' = ap_catalog db \<and> ap_settings db' = ap_settings db"
proof -
  let ?ts = "ap_themes db @ [newThemeRow E t dg]"
  from run have new: "tr_ID (newThemeRow E t dg) = th_ID t" "th_ID t \<notin> tr_ID ` set (ap_themes db)" "length ?ts \<le> MaxThemes"
    and brands: "brandsKnown (th_BrandIconID t) (th_BrandLogoID t) db"
    and refs: "references E (th_ID t) (th_Definition t) (db\<lparr>ap_themes := ?ts\<rparr>) = Inr db'"
    by (auto simp: insertTheme_def newThemeRow_def tbl_get_None split: if_splits)
  have valid: "te_valid E (th_Definition t)" "\<And>role. uploaded E (th_Definition t) role \<or> te_resolves E (th_Definition t) role"
    using fonts unfolding checkFonts_None by (auto split: if_splits)
  show ?thesis
  proof (rule references_inv [OF inv _ _ _ _ _ _ valid refs])
    show "unique_key tr_ID ?ts" using appearanceInvD(3) [OF inv] new by simp
    show "1 \<le> tr_Revision r \<and> te_decode E (tr_Definition r) = Some (th_Definition t) \<and>
           (\<forall>j. tr_BrandIconID r = Some j \<or> tr_BrandLogoID r = Some j \<longrightarrow> j \<in> ic_ID ` set (ap_icons db))"
      if "r \<in> set ?ts" "tr_ID r = th_ID t" for r
    proof -
      have "r \<notin> set (ap_themes db)" using that(2) new(2) by (metis imageI)
      then have "r = newThemeRow E t dg" using that(1) by simp
      then show ?thesis using themesOKD(1) [OF ok valid(1)] brandsKnownD [OF brands] by (simp add: newThemeRow_def)
    qed
  qed (use new in auto)
qed

lemma updateTheme_inv:
  assumes ok: "themesOK E" and inv: "appearanceInv E C db" and fonts: "checkFonts E db d = None"
    and i: "i \<in> tr_ID ` set (ap_themes db)" and run: "updateTheme E i name d icon logo db = Inr db'"
  shows "appearanceInv E C db' \<and> ap_fonts db' = ap_fonts db \<and> ap_catalog db' = ap_catalog db \<and> ap_settings db' = ap_settings db \<and>
         ap_themes db' = tbl_update (\<lambda>r. tr_ID r = i)
           (\<lambda>r. r\<lparr>tr_Name := name, tr_Definition := te_encode E d, tr_Provenance := te_provenance E d,
                  tr_BrandIconID := nullif icon, tr_BrandLogoID := nullif logo, tr_Revision := tr_Revision r + 1\<rparr>) (ap_themes db)"
proof -
  let ?f = "\<lambda>r. r\<lparr>tr_Name := name, tr_Definition := te_encode E d, tr_Provenance := te_provenance E d,
                  tr_BrandIconID := nullif icon, tr_BrandLogoID := nullif logo, tr_Revision := tr_Revision r + 1\<rparr>"
  let ?ts = "tbl_update (\<lambda>r. tr_ID r = i) ?f (ap_themes db)"
  from run have brands: "brandsKnown icon logo db" and refs: "references E i d (db\<lparr>ap_themes := ?ts\<rparr>) = Inr db'"
    by (auto simp: updateTheme_def split: if_splits)
  have valid: "te_valid E d" "\<And>role. uploaded E d role \<or> te_resolves E d role"
    using fonts unfolding checkFonts_None by (auto split: if_splits)
  have keys: "tr_ID ` set ?ts = tr_ID ` set (ap_themes db)" by (rule keys_update) simp
  have "appearanceInv E C db' \<and> ap_themes db' = ?ts \<and> ap_fonts db' = ap_fonts db \<and> ap_catalog db' = ap_catalog db \<and>
         ap_settings db' = ap_settings db"
  proof (rule references_inv [OF inv _ _ _ _ _ _ valid refs])
    show "unique_key tr_ID ?ts" using appearanceInvD(3) [OF inv] by (simp add: unique_key_update)
    show "1 \<le> tr_Revision r \<and> te_decode E (tr_Definition r) = Some d \<and>
           (\<forall>j. tr_BrandIconID r = Some j \<or> tr_BrandLogoID r = Some j \<longrightarrow> j \<in> ic_ID ` set (ap_icons db))"
      if r: "r \<in> set ?ts" "tr_ID r = i" for r
    proof -
      from r obtain q where q: "q \<in> set (ap_themes db)" "r = ?f q" by (auto simp: in_tbl_update split: if_splits)
      then have "1 \<le> tr_Revision q" using appearanceInvD(9) [OF inv] unfolding themeOK_def by blast
      with q(2) themesOKD(1) [OF ok valid(1)] brandsKnownD [OF brands] show ?thesis by auto
    qed
  qed (use appearanceInvD(4) [OF inv] i keys in \<open>auto simp: in_tbl_update split: if_splits\<close>)
  then show ?thesis by blast
qed

section \<open>What is stored can be shown\<close>

lemma preset_checkFonts: "themesOK E \<Longrightarrow> te_preset E k = Some d \<Longrightarrow> checkFonts E db d = None"
  using themesOKD(2) unfolding checkFonts_None by metis

lemma stored_theme:
  assumes "appearanceInv E C db" and "r \<in> set (ap_themes db)"
  obtains d where "te_decode E (tr_Definition r) = Some d" "checkFonts E db d = None" "1 \<le> tr_Revision r"
    "\<And>role f. (tr_ID r, role, f) \<in> set (ap_themeFonts db) \<longleftrightarrow> fontUsed E d role f"
proof -
  note D = appearanceInvD [OF assms(1)]
  from D(9) [OF assms(2)] obtain d where d: "te_decode E (tr_Definition r) = Some d" "te_valid E d" "1 \<le> tr_Revision r"
      "\<And>role. uploaded E d role \<or> te_resolves E d role"
      "\<And>role f. (tr_ID r, role, f) \<in> set (ap_themeFonts db) \<longleftrightarrow> fontUsed E d role f"
    unfolding themeOK_def by blast
  have "ValidID (te_fontID E d role) ''font'' \<and> te_fontID E d role \<in> fr_ID ` set (ap_fonts db)" if "uploaded E d role" for role
  proof -
    have "(tr_ID r, role, te_fontID E d role) \<in> set (ap_themeFonts db)" using that d(5) by (simp add: fontUsed_def)
    from D(10) [OF this] D(8) show ?thesis unfolding fontOK_def by auto
  qed
  then have "checkFonts E db d = None" unfolding checkFonts_None using d(2,4) by metis
  with that d show ?thesis by blast
qed

lemma get_theme:
  assumes "appearanceInv E C db" and "i \<in> tr_ID ` set (ap_themes db)"
  obtains r d where "tbl_get tr_ID i (ap_themes db) = Some r" "te_decode E (tr_Definition r) = Some d" "checkFonts E db d = None"
    "1 \<le> tr_Revision r"
    "GetTheme E i db = Inr \<lparr>th_BrandLogoID = coalesce (tr_BrandLogoID r), th_BrandIconID = coalesce (tr_BrandIconID r),
       th_ID = i, th_Name = tr_Name r, th_Revision = FormatInt (tr_Revision r), th_Definition = d\<rparr>"
proof -
  from assms(2) obtain r where r: "tbl_get tr_ID i (ap_themes db) = Some r"
    by (cases "tbl_get tr_ID i (ap_themes db)") (auto simp: tbl_get_None)
  then have "r \<in> set (ap_themes db)" "tr_ID r = i" using tbl_get_Some [OF r] by simp_all
  from stored_theme [OF assms(1) this(1)] obtain d where
    "te_decode E (tr_Definition r) = Some d" "checkFonts E db d = None" "1 \<le> tr_Revision r" by metis
  with r \<open>tr_ID r = i\<close> that show ?thesis by (simp add: GetTheme_def themeFromRow_def)
qed

lemma GetTheme_Inr: "GetTheme E i db = Inr t \<Longrightarrow> i \<in> tr_ID ` set (ap_themes db)"
  by (auto simp: GetTheme_def dest: tbl_get_Some split: option.splits)

text \<open>What the settings select.\<close>

definition shownDefinition :: "'d theme_env \<Rightarrow> 'd Selection \<Rightarrow> 'd appearance_db \<Rightarrow> 'd option" where
  "shownDefinition E v db =
     (if sl_Kind v = ''builtin'' then te_preset E (sl_Key v)
      else (case GetTheme E (sl_ID v) db of Inr t \<Rightarrow> Some (th_Definition t) | Inl e \<Rightarrow> None))"

lemma state_shows:
  assumes ok: "themesOK E" and inv: "appearanceInv E C db"
  shows "\<exists>st d. PresentationState E db = Inr st \<and> sg_Revision (sa_Settings st) = FormatInt (sr_Revision (ap_settings db)) \<and>
           sg_ColorMode (sa_Settings st) = sr_ColorMode (ap_settings db) \<and>
           shownDefinition E (sg_Selection (settingsOf db)) db = Some d \<and> sa_Definition st = d \<and>
           sl_Kind (sg_Selection (sa_Settings st)) = sl_Kind (sg_Selection (settingsOf db)) \<and>
           sl_Key (sg_Selection (sa_Settings st)) = sl_Key (sg_Selection (settingsOf db)) \<and>
           sl_ID (sg_Selection (sa_Settings st)) = sl_ID (sg_Selection (settingsOf db))"
proof (cases "sr_BuiltinKey (ap_settings db)")
  case (Some k)
  then obtain d where d: "te_preset E k = Some d" using appearanceInvD(11) [OF inv] by (auto simp: settingsOK_def)
  from preset_checkFonts [OF ok d] Some d show ?thesis
    by (simp add: PresentationState_def settingsOf_def shownDefinition_def Let_def)
next
  case None
  then obtain i where i: "i \<in> tr_ID ` set (ap_themes db)" "sr_CustomThemeID (ap_settings db) = Some i"
    using appearanceInvD(11) [OF inv] unfolding settingsOK_def by auto
  obtain r :: themeRow and d where "GetTheme E i db = Inr \<lparr>th_BrandLogoID = coalesce (tr_BrandLogoID r),
      th_BrandIconID = coalesce (tr_BrandIconID r), th_ID = i, th_Name = tr_Name r, th_Revision = FormatInt (tr_Revision r),
      th_Definition = d\<rparr>" "checkFonts E db d = None"
    by (rule get_theme [OF inv i(1)]) blast
  with None i show ?thesis
    by (simp add: PresentationState_def settingsOf_def shownDefinition_def coalesce_def noSelection_def Let_def)
qed

lemma catalog_lists:
  assumes ok: "themesOK E" and inv: "appearanceInv E C db"
  shows "\<exists>ct. ThemeCatalogList E db = Inr ct \<and> map th_ID (tc_Custom ct) = map tr_ID (themesByName db)"
proof -
  have "\<exists>ts. themesFromRows E rs = Inr ts \<and> map th_ID ts = map tr_ID rs" if "set rs \<subseteq> set (ap_themes db)" for rs
    using that
  proof (induction rs)
    case (Cons r rs)
    then obtain ts where "themesFromRows E rs = Inr ts" "map th_ID ts = map tr_ID rs" by auto
    moreover have "r \<in> set (ap_themes db)" using Cons.prems by simp
    then obtain d where "te_decode E (tr_Definition r) = Some d" by (rule stored_theme [OF inv]) blast
    ultimately show ?case by (simp add: themeFromRow_def)
  qed simp
  from this [of "themesByName db"] obtain ts where "themesFromRows E (themesByName db) = Inr ts"
      "map th_ID ts = map tr_ID (themesByName db)"
    by (auto simp: themesByName_def)
  moreover have "Builtins E \<noteq> None" using themesOKD(4) [OF ok] by (auto simp: Builtins_None)
  ultimately show ?thesis by (auto simp: ThemeCatalogList_def)
qed

section \<open>The commands keep the invariant\<close>

lemma or_else_NoneD: "or_else a b = None \<Longrightarrow> a = None \<and> b = None"
  by simp

lemma nextRevision_FormatInt: "0 \<le> n \<Longrightarrow> n < 2 ^ 63 \<Longrightarrow> nextRevision (FormatInt n) = FormatInt (n + 1)"
  by (simp add: nextRevision_def ParseInt64_FormatInt_nonneg)

text \<open>A selection that is applied leaves the settings, the fonts and the catalogue, and what it selects can be shown.\<close>

definition applied ::
    "'d theme_env \<Rightarrow> catalog_env \<Rightarrow> 'd Selection \<Rightarrow> 'd Selection \<Rightarrow> 'd appearance_db \<Rightarrow> 'd appearance_db \<Rightarrow> bool" where
  "applied E C v selected db db' \<longleftrightarrow>
     appearanceInv E C db' \<and> ap_settings db' = ap_settings db \<and> ap_fonts db' = ap_fonts db \<and> ap_catalog db' = ap_catalog db \<and>
     (if sl_Kind v = ''builtin''
      then selected = noSelection\<lparr>sl_Kind := ''builtin'', sl_Key := sl_Key v\<rparr> \<and> te_preset E (sl_Key v) \<noteq> None \<and> db' = db
      else selected = noSelection\<lparr>sl_Kind := ''custom'', sl_ID := sl_ID v\<rparr> \<and> sl_ID v \<in> tr_ID ` set (ap_themes db')) \<and>
     (\<forall>d. sl_Kind v = ''custom'' \<and> map_option dr_Definition (sl_Draft v) = Some d \<or>
          sl_Kind v \<noteq> ''builtin'' \<and> sl_Kind v \<noteq> ''custom'' \<and> sl_Definition v = Some d \<longrightarrow>
          shownDefinition E selected db' = Some d) \<and>
     (sl_Kind v = ''custom'' \<and> sl_Draft v = None \<longrightarrow> db' = db) \<and>
     (\<forall>r \<in> set (ap_themes db). tr_ID r \<noteq> sl_ID v \<longrightarrow> r \<in> set (ap_themes db'))"

lemma saveBuiltin_applied:
  assumes "appearanceInv E C db" and "sl_Kind v = ''builtin''" and "saveBuiltin E v db = Inr ((selected, rv), db')"
  shows "applied E C v selected db db'"
  using assms by (auto simp: saveBuiltin_def applied_def split: option.splits)

lemma saveCustom_applied:
  assumes ok: "themesOK E" and inv: "appearanceInv E C db" and kind: "sl_Kind v = ''custom''"
    and run: "saveCustom E v db = Inr ((selected, rv), db')"
  shows "applied E C v selected db db'"
proof -
  let ?i = "sl_ID v"
  from run obtain t where t: "GetTheme E ?i db = Inr t" and selected: "selected = noSelection\<lparr>sl_Kind := ''custom'', sl_ID := ?i\<rparr>"
    and alt: "case sl_Draft v of Some draft \<Rightarrow> saveDraft E ?i t draft db = Inr db' | None \<Rightarrow> db' = db"
    by (auto simp: saveCustom_def Let_def split: sum.splits if_splits option.splits)
  have i: "?i \<in> tr_ID ` set (ap_themes db)" using GetTheme_Inr [OF t] .
  show ?thesis
  proof (cases "sl_Draft v")
    case None
    with alt selected inv i kind show ?thesis by (simp add: applied_def)
  next
    case (Some draft)
    let ?d = "dr_Definition draft"
    from Some alt obtain icon logo where fonts: "checkFonts E db ?d = None"
      and upd: "updateTheme E ?i (dr_Name draft) ?d icon logo db = Inr db'"
      by (auto simp: saveDraft_def Let_def split: option.splits)
    note U = updateTheme_inv [OF ok inv fonts i upd]
    from get_theme [OF inv i] obtain r where r: "tbl_get tr_ID ?i (ap_themes db) = Some r" by metis
    then have "tr_ID r = ?i" by (rule tbl_get_key)
    have valid: "te_valid E ?d" using fonts by (simp add: checkFonts_None)
    have "\<exists>q. tbl_get tr_ID ?i (ap_themes db') = Some q \<and> tr_Definition q = te_encode E ?d"
      using U r \<open>tr_ID r = ?i\<close> by (simp add: tbl_get_update)
    then have shown: "shownDefinition E selected db' = Some ?d"
      using themesOKD(1) [OF ok valid] by (auto simp: shownDefinition_def selected GetTheme_def themeFromRow_def)
    have "?i \<in> tr_ID ` set (ap_themes db')" using U i by (simp add: keys_update)
    moreover have "\<forall>r \<in> set (ap_themes db). tr_ID r \<noteq> ?i \<longrightarrow> r \<in> set (ap_themes db')"
      using U by (force simp: in_tbl_update)
    ultimately show ?thesis using U selected kind Some shown by (simp add: applied_def)
  qed
qed

lemma saveNewCustom_applied:
  assumes ok: "themesOK E" and inv: "appearanceInv E C db" and kind: "sl_Kind v \<noteq> ''builtin''" "sl_Kind v \<noteq> ''custom''"
    and run: "saveNewCustom E v db = Inr ((selected, rv), db')"
  shows "applied E C v selected db db' \<and> sl_ID v \<notin> tr_ID ` set (ap_themes db)"
proof -
  from run obtain d t dg where d: "sl_Definition v = Some d" "checkFonts E db d = None"
    and selected: "selected = noSelection\<lparr>sl_Kind := ''custom'', sl_ID := sl_ID v\<rparr>"
    and t: "insertTheme E t dg db = Inr db'" "th_ID t = sl_ID v" "th_Definition t = d"
    and new: "sl_ID v \<notin> tr_ID ` set (ap_themes db)"
    by (auto simp: saveNewCustom_def Let_def tbl_get_None split: option.splits sum.splits if_splits)
  have I: "appearanceInv E C db' \<and> ap_themes db' = ap_themes db @ [newThemeRow E t dg] \<and> ap_fonts db' = ap_fonts db \<and>
         ap_catalog db' = ap_catalog db \<and> ap_settings db' = ap_settings db"
    using insertTheme_inv [OF ok inv _ t(1)] d(2) t(3) by simp
  have row: "tr_ID (newThemeRow E t dg) = sl_ID v" "tr_Definition (newThemeRow E t dg) = te_encode E d"
    using t by (simp_all add: newThemeRow_def)
  have valid: "te_valid E d" using d(2) by (simp add: checkFonts_None)
  have "tbl_get tr_ID (sl_ID v) (ap_themes db') = Some (newThemeRow E t dg)"
    using I new row by (simp add: tbl_get_append tbl_get_None [THEN iffD2]) (simp add: tbl_get_def)
  then have "shownDefinition E selected db' = Some d"
    using themesOKD(1) [OF ok valid] row by (simp add: shownDefinition_def selected GetTheme_def themeFromRow_def)
  moreover have "sl_ID v \<in> tr_ID ` set (ap_themes db')" using I row by simp
  ultimately show ?thesis using I selected kind d(1) new by (simp add: applied_def)
qed

lemma applySelection_applied:
  assumes "themesOK E" and "appearanceInv E C db" and "applySelection E v db = Inr ((selected, rv), db')"
  shows "applied E C v selected db db'"
  using assms saveBuiltin_applied [OF assms(2)] saveCustom_applied [OF assms(1,2)] saveNewCustom_applied [OF assms(1,2)]
  by (auto simp: applySelection_def split: if_splits)

lemma settings_inv:
  assumes "appearanceInv E C db" and "settingsOK E (tr_ID ` set (ap_themes db)) s"
  shows "appearanceInv E C (db\<lparr>ap_settings := s\<rparr>)"
  using assms by (simp add: appearanceInv_def fontStorage_def)

lemma save_fresh:
  assumes "PresentationSave E c db = Inr (r, db')" and "sr_LastCommandID (ap_settings db) \<noteq> cm_CommandID c"
  obtains selected rv db1 where "ValidCommand (cm_CommandID c)" "cm_ColorMode c \<in> {''system'', ''light'', ''dark''}"
    "selectionFits (cm_Selection c)" "sg_Revision (settingsOf db) = cm_ExpectedSettingsRevision c"
    "applySelection E (cm_Selection c) db = Inr ((selected, rv), db1)"
    "(r, db') = writeSettings E c selected rv (settingsOf db) db1"
  using assms by (auto simp: PresentationSave_def Let_def split: if_splits sum.splits)

lemma save_replay:
  assumes "PresentationSave E c db = Inr (r, db')" and "sr_LastCommandID (ap_settings db) = cm_CommandID c"
  shows "db' = db \<and> sr_LastReceipt (ap_settings db) = Some r"
  using assms by (auto simp: PresentationSave_def Let_def split: if_splits option.splits)

lemma applied_settings:
  assumes "applied E C v selected db db1"
  shows "sl_Kind selected = (if sl_Kind v = ''builtin'' then ''builtin'' else ''custom'')"
    and "sl_Kind v = ''builtin'' \<Longrightarrow> te_preset E (sl_Key selected) \<noteq> None"
    and "sl_Kind v \<noteq> ''builtin'' \<Longrightarrow> sl_ID selected \<in> tr_ID ` set (ap_themes db1)"
  using assms by (auto simp: applied_def noSelection_def split: if_splits)

lemma writeSettings_inv:
  assumes "applied E C v selected db db1" and "appearanceInv E C db" and "cm_ColorMode c \<in> {''system'', ''light'', ''dark''}"
  shows "appearanceInv E C (snd (writeSettings E c selected rv settings db1))"
proof -
  note A = applied_settings [OF assms(1)]
  have "0 \<le> sr_Revision (ap_settings db1)"
    using appearanceInvD(11) [OF assms(2)] assms(1) by (simp add: settingsOK_def applied_def)
  with A assms(3) have "settingsOK E (tr_ID ` set (ap_themes db1)) (ap_settings (snd (writeSettings E c selected rv settings db1)))"
    by (auto simp: settingsOK_def writeSettings_def Let_def)
  moreover have "snd (writeSettings E c selected rv settings db1) =
      db1\<lparr>ap_settings := ap_settings (snd (writeSettings E c selected rv settings db1))\<rparr>"
    by (simp add: writeSettings_def Let_def)
  moreover have "appearanceInv E C db1" using assms(1) by (simp add: applied_def)
  ultimately show ?thesis by (metis settings_inv)
qed

lemma PresentationSave_inv:
  assumes "themesOK E" and "appearanceInv E C db" and "PresentationSave E c db = Inr (r, db')"
  shows "appearanceInv E C db'"
proof (cases "sr_LastCommandID (ap_settings db) = cm_CommandID c")
  case True
  with save_replay [OF assms(3)] assms(2) show ?thesis by simp
next
  case False
  from assms(3) False obtain selected rv db1 where "cm_ColorMode c \<in> {''system'', ''light'', ''dark''}"
      "applySelection E (cm_Selection c) db = Inr ((selected, rv), db1)" "(r, db') = writeSettings E c selected rv (settingsOf db) db1"
    by (rule save_fresh)
  with writeSettings_inv [OF applySelection_applied [OF assms(1,2)] assms(2)] show ?thesis by (metis snd_conv)
qed

lemma themes_inv:
  assumes "appearanceInv E C db" and "unique_key tr_ID ts" and "length ts \<le> MaxThemes"
    and "tr_ID ` set ts = tr_ID ` set (ap_themes db)"
    and "\<And>r. r \<in> set ts \<Longrightarrow> themeOK E (ic_ID ` set (ap_icons db)) (set (ap_themeFonts db)) r"
  shows "appearanceInv E C (db\<lparr>ap_themes := ts\<rparr>)"
  using assms by (simp add: appearanceInv_def fontStorage_def)

lemma CreateTheme_cases:
  assumes "CreateTheme E c db = Inr ((t, created), db')"
  shows "if created
         then cr_ID c \<notin> tr_ID ` set (ap_themes db) \<and> th_ID t = cr_ID c \<and> th_Name t = cr_Name c \<and> th_Revision t = ''1'' \<and>
              checkFonts E db (th_Definition t) = None \<and>
              insertTheme E t (jsonDigest E (te_createText E c)) db = Inr db'
         else db' = db \<and> GetTheme E (cr_ID c) db = Inr t"
  using assms
  unfolding tbl_get_None [symmetric]
  by (auto simp: CreateTheme_def GetTheme_def map_sum_def Let_def split: if_splits option.splits sum.splits)

lemma CreateTheme_inv:
  assumes "themesOK E" and "appearanceInv E C db" and "CreateTheme E c db = Inr ((t, created), db')"
  shows "appearanceInv E C db'"
  using CreateTheme_cases [OF assms(3)] insertTheme_inv [OF assms(1,2)] assms(2) by (cases created) auto

lemma RenameTheme_inv:
  assumes inv: "appearanceInv E C db" and "RenameTheme E i c db = Inr (t, db')"
  shows "appearanceInv E C db'"
proof -
  let ?f = "\<lambda>r. r\<lparr>tr_Name := rn_Name c, tr_Revision := tr_Revision r + 1\<rparr>"
  from assms(2) have db': "db' = db\<lparr>ap_themes := tbl_update (\<lambda>r. tr_ID r = i) ?f (ap_themes db)\<rparr>"
    by (auto simp: RenameTheme_def split: if_splits sum.splits)
  have "themeOK E (ic_ID ` set (ap_icons db)) (set (ap_themeFonts db)) r"
    if "r \<in> set (tbl_update (\<lambda>r. tr_ID r = i) ?f (ap_themes db))" for r
  proof -
    from that obtain q where "q \<in> set (ap_themes db)" "r = q \<or> r = ?f q" by (auto simp: in_tbl_update split: if_splits)
    with appearanceInvD(9) [OF inv this(1)] show ?thesis by (auto simp: themeOK_def)
  qed
  then show ?thesis unfolding db'
    using appearanceInvD(3,4) [OF inv] by (intro themes_inv [OF inv]) (simp_all add: unique_key_update keys_update)
qed

lemma DeleteTheme_parts:
  assumes "DeleteTheme E i revision db = Inr db'"
  shows "db' = db\<lparr>ap_themes := tbl_delete (\<lambda>r. tr_ID r = i) (ap_themes db),
                 ap_themeFonts := tbl_delete (\<lambda>(t, _). t = i) (ap_themeFonts db)\<rparr> \<and>
         sl_ID (sg_Selection (settingsOf db)) \<noteq> i"
  using assms by (auto simp: DeleteTheme_def deleteThemeRow_def split: if_splits sum.splits)

lemma DeleteTheme_inv:
  assumes inv: "appearanceInv E C db" and run: "DeleteTheme E i revision db = Inr db'"
  shows "appearanceInv E C db'"
proof -
  let ?ts = "tbl_delete (\<lambda>r. tr_ID r = i) (ap_themes db)"
  let ?fs = "tbl_delete (\<lambda>(t, _). t = i) (ap_themeFonts db)"
  note D = appearanceInvD [OF inv] and db' = DeleteTheme_parts [OF run]
  have "settingsOK E (tr_ID ` set ?ts) (ap_settings db)"
  proof (cases "sr_BuiltinKey (ap_settings db)")
    case None
    then obtain j where "j \<in> tr_ID ` set (ap_themes db)" "sr_CustomThemeID (ap_settings db) = Some j"
      using D(11) unfolding settingsOK_def by auto
    moreover from this db' None have "j \<noteq> i" by (auto simp: settingsOf_def coalesce_def noSelection_def Let_def)
    ultimately show ?thesis using D(11) None by (auto simp: settingsOK_def)
  qed (use D(11) in \<open>auto simp: settingsOK_def\<close>)
  moreover have "themeOK E (ic_ID ` set (ap_icons db)) (set ?fs) r" if "r \<in> set ?ts" for r
    using that by (intro themeOK_refs [OF D(9)]) auto
  moreover have "\<forall>(t, role, f) \<in> set ?fs. t \<in> tr_ID ` set ?ts \<and> f \<in> fr_ID ` set (ap_fonts db)" using D(10) by fastforce
  moreover have "length ?ts \<le> MaxThemes" using D(4) length_tbl_delete [of "\<lambda>r. tr_ID r = i" "ap_themes db"] by simp
  ultimately show ?thesis
    using D(1,2,5,6) D(7) [unfolded fontStorage_def] D(8) unique_key_delete [OF D(3)]
    unfolding appearanceInv_def fontStorage_def db' [THEN conjunct1]
    by (intro conjI ballI) (simp_all del: set_tbl_delete split_paired_All)
qed

section \<open>Fonts and icons\<close>

lemma CreateFont_cases:
  assumes "CreateFont E f db = Inr ((g, created), db')"
  shows "if created
         then \<exists>r. fr_ID r = fn_ID f \<and> fn_ID f \<notin> fr_ID ` set (ap_fonts db) \<and> fontOK r \<and>
              db' = db\<lparr>ap_fonts := ap_fonts db @ [r]\<rparr> \<and> length (ap_fonts db) < MaxFonts \<and>
              fontStorage db + fn_ByteLength (fr_Font r) \<le> MaxFontStorage \<and> fn_Data (fr_Font r) = fn_Data f \<and>
              fn_Name (fr_Font r) = fn_Name f
         else db' = db"
proof (cases created)
  case True
  let ?f = "f\<lparr>fn_Digest := sha256_hex (te_lib E) (fn_Data f), fn_ByteLength := int (length (fn_Data f)), fn_Revision := ''1'', fn_UsedBy := []\<rparr>"
  let ?r = "\<lparr>fr_Font = ?f, fr_Revision = 1, fr_CreationDigest = fontCreation E ?f\<rparr>"
  from assms True have "ValidID (fn_ID f) ''font''" "fn_Data f \<noteq> []" "length (fn_Data f) \<le> MaxFontBytes"
      "fn_ID f \<notin> fr_ID ` set (ap_fonts db)" "length (ap_fonts db) < MaxFonts"
      "fontStorage db + int (length (fn_Data f)) \<le> MaxFontStorage" "db' = db\<lparr>ap_fonts := ap_fonts db @ [?r]\<rparr>"
    by (auto simp: CreateFont_def Let_def tbl_get_None split: if_splits option.splits)
  with True show ?thesis by (simp add: fontOK_def exI [of _ ?r])
qed (use assms in \<open>auto simp: CreateFont_def Let_def split: if_splits option.splits\<close>)

lemma CreateFont_inv:
  assumes inv: "appearanceInv E C db" and "CreateFont E f db = Inr ((g, created), db')"
  shows "appearanceInv E C db'"
proof (cases created)
  case True
  note D = appearanceInvD [OF inv]
  from CreateFont_cases [OF assms(2), unfolded if_P [OF True]]
  obtain r where r: "fr_ID r = fn_ID f" "fn_ID f \<notin> fr_ID ` set (ap_fonts db)" "fontOK r"
      "db' = db\<lparr>ap_fonts := ap_fonts db @ [r]\<rparr>" "length (ap_fonts db) < MaxFonts"
      "fontStorage db + fn_ByteLength (fr_Font r) \<le> MaxFontStorage" by blast
  have "\<forall>(t, role, f) \<in> set (ap_themeFonts db). t \<in> tr_ID ` set (ap_themes db) \<and> f \<in> fr_ID ` set (ap_fonts db @ [r])"
    using D(10) by fastforce
  with r D(1-6,8,9,11) show ?thesis unfolding appearanceInv_def fontStorage_def by simp
qed (use assms CreateFont_cases [OF assms(2)] in auto)

lemma DeleteFont_inv:
  assumes inv: "appearanceInv E C db" and "DeleteFont i revision db = Inr db'"
  shows "appearanceInv E C db'"
proof -
  let ?fs = "tbl_delete (\<lambda>r. fr_ID r = i) (ap_fonts db)"
  note D = appearanceInvD [OF inv]
  from assms(2) have db': "db' = db\<lparr>ap_fonts := ?fs\<rparr>" and free: "i \<notin> (\<lambda>(t, role, f). f) ` set (ap_themeFonts db)"
    by (auto simp: DeleteFont_def split: if_splits sum.splits)
  have "f \<in> fr_ID ` set ?fs" if "(t, role, f) \<in> set (ap_themeFonts db)" for t role f
  proof -
    have "f \<noteq> i" using free that by force
    with D(10) [OF that] show ?thesis by auto
  qed
  then have "\<forall>(t, role, f) \<in> set (ap_themeFonts db). t \<in> tr_ID ` set (ap_themes db) \<and> f \<in> fr_ID ` set ?fs"
    using D(10) by fast
  moreover have "sum_list (map (fn_ByteLength \<circ> fr_Font) ?fs) \<le> fontStorage db"
  proof -
    have "sum_list (map (fn_ByteLength \<circ> fr_Font) (tbl_delete P rows)) \<le> sum_list (map (fn_ByteLength \<circ> fr_Font) rows)"
      if "\<forall>r \<in> set rows. fontOK r" for P and rows :: "fontRow list"
      using that by (induction rows) (auto simp: tbl_delete_def fontOK_def)
    with D(8) show ?thesis unfolding fontStorage_def by blast
  qed
  moreover have "length ?fs \<le> MaxFonts" using D(6) length_tbl_delete [of "\<lambda>r. fr_ID r = i" "ap_fonts db"] by simp
  ultimately show ?thesis
    using D(1-4,7-9,11) unique_key_delete [OF D(5)] unfolding db' appearanceInv_def fontStorage_def by simp
qed

lemma icons_inv:
  assumes inv: "appearanceInv E C db" and "unique_key ic_ID rows"
    and keep: "\<And>i. i \<in> ic_ID ` set (ap_icons db) \<Longrightarrow> i \<notin> ic_ID ` set rows \<Longrightarrow> iconEdits i db = [] \<and> brandUsers i db = []"
  shows "appearanceInv E C (setIcons rows db)"
proof -
  note D = appearanceInvD [OF inv]
  have known: "knownIcon C ((ap_catalog db)\<lparr>db_icons := rows\<rparr>) (se_IconRef r)" if r: "r \<in> set (db_edits (ap_catalog db))" for r
  proof -
    have "r \<in> set (iconEdits (se_IconRef r) db)" using r by (simp add: iconEdits_def)
    then have "iconEdits (se_IconRef r) db \<noteq> []" by auto
    with keep [of "se_IconRef r"] catalogInvD(7) [OF D(1) r] show ?thesis by (auto simp: knownIcon_def tbl_get_None)
  qed
  have cat: "catalogInv C ((ap_catalog db)\<lparr>db_icons := rows\<rparr>)"
    using D(1) known by (simp add: catalogInv_def serviceHeads_def)
  have "themeOK E (ic_ID ` set rows) (set (ap_themeFonts db)) r" if r: "r \<in> set (ap_themes db)" for r
  proof -
    have "i \<in> ic_ID ` set rows" if "tr_BrandIconID r = Some i \<or> tr_BrandLogoID r = Some i" for i
    proof -
      have "r \<in> set (brandUsers i db)" using r that by (simp add: brandUsers_def)
      then have "brandUsers i db \<noteq> []" by auto
      moreover have "i \<in> ic_ID ` set (ap_icons db)" using D(9) [OF r] that unfolding themeOK_def by blast
      ultimately show ?thesis using keep by blast
    qed
    with D(9) [OF r] show ?thesis unfolding themeOK_def by simp
  qed
  with cat assms(2) D(3-8,10,11) show ?thesis
    unfolding appearanceInv_def setIcons_def fontStorage_def by auto
qed

lemma IconDelete_inv:
  assumes inv: "appearanceInv E C db" and "IconDelete i revision db = Inr db'"
  shows "appearanceInv E C db'"
proof -
  let ?P = "\<lambda>r. ic_ID r = i \<and> ic_Digest r = revision \<and> iconEdits i db = [] \<and> brandUsers i db = []"
  from assms(2) have one: "length (filter ?P (ap_icons db)) = 1" and db': "db' = setIcons (tbl_delete ?P (ap_icons db)) db"
    by (auto simp: IconDelete_def Let_def split: if_splits)
  have free: "iconEdits i db = [] \<and> brandUsers i db = []"
  proof (rule ccontr)
    assume "\<not> ?thesis"
    then have "filter ?P (ap_icons db) = []" by (auto simp: filter_empty_conv)
    with one show False by simp
  qed
  show ?thesis unfolding db'
    using free appearanceInvD(2) [OF inv] by (intro icons_inv [OF inv]) (auto intro: unique_key_delete)
qed

lemma IconSave_inv:
  assumes inv: "appearanceInv E C db" and "IconSave L validateImage fresh i name tags revision data db = Inr (icon, db')"
  shows "appearanceInv E C db'"
proof -
  from assms(2) consider r where "db' = setIcons (ap_icons db @ [r]) db" "ic_ID r \<notin> ic_ID ` set (ap_icons db)"
    | P r where "db' = setIcons (tbl_update P (\<lambda>_. r) (ap_icons db)) db" "\<forall>q. P q \<longrightarrow> ic_ID q = ic_ID r"
    by (auto simp: IconSave_def Let_def tbl_get_None split: if_splits sum.splits)
  then show ?thesis
  proof cases
    case 1
    then show ?thesis using appearanceInvD(2) [OF inv] by (auto intro!: icons_inv [OF inv])
  next
    case 2
    have keys: "map ic_ID (tbl_update P (\<lambda>_. r) (ap_icons db)) = map ic_ID (ap_icons db)"
      using 2(2) by (auto simp: tbl_update_def)
    then have "ic_ID ` set (tbl_update P (\<lambda>_. r) (ap_icons db)) = ic_ID ` set (ap_icons db)" by (metis list.set_map)
    with keys 2(1) appearanceInvD(2) [OF inv] show ?thesis by (auto intro!: icons_inv [OF inv] simp: unique_key_def)
  qed
qed

section \<open>Runs\<close>

inductive appearanceStep :: "'d theme_env \<Rightarrow> catalog_env \<Rightarrow> 'd appearance_db \<Rightarrow> 'd appearance_db \<Rightarrow> bool"
  for E :: "'d theme_env" and C :: catalog_env where
  catalog: "catalogStep C (ap_catalog db) cat \<Longrightarrow> appearanceStep E C db (db\<lparr>ap_catalog := cat\<rparr>)"
| save: "PresentationSave E c db = Inr (r, db') \<Longrightarrow> appearanceStep E C db db'"
| create: "CreateTheme E k db = Inr ((t, created), db') \<Longrightarrow> appearanceStep E C db db'"
| rename: "RenameTheme E i n db = Inr (t, db') \<Longrightarrow> appearanceStep E C db db'"
| delete: "DeleteTheme E i revision db = Inr db' \<Longrightarrow> appearanceStep E C db db'"
| createFont: "CreateFont E f db = Inr ((g, created), db') \<Longrightarrow> appearanceStep E C db db'"
| deleteFont: "DeleteFont i revision db = Inr db' \<Longrightarrow> appearanceStep E C db db'"
| saveIcon: "IconSave L validateImage fresh i name tags revision data db = Inr (icon, db') \<Longrightarrow> appearanceStep E C db db'"
| deleteIcon: "IconDelete i revision db = Inr db' \<Longrightarrow> appearanceStep E C db db'"

lemma saveEditTx_icons: "saveEditTx C i e db = Inr db' \<Longrightarrow> db_icons db' = db_icons db"
  by (auto simp: saveEditTx_def saveServiceEdit_def setIconRef_def Let_def split: option.splits if_splits)

lemma applyAction_icons: "db_icons (fold (applyAction action) ids db) = db_icons db"
  by (induction ids arbitrary: db) (auto simp: applyAction_def setHidden_def purgeService_def)

lemma setPin_icons [simp]: "db_icons (setPin i p now db) = db_icons db"
  by (simp add: setPin_def)

lemma pinRows_icons: "pinRows now pinned ids db = Inr db' \<Longrightarrow> db_icons db' = db_icons db"
  by (induction now pinned ids db rule: pinRows.induct) (auto simp: Let_def split: option.splits if_splits)

lemma catalogStep_icons: "catalogStep C db db' \<Longrightarrow> db_icons db' = db_icons db"
proof (induction rule: catalogStep.induct)
  case (upsert now c db u db')
  then show ?case by (auto simp: Upsert_def Let_def keepsRows_def dest: keepsRows_upsertCandidate split: if_splits option.splits sum.splits)
next
  case (snapshot now s db a db')
  then show ?case by (auto dest: keepsRows_Replace simp: keepsRows_def)
next
  case (pin now i b related db c db')
  then show ?case by (auto simp: SetPinned_def Let_def dest: pinRows_icons split: if_splits sum.splits option.splits)
next
  case (edit i e db u db')
  then show ?case by (auto simp: SaveEdit_def Let_def dest: saveEditTx_icons split: option.splits sum.splits)
next
  case (lifecycle i action db u db')
  then show ?case by (auto simp: Lifecycle_def applyAction_icons split: sum.splits)
next
  case (manual now m db c db')
  then show ?case
    by (auto simp: CreateManual_def keepsRows_def Let_def dest!: saveEditTx_icons keepsRows_upsertCandidate
        split: option.splits sum.splits if_splits)
qed

lemma catalog_inv:
  assumes inv: "appearanceInv E C db" and "catalogStep C (ap_catalog db) cat"
  shows "appearanceInv E C (db\<lparr>ap_catalog := cat\<rparr>)"
  using appearanceInvD(1) [OF inv] catalogStep_icons [OF assms(2)] catalogInv_step [OF assms(2)] inv
  by (simp add: appearanceInv_def fontStorage_def)

lemma appearanceStep_inv:
  assumes "themesOK E" and "appearanceStep E C db db'" and "appearanceInv E C db"
  shows "appearanceInv E C db'"
  using assms(2,3)
  by (induction rule: appearanceStep.induct)
     (auto intro: catalog_inv PresentationSave_inv [OF assms(1)] CreateTheme_inv [OF assms(1)] RenameTheme_inv DeleteTheme_inv
        CreateFont_inv DeleteFont_inv IconSave_inv IconDelete_inv)

text \<open>The database after the migrations.\<close>

definition emptyAppearance :: "'d appearance_db" where
  "emptyAppearance =
     \<lparr>ap_catalog = emptyCatalog, ap_themes = [], ap_fonts = [], ap_themeFonts = [],
      ap_settings = \<lparr>sr_BuiltinKey = Some ''goshtoso'', sr_CustomThemeID = None, sr_ColorMode = ''system'', sr_Revision = 0,
                     sr_LastCommandID = [], sr_LastPayloadDigest = [], sr_LastReceipt = None\<rparr>\<rparr>"

lemma emptyAppearance_inv: "themesOK E \<Longrightarrow> appearanceInv E C emptyAppearance"
  using themesOKD(3)
  by (simp add: appearanceInv_def emptyAppearance_def catalogInv_empty settingsOK_def fontStorage_def MaxFontStorage_def)
     (simp add: emptyCatalog_def)

section \<open>What the commands guarantee\<close>

text \<open>
  C10. The appearance can always be shown. Whatever sequence of commands on themes, fonts, icons and the catalogue was
  run, the limits and references of the tables hold (at most 128 themes and 256 fonts with 512 MiB, every font
  and icon that a theme or a service edit refers to is stored, the settings select a preset or a stored theme),
  so reading the appearance, each theme and the list of themes succeeds. A valid definition is assumed to
  decode from its JSON text and presets to be valid without uploaded fonts.
\<close>
theorem appearance_reachable_inv:
  assumes "themesOK E" and "(appearanceStep E C)\<^sup>*\<^sup>* emptyAppearance db"
  shows "appearanceInv E C db \<and> (\<exists>st. PresentationState E db = Inr st) \<and>
         (\<exists>ct. ThemeCatalogList E db = Inr ct \<and> map th_ID (tc_Custom ct) = map tr_ID (themesByName db)) \<and>
         (\<forall>i \<in> tr_ID ` set (ap_themes db). \<exists>t. GetTheme E i db = Inr t \<and> th_ID t = i)"
proof -
  from assms(2) have inv: "appearanceInv E C db"
    by (induction rule: rtranclp_induct) (auto intro: emptyAppearance_inv [OF assms(1)] appearanceStep_inv [OF assms(1)])
  have "\<exists>t. GetTheme E i db = Inr t \<and> th_ID t = i" if "i \<in> tr_ID ` set (ap_themes db)" for i
    by (rule get_theme [OF inv that]) simp
  then show ?thesis using inv state_shows [OF assms(1) inv] catalog_lists [OF assms(1) inv] by blast
qed

lemma settingsOf_written:
  assumes "(r, db') = writeSettings E c selected rv settings db1" and "applied E C v selected db db1"
  shows "sg_Revision (settingsOf db') = FormatInt (sr_Revision (ap_settings db) + 1)"
    and "sr_ColorMode (ap_settings db') = cm_ColorMode c" and "sg_Selection (settingsOf db') = selected"
    and "sr_LastCommandID (ap_settings db') = cm_CommandID c" and "sr_LastReceipt (ap_settings db') = Some (storedReceipt r)"
    and "sr_LastPayloadDigest (ap_settings db') = jsonDigest E (te_saveText E c)"
    and "sg_Revision (rc_Settings r) = nextRevision (sg_Revision settings)" and "sg_Selection (rc_Settings r) = selected"
    and "db' = db1\<lparr>ap_settings := ap_settings db'\<rparr>" and "sr_Revision (ap_settings db') = sr_Revision (ap_settings db) + 1"
  using assms by (auto simp: writeSettings_def settingsOf_def applied_def coalesce_def noSelection_def Let_def split: if_splits)

lemma storedReceipt_id:
  assumes "themesOK E" and "applied E C v selected db db1" and "sg_Selection (rc_Settings r) = selected"
  shows "storedReceipt r = r"
proof -
  have "ValidString (sl_Key selected)"
  proof (cases "sl_Kind v = ''builtin''")
    case True
    then show ?thesis using applied_settings(2) [OF assms(2)] themesOKD(2) [OF assms(1)] by blast
  next
    case False
    with assms(2) show ?thesis by (simp add: applied_def noSelection_def ValidString_def)
  qed
  then show ?thesis using assms(3) by (simp add: storedReceipt_def toValidUTF8_id Let_def)
qed

lemma shown_selection:
  assumes "applied E C v selected db db1" and "selectionFits v" and "shownDefinition E selected db1 = Some d"
  shows "if sl_Kind v = ''builtin'' then te_preset E (sl_Key v) = Some d
         else if sl_Kind v = ''custom''
         then (case sl_Draft v of
                 Some draft \<Rightarrow> d = dr_Definition draft
               | None \<Rightarrow> \<exists>t. GetTheme E (sl_ID v) db = Inr t \<and> d = th_Definition t)
         else sl_Definition v = Some d"
proof (cases "sl_Kind v = ''builtin''")
  case True
  with assms show ?thesis by (simp add: applied_def shownDefinition_def noSelection_def)
next
  case False
  have sel: "shownDefinition E selected db1 =
      (case GetTheme E (sl_ID v) db1 of Inr t \<Rightarrow> Some (th_Definition t) | Inl e \<Rightarrow> None)"
    using assms(1) False by (simp add: applied_def shownDefinition_def noSelection_def)
  show ?thesis
  proof (cases "sl_Kind v = ''custom'' \<and> sl_Draft v = None")
    case True
    then have "db1 = db" using assms(1) by (simp add: applied_def)
    with True sel assms(3) show ?thesis by (auto split: sum.splits)
  next
    case False2: False
    have law: "shownDefinition E selected db1 = Some d'"
      if "sl_Kind v = ''custom'' \<and> map_option dr_Definition (sl_Draft v) = Some d' \<or>
          sl_Kind v \<noteq> ''custom'' \<and> sl_Definition v = Some d'" for d'
      using assms(1) that False unfolding applied_def by blast
    show ?thesis
    proof (cases "sl_Kind v = ''custom''")
      case True
      with False2 obtain draft where "sl_Draft v = Some draft" by auto
      with law [of "dr_Definition draft"] True assms(3) show ?thesis by simp
    next
      case False3: False
      with False assms(2) obtain d' where "sl_Definition v = Some d'" by (auto simp: selectionFits_def Option.is_none_def)
      with law [of d'] False False3 assms(3) show ?thesis by simp
    qed
  qed
qed

text \<open>
  Saving the appearance. A new command is accepted only from the current revision of the settings; then the
  appearance shows its colour mode and the definition it names (the preset, the draft, the new theme or the
  stored one), the revision is the next number, no other theme and no font or icon changes. Sending the same
  command again is answered with the same receipt and changes nothing; every other command that started from
  the old revision is refused.
\<close>
theorem saved_settings_are_shown:
  assumes "themesOK E" and "appearanceInv E C db" and "PresentationSave E c db = Inr (r, db')"
    and "sr_LastCommandID (ap_settings db) \<noteq> cm_CommandID c" and "sr_Revision (ap_settings db) < 2 ^ 63 - 1"
  shows "sg_Revision (settingsOf db) = cm_ExpectedSettingsRevision c \<and>
         (\<exists>st. PresentationState E db' = Inr st \<and> sg_Revision (sa_Settings st) = sg_Revision (rc_Settings r) \<and>
            revisionNumber (sg_Revision (rc_Settings r)) = revisionNumber (cm_ExpectedSettingsRevision c) + 1 \<and>
            sg_ColorMode (sa_Settings st) = cm_ColorMode c \<and>
            (let v = cm_Selection c in
             if sl_Kind v = ''builtin'' then te_preset E (sl_Key v) = Some (sa_Definition st)
             else if sl_Kind v = ''custom''
             then (case sl_Draft v of
                     Some draft \<Rightarrow> sa_Definition st = dr_Definition draft
                   | None \<Rightarrow> \<exists>t. GetTheme E (sl_ID v) db = Inr t \<and> sa_Definition st = th_Definition t)
             else sl_Definition v = Some (sa_Definition st))) \<and>
         (\<forall>q \<in> set (ap_themes db). tr_ID q \<noteq> sl_ID (cm_Selection c) \<longrightarrow> q \<in> set (ap_themes db')) \<and>
         ap_fonts db' = ap_fonts db \<and> ap_catalog db' = ap_catalog db \<and>
         PresentationSave E c db' = Inr (r, db') \<and>
         (cm_CommandID c' \<noteq> cm_CommandID c \<and> cm_ExpectedSettingsRevision c' = cm_ExpectedSettingsRevision c \<longrightarrow>
            (\<exists>e. PresentationSave E c' db' = Inl e))"
proof -
  let ?v = "cm_Selection c"
  let ?n = "sr_Revision (ap_settings db)"
  from assms(3,4) obtain selected rv db1 where c: "ValidCommand (cm_CommandID c)" "cm_ColorMode c \<in> {''system'', ''light'', ''dark''}"
      "selectionFits ?v" "sg_Revision (settingsOf db) = cm_ExpectedSettingsRevision c"
    and app: "applySelection E ?v db = Inr ((selected, rv), db1)" and w: "(r, db') = writeSettings E c selected rv (settingsOf db) db1"
    by (rule save_fresh)
  have A: "applied E C ?v selected db db1" by (rule applySelection_applied [OF assms(1,2) app])
  note W = settingsOf_written [OF w A]
  have inv': "appearanceInv E C db'" by (rule PresentationSave_inv [OF assms(1-3)])
  have n: "0 \<le> ?n" using appearanceInvD(11) [OF assms(2)] by (simp add: settingsOK_def)
  have old: "sg_Revision (settingsOf db) = FormatInt ?n" by (simp add: settingsOf_def Let_def)
  have new: "sg_Revision (rc_Settings r) = FormatInt (?n + 1)" using W(7) old n assms(5) by (simp add: nextRevision_FormatInt)
  have num: "revisionNumber (sg_Revision (rc_Settings r)) = revisionNumber (cm_ExpectedSettingsRevision c) + 1"
    unfolding new c(4) [symmetric] old using n assms(5) by (simp add: revisionNumber_FormatInt)
  obtain st where st: "PresentationState E db' = Inr st" "sg_Revision (sa_Settings st) = FormatInt (sr_Revision (ap_settings db'))"
      "sg_ColorMode (sa_Settings st) = sr_ColorMode (ap_settings db')" "shownDefinition E selected db' = Some (sa_Definition st)"
    using state_shows [OF assms(1) inv'] W(3) by auto
  have same: "shownDefinition E selected db' = shownDefinition E selected db1"
    by (subst W(9)) (simp add: shownDefinition_def GetTheme_def)
  have shown: "let v = ?v in
             if sl_Kind v = ''builtin'' then te_preset E (sl_Key v) = Some (sa_Definition st)
             else if sl_Kind v = ''custom''
             then (case sl_Draft v of
                     Some draft \<Rightarrow> sa_Definition st = dr_Definition draft
                   | None \<Rightarrow> \<exists>t. GetTheme E (sl_ID v) db = Inr t \<and> sa_Definition st = th_Definition t)
             else sl_Definition v = Some (sa_Definition st)"
    using shown_selection [OF A c(3)] st(4) same by simp
  have replay: "PresentationSave E c db' = Inr (r, db')"
    using c W(4-6) storedReceipt_id [OF assms(1) A W(8)] assms(3) by (auto simp: PresentationSave_def Let_def split: if_splits)
  have "\<exists>e. PresentationSave E c' db' = Inl e"
    if "cm_CommandID c' \<noteq> cm_CommandID c" "cm_ExpectedSettingsRevision c' = cm_ExpectedSettingsRevision c"
  proof -
    have "sg_Revision (settingsOf db') \<noteq> cm_ExpectedSettingsRevision c'"
      using W(1) that(2) c(4) old n FormatInt_inj [of "?n + 1" ?n] by simp
    with W(4) that(1) show ?thesis by (simp add: PresentationSave_def Let_def)
  qed
  moreover have "ap_themes db' = ap_themes db1" "ap_fonts db' = ap_fonts db1" "ap_catalog db' = ap_catalog db1"
    by (subst W(9), simp)+
  moreover have "sg_Revision (sa_Settings st) = sg_Revision (rc_Settings r)" using st(2) new W(10) by simp
  ultimately show ?thesis using c(4) st(1,3) W(2) num shown replay A by (auto simp: applied_def)
qed

lemma FormatInt_one: "FormatInt 1 = ''1''"
  by code_simp

lemma ValidRevision_one: "FormatInt 1 = ''1''" "ValidRevision ''1''"
  using ValidRevision_FormatInt [of 1] FormatInt_one by simp_all

lemma dedup_map_Nil: "dedup_by id (map f xs) = [] \<longleftrightarrow> xs = []"
  using keys_dedup_onto [of id "[]" "map f xs"] by (cases xs) auto

lemma font_users:
  assumes inv: "appearanceInv E C db"
  shows "fontUsers i db = [] \<longleftrightarrow> i \<notin> (\<lambda>(t, role, f). f) ` set (ap_themeFonts db)"
    and "fontUsers i db = [] \<longleftrightarrow>
         (\<forall>r \<in> set (ap_themes db). \<forall>d role. te_decode E (tr_Definition r) = Some d \<longrightarrow> \<not> fontUsed E d role i)"
proof -
  have role: "role \<in> set roles" for role by (cases role) simp_all
  have users: "fontUsers i db = [] \<longleftrightarrow> (\<forall>r \<in> set (ap_themes db). \<forall>role. (tr_ID r, role, i) \<notin> set (ap_themeFonts db))"
  proof -
    let ?rs = "filter (\<lambda>r. \<exists>role \<in> set roles. (tr_ID r, role, i) \<in> set (ap_themeFonts db)) (themesByName db)"
    have "fontUsers i db = [] \<longleftrightarrow> ?rs = []" unfolding fontUsers_def by (rule dedup_map_Nil)
    also have "\<dots> \<longleftrightarrow> (\<forall>r \<in> set (ap_themes db). \<forall>role. (tr_ID r, role, i) \<notin> set (ap_themeFonts db))"
      unfolding filter_empty_conv using role by (simp only: themesByName_def set_sort) blast
    finally show ?thesis .
  qed
  have owner: "\<exists>r \<in> set (ap_themes db). tr_ID r = t" if "(t, role, i) \<in> set (ap_themeFonts db)" for t role
    using appearanceInvD(10) [OF inv that] by blast
  show "fontUsers i db = [] \<longleftrightarrow> i \<notin> (\<lambda>(t, role, f). f) ` set (ap_themeFonts db)"
  proof
    assume free: "fontUsers i db = []"
    show "i \<notin> (\<lambda>(t, role, f). f) ` set (ap_themeFonts db)"
    proof (clarify)
      fix t role assume "(t, role, i) \<in> set (ap_themeFonts db)"
      with owner free users show False by metis
    qed
  next
    assume "i \<notin> (\<lambda>(t, role, f). f) ` set (ap_themeFonts db)"
    then have "(t, role, i) \<notin> set (ap_themeFonts db)" for t role by force
    then show "fontUsers i db = []" using users by blast
  qed
  have "(\<exists>d. te_decode E (tr_Definition r) = Some d \<and> fontUsed E d role i) \<longleftrightarrow> (tr_ID r, role, i) \<in> set (ap_themeFonts db)"
    if "r \<in> set (ap_themes db)" for r role
    by (rule stored_theme [OF inv that]) simp
  then show "fontUsers i db = [] \<longleftrightarrow>
      (\<forall>r \<in> set (ap_themes db). \<forall>d role. te_decode E (tr_Definition r) = Some d \<longrightarrow> \<not> fontUsed E d role i)"
    unfolding users by blast
qed

lemma icon_free:
  "iconEdits i db = [] \<longleftrightarrow> (\<forall>e \<in> set (db_edits (ap_catalog db)). se_IconRef e \<noteq> i)"
  "brandUsers i db = [] \<longleftrightarrow> (\<forall>r \<in> set (ap_themes db). tr_BrandIconID r \<noteq> Some i \<and> tr_BrandLogoID r \<noteq> Some i)"
  by (auto simp: iconEdits_def brandUsers_def filter_empty_conv)

lemma one_matching:
  assumes "unique_key key rows"
  shows "length (filter (\<lambda>r. key r = k \<and> Q r) rows) = 1 \<longleftrightarrow> (\<exists>r \<in> set rows. key r = k \<and> Q r)"
proof
  assume "\<exists>r \<in> set rows. key r = k \<and> Q r"
  then obtain r where r: "r \<in> set rows" "key r = k" "Q r" by blast
  have "distinct rows" using assms by (simp add: unique_key_def distinct_map)
  have "set (filter (\<lambda>r. key r = k \<and> Q r) rows) = {r}"
    using r assms unfolding unique_key_def by (auto dest: distinct_map_inj_on)
  then show "length (filter (\<lambda>r. key r = k \<and> Q r) rows) = 1"
    using distinct_card [OF distinct_filter [OF \<open>distinct rows\<close>, of "\<lambda>r. key r = k \<and> Q r"]] by simp
next
  assume "length (filter (\<lambda>r. key r = k \<and> Q r) rows) = 1"
  then have "filter (\<lambda>r. key r = k \<and> Q r) rows \<noteq> []" by auto
  then show "\<exists>r \<in> set rows. key r = k \<and> Q r" by (auto simp: filter_empty_conv)
qed

text \<open>
  C35. Only what nothing refers to can be deleted. A font is deleted exactly when it is stored, the request names
  its revision and no definition of a stored theme uses it; an uploaded icon exactly when it is unchanged and is
  neither the icon of an edited service nor a brand image of a theme; a theme exactly when the request names its
  revision and the settings do not select it.
\<close>
theorem only_unreferenced_is_deleted:
  assumes inv: "appearanceInv E C db"
  shows "((\<exists>db'. DeleteFont f revision db = Inr db') \<longleftrightarrow>
           f \<in> fr_ID ` set (ap_fonts db) \<and> revision = ''1'' \<and>
           (\<forall>r \<in> set (ap_themes db). \<forall>d role. te_decode E (tr_Definition r) = Some d \<longrightarrow> \<not> fontUsed E d role f)) \<and>
         ((\<exists>db'. IconDelete i digest db = Inr db') \<longleftrightarrow>
           (\<exists>r \<in> set (ap_icons db). ic_ID r = i \<and> ic_Digest r = digest) \<and>
           (\<forall>e \<in> set (db_edits (ap_catalog db)). se_IconRef e \<noteq> i) \<and>
           (\<forall>r \<in> set (ap_themes db). tr_BrandIconID r \<noteq> Some i \<and> tr_BrandLogoID r \<noteq> Some i)) \<and>
         ((\<exists>db'. DeleteTheme E t revision db = Inr db') \<longleftrightarrow>
           ValidID t ''theme'' \<and> ValidRevision revision \<and>
           (\<exists>r \<in> set (ap_themes db). tr_ID r = t \<and> FormatInt (tr_Revision r) = revision) \<and>
           sr_CustomThemeID (ap_settings db) \<noteq> Some t)"
proof -
  note D = appearanceInvD [OF inv] and users = font_users [OF inv, of f]
  have "(\<exists>db'. DeleteFont f revision db = Inr db') \<longleftrightarrow> f \<in> fr_ID ` set (ap_fonts db) \<and> revision = ''1'' \<and> fontUsers f db = []"
  proof (cases "tbl_get fr_ID f (ap_fonts db)")
    case None
    then have "f \<notin> fr_ID ` set (ap_fonts db)" by (simp add: tbl_get_None)
    with None show ?thesis by (simp add: DeleteFont_def FontGet_def)
  next
    case (Some r)
    then have r: "r \<in> set (ap_fonts db)" "fr_ID r = f" using tbl_get_Some [OF Some] by simp_all
    then have "ValidID f ''font''" "fr_Revision r = 1" using D(8) [OF r(1)] by (auto simp: fontOK_def)
    then show ?thesis using r Some users(1) ValidRevision_one by (auto simp: DeleteFont_def FontGet_def)
  qed
  moreover have "(\<exists>db'. IconDelete i digest db = Inr db') \<longleftrightarrow>
      (\<exists>r \<in> set (ap_icons db). ic_ID r = i \<and> ic_Digest r = digest) \<and> iconEdits i db = [] \<and> brandUsers i db = []"
    using one_matching [OF D(2), of i "\<lambda>r. ic_Digest r = digest \<and> iconEdits i db = [] \<and> brandUsers i db = []"]
    by (auto simp: IconDelete_def Let_def)
  moreover have "(\<exists>db'. DeleteTheme E t revision db = Inr db') \<longleftrightarrow>
      ValidID t ''theme'' \<and> ValidRevision revision \<and>
      (\<exists>r \<in> set (ap_themes db). tr_ID r = t \<and> FormatInt (tr_Revision r) = revision) \<and>
      sr_CustomThemeID (ap_settings db) \<noteq> Some t"
  proof (cases "ValidID t ''theme'' \<and> t \<in> tr_ID ` set (ap_themes db)")
    case True
    from get_theme [OF inv True [THEN conjunct2]] obtain r theme where r: "tbl_get tr_ID t (ap_themes db) = Some r"
        "GetTheme E t db = Inr theme" "th_Revision theme = FormatInt (tr_Revision r)"
      by (metis Theme.select_convs(5))
    have "t \<noteq> []" using True ValidID_length [of t] by auto
    then have "sl_ID (sg_Selection (settingsOf db)) = t \<longleftrightarrow> sr_CustomThemeID (ap_settings db) = Some t"
      using D(11) by (auto simp: settingsOf_def settingsOK_def noSelection_def coalesce_def Let_def split: option.splits)
    moreover have "(\<exists>q \<in> set (ap_themes db). tr_ID q = t \<and> FormatInt (tr_Revision q) = revision) \<longleftrightarrow>
        FormatInt (tr_Revision r) = revision"
      using tbl_get_Some [OF r(1)] tbl_get_unique [OF D(3)] r(1) by (metis option.inject)
    ultimately show ?thesis using True r by (auto simp: DeleteTheme_def deleteThemeRow_def)
  next
    case False
    then show ?thesis by (auto simp: DeleteTheme_def dest: GetTheme_Inr split: sum.splits if_splits)
  qed
  ultimately show ?thesis unfolding users(2) icon_free by blast
qed

text \<open>
  Creating a theme. A created theme is what reading it gives, with revision 1 and, if it was copied, the
  definition and the brand images of its source; all other themes, the fonts, icons and settings stay as they
  are. Repeating the request is answered with the theme and changes nothing.
\<close>
theorem created_theme_reads_back:
  assumes "themesOK E" and "appearanceInv E C db" and "CreateTheme E c db = Inr ((t, True), db')"
  shows "GetTheme E (cr_ID c) db' = Inr t \<and> th_Name t = cr_Name c \<and> th_Revision t = ''1'' \<and>
         (case cr_CopyFrom c of
            Some f \<Rightarrow> \<exists>s. GetTheme E (cp_ID f) db = Inr s \<and> th_Revision s = cp_ExpectedRevision f \<and>
                        th_Definition t = th_Definition s \<and> th_BrandIconID t = th_BrandIconID s \<and> th_BrandLogoID t = th_BrandLogoID s
          | None \<Rightarrow> cr_Definition c = Some (th_Definition t) \<and> th_BrandIconID t = cr_BrandIconID c) \<and>
         CreateTheme E c db' = Inr ((t, False), db') \<and>
         (\<forall>i. i \<noteq> cr_ID c \<longrightarrow> tbl_get tr_ID i (ap_themes db') = tbl_get tr_ID i (ap_themes db)) \<and>
         ap_fonts db' = ap_fonts db \<and> ap_catalog db' = ap_catalog db \<and> ap_settings db' = ap_settings db"
proof -
  let ?dg = "jsonDigest E (te_createText E c)"
  note parts = CreateTheme_cases [OF assms(3), unfolded if_P [OF TrueI]]
  then have I: "appearanceInv E C db' \<and> ap_themes db' = ap_themes db @ [newThemeRow E t ?dg] \<and> ap_fonts db' = ap_fonts db \<and>
         ap_catalog db' = ap_catalog db \<and> ap_settings db' = ap_settings db"
    by (intro insertTheme_inv [OF assms(1,2)]) auto
  have row: "tr_ID (newThemeRow E t ?dg) = cr_ID c" using parts by (simp add: newThemeRow_def)
  have valid: "te_valid E (th_Definition t)" using parts by (simp add: checkFonts_None)
  have get: "tbl_get tr_ID (cr_ID c) (ap_themes db') = Some (newThemeRow E t ?dg)"
    using I parts row by (simp add: tbl_get_append tbl_get_None [THEN iffD2]) (simp add: tbl_get_def)
  have read: "themeFromRow E (newThemeRow E t ?dg) = Inr t"
    using parts themesOKD(1) [OF assms(1) valid] ValidRevision_one(1) by (simp add: themeFromRow_def newThemeRow_def)
  have fits: "createFits c" using assms(3) by (auto simp: CreateTheme_def split: if_splits)
  have "CreateTheme E c db' = Inr ((t, False), db')"
    using fits get read by (simp add: CreateTheme_def newThemeRow_def)
  moreover have "GetTheme E (cr_ID c) db' = Inr t" using get read by (simp add: GetTheme_def)
  moreover have "createSource E c db = Inr (th_Definition t, th_BrandIconID t, th_BrandLogoID t)"
    using assms(3) by (auto simp: CreateTheme_def Let_def map_sum_def split: if_splits option.splits sum.splits)
  then have "case cr_CopyFrom c of
            Some f \<Rightarrow> \<exists>s. GetTheme E (cp_ID f) db = Inr s \<and> th_Revision s = cp_ExpectedRevision f \<and>
                        th_Definition t = th_Definition s \<and> th_BrandIconID t = th_BrandIconID s \<and> th_BrandLogoID t = th_BrandLogoID s
          | None \<Rightarrow> cr_Definition c = Some (th_Definition t) \<and> th_BrandIconID t = cr_BrandIconID c"
    by (auto simp: createSource_def split: option.splits if_splits sum.splits)
  moreover have "tbl_get tr_ID i (ap_themes db') = tbl_get tr_ID i (ap_themes db)" if "i \<noteq> cr_ID c" for i
    using I row that by (simp add: tbl_get_append split: option.split) (simp add: tbl_get_def)
  ultimately show ?thesis using I parts by blast
qed

section \<open>Evaluations\<close>

text \<open>Definitions that are their own text, one preset, no uploaded fonts.\<close>

definition evalThemes :: "string theme_env" where
  "evalThemes =
     \<lparr>te_lib = evalLib, te_decode = Some, te_encode = (\<lambda>d. d), te_schema = (\<lambda>_. 1), te_provenance = (\<lambda>_. []),
      te_valid = (\<lambda>_. True), te_source = (\<lambda>_ _. ''pack''), te_fontID = (\<lambda>_ _. []), te_resolves = (\<lambda>_ _. True),
      te_preset = (\<lambda>k. if k = ''goshtoso'' then Some ''g'' else None), te_builtin = [(''goshtoso'', ''Goshtoso'')],
      te_catalogRevision = ''r'', te_saveText = cm_CommandID, te_createText = cr_ID\<rparr>"

lemma evalThemes_sel [simp]:
  "te_lib evalThemes = evalLib" "te_decode evalThemes = Some" "te_encode evalThemes d = d" "te_valid evalThemes d"
  "\<not> uploaded evalThemes d role" "te_resolves evalThemes d role"
  "te_preset evalThemes k = (if k = ''goshtoso'' then Some ''g'' else None)" "te_builtin evalThemes = [(''goshtoso'', ''Goshtoso'')]"
  "te_catalogRevision evalThemes = ''r''"
  by (simp_all add: evalThemes_def uploaded_def)

lemma evalThemes_OK: "themesOK evalThemes"
  by (simp add: themesOK_def ascii_valid)

lemma evalThemes_fonts: "checkFonts evalThemes db d = None"
  by (simp add: checkFonts_None)

abbreviation startDb :: "string appearance_db" where
  "startDb \<equiv> emptyAppearance"

lemma startDb_inv: "appearanceInv evalThemes C startDb"
  by (rule emptyAppearance_inv [OF evalThemes_OK])

definition sampleCreate :: "string Create" where
  "sampleCreate =
     \<lparr>cr_BrandLogoID = None, cr_BrandIconID = [], cr_ID = ''theme:11111111-1111-4111-8111-111111111111'', cr_Name = ''T'',
      cr_Definition = Some ''d'', cr_CopyFrom = None\<rparr>"

lemma sampleCreate_fits: "createFits sampleCreate"
proof -
  have "ValidID (cr_ID sampleCreate) ''theme''" by code_simp
  moreover have "TrimSpace ''T'' = ''T''" by (intro TrimSpace_trimmed plain_trimmed; simp)
  then have "ValidName ''T''" by (simp add: ValidName_def RuneCount_ascii ascii_valid ContainsAny_def)
  ultimately show ?thesis by (simp add: createFits_def) (simp add: sampleCreate_def)
qed

lemma sampleCreate_run:
  "\<exists>t db'. CreateTheme evalThemes sampleCreate startDb = Inr ((t, True), db') \<and> th_ID t = cr_ID sampleCreate"
  by (simp add: sampleCreate_fits CreateTheme_def createSource_def insertTheme_def references_def evalThemes_fonts checkBrand_def brandsKnown_def
      emptyAppearance_def tbl_get_def MaxThemes_def Let_def)
     (simp add: sampleCreate_def evalThemes_fonts checkBrand_def or_else_def insertTheme_def references_def brandsKnown_def
      tbl_get_def MaxThemes_def Let_def)

lemma appearance_reachable_inv_witness:
  "\<exists>db t. GetTheme evalThemes (cr_ID sampleCreate) db = Inr t \<and> appearanceInv evalThemes evalEnv db \<and>
     (\<exists>st. PresentationState evalThemes db = Inr st)"
proof -
  obtain t db where run: "CreateTheme evalThemes sampleCreate startDb = Inr ((t, True), db)"
    using sampleCreate_run by blast
  then have "appearanceStep evalThemes evalEnv startDb db" by (rule appearanceStep.create)
  then have "(appearanceStep evalThemes evalEnv)\<^sup>*\<^sup>* startDb db" by (rule r_into_rtranclp)
  note A = appearance_reachable_inv [OF evalThemes_OK this]
  have "cr_ID sampleCreate \<in> tr_ID ` set (ap_themes db)"
  proof -
    have "ap_themes db = ap_themes startDb @ [newThemeRow evalThemes t (jsonDigest evalThemes (te_createText evalThemes sampleCreate))]"
        "th_ID t = cr_ID sampleCreate"
      using CreateTheme_cases [OF run] insertTheme_inv [OF evalThemes_OK startDb_inv] by auto
    then show ?thesis by (simp add: newThemeRow_def)
  qed
  with A show ?thesis by blast
qed

lemma created_theme_reads_back_witness:
  "\<exists>t db. CreateTheme evalThemes sampleCreate startDb = Inr ((t, True), db) \<and>
     GetTheme evalThemes (cr_ID sampleCreate) db = Inr t \<and> th_Definition t = ''d''"
proof -
  obtain t db where run: "CreateTheme evalThemes sampleCreate startDb = Inr ((t, True), db)"
    using sampleCreate_run by blast
  from created_theme_reads_back [OF evalThemes_OK startDb_inv run] run show ?thesis
    by (auto simp: sampleCreate_def)
qed

definition sampleSave :: "string Save" where
  "sampleSave =
     \<lparr>cm_CommandID = ''11111111-1111-4111-8111-111111111111'', cm_ExpectedSettingsRevision = ''0'', cm_ColorMode = ''dark'',
      cm_Selection = noSelection\<lparr>sl_Kind := ''builtin'', sl_Key := ''goshtoso'', sl_ExpectedCatalogRevision := ''r''\<rparr>\<rparr>"

lemma sampleSave_run: "\<exists>r db'. PresentationSave evalThemes sampleSave startDb = Inr (r, db')"
proof -
  have "ValidCommand (cm_CommandID sampleSave)" "FormatInt 0 = ''0''" by code_simp+
  moreover from this(2) have "ValidRevision ''0''" using ValidRevision_FormatInt [of 0] by simp
  moreover have "selectionFits (cm_Selection sampleSave)" by (simp add: selectionFits_def sampleSave_def noSelection_def)
  ultimately show ?thesis
    by (simp add: PresentationSave_def sampleSave_def settingsOf_def emptyAppearance_def applySelection_def saveBuiltin_def
        evalThemes_fonts Let_def noSelection_def)
qed

lemma saved_settings_are_shown_witness:
  "\<exists>r db st. PresentationSave evalThemes sampleSave startDb = Inr (r, db) \<and>
     PresentationState evalThemes db = Inr st \<and> sg_ColorMode (sa_Settings st) = ''dark'' \<and> sa_Definition st = ''g'' \<and>
     PresentationSave evalThemes sampleSave db = Inr (r, db)"
proof -
  obtain r db where run: "PresentationSave evalThemes sampleSave startDb = Inr (r, db)" using sampleSave_run by blast
  have new: "sr_LastCommandID (ap_settings startDb) \<noteq> cm_CommandID sampleSave"
    and small: "sr_Revision (ap_settings startDb) < 2 ^ 63 - 1"
    by (simp_all add: emptyAppearance_def sampleSave_def)
  have sel: "sl_Kind (cm_Selection sampleSave) = ''builtin''" "cm_ColorMode sampleSave = ''dark''"
    "te_preset evalThemes (sl_Key (cm_Selection sampleSave)) = Some ''g''"
    by (simp_all add: sampleSave_def)
  from saved_settings_are_shown [OF evalThemes_OK startDb_inv run new small, of undefined] run sel
  show ?thesis by (auto simp: Let_def)
qed

lemma only_unreferenced_is_deleted_witness:
  "\<exists>t db. CreateTheme evalThemes sampleCreate startDb = Inr ((t, True), db) \<and>
     (\<exists>db'. DeleteTheme evalThemes (cr_ID sampleCreate) ''1'' db = Inr db')"
proof -
  obtain t db where run: "CreateTheme evalThemes sampleCreate startDb = Inr ((t, True), db)"
    using sampleCreate_run by blast
  let ?dg = "jsonDigest evalThemes (te_createText evalThemes sampleCreate)"
  have I: "appearanceInv evalThemes evalEnv db \<and> ap_themes db = ap_themes startDb @ [newThemeRow evalThemes t ?dg] \<and>
      ap_settings db = ap_settings startDb" and "th_ID t = cr_ID sampleCreate"
    using CreateTheme_cases [OF run] insertTheme_inv [OF evalThemes_OK startDb_inv] by auto
  then have row: "\<exists>r \<in> set (ap_themes db). tr_ID r = cr_ID sampleCreate \<and> FormatInt (tr_Revision r) = ''1''"
    using FormatInt_one by (simp add: newThemeRow_def)
  have valid: "ValidID (cr_ID sampleCreate) ''theme''" using sampleCreate_fits by (simp add: createFits_def)
  have free: "sr_CustomThemeID (ap_settings db) \<noteq> Some (cr_ID sampleCreate)" using I by (simp add: emptyAppearance_def)
  have "\<exists>db'. DeleteTheme evalThemes (cr_ID sampleCreate) ''1'' db = Inr db'"
    using only_unreferenced_is_deleted [OF I [THEN conjunct1], of "[]" "''1''" "[]" "[]" "cr_ID sampleCreate"] row valid free
      ValidRevision_one(2) by blast
  with run show ?thesis by blast
qed

end
