(* ===== verification/FontFormat.thy ===== *)
theory FontFormat
  imports PresentationModel
begin

text \<open>
  The reader of font files (\<open>internal/adapters/fontvalidate/font.go\<close>): the containers TrueType/OpenType, WOFF
  and WOFF2 and the tables that name and describe a font. A file is a list of bytes. Reading outside of a
  slice is the outcome \<open>Panics\<close>; slicing beyond the length, which Go allows up to the capacity, counts as
  such, too. \<open>uint64\<close> additions are written with their wrap-around; the \<open>int\<close> expressions, which stay below
  2^32 here, without.

  The decompressors, the text of a fixed-point number (\<open>strconv.FormatFloat\<close> of n / 65536) and
  \<open>slices.SortFunc\<close> are the record \<open>font_env\<close>. A decompressor is read through a \<open>LimitReader\<close>: it gets the
  largest number of bytes to return. \<open>SortFunc\<close> is not stable, and the comparison in \<open>extraBlocks\<close> is not an
  order on entries with the same offset, so no theorem relies on more than that it permutes the entries.
  \<open>Validate\<close> runs one call at a time; waiting for that and its cancellation are left out.
\<close>

section \<open>Reading bytes\<close>

datatype 'a outcome = Returns 'a | Refused presentation_error | Panics

definition andThen :: "'a outcome \<Rightarrow> ('a \<Rightarrow> 'b outcome) \<Rightarrow> 'b outcome" where
  "andThen m f = (case m of Returns x \<Rightarrow> f x | Refused e \<Rightarrow> Refused e | Panics \<Rightarrow> Panics)"

primrec eachOf :: "('a \<Rightarrow> 'b outcome) \<Rightarrow> 'a list \<Rightarrow> 'b list outcome" where
  "eachOf f [] = Returns []"
| "eachOf f (x # xs) = andThen (f x) (\<lambda>y. andThen (eachOf f xs) (\<lambda>ys. Returns (y # ys)))"

record entry =
  en_tag :: string
  en_offset :: nat
  en_size :: nat
  en_original :: nat
  en_transformed :: bool

record font_env =
  fe_zlib :: "string \<Rightarrow> nat \<Rightarrow> string option"
  fe_brotli :: "string \<Rightarrow> nat \<Rightarrow> string option"
  fe_fixedText :: "int \<Rightarrow> string"
  fe_sort :: "(entry \<Rightarrow> entry \<Rightarrow> int) \<Rightarrow> entry list \<Rightarrow> entry list"

definition badFont :: presentation_error where
  "badFont = PresentationError ''invalid_request'' ''Malformed font container or metadata.'' None []"

definition largeFont :: presentation_error where
  "largeFont = PresentationError ''upload_too_large'' ''Font exceeds upload or decoded-data limits.'' None []"

definition unsupportedFont :: presentation_error where
  "unsupportedFont = PresentationError ''unsupported_font'' ''Use a single WOFF2, WOFF, TTF, or OTF font.'' None []"

definition maxDecoded :: nat where
  "maxDecoded = 64 * 2 ^ 20"

definition maxMetadata :: nat where
  "maxMetadata = 2 ^ 20"

definition add64 :: "nat \<Rightarrow> nat \<Rightarrow> nat" where
  "add64 a b = (a + b) mod 2 ^ 64"

text \<open>\<open>(x + 3) &^ 3\<close>\<close>

definition roundUp4 :: "nat \<Rightarrow> nat" where
  "roundUp4 x = add64 x 3 div 4 * 4"

definition slice :: "string \<Rightarrow> nat \<Rightarrow> nat \<Rightarrow> string outcome" where
  "slice b lo hi = (if lo \<le> hi \<and> hi \<le> length b then Returns (take (hi - lo) (drop lo b)) else Panics)"

definition byteAt :: "string \<Rightarrow> nat \<Rightarrow> nat outcome" where
  "byteAt b i = (if i < length b then Returns (byte (b ! i)) else Panics)"

definition bigEndian :: "string \<Rightarrow> nat" where
  "bigEndian b = foldl (\<lambda>n c. 256 * n + byte c) 0 b"

definition u16 :: "string \<Rightarrow> nat \<Rightarrow> nat outcome" where
  "u16 b i = andThen (slice b i (i + 2)) (\<lambda>s. Returns (bigEndian s))"

definition u32 :: "string \<Rightarrow> nat \<Rightarrow> nat outcome" where
  "u32 b i = andThen (slice b i (i + 4)) (\<lambda>s. Returns (bigEndian s))"

definition signed32 :: "nat \<Rightarrow> int" where
  "signed32 v = (if v < 2 ^ 31 then int v else int v - 2 ^ 32)"

definition fontRegion :: "string \<Rightarrow> nat \<Rightarrow> nat \<Rightarrow> string outcome" where
  "fontRegion b offset sz =
     (if offset > length b \<or> sz > length b - offset then Refused badFont else slice b offset (add64 offset sz))"

definition metadataTag :: "string \<Rightarrow> bool" where
  "metadataTag tag \<longleftrightarrow> tag \<in> {''name'', ''OS/2'', ''head'', ''maxp'', ''cmap'', ''hhea'', ''fvar''}"

section \<open>Directories\<close>

primrec boundsFrom :: "entry list \<Rightarrow> string list \<Rightarrow> nat \<Rightarrow> presentation_error option" where
  "boundsFrom [] seen used = None"
| "boundsFrom (t # ts) seen used =
     (if en_tag t \<in> set seen then Some badFont
      else (let used' = add64 used (en_original t) in
            if used' > maxDecoded \<or> en_original t > maxDecoded \<or> metadataTag (en_tag t) \<and> en_original t > maxMetadata
            then Some largeFont
            else boundsFrom ts (en_tag t # seen) used'))"

definition tableBounds :: "entry list \<Rightarrow> nat \<Rightarrow> presentation_error option" where
  "tableBounds entries sz =
     (if entries = [] \<or> length entries > 256 then Some badFont
      else (case boundsFrom entries [] 0 of
              Some e \<Rightarrow> Some e
            | None \<Rightarrow> fail_if (sz > maxDecoded) largeFont))"

type_synonym tables = "string \<rightharpoonup> string"

definition inflate :: "font_env \<Rightarrow> string \<Rightarrow> nat \<Rightarrow> string outcome" where
  "inflate E chunk original =
     (case fe_zlib E chunk (original + 1) of
        None \<Rightarrow> Refused badFont
      | Some out \<Rightarrow> if length out \<noteq> original then Refused badFont else Returns out)"

primrec extractFrom :: "entry list \<Rightarrow> font_env \<Rightarrow> string \<Rightarrow> bool \<Rightarrow> nat \<Rightarrow> tables \<Rightarrow> tables outcome" where
  "extractFrom [] E data compressed stop found = Returns found"
| "extractFrom (t # ts) E data compressed stop found =
     (if en_original t = 0 \<and> en_size t = 0
      then extractFrom ts E data compressed stop (found(en_tag t \<mapsto> []))
      else if en_offset t < stop \<or> en_offset t mod 4 \<noteq> 0 then Refused badFont
      else andThen (fontRegion data (en_offset t) (en_size t)) (\<lambda>chunk.
             if en_size t > en_original t then Refused badFont
             else andThen (if compressed \<and> en_size t < en_original t then inflate E chunk (en_original t) else Returns chunk) (\<lambda>table.
               if length table \<noteq> en_original t then Refused badFont
               else extractFrom ts E data compressed (add64 (en_offset t) (en_size t))
                      (found(en_tag t \<mapsto> (if metadataTag (en_tag t) then table else []))))))"

definition byOffset :: "entry \<Rightarrow> entry \<Rightarrow> int" where
  "byOffset a b = (if en_offset a < en_offset b then -1 else if en_offset a > en_offset b then 1 else 0)"

definition extractTables :: "font_env \<Rightarrow> string \<Rightarrow> entry list \<Rightarrow> nat \<Rightarrow> bool \<Rightarrow> tables outcome" where
  "extractTables E data es start compressed = extractFrom (fe_sort E byOffset es) E data compressed start Map.empty"

section \<open>TrueType and OpenType\<close>

definition sfntEntry :: "string \<Rightarrow> nat \<Rightarrow> entry outcome" where
  "sfntEntry data i =
     (let p = 12 + i * 16 in
      andThen (slice data p (p + 4)) (\<lambda>tag.
      andThen (u32 data (p + 8)) (\<lambda>offset.
      andThen (u32 data (p + 12)) (\<lambda>sz.
        Returns \<lparr>en_tag = tag, en_offset = offset, en_size = sz, en_original = sz, en_transformed = False\<rparr>))))"

definition sfnt :: "font_env \<Rightarrow> string \<Rightarrow> tables outcome" where
  "sfnt E data =
     (if length data < 12 then Refused badFont
      else andThen (u16 data 4) (\<lambda>n.
             if n = 0 \<or> n > 256 \<or> 12 + 16 * n > length data then Refused badFont
             else andThen (eachOf (sfntEntry data) [0..<n]) (\<lambda>es.
                    case tableBounds es (length data) of
                      Some e \<Rightarrow> Refused e
                    | None \<Rightarrow> extractTables E data es (12 + 16 * n) False)))"

section \<open>WOFF\<close>

definition extraRange :: "string \<Rightarrow> nat \<Rightarrow> entry list outcome" where
  "extraRange data p =
     andThen (u32 data p) (\<lambda>offset.
     andThen (u32 data (p + 4)) (\<lambda>sz.
       if offset = 0 \<and> sz = 0 then Returns []
       else if offset = 0 \<or> sz = 0 \<or> offset mod 4 \<noteq> 0 then Refused badFont
       else andThen (fontRegion data offset sz) (\<lambda>_.
              Returns [\<lparr>en_tag = [], en_offset = offset, en_size = sz, en_original = 0, en_transformed = False\<rparr>])))"

primrec apart :: "entry list \<Rightarrow> nat \<Rightarrow> bool" where
  "apart [] stop = True"
| "apart (r # rs) stop = (if en_offset r < stop then False else apart rs (add64 (en_offset r) (en_size r)))"

definition byOffsetOrLater :: "entry \<Rightarrow> entry \<Rightarrow> int" where
  "byOffsetOrLater a b = (if en_offset a < en_offset b then -1 else 1)"

definition extraBlocks :: "font_env \<Rightarrow> string \<Rightarrow> nat \<Rightarrow> nat \<Rightarrow> nat \<Rightarrow> entry list \<Rightarrow> unit outcome" where
  "extraBlocks E data meta priv start entries =
     andThen (eachOf (extraRange data) [meta, priv]) (\<lambda>extra.
       if apart (fe_sort E byOffsetOrLater (entries @ concat extra)) start then Returns () else Refused badFont)"

definition woffEntry :: "string \<Rightarrow> nat \<Rightarrow> entry outcome" where
  "woffEntry data i =
     (let p = 44 + 20 * i in
      andThen (slice data p (p + 4)) (\<lambda>tag.
      andThen (u32 data (p + 4)) (\<lambda>offset.
      andThen (u32 data (p + 8)) (\<lambda>sz.
      andThen (u32 data (p + 12)) (\<lambda>original.
        Returns \<lparr>en_tag = tag, en_offset = offset, en_size = sz, en_original = original, en_transformed = False\<rparr>)))))"

definition knownFlavor :: "nat \<Rightarrow> bool" where
  "knownFlavor flavor \<longleftrightarrow> flavor = 0x00010000 \<or> flavor = 0x4f54544f"

definition woff :: "font_env \<Rightarrow> string \<Rightarrow> tables outcome" where
  "woff E data =
     (if length data < 44 then Refused badFont
      else
        andThen (u32 data 8) (\<lambda>sz.
        andThen (u16 data 14) (\<lambda>reserved.
        if sz \<noteq> length data mod 2 ^ 32 \<or> reserved \<noteq> 0 then Refused badFont
        else
        andThen (u32 data 4) (\<lambda>flavor.
        if \<not> knownFlavor flavor then Refused unsupportedFont
        else
        andThen (u16 data 12) (\<lambda>n.
        if n = 0 \<or> n > 256 \<or> 44 + 20 * n > length data then Refused badFont
        else
        andThen (u32 data 16) (\<lambda>sfntTotal.
        andThen (u32 data 32) (\<lambda>metaOriginal.
        if sfntTotal > maxDecoded \<or> metaOriginal > maxMetadata then Refused largeFont
        else
        andThen (eachOf (woffEntry data) [0..<n]) (\<lambda>es.
        let sfntSize = fold (\<lambda>t s. add64 s (roundUp4 (en_original t))) es (12 + 16 * n) in
        if sfntSize \<noteq> sfntTotal then Refused badFont
        else (case tableBounds es sfntSize of
                Some e \<Rightarrow> Refused e
              | None \<Rightarrow>
                  andThen (extraBlocks E data 24 36 (44 + 20 * n) es) (\<lambda>_.
                    extractTables E data es (44 + 20 * n) True))))))))))"

section \<open>WOFF2\<close>

definition knownTags :: "string list" where
  "knownTags =
     [''cmap'', ''head'', ''hhea'', ''hmtx'', ''maxp'', ''name'', ''OS/2'', ''post'', ''cvt '', ''fpgm'', ''glyf'', ''loca'', ''prep'',
      ''CFF '', ''VORG'', ''EBDT'', ''EBLC'', ''gasp'', ''hdmx'', ''kern'', ''LTSH'', ''PCLT'', ''VDMX'', ''vhea'', ''vmtx'', ''BASE'',
      ''GDEF'', ''GPOS'', ''GSUB'', ''EBSC'', ''JSTF'', ''MATH'', ''CBDT'', ''CBLC'', ''COLR'', ''CPAL'', ''SVG '', ''sbix'', ''acnt'',
      ''avar'', ''bdat'', ''bloc'', ''bsln'', ''cvar'', ''fdsc'', ''feat'', ''fmtx'', ''fvar'', ''gvar'', ''hsty'', ''just'', ''lcar'',
      ''mort'', ''morx'', ''opbd'', ''prop'', ''trak'', ''Zapf'', ''Silf'', ''Glat'', ''Gloc'', ''Feat'', ''Sill'']"

text \<open>
  The mask \<open>0xfe000000\<close> selects the bits from 25 to 31; \<open>value << 7 | b & 127\<close> joins bits that do not overlap.
\<close>

primrec base128From :: "nat \<Rightarrow> string \<Rightarrow> bool \<Rightarrow> nat \<Rightarrow> nat \<Rightarrow> (nat \<times> nat) outcome" where
  "base128From 0 data first acc pos = Refused badFont"
| "base128From (Suc k) data first acc pos =
     (if pos \<ge> length data then Refused badFont
      else andThen (byteAt data pos) (\<lambda>b.
             if first \<and> b = 0x80 \<or> acc div 2 ^ 25 mod 2 ^ 7 \<noteq> 0 then Refused badFont
             else (let acc' = acc * 2 ^ 7 mod 2 ^ 64 + b mod 128 in
                   if b < 128 then Returns (acc', pos + 1) else base128From k data False acc' (pos + 1))))"

definition base128 :: "string \<Rightarrow> nat \<Rightarrow> (nat \<times> nat) outcome" where
  "base128 data pos = base128From 5 data True 0 pos"

definition woff2Tag :: "string \<Rightarrow> nat \<Rightarrow> nat \<Rightarrow> (string \<times> nat) outcome" where
  "woff2Tag data index pos =
     (if index = 63 then andThen (fontRegion data pos 4) (\<lambda>tag. Returns (tag, pos + 4))
      else if index < length knownTags then Returns (knownTags ! index, pos)
      else Panics)"

abbreviation outline :: "string \<Rightarrow> bool" where
  "outline tag \<equiv> tag = ''glyf'' \<or> tag = ''loca''"

definition transformedSize :: "string \<Rightarrow> string \<Rightarrow> nat \<Rightarrow> (nat \<times> nat) outcome" where
  "transformedSize tag data pos =
     andThen (base128 data pos) (\<lambda>(sz, pos').
       if tag = ''loca'' \<and> sz \<noteq> 0 \<or> tag \<noteq> ''loca'' \<and> sz = 0 then Refused badFont else Returns (sz, pos'))"

text \<open>The directory: the entries, the position after it, the size of the decoded stream and of the font.\<close>

primrec woff2Entries :: "nat \<Rightarrow> string \<Rightarrow> nat \<Rightarrow> nat \<Rightarrow> nat \<Rightarrow> (entry list \<times> nat \<times> nat \<times> nat) outcome" where
  "woff2Entries 0 data pos used original = Returns ([], pos, used, original)"
| "woff2Entries (Suc n) data pos used original =
     (if pos \<ge> length data then Refused badFont
      else
        andThen (byteAt data pos) (\<lambda>flags.
        let version = flags div 64 in
        andThen (woff2Tag data (flags mod 64) (pos + 1)) (\<lambda>(tag, pos1).
        andThen (base128 data pos1) (\<lambda>(len, pos2).
        let transformed = outline tag \<and> version = 0 \<or> tag = ''hmtx'' \<and> version = 1 in
        if \<not> transformed \<and> version \<noteq> 0 \<and> \<not> (outline tag \<and> version = 3) then Refused badFont
        else
        andThen (if transformed then transformedSize tag data pos2 else Returns (len, pos2)) (\<lambda>(sz, pos3).
        let used' = add64 used sz; original' = add64 original (roundUp4 len) in
        if used' > maxDecoded \<or> original' > maxDecoded then Refused largeFont
        else andThen (woff2Entries n data pos3 used' original') (\<lambda>(es, rest).
               Returns (\<lparr>en_tag = tag, en_offset = used, en_size = sz, en_original = len, en_transformed = transformed\<rparr> # es, rest)))))))"

primrec decodedTables :: "entry list \<Rightarrow> string \<Rightarrow> tables \<Rightarrow> tables outcome" where
  "decodedTables [] decoded found = Returns found"
| "decodedTables (t # ts) decoded found =
     (if metadataTag (en_tag t)
      then andThen (slice decoded (en_offset t) (add64 (en_offset t) (en_size t))) (\<lambda>chunk.
             decodedTables ts decoded (found(en_tag t \<mapsto> chunk)))
      else decodedTables ts decoded (found(en_tag t \<mapsto> [])))"

definition lastEntry :: "string \<Rightarrow> entry list \<Rightarrow> entry option" where
  "lastEntry tag es = find (\<lambda>t. en_tag t = tag) (rev es)"

definition glyfOK :: "string \<Rightarrow> entry \<Rightarrow> unit outcome" where
  "glyfOK decoded g =
     (if en_size g < 36 then Refused badFont
      else
        andThen (slice decoded (en_offset g) (add64 (en_offset g) (en_size g))) (\<lambda>b.
        andThen (u16 b 0) (\<lambda>reserved.
        andThen (u16 b 6) (\<lambda>format.
        if reserved \<noteq> 0 \<or> format > 1 then Refused badFont
        else
        andThen (eachOf (u32 b) [8, 12, 16, 20, 24, 28, 32]) (\<lambda>streams.
        andThen (u16 b 2) (\<lambda>options.
        andThen (u16 b 4) (\<lambda>glyphs.
        let bytes = fold (\<lambda>s n. add64 n s) streams 36;
            all = (if options mod 2 \<noteq> 0 then add64 bytes ((glyphs + 7) div 8) else bytes) in
        if all > en_size g then Refused badFont else Returns ())))))))"

definition outlinesOK :: "string \<Rightarrow> entry list \<Rightarrow> unit outcome" where
  "outlinesOK decoded es =
     (case (lastEntry ''glyf'' es, lastEntry ''loca'' es) of
        (None, None) \<Rightarrow> Returns ()
      | (Some g, Some l) \<Rightarrow>
          if en_transformed g \<noteq> en_transformed l then Refused badFont
          else if en_transformed g then glyfOK decoded g else Returns ()
      | _ \<Rightarrow> Refused badFont)"

definition woff2 :: "font_env \<Rightarrow> string \<Rightarrow> tables outcome" where
  "woff2 E data =
     (if length data < 48 then Refused badFont
      else
        andThen (u32 data 8) (\<lambda>sz.
        andThen (u16 data 14) (\<lambda>reserved.
        if sz \<noteq> length data mod 2 ^ 32 \<or> reserved \<noteq> 0 then Refused badFont
        else
        andThen (u32 data 4) (\<lambda>flavor.
        if \<not> knownFlavor flavor then Refused unsupportedFont
        else
        andThen (u16 data 12) (\<lambda>n.
        if n = 0 \<or> n > 256 then Refused badFont
        else
        andThen (u32 data 16) (\<lambda>sfntTotal.
        andThen (u32 data 36) (\<lambda>metaOriginal.
        if sfntTotal > maxDecoded \<or> metaOriginal > maxMetadata then Refused largeFont
        else
        andThen (woff2Entries n data 48 0 0) (\<lambda>(es, pos, used, original).
        case tableBounds es original of
          Some e \<Rightarrow> Refused e
        | None \<Rightarrow>
            andThen (u32 data 20) (\<lambda>compressedSize.
            if pos > length data \<or> compressedSize > length data - pos \<or> compressedSize = 0 then Refused badFont
            else
            andThen (slice data pos (add64 pos compressedSize)) (\<lambda>compressed.
            andThen (extraBlocks E data 28 40 pos
                       [\<lparr>en_tag = [], en_offset = pos, en_size = compressedSize, en_original = 0, en_transformed = False\<rparr>]) (\<lambda>_.
            case fe_brotli E compressed (used + 1) of
              None \<Rightarrow> Refused badFont
            | Some decoded \<Rightarrow>
                if length decoded \<noteq> used then Refused badFont
                else andThen (decodedTables es decoded Map.empty) (\<lambda>found.
                       andThen (outlinesOK decoded es) (\<lambda>_. Returns found)))))))))))))"

section \<open>Names\<close>

text \<open>Version 1 of the table also lists language tags, which must lie in the table.\<close>

definition langTags :: "string \<Rightarrow> nat \<Rightarrow> nat \<Rightarrow> unit outcome" where
  "langTags data cnt offset =
     (let base = 6 + 12 * cnt in
      if base + 2 > length data then Refused badFont
      else
        andThen (u16 data base) (\<lambda>n.
        if base + 2 + 4 * n > offset then Refused badFont
        else
        andThen (eachOf (\<lambda>i. let p = base + 2 + 4 * i in
                           andThen (u16 data (p + 2)) (\<lambda>start.
                           andThen (u16 data p) (\<lambda>sz. fontRegion data (offset + start) sz))) [0..<n]) (\<lambda>_.
        Returns ())))"

definition utf16Text :: "string \<Rightarrow> string outcome" where
  "utf16Text chunk =
     andThen (eachOf (\<lambda>j. u16 chunk (j * 2)) [0..<length chunk div 2]) (\<lambda>units.
       Returns (stringOfRunes (decode_utf16 units)))"

definition namePriority :: "nat \<Rightarrow> nat \<Rightarrow> int" where
  "namePriority i lang = (if i = 16 then 2 else 0) + (if lang = 0x409 \<or> lang = 0 then 1 else 0)"

text \<open>One name record: the better of the name found so far and the record's.\<close>

definition nameRecord :: "string \<Rightarrow> nat \<Rightarrow> string \<times> int \<Rightarrow> nat \<Rightarrow> (string \<times> int) outcome" where
  "nameRecord data offset best i =
     (let p = 6 + 12 * i in
      andThen (u16 data p) (\<lambda>platform.
      andThen (u16 data (p + 6)) (\<lambda>ident.
      andThen (u16 data (p + 4)) (\<lambda>lang.
      andThen (u16 data (p + 10)) (\<lambda>start.
      andThen (u16 data (p + 8)) (\<lambda>sz.
      andThen (fontRegion data (offset + start) sz) (\<lambda>chunk.
      if ident \<noteq> 1 \<and> ident \<noteq> 16 then Returns best
      else if platform \<noteq> 0 \<and> platform \<noteq> 3 then Returns best
      else if length chunk mod 2 \<noteq> 0 then Refused badFont
      else
        andThen (utf16Text chunk) (\<lambda>raw.
        let text = TrimSpace raw in
        if RuneCount text > 200 \<or> list_ex (\<lambda>(r, w). IsControl r) (runes_of text) then Returns best
        else if text \<noteq> [] \<and> namePriority ident lang > snd best then Returns (text, namePriority ident lang)
        else Returns best))))))))"

primrec nameRecords :: "string \<Rightarrow> nat \<Rightarrow> nat list \<Rightarrow> string \<times> int \<Rightarrow> (string \<times> int) outcome" where
  "nameRecords data offset [] best = Returns best"
| "nameRecords data offset (i # rest) best =
     andThen (nameRecord data offset best i) (\<lambda>best'. nameRecords data offset rest best')"

definition naming :: "string \<Rightarrow> string outcome" where
  "naming data =
     (if length data < 6 then Refused badFont
      else
        andThen (u16 data 0) (\<lambda>version.
        if version > 1 then Refused badFont
        else
        andThen (u16 data 2) (\<lambda>cnt.
        andThen (u16 data 4) (\<lambda>offset.
        if 6 + 12 * cnt > length data \<or> offset < 6 + 12 * cnt \<or> offset > length data then Refused badFont
        else
        andThen (if version = 1 then langTags data cnt offset else Returns ()) (\<lambda>_.
        andThen (nameRecords data offset [0..<cnt] ([], -1)) (\<lambda>best.
        Returns (fst best)))))))"

section \<open>The description of a font\<close>

definition tableOf :: "tables \<Rightarrow> string \<Rightarrow> string" where
  "tableOf t key = (case t key of None \<Rightarrow> [] | Some b \<Rightarrow> b)"

definition minimumLengths :: "(string \<times> nat) list" where
  "minimumLengths = [(''head'', 54), (''maxp'', 6), (''cmap'', 4), (''hhea'', 36), (''name'', 6)]"

definition hasOutlines :: "tables \<Rightarrow> bool" where
  "hasOutlines t \<longleftrightarrow>
     t ''hmtx'' \<noteq> None \<and> (t ''glyf'' \<noteq> None \<longleftrightarrow> t ''loca'' \<noteq> None)
     \<and> (t ''glyf'' \<noteq> None \<or> t ''CFF '' \<noteq> None \<or> t ''CFF2'' \<noteq> None)"

text \<open>
  One axis of a variable font. The numbers are \<open>int32 / 65536\<close>, exact in \<open>float64\<close>, so they are compared here
  before the division; none is a NaN.
\<close>

definition axis :: "font_env \<Rightarrow> string \<Rightarrow> nat \<Rightarrow> string list \<times> string \<Rightarrow> (string list \<times> string) outcome" where
  "axis E b p = (\<lambda>(seen, weight).
     andThen (slice b p (p + 4)) (\<lambda>tag.
     if tag \<in> set seen then Refused badFont
     else
     andThen (u32 b (p + 4)) (\<lambda>lo32.
     andThen (u32 b (p + 8)) (\<lambda>def32.
     andThen (u32 b (p + 12)) (\<lambda>hi32.
     let lo = signed32 lo32; def = signed32 def32; hi = signed32 hi32 in
     if lo > def \<or> def > hi then Refused badFont
     else Returns (tag # seen,
                   if tag = ''wght'' \<and> lo \<ge> 65536 \<and> hi \<le> 1000 * 65536
                   then fe_fixedText E lo @ '' '' @ fe_fixedText E hi else weight))))))"

primrec axes :: "font_env \<Rightarrow> string \<Rightarrow> nat list \<Rightarrow> string list \<times> string \<Rightarrow> (string list \<times> string) outcome" where
  "axes E b [] found = Returns found"
| "axes E b (p # ps) found = andThen (axis E b p found) (\<lambda>found'. axes E b ps found')"

definition variation :: "font_env \<Rightarrow> string \<Rightarrow> string \<Rightarrow> string outcome" where
  "variation E b weight =
     (if length b < 16 then Refused badFont
      else
        andThen (u16 b 0) (\<lambda>major.
        andThen (u16 b 2) (\<lambda>minor.
        if major \<noteq> 1 \<or> minor \<noteq> 0 then Refused badFont
        else
        andThen (u16 b 4) (\<lambda>offset.
        andThen (u16 b 8) (\<lambda>cnt.
        andThen (u16 b 10) (\<lambda>sz.
        andThen (u16 b 12) (\<lambda>instances.
        andThen (u16 b 14) (\<lambda>instanceSize.
        if cnt = 0 \<or> cnt > 256 \<or> sz < 20 \<or> offset < 16 \<or> offset + cnt * sz > length b
           \<or> instanceSize < 4 + 4 * cnt \<or> offset + cnt * sz + instances * instanceSize > length b
        then Refused badFont
        else
        andThen (axes E b (map (\<lambda>i. offset + i * sz) [0..<cnt]) ([], weight)) (\<lambda>found.
        Returns (snd found))))))))))"

definition weightAndStyle :: "tables \<Rightarrow> (string \<times> string) outcome" where
  "weightAndStyle t =
     (case t ''OS/2'' of
        Some b \<Rightarrow>
          if length b < 68 then Refused badFont
          else
            andThen (u16 b 4) (\<lambda>weight.
            if weight < 1 \<or> weight > 1000 then Refused badFont
            else
            andThen (u16 b 62) (\<lambda>selection.
            Returns (FormatInt (int weight), if selection mod 2 \<noteq> 0 then ''italic'' else ''normal'')))
      | None \<Rightarrow>
          andThen (u16 (tableOf t ''head'') 44) (\<lambda>style.
          Returns (''unknown'', if style div 2 mod 2 \<noteq> 0 then ''italic'' else ''normal'')))"

definition emptyFont :: Font where
  "emptyFont = \<lparr>fn_ID = [], fn_Name = [], fn_Family = [], fn_Weight = [], fn_Style = [], fn_Variable = False,
     fn_Format = [], fn_MIME = [], fn_ByteLength = 0, fn_Digest = [], fn_Revision = [], fn_UsedBy = [], fn_Data = []\<rparr>"

definition metadata :: "font_env \<Rightarrow> tables \<Rightarrow> Font outcome" where
  "metadata E t =
     (if list_ex (\<lambda>(key, least). length (tableOf t key) < least) minimumLengths then Refused badFont
      else
        andThen (u32 (tableOf t ''head'') 12) (\<lambda>magic.
        andThen (u16 (tableOf t ''head'') 18) (\<lambda>unitsPerEm.
        andThen (u16 (tableOf t ''maxp'') 4) (\<lambda>glyphs.
        if magic \<noteq> 0x5f0f3cf5 \<or> unitsPerEm < 16 \<or> unitsPerEm > 16384 \<or> glyphs = 0 then Refused badFont
        else if \<not> hasOutlines t then Refused badFont
        else
        andThen (naming (tableOf t ''name'')) (\<lambda>family.
        andThen (weightAndStyle t) (\<lambda>(weight, style).
        let f = emptyFont\<lparr>fn_Family := if family = [] then ''unknown'' else family, fn_Weight := weight, fn_Style := style\<rparr> in
        case t ''fvar'' of
          None \<Rightarrow> Returns f
        | Some b \<Rightarrow>
            andThen (variation E b weight) (\<lambda>weight'. Returns (f\<lparr>fn_Weight := weight', fn_Variable := True\<rparr>))))))))"

definition container :: "font_env \<Rightarrow> string \<Rightarrow> (string \<times> string \<times> tables) outcome" where
  "container E data =
     (let kind = take 4 data in
      if kind = ''wOFF'' then andThen (woff E data) (\<lambda>t. Returns (''woff'', ''font/woff'', t))
      else if kind = ''wOF2'' then andThen (woff2 E data) (\<lambda>t. Returns (''woff2'', ''font/woff2'', t))
      else if map byte kind = [0, 1, 0, 0] then andThen (sfnt E data) (\<lambda>t. Returns (''truetype'', ''font/ttf'', t))
      else if kind = ''OTTO'' then andThen (sfnt E data) (\<lambda>t. Returns (''opentype'', ''font/otf'', t))
      else Refused unsupportedFont)"

definition Validate :: "font_env \<Rightarrow> string \<Rightarrow> Font outcome" where
  "Validate E data =
     (if length data > MaxFontBytes then Refused largeFont
      else if length data < 4 then Refused badFont
      else
        andThen (container E data) (\<lambda>(format, mime, t).
        andThen (metadata E t) (\<lambda>f.
        Returns (f\<lparr>fn_Format := format, fn_MIME := mime\<rparr>))))"

end
