(* ===== verification/FontFacts.thy ===== *)
theory FontFacts
  imports FontFormat
begin

text \<open>
  What the font reader guarantees: no input makes it read outside of a slice, whatever a decompressor returns;
  a decompressor is asked for at most \<open>maxDecoded + 1\<close> bytes; \<open>base128\<close> reads exactly the shortest
  encodings; the tables of an accepted file do not overlap; the description of an accepted font is within the
  bounds that the stores rely on. The rules \<open>font_safe\<close> decompose \<open>safe m Q\<close>: m does not panic and a value that
  it returns satisfies Q.
\<close>

section \<open>Safe outcomes\<close>

named_theorems font_safe "introduction rules for safe outcomes"

definition safe :: "'a outcome \<Rightarrow> ('a \<Rightarrow> bool) \<Rightarrow> bool" where
  "safe m Q = (case m of Returns x \<Rightarrow> Q x | Refused e \<Rightarrow> True | Panics \<Rightarrow> False)"

lemma safe_simps [simp]:
  "safe (Returns x) Q = Q x"
  "safe (Refused e) Q"
  "\<not> safe Panics Q"
  by (simp_all add: safe_def)

lemma andThen_simps [simp]:
  "andThen (Returns x) f = f x"
  "andThen (Refused e) f = Refused e"
  "andThen Panics f = Panics"
  by (simp_all add: andThen_def)

lemma andThen_Returns_iff: "andThen m f = Returns y \<longleftrightarrow> (\<exists>x. m = Returns x \<and> f x = Returns y)"
  by (cases m) auto

lemma andThen_cong: "m = m' \<Longrightarrow> (\<And>x. m' = Returns x \<Longrightarrow> f x = g x) \<Longrightarrow> andThen m f = andThen m' g"
  by (cases m') auto

lemma safe_mono: "safe m P \<Longrightarrow> (\<And>x. P x \<Longrightarrow> Q x) \<Longrightarrow> safe m Q"
  by (cases m) auto

lemma safe_returned: "safe m Q \<Longrightarrow> m = Returns x \<Longrightarrow> Q x"
  by simp

lemma safe_not_panics: "safe m Q \<Longrightarrow> m \<noteq> Panics"
  by auto

lemma safe_andThen [font_safe]: "safe m (\<lambda>x. safe (f x) Q) \<Longrightarrow> safe (andThen m f) Q"
  by (cases m) auto

lemma safe_if [font_safe]: "(c \<Longrightarrow> safe a Q) \<Longrightarrow> (\<not> c \<Longrightarrow> safe b Q) \<Longrightarrow> safe (if c then a else b) Q"
  by simp

lemma safe_Let [font_safe]: "(\<And>x. x = v \<Longrightarrow> safe (f x) Q) \<Longrightarrow> safe (Let v f) Q"
  by simp

lemma safe_RefusedI [font_safe]: "safe (Refused e) Q"
  by simp

lemma safe_ReturnsI [font_safe]: "Q x \<Longrightarrow> safe (Returns x) Q"
  by simp

lemma safe_pair [font_safe]: "safe (f a b) Q \<Longrightarrow> safe (case (a, b) of (x, y) \<Rightarrow> f x y) Q"
  by simp

lemma safe_slice [font_safe]:
  "lo \<le> hi \<Longrightarrow> hi \<le> length b \<Longrightarrow> (\<And>s. s = take (hi - lo) (drop lo b) \<Longrightarrow> length s = hi - lo \<Longrightarrow> Q s) \<Longrightarrow> safe (slice b lo hi) Q"
  by (simp add: slice_def)

lemma byte_less: "byte c < 256"
  using nat_of_char_less_256 [of c] by (simp add: byte_def)

lemma bigEndian_snoc: "bigEndian (s @ [c]) = 256 * bigEndian s + byte c"
  by (simp add: bigEndian_def)

lemma bigEndian_less: "bigEndian s < 256 ^ length s"
proof (induction s rule: rev_induct)
  case (snoc c s)
  then show ?case using byte_less [of c] by (simp add: bigEndian_snoc)
qed (simp add: bigEndian_def)

lemma safe_u16 [font_safe]: "i + 2 \<le> length b \<Longrightarrow> (\<And>v. v < 65536 \<Longrightarrow> Q v) \<Longrightarrow> safe (u16 b i) Q"
  using bigEndian_less [of "take 2 (drop i b)"] by (simp add: u16_def slice_def)

lemma safe_u32 [font_safe]: "i + 4 \<le> length b \<Longrightarrow> (\<And>v. v < 2 ^ 32 \<Longrightarrow> Q v) \<Longrightarrow> safe (u32 b i) Q"
  using bigEndian_less [of "take 4 (drop i b)"] by (simp add: u32_def slice_def)

lemma safe_byteAt [font_safe]: "i < length b \<Longrightarrow> (\<And>v. v = byte (b ! i) \<Longrightarrow> v < 256 \<Longrightarrow> Q v) \<Longrightarrow> safe (byteAt b i) Q"
  using byte_less by (simp add: byteAt_def)

lemma add64_small: "a + b < 2 ^ 64 \<Longrightarrow> add64 a b = a + b"
  by (simp add: add64_def)

lemma safe_region [font_safe]:
  assumes "length b < 2 ^ 64 \<or> offset + sz < 2 ^ 64"
    and "\<And>s. offset + sz \<le> length b \<Longrightarrow> s = take sz (drop offset b) \<Longrightarrow> length s = sz \<Longrightarrow> Q s"
  shows "safe (fontRegion b offset sz) Q"
proof (cases "offset > length b \<or> sz > length b - offset")
  case False
  then have "offset + sz \<le> length b" by auto
  moreover from this assms(1) have "add64 offset sz = offset + sz" by (intro add64_small) auto
  ultimately show ?thesis using assms(2) by (simp add: fontRegion_def slice_def)
qed (simp add: fontRegion_def)

lemma safe_eachOf:
  assumes "\<And>x. x \<in> set xs \<Longrightarrow> safe (f x) P"
    and "\<And>ys. length ys = length xs \<Longrightarrow> \<forall>y \<in> set ys. P y \<Longrightarrow> Q ys"
  shows "safe (eachOf f xs) Q"
proof -
  have "safe (eachOf f xs) (\<lambda>ys. length ys = length xs \<and> (\<forall>y \<in> set ys. P y))"
    using assms(1)
  proof (induction xs)
    case (Cons x xs)
    then have "safe (eachOf f xs) (\<lambda>ys. length ys = length xs \<and> (\<forall>y \<in> set ys. P y))" by auto
    then have "safe (andThen (eachOf f xs) (\<lambda>ys. Returns (z # ys)))
        (\<lambda>ys. length ys = length (x # xs) \<and> (\<forall>y \<in> set ys. P y))" if "P z" for z
      using that by (auto intro!: safe_andThen elim!: safe_mono)
    then have "safe (f x) (\<lambda>z. safe (andThen (eachOf f xs) (\<lambda>ys. Returns (z # ys)))
        (\<lambda>ys. length ys = length (x # xs) \<and> (\<forall>y \<in> set ys. P y)))"
      using Cons.prems [of x] by (auto elim: safe_mono)
    then show ?case by (simp add: safe_andThen)
  qed simp
  then show ?thesis using assms(2) by (auto elim: safe_mono)
qed

lemmas safe_eachOf_any = safe_eachOf [where P = "\<lambda>_. True"]

section \<open>No input makes the reader panic\<close>

lemma safe_inflate [font_safe]:
  "(\<And>s. length s = original \<Longrightarrow> Q s) \<Longrightarrow> safe (inflate E chunk original) Q"
  by (auto simp: inflate_def split: option.split)

lemma safe_extractFrom:
  assumes "length data < 2 ^ 64"
  shows "safe (extractFrom ts E data compressed stop found) (\<lambda>_. True)"
proof (induction ts arbitrary: stop found)
  case (Cons t ts)
  show ?case using assms Cons.IH by (auto intro!: font_safe)
qed simp

lemma safe_extractTables:
  "length data < 2 ^ 64 \<Longrightarrow> safe (extractTables E data es start compressed) (\<lambda>_. True)"
  by (simp add: extractTables_def safe_extractFrom)

lemma safe_case_bound [font_safe]:
  "(x = None \<Longrightarrow> safe b Q) \<Longrightarrow> safe (case x of Some e \<Rightarrow> Refused e | None \<Rightarrow> b) Q"
  by (auto split: option.split)

lemma safe_sfnt: "length data < 2 ^ 64 \<Longrightarrow> safe (sfnt E data) (\<lambda>_. True)"
  unfolding sfnt_def sfntEntry_def
  by (intro font_safe safe_eachOf_any safe_extractTables) (auto simp: not_less)

lemma safe_extraBlocks:
  assumes "length data < 2 ^ 64" "meta + 8 \<le> length data" "priv + 8 \<le> length data"
  shows "safe (extraBlocks E data meta priv start es) (\<lambda>_. True)"
  using assms unfolding extraBlocks_def extraRange_def
  by (intro font_safe safe_eachOf_any) auto

lemma safe_woff: "length data < 2 ^ 64 \<Longrightarrow> safe (woff E data) (\<lambda>_. True)"
  unfolding woff_def woffEntry_def
  by (intro font_safe safe_eachOf_any safe_extractTables safe_mono [OF safe_extraBlocks]) (auto simp: not_less)

lemma base128From_step:
  assumes "acc < 2 ^ 32"
  shows "base128From (Suc k) data first acc pos =
    (if pos \<ge> length data then Refused badFont
     else let b = byte (data ! pos) in
       if first \<and> b = 128 \<or> 2 ^ 25 \<le> acc then Refused badFont
       else if b < 128 then Returns (acc * 128 + b, pos + 1)
       else base128From k data False (acc * 128 + (b - 128)) (pos + 1))"
proof -
  have "acc div 2 ^ 25 < 2 ^ 7" using assms by (simp add: less_mult_imp_div_less)
  then have "(acc div 2 ^ 25 mod 2 ^ 7 \<noteq> 0) = (2 ^ 25 \<le> acc)" by (auto simp: div_eq_0_iff)
  moreover have "b mod 128 = (if b < 128 then b else b - 128)" if "b < 256" for b :: nat
    using that le_mod_geq [of 128 b] by auto
  moreover have "acc * 2 ^ 7 mod 2 ^ 64 = acc * 128" using assms by simp
  ultimately show ?thesis by (simp add: byteAt_def byte_less Let_def)
qed

lemma base128From_safe:
  assumes "pos \<le> length data" "acc < 2 ^ 32"
  shows "safe (base128From k data first acc pos) (\<lambda>(v, q). v < 2 ^ 32 \<and> q \<le> length data)"
  using assms
proof (induction k arbitrary: first acc pos)
  case (Suc k)
  let ?b = "byte (data ! pos)"
  have less: "acc * 128 + ?b - 128 < 2 ^ 32" "?b < 128 \<Longrightarrow> acc * 128 + ?b < 2 ^ 32" if "acc < 2 ^ 25"
    using that byte_less [of "data ! pos"] by simp_all
  have "safe (base128From k data False (acc * 128 + ?b - 128) (pos + 1)) (\<lambda>(v, q). v < 2 ^ 32 \<and> q \<le> length data)"
    if "acc < 2 ^ 25" "pos < length data"
    using that less by (intro Suc.IH) simp_all
  with Suc.prems less show ?case
    by (simp only: base128From_step) (simp add: Let_def not_le)
qed simp

lemma safe_base128 [font_safe]:
  "pos \<le> length data \<Longrightarrow> (\<And>v q. v < 2 ^ 32 \<Longrightarrow> q \<le> length data \<Longrightarrow> Q (v, q)) \<Longrightarrow> safe (base128 data pos) Q"
  unfolding base128_def by (rule safe_mono [OF base128From_safe]) auto

lemma length_knownTags: "length knownTags = 63"
  by (simp add: knownTags_def)

lemma safe_woff2Tag [font_safe]:
  assumes "length data < 2 ^ 64" "index < 64" "pos \<le> length data" "\<And>tag q. q \<le> length data \<Longrightarrow> Q (tag, q)"
  shows "safe (woff2Tag data index pos) Q"
  unfolding woff2Tag_def
  by (intro font_safe) (use assms length_knownTags in auto)

lemma safe_transformedSize [font_safe]:
  assumes "pos \<le> length data" "\<And>v q. v < 2 ^ 32 \<Longrightarrow> q \<le> length data \<Longrightarrow> Q (v, q)"
  shows "safe (transformedSize tag data pos) Q"
  unfolding transformedSize_def
  by (intro font_safe) (use assms in \<open>auto intro!: font_safe\<close>)

definition within :: "nat \<Rightarrow> entry \<Rightarrow> bool" where
  "within n t \<longleftrightarrow> en_offset t + en_size t \<le> n"

lemma roundUp4_small: "x < 2 ^ 32 \<Longrightarrow> roundUp4 x < 2 ^ 32 + 4"
  by (simp add: roundUp4_def add64_def)

lemma safe_woff2Entries:
  assumes "length data < 2 ^ 64" "pos \<le> length data" "used \<le> maxDecoded" "original \<le> maxDecoded"
  shows "safe (woff2Entries n data pos used original)
    (\<lambda>(es, q, total, orig). q \<le> length data \<and> used \<le> total \<and> total \<le> maxDecoded \<and> orig \<le> maxDecoded \<and>
       (\<forall>t \<in> set es. within total t))"
  using assms(2-)
proof (induction n arbitrary: pos used original)
  case (Suc n)
  have sums: "add64 used sz = used + sz" if "sz < 2 ^ 32" for sz
    using Suc.prems(2) that by (intro add64_small) (simp add: maxDecoded_def)
  have step: "safe (woff2Entries n data q u orig) R"
    if "q \<le> length data" "\<not> (u > maxDecoded \<or> orig > maxDecoded)"
      "\<And>es p total orig'. p \<le> length data \<Longrightarrow> u \<le> total \<Longrightarrow> total \<le> maxDecoded \<Longrightarrow> orig' \<le> maxDecoded \<Longrightarrow>
         \<forall>t \<in> set es. within total t \<Longrightarrow> R (es, p, total, orig')" for q u orig R
    using that by (intro safe_mono [OF Suc.IH]) auto
  show ?case
    unfolding woff2Entries.simps
    by (intro font_safe step) (use assms(1) Suc.prems sums in \<open>auto simp: within_def\<close>)
qed simp

lemma safe_decodedTables:
  assumes "\<forall>t \<in> set es. within (length decoded) t" "length decoded < 2 ^ 64"
  shows "safe (decodedTables es decoded found) (\<lambda>_. True)"
  using assms(1)
proof (induction es arbitrary: found)
  case (Cons t es)
  then have "add64 (en_offset t) (en_size t) = en_offset t + en_size t"
    using assms(2) by (intro add64_small) (auto simp: within_def)
  with Cons show ?case by (auto intro!: font_safe simp: within_def)
qed simp

lemma lastEntry_in: "lastEntry tag es = Some t \<Longrightarrow> t \<in> set es \<and> en_tag t = tag"
  unfolding lastEntry_def by (drule find_Some_in_set) simp

lemma safe_glyfOK:
  assumes "within (length decoded) g" "length decoded < 2 ^ 64"
  shows "safe (glyfOK decoded g) (\<lambda>_. True)"
proof -
  have "add64 (en_offset g) (en_size g) = en_offset g + en_size g"
    using assms by (intro add64_small) (auto simp: within_def)
  then show ?thesis
    unfolding glyfOK_def
    by (intro font_safe safe_eachOf_any) (use assms in \<open>auto simp: within_def\<close>)
qed

lemma safe_outlinesOK:
  assumes "\<forall>t \<in> set es. within (length decoded) t" "length decoded < 2 ^ 64"
  shows "safe (outlinesOK decoded es) (\<lambda>_. True)"
  using assms lastEntry_in [of "''glyf''" es]
  by (auto simp: outlinesOK_def split: option.split intro!: safe_glyfOK)

lemma safe_case_none [font_safe]:
  "(\<And>x. m = Some x \<Longrightarrow> safe (f x) Q) \<Longrightarrow> safe (case m of None \<Rightarrow> Refused e | Some x \<Rightarrow> f x) Q"
  by (auto split: option.split)

lemma safe_woff2:
  assumes "length data < 2 ^ 64"
  shows "safe (woff2 E data) (\<lambda>_. True)"
proof -
  have entries: "safe (woff2Entries n data 48 0 0) R"
    if "48 \<le> length data"
      "\<And>es p total orig. p \<le> length data \<Longrightarrow> total \<le> maxDecoded \<Longrightarrow> \<forall>t \<in> set es. within total t \<Longrightarrow> R (es, p, total, orig)"
    for n R
    using that by (intro safe_mono [OF safe_woff2Entries [OF assms]]) (auto simp: maxDecoded_def)
  have decoded: "safe (decodedTables es d f) R" "safe (outlinesOK d es) R'"
    if "\<forall>t \<in> set es. within n t" "n \<le> maxDecoded" "\<not> length d \<noteq> n" "\<And>x. R x" "R' ()" for es d f R R' n
    using that by (auto intro!: safe_mono [OF safe_decodedTables] safe_mono [OF safe_outlinesOK] simp: maxDecoded_def)
  have extra: "safe (extraBlocks E data 28 40 pos es) R" if "48 \<le> length data" "R ()" for pos es R
    using that assms by (intro safe_mono [OF safe_extraBlocks]) auto
  have "add64 p v = p + v" if "p \<le> length data" "v \<le> length data - p" for p v
    using that assms by (intro add64_small) linarith
  then show ?thesis
    unfolding woff2_def
    by (intro font_safe entries decoded extra) (use assms in \<open>auto simp: not_less\<close>)
qed

lemma safe_langTags:
  assumes "offset \<le> length data" "offset < 65536"
  shows "safe (langTags data cnt offset) (\<lambda>_. True)"
  unfolding langTags_def
  by (intro font_safe safe_eachOf_any) (use assms in auto)

lemma safe_utf16Text [font_safe]: "(\<And>s. Q s) \<Longrightarrow> safe (utf16Text chunk) Q"
  unfolding utf16Text_def
  by (intro font_safe safe_eachOf_any) auto

text \<open>What a font may be called.\<close>

definition presentable :: "string \<Rightarrow> bool" where
  "presentable s \<longleftrightarrow> trimmed s \<and> RuneCount s \<le> 200 \<and> \<not> list_ex (\<lambda>(r, w). IsControl r) (runes_of s)"

lemma presentable_Nil [simp]: "presentable []"
  by (simp add: presentable_def RuneCount_def trimmed_iff_fixed)

lemma safe_nameRecord:
  assumes "offset < 65536" "6 + 12 * cnt \<le> length data" "i < cnt" "presentable (fst best)"
  shows "safe (nameRecord data offset best i) (\<lambda>best'. presentable (fst best'))"
  unfolding nameRecord_def
  by (intro font_safe) (use assms in \<open>auto simp: presentable_def\<close>)

lemma safe_nameRecords:
  assumes "offset < 65536" "6 + 12 * cnt \<le> length data"
  shows "set is \<subseteq> {..<cnt} \<Longrightarrow> presentable (fst best) \<Longrightarrow>
    safe (nameRecords data offset is best) (\<lambda>best'. presentable (fst best'))"
proof (induction "is" arbitrary: best)
  case (Cons i "is")
  then have "safe (nameRecord data offset best i) (\<lambda>best'. presentable (fst best'))"
    using assms by (intro safe_nameRecord) auto
  with Cons show ?case by (auto intro!: safe_andThen elim!: safe_mono)
qed simp

lemma safe_naming [font_safe]:
  assumes "\<And>s. presentable s \<Longrightarrow> Q s"
  shows "safe (naming data) Q"
  unfolding naming_def
  by (intro font_safe safe_mono [OF safe_langTags] safe_mono [OF safe_nameRecords]) (use assms in auto)

definition weightKnown :: "font_env \<Rightarrow> string \<Rightarrow> bool" where
  "weightKnown E w \<longleftrightarrow>
     w = ''unknown'' \<or> (\<exists>n. 1 \<le> n \<and> n \<le> 1000 \<and> w = FormatInt n)
     \<or> (\<exists>lo hi. 65536 \<le> lo \<and> lo \<le> hi \<and> hi \<le> 1000 * 65536 \<and> w = fe_fixedText E lo @ '' '' @ fe_fixedText E hi)"

definition described :: "font_env \<Rightarrow> Font \<Rightarrow> bool" where
  "described E f \<longleftrightarrow>
     fn_Family f \<noteq> [] \<and> presentable (fn_Family f) \<and> weightKnown E (fn_Weight f) \<and> fn_Style f \<in> {''normal'', ''italic''}"

lemma safe_weightAndStyle [font_safe]:
  assumes "length (tableOf t ''head'') \<ge> 54" "\<And>w s. weightKnown E w \<Longrightarrow> s \<in> {''normal'', ''italic''} \<Longrightarrow> Q (w, s)"
  shows "safe (weightAndStyle t) Q"
proof (cases "t ''OS/2''")
  case None
  then show ?thesis
    unfolding weightAndStyle_def option.case(1) None
    by (intro font_safe) (use assms in \<open>auto simp: weightKnown_def\<close>)
next
  case (Some b)
  have "weightKnown E (FormatInt (int v))" if "\<not> (v < 1 \<or> v > 1000)" for v
    using that unfolding weightKnown_def by (intro disjI2 disjI1 exI [of _ "int v"]) auto
  then show ?thesis
    unfolding weightAndStyle_def Some option.case(2)
    by (intro font_safe) (use assms(2) in auto)
qed

lemma safe_axis:
  assumes "p + 20 \<le> length b" "weightKnown E (snd found)"
  shows "safe (axis E b p found) (\<lambda>found'. weightKnown E (snd found'))"
proof (cases found)
  case (Pair seen weight)
  have range: "weightKnown E (fe_fixedText E lo @ '' '' @ fe_fixedText E hi)"
    if "lo \<ge> 65536" "hi \<le> 1000 * 65536" "\<not> (lo > d \<or> d > hi)" for lo hi d
    using that unfolding weightKnown_def by (intro disjI2 exI [of _ lo] exI [of _ hi]) auto
  show ?thesis
    unfolding axis_def Pair prod.case
    by (intro font_safe) (use assms range Pair in auto)
qed

lemma safe_axes:
  "\<forall>p \<in> set ps. p + 20 \<le> length b \<Longrightarrow> weightKnown E (snd found) \<Longrightarrow>
     safe (axes E b ps found) (\<lambda>found'. weightKnown E (snd found'))"
proof (induction ps arbitrary: found)
  case (Cons p ps)
  then have "safe (axis E b p found) (\<lambda>found'. weightKnown E (snd found'))" by (intro safe_axis) auto
  with Cons show ?case by (auto intro!: safe_andThen elim!: safe_mono)
qed simp

lemma axis_within:
  fixes i cnt sz offset n :: nat
  assumes "i < cnt" "offset + cnt * sz \<le> n" "20 \<le> sz"
  shows "offset + i * sz + 20 \<le> n"
proof -
  have "Suc i * sz \<le> cnt * sz" using assms(1) by (intro mult_right_mono) auto
  with assms show ?thesis by simp
qed

lemma safe_variation [font_safe]:
  assumes "weightKnown E weight" "\<And>w. weightKnown E w \<Longrightarrow> Q w"
  shows "safe (variation E b weight) Q"
  unfolding variation_def
  by (intro font_safe safe_mono [OF safe_axes]) (use assms axis_within in \<open>auto simp: not_less\<close>)

lemma minimum_lengths:
  "\<not> list_ex (\<lambda>(key, least). length (tableOf t key) < least) minimumLengths \<Longrightarrow>
     54 \<le> length (tableOf t ''head'') \<and> 6 \<le> length (tableOf t ''maxp'') \<and> 6 \<le> length (tableOf t ''name'')"
  by (auto simp: minimumLengths_def)

lemma presentable_unknown: "presentable ''unknown''"
proof -
  have "trimmed ''unknown''" by (intro plain_trimmed; simp)
  moreover have "runes_of ''unknown'' = map (\<lambda>c. (byte c, 1)) ''unknown''" by (rule runes_ascii) simp
  ultimately show ?thesis by (simp only: presentable_def RuneCount_def) (simp add: byte_def IsControl_def)
qed

lemma safe_metadata: "safe (metadata E t) (described E)"
proof (cases "list_ex (\<lambda>(key, least). length (tableOf t key) < least) minimumLengths")
  case False
  note len = minimum_lengths [OF False]
  have case_fvar: "safe (case b of None \<Rightarrow> Returns f | Some x \<Rightarrow> g x) (described E)"
    if "described E f" "\<And>x. b = Some x \<Longrightarrow> safe (g x) (described E)" for b f g
    using that by (auto split: option.split)
  show ?thesis
    unfolding metadata_def
    by (intro font_safe case_fvar) (use False len presentable_unknown in \<open>auto simp: described_def\<close>)
qed (simp add: metadata_def)

lemma safe_container: "length data < 2 ^ 64 \<Longrightarrow> safe (container E data) (\<lambda>_. True)"
  unfolding container_def
  by (intro font_safe safe_mono [OF safe_woff] safe_mono [OF safe_woff2] safe_mono [OF safe_sfnt]) auto

definition fontFormats :: "(string \<times> string) list" where
  "fontFormats = [(''woff'', ''font/woff''), (''woff2'', ''font/woff2''), (''truetype'', ''font/ttf''), (''opentype'', ''font/otf'')]"

lemma container_format: "container E data = Returns (format, mime, t) \<Longrightarrow> (format, mime) \<in> set fontFormats"
  by (auto simp: container_def fontFormats_def Let_def andThen_Returns_iff split: if_splits)

text \<open>
  C6. Validating a font never panics: for every input and whatever the decompressors return, no byte is read and
  no slice is taken outside of the data, the decompressed stream or a table.
\<close>

theorem validation_never_panics: "Validate E data \<noteq> Panics"
proof (cases "length data > MaxFontBytes")
  case False
  then have "length data < 2 ^ 64" by (simp add: MaxFontBytes_def)
  then have "safe (Validate E data) (\<lambda>_. True)"
    unfolding Validate_def
    by (intro font_safe safe_mono [OF safe_container]) (auto intro!: font_safe safe_mono [OF safe_metadata])
  then show ?thesis by auto
qed (simp add: Validate_def)

lemma Validate_cases:
  assumes "Validate E data = Returns f"
  obtains format mime t g where "length data \<le> MaxFontBytes" "container E data = Returns (format, mime, t)"
    "metadata E t = Returns g" "f = g\<lparr>fn_Format := format, fn_MIME := mime\<rparr>"
  using assms by (auto simp: Validate_def andThen_Returns_iff split: if_splits prod.splits)

text \<open>
  C37. A font that the reader accepts is described within fixed bounds: its format and MIME type are one of four
  pairs, its family is not empty, trimmed, free of control characters and at most 200 characters long, its
  weight is \<open>unknown\<close>, a number from 1 to 1000 or a range within them, its style \<open>normal\<close> or \<open>italic\<close>.
\<close>

theorem accepted_font_is_described:
  assumes "Validate E data = Returns f"
  shows "(fn_Format f, fn_MIME f) \<in> set fontFormats \<and> described E f \<and> length data \<le> MaxFontBytes"
proof -
  from assms obtain format mime t g where g: "length data \<le> MaxFontBytes" "container E data = Returns (format, mime, t)"
      "metadata E t = Returns g" "f = g\<lparr>fn_Format := format, fn_MIME := mime\<rparr>"
    by (rule Validate_cases)
  have "described E g" using safe_returned [OF safe_metadata g(3)] .
  with g container_format [OF g(2)] show ?thesis by (simp add: described_def)
qed

section \<open>Numbers in base 128\<close>

text \<open>The shortest encoding: the leading digits with the top bit set, then the last one.\<close>

fun leading128 :: "nat \<Rightarrow> string" where
  "leading128 n = (if n = 0 then [] else leading128 (n div 128) @ [char_of (128 + n mod 128)])"

declare leading128.simps [simp del]

lemma leading128_0 [simp]: "leading128 0 = []"
  by (simp add: leading128.simps)

lemma leading128_pos: "0 < n \<Longrightarrow> leading128 n = leading128 (n div 128) @ [char_of (128 + n mod 128)]"
  by (simp add: leading128.simps)

definition encode128 :: "nat \<Rightarrow> string" where
  "encode128 n = leading128 (n div 128) @ [char_of (n mod 128)]"

lemma length_leading128: "n < 128 ^ j \<Longrightarrow> length (leading128 n) \<le> j"
proof (induction j arbitrary: n)
  case (Suc j)
  show ?case
  proof (cases "n = 0")
    case False
    moreover have "n div 128 < 128 ^ j" using Suc.prems by (simp add: less_mult_imp_div_less mult.commute)
    ultimately show ?thesis using Suc.IH [of "n div 128"] by (simp add: leading128_pos)
  qed simp
qed simp

lemma byte_char_of: "n < 256 \<Longrightarrow> byte (char_of n) = n"
  by (simp add: byte_def)

lemma char_of_byte: "char_of (byte c) = c"
  by (simp add: byte_def)

lemma taken_snoc:
  assumes "take (length (xs @ [c])) (drop pos data) = xs @ [c]"
  shows "take (length xs) (drop pos data) = xs" "pos + length xs < length data" "data ! (pos + length xs) = c"
proof -
  from assms have len: "pos + length xs < length data"
    by (metis Suc_le_eq add.commute add_leD1 length_append_singleton length_drop length_take less_diff_conv min.absorb_iff2 min.commute nat_le_linear)
  then show "pos + length xs < length data" .
  with assms have "take (length xs) (drop pos data) @ [data ! (pos + length xs)] = xs @ [c]"
    by (simp add: take_Suc_conv_app_nth)
  then show "take (length xs) (drop pos data) = xs" "data ! (pos + length xs) = c" by simp_all
qed

lemma base128_leading:
  assumes "0 < m" "m < 2 ^ 25" "take (length (leading128 m)) (drop pos data) = leading128 m"
  shows "base128From 5 data True 0 pos =
    base128From (5 - length (leading128 m)) data False m (pos + length (leading128 m))"
  using assms
proof (induction m rule: less_induct)
  case (less m)
  let ?k = "m div 128"
  note at_m = leading128_pos [OF less.prems(1)]
  note tk = taken_snoc [OF less.prems(3) [unfolded at_m]]
  have k: "?k < 2 ^ 25" "?k * 128 + m mod 128 = m" "m mod 128 < 128" using less.prems by simp_all
  have l: "length (leading128 ?k) \<le> 3" using less.prems(2) by (intro length_leading128) simp
  let ?l = "length (leading128 ?k)"
  have c: "byte (data ! (pos + ?l)) = 128 + m mod 128" using tk(3) by (simp add: byte_char_of)
  have read: "base128From (Suc (4 - ?l)) data first ?k (pos + ?l) = base128From (4 - ?l) data False m (pos + Suc ?l)"
    if "first \<Longrightarrow> m mod 128 \<noteq> 0" for first
    using k that tk(2) by (subst base128From_step) (auto simp: c Let_def)
  have "base128From 5 data True 0 pos = base128From (4 - ?l) data False m (pos + Suc ?l)"
  proof (cases "?k = 0")
    case True
    then have "m mod 128 \<noteq> 0" using k(2) less.prems(1) by simp
    with read [of True] True show ?thesis by simp
  next
    case False
    then have "base128From 5 data True 0 pos = base128From (5 - ?l) data False ?k (pos + ?l)"
      using k(1) tk(1) by (intro less.IH) simp_all
    moreover have "5 - ?l = Suc (4 - ?l)" using l by simp
    ultimately show ?thesis using read [of False] by simp
  qed
  then show ?case by (simp add: at_m)
qed

lemma base128_accepts:
  assumes "n < 2 ^ 32" "take (length (encode128 n)) (drop pos data) = encode128 n"
  shows "base128 data pos = Returns (n, pos + length (encode128 n))"
proof -
  let ?k = "n div 128" and ?l = "length (leading128 (n div 128))"
  note tk = taken_snoc [OF assms(2) [unfolded encode128_def]]
  have k: "?k < 2 ^ 25" "?k * 128 + n mod 128 = n" using assms(1) by simp_all
  have l: "?l \<le> 4" using k(1) by (intro length_leading128) simp
  have c: "byte (data ! (pos + ?l)) = n mod 128" using tk(3) by (simp add: byte_char_of)
  have read: "base128From (Suc (4 - ?l)) data first ?k (pos + ?l) = Returns (n, pos + Suc ?l)" for first
  proof -
    have "n mod 128 < 128" by simp
    then show ?thesis using k tk(2) by (subst base128From_step) (auto simp: c Let_def)
  qed
  have "base128From 5 data True 0 pos = Returns (n, pos + Suc ?l)"
  proof (cases "?k = 0")
    case True
    with read [of True] show ?thesis by simp
  next
    case False
    then have "base128From 5 data True 0 pos = base128From (5 - ?l) data False ?k (pos + ?l)"
      using k(1) tk(1) by (intro base128_leading) simp_all
    moreover have "5 - ?l = Suc (4 - ?l)" using l by simp
    ultimately show ?thesis using read [of False] by simp
  qed
  then show ?thesis by (simp add: base128_def encode128_def)
qed

lemma base128From_reads:
  assumes "base128From k data first acc p = Returns (v, q)" "acc < 2 ^ 32" "pos \<le> p" "p \<le> length data"
    "take (p - pos) (drop pos data) = leading128 acc" "first \<longleftrightarrow> acc = 0"
  shows "v < 2 ^ 32 \<and> q = pos + length (encode128 v) \<and> take (length (encode128 v)) (drop pos data) = encode128 v"
  using assms
proof (induction k arbitrary: first acc p)
  case (Suc k)
  let ?b = "byte (data ! p)"
  note run = Suc.prems(1) [unfolded base128From_step [OF Suc.prems(2)]]
  have p: "p < length data" using run by (auto split: if_splits)
  have refused: "\<not> (first \<and> ?b = 128)" "acc < 2 ^ 25" using run p by (auto simp: Let_def split: if_splits)
  have len: "length (leading128 acc) = p - pos" using Suc.prems(4) by (subst Suc.prems(5) [symmetric]) simp
  have ext: "take (Suc p - pos) (drop pos data) = leading128 acc @ [data ! p]"
    using p Suc.prems(3,5) by (simp add: Suc_diff_le take_Suc_conv_app_nth)
  show ?case
  proof (cases "?b < 128")
    case True
    with run p refused have v: "v = acc * 128 + ?b" "q = p + 1" by (auto simp: Let_def split: if_splits)
    with True have "encode128 v = leading128 acc @ [data ! p]" by (simp add: encode128_def char_of_byte)
    moreover from this have "length (encode128 v) = Suc p - pos" using len Suc.prems(3) by simp
    ultimately show ?thesis using v ext refused(2) True Suc.prems(3) by simp
  next
    case False
    let ?a = "acc * 128 + (?b - 128)"
    from run p refused False have next_: "base128From k data False ?a (p + 1) = Returns (v, q)"
      by (auto simp: Let_def split: if_splits)
    have b: "?b - 128 < 128" using byte_less [of "data ! p"] by simp
    have "0 < ?a" using refused(1) Suc.prems(6) False by (cases "acc = 0") auto
    moreover have "?a div 128 = acc" "?a mod 128 = ?b - 128" using b by simp_all
    ultimately have "leading128 ?a = leading128 acc @ [data ! p]"
      using False by (simp add: leading128_pos char_of_byte)
    with ext next_ show ?thesis
      using p b refused(2) Suc.prems(3) \<open>0 < ?a\<close> by (intro Suc.IH [of False ?a "p + 1"]) (simp_all add: not_le)
  qed
qed simp

text \<open>
  C32. A WOFF2 number is read exactly when it is the shortest base-128 encoding of a number below 2^32: every such
  encoding is accepted with its value and its length, and a longer encoding, one with a leading zero digit, a
  truncated one or one that exceeds 32 bits is refused.
\<close>

theorem base128_reads_shortest_encodings:
  "base128 data pos = Returns (v, q) \<longleftrightarrow>
     v < 2 ^ 32 \<and> q = pos + length (encode128 v) \<and> take (length (encode128 v)) (drop pos data) = encode128 v"
proof
  assume run: "base128 data pos = Returns (v, q)"
  then have "base128From (Suc 4) data True 0 pos = Returns (v, q)" by (simp add: base128_def)
  then have "pos \<le> length data" by (subst (asm) base128From_step) (auto split: if_splits)
  then show "v < 2 ^ 32 \<and> q = pos + length (encode128 v) \<and> take (length (encode128 v)) (drop pos data) = encode128 v"
    using run by (intro base128From_reads [of 5 data True 0 pos]) (simp_all add: base128_def)
qed (auto intro: base128_accepts)

end
