(* ===== verification/FontTables.thy ===== *)
theory FontTables
  imports FontFacts
begin

text \<open>
  Bounds of the decompression and the layout of the tables in an accepted TrueType or OpenType file, with the
  evaluation of a small font.
\<close>

section \<open>The decompressors are bounded\<close>

text \<open>The reader's environment with other decompressors.\<close>

abbreviation decompressing :: "font_env \<Rightarrow> (string \<Rightarrow> nat \<Rightarrow> string option) \<Rightarrow> (string \<Rightarrow> nat \<Rightarrow> string option) \<Rightarrow> font_env" where
  "decompressing E z b \<equiv> E\<lparr>fe_zlib := z, fe_brotli := b\<rparr>"

definition agreeUpTo :: "nat \<Rightarrow> (string \<Rightarrow> nat \<Rightarrow> string option) \<Rightarrow> (string \<Rightarrow> nat \<Rightarrow> string option) \<Rightarrow> bool" where
  "agreeUpTo limit f g \<longleftrightarrow> (\<forall>chunk n. n \<le> limit \<longrightarrow> f chunk n = g chunk n)"

definition permutes :: "font_env \<Rightarrow> bool" where
  "permutes E \<longleftrightarrow> (\<forall>cmp es. mset (fe_sort E cmp es) = mset es)"

lemma permutes_set: "permutes E \<Longrightarrow> set (fe_sort E cmp es) = set es"
  unfolding permutes_def by (metis set_mset_mset)

lemma boundsFrom_small: "boundsFrom es seen used = None \<Longrightarrow> \<forall>t \<in> set es. en_original t \<le> maxDecoded"
  by (induction es arbitrary: seen used) (auto simp: Let_def split: if_splits)

lemma tableBounds_small: "tableBounds es n = None \<Longrightarrow> \<forall>t \<in> set es. en_original t \<le> maxDecoded"
  by (auto simp: tableBounds_def dest: boundsFrom_small split: if_splits option.splits)

lemma inflate_bounded:
  "agreeUpTo (maxDecoded + 1) z (fe_zlib E) \<Longrightarrow> original \<le> maxDecoded \<Longrightarrow>
     inflate (decompressing E z b) chunk original = inflate E chunk original"
  by (simp add: inflate_def agreeUpTo_def)

lemma extractFrom_bounded:
  assumes "agreeUpTo (maxDecoded + 1) z (fe_zlib E)"
  shows "\<forall>t \<in> set ts. en_original t \<le> maxDecoded \<Longrightarrow>
    extractFrom ts (decompressing E z b) data compressed stop found = extractFrom ts E data compressed stop found"
  by (induction ts arbitrary: stop found) (auto simp: inflate_bounded [OF assms] intro!: andThen_cong)

lemma extractTables_bounded:
  assumes "agreeUpTo (maxDecoded + 1) z (fe_zlib E)" "permutes E" "tableBounds es n = None"
  shows "extractTables (decompressing E z b) data es start compressed = extractTables E data es start compressed"
  using tableBounds_small [OF assms(3)] permutes_set [OF assms(2)]
  by (simp add: extractTables_def extractFrom_bounded [OF assms(1)])

lemma sfnt_bounded:
  assumes "agreeUpTo (maxDecoded + 1) z (fe_zlib E)" "permutes E"
  shows "sfnt (decompressing E z b) data = sfnt E data"
  unfolding sfnt_def by (auto intro!: andThen_cong simp: extractTables_bounded [OF assms] split: option.split)

lemma extraBlocks_decompressing [simp]:
  "extraBlocks (decompressing E z b) data meta priv start es = extraBlocks E data meta priv start es"
  by (simp add: extraBlocks_def)

lemma woff_bounded:
  assumes "agreeUpTo (maxDecoded + 1) z (fe_zlib E)" "permutes E"
  shows "woff (decompressing E z b) data = woff E data"
  unfolding woff_def by (auto intro!: andThen_cong simp: extractTables_bounded [OF assms] Let_def split: option.split)

lemma woff2_bounded:
  assumes "agreeUpTo (maxDecoded + 1) b (fe_brotli E)" "length data < 2 ^ 64"
  shows "woff2 (decompressing E z b) data = woff2 E data"
proof (cases "length data < 48")
  case False
  have "total + 1 \<le> maxDecoded + 1" if "woff2Entries n data 48 0 0 = Returns (es, p, total, orig)" for n es p total orig
    using safe_returned [OF safe_woff2Entries [OF assms(2)] that] False by (simp add: maxDecoded_def)
  then show ?thesis
    unfolding woff2_def using assms(1)
    by (auto intro!: andThen_cong simp: agreeUpTo_def split: option.split)
qed (simp add: woff2_def)

lemma text_decompressing: "fe_fixedText (decompressing E z b) = fe_fixedText E"
  by simp

lemma axis_decompressing [simp]: "axis (decompressing E z b) = axis E"
  unfolding axis_def text_decompressing ..

lemma axes_decompressing [simp]: "axes (decompressing E z b) = axes E"
proof (intro ext)
  fix d ps found
  show "axes (decompressing E z b) d ps found = axes E d ps found"
    by (induction ps arbitrary: found) simp_all
qed

lemma variation_decompressing [simp]: "variation (decompressing E z b) = variation E"
  unfolding variation_def axes_decompressing ..

lemma metadata_decompressing [simp]: "metadata (decompressing E z b) = metadata E"
  unfolding metadata_def variation_decompressing ..

lemma container_bounded:
  assumes "agreeUpTo (maxDecoded + 1) z (fe_zlib E)" "agreeUpTo (maxDecoded + 1) b (fe_brotli E)" "permutes E"
    "length data < 2 ^ 64"
  shows "container (decompressing E z b) data = container E data"
  unfolding container_def woff_bounded [OF assms(1,3)] woff2_bounded [OF assms(2,4)] sfnt_bounded [OF assms(1,3)] ..

text \<open>
  C33. A decompressor is asked for at most 64 MiB and one byte: what it returns for larger requests has no influence
  on the outcome, for any input.
\<close>

theorem decompression_is_bounded:
  assumes "permutes E" "agreeUpTo (64 * 2 ^ 20 + 1) z (fe_zlib E)" "agreeUpTo (64 * 2 ^ 20 + 1) b (fe_brotli E)"
  shows "Validate (decompressing E z b) data = Validate E data"
proof (cases "length data > MaxFontBytes")
  case False
  then have "length data < 2 ^ 64" by (simp add: MaxFontBytes_def)
  with assms show ?thesis
    by (simp add: Validate_def container_bounded [unfolded maxDecoded_def])
qed (simp add: Validate_def)

section \<open>The tables of an accepted file\<close>

definition stored :: "entry \<Rightarrow> bool" where
  "stored t \<longleftrightarrow> \<not> (en_original t = 0 \<and> en_size t = 0)"

lemma extractFrom_ranges:
  assumes "length data < 2 ^ 64"
  shows "extractFrom ts E data compressed stop found = Returns found' \<Longrightarrow>
    sorted_wrt (\<lambda>a b. en_offset a + en_size a \<le> en_offset b) (filter stored ts) \<and>
    (\<forall>t \<in> set (filter stored ts). stop \<le> en_offset t \<and> en_offset t mod 4 = 0 \<and> en_offset t + en_size t \<le> length data)"
proof (induction ts arbitrary: stop found)
  case (Cons t ts)
  show ?case
  proof (cases "stored t")
    case False
    with Cons show ?thesis by (auto simp: stored_def)
  next
    case True
    from Cons.prems True have t: "stop \<le> en_offset t" "en_offset t mod 4 = 0"
      by (auto simp: stored_def andThen_Returns_iff split: if_splits)
    from Cons.prems True obtain chunk f where "fontRegion data (en_offset t) (en_size t) = Returns chunk"
      and rest: "extractFrom ts E data compressed (add64 (en_offset t) (en_size t)) f = Returns found'"
      by (auto simp: stored_def andThen_Returns_iff split: if_splits)
    then have fits: "en_offset t + en_size t \<le> length data" by (auto simp: fontRegion_def split: if_splits)
    with assms have "add64 (en_offset t) (en_size t) = en_offset t + en_size t" by (intro add64_small) simp
    with Cons.IH [OF rest] True t fits show ?thesis by force
  qed
qed simp

lemma extractFrom_tables:
  assumes "length data < 2 ^ 64"
  shows "extractFrom ts E data False stop found = Returns found' \<Longrightarrow> distinct (map en_tag ts) \<Longrightarrow>
    \<forall>t \<in> set ts. en_original t = en_size t \<Longrightarrow>
    (\<forall>t \<in> set ts. found' (en_tag t) = Some (if metadataTag (en_tag t) then take (en_size t) (drop (en_offset t) data) else [])) \<and>
    (\<forall>tag. tag \<notin> en_tag ` set ts \<longrightarrow> found' tag = found tag)"
proof (induction ts arbitrary: stop found)
  case (Cons t ts)
  have "\<exists>stop'. extractFrom ts E data False stop' (found(en_tag t \<mapsto>
      (if metadataTag (en_tag t) then take (en_size t) (drop (en_offset t) data) else []))) = Returns found'"
  proof (cases "stored t")
    case False
    with Cons.prems(1) show ?thesis by (auto simp: stored_def)
  next
    case True
    with Cons.prems(1) obtain chunk where chunk: "fontRegion data (en_offset t) (en_size t) = Returns chunk"
      and rest: "extractFrom ts E data False (add64 (en_offset t) (en_size t))
        (found(en_tag t \<mapsto> (if metadataTag (en_tag t) then chunk else []))) = Returns found'"
      by (auto simp: stored_def andThen_Returns_iff split: if_splits)
    have "safe (fontRegion data (en_offset t) (en_size t)) (\<lambda>s. s = take (en_size t) (drop (en_offset t) data))"
      using assms by (intro safe_region) auto
    with chunk have "chunk = take (en_size t) (drop (en_offset t) data)" by simp
    with rest show ?thesis by auto
  qed
  then obtain stop' where rest: "extractFrom ts E data False stop' (found(en_tag t \<mapsto>
      (if metadataTag (en_tag t) then take (en_size t) (drop (en_offset t) data) else []))) = Returns found'" ..
  from Cons.IH [OF rest] Cons.prems(2,3) show ?case by auto
qed simp

lemma eachOf_all: "eachOf f xs = Returns ys \<Longrightarrow> length ys = length xs \<and> (\<forall>y \<in> set ys. \<exists>x \<in> set xs. f x = Returns y)"
proof (induction xs arbitrary: ys)
  case (Cons x xs)
  then obtain y zs where y: "f x = Returns y" "eachOf f xs = Returns zs" "ys = y # zs"
    by (auto simp: andThen_Returns_iff)
  with Cons.IH [OF y(2)] show ?case by auto
qed simp

lemma boundsFrom_distinct: "boundsFrom es seen used = None \<Longrightarrow> distinct (map en_tag es) \<and> set seen \<inter> en_tag ` set es = {}"
proof (induction es arbitrary: seen used)
  case (Cons t ts)
  then have "en_tag t \<notin> set seen" "boundsFrom ts (en_tag t # seen) (add64 used (en_original t)) = None"
    by (auto simp: Let_def split: if_splits)
  with Cons.IH show ?case by fastforce
qed simp

lemma tableBounds_distinct: "tableBounds es n = None \<Longrightarrow> distinct (map en_tag es)"
  by (auto simp: tableBounds_def dest: boundsFrom_distinct split: if_splits option.splits)

lemma sorted_wrt_either: "sorted_wrt P xs \<Longrightarrow> a \<in> set xs \<Longrightarrow> b \<in> set xs \<Longrightarrow> a \<noteq> b \<Longrightarrow> P a b \<or> P b a"
  by (induction xs) auto

definition apartIn :: "string \<Rightarrow> entry list \<Rightarrow> bool" where
  "apartIn data es \<longleftrightarrow>
     (\<forall>a \<in> set es. en_size a > 0 \<longrightarrow> 12 + 16 * length es \<le> en_offset a \<and> en_offset a + en_size a \<le> length data)
     \<and> (\<forall>a \<in> set es. \<forall>b \<in> set es. a \<noteq> b \<and> en_size a > 0 \<and> en_size b > 0 \<longrightarrow>
           en_offset a + en_size a \<le> en_offset b \<or> en_offset b + en_size b \<le> en_offset a)"

text \<open>
  The tables of an accepted TrueType or OpenType file are those of its directory: their tags differ, tables with
  content lie after the directory and within the file and do not overlap, and a table that the description reads
  is the bytes that its directory entry names.
\<close>

theorem accepted_tables_are_disjoint_slices:
  assumes "permutes E" "length data \<le> MaxFontBytes" "sfnt E data = Returns t"
  shows "\<exists>n es. u16 data 4 = Returns n \<and> eachOf (sfntEntry data) [0..<n] = Returns es \<and> distinct (map en_tag es) \<and>
    apartIn data es \<and> dom t = en_tag ` set es \<and>
    (\<forall>a \<in> set es. t (en_tag a) = Some (if metadataTag (en_tag a) then take (en_size a) (drop (en_offset a) data) else []))"
proof -
  from assms(2) have big: "length data < 2 ^ 64" by (simp add: MaxFontBytes_def)
  from assms(3) obtain n es where es: "u16 data 4 = Returns n" "eachOf (sfntEntry data) [0..<n] = Returns es"
      "tableBounds es (length data) = None" "extractTables E data es (12 + 16 * n) False = Returns t"
    by (auto simp: sfnt_def andThen_Returns_iff split: if_splits option.splits)
  have size: "length es = n" "\<forall>a \<in> set es. en_original a = en_size a"
    using eachOf_all [OF es(2)] by (auto simp: sfntEntry_def Let_def andThen_Returns_iff)
  let ?s = "fe_sort E byOffset es"
  note set_s = permutes_set [OF assms(1), of byOffset es]
  have tags: "distinct (map en_tag es)" using es(3) by (rule tableBounds_distinct)
  moreover have "mset (map en_tag ?s) = mset (map en_tag es)" using assms(1) by (simp add: permutes_def)
  ultimately have "distinct (map en_tag ?s)" by (metis mset_eq_imp_distinct_iff)
  note T = extractFrom_tables [OF big es(4) [unfolded extractTables_def] this]
  note R = extractFrom_ranges [OF big es(4) [unfolded extractTables_def]]
  have stored: "stored a \<longleftrightarrow> en_size a > 0" if "a \<in> set es" for a using that size(2) by (auto simp: stored_def)
  have "apartIn data es"
    unfolding apartIn_def
  proof (intro conjI ballI impI)
    fix a b
    assume "a \<in> set es" "b \<in> set es" "a \<noteq> b \<and> en_size a > 0 \<and> en_size b > 0"
    then show "en_offset a + en_size a \<le> en_offset b \<or> en_offset b + en_size b \<le> en_offset a"
      using sorted_wrt_either [OF conjunct1 [OF R]] stored set_s by auto
  qed (use R stored set_s size(1) in auto)
  moreover have "dom t = en_tag ` set es" using T size(2) set_s by (fastforce simp: dom_def)
  ultimately show ?thesis using es(1,2) tags T size(2) set_s by auto
qed

section \<open>A small font\<close>

text \<open>An OpenType font with the family name \<open>Ab\<close>; the tables \<open>hmtx\<close> and \<open>CFF\<close> are empty.\<close>

definition zeros :: "nat \<Rightarrow> string" where
  "zeros n = replicate n (CHR 0x00)"

definition long :: "nat \<Rightarrow> string" where
  "long n = [CHR 0x00, CHR 0x00, CHR 0x00, char_of n]"

definition listed :: "string \<times> nat \<times> nat \<Rightarrow> string" where
  "listed = (\<lambda>(tag, offset, sz). tag @ zeros 4 @ long offset @ long sz)"

definition listedEntry :: "string \<times> nat \<times> nat \<Rightarrow> entry" where
  "listedEntry = (\<lambda>(tag, offset, sz). \<lparr>en_tag = tag, en_offset = offset, en_size = sz, en_original = sz, en_transformed = False\<rparr>)"

definition sampleTables :: "(string \<times> nat \<times> nat) list" where
  "sampleTables =
     [(''head'', 124, 54), (''maxp'', 180, 6), (''cmap'', 188, 4), (''hhea'', 192, 36), (''name'', 228, 22),
      (''hmtx'', 0, 0), (''CFF '', 0, 0)]"

definition sampleHead :: string where
  "sampleHead = zeros 12 @ [CHR 0x5F, CHR 0x0F, CHR 0x3C, CHR 0xF5] @ zeros 2 @ [CHR 0x03, CHR 0xE8] @ zeros 34"

definition sampleName :: string where
  "sampleName =
     [CHR 0x00, CHR 0x00, CHR 0x00, CHR 0x01, CHR 0x00, CHR 0x12,
      CHR 0x00, CHR 0x03, CHR 0x00, CHR 0x01, CHR 0x04, CHR 0x09, CHR 0x00, CHR 0x01, CHR 0x00, CHR 0x04, CHR 0x00, CHR 0x00,
      CHR 0x00, CHR 0x41, CHR 0x00, CHR 0x62]"

definition sampleMaxp :: string where
  "sampleMaxp = zeros 5 @ [CHR 0x01]"

definition sampleFont :: string where
  "sampleFont =
     (''OTTO'' @ [CHR 0x00, CHR 0x07] @ zeros 6) @ concat (map listed sampleTables)
     @ sampleHead @ zeros 2 @ sampleMaxp @ zeros 2 @ zeros 4 @ zeros 36 @ sampleName"

definition evalFonts :: font_env where
  "evalFonts = \<lparr>fe_zlib = (\<lambda>chunk n. None), fe_brotli = (\<lambda>chunk n. None), fe_fixedText = FormatInt,
     fe_sort = (\<lambda>cmp. SortSlice (\<lambda>a b. cmp a b < 0))\<rparr>"

lemma evalFonts_permutes: "permutes evalFonts"
  by (simp add: permutes_def evalFonts_def)

lemma long_eval [simp]: "n < 256 \<Longrightarrow> bigEndian (long n) = n"
  by (simp add: bigEndian_def long_def byte_char_of) (simp add: byte_def)

lemma length_zeros [simp]: "length (zeros n) = n"
  by (simp add: zeros_def)

lemma length_long [simp]: "length (long n) = 4"
  by (simp add: long_def)

lemma sample_lengths:
  "length (concat (map listed sampleTables)) = 112" "length sampleHead = 54" "length sampleMaxp = 6" "length sampleName = 22"
  "length sampleFont = 250"
  by (simp_all add: sampleTables_def listed_def sampleHead_def sampleMaxp_def sampleName_def sampleFont_def)

lemma listed_entries:
  "\<forall>(tag, offset, sz) \<in> set ts. length tag = 4 \<and> offset < 256 \<and> sz < 256 \<Longrightarrow> data = before @ concat (map listed ts) @ after \<Longrightarrow>
     length before = 12 + i * 16 \<Longrightarrow> eachOf (sfntEntry data) [i..<i + length ts] = Returns (map listedEntry ts)"
proof (induction ts arbitrary: before i)
  case (Cons t ts)
  obtain tag offset sz where t: "t = (tag, offset, sz)" by (cases t)
  with Cons.prems have "sfntEntry data i = Returns (listedEntry t)"
    by (simp add: sfntEntry_def Let_def u32_def slice_def listed_def listedEntry_def)
  moreover have "eachOf (sfntEntry data) [Suc i..<Suc i + length ts] = Returns (map listedEntry ts)"
    using Cons.prems t by (intro Cons.IH [of "before @ listed t"]) (simp_all add: listed_def)
  moreover have "[i..<i + length (t # ts)] = i # [Suc i..<Suc i + length ts]" by (simp add: upt_rec)
  ultimately show ?case by simp
qed simp

lemma region_eval: "data = before @ chunk @ rest \<Longrightarrow> length before = offset \<Longrightarrow> length chunk = sz \<Longrightarrow> offset + sz < 2 ^ 64 \<Longrightarrow>
    fontRegion data offset sz = Returns chunk"
  by (simp add: fontRegion_def slice_def add64_small)

lemma sample_regions:
  "fontRegion sampleFont 124 54 = Returns sampleHead"
  "fontRegion sampleFont 180 6 = Returns sampleMaxp"
  "fontRegion sampleFont 188 4 = Returns (zeros 4)"
  "fontRegion sampleFont 192 36 = Returns (zeros 36)"
  "fontRegion sampleFont 228 22 = Returns sampleName"
proof -
  let ?d = "(''OTTO'' @ [CHR 0x00, CHR 0x07] @ zeros 6) @ concat (map listed sampleTables)"
  let ?all = "sampleFont = ?d @ sampleHead @ zeros 2 @ sampleMaxp @ zeros 2 @ zeros 4 @ zeros 36 @ sampleName"
  have all: ?all by (simp add: sampleFont_def)
  note L = sample_lengths
  show "fontRegion sampleFont 124 54 = Returns sampleHead"
    by (rule region_eval [where before = ?d]) (use all L in auto)
  show "fontRegion sampleFont 180 6 = Returns sampleMaxp"
    by (rule region_eval [where before = "?d @ sampleHead @ zeros 2"]) (use all L in auto)
  show "fontRegion sampleFont 188 4 = Returns (zeros 4)"
    by (rule region_eval [where before = "?d @ sampleHead @ zeros 2 @ sampleMaxp @ zeros 2"]) (use all L in auto)
  show "fontRegion sampleFont 192 36 = Returns (zeros 36)"
    by (rule region_eval [where before = "?d @ sampleHead @ zeros 2 @ sampleMaxp @ zeros 2 @ zeros 4"]) (use all L in auto)
  show "fontRegion sampleFont 228 22 = Returns sampleName"
    by (rule region_eval [where before = "?d @ sampleHead @ zeros 2 @ sampleMaxp @ zeros 2 @ zeros 4 @ zeros 36" and rest = "[]"])
      (use all L in auto)
qed

definition sampleFound :: tables where
  "sampleFound =
     [''hmtx'' \<mapsto> [], ''CFF '' \<mapsto> [], ''head'' \<mapsto> sampleHead, ''maxp'' \<mapsto> sampleMaxp, ''cmap'' \<mapsto> zeros 4,
      ''hhea'' \<mapsto> zeros 36, ''name'' \<mapsto> sampleName]"

lemma sample_sfnt: "sfnt evalFonts sampleFont = Returns sampleFound"
proof -
  have n: "u16 sampleFont 4 = Returns 7"
    by (simp add: u16_def slice_def sampleFont_def bigEndian_def byte_def zeros_def)
  have es: "eachOf (sfntEntry sampleFont) [0..<7] = Returns (map listedEntry sampleTables)"
  proof -
    have "eachOf (sfntEntry sampleFont) [0..<0 + length sampleTables] = Returns (map listedEntry sampleTables)"
      by (rule listed_entries [where before = "''OTTO'' @ [CHR 0x00, CHR 0x07] @ zeros 6"])
         (simp add: sampleTables_def, rule sampleFont_def, simp)
    moreover have "length sampleTables = 7" by (simp add: sampleTables_def)
    ultimately show ?thesis by simp
  qed
  have bounds: "tableBounds (map listedEntry sampleTables) 250 = None"
    by (simp add: tableBounds_def sampleTables_def listedEntry_def maxDecoded_def maxMetadata_def metadataTag_def add64_def fail_if_def)
  have sorted: "fe_sort evalFonts byOffset (map listedEntry sampleTables)
      = map listedEntry (drop 5 sampleTables @ take 5 sampleTables)"
    by (simp add: evalFonts_def SortSlice_def sampleTables_def listedEntry_def byOffset_def)
  have "extractTables evalFonts sampleFont (map listedEntry sampleTables) 124 False = Returns sampleFound"
    unfolding extractTables_def sorted
    by (simp add: sampleTables_def listedEntry_def sample_regions sample_lengths metadataTag_def add64_def sampleFound_def)
  then show ?thesis by (simp add: sfnt_def sample_lengths n es bounds)
qed

lemma sample_naming: "naming sampleName = Returns ''Ab''"
proof -
  have "trimmed ''Ab''" by (intro plain_trimmed; simp)
  then have "TrimSpace ''Ab'' = ''Ab''" by (simp add: TrimSpace_trimmed)
  moreover have "runes_of ''Ab'' = map (\<lambda>c. (byte c, 1)) ''Ab''" by (rule runes_ascii) simp
  moreover have "char_of (65 :: nat) = CHR ''A''" "char_of (98 :: nat) = CHR ''b''" by code_simp+
  ultimately show ?thesis
    by (simp add: naming_def sampleName_def u16_def slice_def bigEndian_def byte_def nameRecord_def fontRegion_def add64_def utf16Text_def
       stringOfRunes_def encode_rune_def Let_def RuneCount_def IsControl_def namePriority_def)
qed

lemma sample_accepted:
  "Validate evalFonts sampleFont =
     Returns (emptyFont\<lparr>fn_Family := ''Ab'', fn_Weight := ''unknown'', fn_Style := ''normal'', fn_Format := ''opentype'', fn_MIME := ''font/otf''\<rparr>)"
proof -
  have "take 4 sampleFont = ''OTTO''" by (simp add: sampleFont_def)
  then have c: "container evalFonts sampleFont = Returns (''opentype'', ''font/otf'', sampleFound)"
    by (simp add: container_def sample_sfnt byte_def)
  have "metadata evalFonts sampleFound = Returns (emptyFont\<lparr>fn_Family := ''Ab'', fn_Weight := ''unknown'', fn_Style := ''normal''\<rparr>)"
  proof -
    have "replicate 2 (CHR 0x00) = [CHR 0x00, CHR 0x00]" by (simp add: numeral_2_eq_2)
    then have "u32 sampleHead 12 = Returns 0x5f0f3cf5" "u16 sampleHead 18 = Returns 1000" "u16 sampleHead 44 = Returns 0" "u16 sampleMaxp 4 = Returns 1"
      by (simp_all add: sampleHead_def sampleMaxp_def zeros_def u32_def u16_def slice_def bigEndian_def byte_def)
    then show ?thesis
      by (simp add: metadata_def minimumLengths_def tableOf_def sampleFound_def sample_lengths hasOutlines_def weightAndStyle_def sample_naming)
  qed
  with c show ?thesis by (simp add: Validate_def sample_lengths MaxFontBytes_def)
qed

lemma accepted_font_is_described_witness:
  "\<exists>f. Validate evalFonts sampleFont = Returns f \<and> (fn_Format f, fn_MIME f) \<in> set fontFormats \<and> described evalFonts f \<and>
     fn_Family f = ''Ab''"
  using accepted_font_is_described [OF sample_accepted] sample_accepted by simp

lemma decompression_is_bounded_witness:
  "agreeUpTo (64 * 2 ^ 20 + 1) (\<lambda>chunk n. if n > 2 ^ 27 then Some chunk else None) (fe_zlib evalFonts) \<and>
   (\<exists>f. Validate (decompressing evalFonts (\<lambda>chunk n. if n > 2 ^ 27 then Some chunk else None) (\<lambda>chunk n. None)) sampleFont = Returns f)"
proof -
  have z: "agreeUpTo (64 * 2 ^ 20 + 1) (\<lambda>chunk n. if n > 2 ^ 27 then Some chunk else None) (fe_zlib evalFonts)"
      "agreeUpTo (64 * 2 ^ 20 + 1) (\<lambda>chunk n. None) (fe_brotli evalFonts)"
    by (simp_all add: agreeUpTo_def evalFonts_def)
  from decompression_is_bounded [OF evalFonts_permutes z] sample_accepted z(1) show ?thesis by simp
qed

lemma accepted_tables_are_disjoint_slices_witness:
  "\<exists>t n es. sfnt evalFonts sampleFont = Returns t \<and> u16 sampleFont 4 = Returns n \<and>
     eachOf (sfntEntry sampleFont) [0..<n] = Returns es \<and> apartIn sampleFont es \<and> t ''head'' = Some sampleHead"
proof -
  have "length sampleFont \<le> MaxFontBytes" by (simp add: sample_lengths MaxFontBytes_def)
  moreover have "sampleFound ''head'' = Some sampleHead" by (simp add: sampleFound_def)
  ultimately show ?thesis
    using accepted_tables_are_disjoint_slices [OF evalFonts_permutes _ sample_sfnt] sample_sfnt by blast
qed

end
