(* ===== verification/PluginManifest.thy ===== *)
theory PluginManifest
  imports GoLib
begin

text \<open>
  Declarations of plugins (\<open>plugin-sdk/manifest/manifest.go\<close>): what a manifest declares and when it is accepted.

  The records have the fields of the Go structs. A slice that Go distinguishes from \<open>nil\<close> is of option type, the
  map of targets an association list with different keys. The regular expressions are written out on the parts of
  the text; \<open>fs.ValidPath\<close> and \<open>path.Clean\<close> are those of Go's library. Reading JSON is a parameter
  of \<open>DecodeManifest\<close>.
\<close>

section \<open>Declarations\<close>

record Target =
  tg_UI :: string
  tg_Backend :: string

record Secret =
  sc_ID :: string
  sc_Required :: bool

record QueryDecl =
  qd_ID :: string
  qd_InputSchema :: string
  qd_OutputSchema :: string
  qd_Capability :: string

record PageDecl =
  pg_ID :: string
  pg_Title :: string
  pg_Description :: string
  pg_Path :: string
  pg_Methods :: "string list"
  pg_Capabilities :: "string list option"

datatype NavDecl = NavDecl (nv_Icon: string) (nv_ID: string) (nv_Title: string) (nv_Page: string) (nv_Children: "NavDecl list")

record WidgetDecl =
  wt_ID :: string
  wt_Title :: string
  wt_OptionsSchema :: string
  wt_Capabilities :: "string list option"

record AssetDecl =
  ad_ID :: string
  ad_File :: string
  ad_MediaType :: string
  ad_Kind :: string

record Manifest =
  mf_ManifestVersion :: int
  mf_ID :: string
  mf_Version :: string
  mf_Name :: string
  mf_Icon :: string
  mf_Protocol :: string
  mf_UIProfile :: string
  mf_Targets :: "(string \<times> Target) list"
  mf_ConnectionSchema :: string
  mf_Secrets :: "Secret list option"
  mf_Queries :: "QueryDecl list option"
  mf_Actions :: "QueryDecl list"
  mf_Pages :: "PageDecl list option"
  mf_Navigation :: "NavDecl list option"
  mf_Widgets :: "WidgetDecl list option"
  mf_Assets :: "AssetDecl list option"
  mf_Required :: "string list option"
  mf_Optional :: "string list option"

definition items :: "'a list option \<Rightarrow> 'a list" where
  "items xs = (case xs of Some ys \<Rightarrow> ys | None \<Rightarrow> [])"

lemma items_simps [simp]: "items (Some xs) = xs" "items None = []"
  by (simp_all add: items_def)

datatype manifest_error =
    Incompatible | InvalidIdentity | FieldsMissing | ContributionCount | SchemaPath | ExecutableTarget
  | NotificationBackend | CapabilityRepeated | UndeclaredExtension | InvalidPage | PageMethod | AmbiguousRoutes
  | InvalidNavigation | NavigationPage | InvalidWidget | InvalidQuery | TooManyActions | InvalidAction
  | InvalidSecret | InvalidAsset | ManifestIcon | ManifestLimit | ManifestJSON | ManifestTrailing

definition ManifestProtocol :: string where "ManifestProtocol = ''balemoh.plugins/v1alpha1''"
definition UIProfile :: string where "UIProfile = ''balemoh.goshtoso/v1alpha2''"
definition ManifestMaxBytes :: nat where "ManifestMaxBytes = 262144"

section \<open>Names\<close>

definition isLower :: "char \<Rightarrow> bool" where "isLower c \<longleftrightarrow> 97 \<le> byte c \<and> byte c \<le> 122"
definition isUpper :: "char \<Rightarrow> bool" where "isUpper c \<longleftrightarrow> 65 \<le> byte c \<and> byte c \<le> 90"
definition isDigit :: "char \<Rightarrow> bool" where "isDigit c \<longleftrightarrow> 48 \<le> byte c \<and> byte c \<le> 57"

definition lowerAlnum :: "string \<Rightarrow> bool" where
  "lowerAlnum s \<longleftrightarrow> s \<noteq> [] \<and> isLower (hd s) \<and> list_all (\<lambda>c. isLower c \<or> isDigit c) s"

definition localID :: "string \<Rightarrow> bool" where
  "localID s \<longleftrightarrow> s \<noteq> [] \<and> isLower (hd s) \<and> list_all (\<lambda>c. isLower c \<or> isDigit c \<or> c = CHR ''-'') s"

definition pluginID :: "string \<Rightarrow> bool" where
  "pluginID s \<longleftrightarrow>
     (case Split (CHR ''.'') s of p # ps \<Rightarrow> ps \<noteq> [] \<and> lowerAlnum p \<and> list_all localID ps | [] \<Rightarrow> False)"

definition queryID :: "string \<Rightarrow> bool" where
  "queryID s \<longleftrightarrow> list_all lowerAlnum (Split (CHR ''.'') s)"

definition platformID :: "string \<Rightarrow> bool" where
  "platformID s \<longleftrightarrow>
     (case Split (CHR ''/'') s of
        [a, b] \<Rightarrow> a \<noteq> [] \<and> b \<noteq> [] \<and> list_all (\<lambda>c. isLower c \<or> isDigit c) (a @ b)
      | _ \<Rightarrow> False)"

definition numericIdentifier :: "string \<Rightarrow> bool" where
  "numericIdentifier s \<longleftrightarrow> s = ''0'' \<or> s \<noteq> [] \<and> hd s \<noteq> CHR ''0'' \<and> list_all isDigit s"

definition buildIdentifier :: "string \<Rightarrow> bool" where
  "buildIdentifier s \<longleftrightarrow> s \<noteq> [] \<and> list_all (\<lambda>c. isDigit c \<or> isLower c \<or> isUpper c \<or> c = CHR ''-'') s"

definition preIdentifier :: "string \<Rightarrow> bool" where
  "preIdentifier s \<longleftrightarrow> numericIdentifier s \<or> buildIdentifier s \<and> \<not> list_all isDigit s"

definition version :: "string \<Rightarrow> bool" where
  "version s \<longleftrightarrow>
     (let (main, build) = (case Cut (CHR ''+'') s of Some (a, b) \<Rightarrow> (a, Some b) | None \<Rightarrow> (s, None));
          (core, pre) = (case Cut (CHR ''-'') main of Some (a, b) \<Rightarrow> (a, Some b) | None \<Rightarrow> (main, None)) in
      length (Split (CHR ''.'') core) = 3 \<and> list_all numericIdentifier (Split (CHR ''.'') core)
      \<and> (case pre of Some p \<Rightarrow> list_all preIdentifier (Split (CHR ''.'') p) | None \<Rightarrow> True)
      \<and> (case build of Some b \<Rightarrow> list_all buildIdentifier (Split (CHR ''.'') b) | None \<Rightarrow> True))"

definition validLocal :: "string \<Rightarrow> bool" where
  "validLocal s \<longleftrightarrow> length s \<le> 64 \<and> localID s"

section \<open>Paths\<close>

definition ValidPath :: "string \<Rightarrow> bool" where
  "ValidPath name \<longleftrightarrow>
     ValidString name \<and> (name = ''.'' \<or> list_all (\<lambda>e. e \<noteq> [] \<and> e \<noteq> ''.'' \<and> e \<noteq> ''..'') (Split (CHR ''/'') name))"

fun JoinSlash :: "string list \<Rightarrow> string" where
  "JoinSlash [] = []"
| "JoinSlash [x] = x"
| "JoinSlash (x # xs) = x @ CHR ''/'' # JoinSlash xs"

text \<open>The elements that \<open>path.Clean\<close> leaves, the last one first.\<close>

fun cleanElements :: "bool \<Rightarrow> string list \<Rightarrow> string list \<Rightarrow> string list" where
  "cleanElements rooted out [] = out"
| "cleanElements rooted out (e # es) =
     (if e = [] \<or> e = ''.'' then cleanElements rooted out es
      else if e = ''..'' then
        (if out \<noteq> [] \<and> hd out \<noteq> ''..'' then cleanElements rooted (tl out) es
         else if rooted then cleanElements rooted out es
         else cleanElements rooted (''..'' # out) es)
      else cleanElements rooted (e # out) es)"

definition Clean :: "string \<Rightarrow> string" where
  "Clean path =
     (if path = [] then ''.''
      else
        (let rooted = (hd path = CHR ''/'');
             cleaned = (if rooted then ''/'' else []) @ JoinSlash (rev (cleanElements rooted [] (Split (CHR ''/'') path)))
         in if cleaned = [] then ''.'' else cleaned))"

definition safePath :: "string \<Rightarrow> bool" where
  "safePath s \<longleftrightarrow> ValidPath s \<and> s \<noteq> ''.'' \<and> Clean s = s \<and> \<not> ContainsAny s [CHR 0x5C, CHR ''%'', CHR '':'', CHR ''?'', CHR ''#'']"

fun validParts :: "string list \<Rightarrow> string list \<Rightarrow> bool" where
  "validParts seen [] = True"
| "validParts seen (part # parts) =
     (if prefix ''{'' part \<and> suffix ''}'' part then
        (let p = butlast (tl part) in
         if \<not> validLocal p \<or> p \<in> set seen then False else validParts (p # seen) parts)
      else if \<not> validLocal part then False
      else validParts seen parts)"

definition validRoute :: "string \<Rightarrow> bool" where
  "validRoute s \<longleftrightarrow>
     (if s = ''/'' then True
      else if \<not> prefix ''/'' s \<or> suffix ''/'' s \<or> ContainsAny s [CHR ''%'', CHR ''?'', CHR ''#'', CHR 0x5C] then False
      else validParts [] (Split (CHR ''/'') (tl s)))"

definition overlap :: "string \<Rightarrow> string \<Rightarrow> bool" where
  "overlap a b \<longleftrightarrow>
     list_all2 (\<lambda>x y. x = y \<or> prefix ''{'' x \<or> prefix ''{'' y) (Split (CHR ''/'') a) (Split (CHR ''/'') b)"

section \<open>Validation\<close>

definition Declares :: "Manifest \<Rightarrow> string \<Rightarrow> bool" where
  "Declares m capability \<longleftrightarrow> capability \<in> set (items (mf_Required m)) \<or> capability \<in> set (items (mf_Optional m))"

definition declaredCapabilities :: "Manifest \<Rightarrow> string list" where
  "declaredCapabilities m = items (mf_Required m) @ items (mf_Optional m)"

fun repeatedCapability :: "string list \<Rightarrow> string list \<Rightarrow> bool" where
  "repeatedCapability seen [] = False"
| "repeatedCapability seen (c # cs) = (if c = [] \<or> c \<in> set seen then True else repeatedCapability (c # seen) cs)"

definition checkCaps :: "string list \<Rightarrow> string list option \<Rightarrow> bool" where
  "checkCaps caps cs \<longleftrightarrow> list_all (\<lambda>c. c \<in> set caps) (items cs)"

definition badTarget :: "Manifest \<Rightarrow> string \<times> Target \<Rightarrow> bool" where
  "badTarget m = (\<lambda>(platform, t).
     \<not> platformID platform \<or> \<not> safePath (tg_UI t) \<or> tg_Backend t \<noteq> [] \<and> \<not> safePath (tg_Backend t)
     \<or> length (items (mf_Queries m)) + length (mf_Actions m) > 0 \<and> tg_Backend t = [])"

fun checkPages :: "string list \<Rightarrow> string list \<Rightarrow> string list \<Rightarrow> PageDecl list \<Rightarrow> manifest_error option" where
  "checkPages caps seen patterns [] = None"
| "checkPages caps seen patterns (p # ps) =
     (if \<not> validLocal (pg_ID p) \<or> pg_ID p \<in> set seen \<or> TrimSpace (pg_Title p) = [] \<or> length (pg_Title p) > 256
         \<or> length (pg_Description p) > 2048 \<or> \<not> validRoute (pg_Path p) \<or> pg_Methods p = [] \<or> pg_Capabilities p = None
         \<or> \<not> checkCaps caps (pg_Capabilities p) then Some InvalidPage
      else if list_ex (\<lambda>method. method \<noteq> ''GET'' \<and> method \<noteq> ''POST'') (pg_Methods p) then Some PageMethod
      else if list_ex (\<lambda>prior. overlap prior (pg_Path p)) patterns then Some AmbiguousRoutes
      else checkPages caps (pg_ID p # seen) (patterns @ [pg_Path p]) ps)"

fun checkNavigation ::
    "string list \<Rightarrow> string list \<Rightarrow> nat \<Rightarrow> NavDecl list \<Rightarrow> (manifest_error, string list) result" where
  "checkNavigation pages navIDs depth [] = Inr navIDs"
| "checkNavigation pages navIDs depth (NavDecl icon i title page children # rest) =
     (if depth > 2 \<or> \<not> validLocal i \<or> i \<in> set navIDs \<or> TrimSpace title = [] \<or> (page = []) = (children = []) then Inl InvalidNavigation
      else if page \<noteq> [] \<and> page \<notin> set pages then Inl NavigationPage
      else
        (case checkNavigation pages (i # navIDs) (Suc depth) children of
           Inl e \<Rightarrow> Inl e
         | Inr navIDs' \<Rightarrow> checkNavigation pages navIDs' depth rest))"

text \<open>The loops over widgets, queries, actions, secrets and assets: the identifiers seen, or the error.\<close>

fun checkEach :: "('a \<Rightarrow> string) \<Rightarrow> ('a \<Rightarrow> bool) \<Rightarrow> manifest_error \<Rightarrow> string list \<Rightarrow> 'a list \<Rightarrow> (manifest_error, string list) result" where
  "checkEach ident ok e seen [] = Inr seen"
| "checkEach ident ok e seen (x # xs) =
     (if \<not> ok x \<or> ident x \<in> set seen then Inl e else checkEach ident ok e (ident x # seen) xs)"

definition widgetOK :: "string list \<Rightarrow> WidgetDecl \<Rightarrow> bool" where
  "widgetOK caps w \<longleftrightarrow>
     validLocal (wt_ID w) \<and> TrimSpace (wt_Title w) \<noteq> [] \<and> safePath (wt_OptionsSchema w) \<and> wt_Capabilities w \<noteq> None
     \<and> checkCaps caps (wt_Capabilities w)"

definition queryOK :: "string list \<Rightarrow> QueryDecl \<Rightarrow> bool" where
  "queryOK caps q \<longleftrightarrow>
     queryID (qd_ID q) \<and> length (qd_ID q) \<le> 64 \<and> safePath (qd_InputSchema q) \<and> safePath (qd_OutputSchema q)
     \<and> qd_Capability q \<in> set caps"

definition actionOK :: "string list \<Rightarrow> QueryDecl \<Rightarrow> bool" where
  "actionOK caps a \<longleftrightarrow>
     queryID (qd_ID a) \<and> length (qd_ID a) \<le> 64 \<and> safePath (qd_InputSchema a) \<and> safePath (qd_OutputSchema a)
     \<and> qd_Capability a = ''data.action/v1'' \<and> qd_Capability a \<in> set caps"

definition assetOK :: "AssetDecl \<Rightarrow> bool" where
  "assetOK a \<longleftrightarrow>
     validLocal (ad_ID a) \<and> safePath (ad_File a) \<and> ad_Kind a \<in> {''module'', ''style'', ''image'', ''document''} \<and> ad_MediaType a \<noteq> []"

definition checkContributions :: "Manifest \<Rightarrow> string list \<Rightarrow> manifest_error option" where
  "checkContributions m caps =
     (case checkNavigation (map pg_ID (items (mf_Pages m))) [] 1 (items (mf_Navigation m)) of
        Inl e \<Rightarrow> Some e
      | Inr _ \<Rightarrow>
     (case checkEach wt_ID (widgetOK caps) InvalidWidget [] (items (mf_Widgets m)) of
        Inl e \<Rightarrow> Some e
      | Inr _ \<Rightarrow>
     (case checkEach qd_ID (queryOK caps) InvalidQuery [] (items (mf_Queries m)) of
        Inl e \<Rightarrow> Some e
      | Inr queries \<Rightarrow>
     if length (mf_Actions m) > 32 then Some TooManyActions else
     (case checkEach qd_ID (actionOK caps) InvalidAction queries (mf_Actions m) of
        Inl e \<Rightarrow> Some e
      | Inr _ \<Rightarrow>
     (case checkEach sc_ID (\<lambda>s. validLocal (sc_ID s)) InvalidSecret [] (items (mf_Secrets m)) of
        Inl e \<Rightarrow> Some e
      | Inr _ \<Rightarrow>
     (case checkEach ad_ID assetOK InvalidAsset [] (items (mf_Assets m)) of
        Inl e \<Rightarrow> Some e
      | Inr _ \<Rightarrow>
     if mf_Icon m \<noteq> [] \<and>
        \<not> list_ex (\<lambda>a. ad_ID a = mf_Icon m \<and> ad_Kind a = ''image'' \<and> ad_MediaType a = ''image/png'') (items (mf_Assets m))
     then Some ManifestIcon else None))))))"

definition ManifestValidate :: "Manifest \<Rightarrow> manifest_error option" where
  "ManifestValidate m =
     (if mf_ManifestVersion m \<noteq> 1 \<or> mf_Protocol m \<noteq> ManifestProtocol \<or> mf_UIProfile m \<noteq> UIProfile then Some Incompatible
      else if \<not> pluginID (mf_ID m) \<or> length (mf_ID m) > 128 \<or> \<not> version (mf_Version m) \<or> TrimSpace (mf_Name m) = []
      then Some InvalidIdentity
      else if mf_Targets m = [] \<or> mf_Secrets m = None \<or> mf_Queries m = None \<or> mf_Pages m = None \<or> mf_Navigation m = None
              \<or> mf_Widgets m = None \<or> mf_Assets m = None \<or> mf_Required m = None \<or> mf_Optional m = None then Some FieldsMissing
      else if length (items (mf_Pages m)) > 32 \<or> length (items (mf_Widgets m)) > 16
              \<or> length (items (mf_Pages m)) + length (items (mf_Widgets m)) = 0 then Some ContributionCount
      else if \<not> safePath (mf_ConnectionSchema m) then Some SchemaPath
      else if list_ex (badTarget m) (mf_Targets m) then Some ExecutableTarget
      else if Declares m ''notifications.publish/v1'' \<and> list_ex (\<lambda>(platform, t). tg_Backend t = []) (mf_Targets m)
      then Some NotificationBackend
      else if repeatedCapability [] (declaredCapabilities m) then Some CapabilityRepeated
      else
        (let caps = declaredCapabilities m in
         if items (mf_Pages m) \<noteq> [] \<and> ''page.content/v1'' \<notin> set caps
            \<or> items (mf_Navigation m) \<noteq> [] \<and> ''sidebar.navigation/v1'' \<notin> set caps
            \<or> items (mf_Widgets m) \<noteq> [] \<and> ''home.widget/v1'' \<notin> set caps then Some UndeclaredExtension
         else or_else (checkPages caps [] [] (items (mf_Pages m))) (checkContributions m caps)))"

definition DecodeManifest ::
    "golib \<Rightarrow> (string \<Rightarrow> (Manifest \<times> bool) option) \<Rightarrow> string \<Rightarrow> (manifest_error, Manifest \<times> string) result" where
  "DecodeManifest L decode data =
     (if length data > ManifestMaxBytes then Inl ManifestLimit
      else
        (case decode data of
           None \<Rightarrow> Inl ManifestJSON
         | Some (m, atEnd) \<Rightarrow>
             if \<not> atEnd then Inl ManifestTrailing
             else (case ManifestValidate m of Some e \<Rightarrow> Inl e | None \<Rightarrow> Inr (m, sha256_hex L data))))"

definition ActionOf :: "Manifest \<Rightarrow> string \<Rightarrow> QueryDecl option" where
  "ActionOf m i = find (\<lambda>a. qd_ID a = i) (mf_Actions m)"

definition QueryOf :: "Manifest \<Rightarrow> string \<Rightarrow> QueryDecl option" where
  "QueryOf m i = find (\<lambda>q. qd_ID q = i) (items (mf_Queries m))"

definition PageOf :: "Manifest \<Rightarrow> string \<Rightarrow> PageDecl option" where
  "PageOf m i = find (\<lambda>p. pg_ID p = i) (items (mf_Pages m))"

definition WidgetOf :: "Manifest \<Rightarrow> string \<Rightarrow> WidgetDecl option" where
  "WidgetOf m i = find (\<lambda>w. wt_ID w = i) (items (mf_Widgets m))"

end
