(* ===== verification/ManifestFacts.thy ===== *)
theory ManifestFacts
  imports PluginManifest
begin

text \<open>
  What an accepted manifest satisfies: \<open>acceptableManifest\<close> states it without the loops of the validator, and
  the validator accepts exactly that.
\<close>

section \<open>The loops of the validator\<close>

lemma checkEach_Inr:
  "checkEach ident ok e seen xs = Inr out \<longleftrightarrow>
     (\<forall>x \<in> set xs. ok x) \<and> distinct (map ident xs) \<and> set (map ident xs) \<inter> set seen = {} \<and> out = rev (map ident xs) @ seen"
  by (induction xs arbitrary: seen) auto

lemma repeatedCapability_iff:
  "\<not> repeatedCapability seen cs \<longleftrightarrow> distinct cs \<and> [] \<notin> set cs \<and> set cs \<inter> set seen = {}"
  by (induction cs arbitrary: seen) auto

definition pageOK :: "string list \<Rightarrow> PageDecl \<Rightarrow> bool" where
  "pageOK caps p \<longleftrightarrow>
     validLocal (pg_ID p) \<and> TrimSpace (pg_Title p) \<noteq> [] \<and> length (pg_Title p) \<le> 256 \<and> length (pg_Description p) \<le> 2048
     \<and> validRoute (pg_Path p) \<and> pg_Methods p \<noteq> [] \<and> set (pg_Methods p) \<subseteq> {''GET'', ''POST''} \<and> pg_Capabilities p \<noteq> None
     \<and> set (items (pg_Capabilities p)) \<subseteq> set caps"

lemma checkPages_None:
  "checkPages caps seen patterns ps = None \<longleftrightarrow>
     (\<forall>p \<in> set ps. pageOK caps p) \<and> distinct (map pg_ID ps) \<and> set (map pg_ID ps) \<inter> set seen = {}
     \<and> sorted_wrt (\<lambda>p q. \<not> overlap (pg_Path p) (pg_Path q)) ps
     \<and> (\<forall>r \<in> set patterns. \<forall>p \<in> set ps. \<not> overlap r (pg_Path p))"
proof (induction ps arbitrary: seen patterns)
  case (Cons p ps)
  have "checkPages caps seen patterns (p # ps) = None \<longleftrightarrow>
      pageOK caps p \<and> pg_ID p \<notin> set seen \<and> (\<forall>r \<in> set patterns. \<not> overlap r (pg_Path p))
      \<and> checkPages caps (pg_ID p # seen) (patterns @ [pg_Path p]) ps = None"
  proof -
    have "pageOK caps p \<longleftrightarrow> validLocal (pg_ID p) \<and> TrimSpace (pg_Title p) \<noteq> [] \<and> length (pg_Title p) \<le> 256 \<and> length (pg_Description p) \<le> 2048
        \<and> validRoute (pg_Path p) \<and> pg_Methods p \<noteq> [] \<and> pg_Capabilities p \<noteq> None \<and> checkCaps caps (pg_Capabilities p)
        \<and> \<not> list_ex (\<lambda>method. method \<noteq> ''GET'' \<and> method \<noteq> ''POST'') (pg_Methods p)"
      unfolding pageOK_def checkCaps_def list_all_iff list_ex_iff by blast
    then show ?thesis by (simp add: list_ex_iff not_le) blast
  qed
  then show ?case unfolding Cons.IH by auto
qed simp

fun navNodes :: "NavDecl list \<Rightarrow> NavDecl list" where
  "navNodes [] = []"
| "navNodes (NavDecl icon i title page children # rest) =
     NavDecl icon i title page children # navNodes children @ navNodes rest"

fun navDepth :: "NavDecl list \<Rightarrow> nat" where
  "navDepth [] = 0"
| "navDepth (NavDecl icon i title page children # rest) = max (Suc (navDepth children)) (navDepth rest)"

definition navOK :: "string list \<Rightarrow> NavDecl \<Rightarrow> bool" where
  "navOK pages n \<longleftrightarrow>
     validLocal (nv_ID n) \<and> TrimSpace (nv_Title n) \<noteq> []
     \<and> (if nv_Children n = [] then nv_Page n \<noteq> [] \<and> nv_Page n \<in> set pages else nv_Page n = [])"

lemma checkNavigation_Inr:
  "checkNavigation pages seen (Suc d) ns = Inr out \<longleftrightarrow>
     d + navDepth ns \<le> max d 2 \<and> (\<forall>n \<in> set (navNodes ns). navOK pages n) \<and> distinct (map nv_ID (navNodes ns))
     \<and> set (map nv_ID (navNodes ns)) \<inter> set seen = {} \<and> out = rev (map nv_ID (navNodes ns)) @ seen"
proof (induction ns arbitrary: seen d out rule: navNodes.induct)
  case (2 icon i title page children rest)
  let ?n = "NavDecl icon i title page children"
  have step: "checkNavigation pages seen (Suc d) (?n # rest) = Inr out \<longleftrightarrow> d < 2 \<and> navOK pages ?n \<and> i \<notin> set seen
      \<and> (\<exists>ids. checkNavigation pages (i # seen) (Suc (Suc d)) children = Inr ids \<and> checkNavigation pages ids (Suc d) rest = Inr out)"
    by (auto simp: navOK_def split: sum.splits if_splits)
  have depth: "d + navDepth (?n # rest) \<le> max d 2 \<longleftrightarrow>
      d < 2 \<and> Suc d + navDepth children \<le> max (Suc d) 2 \<and> d + navDepth rest \<le> max d 2"
    by (simp add: max_def) linarith
  show ?case unfolding step depth unfolding 2 by auto
qed auto

section \<open>Acceptance\<close>

definition acceptableManifest :: "Manifest \<Rightarrow> bool" where
  "acceptableManifest m \<longleftrightarrow>
     (let caps = declaredCapabilities m; pages = items (mf_Pages m); widgets = items (mf_Widgets m);
          queries = items (mf_Queries m); nodes = navNodes (items (mf_Navigation m)) in
      mf_ManifestVersion m = 1 \<and> mf_Protocol m = ManifestProtocol \<and> mf_UIProfile m = UIProfile
      \<and> pluginID (mf_ID m) \<and> length (mf_ID m) \<le> 128 \<and> version (mf_Version m) \<and> TrimSpace (mf_Name m) \<noteq> []
      \<and> (mf_Secrets m \<noteq> None \<and> mf_Queries m \<noteq> None \<and> mf_Pages m \<noteq> None \<and> mf_Navigation m \<noteq> None \<and> mf_Widgets m \<noteq> None
         \<and> mf_Assets m \<noteq> None \<and> mf_Required m \<noteq> None \<and> mf_Optional m \<noteq> None)
      \<and> length pages \<le> 32 \<and> length widgets \<le> 16 \<and> (pages \<noteq> [] \<or> widgets \<noteq> [])
      \<and> safePath (mf_ConnectionSchema m)
      \<and> mf_Targets m \<noteq> [] \<and> (\<forall>t \<in> set (mf_Targets m). \<not> badTarget m t)
      \<and> (''notifications.publish/v1'' \<in> set caps \<longrightarrow> (\<forall>t \<in> set (mf_Targets m). tg_Backend (snd t) \<noteq> []))
      \<and> distinct caps \<and> [] \<notin> set caps
      \<and> (pages \<noteq> [] \<longrightarrow> ''page.content/v1'' \<in> set caps)
      \<and> (items (mf_Navigation m) \<noteq> [] \<longrightarrow> ''sidebar.navigation/v1'' \<in> set caps)
      \<and> (widgets \<noteq> [] \<longrightarrow> ''home.widget/v1'' \<in> set caps)
      \<and> (\<forall>p \<in> set pages. pageOK caps p) \<and> distinct (map pg_ID pages)
      \<and> sorted_wrt (\<lambda>p q. \<not> overlap (pg_Path p) (pg_Path q)) pages
      \<and> navDepth (items (mf_Navigation m)) \<le> 2 \<and> (\<forall>n \<in> set nodes. navOK (map pg_ID pages) n) \<and> distinct (map nv_ID nodes)
      \<and> (\<forall>w \<in> set widgets. widgetOK caps w) \<and> distinct (map wt_ID widgets)
      \<and> (\<forall>q \<in> set queries. queryOK caps q) \<and> (\<forall>a \<in> set (mf_Actions m). actionOK caps a) \<and> length (mf_Actions m) \<le> 32
      \<and> distinct (map qd_ID (queries @ mf_Actions m))
      \<and> (\<forall>s \<in> set (items (mf_Secrets m)). validLocal (sc_ID s)) \<and> distinct (map sc_ID (items (mf_Secrets m)))
      \<and> (\<forall>a \<in> set (items (mf_Assets m)). assetOK a) \<and> distinct (map ad_ID (items (mf_Assets m)))
      \<and> (mf_Icon m \<noteq> [] \<longrightarrow> (\<exists>a \<in> set (items (mf_Assets m)). ad_ID a = mf_Icon m \<and> ad_Kind a = ''image'' \<and> ad_MediaType a = ''image/png'')))"

lemma checkContributions_None:
  "checkContributions m caps = None \<longleftrightarrow>
     navDepth (items (mf_Navigation m)) \<le> 2
     \<and> (\<forall>n \<in> set (navNodes (items (mf_Navigation m))). navOK (map pg_ID (items (mf_Pages m))) n)
     \<and> distinct (map nv_ID (navNodes (items (mf_Navigation m))))
     \<and> (\<forall>w \<in> set (items (mf_Widgets m)). widgetOK caps w) \<and> distinct (map wt_ID (items (mf_Widgets m)))
     \<and> (\<forall>q \<in> set (items (mf_Queries m)). queryOK caps q) \<and> (\<forall>a \<in> set (mf_Actions m). actionOK caps a) \<and> length (mf_Actions m) \<le> 32
     \<and> distinct (map qd_ID (items (mf_Queries m) @ mf_Actions m))
     \<and> (\<forall>s \<in> set (items (mf_Secrets m)). validLocal (sc_ID s)) \<and> distinct (map sc_ID (items (mf_Secrets m)))
     \<and> (\<forall>a \<in> set (items (mf_Assets m)). assetOK a) \<and> distinct (map ad_ID (items (mf_Assets m)))
     \<and> (mf_Icon m \<noteq> [] \<longrightarrow> (\<exists>a \<in> set (items (mf_Assets m)). ad_ID a = mf_Icon m \<and> ad_Kind a = ''image'' \<and> ad_MediaType a = ''image/png''))"
proof -
  have case_None: "(case r of Inl e \<Rightarrow> Some e | Inr x \<Rightarrow> f x) = None \<longleftrightarrow> (\<exists>x. r = Inr x \<and> f x = None)"
    for r :: "(manifest_error, 'b) result" and f by (cases r) auto
  have if_None: "(if P then Some e else x) = None \<longleftrightarrow> \<not> P \<and> x = None" for P and e :: manifest_error and x by simp
  show ?thesis
    unfolding checkContributions_def case_None if_None checkEach_Inr One_nat_def checkNavigation_Inr list_ex_iff
    by (auto simp: Int_commute)
qed

lemma ManifestValidate_None: "ManifestValidate m = None \<longleftrightarrow> acceptableManifest m"
proof -
  have if_None: "(if P then Some e else x) = None \<longleftrightarrow> \<not> P \<and> x = None" for P and e :: manifest_error and x by simp
  have ex_False: "\<not> list_ex P xs \<longleftrightarrow> (\<forall>x \<in> set xs. \<not> P x)" for P and xs :: "'c list" by (simp add: list_ex_iff)
  have empty: "length xs + length ys = 0 \<longleftrightarrow> \<not> (xs \<noteq> [] \<or> ys \<noteq> [])" for xs :: "'a list" and ys :: "'b list" by simp
  have caps: "Declares m c \<longleftrightarrow> c \<in> set (declaredCapabilities m)" for c by (simp add: Declares_def declaredCapabilities_def)
  have nobackend: "(\<not> (case t of (platform, t) \<Rightarrow> tg_Backend t = [])) \<longleftrightarrow> tg_Backend (snd t) \<noteq> []" for t :: "string \<times> Target"
    by (simp split: prod.split)
  show ?thesis
    unfolding ManifestValidate_def acceptableManifest_def Let_def if_None or_else_None checkPages_None checkContributions_None
      repeatedCapability_iff caps empty de_Morgan_disj de_Morgan_conj not_not not_less ex_False nobackend
    by (simp only: list.set(1) Int_empty_right ball_empty simp_thms) argo
qed


section \<open>Routes\<close>

text \<open>The routes of an accepted manifest, by its accessor \<open>PageOf\<close>.\<close>

lemma find_unique:
  "distinct (map f xs) \<Longrightarrow> x \<in> set xs \<Longrightarrow> find (\<lambda>y. f y = f x) xs = Some x"
proof (induction xs)
  case (Cons y ys)
  then show ?case by (cases "f y = f x") (auto simp: image_iff)
qed simp

lemma PageOf_Some: "PageOf m i = Some p \<Longrightarrow> p \<in> set (items (mf_Pages m)) \<and> pg_ID p = i"
  by (auto simp: PageOf_def find_Some_iff in_set_conv_nth)

lemma PageOf_accepted: "acceptableManifest m \<Longrightarrow> p \<in> set (items (mf_Pages m)) \<Longrightarrow> PageOf m (pg_ID p) = Some p"
  by (simp add: PageOf_def find_unique acceptableManifest_def Let_def)

lemma accepted_pageOK: "acceptableManifest m \<Longrightarrow> p \<in> set (items (mf_Pages m)) \<Longrightarrow> pageOK (declaredCapabilities m) p"
  by (simp add: acceptableManifest_def Let_def)

lemma overlap_sym: "overlap a b = overlap b a"
  unfolding overlap_def list_all2_conv_all_nth by auto

lemma accepted_routes:
  assumes "acceptableManifest m" "p \<in> set (items (mf_Pages m))" "q \<in> set (items (mf_Pages m))" "p \<noteq> q"
  shows "\<not> overlap (pg_Path p) (pg_Path q)"
proof -
  let ?ps = "items (mf_Pages m)"
  from assms(2,3) obtain i j where ij: "i < length ?ps" "?ps ! i = p" "j < length ?ps" "?ps ! j = q"
    by (auto simp: in_set_conv_nth)
  have w: "sorted_wrt (\<lambda>p q. \<not> overlap (pg_Path p) (pg_Path q)) ?ps" using assms(1) by (simp add: acceptableManifest_def Let_def)
  from ij assms(4) have "i < j \<or> j < i" by (metis linorder_neqE_nat)
  then show ?thesis
    using sorted_wrt_nth_less [OF w] ij overlap_sym by metis
qed

text \<open>\<open>path.Clean\<close> says nothing that \<open>fs.ValidPath\<close> has not said.\<close>

lemma JoinSlash_Split: "JoinSlash (Split (CHR ''/'') s) = s"
proof (induction s)
  case (Cons c s)
  then show ?case by (cases "Split (CHR ''/'') s"; cases "tl (Split (CHR ''/'') s)") auto
qed simp

lemma cleanElements_plain:
  "\<forall>e \<in> set es. e \<noteq> [] \<and> e \<noteq> ''.'' \<and> e \<noteq> ''..'' \<Longrightarrow> cleanElements rooted out es = rev es @ out"
  by (induction es arbitrary: out) auto

lemma safePath_iff:
  "safePath s \<longleftrightarrow> ValidPath s \<and> s \<noteq> ''.'' \<and> \<not> ContainsAny s [CHR 0x5C, CHR ''%'', CHR '':'', CHR ''?'', CHR ''#'']"
proof -
  have "Clean s = s" if "ValidPath s" "s \<noteq> ''.''"
  proof -
    have parts: "\<forall>e \<in> set (Split (CHR ''/'') s). e \<noteq> [] \<and> e \<noteq> ''.'' \<and> e \<noteq> ''..''"
      using that unfolding ValidPath_def list_all_iff by blast
    have "[] \<notin> set (Split (CHR ''/'') s)" using parts by blast
    then have "s \<noteq> [] \<and> hd s \<noteq> CHR ''/''" by (cases s) (simp_all split: if_splits)
    moreover have "cleanElements rooted [] (Split (CHR ''/'') s) = rev (Split (CHR ''/'') s)" for rooted
      using cleanElements_plain [OF parts, of rooted "[]"] by simp
    ultimately show ?thesis by (simp add: Clean_def JoinSlash_Split)
  qed
  then show ?thesis unfolding safePath_def by blast
qed

end
