(* ===== verification/PluginPages.thy ===== *)
theory PluginPages
  imports ManifestFacts
begin

text \<open>
  Pages of plugins: which contributions of a manifest are available (\<open>plugin-sdk/runtime/runtime.go\<close>), the addresses that
  a plugin may ask for (\<open>plugin-sdk/ui/ui.go\<close>), and how the user interface finds the page of an address and shows the
  navigation (\<open>ui/internal/plugins/registry.go\<close>).

  \<open>PathEscape\<close> and \<open>PathUnescape\<close> are those of \<open>net/url\<close>. An entry of the registry has the fields that these
  functions read, its package is the manifest; parameters of a path are a Go map, an association list.
\<close>

section \<open>Escaping\<close>

definition shouldEscape :: "char \<Rightarrow> bool" where
  "shouldEscape c \<longleftrightarrow> \<not> (isLower c \<or> isUpper c \<or> isDigit c \<or> c \<in> set ''-_.~$&+=:@'')"

definition hexUpper :: "nat \<Rightarrow> char" where
  "hexUpper n = ''0123456789ABCDEF'' ! n"

definition PathEscape :: "string \<Rightarrow> string" where
  "PathEscape s = concat (map (\<lambda>c. if shouldEscape c then [CHR ''%'', hexUpper (byte c div 16), hexUpper (byte c mod 16)] else [c]) s)"

definition unhex :: "char \<Rightarrow> nat option" where
  "unhex c =
     (if 48 \<le> byte c \<and> byte c \<le> 57 then Some (byte c - 48)
      else if 97 \<le> byte c \<and> byte c \<le> 102 then Some (byte c - 87)
      else if 65 \<le> byte c \<and> byte c \<le> 70 then Some (byte c - 55)
      else None)"

fun PathUnescape :: "string \<Rightarrow> string option" where
  "PathUnescape [] = Some []"
| "PathUnescape (c # s) =
     (if c = CHR ''%'' then
        (case s of
           a # b # rest \<Rightarrow>
             (case (unhex a, unhex b, PathUnescape rest) of
                (Some x, Some y, Some t) \<Rightarrow> Some (char_of (16 * x + y) # t)
              | _ \<Rightarrow> None)
         | _ \<Rightarrow> None)
      else map_option ((#) c) (PathUnescape s))"

section \<open>Capabilities\<close>

definition ServiceCatalogCapability :: string where
  "ServiceCatalogCapability = ''catalog.services.read/v1''"

definition supportedCapability :: "string \<Rightarrow> bool" where
  "supportedCapability c \<longleftrightarrow>
     c \<in> {''page.content/v1'', ''sidebar.navigation/v1'', ''home.widget/v1'', ''data.query/v1'', ''data.action/v1'',
          ''notifications.publish/v1'', ServiceCatalogCapability}"

definition Supported :: "Manifest \<Rightarrow> bool" where
  "Supported m \<longleftrightarrow> ManifestValidate m = None \<and> list_all supportedCapability (items (mf_Required m))"

definition validateContribution :: "Manifest \<Rightarrow> string \<Rightarrow> string \<Rightarrow> string \<Rightarrow> bool" where
  "validateContribution m kind i mode =
     (let ok = (\<lambda>extension caps. Declares m extension \<and> list_all (\<lambda>c. Declares m c \<and> supportedCapability c) (items caps)) in
      if kind = ''page'' then
        (case PageOf m i of
           Some p \<Rightarrow> if mode = ''page'' \<or> mode = ''fragment'' then ok ''page.content/v1'' (pg_Capabilities p) else False
         | None \<Rightarrow> False)
      else if kind = ''widget'' then
        (case WidgetOf m i of
           Some w \<Rightarrow> if mode = ''widget'' then ok ''home.widget/v1'' (wt_Capabilities w) else False
         | None \<Rightarrow> False)
      else False)"

definition Available :: "Manifest \<Rightarrow> string \<Rightarrow> string \<Rightarrow> bool" where
  "Available m kind i \<longleftrightarrow> Supported m \<and> validateContribution m kind i kind"

section \<open>Addresses\<close>

datatype page_error = UnknownPage | PageParameter | UnexpectedParameter | InvalidFragment | UnknownAsset | NoScopedWidget

definition parameterName :: "string \<Rightarrow> string" where
  "parameterName s = TrimSuffix (TrimPrefix s ''{'') ''}''"

definition badValue :: "string \<Rightarrow> bool" where
  "badValue v \<longleftrightarrow> v = [] \<or> v = ''.'' \<or> v = ''..'' \<or> ContainsAny v [CHR ''/'', CHR 0x5C, CHR ''%'', CHR 0x00]"

fun fillParts :: "smap \<Rightarrow> string list \<Rightarrow> string list \<Rightarrow> (string list \<times> string list) option" where
  "fillParts params used [] = Some ([], used)"
| "fillParts params used (s # parts) =
     (if prefix ''{'' s then
        (case map_of params (parameterName s) of
           None \<Rightarrow> None
         | Some v \<Rightarrow>
             if badValue v then None
             else map_option (\<lambda>(out, used'). (PathEscape v # out, used')) (fillParts params (parameterName s # used) parts))
      else map_option (\<lambda>(out, used'). (s # out, used')) (fillParts params used parts))"

definition TrimRightSlash :: "string \<Rightarrow> string" where
  "TrimRightSlash s = rev (dropWhile (\<lambda>c. c = CHR ''/'') (rev s))"

definition connectionURL :: "string \<Rightarrow> string \<Rightarrow> Manifest \<Rightarrow> string" where
  "connectionURL basePath connection m =
     TrimRightSlash basePath @ ''/plugins/'' @ PathEscape (mf_ID m) @ ''/connections/'' @ PathEscape connection"

definition PageURL :: "string \<Rightarrow> string \<Rightarrow> Manifest \<Rightarrow> string \<Rightarrow> smap \<Rightarrow> (page_error, string) result" where
  "PageURL basePath connection m i params =
     (case PageOf m i of
        None \<Rightarrow> Inl UnknownPage
      | Some p \<Rightarrow>
          (case fillParts params [] (Split (CHR ''/'') (pg_Path p)) of
             None \<Rightarrow> Inl PageParameter
           | Some (parts, used) \<Rightarrow>
               if length (remdups used) \<noteq> length params then Inl UnexpectedParameter
               else Inr (connectionURL basePath connection m @ ''/pages'' @ JoinSlash parts)))"

definition FragmentURL :: "string \<Rightarrow> string \<Rightarrow> Manifest \<Rightarrow> string \<Rightarrow> string \<Rightarrow> (page_error, string) result" where
  "FragmentURL basePath connection m contribution region =
     (if PageOf m contribution = None \<or> region = [] \<or> ContainsAny region [CHR ''/'', CHR ''%'', CHR 0x5C, CHR ''.'', CHR 0x00]
      then Inl InvalidFragment
      else Inr (connectionURL basePath connection m @ ''/fragments/'' @ PathEscape contribution @ ''/'' @ PathEscape region))"

definition AssetURL :: "string \<Rightarrow> string \<Rightarrow> Manifest \<Rightarrow> string \<Rightarrow> (page_error, string) result" where
  "AssetURL basePath packageDigest m i =
     (case find (\<lambda>a. ad_ID a = i) (items (mf_Assets m)) of
        Some a \<Rightarrow> Inr (TrimRightSlash basePath @ ''/plugins/assets/'' @ PathEscape (mf_ID m) @ ''/'' @ packageDigest @ ''/'' @ ad_File a)
      | None \<Rightarrow> Inl UnknownAsset)"

definition WidgetURL :: "string \<Rightarrow> string \<Rightarrow> (page_error, string) result" where
  "WidgetURL basePath placementID =
     (if placementID = [] \<or> ContainsAny placementID [CHR ''/'', CHR ''%'', CHR 0x5C, CHR 0x00] then Inl NoScopedWidget
      else Inr (TrimRightSlash basePath @ ''/plugin-widgets/'' @ PathEscape placementID))"

section \<open>The registry\<close>

record PluginEntry =
  en_Manifest :: "Manifest option"
  en_ConnectionID :: string
  en_ConnectionName :: string
  en_Compatible :: bool
  en_Problem :: bool
  en_Widgets :: "(string \<times> string) list"
  en_ServiceIDs :: "string list"
  en_Process :: bool

definition findEntry :: "PluginEntry list \<Rightarrow> string \<Rightarrow> string \<Rightarrow> (PluginEntry \<times> Manifest) option" where
  "findEntry es plugin connection =
     (case find (\<lambda>e. en_Compatible e \<and> (case en_Manifest e of Some m \<Rightarrow> mf_ID m = plugin | None \<Rightarrow> False) \<and> en_ConnectionID e = connection) es of
        None \<Rightarrow> None
      | Some e \<Rightarrow> map_option (\<lambda>m. (e, m)) (en_Manifest e))"

fun matchParts :: "smap \<Rightarrow> string list \<Rightarrow> string list \<Rightarrow> smap option" where
  "matchParts params [] [] = Some params"
| "matchParts params (s # a) (v # b) =
     (if prefix ''{'' s then
        (if v = [] then None else matchParts (mset_key (parameterName s) v params) a b)
      else if s \<noteq> v then None
      else matchParts params a b)"
| "matchParts params _ _ = None"

fun ContainsDots :: "string \<Rightarrow> bool" where
  "ContainsDots (a # b # s) \<longleftrightarrow> a = CHR ''.'' \<and> b = CHR ''.'' \<or> ContainsDots (b # s)"
| "ContainsDots _ \<longleftrightarrow> False"

definition pageMatch :: "string \<Rightarrow> string \<Rightarrow> smap option" where
  "pageMatch pattern v =
     (if ContainsAny v [CHR ''%'', CHR 0x5C, CHR 0x00] \<or> ContainsDots v \<or> length v > 2048 then None
      else
        (let a = Split (CHR ''/'') (TrimPrefix pattern ''/''); b = Split (CHR ''/'') (TrimPrefix v ''/'') in
         if length a \<noteq> length b then None else matchParts [] a b))"

definition NavID :: "golib \<Rightarrow> string \<Rightarrow> string \<Rightarrow> string \<Rightarrow> string" where
  "NavID L plugin connection name = ''nav-plugin-'' @ take 24 (sha256_hex L (plugin @ CHR 0x00 # connection @ CHR 0x00 # name))"

fun activeNav :: "(string \<Rightarrow> string) \<Rightarrow> string \<Rightarrow> string \<Rightarrow> NavDecl list \<Rightarrow> string" where
  "activeNav ident page active [] = active"
| "activeNav ident page active (NavDecl icon i title target children # rest) =
     activeNav ident page (activeNav ident page (if target = page then ident i else active) children) rest"

definition ResolvePage :: "golib \<Rightarrow> PluginEntry list \<Rightarrow> string \<Rightarrow> string \<Rightarrow> string \<Rightarrow> (PageDecl \<times> smap \<times> string) option" where
  "ResolvePage L es plugin connection path =
     (case findEntry es plugin connection of
        None \<Rightarrow> None
      | Some (e, m) \<Rightarrow>
          (case find (\<lambda>p. Available m ''page'' (pg_ID p) \<and> pageMatch (pg_Path p) path \<noteq> None) (items (mf_Pages m)) of
             None \<Rightarrow> None
           | Some p \<Rightarrow>
               map_option (\<lambda>params. (p, params, activeNav (NavID L plugin connection) (pg_ID p) [] (items (mf_Navigation m))))
                 (pageMatch (pg_Path p) path)))"

datatype NavItem = NavItem (ni_ID: string) (ni_Title: string) (ni_Href: string) (ni_Icon: string) (ni_Children: "NavItem list")

fun walkNavigation :: "golib \<Rightarrow> Manifest \<Rightarrow> string \<Rightarrow> NavDecl list \<Rightarrow> NavItem list" where
  "walkNavigation L m connection [] = []"
| "walkNavigation L m connection (NavDecl icon i title page children # rest) =
     (let ident = NavID L (mf_ID m) connection i in
      if page \<noteq> [] then
        (if \<not> Available m ''page'' page then []
         else (case PageURL [] connection m page [] of Inl _ \<Rightarrow> [] | Inr href \<Rightarrow> [NavItem ident title href icon []]))
      else
        (let shown = walkNavigation L m connection children in
         if shown = [] then [] else [NavItem ident title [] icon shown]))
     @ walkNavigation L m connection rest"

definition connectionCount :: "PluginEntry list \<Rightarrow> string \<Rightarrow> nat" where
  "connectionCount es plugin =
     length (filter (\<lambda>e. en_Compatible e \<and> (case en_Manifest e of Some m \<Rightarrow> mf_ID m = plugin | None \<Rightarrow> False)) es)"

definition entryNavigation :: "golib \<Rightarrow> PluginEntry list \<Rightarrow> PluginEntry \<Rightarrow> NavItem list" where
  "entryNavigation L es e =
     (case en_Manifest e of
        None \<Rightarrow> []
      | Some m \<Rightarrow>
          if \<not> en_Compatible e then []
          else
            (let group' = walkNavigation L m (en_ConnectionID e) (items (mf_Navigation m)) in
             if group' = [] then []
             else if connectionCount es (mf_ID m) > 1
             then [NavItem (NavID L (mf_ID m) (en_ConnectionID e) ''connection'') (en_ConnectionName e) [] [] group']
             else group'))"

definition RegistryNavigation :: "golib \<Rightarrow> bool \<Rightarrow> PluginEntry list \<Rightarrow> NavItem list" where
  "RegistryNavigation L withSource es =
     concat (map (entryNavigation L es) es)
     @ (if withSource then [NavItem ''nav-plugin-widgets'' ''Plugins/Widgets'' ''/plugins/widgets'' ''hi-16-solid-cog-6-tooth'' []] else [])"

text \<open>The placement of an identifier: plugin, connection, definition and identifier.\<close>

definition PlacementOf :: "PluginEntry list \<Rightarrow> string \<Rightarrow> (string \<times> string \<times> string \<times> string) option" where
  "PlacementOf es i =
     (case concat (map (\<lambda>e. case en_Manifest e of
                              None \<Rightarrow> []
                            | Some m \<Rightarrow>
                                if \<not> en_Compatible e then []
                                else map (\<lambda>(w, d). (mf_ID m, en_ConnectionID e, d, w))
                                       (filter (\<lambda>(w, d). w = i \<and> Available m ''widget'' d) (en_Widgets e))) es) of
        [] \<Rightarrow> None
      | r # _ \<Rightarrow> Some r)"

definition allowsServiceID :: "(string \<Rightarrow> bool) \<Rightarrow> PluginEntry list \<Rightarrow> string \<Rightarrow> string \<Rightarrow> string \<Rightarrow> bool" where
  "allowsServiceID validServiceID es plugin connection i =
     (case findEntry es plugin connection of
        None \<Rightarrow> False
      | Some (e, m) \<Rightarrow> \<not> en_Problem e \<and> validServiceID i \<and> Declares m ServiceCatalogCapability \<and> i \<in> set (en_ServiceIDs e))"

end
