(* ===== verification/PluginPagesFacts.thy ===== *)
theory PluginPagesFacts
  imports PluginPages
begin

text \<open>
  What the pages of plugins rely on: an address matches at most one page of an accepted manifest, and an address that
  \<open>PageURL\<close> gives is found again with the parameters it was made of, unless a parameter holds two dots.
\<close>

section \<open>Text\<close>

lemma unhex_hexUpper: "n < 16 \<Longrightarrow> unhex (hexUpper n) = Some n"
proof -
  have "\<forall>n < 16. unhex (hexUpper n) = Some n" by code_simp
  then show "n < 16 \<Longrightarrow> ?thesis" by blast
qed

lemma PathUnescape_escape: "PathUnescape (PathEscape v @ t) = map_option ((@) v) (PathUnescape t)"
proof (induction v)
  case (Cons c v)
  show ?case
  proof (cases "shouldEscape c")
    case True
    have b: "byte c div 16 < 16" "byte c mod 16 < 16" by (simp_all add: byte_def div_less_iff_less_mult)
    have c: "char_of (16 * (byte c div 16) + byte c mod 16) = c" by (simp add: byte_def)
    from True have "PathEscape (c # v) @ t
        = CHR ''%'' # hexUpper (byte c div 16) # hexUpper (byte c mod 16) # PathEscape v @ t" by (simp add: PathEscape_def)
    then show ?thesis using Cons b c by (simp add: unhex_hexUpper option.map_comp comp_def split: option.split)
  next
    case False
    then have "c \<noteq> CHR ''%''" "PathEscape (c # v) @ t = c # PathEscape v @ t"
      by (auto simp: PathEscape_def shouldEscape_def isLower_def isUpper_def isDigit_def byte_def)
    then show ?thesis using Cons by (simp add: option.map_comp comp_def)
  qed
qed (simp add: PathEscape_def option.map_ident)

lemma PathUnescape_plain: "CHR ''%'' \<notin> set s \<Longrightarrow> PathUnescape (s @ t) = map_option ((@) s) (PathUnescape t)"
  by (cases "PathUnescape t") (induction s; auto)+

lemma Split_JoinSlash:
  "vs \<noteq> [] \<Longrightarrow> \<forall>v \<in> set vs. CHR ''/'' \<notin> set v \<Longrightarrow> Split (CHR ''/'') (JoinSlash vs) = vs"
proof (induction vs rule: JoinSlash.induct)
  case (2 x)
  then show ?case by (induction x) auto
next
  case (3 x y ys)
  have "Split (CHR ''/'') (x @ CHR ''/'' # t) = x # Split (CHR ''/'') t" if "CHR ''/'' \<notin> set x" for t
    using that by (induction x) auto
  with 3 show ?case by auto
qed simp

lemma ContainsDots_append:
  "ContainsDots (x @ CHR ''/'' # y) \<longleftrightarrow> ContainsDots x \<or> ContainsDots y"
  by (induction x rule: ContainsDots.induct; cases y) auto

lemma ContainsDots_Join: "ContainsDots (JoinSlash vs) \<longleftrightarrow> (\<exists>v \<in> set vs. ContainsDots v)"
  by (induction vs rule: JoinSlash.induct) (auto simp: ContainsDots_append)

lemma ContainsDots_dot: "ContainsDots v \<Longrightarrow> CHR ''.'' \<in> set v"
  by (induction v rule: ContainsDots.induct) auto

lemma set_JoinSlash: "set (JoinSlash vs) \<subseteq> insert (CHR ''/'') (\<Union>v \<in> set vs. set v)"
  by (induction vs rule: JoinSlash.induct) auto

lemma map_of_mset_key: "map_of (mset_key k v m) = (map_of m)(k \<mapsto> v)"
  by (auto simp: mset_key_def map_of_eq_None_iff fun_eq_iff split: if_splits) (induction m; auto)

section \<open>Filling and matching a pattern\<close>

definition fieldsOf :: "string list \<Rightarrow> string list" where
  "fieldsOf parts = filter (prefix ''{'') parts"

definition filledWith :: "smap \<Rightarrow> string list \<Rightarrow> string list" where
  "filledWith params parts = map (\<lambda>s. if prefix ''{'' s then mget params (parameterName s) else s) parts"

lemma filledWith_Cons [simp]:
  "filledWith params (s # parts) = (if prefix ''{'' s then mget params (parameterName s) else s) # filledWith params parts"
  "filledWith params [] = []"
  by (simp_all add: filledWith_def)

lemma fillParts_Some:
  "fillParts params used parts = Some (out, used') \<longleftrightarrow>
     (\<forall>s \<in> set (fieldsOf parts). \<exists>v. map_of params (parameterName s) = Some v \<and> \<not> badValue v)
     \<and> out = map (\<lambda>s. if prefix ''{'' s then PathEscape (mget params (parameterName s)) else s) parts
     \<and> used' = rev (map parameterName (fieldsOf parts)) @ used"
proof (induction parts arbitrary: used out used')
  case (Cons s parts)
  show ?case
  proof (cases "prefix ''{'' s")
    case True
    then show ?thesis
      using Cons by (cases "map_of params (parameterName s)") (auto simp: fieldsOf_def mget_def)
  next
    case False
    then show ?thesis using Cons by (auto simp: fieldsOf_def)
  qed
qed (auto simp: fieldsOf_def)

lemma matchParts_filled:
  "\<forall>s \<in> set (fieldsOf parts). mget params (parameterName s) \<noteq> [] \<Longrightarrow>
   matchParts acc parts (filledWith params parts)
     = Some (fold (\<lambda>s. mset_key (parameterName s) (mget params (parameterName s))) (fieldsOf parts) acc)"
  by (induction parts arbitrary: acc) (auto simp: fieldsOf_def)

lemma map_of_fold_fields:
  "map_of (fold (\<lambda>s. mset_key (parameterName s) (mget params (parameterName s))) ss acc) k
     = (if k \<in> parameterName ` set ss then Some (mget params k) else map_of acc k)"
  by (induction ss arbitrary: acc) (auto simp: map_of_mset_key)

lemma matchParts_length: "matchParts acc a b = Some ps \<Longrightarrow> length a = length b"
  by (induction acc a b rule: matchParts.induct) (auto split: if_splits)

lemma matchParts_agree:
  "matchParts acc a b = Some ps \<Longrightarrow> matchParts acc' a' b = Some ps' \<Longrightarrow>
   list_all2 (\<lambda>x y. x = y \<or> prefix ''{'' x \<or> prefix ''{'' y) a a'"
proof (induction acc a b arbitrary: acc' a' rule: matchParts.induct)
  case (1 params)
  then show ?case by (cases a') auto
next
  case (2 params s a v b)
  then obtain s' a'' where a': "a' = s' # a''" by (cases a') auto
  with 2 show ?case by (cases "prefix ''{'' s"; cases "prefix ''{'' s'") (auto split: if_splits)
qed auto

lemma route_Split:
  "validRoute s \<Longrightarrow> Split (CHR ''/'') s = [] # Split (CHR ''/'') (tl s) \<and> s = CHR ''/'' # tl s \<and> TrimPrefix s ''/'' = tl s"
  by (cases s) (auto simp: validRoute_def TrimPrefix_def prefix_def split: if_splits)

lemma pageMatch_routes:
  assumes "validRoute a" "validRoute b" "pageMatch a v = Some ps" "pageMatch b v = Some qs"
  shows "overlap a b"
  using assms(3,4) route_Split [OF assms(1)] route_Split [OF assms(2)] matchParts_agree
  unfolding overlap_def pageMatch_def Let_def by (auto split: if_splits)

lemma lowerByte_plain: "isLower c \<or> isDigit c \<or> c = CHR ''-'' \<Longrightarrow> c \<notin> {CHR ''/'', CHR ''%'', CHR ''.'', CHR ''{'', CHR 0x5C, CHR 0x00}"
  by (auto simp: isLower_def isDigit_def byte_def)

lemma validLocal_plain: "validLocal s \<Longrightarrow> c \<in> set s \<Longrightarrow> c \<notin> {CHR ''/'', CHR ''%'', CHR ''.'', CHR ''{'', CHR 0x5C, CHR 0x00}"
  using lowerByte_plain unfolding validLocal_def localID_def list_all_iff by blast

lemma validParts_static:
  "validParts seen parts \<Longrightarrow> \<forall>s \<in> set parts. \<not> prefix ''{'' s \<longrightarrow> validLocal s"
  by (induction parts arbitrary: seen) (auto simp: Let_def split: if_splits)

lemma route_static:
  assumes "validRoute s" "p \<in> set (Split (CHR ''/'') s)" "\<not> prefix ''{'' p"
  shows "c \<in> set p \<Longrightarrow> c \<notin> {CHR ''/'', CHR ''%'', CHR ''.'', CHR ''{'', CHR 0x5C, CHR 0x00}"
proof -
  assume c: "c \<in> set p"
  have "p = [] \<or> validLocal p"
  proof (cases "s = ''/''")
    case False
    with assms(1) have "validParts [] (Split (CHR ''/'') (tl s))" by (simp add: validRoute_def split: if_splits)
    from validParts_static [OF this] route_Split [OF assms(1)] assms(2,3) show ?thesis by auto
  qed (use assms(2) in auto)
  with c validLocal_plain show ?thesis by fastforce
qed

section \<open>Pages\<close>

lemma matching_page_unique:
  assumes "acceptableManifest m" "p \<in> set (items (mf_Pages m))" "q \<in> set (items (mf_Pages m))"
    and "pageMatch (pg_Path p) v = Some ps" "pageMatch (pg_Path q) v = Some qs"
  shows "p = q"
proof (rule ccontr)
  assume "p \<noteq> q"
  from accepted_routes [OF assms(1-3) this] pageMatch_routes [OF _ _ assms(4,5)] accepted_pageOK [OF assms(1,2)] accepted_pageOK [OF assms(1,3)]
  show False by (simp add: pageOK_def)
qed

lemma ResolvePage_Some:
  assumes "findEntry es plugin connection = Some (e, m)" "Supported m"
  shows "(\<exists>active. ResolvePage L es plugin connection v = Some (p, params, active)) \<longleftrightarrow>
       p \<in> set (items (mf_Pages m)) \<and> Available m ''page'' (pg_ID p) \<and> pageMatch (pg_Path p) v = Some params"
proof -
  have ok: "acceptableManifest m" using assms(2) by (simp add: Supported_def ManifestValidate_None)
  let ?pages = "items (mf_Pages m)"
  have "(\<exists>active. ResolvePage L es plugin connection v = Some (p, params, active)) \<longleftrightarrow>
      find (\<lambda>p. Available m ''page'' (pg_ID p) \<and> pageMatch (pg_Path p) v \<noteq> None) ?pages = Some p \<and> pageMatch (pg_Path p) v = Some params"
    by (auto simp: ResolvePage_def assms(1) split: option.split)
  also have "\<dots> \<longleftrightarrow> p \<in> set ?pages \<and> Available m ''page'' (pg_ID p) \<and> pageMatch (pg_Path p) v = Some params"
  proof
    assume f: "find (\<lambda>p. Available m ''page'' (pg_ID p) \<and> pageMatch (pg_Path p) v \<noteq> None) ?pages = Some p \<and> pageMatch (pg_Path p) v = Some params"
    then show "p \<in> set ?pages \<and> Available m ''page'' (pg_ID p) \<and> pageMatch (pg_Path p) v = Some params"
      by (auto simp: find_Some_iff)
  next
    assume p: "p \<in> set ?pages \<and> Available m ''page'' (pg_ID p) \<and> pageMatch (pg_Path p) v = Some params"
    then obtain q where q: "find (\<lambda>p. Available m ''page'' (pg_ID p) \<and> pageMatch (pg_Path p) v \<noteq> None) ?pages = Some q"
      by (cases "find (\<lambda>p. Available m ''page'' (pg_ID p) \<and> pageMatch (pg_Path p) v \<noteq> None) ?pages") (auto simp: find_None_iff)
    then have "q \<in> set ?pages" "\<exists>qs. pageMatch (pg_Path q) v = Some qs" by (auto simp: find_Some_iff)
    with matching_page_unique [OF ok] p q show "find (\<lambda>p. Available m ''page'' (pg_ID p) \<and> pageMatch (pg_Path p) v \<noteq> None) ?pages = Some p
        \<and> pageMatch (pg_Path p) v = Some params" by blast
  qed
  finally show ?thesis .
qed


text \<open>
  C16. The pages of a supported plugin are unambiguous: an address matches at most one of them, so the page that is
  found does not depend on the order in which the manifest lists them. A page is found for an address exactly when
  the plugin is connected, the page is available, and its route matches.
\<close>

theorem page_of_address_is_unique:
  assumes "findEntry es plugin connection = Some (e, m)" "Supported m"
  shows "(\<forall>p \<in> set (items (mf_Pages m)). \<forall>q \<in> set (items (mf_Pages m)).
       pageMatch (pg_Path p) v \<noteq> None \<longrightarrow> pageMatch (pg_Path q) v \<noteq> None \<longrightarrow> p = q) \<and>
    ((\<exists>active. ResolvePage L es plugin connection v = Some (p, params, active)) \<longleftrightarrow>
       p \<in> set (items (mf_Pages m)) \<and> Available m ''page'' (pg_ID p) \<and> pageMatch (pg_Path p) v = Some params)"
  using matching_page_unique ResolvePage_Some [OF assms] assms(2) by (auto simp: Supported_def ManifestValidate_None)

text \<open>An address that a plugin asked for, and what is left of it when it is read back.\<close>

lemma PageURL_Inr:
  assumes "PageURL basePath connection m i params = Inr url" "acceptableManifest m" "distinct (map fst params)"
  obtains p parts where "PageOf m i = Some p" "validRoute (pg_Path p)"
    "url = connectionURL basePath connection m @ ''/pages'' @ JoinSlash (map (\<lambda>s. if prefix ''{'' s then PathEscape (mget params (parameterName s)) else s) (Split (CHR ''/'') (pg_Path p)))"
    "\<forall>s \<in> set (fieldsOf (Split (CHR ''/'') (pg_Path p))). \<not> badValue (mget params (parameterName s))"
    "parameterName ` set (fieldsOf (Split (CHR ''/'') (pg_Path p))) = fst ` set params"
proof -
  from assms(1) obtain p parts used where p: "PageOf m i = Some p" "fillParts params [] (Split (CHR ''/'') (pg_Path p)) = Some (parts, used)"
      "length (remdups used) = length params" "url = connectionURL basePath connection m @ ''/pages'' @ JoinSlash parts"
    by (auto simp: PageURL_def split: option.splits if_splits)
  have route: "validRoute (pg_Path p)" using accepted_pageOK [OF assms(2)] PageOf_Some [OF p(1)] by (simp add: pageOK_def)
  let ?fields = "fieldsOf (Split (CHR ''/'') (pg_Path p))"
  from p(2) have f: "\<forall>s \<in> set ?fields. \<exists>v. map_of params (parameterName s) = Some v \<and> \<not> badValue v"
      "parts = map (\<lambda>s. if prefix ''{'' s then PathEscape (mget params (parameterName s)) else s) (Split (CHR ''/'') (pg_Path p))"
      "used = rev (map parameterName ?fields)"
    unfolding fillParts_Some by simp_all
  have sub: "parameterName ` set ?fields \<subseteq> fst ` set params"
    using f(1) by (force dest: map_of_SomeD simp: image_iff)
  have "card (parameterName ` set ?fields) = card (fst ` set params)"
  proof -
    have "card (set used) = length params" using p(3) by (simp add: length_remdups_card_conv)
    also have "\<dots> = card (fst ` set params)" using distinct_card [OF assms(3)] by simp
    finally show ?thesis by (simp add: f(3))
  qed
  then have "parameterName ` set ?fields = fst ` set params" using sub by (intro card_subset_eq) simp_all
  moreover have "\<forall>s \<in> set ?fields. \<not> badValue (mget params (parameterName s))" using f(1) by (auto simp: mget_def)
  ultimately show ?thesis using that [OF p(1) route] p(4) f(2) by blast
qed

lemma PathUnescape_Join:
  "\<forall>s \<in> set (parts :: string list). \<forall>t. PathUnescape (f s @ t) = map_option ((@) (g s)) (PathUnescape t) \<Longrightarrow>
   PathUnescape (JoinSlash (map f parts)) = Some (JoinSlash (map g parts))"
proof (induction parts rule: JoinSlash.induct)
  case (2 x)
  then have "PathUnescape (f x @ []) = map_option ((@) (g x)) (PathUnescape [])" by (metis list.set_intros(1))
  then show ?case by simp
next
  case (3 x y ys)
  then have "PathUnescape (f x @ CHR ''/'' # JoinSlash (map f (y # ys))) = map_option ((@) (g x)) (PathUnescape (CHR ''/'' # JoinSlash (map f (y # ys))))"
    by (metis list.set_intros(1))
  with 3 show ?case by simp
qed simp

lemma filled_unescapes:
  assumes "validRoute path"
  shows "PathUnescape (JoinSlash (map (\<lambda>s. if prefix ''{'' s then PathEscape (mget params (parameterName s)) else s) (Split (CHR ''/'') path)))
    = Some (JoinSlash (filledWith params (Split (CHR ''/'') path)))"
  unfolding filledWith_def
proof (intro PathUnescape_Join ballI allI)
  fix s t assume s: "s \<in> set (Split (CHR ''/'') path)"
  show "PathUnescape ((if prefix ''{'' s then PathEscape (mget params (parameterName s)) else s) @ t)
      = map_option ((@) (if prefix ''{'' s then mget params (parameterName s) else s)) (PathUnescape t)"
    using route_static [OF assms s] by (auto simp: PathUnescape_escape intro: PathUnescape_plain)
qed

lemma badValue_chars: "\<not> badValue v \<Longrightarrow> v \<noteq> [] \<and> set v \<inter> {CHR ''/'', CHR ''%'', CHR 0x5C, CHR 0x00} = {}"
  by (auto simp: badValue_def ContainsAny_iff)

lemma filled_chars:
  assumes "validRoute path" "\<forall>s \<in> set (fieldsOf (Split (CHR ''/'') path)). \<not> badValue (mget params (parameterName s))"
    and "w \<in> set (filledWith params (Split (CHR ''/'') path))"
  shows "set w \<inter> {CHR ''/'', CHR ''%'', CHR 0x5C, CHR 0x00} = {}"
proof -
  from assms(3) obtain s where s: "s \<in> set (Split (CHR ''/'') path)"
      "w = (if prefix ''{'' s then mget params (parameterName s) else s)"
    by (auto simp: filledWith_def)
  show ?thesis
  proof (cases "prefix ''{'' s")
    case True
    with s assms(2) have "\<not> badValue w" by (simp add: fieldsOf_def)
    then show ?thesis using badValue_chars by blast
  next
    case False
    with s route_static [OF assms(1) s(1)] show ?thesis by auto
  qed
qed

lemma filled_dots:
  assumes "validRoute path" "parameterName ` set (fieldsOf (Split (CHR ''/'') path)) = fst ` set params" "distinct (map fst params)"
  shows "ContainsDots (JoinSlash (filledWith params (Split (CHR ''/'') path))) \<longleftrightarrow> (\<exists>(k, x) \<in> set params. ContainsDots x)"
proof -
  have "(\<exists>w \<in> set (filledWith params (Split (CHR ''/'') path)). ContainsDots w)
      \<longleftrightarrow> (\<exists>s \<in> set (fieldsOf (Split (CHR ''/'') path)). ContainsDots (mget params (parameterName s)))"
    using route_static [OF assms(1)] ContainsDots_dot by (fastforce simp: filledWith_def fieldsOf_def)
  also have "\<dots> \<longleftrightarrow> (\<exists>k \<in> fst ` set params. ContainsDots (mget params k))" unfolding assms(2) [symmetric] by blast
  also have "\<dots> \<longleftrightarrow> (\<exists>(k, x) \<in> set params. ContainsDots x)"
  proof -
    have "mget params k = x" if "(k, x) \<in> set params" for k x using that assms(3) by (simp add: mget_def)
    then show ?thesis by force
  qed
  finally show ?thesis by (simp add: ContainsDots_Join)
qed

lemma filled_matches:
  assumes "validRoute path" "\<forall>s \<in> set (fieldsOf (Split (CHR ''/'') path)). \<not> badValue (mget params (parameterName s))"
    and "parameterName ` set (fieldsOf (Split (CHR ''/'') path)) = fst ` set params" "distinct (map fst params)"
  defines "v \<equiv> JoinSlash (filledWith params (Split (CHR ''/'') path))"
  shows "case pageMatch path v of
      None \<Rightarrow> length v > 2048 \<or> (\<exists>(k, x) \<in> set params. ContainsDots x)
    | Some ps \<Rightarrow> length v \<le> 2048 \<and> \<not> (\<exists>(k, x) \<in> set params. ContainsDots x) \<and> map_of ps = map_of params"
proof -
  let ?rest = "Split (CHR ''/'') (tl path)"
  note R = route_Split [OF assms(1)]
  have fields: "fieldsOf (Split (CHR ''/'') path) = fieldsOf ?rest" using R by (simp add: fieldsOf_def)
  have chars: "\<forall>w \<in> set (filledWith params (Split (CHR ''/'') path)). set w \<inter> {CHR ''/'', CHR ''%'', CHR 0x5C, CHR 0x00} = {}"
    using filled_chars [OF assms(1,2)] by blast
  have v: "v = CHR ''/'' # JoinSlash (filledWith params ?rest)"
    unfolding v_def using R by (cases "filledWith params ?rest") (auto simp: filledWith_def)
  have "Split (CHR ''/'') (TrimPrefix v ''/'') = filledWith params ?rest"
    using chars R by (simp add: v TrimPrefix_def Split_JoinSlash filledWith_def)
  moreover have "\<not> ContainsAny v [CHR ''%'', CHR 0x5C, CHR 0x00]"
    using set_JoinSlash [of "filledWith params (Split (CHR ''/'') path)"] chars unfolding v_def ContainsAny_iff by fastforce
  moreover have "matchParts [] ?rest (filledWith params ?rest)
      = Some (fold (\<lambda>s. mset_key (parameterName s) (mget params (parameterName s))) (fieldsOf ?rest) [])"
    using assms(2) badValue_chars unfolding fields by (intro matchParts_filled) blast
  ultimately have match: "pageMatch path v = (if ContainsDots v \<or> length v > 2048 then None
      else Some (fold (\<lambda>s. mset_key (parameterName s) (mget params (parameterName s))) (fieldsOf ?rest) []))"
    using R by (simp add: pageMatch_def Let_def filledWith_def)
  have "map_of (fold (\<lambda>s. mset_key (parameterName s) (mget params (parameterName s))) (fieldsOf ?rest) []) = map_of params"
  proof
    fix k
    show "map_of (fold (\<lambda>s. mset_key (parameterName s) (mget params (parameterName s))) (fieldsOf ?rest) []) k = map_of params k"
      using assms(3) map_of_eq_None_iff [of params k] unfolding fields map_of_fold_fields
      by (cases "map_of params k") (auto simp: mget_def)
  qed
  moreover have dots: "ContainsDots v \<longleftrightarrow> (\<exists>(k, x) \<in> set params. ContainsDots x)"
    unfolding v_def by (rule filled_dots [OF assms(1,3,4)])
  ultimately show ?thesis unfolding match dots by auto
qed

lemma address_reads_back:
  assumes "findEntry es plugin connection = Some (e, m)" "Available m ''page'' i" "distinct (map fst params)"
    and "PageURL basePath connection m i params = Inr url"
  shows "\<exists>p path v. PageOf m i = Some p \<and> url = connectionURL basePath connection m @ ''/pages'' @ path \<and> PathUnescape path = Some v \<and>
    (case ResolvePage L es plugin connection v of
       None \<Rightarrow> length v > 2048 \<or> (\<exists>(k, x) \<in> set params. ContainsDots x)
     | Some (q, ps, active) \<Rightarrow>
         length v \<le> 2048 \<and> \<not> (\<exists>(k, x) \<in> set params. ContainsDots x) \<and> q = p \<and> map_of ps = map_of params)"
proof -
  have m: "Supported m" using assms(2) by (simp add: Available_def)
  then have ok: "acceptableManifest m" by (simp add: Supported_def ManifestValidate_None)
  from assms(4) ok assms(3) obtain p where p: "PageOf m i = Some p" "validRoute (pg_Path p)"
    "url = connectionURL basePath connection m @ ''/pages'' @ JoinSlash (map (\<lambda>s. if prefix ''{'' s then PathEscape (mget params (parameterName s)) else s) (Split (CHR ''/'') (pg_Path p)))"
    "\<forall>s \<in> set (fieldsOf (Split (CHR ''/'') (pg_Path p))). \<not> badValue (mget params (parameterName s))"
    "parameterName ` set (fieldsOf (Split (CHR ''/'') (pg_Path p))) = fst ` set params"
    by (rule PageURL_Inr)
  let ?v = "JoinSlash (filledWith params (Split (CHR ''/'') (pg_Path p)))"
  note match = filled_matches [OF p(2,4,5) assms(3)]
  have page: "p \<in> set (items (mf_Pages m))" "Available m ''page'' (pg_ID p)" using PageOf_Some [OF p(1)] assms(2) by auto
  have "case ResolvePage L es plugin connection ?v of
       None \<Rightarrow> length ?v > 2048 \<or> (\<exists>(k, x) \<in> set params. ContainsDots x)
     | Some (q, ps, active) \<Rightarrow>
         length ?v \<le> 2048 \<and> \<not> (\<exists>(k, x) \<in> set params. ContainsDots x) \<and> q = p \<and> map_of ps = map_of params"
  proof (cases "pageMatch (pg_Path p) ?v")
    case None
    with match have bad: "length ?v > 2048 \<or> ContainsDots ?v" using filled_dots [OF p(2,5) assms(3)] by simp
    then have "pageMatch (pg_Path q) ?v = None" for q :: PageDecl by (auto simp: pageMatch_def)
    then have "find (\<lambda>q. Available m ''page'' (pg_ID q) \<and> pageMatch (pg_Path q) ?v \<noteq> None) (items (mf_Pages m)) = None"
      by (simp add: find_None_iff)
    then have "ResolvePage L es plugin connection ?v = None" by (simp add: ResolvePage_def assms(1))
    with None match show ?thesis by simp
  next
    case (Some ps)
    then obtain active where "ResolvePage L es plugin connection ?v = Some (p, ps, active)"
      using ResolvePage_Some [OF assms(1) m, of L ?v p ps] page by blast
    with Some match show ?thesis by simp
  qed
  with p(1,3) filled_unescapes [OF p(2)] show ?thesis by blast
qed


section \<open>The navigation\<close>

fun navItems :: "NavItem list \<Rightarrow> NavItem list" where
  "navItems [] = []"
| "navItems (NavItem i title href icon children # rest) = NavItem i title href icon children # navItems children @ navItems rest"

lemma navItems_append [simp]: "navItems (xs @ ys) = navItems xs @ navItems ys"
  by (induction xs rule: navItems.induct) auto

lemma walkNavigation_items:
  "x \<in> set (navItems (walkNavigation L m connection ns)) \<Longrightarrow>
   (\<exists>n \<in> set (navNodes ns). ni_ID x = NavID L (mf_ID m) connection (nv_ID n) \<and> ni_Title x = nv_Title n \<and> ni_Icon x = nv_Icon n
      \<and> (if nv_Page n = [] then ni_Href x = [] \<and> ni_Children x \<noteq> []
         else Available m ''page'' (nv_Page n) \<and> PageURL [] connection m (nv_Page n) [] = Inr (ni_Href x) \<and> ni_Children x = []))"
proof (induction L m connection ns rule: walkNavigation.induct)
  case (2 L m connection icon i title page children rest)
  then consider (rest) "x \<in> set (navItems (walkNavigation L m connection rest))"
    | (leaf) href where "page \<noteq> []" "Available m ''page'' page" "PageURL [] connection m page [] = Inr href"
        "x = NavItem (NavID L (mf_ID m) connection i) title href icon []"
    | (node) "page = []" "walkNavigation L m connection children \<noteq> []"
        "x = NavItem (NavID L (mf_ID m) connection i) title [] icon (walkNavigation L m connection children)"
    | (child) "page = []" "x \<in> set (navItems (walkNavigation L m connection children))"
    by (auto simp: Let_def split: if_splits sum.splits)
  then show ?case
  proof cases
    case rest
    with 2 show ?thesis by fastforce
  next
    case child
    with 2 show ?thesis by fastforce
  qed auto
qed simp


section \<open>A small plugin\<close>

definition samplePage :: PageDecl where
  "samplePage = \<lparr>pg_ID = ''host'', pg_Title = ''Host'', pg_Description = [], pg_Path = ''/hosts/{id}'', pg_Methods = [''GET''], pg_Capabilities = Some []\<rparr>"

definition homePage :: PageDecl where
  "homePage = \<lparr>pg_ID = ''home'', pg_Title = ''Home'', pg_Description = [], pg_Path = ''/'', pg_Methods = [''GET''], pg_Capabilities = Some []\<rparr>"

definition sampleManifest :: Manifest where
  "sampleManifest =
     \<lparr>mf_ManifestVersion = 1, mf_ID = ''org.hosts'', mf_Version = ''1.0.0'', mf_Name = ''Hosts'', mf_Icon = [], mf_Protocol = ManifestProtocol,
      mf_UIProfile = UIProfile, mf_Targets = [(''linux/amd64'', \<lparr>tg_UI = ''ui'', tg_Backend = []\<rparr>)], mf_ConnectionSchema = ''c.json'',
      mf_Secrets = Some [], mf_Queries = Some [], mf_Actions = [], mf_Pages = Some [samplePage, homePage],
      mf_Navigation = Some [NavDecl [] ''home'' ''Home'' ''home'' []], mf_Widgets = Some [], mf_Assets = Some [],
      mf_Required = Some [''page.content/v1'', ''sidebar.navigation/v1''], mf_Optional = Some []\<rparr>"

definition sampleEntry :: PluginEntry where
  "sampleEntry = \<lparr>en_Manifest = Some sampleManifest, en_ConnectionID = ''c1'', en_ConnectionName = ''Home'', en_Compatible = True,
     en_Problem = False, en_Widgets = [], en_ServiceIDs = [], en_Process = False\<rparr>"

lemma sample_safe: "safePath ''ui''" "safePath ''c.json''"
  by (simp_all add: safePath_iff ValidPath_def ascii_valid ContainsAny_iff)

lemma sample_names:
  "pluginID ''org.hosts''" "version ''1.0.0''" "platformID ''linux/amd64''" "validLocal ''host''" "validLocal ''home''"
  "validRoute ''/hosts/{id}''" "validRoute ''/''" "\<not> overlap ''/hosts/{id}'' ''/''"
  by code_simp+

lemma sample_path_trimmed: "TrimSpace ''Hosts'' = ''Hosts''" "TrimSpace ''Host'' = ''Host''" "TrimSpace ''Home'' = ''Home''"
  by (intro TrimSpace_trimmed plain_trimmed; simp)+

lemma sampleManifest_OK: "acceptableManifest sampleManifest"
proof -
  have "declaredCapabilities sampleManifest = [''page.content/v1'', ''sidebar.navigation/v1'']"
    by (simp add: declaredCapabilities_def sampleManifest_def)
  moreover have "pageOK caps samplePage" "pageOK caps homePage" for caps
    by (simp_all add: pageOK_def samplePage_def homePage_def sample_names sample_path_trimmed)
  ultimately show ?thesis
    unfolding acceptableManifest_def
    by (simp add: sampleManifest_def sample_names sample_safe sample_path_trimmed badTarget_def navOK_def)
       (simp add: samplePage_def homePage_def sample_names)
qed

lemma sample_available: "Available sampleManifest ''page'' ''host''" "Available sampleManifest ''page'' ''home''"
proof -
  have "list_all supportedCapability (items (mf_Required sampleManifest))" by code_simp
  then have "Supported sampleManifest" using sampleManifest_OK by (simp add: Supported_def ManifestValidate_None)
  moreover have "validateContribution sampleManifest ''page'' ''host'' ''page''" "validateContribution sampleManifest ''page'' ''home'' ''page''"
    by code_simp+
  ultimately show "Available sampleManifest ''page'' ''host''" "Available sampleManifest ''page'' ''home''"
    by (simp_all add: Available_def)
qed

lemma sample_found: "findEntry [sampleEntry] ''org.hosts'' ''c1'' = Some (sampleEntry, sampleManifest)" "mf_ID sampleManifest = ''org.hosts''"
  by (simp_all add: findEntry_def sampleEntry_def sampleManifest_def)

lemma page_of_address_is_unique_witness:
  "\<exists>active. ResolvePage evalLib [sampleEntry] ''org.hosts'' ''c1'' ''/hosts/a'' = Some (samplePage, [(''id'', ''a'')], active)"
proof -
  have "pageMatch ''/hosts/{id}'' ''/hosts/a'' = Some [(''id'', ''a'')]"
  proof -
    have "parameterName ''{id}'' = ''id''" by code_simp
    then show ?thesis by (simp add: pageMatch_def ContainsAny_iff TrimPrefix_def mset_key_def Let_def)
  qed
  then have "samplePage \<in> set (items (mf_Pages sampleManifest))" "pageMatch (pg_Path samplePage) ''/hosts/a'' = Some [(''id'', ''a'')]"
      "Available sampleManifest ''page'' (pg_ID samplePage)"
    using sample_available by (simp_all add: sampleManifest_def samplePage_def)
  moreover have "Supported sampleManifest" using sample_available by (simp add: Available_def)
  ultimately show ?thesis using conjunct2 [OF page_of_address_is_unique [OF sample_found(1)]] by blast
qed

lemma sampleURL: "PageURL ''/app/'' ''c1'' sampleManifest ''host'' [(''id'', ''a b'')] = Inr ''/app/plugins/org.hosts/connections/c1/pages/hosts/a%20b''"
  by code_simp



end
