(* ===== verification/PluginRegistry.thy ===== *)
theory PluginRegistry
  imports PluginPagesFacts
begin

text \<open>
  How the user interface builds its registry of plugins (\<open>ui/internal/plugins/registry.go\<close>, \<open>initialize\<close>): each configured
  installation becomes one entry, in order, with the reason why it is not usable, if there is one.

  Reading packages, resolving paths and the digest of the content are parameters; that the children have started or not
  changes no entry, so a child is only whether the entry has one. \<open>validService\<close> is \<open>services.ValidID\<close> written out,
  the plugin descriptors are \<open>None\<close> when they could not be read.
\<close>

section \<open>Installations\<close>

record Installation =
  il_ServiceIDs :: "string list"
  il_Package :: string
  il_ConnectionID :: string
  il_Name :: string
  il_ConnectionKey :: string
  il_ManifestDigest :: string
  il_PackageDigest :: string
  il_Widgets :: "(string \<times> string) list"

record Package =
  pk_Manifest :: Manifest
  pk_Digest :: string
  pk_Root :: string

record DescribedConnection =
  dc_Key :: string
  dc_Enabled :: bool
  dc_ID :: string
  dc_Name :: string

record Descriptor =
  dr_ID :: string
  dr_ManifestDigest :: string
  dr_Connections :: "DescribedConnection list"

record registry_env =
  re_Source :: bool
  re_Descriptors :: "Descriptor list option"
  re_Absolute :: "string \<Rightarrow> string option"
  re_Load :: "string \<Rightarrow> Package option"
  re_ContentDigest :: "Package \<Rightarrow> string option"

record registry_state =
  rg_entries :: "PluginEntry list"
  rg_children :: "(string \<times> Package) list"
  rg_connections :: "string list"
  rg_placements :: "string list"

definition lowerHex :: "char \<Rightarrow> bool" where
  "lowerHex c \<longleftrightarrow> isDigit c \<or> 97 \<le> byte c \<and> byte c \<le> 102"

definition connectionUUID :: "string \<Rightarrow> bool" where
  "connectionUUID s \<longleftrightarrow>
     map length (Split (CHR ''-'') s) = [8, 4, 4, 4, 12] \<and> list_all (list_all lowerHex) (Split (CHR ''-'') s)"

definition validService :: "string \<Rightarrow> bool" where
  "validService s \<longleftrightarrow> length s = 64 \<and> list_all lowerHex s"

definition MaxServiceIDs :: nat where
  "MaxServiceIDs = 64"

fun serviceIDsOK :: "string list \<Rightarrow> string list \<Rightarrow> bool" where
  "serviceIDsOK seen [] = True"
| "serviceIDsOK seen (i # is) = (if \<not> validService i \<or> i \<in> set seen then False else serviceIDsOK (i # seen) is)"

definition ValidateServiceIDs :: "string list \<Rightarrow> bool" where
  "ValidateServiceIDs ids \<longleftrightarrow> ids \<noteq> [] \<and> length ids \<le> MaxServiceIDs \<and> serviceIDsOK [] ids"

section \<open>Registration\<close>

definition newEntry :: "Installation \<Rightarrow> PluginEntry" where
  "newEntry il =
     \<lparr>en_Manifest = None, en_ConnectionID = il_ConnectionID il, en_ConnectionName = [], en_Compatible = False, en_Problem = False,
      en_Widgets = il_Widgets il, en_ServiceIDs = il_ServiceIDs il, en_Process = False\<rparr>"

definition publishEntry :: "PluginEntry \<Rightarrow> registry_state \<Rightarrow> registry_state" where
  "publishEntry e st = st\<lparr>rg_entries := rg_entries st @ [e]\<rparr>"

definition invalidInstallation :: "registry_env \<Rightarrow> Installation \<Rightarrow> bool" where
  "invalidInstallation E il \<longleftrightarrow>
     il_Package il = [] \<or> length (il_Widgets il) > 16
     \<or> \<not> re_Source E \<and> \<not> connectionUUID (il_ConnectionID il)
     \<or> re_Source E \<and> (il_ConnectionKey il = [] \<or> il_ConnectionID il \<noteq> [])"

fun reserveWidgets :: "Manifest \<Rightarrow> string list \<Rightarrow> (string \<times> string) list \<Rightarrow> bool \<times> string list" where
  "reserveWidgets m placements [] = (True, placements)"
| "reserveWidgets m placements ((i, d) # ws) =
     (if \<not> connectionUUID i \<or> i \<in> set placements \<or> length placements \<ge> 128 then (False, placements)
      else if WidgetOf m d = None then (False, placements)
      else reserveWidgets m (i # placements) ws)"

text \<open>The connection that the API describes: the last one that fits, and whether a manifest differs.\<close>

definition describedConnections :: "registry_env \<Rightarrow> Installation \<Rightarrow> string \<Rightarrow> (Descriptor \<times> DescribedConnection) list" where
  "describedConnections E il plugin =
     (case re_Descriptors E of
        None \<Rightarrow> []
      | Some ds \<Rightarrow>
          concat (map (\<lambda>d. map (\<lambda>c. (d, c))
                     (filter (\<lambda>c. dc_Key c = il_ConnectionKey il \<and> dc_Enabled c \<and> connectionUUID (dc_ID c)) (dr_Connections d)))
             (filter (\<lambda>d. dr_ID d = plugin) ds)))"

definition pinMismatch :: "registry_env \<Rightarrow> Installation \<Rightarrow> Package \<Rightarrow> bool" where
  "pinMismatch E il p \<longleftrightarrow>
     (case re_ContentDigest E p of
        None \<Rightarrow> True
      | Some digest \<Rightarrow> il_ManifestDigest il \<noteq> pk_Digest p \<or> il_PackageDigest il \<noteq> digest)"

definition connectEntry :: "registry_env \<Rightarrow> Installation \<Rightarrow> Package \<Rightarrow> PluginEntry \<Rightarrow> PluginEntry option" where
  "connectEntry E il p e =
     (if \<not> re_Source E then Some e
      else
        (let found = describedConnections E il (mf_ID (pk_Manifest p)) in
         if found = [] then None
         else Some (e\<lparr>en_ConnectionID := dc_ID (snd (last found)), en_ConnectionName := dc_Name (snd (last found)),
                      en_Problem := (list_ex (\<lambda>(d, c). dr_ManifestDigest d \<noteq> pk_Digest p) found \<or> pinMismatch E il p)\<rparr>)))"

definition connectionKey :: "string \<Rightarrow> string \<Rightarrow> string" where
  "connectionKey plugin connection = plugin @ CHR ''/'' # connection"

definition startEntry :: "Package \<Rightarrow> PluginEntry \<Rightarrow> registry_state \<Rightarrow> registry_state" where
  "startEntry p e st =
     (if en_Problem e then publishEntry e st
      else
        (case map_of (rg_children st) (mf_ID (pk_Manifest p)) of
           Some prior \<Rightarrow>
             if pk_Root prior \<noteq> pk_Root p \<or> pk_Digest prior \<noteq> pk_Digest p
             then publishEntry (e\<lparr>en_Problem := True\<rparr>) st
             else publishEntry (e\<lparr>en_Process := True\<rparr>) st
         | None \<Rightarrow>
             publishEntry (e\<lparr>en_Process := True\<rparr>) (st\<lparr>rg_children := (mf_ID (pk_Manifest p), p) # rg_children st\<rparr>)))"

definition registerOne :: "registry_env \<Rightarrow> Installation \<Rightarrow> registry_state \<Rightarrow> registry_state" where
  "registerOne E il st =
     (let e0 = newEntry il; bad = (\<lambda>e. publishEntry (e\<lparr>en_Problem := True\<rparr>)) in
      if invalidInstallation E il then bad e0 st
      else
        (case re_Absolute E (il_Package il) of
           None \<Rightarrow> bad e0 st
         | Some path \<Rightarrow>
      if il_ServiceIDs il \<noteq> [] \<and> \<not> ValidateServiceIDs (il_ServiceIDs il) then bad e0 st
      else
        (case re_Load E path of
           None \<Rightarrow> bad e0 st
         | Some p \<Rightarrow>
             (let m = pk_Manifest p; e1 = e0\<lparr>en_Manifest := Some m\<rparr> in
              if \<not> Supported m then bad e1 st
              else
                (let (valid, placements) = reserveWidgets m (rg_placements st) (il_Widgets il); st1 = st\<lparr>rg_placements := placements\<rparr> in
                 if \<not> valid then bad e1 st1
                 else
                   (let e2 = e1\<lparr>en_ConnectionName := (if il_Name il = [] then mf_Name m else il_Name il)\<rparr> in
                    case connectEntry E il p e2 of
                      None \<Rightarrow> bad e2 st1
                    | Some e3 \<Rightarrow>
                        (let key = connectionKey (mf_ID m) (en_ConnectionID e3) in
                         if key \<in> set (rg_connections st1) then bad e3 st1
                         else startEntry p (e3\<lparr>en_Compatible := True\<rparr>) (st1\<lparr>rg_connections := key # rg_connections st1\<rparr>))))))))"

definition initializeRegistry :: "registry_env \<Rightarrow> Installation list \<Rightarrow> registry_state" where
  "initializeRegistry E ils =
     fold (registerOne E) ils \<lparr>rg_entries = [], rg_children = [], rg_connections = [], rg_placements = []\<rparr>"

section \<open>The invariant\<close>

definition widgetsOK :: "Manifest \<Rightarrow> (string \<times> string) list \<Rightarrow> bool" where
  "widgetsOK m ws \<longleftrightarrow> (\<forall>w \<in> set ws. connectionUUID (fst w) \<and> WidgetOf m (snd w) \<noteq> None)"

definition compatibleOK :: "registry_state \<Rightarrow> PluginEntry \<Rightarrow> Manifest \<Rightarrow> bool" where
  "compatibleOK st e m \<longleftrightarrow>
     en_Manifest e = Some m \<and> Supported m \<and> connectionUUID (en_ConnectionID e) \<and> widgetsOK m (en_Widgets e)
     \<and> connectionKey (mf_ID m) (en_ConnectionID e) \<in> set (rg_connections st) \<and> fst ` set (en_Widgets e) \<subseteq> set (rg_placements st)
     \<and> (en_Process e \<longrightarrow> map_of (rg_children st) (mf_ID m) \<noteq> None)"

definition entryOK :: "registry_state \<Rightarrow> PluginEntry \<Rightarrow> bool" where
  "entryOK st e \<longleftrightarrow>
     (en_Compatible e \<longrightarrow> (\<exists>m. compatibleOK st e m)) \<and> (en_Process e \<longleftrightarrow> en_Compatible e \<and> \<not> en_Problem e)"

definition entryKeys :: "PluginEntry list \<Rightarrow> string list" where
  "entryKeys es =
     concat (map (\<lambda>e. case en_Manifest e of Some m \<Rightarrow> if en_Compatible e then [connectionKey (mf_ID m) (en_ConnectionID e)] else [] | None \<Rightarrow> []) es)"

definition entryPlacements :: "PluginEntry list \<Rightarrow> string list" where
  "entryPlacements es = concat (map (\<lambda>e. if en_Compatible e then map fst (en_Widgets e) else []) es)"

definition registryOK :: "registry_state \<Rightarrow> bool" where
  "registryOK st \<longleftrightarrow>
     (\<forall>e \<in> set (rg_entries st). entryOK st e)
     \<and> distinct (entryKeys (rg_entries st)) \<and> set (entryKeys (rg_entries st)) \<subseteq> set (rg_connections st)
     \<and> distinct (entryPlacements (rg_entries st)) \<and> set (entryPlacements (rg_entries st)) \<subseteq> set (rg_placements st)
     \<and> distinct (rg_placements st) \<and> length (rg_placements st) \<le> 128
     \<and> distinct (map fst (rg_children st))"

end
