(* ===== verification/RegistryFacts.thy ===== *)
theory RegistryFacts
  imports PluginRegistry
begin

text \<open>
  The invariant of the registry of plugins holds whatever the configuration: connections and placements are unique and
  each installation has its entry.
\<close>

section \<open>Entries\<close>

lemma publishEntry_fields [simp]:
  "rg_entries (publishEntry e st) = rg_entries st @ [e]" "rg_children (publishEntry e st) = rg_children st"
  "rg_connections (publishEntry e st) = rg_connections st" "rg_placements (publishEntry e st) = rg_placements st"
  by (simp_all add: publishEntry_def)

definition grows :: "registry_state \<Rightarrow> registry_state \<Rightarrow> bool" where
  "grows st st' \<longleftrightarrow>
     set (rg_connections st) \<subseteq> set (rg_connections st') \<and> set (rg_placements st) \<subseteq> set (rg_placements st')
     \<and> (\<forall>k. map_of (rg_children st) k \<noteq> None \<longrightarrow> map_of (rg_children st') k \<noteq> None)"

lemma compatibleOK_mono: "compatibleOK st e m \<Longrightarrow> grows st st' \<Longrightarrow> compatibleOK st' e m"
  unfolding compatibleOK_def grows_def by blast

lemma entryOK_mono: "entryOK st e \<Longrightarrow> grows st st' \<Longrightarrow> entryOK st' e"
  unfolding entryOK_def using compatibleOK_mono by blast

lemma registryOK_grow:
  assumes "registryOK st" "rg_entries st' = rg_entries st" "grows st st'"
    "distinct (rg_placements st')" "length (rg_placements st') \<le> 128" "distinct (map fst (rg_children st'))"
  shows "registryOK st'"
proof -
  have "entryOK st' e" if "e \<in> set (rg_entries st)" for e
    using assms(1) that entryOK_mono [OF _ assms(3)] by (simp add: registryOK_def)
  moreover have "set (rg_connections st) \<subseteq> set (rg_connections st')" "set (rg_placements st) \<subseteq> set (rg_placements st')"
    using assms(3) by (simp_all add: grows_def)
  ultimately show ?thesis using assms unfolding registryOK_def assms(2) by blast
qed

lemma registryOK_publish:
  assumes "registryOK st" "entryOK st e"
    and "\<And>m. en_Compatible e \<Longrightarrow> en_Manifest e = Some m \<Longrightarrow> connectionKey (mf_ID m) (en_ConnectionID e) \<notin> set (entryKeys (rg_entries st))"
    and "en_Compatible e \<Longrightarrow> distinct (map fst (en_Widgets e)) \<and> fst ` set (en_Widgets e) \<inter> set (entryPlacements (rg_entries st)) = {}"
  shows "registryOK (publishEntry e st)"
proof -
  have ok: "entryOK (publishEntry e st) x = entryOK st x" for x by (simp add: entryOK_def compatibleOK_def)
  have keys: "entryKeys (rg_entries st @ [e]) = entryKeys (rg_entries st) @ entryKeys [e]"
    and placements: "entryPlacements (rg_entries st @ [e]) = entryPlacements (rg_entries st) @ entryPlacements [e]"
    by (simp_all add: entryKeys_def entryPlacements_def)
  show ?thesis
  proof (cases "en_Compatible e")
    case False
    then have "entryKeys [e] = []" "entryPlacements [e] = []" by (auto simp: entryKeys_def entryPlacements_def split: option.split)
    with assms(1,2) show ?thesis by (simp add: registryOK_def ok keys placements)
  next
    case True
    with assms(2) obtain m where m: "en_Manifest e = Some m" "connectionKey (mf_ID m) (en_ConnectionID e) \<in> set (rg_connections st)"
        "fst ` set (en_Widgets e) \<subseteq> set (rg_placements st)"
      by (auto simp: entryOK_def compatibleOK_def)
    with True have "entryKeys [e] = [connectionKey (mf_ID m) (en_ConnectionID e)]" "entryPlacements [e] = map fst (en_Widgets e)"
      by (simp_all add: entryKeys_def entryPlacements_def)
    with assms(1,2) assms(3) [OF True m(1)] assms(4) [OF True] m(2,3) show ?thesis
      by (auto simp: registryOK_def ok keys placements)
  qed
qed

lemma registryOK_bad:
  "registryOK st \<Longrightarrow> \<not> en_Compatible e \<Longrightarrow> \<not> en_Process e \<Longrightarrow> registryOK (publishEntry (e\<lparr>en_Problem := True\<rparr>) st)"
  by (intro registryOK_publish) (simp_all add: entryOK_def)

lemma reserveWidgets_spec:
  "reserveWidgets m pl ws = (valid, pl') \<Longrightarrow> distinct pl \<Longrightarrow> length pl \<le> 128 \<Longrightarrow>
   distinct pl' \<and> length pl' \<le> 128 \<and> set pl \<subseteq> set pl' \<and> (valid \<longrightarrow> pl' = rev (map fst ws) @ pl \<and> widgetsOK m ws)"
proof (induction m pl ws rule: reserveWidgets.induct)
  case (2 m pl i d ws)
  show ?case
  proof (cases "\<not> connectionUUID i \<or> i \<in> set pl \<or> length pl \<ge> 128 \<or> WidgetOf m d = None")
    case True
    with 2 show ?thesis by (auto split: if_splits)
  next
    case False
    then have step: "reserveWidgets m (i # pl) ws = (valid, pl')" and i: "distinct (i # pl)" "length (i # pl) \<le> 128"
      using 2 by auto
    from False have "\<not> (\<not> connectionUUID i \<or> i \<in> set pl \<or> 128 \<le> length pl)" "WidgetOf m d \<noteq> None" by blast+
    from 2(1) [OF this step i] False show ?thesis by (simp add: widgetsOK_def)
  qed
qed (auto simp: widgetsOK_def)

lemma connectEntry_spec:
  assumes "connectEntry E il p e = Some e'" "\<not> invalidInstallation E il" "en_ConnectionID e = il_ConnectionID il"
  shows "connectionUUID (en_ConnectionID e') \<and> en_Manifest e' = en_Manifest e \<and> en_Widgets e' = en_Widgets e
    \<and> en_Compatible e' = en_Compatible e \<and> en_Process e' = en_Process e \<and> en_ServiceIDs e' = en_ServiceIDs e"
proof (cases "re_Source E")
  case False
  with assms show ?thesis by (simp add: connectEntry_def invalidInstallation_def)
next
  case True
  let ?found = "describedConnections E il (mf_ID (pk_Manifest p))"
  from True assms(1) have f: "?found \<noteq> []" and e': "en_ConnectionID e' = dc_ID (snd (last ?found))" "en_Manifest e' = en_Manifest e"
      "en_Widgets e' = en_Widgets e" "en_Compatible e' = en_Compatible e" "en_Process e' = en_Process e" "en_ServiceIDs e' = en_ServiceIDs e"
    by (auto simp: connectEntry_def Let_def split: if_splits)
  have "\<forall>x \<in> set ?found. connectionUUID (dc_ID (snd x))"
    by (auto simp: describedConnections_def split: option.splits)
  then have "connectionUUID (dc_ID (snd (last ?found)))" using last_in_set [OF f] by (rule bspec)
  with e' show ?thesis by simp
qed

lemma startEntry_ok:
  assumes st: "registryOK st" and e: "en_Compatible e" "\<not> en_Process e" "en_Manifest e = Some (pk_Manifest p)" "Supported (pk_Manifest p)"
    "connectionUUID (en_ConnectionID e)" "connectionKey (mf_ID (pk_Manifest p)) (en_ConnectionID e) \<in> set (rg_connections st)"
    "connectionKey (mf_ID (pk_Manifest p)) (en_ConnectionID e) \<notin> set (entryKeys (rg_entries st))"
    "widgetsOK (pk_Manifest p) (en_Widgets e)" "fst ` set (en_Widgets e) \<subseteq> set (rg_placements st)"
    "distinct (map fst (en_Widgets e))" "fst ` set (en_Widgets e) \<inter> set (entryPlacements (rg_entries st)) = {}"
  shows "registryOK (startEntry p e st)"
proof -
  have fresh: "registryOK (publishEntry x st')"
    if "registryOK st'" "rg_entries st' = rg_entries st" "entryOK st' x" "en_Manifest x = en_Manifest e" "en_ConnectionID x = en_ConnectionID e"
      "en_Widgets x = en_Widgets e" for x st'
    using that e by (intro registryOK_publish) auto
  let ?new = "st\<lparr>rg_children := (mf_ID (pk_Manifest p), p) # rg_children st\<rparr>"
  have ok: "entryOK st' x" if "x = e \<and> en_Problem e \<or> x = e\<lparr>en_Problem := True\<rparr> \<or>
        x = e\<lparr>en_Process := True\<rparr> \<and> \<not> en_Problem e \<and> map_of (rg_children st') (mf_ID (pk_Manifest p)) \<noteq> None" "grows st st'" for x st'
  proof -
    have "fst ` set (en_Widgets e) \<subseteq> set (rg_placements st')"
        "connectionKey (mf_ID (pk_Manifest p)) (en_ConnectionID e) \<in> set (rg_connections st')"
      using that(2) e(6,9) unfolding grows_def by blast+
    with that(1) e have "compatibleOK st' x (pk_Manifest p)" unfolding compatibleOK_def by (elim disjE conjE) simp_all
    with that(1) e show ?thesis unfolding entryOK_def by (elim disjE conjE) auto
  qed
  have self: "grows st st" and g: "grows st ?new" by (simp_all add: grows_def)
  have bad: "registryOK (publishEntry (e\<lparr>en_Problem := True\<rparr>) st)"
    by (rule fresh [OF st refl ok [OF _ self]]) simp_all
  have kept: "registryOK (publishEntry e st)" if "en_Problem e"
    by (rule fresh [OF st refl ok [OF _ self]]) (simp_all add: that)
  have shared: "registryOK (publishEntry (e\<lparr>en_Process := True\<rparr>) st)"
    if "\<not> en_Problem e" "map_of (rg_children st) (mf_ID (pk_Manifest p)) \<noteq> None"
    by (rule fresh [OF st refl ok [OF _ self]]) (simp_all add: that)
  have started: "registryOK (publishEntry (e\<lparr>en_Process := True\<rparr>) ?new)"
    if "\<not> en_Problem e" "map_of (rg_children st) (mf_ID (pk_Manifest p)) = None"
  proof (rule fresh [OF _ _ ok [OF _ g]])
    show "registryOK ?new"
      by (rule registryOK_grow [OF st _ g]) (use st that(2) in \<open>auto simp: registryOK_def map_of_eq_None_iff\<close>)
  qed (simp_all add: that)
  show ?thesis
    unfolding startEntry_def using bad kept shared started by (auto split: option.split)
qed

lemma registerOne_ok:
  assumes "registryOK st"
  shows "registryOK (registerOne E il st) \<and> (\<exists>e. rg_entries (registerOne E il st) = rg_entries st @ [e])"
proof -
  have bad: "registryOK (publishEntry (e\<lparr>en_Problem := True\<rparr>) st') \<and> (\<exists>x. rg_entries (publishEntry (e\<lparr>en_Problem := True\<rparr>) st') = rg_entries st @ [x])"
    if "registryOK st'" "rg_entries st' = rg_entries st" "\<not> en_Compatible e" "\<not> en_Process e" for e st'
    using that registryOK_bad by simp
  have new: "\<not> en_Compatible (newEntry il)" "\<not> en_Process (newEntry il)" "en_ConnectionID (newEntry il) = il_ConnectionID il"
      "en_Widgets (newEntry il) = il_Widgets il"
    by (simp_all add: newEntry_def)
  show ?thesis
  proof (cases "\<not> invalidInstallation E il \<and> (il_ServiceIDs il = [] \<or> ValidateServiceIDs (il_ServiceIDs il))")
    case False
    with bad [OF assms] new show ?thesis by (auto simp: registerOne_def Let_def split: option.split)
  next
    case valid: True
    show ?thesis
    proof (cases "\<exists>path p. re_Absolute E (il_Package il) = Some path \<and> re_Load E path = Some p \<and> Supported (pk_Manifest p)")
      case False
      with bad [OF assms] new valid show ?thesis by (auto simp: registerOne_def Let_def split: option.split)
    next
      case True
      then obtain path p where p: "re_Absolute E (il_Package il) = Some path" "re_Load E path = Some p" "Supported (pk_Manifest p)" by blast
      obtain ok placements where w: "reserveWidgets (pk_Manifest p) (rg_placements st) (il_Widgets il) = (ok, placements)" by fastforce
      let ?st1 = "st\<lparr>rg_placements := placements\<rparr>"
      have P: "distinct (rg_placements st)" "length (rg_placements st) \<le> 128" using assms by (simp_all add: registryOK_def)
      note W = reserveWidgets_spec [OF w P]
      have st1: "registryOK ?st1"
        by (rule registryOK_grow [OF assms]) (use W assms in \<open>auto simp: registryOK_def grows_def\<close>)
      let ?e2 = "(newEntry il)\<lparr>en_Manifest := Some (pk_Manifest p), en_ConnectionName := (if il_Name il = [] then mf_Name (pk_Manifest p) else il_Name il)\<rparr>"
      have run: "registerOne E il st =
          (if \<not> ok then publishEntry ((newEntry il)\<lparr>en_Manifest := Some (pk_Manifest p), en_Problem := True\<rparr>) ?st1
           else (case connectEntry E il p ?e2 of
              None \<Rightarrow> publishEntry (?e2\<lparr>en_Problem := True\<rparr>) ?st1
            | Some e3 \<Rightarrow>
                if connectionKey (mf_ID (pk_Manifest p)) (en_ConnectionID e3) \<in> set (rg_connections st) then publishEntry (e3\<lparr>en_Problem := True\<rparr>) ?st1
                else startEntry p (e3\<lparr>en_Compatible := True\<rparr>)
                   (?st1\<lparr>rg_connections := connectionKey (mf_ID (pk_Manifest p)) (en_ConnectionID e3) # rg_connections st\<rparr>)))"
        unfolding registerOne_def Let_def using valid p w by (auto split: option.split)
      show ?thesis
      proof (cases "ok \<and> connectEntry E il p ?e2 \<noteq> None")
        case False
        with bad [OF st1] new show ?thesis unfolding run by auto
      next
        case True
        then obtain e3 where e3: "connectEntry E il p ?e2 = Some e3" and ok by blast
        have C: "connectionUUID (en_ConnectionID e3)" "en_Manifest e3 = Some (pk_Manifest p)" "en_Widgets e3 = il_Widgets il" "\<not> en_Compatible e3" "\<not> en_Process e3"
          using connectEntry_spec [OF e3] valid new by simp_all
        let ?key = "connectionKey (mf_ID (pk_Manifest p)) (en_ConnectionID e3)"
        show ?thesis
        proof (cases "?key \<in> set (rg_connections st)")
          case True
          with e3 \<open>ok\<close> bad [OF st1] C show ?thesis unfolding run by simp
        next
          case False
          let ?st2 = "?st1\<lparr>rg_connections := ?key # rg_connections st\<rparr>"
          have st2: "registryOK ?st2" by (rule registryOK_grow [OF st1]) (use st1 in \<open>auto simp: registryOK_def grows_def\<close>)
          have "?key \<notin> set (entryKeys (rg_entries st))" "set (entryPlacements (rg_entries st)) \<subseteq> set (rg_placements st)"
            using False assms by (auto simp: registryOK_def)
          moreover have "widgetsOK (pk_Manifest p) (il_Widgets il)" "fst ` set (il_Widgets il) \<subseteq> set placements"
              "distinct (map fst (il_Widgets il))" "fst ` set (il_Widgets il) \<inter> set (rg_placements st) = {}"
          proof -
            have pl: "distinct placements" "placements = rev (map fst (il_Widgets il)) @ rg_placements st" using W \<open>ok\<close> by blast+
            from pl(1) [unfolded pl(2)] show "distinct (map fst (il_Widgets il))" "fst ` set (il_Widgets il) \<inter> set (rg_placements st) = {}"
              by simp_all
            show "widgetsOK (pk_Manifest p) (il_Widgets il)" "fst ` set (il_Widgets il) \<subseteq> set placements" using W \<open>ok\<close> by simp_all
          qed
          ultimately have "registryOK (startEntry p (e3\<lparr>en_Compatible := True\<rparr>) ?st2)"
            using C p(3) by (intro startEntry_ok st2) auto
          moreover have "\<exists>x. rg_entries (startEntry p (e3\<lparr>en_Compatible := True\<rparr>) ?st2) = rg_entries st @ [x]"
            by (simp add: startEntry_def split: option.split)
          ultimately show ?thesis using False e3 \<open>ok\<close> unfolding run by simp
        qed
      qed
    qed
  qed
qed

section \<open>Finding entries\<close>

lemma entryKeys_unique:
  "distinct (entryKeys es) \<Longrightarrow> e \<in> set es \<Longrightarrow> e' \<in> set es \<Longrightarrow> en_Compatible e \<Longrightarrow> en_Compatible e' \<Longrightarrow>
   en_Manifest e = Some m \<Longrightarrow> en_Manifest e' = Some m' \<Longrightarrow>
   connectionKey (mf_ID m) (en_ConnectionID e) = connectionKey (mf_ID m') (en_ConnectionID e') \<Longrightarrow> e = e'"
proof (induction es)
  case (Cons x es)
  have mem: "connectionKey (mf_ID n) (en_ConnectionID y) \<in> set (entryKeys es)"
    if "y \<in> set es" "en_Compatible y" "en_Manifest y = Some n" for y n
    using that by (force simp: entryKeys_def)
  have keys: "entryKeys (x # es) = entryKeys [x] @ entryKeys es" by (simp add: entryKeys_def)
  have one: "entryKeys [y] = [connectionKey (mf_ID n) (en_ConnectionID y)]" if "en_Compatible y" "en_Manifest y = Some n" for y n
    using that by (simp add: entryKeys_def)
  from Cons show ?case using mem one unfolding keys by fastforce
qed simp

lemma findEntry_unique:
  assumes "registryOK st" "e \<in> set (rg_entries st)" "en_Compatible e" "en_Manifest e = Some m"
  shows "findEntry (rg_entries st) (mf_ID m) (en_ConnectionID e) = Some (e, m)"
proof -
  let ?P = "\<lambda>x. en_Compatible x \<and> (case en_Manifest x of Some n \<Rightarrow> mf_ID n = mf_ID m | None \<Rightarrow> False) \<and> en_ConnectionID x = en_ConnectionID e"
  have "?P e" using assms by simp
  with assms(2) obtain x where x: "find ?P (rg_entries st) = Some x"
    by (cases "find ?P (rg_entries st)") (auto simp: find_None_iff)
  then have "x \<in> set (rg_entries st)" "?P x" by (auto simp: find_Some_iff)
  then obtain n where "en_Manifest x = Some n" "mf_ID n = mf_ID m" "en_ConnectionID x = en_ConnectionID e" "en_Compatible x"
    by (auto split: option.splits)
  with \<open>x \<in> set (rg_entries st)\<close> assms have "x = e"
    by (intro entryKeys_unique [of "rg_entries st" x e n m]) (auto simp: registryOK_def)
  with x assms(4) show ?thesis by (simp add: findEntry_def)
qed

lemma initializeRegistry_ok:
  "registryOK (initializeRegistry E ils) \<and> length (rg_entries (initializeRegistry E ils)) = length ils"
proof -
  have "registryOK (fold (registerOne E) ils st) \<and> length (rg_entries (fold (registerOne E) ils st)) = length (rg_entries st) + length ils"
    if "registryOK st" for st
    using that
  proof (induction ils arbitrary: st)
    case (Cons il ils)
    from registerOne_ok [OF Cons.prems, of E il] obtain e where
      "registryOK (registerOne E il st)" "rg_entries (registerOne E il st) = rg_entries st @ [e]" by blast
    with Cons.IH show ?case by simp
  qed simp
  then show ?thesis unfolding initializeRegistry_def by (simp add: registryOK_def entryKeys_def entryPlacements_def)
qed

text \<open>
  C20. The registry, whatever is configured and whatever the packages say: each installation has one entry; an entry that
  is mounted has a supported manifest and is the one that is found for its plugin and connection, so no two
  mounted entries share them; its widgets are declared, and no widget identifier is used twice nor are there more than
  128; a child runs exactly for the mounted entries without a problem.
\<close>

theorem registry_is_consistent:
  fixes E :: registry_env and ils :: "Installation list"
  defines "es \<equiv> rg_entries (initializeRegistry E ils)"
  shows "length es = length ils \<and> distinct (entryPlacements es) \<and> length (entryPlacements es) \<le> 128 \<and>
    (\<forall>e \<in> set es. en_Process e \<longleftrightarrow> en_Compatible e \<and> \<not> en_Problem e) \<and>
    (\<forall>e \<in> set es. en_Compatible e \<longrightarrow>
       (\<exists>m. en_Manifest e = Some m \<and> Supported m \<and> connectionUUID (en_ConnectionID e) \<and> widgetsOK m (en_Widgets e)
          \<and> findEntry es (mf_ID m) (en_ConnectionID e) = Some (e, m)))"
proof -
  let ?st = "initializeRegistry E ils"
  have ok: "registryOK ?st" and n: "length es = length ils" using initializeRegistry_ok by (simp_all add: es_def)
  then have entries: "\<forall>e \<in> set es. entryOK ?st e" and p: "distinct (entryPlacements es)" "set (entryPlacements es) \<subseteq> set (rg_placements ?st)"
      "distinct (rg_placements ?st)" "length (rg_placements ?st) \<le> 128"
    by (simp_all add: registryOK_def es_def)
  have "length (entryPlacements es) \<le> 128"
    using card_mono [OF _ p(2)] p distinct_card [OF p(1)] distinct_card [OF p(3)] by simp
  moreover have "\<exists>m. en_Manifest e = Some m \<and> Supported m \<and> connectionUUID (en_ConnectionID e) \<and> widgetsOK m (en_Widgets e)
      \<and> findEntry es (mf_ID m) (en_ConnectionID e) = Some (e, m)" if "e \<in> set es" "en_Compatible e" for e
  proof -
    from entries that obtain m where m: "compatibleOK ?st e m" by (auto simp: entryOK_def)
    with findEntry_unique [OF ok _ that(2), of m] that(1) show ?thesis unfolding es_def by (auto simp: compatibleOK_def)
  qed
  ultimately show ?thesis using n p(1) entries by (auto simp: entryOK_def)
qed

section \<open>A small configuration\<close>

definition samplePackage :: Package where
  "samplePackage = \<lparr>pk_Manifest = sampleManifest, pk_Digest = ''d'', pk_Root = ''/p''\<rparr>"

definition sampleEnv :: registry_env where
  "sampleEnv = \<lparr>re_Source = False, re_Descriptors = None, re_Absolute = Some, re_Load = (\<lambda>_. Some samplePackage), re_ContentDigest = (\<lambda>_. None)\<rparr>"

definition sampleInstallation :: Installation where
  "sampleInstallation =
     \<lparr>il_ServiceIDs = [], il_Package = ''/p'', il_ConnectionID = ''00000000-0000-0000-0000-00000000000a'', il_Name = [], il_ConnectionKey = [],
      il_ManifestDigest = [], il_PackageDigest = [], il_Widgets = []\<rparr>"

lemma registry_is_consistent_witness:
  "\<exists>a b. rg_entries (initializeRegistry sampleEnv [sampleInstallation, sampleInstallation]) = [a, b] \<and> en_Compatible a \<and> \<not> en_Compatible b \<and>
     findEntry [a, b] ''org.hosts'' ''00000000-0000-0000-0000-00000000000a'' = Some (a, sampleManifest)"
proof -
  have s: "Supported sampleManifest" "mf_ID sampleManifest = ''org.hosts''"
    using sample_available sample_found by (simp_all add: Available_def)
  have u: "connectionUUID ''00000000-0000-0000-0000-00000000000a''" by code_simp
  let ?a = "\<lparr>en_Manifest = Some sampleManifest, en_ConnectionID = ''00000000-0000-0000-0000-00000000000a'', en_ConnectionName = mf_Name sampleManifest,
    en_Compatible = True, en_Problem = False, en_Widgets = [], en_ServiceIDs = [], en_Process = True\<rparr>"
  let ?b = "?a\<lparr>en_Compatible := False, en_Problem := True, en_Process := False\<rparr>"
  have run: "rg_entries (initializeRegistry sampleEnv [sampleInstallation, sampleInstallation]) = [?a, ?b]"
    using s u by (simp add: initializeRegistry_def registerOne_def sampleInstallation_def sampleEnv_def invalidInstallation_def samplePackage_def
        newEntry_def connectEntry_def startEntry_def publishEntry_def Let_def)
  from registry_is_consistent [of sampleEnv "[sampleInstallation, sampleInstallation]"] have
    "findEntry [?a, ?b] (mf_ID sampleManifest) (en_ConnectionID ?a) = Some (?a, sampleManifest)"
    unfolding run by simp
  with run s(2) show ?thesis by simp
qed

end
