(* ===== verification/Spec2Isabelle.thy ===== *)
theory Spec2Isabelle
  imports CatalogService KubernetesFacts ContainersFacts NotificationService DashboardService Appearance FontTables
    RegistryFacts
begin

text \<open>
  Verification of balemoh.

  Balemoh is a dashboard for a home laboratory. Its server discovers services in container engines and
  Kubernetes clusters, keeps them in a catalogue that the user edits, collects telemetry of the hosts,
  keeps an inbox of notifications that is forwarded by Web Push, runs plugins, and composes all this to a
  homepage with a layout that the user arranges. The state is one SQLite database, opened with a single
  connection. This development models the use cases (\<open>internal/application\<close>) and the storage adapters
  (\<open>internal/adapters/sqlite\<close>) and proves what they guarantee together.

  \<^bold>\<open>Theories.\<close>
  \<^item> \<open>Prelude\<close>, \<open>GoLib\<close>, \<open>Tables\<close>: collections of rules, loops that stop at the first error; the parts of Go's
    library that the sources use (trimming, UTF-8, decimal numbers, instants), written out, and the record
    \<open>golib\<close> of those they only call (SHA-256, \<open>net/url\<close>, \<open>encoding/json\<close>, UUIDs); SQL statements on lists of rows.
  \<^item> \<open>CatalogModel\<close> (\<open>catalog/model.go\<close>, \<open>edit.go\<close>, \<open>manual.go\<close>), \<open>UnionFind\<close>, \<open>CatalogRelated\<close> (\<open>related.go\<close>),
    \<open>CatalogGroup\<close> (\<open>group.go\<close>, \<open>lifecycle.go\<close>), \<open>IconModel\<close>, \<open>CatalogStore\<close> (\<open>sqlite/catalog.go\<close>, \<open>lifecycle.go\<close>,
    \<open>manual.go\<close>), \<open>CatalogService\<close> (\<open>catalog/service.go\<close>): candidates and snapshots, the read projection that
    joins observations of one service, the tables and what snapshots, edits, pins and lifecycle actions do to
    them, the synchronisation of discoverers.
  \<^item> \<open>Kubernetes\<close>, \<open>KubernetesFacts\<close> (\<open>kubernetes/kubernetes.go\<close>, \<open>exposure.go\<close>), \<open>Containers\<close>,
    \<open>ContainersFacts\<close> (\<open>container/container.go\<close>), on the lemmas of \<open>Discovery\<close>: the discoverers of a cluster and of a
    container engine, from the answers to their list requests to the candidates of a snapshot.
  \<^item> \<open>NotificationModel\<close>, \<open>NotificationStore\<close>, \<open>WebPush\<close>, \<open>NotificationService\<close> (\<open>notifications/\<close>, \<open>webpush/\<close>,
    \<open>sqlite/notifications.go\<close>, \<open>sqlite/web_push.go\<close>): messages, the inbox with replay detection, paging and
    retention, the queue of deliveries with its leases.
  \<^item> \<open>TelemetryModel\<close>, \<open>TelemetryStore\<close> (\<open>telemetry/model.go\<close>, \<open>sqlite/telemetry.go\<close>): batches of host
    observations, the tables of hosts and samples, the list of hosts and the detail of one.
  \<^item> \<open>PluginModel\<close>, \<open>PluginStore\<close>, \<open>PluginService\<close> (\<open>plugins/\<close>, \<open>sqlite/plugins.go\<close>, \<open>placements.go\<close>,
    \<open>dashboard.go\<close>): connections and their reconciliation with the deployment, placements of widgets with
    revisions, selections.
  \<^item> \<open>Revisions\<close>, \<open>LayoutModel\<close>, \<open>LayoutResolve\<close>, \<open>DashboardStore\<close>, \<open>DashboardService\<close> (\<open>dashboard/\<close>,
    \<open>sqlite/dashboard_layout.go\<close>): layout documents, their validation and resolution, the stored layout, the
    providers of widgets and the snapshot of the homepage.
  \<^item> \<open>PresentationModel\<close>, \<open>PresentationStore\<close>, \<open>Appearance\<close> (\<open>presentation/types.go\<close>,
    \<open>sqlite/presentation.go\<close>, \<open>icons.go\<close>): themes with their fonts and brand icons, the selected one with its
    revision and the last command, uploaded fonts and icons, on tables that share the catalogue's icons.
  \<^item> \<open>FontFormat\<close>, \<open>FontFacts\<close>, \<open>FontTables\<close> (\<open>fontvalidate/font.go\<close>): the reader of TrueType, OpenType, WOFF and
    WOFF2 files, with a panic as an outcome of its own.

  A Go record is a \<open>record\<close> with the same fields, an \<open>error\<close> a constructor of the component's error type, a
  function that may fail gives \<open>Inl\<close> of it or \<open>Inr\<close> of its result. A store operation is a function from the
  database to an error, which leaves it as it was (the transaction is rolled back), or a result and the next
  database. Strings are lists of bytes. Instants are numbers of nanoseconds, columns with text that need not
  decode are of option type. Clocks and fresh identifiers are arguments.

  \<^bold>\<open>Contracts.\<close> \<open>upsert_table\<close> is the contract of an upsert, interpreted for each table that has one;
  \<open>catalog_store_contract\<close> and \<open>notification_store_contract\<close> are what the services rely on, interpreted on the
  SQLite stores; \<open>revisioned_resource\<close> is the register with revisions that both the layout and a placement
  refine; \<open>source_keys\<close> relates the keys that are built by joining parts with NUL to the parts.

  \<^bold>\<open>What is shown.\<close> The reachable databases keep their invariants: keys, foreign keys, bounds (128 hosts of a source,
  128 selections and placements, the capacity of the inbox). Discovery never loses or overwrites local choices and is
  idempotent; the projection shows each observation once. A discovery of a cluster gives one valid snapshot, whatever
  the order of the lists, with exactly the reachable objects; the evidence of a route names only its services; a Compose
  service has exactly what its containers have.
  Publications are idempotent and stored
  notifications never change; a leased delivery is not handed out twice. Layout and placement edits are
  serialised by their revision. The validator of layouts accepts exactly the well-formed documents, resolving
  one never panics and shows each widget once, and the snapshot shows each selection once with its data. The
  appearance can always be shown, and what a theme refers to is not deleted. The font reader does not panic on
  any input, decompresses at most 64 MiB and accepts exactly the shortest number encodings.

  \<^bold>\<open>Bounds and fuel.\<close> \<open>root\<close> of the union-find takes the length of the forest plus one as fuel, which is
  enough for each forest the code builds (\<open>root_spec\<close>); \<open>walkPages\<close> and \<open>minutesUpTo\<close> end because a number
  decreases. 64-bit counters (revisions, sequences) are integers with the check of the code or of SQLite at the
  largest value; where the code has none, the theorem has the bound as a hypothesis.

  \<^bold>\<open>Not modelled.\<close> Failures of the database driver and cancelled contexts; the HTTP and RPC handlers and the
  user-interface server, which decode requests and render; generated code; process, network and
  file operations of discovery, telemetry collection, federation and plugins (the answers of the API server and of the container engine,
  label selectors and untyped objects are parameters); the theme definitions and the
  decompressors, which come from other modules and are parameters.
\<close>

end
